(* ===== verification/Prelude.thy ===== *)
theory Prelude
  imports Main "HOL-Library.Word"
begin

text \<open>
  Shared base of the SecAFS development: the machine integers of the Rust sources and
  their casts, the error type of the SDK, the state-and-error monad in which every
  operation is written, a preservation calculus for that monad, and the list lemmas that
  the component theories share.
\<close>

unbundle bit_operations_syntax

section \<open>Machine integers\<close>

text \<open>
  \<open>u32\<close> values (modes, owners) are 32-bit words.  \<open>i64\<close> values are the BIGINT columns of
  the database and are read as integers; \<open>u64\<close> and \<open>usize\<close> values (offsets, lengths) are
  natural numbers below \<open>2^64\<close>, with the casts of the sources written out.
\<close>

type_synonym i64 = int
type_synonym u32 = "32 word"
type_synonym u64 = nat
type_synonym byte = "8 word"
type_synonym bytes = "byte list"

text \<open>The Rust cast \<open>x as i64\<close> of a \<open>u64\<close>, and \<open>x as u64\<close> of an \<open>i64\<close>.\<close>

definition as_i64 :: "u64 \<Rightarrow> i64" where
  "as_i64 n = (let m = int n mod 2 ^ 64 in if m < 2 ^ 63 then m else m - 2 ^ 64)"

definition as_u64 :: "i64 \<Rightarrow> u64" where
  "as_u64 i = nat (i mod 2 ^ 64)"

text \<open>The Rust cast \<open>x as u32\<close> of an \<open>i64\<close>, and \<open>x as i64\<close> of a \<open>u32\<close>.\<close>

definition u32_of_i64 :: "i64 \<Rightarrow> u32" where
  "u32_of_i64 i = word_of_int i"

definition i64_of_u32 :: "u32 \<Rightarrow> i64" where
  "i64_of_u32 w = uint w"

text \<open>Unchecked addition of two \<open>u64\<close> values: it wraps.\<close>

definition u64_add :: "u64 \<Rightarrow> u64 \<Rightarrow> u64" where
  "u64_add a b = (a + b) mod 2 ^ 64"

lemma as_i64_small [simp]: "n < 2 ^ 63 \<Longrightarrow> as_i64 n = int n"
  by (auto simp: as_i64_def Let_def)

lemma as_u64_small [simp]: "0 \<le> i \<Longrightarrow> i < 2 ^ 63 \<Longrightarrow> as_u64 i = nat i"
  by (simp add: as_u64_def)

lemma as_u64_of_nat [simp]: "n < 2 ^ 63 \<Longrightarrow> as_u64 (int n) = n"
  by simp

lemma as_u64_as_i64 [simp]: "n < 2 ^ 64 \<Longrightarrow> as_u64 (as_i64 n) = n"
  by (auto simp: as_u64_def as_i64_def Let_def)

lemma as_i64_as_u64: "- (2 ^ 63) \<le> i \<Longrightarrow> i < 2 ^ 63 \<Longrightarrow> as_i64 (as_u64 i) = i"
proof (cases "0 \<le> i")
  case False
  assume "- (2 ^ 63) \<le> i"
  then have "i mod 2 ^ 64 = i + 2 ^ 64"
    using False mod_pos_pos_trivial [of "i + 2 ^ 64" "2 ^ 64"] by simp
  then show ?thesis using False \<open>- (2 ^ 63) \<le> i\<close> by (simp add: as_i64_def as_u64_def Let_def)
qed (simp add: as_i64_def as_u64_def Let_def)

lemma u64_add_small [simp]: "a + b < 2 ^ 64 \<Longrightarrow> u64_add a b = a + b"
  by (simp add: u64_add_def)

lemma u32_i64_u32 [simp]: "u32_of_i64 (i64_of_u32 w) = w"
  by (simp add: u32_of_i64_def i64_of_u32_def)

lemma u32_zero_iff:
  assumes "0 \<le> i" and "i < 2 ^ 32"
  shows "u32_of_i64 i = 0 \<longleftrightarrow> i = 0"
proof -
  have "uint (u32_of_i64 i) = i"
    using assms by (simp add: u32_of_i64_def unsigned_of_int take_bit_int_eq_self)
  then show ?thesis by (auto simp: u32_of_i64_def)
qed

section \<open>Errors\<close>

text \<open>
  \<open>FsError\<close> of \<open>filesystem/mod.rs\<close>, and \<open>Error\<close> of \<open>error.rs\<close> restricted to the variants
  the modelled operations raise.  \<open>Panic\<close> is a Rust panic (\<open>unwrap\<close>/\<open>expect\<close> on an absent
  value, or an arithmetic trap); it is not a variant of the source's enum.
\<close>

datatype fs_error =
    NotFound
  | AlreadyExists
  | NotEmpty
  | NotADirectory
  | IsADirectory
  | NotASymlink
  | InvalidPath
  | RootOperation
  | SymlinkLoop
  | InvalidRename
  | NameTooLong

datatype error =
    Postgres
  | Json
  | Time
  | Fs fs_error
  | ToolCallNotFound
  | Internal string
  | SchemaVersionMismatch string string
  | Panic

text \<open>\<open>FsError::to_errno\<close>, with the Linux values of the libc constants.\<close>

fun to_errno :: "fs_error \<Rightarrow> int" where
  "to_errno NotFound = 2"
| "to_errno AlreadyExists = 17"
| "to_errno NotEmpty = 39"
| "to_errno NotADirectory = 20"
| "to_errno IsADirectory = 21"
| "to_errno NotASymlink = 22"
| "to_errno InvalidPath = 22"
| "to_errno RootOperation = 1"
| "to_errno SymlinkLoop = 40"
| "to_errno InvalidRename = 22"
| "to_errno NameTooLong = 36"

section \<open>Operations: state and error\<close>

type_synonym ('s, 'a) oper = "'s \<Rightarrow> (error + 'a) \<times> 's"

text \<open>
  \<open>bnd m f\<close> is the sequencing of the sources (\<open>let x = m.await?; f\<close>): an error of \<open>m\<close>
  returns at once, with the state \<open>m\<close> left behind.
\<close>

definition ret :: "'a \<Rightarrow> ('s, 'a) oper" where
  "ret x s = (Inr x, s)"

definition throw :: "error \<Rightarrow> ('s, 'a) oper" where
  "throw e s = (Inl e, s)"

definition bnd :: "('s, 'a) oper \<Rightarrow> ('a \<Rightarrow> ('s, 'b) oper) \<Rightarrow> ('s, 'b) oper" where
  "bnd m f s = (case m s of (Inl e, s') \<Rightarrow> (Inl e, s') | (Inr x, s') \<Rightarrow> f x s')"

definition sq :: "('s, 'a) oper \<Rightarrow> ('s, 'b) oper \<Rightarrow> ('s, 'b) oper" where
  "sq m n = bnd m (\<lambda>_. n)"

text \<open>\<open>ok_or e v\<close>: the \<open>Option::ok_or(e)?\<close> of the sources.\<close>

definition ok_or :: "error \<Rightarrow> 'a option \<Rightarrow> ('s, 'a) oper" where
  "ok_or e v = (case v of None \<Rightarrow> throw e | Some x \<Rightarrow> ret x)"

text \<open>\<open>try_op m\<close> runs \<open>m\<close> and hands its result to the caller as a value.\<close>

definition try_op :: "('s, 'a) oper \<Rightarrow> ('s, error + 'a) oper" where
  "try_op m s = (case m s of (r, s') \<Rightarrow> (Inr r, s'))"

text \<open>\<open>for_each f xs\<close>: a \<open>for\<close> loop whose body may fail.\<close>

fun for_each :: "('x \<Rightarrow> ('s, unit) oper) \<Rightarrow> 'x list \<Rightarrow> ('s, unit) oper" where
  "for_each f [] = ret ()"
| "for_each f (x # xs) = sq (f x) (for_each f xs)"

named_theorems oper_simps \<open>evaluation of the monad's combinators\<close>

lemma ret_run [simp, oper_simps]: "ret x s = (Inr x, s)"
  by (simp add: ret_def)

lemma throw_run [simp, oper_simps]: "throw e s = (Inl e, s)"
  by (simp add: throw_def)

lemma bnd_Inr [simp, oper_simps]: "m s = (Inr x, s') \<Longrightarrow> bnd m f s = f x s'"
  by (simp add: bnd_def)

lemma bnd_Inl [simp, oper_simps]: "m s = (Inl e, s') \<Longrightarrow> bnd m f s = (Inl e, s')"
  by (simp add: bnd_def)

lemma sq_Inr [simp, oper_simps]: "m s = (Inr x, s') \<Longrightarrow> sq m n s = n s'"
  by (simp add: sq_def)

lemma sq_Inl [simp, oper_simps]: "m s = (Inl e, s') \<Longrightarrow> sq m n s = (Inl e, s')"
  by (simp add: sq_def)

lemma ok_or_simps [simp, oper_simps]:
  "ok_or e None s = (Inl e, s)" "ok_or e (Some x) s = (Inr x, s)"
  by (simp_all add: ok_or_def)

lemma try_op_run [simp, oper_simps]: "m s = (r, s') \<Longrightarrow> try_op m s = (Inr r, s')"
  by (simp add: try_op_def)

lemma bnd_InrE:
  assumes "bnd m f s = (Inr y, s'')"
  obtains x s' where "m s = (Inr x, s')" and "f x s' = (Inr y, s'')"
  using assms by (auto simp: bnd_def split: prod.splits sum.splits)

section \<open>A preservation calculus\<close>

text \<open>
  \<open>preserves I m\<close>: whatever \<open>m\<close> returns, a value or an error, it leaves a state that
  satisfies \<open>I\<close> if it started in one.  The rules of the collection \<open>pres\<close> follow the
  structure of an operation, so that a proof is one pass over its definition.
\<close>

definition preserves :: "('s \<Rightarrow> bool) \<Rightarrow> ('s, 'a) oper \<Rightarrow> bool" where
  "preserves I m \<longleftrightarrow> (\<forall>s. I s \<longrightarrow> I (snd (m s)))"

named_theorems pres \<open>preservation rules\<close>

lemma preservesI: "(\<And>s. I s \<Longrightarrow> I (snd (m s))) \<Longrightarrow> preserves I m"
  by (simp add: preserves_def)

lemma preservesD: "preserves I m \<Longrightarrow> I s \<Longrightarrow> I (snd (m s))"
  by (simp add: preserves_def)

lemma preserves_ret [pres]: "preserves I (ret x)"
  by (simp add: preserves_def)

lemma preserves_throw [pres]: "preserves I (throw e)"
  by (simp add: preserves_def)

lemma preserves_bnd [pres]:
  assumes "preserves I m" and "\<And>x. preserves I (f x)"
  shows "preserves I (bnd m f)"
proof (rule preservesI)
  fix s
  assume "I s"
  obtain r s' where m: "m s = (r, s')" by fastforce
  have "I s'" using preservesD [OF assms(1) \<open>I s\<close>] m by simp
  then show "I (snd (bnd m f s))"
    using m assms(2) by (cases r) (auto simp: bnd_def preserves_def)
qed

lemma preserves_sq [pres]: "preserves I m \<Longrightarrow> preserves I n \<Longrightarrow> preserves I (sq m n)"
  by (simp add: sq_def preserves_bnd)

lemma preserves_if [pres]:
  "preserves I m \<Longrightarrow> preserves I n \<Longrightarrow> preserves I (if b then m else n)"
  by simp

lemma preserves_case_option [pres]:
  "preserves I m \<Longrightarrow> (\<And>x. preserves I (f x)) \<Longrightarrow>
    preserves I (case v of None \<Rightarrow> m | Some x \<Rightarrow> f x)"
  by (cases v) auto

lemma preserves_case_sum [pres]:
  "(\<And>e. preserves I (g e)) \<Longrightarrow> (\<And>x. preserves I (f x)) \<Longrightarrow>
    preserves I (case v of Inl e \<Rightarrow> g e | Inr x \<Rightarrow> f x)"
  by (cases v) auto

lemma preserves_case_prod [pres]:
  "(\<And>x y. preserves I (f x y)) \<Longrightarrow> preserves I (case v of (x, y) \<Rightarrow> f x y)"
  by (cases v) auto

lemma preserves_let [pres]: "(\<And>x. preserves I (f x)) \<Longrightarrow> preserves I (let x = v in f x)"
  by simp

lemma preserves_ok_or [pres]: "preserves I (ok_or e v)"
  by (simp add: ok_or_def preserves_ret preserves_throw split: option.split)

lemma preserves_try [pres]: "preserves I m \<Longrightarrow> preserves I (try_op m)"
  by (fastforce simp: preserves_def try_op_def split: prod.splits)

lemma preserves_for_each [pres]: "(\<And>x. preserves I (f x)) \<Longrightarrow> preserves I (for_each f xs)"
  by (induction xs) (auto intro: preserves_sq preserves_ret)

section \<open>Lists\<close>

text \<open>
  \<open>look key t k\<close> is the row of the table \<open>t\<close> whose key is \<open>k\<close>; on a table with distinct
  keys the statements of SQL are map updates of it.
\<close>

definition look :: "('r \<Rightarrow> 'k) \<Rightarrow> 'r list \<Rightarrow> 'k \<Rightarrow> 'r option" where
  "look key t k = find (\<lambda>r. key r = k) t"

named_theorems table_simps \<open>lookups after a table statement\<close>

lemma look_Nil [simp]: "look key [] k = None"
  by (simp add: look_def)

lemma look_Cons [simp]: "look key (r # t) k = (if key r = k then Some r else look key t k)"
  by (simp add: look_def)

lemma look_None_iff: "look key t k = None \<longleftrightarrow> k \<notin> key ` set t"
  by (induction t) auto

lemma look_Some_key [dest]: "look key t k = Some r \<Longrightarrow> key r = k \<and> r \<in> set t"
  by (induction t) (auto split: if_splits)

lemma look_key_in: "look key t k = Some r \<Longrightarrow> k \<in> key ` set t"
  by (drule look_Some_key) auto

lemma look_Some_iff:
  "distinct (map key t) \<Longrightarrow> look key t k = Some r \<longleftrightarrow> r \<in> set t \<and> key r = k"
  by (induction t) (auto split: if_splits)

lemma look_append [table_simps]:
  "look key (t @ u) k = (case look key t k of None \<Rightarrow> look key u k | Some r \<Rightarrow> Some r)"
  by (induction t) auto

lemma look_snoc_fresh [table_simps]:
  "look key t (key r) = None \<Longrightarrow> look key (t @ [r]) k = ((look key t)(key r \<mapsto> r)) k"
  by (auto simp: look_append split: option.splits)

lemma look_filter [table_simps]:
  "distinct (map key t) \<Longrightarrow>
    look key (filter p t) k = (case look key t k of None \<Rightarrow> None | Some r \<Rightarrow> if p r then Some r else None)"
  by (induction t) (auto simp: look_None_iff split: option.splits dest: look_key_in)

lemma look_map [table_simps]:
  assumes "\<And>r. r \<in> set t \<Longrightarrow> key (g r) = key r"
  shows "look key (map g t) k = map_option g (look key t k)"
  using assms by (induction t) auto

lemma look_map_key [table_simps]:
  assumes "\<And>r. key r = k \<Longrightarrow> key (f r) = k"
  shows "look key (map (\<lambda>r. if key r = k then f r else r) t) =
    (look key t)(k := map_option f (look key t k))"
proof (rule ext)
  show "look key (map (\<lambda>r. if key r = k then f r else r) t) x =
    ((look key t)(k := map_option f (look key t k))) x" for x
    using assms by (induction t) auto
qed

lemma filter_key_look:
  "distinct (map key t) \<Longrightarrow>
    filter (\<lambda>r. key r = k) t = (case look key t k of None \<Rightarrow> [] | Some r \<Rightarrow> [r])"
proof (induction t)
  case (Cons r t)
  then show ?case
    by (auto simp: look_None_iff filter_empty_conv split: option.splits dest: look_key_in)
qed simp

lemma distinct_map_filter_key: "distinct (map key t) \<Longrightarrow> distinct (map key (filter p t))"
  by (rule distinct_map_filter)

lemma map_key_map [simp]: "(\<And>r. key (g r) = key r) \<Longrightarrow> map key (map g t) = map key t"
  by simp

section \<open>Chunk arithmetic\<close>

text \<open>A write advances: every chunk step consumes at least one byte.\<close>

lemma chunk_step_decreases [termination_simp]:
  fixes w n cs x :: nat
  assumes "w < n" and "0 < cs"
  shows "n - (w + min (cs - x mod cs) (n - w)) < n - w"
proof -
  have "x mod cs < cs" using assms(2) by simp
  then have "0 < min (cs - x mod cs) (n - w)" using assms(1) by simp
  then show ?thesis using assms(1) by linarith
qed

text \<open>Extending a read range by one chunk extends the bytes read.\<close>

lemma upt_split_chunk:
  fixes off k cs :: nat
  assumes "off \<le> (k + 1) * cs"
  shows "[off..<(k + 1) * cs] = [off..<k * cs] @ [max off (k * cs)..<(k + 1) * cs]"
proof (cases "off \<le> k * cs")
  case True
  then show ?thesis
    using upt_add_eq_append [of off "k * cs" cs] by (simp add: max_def add.commute)
next
  case False
  then show ?thesis by (simp add: max_def)
qed

lemma div_mult_le_self: "(off :: nat) div cs * cs \<le> off"
  by simp

lemma le_Suc_div_mult: "0 < cs \<Longrightarrow> (off :: nat) < (off div cs + 1) * cs"
  using dividend_less_times_div [of cs off] by (simp add: algebra_simps)

end
