(* ===== verification/Schema.thy ===== *)
theory Schema
  imports Prelude
begin

text \<open>
  The data of the program: the rows of the database tables that
  \<open>SecAFS::initialize_schema\<close>, \<open>snapshot/schema.rs\<close>, \<open>KvStore::initialize\<close>,
  \<open>ToolCalls::initialize\<close> and \<open>OverlayFS::init_schema\<close> create, the file modes and the
  \<open>Stats\<close> structure of \<open>filesystem/mod.rs\<close>, and the reading of a row as \<open>Stats\<close>.
\<close>

section \<open>File modes\<close>

text \<open>The octal constants of the sources, written in hexadecimal.\<close>

definition S_IFMT :: u32 where "S_IFMT = 0xF000"
definition S_IFREG :: u32 where "S_IFREG = 0x8000"
definition S_IFDIR :: u32 where "S_IFDIR = 0x4000"
definition S_IFLNK :: u32 where "S_IFLNK = 0xA000"
definition PERM_BITS :: u32 where "PERM_BITS = 0xFFF"
definition DEFAULT_FILE_MODE :: u32 where "DEFAULT_FILE_MODE = S_IFREG OR 0x1A4"
definition DEFAULT_DIR_MODE :: u32 where "DEFAULT_DIR_MODE = S_IFDIR OR 0x1ED"

definition MAX_NAME_LEN :: nat where "MAX_NAME_LEN = 255"
definition ROOT_INO :: i64 where "ROOT_INO = 1"

lemmas mode_defs = S_IFMT_def S_IFREG_def S_IFDIR_def S_IFLNK_def PERM_BITS_def
  DEFAULT_FILE_MODE_def DEFAULT_DIR_MODE_def

text \<open>
  The type bits of a mode built from a type and permission bits are that type: what makes
  a created node recognisable as a file, a directory or a link.
\<close>

lemma type_of_mode [simp]:
  "(S_IFDIR OR (m AND PERM_BITS)) AND S_IFMT = S_IFDIR"
  "(S_IFREG OR (m AND PERM_BITS)) AND S_IFMT = S_IFREG"
  "((k AND S_IFMT) OR (m AND PERM_BITS)) AND S_IFMT = k AND S_IFMT"
proof -
  have [simp]: "PERM_BITS AND S_IFMT = 0" by (simp add: mode_defs)
  have m [simp]: "(m AND PERM_BITS) AND S_IFMT = 0"
    by (simp only: and.assoc) simp
  have "S_IFDIR AND S_IFMT = S_IFDIR" "S_IFREG AND S_IFMT = S_IFREG"
    by (simp_all add: mode_defs)
  then show "(S_IFDIR OR (m AND PERM_BITS)) AND S_IFMT = S_IFDIR"
    "(S_IFREG OR (m AND PERM_BITS)) AND S_IFMT = S_IFREG"
    by (simp_all add: bit.conj_disj_distrib2)
  show "((k AND S_IFMT) OR (m AND PERM_BITS)) AND S_IFMT = k AND S_IFMT"
    by (simp add: bit.conj_disj_distrib2 and.assoc)
qed

lemma type_distinct [simp]:
  "S_IFDIR \<noteq> S_IFREG" "S_IFREG \<noteq> S_IFDIR" "S_IFLNK \<noteq> S_IFDIR" "S_IFDIR \<noteq> S_IFLNK"
  "S_IFLNK \<noteq> S_IFREG" "S_IFREG \<noteq> S_IFLNK"
  by (simp_all add: mode_defs)

section \<open>Rows\<close>

record inode_row =
  i_ino :: i64
  i_mode :: i64
  i_nlink :: i64
  i_uid :: i64
  i_gid :: i64
  i_size :: i64
  i_atime :: i64
  i_mtime :: i64
  i_ctime :: i64
  i_rdev :: i64
  i_atime_nsec :: i64
  i_mtime_nsec :: i64
  i_ctime_nsec :: i64

record dentry_row =
  d_id :: i64
  d_name :: string
  d_parent :: i64
  d_ino :: i64

record data_row =
  b_ino :: i64
  b_index :: i64
  b_data :: bytes

record symlink_row =
  l_ino :: i64
  l_target :: string

record volume_row =
  v_id :: string
  v_root :: i64

record kv_row =
  k_key :: string
  k_value :: string
  k_created :: i64
  k_updated :: i64

record vstate_row =
  s_volume :: string
  s_enabled :: bool
  s_current :: i64

record snapshot_row =
  p_volume :: string
  p_snap :: i64
  p_committed :: i64
  p_label :: "string option"

record tool_row =
  t_id :: i64
  t_name :: string
  t_parameters :: string
  t_result :: "string option"
  t_error :: "string option"
  t_status :: string
  t_started :: i64
  t_completed :: "i64 option"
  t_duration :: "i64 option"

text \<open>
  A row of the five typed undo tables.  The key columns are always set; the other columns
  carry the row before the change and are NULL for an insertion.  The serial column
  \<open>undo_id\<close> is the position in the list.
\<close>

record ('k, 'r) undo_row =
  u_volume :: string
  u_snap :: i64
  u_op :: char
  u_key :: 'k
  u_old :: "'r option"

record tables =
  fs_config :: "(string \<times> string) list"
  fs_inode :: "inode_row list"
  fs_dentry :: "dentry_row list"
  fs_data :: "data_row list"
  fs_symlink :: "symlink_row list"
  fs_volumes :: "volume_row list"
  kv_store :: "kv_row list"
  tool_calls :: "tool_row list"
  fs_volume_state :: "vstate_row list"
  fs_snapshots :: "snapshot_row list"
  fs_inode_undo :: "(i64, inode_row) undo_row list"
  fs_dentry_undo :: "(i64, dentry_row) undo_row list"
  fs_data_undo :: "(i64 \<times> i64, data_row) undo_row list"
  fs_symlink_undo :: "(i64, symlink_row) undo_row list"
  kv_store_undo :: "(string, kv_row) undo_row list"
  fs_whiteout :: "(string \<times> i64) list"
  fs_origin :: "(i64 \<times> i64) list"
  fs_overlay_config :: "(string \<times> string) list"

text \<open>Keys, and the PRIMARY KEY and UNIQUE constraints of the tables.\<close>

abbreviation d_slot :: "dentry_row \<Rightarrow> i64 \<times> string" where
  "d_slot d \<equiv> (d_parent d, d_name d)"

abbreviation b_key :: "data_row \<Rightarrow> i64 \<times> i64" where
  "b_key b \<equiv> (b_ino b, b_index b)"

definition inode_ok :: "inode_row list \<Rightarrow> bool" where
  "inode_ok t \<longleftrightarrow> distinct (map i_ino t)"

definition dentry_ok :: "dentry_row list \<Rightarrow> bool" where
  "dentry_ok t \<longleftrightarrow> distinct (map d_id t) \<and> distinct (map d_slot t)"

definition data_ok :: "data_row list \<Rightarrow> bool" where
  "data_ok t \<longleftrightarrow> distinct (map b_key t)"

definition symlink_ok :: "symlink_row list \<Rightarrow> bool" where
  "symlink_ok t \<longleftrightarrow> distinct (map l_ino t)"

definition kv_ok :: "kv_row list \<Rightarrow> bool" where
  "kv_ok t \<longleftrightarrow> distinct (map k_key t)"

lemmas constraint_defs = inode_ok_def dentry_ok_def data_ok_def symlink_ok_def kv_ok_def

section \<open>Stats\<close>

record stats =
  st_ino :: i64
  st_mode :: u32
  st_nlink :: u32
  st_uid :: u32
  st_gid :: u32
  st_size :: i64
  st_atime :: i64
  st_mtime :: i64
  st_ctime :: i64
  st_atime_nsec :: u32
  st_mtime_nsec :: u32
  st_ctime_nsec :: u32
  st_rdev :: u64

definition is_file :: "stats \<Rightarrow> bool" where
  "is_file s \<longleftrightarrow> st_mode s AND S_IFMT = S_IFREG"

definition is_directory :: "stats \<Rightarrow> bool" where
  "is_directory s \<longleftrightarrow> st_mode s AND S_IFMT = S_IFDIR"

definition is_symlink :: "stats \<Rightarrow> bool" where
  "is_symlink s \<longleftrightarrow> st_mode s AND S_IFMT = S_IFLNK"

text \<open>\<open>SecAFS::build_stats_from_row\<close>: every column is NOT NULL, so no default applies.\<close>

definition build_stats_from_row :: "inode_row \<Rightarrow> stats" where
  "build_stats_from_row r =
    \<lparr>st_ino = i_ino r, st_mode = u32_of_i64 (i_mode r), st_nlink = u32_of_i64 (i_nlink r),
     st_uid = u32_of_i64 (i_uid r), st_gid = u32_of_i64 (i_gid r), st_size = i_size r,
     st_atime = i_atime r, st_mtime = i_mtime r, st_ctime = i_ctime r,
     st_atime_nsec = u32_of_i64 (i_atime_nsec r), st_mtime_nsec = u32_of_i64 (i_mtime_nsec r),
     st_ctime_nsec = u32_of_i64 (i_ctime_nsec r), st_rdev = as_u64 (i_rdev r)\<rparr>"

definition mode_type :: "i64 \<Rightarrow> u32" where
  "mode_type m = u32_of_i64 m AND S_IFMT"

text \<open>\<open>DirEntry\<close>, \<open>FilesystemStats\<close> and \<open>TimeChange\<close> of \<open>filesystem/mod.rs\<close>.\<close>

record dir_entry =
  de_name :: string
  de_stats :: stats

record filesystem_stats =
  inodes :: u64
  bytes_used :: u64

datatype time_change = Omit | Now | SetTime i64 u32

end
