(* ===== verification/Session.thy ===== *)
theory Session
  imports Schema
begin

text \<open>
  A database session (\<open>DbConn\<close> of \<open>db.rs\<close>) and the SQL the program sends over it.
  A statement is translated to the relational operation its text denotes, on tables as lists
  of rows, with the constraints of the schema, the \<open>ON DELETE CASCADE\<close> references and the
  undo triggers of \<open>snapshot/triggers.rs\<close>.  The server itself is outside the program: whether
  a statement reaches it and succeeds is a parameter of the model, the schedule \<open>faults\<close> of
  the session, one entry per statement.  Transactions follow \<open>DbTransaction\<close>: \<open>BEGIN\<close> keeps
  the committed tables, a failed statement aborts the transaction and every later statement
  fails until it ends.  Sequences (\<open>BIGSERIAL\<close>) are not transactional.
\<close>

section \<open>The session\<close>

datatype txn = NoTxn | Active tables | Aborted tables

record conn =
  tabs :: tables
  txn_state :: txn
  faults :: "bool list"
  seq_inode :: i64
  seq_dentry :: i64
  seq_tool :: i64
  guc_volume :: "string option"
  guc_suppress :: "string option"
  guc_suppress_local :: "string option"

text \<open>What other sessions see: the tables as of the last commit.\<close>

definition committed :: "'z conn_scheme \<Rightarrow> tables" where
  "committed c = (case txn_state c of NoTxn \<Rightarrow> tabs c | Active s \<Rightarrow> s | Aborted s \<Rightarrow> s)"

definition abort_txn :: "'z conn_scheme \<Rightarrow> 'z conn_scheme" where
  "abort_txn c = (case txn_state c of Active s \<Rightarrow> c\<lparr>txn_state := Aborted s\<rparr> | _ \<Rightarrow> c)"

text \<open>
  \<open>stmt f\<close> sends one statement with effect \<open>f\<close>.  In an aborted transaction the server
  refuses it; if the schedule says so it fails; otherwise it runs, and its own error (a
  violated constraint) aborts the transaction it is in.
\<close>

definition stmt ::
  "('z conn_scheme \<Rightarrow> (error + 'a) \<times> 'z conn_scheme) \<Rightarrow> ('z conn_scheme, 'a) oper" where
  "stmt f c =
    (case txn_state c of
       Aborted s \<Rightarrow> (Inl Postgres, c)
     | _ \<Rightarrow>
       (case faults c of
          True # fs \<Rightarrow> (Inl Postgres, abort_txn (c\<lparr>faults := fs\<rparr>))
        | fs \<Rightarrow>
          (case f (c\<lparr>faults := tl fs\<rparr>) of
             (Inl e, c') \<Rightarrow> (Inl e, abort_txn c')
           | (Inr x, c') \<Rightarrow> (Inr x, c'))))"

definition query :: "(tables \<Rightarrow> 'a) \<Rightarrow> ('z conn_scheme, 'a) oper" where
  "query q = stmt (\<lambda>c. (Inr (q (tabs c)), c))"

text \<open>
  \<open>DbTransaction::new_unchecked\<close>, \<open>commit\<close> and \<open>rollback\<close>.  A \<open>BEGIN\<close> inside a transaction
  is a warning.  Ending an aborted transaction undoes it and is no error; a \<open>COMMIT\<close> that
  fails undoes it too.  \<open>SET LOCAL\<close> settings end with the transaction.
\<close>

definition begin_txn :: "('z conn_scheme, unit) oper" where
  "begin_txn = stmt (\<lambda>c. (Inr (), case txn_state c of
     NoTxn \<Rightarrow> c\<lparr>txn_state := Active (tabs c)\<rparr> | _ \<Rightarrow> c))"

definition end_undone :: "'z conn_scheme \<Rightarrow> 'z conn_scheme" where
  "end_undone c =
    c\<lparr>tabs := committed c, txn_state := NoTxn, guc_suppress_local := None\<rparr>"

definition end_kept :: "'z conn_scheme \<Rightarrow> 'z conn_scheme" where
  "end_kept c = c\<lparr>txn_state := NoTxn, guc_suppress_local := None\<rparr>"

definition commit_txn :: "('z conn_scheme, unit) oper" where
  "commit_txn c =
    (case faults c of
       True # fs \<Rightarrow> (Inl Postgres, end_undone (c\<lparr>faults := fs\<rparr>))
     | fs \<Rightarrow>
       (let c' = c\<lparr>faults := tl fs\<rparr> in
        case txn_state c' of
          Aborted s \<Rightarrow> (Inr (), end_undone c')
        | _ \<Rightarrow> (Inr (), end_kept c')))"

definition rollback_txn :: "('z conn_scheme, unit) oper" where
  "rollback_txn c =
    (case faults c of
       True # fs \<Rightarrow> (Inl Postgres, abort_txn (c\<lparr>faults := fs\<rparr>))
     | fs \<Rightarrow> (Inr (), end_undone (c\<lparr>faults := tl fs\<rparr>)))"

text \<open>
  The pattern of the transactional operations of \<open>secafs.rs\<close>: the body runs between \<open>BEGIN\<close>
  and \<open>COMMIT\<close>; when it fails the transaction is rolled back (the rollback's own failure is
  ignored) and the body's error is returned.  A panic unwinds past the rollback.
\<close>

definition transact :: "('z conn_scheme, 'a) oper \<Rightarrow> ('z conn_scheme, 'a) oper" where
  "transact body =
    sq begin_txn
      (bnd (try_op body)
        (\<lambda>r. case r of
            Inl e \<Rightarrow> if e = Panic then throw e else bnd (try_op rollback_txn) (\<lambda>_. throw e)
          | Inr x \<Rightarrow> sq commit_txn (ret x)))"

text \<open>
  \<open>pool.get_connection().await?\<close>: it may fail (an empty pool, a reconnect that fails) and
  sends no statement.  The sessions of a pool see the same committed tables; the model
  follows one of them.
\<close>

definition get_connection :: "('z conn_scheme, unit) oper" where
  "get_connection c =
    (case faults c of
       True # fs \<Rightarrow> (Inl Postgres, c\<lparr>faults := fs\<rparr>)
     | fs \<Rightarrow> (Inr (), c\<lparr>faults := tl fs\<rparr>))"

text \<open>
  A reading of \<open>SystemTime::now().duration_since(UNIX_EPOCH)\<close>: seconds and nanoseconds, or
  nothing when the clock is before the epoch.
\<close>

type_synonym clock = "(i64 \<times> i64) option"

definition clock_now :: "clock \<Rightarrow> ('s, i64 \<times> i64) oper" where
  "clock_now now = ok_or Time now"

section \<open>Undo capture\<close>

text \<open>What a row trigger sees: \<open>TG_OP\<close> with \<open>NEW\<close> or \<open>OLD\<close>.\<close>

datatype 'r change = Inserted 'r | Updated 'r | Deleted 'r

text \<open>
  The guard every trigger function starts with: the volume of the session, unless undo
  capture is suppressed or the volume has no rollback enabled; with the snapshot number
  under which changes are journalled.
\<close>

definition suppress_setting :: "'z conn_scheme \<Rightarrow> string option" where
  "suppress_setting c =
    (case guc_suppress_local c of Some s \<Rightarrow> Some s | None \<Rightarrow> guc_suppress c)"

definition capturing :: "'z conn_scheme \<Rightarrow> (string \<times> i64) option" where
  "capturing c =
    (case guc_volume c of
       None \<Rightarrow> None
     | Some vid \<Rightarrow>
       if vid = '''' then None
       else if suppress_setting c = Some ''true'' then None
       else
         (case look s_volume (fs_volume_state (tabs c)) vid of
            None \<Rightarrow> None
          | Some st \<Rightarrow> if \<not> s_enabled st then None else Some (vid, s_current st)))"

fun undo_of :: "string \<Rightarrow> i64 \<Rightarrow> ('r \<Rightarrow> 'k) \<Rightarrow> 'r change \<Rightarrow> ('k, 'r) undo_row" where
  "undo_of vid snap key (Inserted r) =
    \<lparr>u_volume = vid, u_snap = snap, u_op = CHR ''I'', u_key = key r, u_old = None\<rparr>"
| "undo_of vid snap key (Updated r) =
    \<lparr>u_volume = vid, u_snap = snap, u_op = CHR ''U'', u_key = key r, u_old = Some r\<rparr>"
| "undo_of vid snap key (Deleted r) =
    \<lparr>u_volume = vid, u_snap = snap, u_op = CHR ''D'', u_key = key r, u_old = Some r\<rparr>"

definition capture :: "'z conn_scheme \<Rightarrow> ('r \<Rightarrow> 'k) \<Rightarrow> 'r change list \<Rightarrow> ('k, 'r) undo_row list"
  where
  "capture c key chs =
    (case capturing c of None \<Rightarrow> [] | Some (vid, snap) \<Rightarrow> map (undo_of vid snap key) chs)"

section \<open>Statements on a journalled table\<close>

text \<open>
  A table is named by its field: how to read it (\<open>get\<close>), replace it (\<open>upd\<close>), append to its
  undo table (\<open>updu\<close>), the key its trigger records and the constraint of the schema.
  Each statement returns the number of rows it touched.
\<close>

definition journalled_write ::
  "(('r list \<Rightarrow> 'r list) \<Rightarrow> tables \<Rightarrow> tables) \<Rightarrow>
   ((('k, 'r) undo_row list \<Rightarrow> ('k, 'r) undo_row list) \<Rightarrow> tables \<Rightarrow> tables) \<Rightarrow>
   ('r \<Rightarrow> 'k) \<Rightarrow> 'r change list \<Rightarrow> 'r list \<Rightarrow> 'z conn_scheme \<Rightarrow> 'z conn_scheme" where
  "journalled_write upd updu key chs t' c =
    c\<lparr>tabs := updu (\<lambda>u. u @ capture c key chs) (upd (\<lambda>_. t') (tabs c))\<rparr>"

definition t_insert ::
  "(tables \<Rightarrow> 'r list) \<Rightarrow> (('r list \<Rightarrow> 'r list) \<Rightarrow> tables \<Rightarrow> tables) \<Rightarrow>
   ((('k, 'r) undo_row list \<Rightarrow> ('k, 'r) undo_row list) \<Rightarrow> tables \<Rightarrow> tables) \<Rightarrow>
   ('r \<Rightarrow> 'k) \<Rightarrow> ('r list \<Rightarrow> bool) \<Rightarrow> 'r \<Rightarrow> ('z conn_scheme, nat) oper" where
  "t_insert get upd updu key ok r c =
    (let t' = get (tabs c) @ [r] in
     if ok t' then (Inr 1, journalled_write upd updu key [Inserted r] t' c)
     else (Inl Postgres, c))"

definition t_update ::
  "(tables \<Rightarrow> 'r list) \<Rightarrow> (('r list \<Rightarrow> 'r list) \<Rightarrow> tables \<Rightarrow> tables) \<Rightarrow>
   ((('k, 'r) undo_row list \<Rightarrow> ('k, 'r) undo_row list) \<Rightarrow> tables \<Rightarrow> tables) \<Rightarrow>
   ('r \<Rightarrow> 'k) \<Rightarrow> ('r list \<Rightarrow> bool) \<Rightarrow> ('r \<Rightarrow> bool) \<Rightarrow> ('r \<Rightarrow> 'r) \<Rightarrow> ('z conn_scheme, nat) oper" where
  "t_update get upd updu key ok p f c =
    (let t = get (tabs c); t' = map (\<lambda>r. if p r then f r else r) t in
     if ok t' then
       (Inr (length (filter p t)), journalled_write upd updu key (map Updated (filter p t)) t' c)
     else (Inl Postgres, c))"

definition t_delete ::
  "(tables \<Rightarrow> 'r list) \<Rightarrow> (('r list \<Rightarrow> 'r list) \<Rightarrow> tables \<Rightarrow> tables) \<Rightarrow>
   ((('k, 'r) undo_row list \<Rightarrow> ('k, 'r) undo_row list) \<Rightarrow> tables \<Rightarrow> tables) \<Rightarrow>
   ('r \<Rightarrow> 'k) \<Rightarrow> ('r \<Rightarrow> bool) \<Rightarrow> ('z conn_scheme, nat) oper" where
  "t_delete get upd updu key p c =
    (let t = get (tabs c) in
     (Inr (length (filter p t)),
      journalled_write upd updu key (map Deleted (filter p t)) (filter (\<lambda>r. \<not> p r) t) c))"

section \<open>The statements of the program\<close>

subsection \<open>fs\_inode\<close>

definition insert_inode_row :: "inode_row \<Rightarrow> ('z conn_scheme, nat) oper" where
  "insert_inode_row r =
    stmt (t_insert fs_inode fs_inode_update fs_inode_undo_update i_ino inode_ok r)"

text \<open>\<open>INSERT INTO fs_inode (...) VALUES (...) RETURNING ino\<close>: the serial gives the number.\<close>

definition insert_inode :: "(i64 \<Rightarrow> inode_row) \<Rightarrow> ('z conn_scheme, i64) oper" where
  "insert_inode mk =
    stmt (\<lambda>c. let n = seq_inode c in
      case t_insert fs_inode fs_inode_update fs_inode_undo_update i_ino inode_ok (mk n)
             (c\<lparr>seq_inode := n + 1\<rparr>) of
        (Inl e, c') \<Rightarrow> (Inl e, c')
      | (Inr _, c') \<Rightarrow> (Inr n, c'))"

definition update_inode :: "i64 \<Rightarrow> (inode_row \<Rightarrow> inode_row) \<Rightarrow> ('z conn_scheme, nat) oper" where
  "update_inode ino f =
    stmt (t_update fs_inode fs_inode_update fs_inode_undo_update i_ino inode_ok
      (\<lambda>r. i_ino r = ino) f)"

text \<open>
  Deleting an inode cascades: \<open>fs_volumes.root_ino\<close> references \<open>fs_inode\<close>, and
  \<open>fs_volume_state\<close> and \<open>fs_snapshots\<close> reference \<open>fs_volumes\<close>.
\<close>

definition cascade_inodes :: "i64 list \<Rightarrow> tables \<Rightarrow> tables" where
  "cascade_inodes inos t =
    (let vs = map v_id (filter (\<lambda>v. v_root v \<in> set inos) (fs_volumes t)) in
     t\<lparr>fs_volumes := filter (\<lambda>v. v_root v \<notin> set inos) (fs_volumes t),
       fs_volume_state := filter (\<lambda>s. s_volume s \<notin> set vs) (fs_volume_state t),
       fs_snapshots := filter (\<lambda>s. p_volume s \<notin> set vs) (fs_snapshots t)\<rparr>)"

definition delete_inodes :: "(inode_row \<Rightarrow> bool) \<Rightarrow> ('z conn_scheme, nat) oper" where
  "delete_inodes p =
    stmt (\<lambda>c. let gone = map i_ino (filter p (fs_inode (tabs c))) in
      case t_delete fs_inode fs_inode_update fs_inode_undo_update i_ino p c of
        (r, c') \<Rightarrow> (r, c'\<lparr>tabs := cascade_inodes gone (tabs c')\<rparr>))"

abbreviation delete_inode :: "i64 \<Rightarrow> ('z conn_scheme, nat) oper" where
  "delete_inode ino \<equiv> delete_inodes (\<lambda>r. i_ino r = ino)"

subsection \<open>fs\_dentry\<close>

definition insert_dentry_row :: "dentry_row \<Rightarrow> ('z conn_scheme, nat) oper" where
  "insert_dentry_row d =
    stmt (t_insert fs_dentry fs_dentry_update fs_dentry_undo_update d_id dentry_ok d)"

definition insert_dentry :: "string \<Rightarrow> i64 \<Rightarrow> i64 \<Rightarrow> ('z conn_scheme, nat) oper" where
  "insert_dentry name parent ino =
    stmt (\<lambda>c. let n = seq_dentry c in
      t_insert fs_dentry fs_dentry_update fs_dentry_undo_update d_id dentry_ok
        \<lparr>d_id = n, d_name = name, d_parent = parent, d_ino = ino\<rparr> (c\<lparr>seq_dentry := n + 1\<rparr>))"

definition update_dentries ::
  "(dentry_row \<Rightarrow> bool) \<Rightarrow> (dentry_row \<Rightarrow> dentry_row) \<Rightarrow> ('z conn_scheme, nat) oper" where
  "update_dentries p f =
    stmt (t_update fs_dentry fs_dentry_update fs_dentry_undo_update d_id dentry_ok p f)"

definition delete_dentries :: "(dentry_row \<Rightarrow> bool) \<Rightarrow> ('z conn_scheme, nat) oper" where
  "delete_dentries p =
    stmt (t_delete fs_dentry fs_dentry_update fs_dentry_undo_update d_id p)"

abbreviation delete_dentry :: "i64 \<Rightarrow> string \<Rightarrow> ('z conn_scheme, nat) oper" where
  "delete_dentry parent name \<equiv> delete_dentries (\<lambda>d. d_slot d = (parent, name))"

subsection \<open>fs\_data\<close>

definition insert_data :: "data_row \<Rightarrow> ('z conn_scheme, nat) oper" where
  "insert_data b = stmt (t_insert fs_data fs_data_update fs_data_undo_update b_key data_ok b)"

definition update_data ::
  "(data_row \<Rightarrow> bool) \<Rightarrow> (data_row \<Rightarrow> data_row) \<Rightarrow> ('z conn_scheme, nat) oper" where
  "update_data p f = stmt (t_update fs_data fs_data_update fs_data_undo_update b_key data_ok p f)"

definition delete_data :: "(data_row \<Rightarrow> bool) \<Rightarrow> ('z conn_scheme, nat) oper" where
  "delete_data p = stmt (t_delete fs_data fs_data_update fs_data_undo_update b_key p)"

text \<open>\<open>INSERT INTO fs_data ... ON CONFLICT (ino, chunk_index) DO UPDATE SET data = EXCLUDED.data\<close>\<close>

definition upsert_data :: "data_row \<Rightarrow> ('z conn_scheme, nat) oper" where
  "upsert_data b =
    stmt (\<lambda>c. if b_key b \<in> b_key ` set (fs_data (tabs c))
      then t_update fs_data fs_data_update fs_data_undo_update b_key data_ok
             (\<lambda>r. b_key r = b_key b) (\<lambda>r. r\<lparr>b_data := b_data b\<rparr>) c
      else t_insert fs_data fs_data_update fs_data_undo_update b_key data_ok b c)"

subsection \<open>fs\_symlink\<close>

definition insert_symlink :: "symlink_row \<Rightarrow> ('z conn_scheme, nat) oper" where
  "insert_symlink l =
    stmt (t_insert fs_symlink fs_symlink_update fs_symlink_undo_update l_ino symlink_ok l)"

definition delete_symlinks :: "(symlink_row \<Rightarrow> bool) \<Rightarrow> ('z conn_scheme, nat) oper" where
  "delete_symlinks p =
    stmt (t_delete fs_symlink fs_symlink_update fs_symlink_undo_update l_ino p)"

subsection \<open>kv\_store\<close>

definition insert_kv :: "kv_row \<Rightarrow> ('z conn_scheme, nat) oper" where
  "insert_kv r = stmt (t_insert kv_store kv_store_update kv_store_undo_update k_key kv_ok r)"

definition delete_kv :: "string \<Rightarrow> ('z conn_scheme, nat) oper" where
  "delete_kv k =
    stmt (t_delete kv_store kv_store_update kv_store_undo_update k_key (\<lambda>r. k_key r = k))"

text \<open>
  \<open>INSERT INTO kv_store (key, value, updated_at) ... ON CONFLICT (key) DO UPDATE SET value,
  updated_at\<close>; \<open>created_at\<close> defaults to the server's clock.
\<close>

definition upsert_kv :: "string \<Rightarrow> string \<Rightarrow> i64 \<Rightarrow> ('z conn_scheme, nat) oper" where
  "upsert_kv k v now =
    stmt (\<lambda>c. if k \<in> k_key ` set (kv_store (tabs c))
      then t_update kv_store kv_store_update kv_store_undo_update k_key kv_ok
             (\<lambda>r. k_key r = k) (\<lambda>r. r\<lparr>k_value := v, k_updated := now\<rparr>) c
      else t_insert kv_store kv_store_update kv_store_undo_update k_key kv_ok
             \<lparr>k_key = k, k_value = v, k_created = now, k_updated = now\<rparr> c)"

subsection \<open>Tables without undo capture\<close>

definition write_tables :: "(tables \<Rightarrow> tables option) \<Rightarrow> ('z conn_scheme, unit) oper" where
  "write_tables g =
    stmt (\<lambda>c. case g (tabs c) of None \<Rightarrow> (Inl Postgres, c) | Some t \<Rightarrow> (Inr (), c\<lparr>tabs := t\<rparr>))"

section \<open>Running statements\<close>

text \<open>
  A session is ready when no fault is scheduled and no aborted transaction blocks it: then
  every statement does what it says.
\<close>

definition ready :: "'z conn_scheme \<Rightarrow> bool" where
  "ready c \<longleftrightarrow> faults c = [] \<and> (\<forall>s. txn_state c \<noteq> Aborted s)"

named_theorems run \<open>execution in a ready session\<close>

lemma faults_self [simp]: "faults c = [] \<Longrightarrow> c\<lparr>faults := []\<rparr> = (c :: 'z conn_scheme)"
  by (cases c) simp

lemma ready_tabs [simp]: "ready (c\<lparr>tabs := t\<rparr>) = ready c"
  by (simp add: ready_def)

lemma ready_seqs [simp]:
  "ready (c\<lparr>seq_inode := n\<rparr>) = ready c" "ready (c\<lparr>seq_dentry := n\<rparr>) = ready c"
  "ready (c\<lparr>seq_tool := n\<rparr>) = ready c"
  by (simp_all add: ready_def)

lemma ready_active: "faults c = [] \<Longrightarrow> ready (c\<lparr>txn_state := Active s\<rparr>)"
  by (simp add: ready_def)

lemma stmt_ready [run]:
  "ready c \<Longrightarrow> stmt f c =
    (case f c of (Inl e, c') \<Rightarrow> (Inl e, abort_txn c') | (Inr x, c') \<Rightarrow> (Inr x, c'))"
  by (auto simp: stmt_def ready_def split: txn.splits)

lemma query_ready [run]: "ready c \<Longrightarrow> query q c = (Inr (q (tabs c)), c)"
  by (simp add: query_def stmt_ready)

lemma write_tables_ready [run]:
  "ready c \<Longrightarrow> g (tabs c) = Some t \<Longrightarrow> write_tables g c = (Inr (), c\<lparr>tabs := t\<rparr>)"
  by (simp add: write_tables_def stmt_ready)

lemma get_connection_ready [run]: "ready c \<Longrightarrow> get_connection c = (Inr (), c)"
  by (simp add: get_connection_def ready_def)

lemma clock_now_Some [simp]: "clock_now (Some t) c = (Inr t, c)"
  by (simp add: clock_now_def)

lemma clock_now_None [simp]: "clock_now None c = (Inl Time, c)"
  by (simp add: clock_now_def)

lemma begin_ready [run]:
  "ready c \<Longrightarrow> txn_state c = NoTxn \<Longrightarrow> begin_txn c = (Inr (), c\<lparr>txn_state := Active (tabs c)\<rparr>)"
  by (simp add: begin_txn_def stmt_ready)

lemma commit_ready [run]:
  "ready c \<Longrightarrow> commit_txn c = (Inr (), end_kept c)"
  by (auto simp: commit_txn_def ready_def split: txn.splits)

lemma end_kept_sel [simp]:
  "tabs (end_kept c) = tabs c" "txn_state (end_kept c) = NoTxn" "faults (end_kept c) = faults c"
  "seq_inode (end_kept c) = seq_inode c" "seq_dentry (end_kept c) = seq_dentry c"
  "conn.more (end_kept c) = conn.more c"
  by (simp_all add: end_kept_def)

lemma ready_end_kept [simp]: "ready (end_kept c) = (faults c = [])"
  by (auto simp: ready_def)

lemma begin_txn_sel [simp]:
  "txn_state c = NoTxn \<Longrightarrow> ready c \<Longrightarrow> ready (c\<lparr>txn_state := Active t\<rparr>)"
  by (simp add: ready_def)

subsection \<open>The effect of a statement on one table\<close>

text \<open>
  \<open>put_inode chs t c\<close> and its siblings name the session after a statement that replaced one
  journalled table by \<open>t\<close> through the row changes \<open>chs\<close>; the simplifier reads every field of
  such a session.
\<close>

abbreviation put_inode ::
  "inode_row change list \<Rightarrow> inode_row list \<Rightarrow> 'z conn_scheme \<Rightarrow> 'z conn_scheme" where
  "put_inode \<equiv> journalled_write fs_inode_update fs_inode_undo_update i_ino"

abbreviation put_dentry ::
  "dentry_row change list \<Rightarrow> dentry_row list \<Rightarrow> 'z conn_scheme \<Rightarrow> 'z conn_scheme" where
  "put_dentry \<equiv> journalled_write fs_dentry_update fs_dentry_undo_update d_id"

abbreviation put_data ::
  "data_row change list \<Rightarrow> data_row list \<Rightarrow> 'z conn_scheme \<Rightarrow> 'z conn_scheme" where
  "put_data \<equiv> journalled_write fs_data_update fs_data_undo_update (\<lambda>b. b_key b)"

abbreviation put_symlink ::
  "symlink_row change list \<Rightarrow> symlink_row list \<Rightarrow> 'z conn_scheme \<Rightarrow> 'z conn_scheme" where
  "put_symlink \<equiv> journalled_write fs_symlink_update fs_symlink_undo_update l_ino"

abbreviation put_kv ::
  "kv_row change list \<Rightarrow> kv_row list \<Rightarrow> 'z conn_scheme \<Rightarrow> 'z conn_scheme" where
  "put_kv \<equiv> journalled_write kv_store_update kv_store_undo_update k_key"

lemma journalled_write_conn [simp]:
  "txn_state (journalled_write u v k chs t c) = txn_state c"
  "faults (journalled_write u v k chs t c) = faults c"
  "seq_inode (journalled_write u v k chs t c) = seq_inode c"
  "seq_dentry (journalled_write u v k chs t c) = seq_dentry c"
  "seq_tool (journalled_write u v k chs t c) = seq_tool c"
  "guc_volume (journalled_write u v k chs t c) = guc_volume c"
  "guc_suppress (journalled_write u v k chs t c) = guc_suppress c"
  "guc_suppress_local (journalled_write u v k chs t c) = guc_suppress_local c"
  "conn.more (journalled_write u v k chs t c) = conn.more c"
  "ready (journalled_write u v k chs t c) = ready c"
  by (simp_all add: journalled_write_def)

lemma put_inode_sel [simp]:
  "fs_config (tabs (put_inode chs t c)) = fs_config (tabs c)"
  "fs_inode (tabs (put_inode chs t c)) = t"
  "fs_dentry (tabs (put_inode chs t c)) = fs_dentry (tabs c)"
  "fs_data (tabs (put_inode chs t c)) = fs_data (tabs c)"
  "fs_symlink (tabs (put_inode chs t c)) = fs_symlink (tabs c)"
  "fs_volumes (tabs (put_inode chs t c)) = fs_volumes (tabs c)"
  "kv_store (tabs (put_inode chs t c)) = kv_store (tabs c)"
  "tool_calls (tabs (put_inode chs t c)) = tool_calls (tabs c)"
  "fs_volume_state (tabs (put_inode chs t c)) = fs_volume_state (tabs c)"
  "fs_snapshots (tabs (put_inode chs t c)) = fs_snapshots (tabs c)"
  "fs_whiteout (tabs (put_inode chs t c)) = fs_whiteout (tabs c)"
  "fs_origin (tabs (put_inode chs t c)) = fs_origin (tabs c)"
  by (simp_all add: journalled_write_def)

lemma put_dentry_sel [simp]:
  "fs_config (tabs (put_dentry chs t c)) = fs_config (tabs c)"
  "fs_inode (tabs (put_dentry chs t c)) = fs_inode (tabs c)"
  "fs_dentry (tabs (put_dentry chs t c)) = t"
  "fs_data (tabs (put_dentry chs t c)) = fs_data (tabs c)"
  "fs_symlink (tabs (put_dentry chs t c)) = fs_symlink (tabs c)"
  "fs_volumes (tabs (put_dentry chs t c)) = fs_volumes (tabs c)"
  "kv_store (tabs (put_dentry chs t c)) = kv_store (tabs c)"
  "tool_calls (tabs (put_dentry chs t c)) = tool_calls (tabs c)"
  "fs_volume_state (tabs (put_dentry chs t c)) = fs_volume_state (tabs c)"
  "fs_snapshots (tabs (put_dentry chs t c)) = fs_snapshots (tabs c)"
  "fs_whiteout (tabs (put_dentry chs t c)) = fs_whiteout (tabs c)"
  "fs_origin (tabs (put_dentry chs t c)) = fs_origin (tabs c)"
  by (simp_all add: journalled_write_def)

lemma put_data_sel [simp]:
  "fs_config (tabs (put_data chs t c)) = fs_config (tabs c)"
  "fs_inode (tabs (put_data chs t c)) = fs_inode (tabs c)"
  "fs_dentry (tabs (put_data chs t c)) = fs_dentry (tabs c)"
  "fs_data (tabs (put_data chs t c)) = t"
  "fs_symlink (tabs (put_data chs t c)) = fs_symlink (tabs c)"
  "fs_volumes (tabs (put_data chs t c)) = fs_volumes (tabs c)"
  "kv_store (tabs (put_data chs t c)) = kv_store (tabs c)"
  "tool_calls (tabs (put_data chs t c)) = tool_calls (tabs c)"
  "fs_volume_state (tabs (put_data chs t c)) = fs_volume_state (tabs c)"
  "fs_snapshots (tabs (put_data chs t c)) = fs_snapshots (tabs c)"
  "fs_whiteout (tabs (put_data chs t c)) = fs_whiteout (tabs c)"
  "fs_origin (tabs (put_data chs t c)) = fs_origin (tabs c)"
  by (simp_all add: journalled_write_def)

lemma put_symlink_sel [simp]:
  "fs_config (tabs (put_symlink chs t c)) = fs_config (tabs c)"
  "fs_inode (tabs (put_symlink chs t c)) = fs_inode (tabs c)"
  "fs_dentry (tabs (put_symlink chs t c)) = fs_dentry (tabs c)"
  "fs_data (tabs (put_symlink chs t c)) = fs_data (tabs c)"
  "fs_symlink (tabs (put_symlink chs t c)) = t"
  "fs_volumes (tabs (put_symlink chs t c)) = fs_volumes (tabs c)"
  "kv_store (tabs (put_symlink chs t c)) = kv_store (tabs c)"
  "tool_calls (tabs (put_symlink chs t c)) = tool_calls (tabs c)"
  "fs_volume_state (tabs (put_symlink chs t c)) = fs_volume_state (tabs c)"
  "fs_snapshots (tabs (put_symlink chs t c)) = fs_snapshots (tabs c)"
  "fs_whiteout (tabs (put_symlink chs t c)) = fs_whiteout (tabs c)"
  "fs_origin (tabs (put_symlink chs t c)) = fs_origin (tabs c)"
  by (simp_all add: journalled_write_def)

lemma put_kv_sel [simp]:
  "fs_config (tabs (put_kv chs t c)) = fs_config (tabs c)"
  "fs_inode (tabs (put_kv chs t c)) = fs_inode (tabs c)"
  "fs_dentry (tabs (put_kv chs t c)) = fs_dentry (tabs c)"
  "fs_data (tabs (put_kv chs t c)) = fs_data (tabs c)"
  "fs_symlink (tabs (put_kv chs t c)) = fs_symlink (tabs c)"
  "fs_volumes (tabs (put_kv chs t c)) = fs_volumes (tabs c)"
  "kv_store (tabs (put_kv chs t c)) = t"
  "tool_calls (tabs (put_kv chs t c)) = tool_calls (tabs c)"
  "fs_volume_state (tabs (put_kv chs t c)) = fs_volume_state (tabs c)"
  "fs_snapshots (tabs (put_kv chs t c)) = fs_snapshots (tabs c)"
  "fs_whiteout (tabs (put_kv chs t c)) = fs_whiteout (tabs c)"
  "fs_origin (tabs (put_kv chs t c)) = fs_origin (tabs c)"
  by (simp_all add: journalled_write_def)

lemma capture_cong:
  assumes "guc_volume c' = guc_volume c" and "suppress_setting c' = suppress_setting c"
    and "fs_volume_state (tabs c') = fs_volume_state (tabs c)"
  shows "capture c' = capture c"
proof -
  have "capturing c' = capturing c" using assms by (simp add: capturing_def split: option.split)
  then show ?thesis by (intro ext) (simp add: capture_def)
qed

lemma capture_put [simp]:
  "capture (put_inode chs t c) = capture c"
  "capture (put_dentry dch dt c) = capture c"
  "capture (put_data bch bt c) = capture c"
  "capture (put_symlink lch lt c) = capture c"
  "capture (put_kv kch kt c) = capture c"
  by (rule capture_cong; simp add: suppress_setting_def split: option.split)+

lemma capture_append: "capture c key (xs @ ys) = capture c key xs @ capture c key ys"
  by (auto simp: capture_def split: option.split)

lemma put_data_put_data [simp]:
  "put_data ys u (put_data xs t c) = put_data (xs @ ys) u c"
proof -
  have "capture (put_data xs t c) (\<lambda>b. b_key b) ys = capture c (\<lambda>b. b_key b) ys"
    by simp
  then show ?thesis
    unfolding journalled_write_def by (simp add: capture_append)
qed

subsection \<open>Statements in a ready session\<close>

lemma insert_inode_row_ready [run]:
  "ready c \<Longrightarrow> inode_ok (fs_inode (tabs c) @ [r]) \<Longrightarrow>
    insert_inode_row r c = (Inr 1, put_inode [Inserted r] (fs_inode (tabs c) @ [r]) c)"
  by (simp add: insert_inode_row_def stmt_ready t_insert_def)

lemma insert_inode_ready [run]:
  "ready c \<Longrightarrow> inode_ok (fs_inode (tabs c) @ [mk (seq_inode c)]) \<Longrightarrow>
    insert_inode mk c =
      (Inr (seq_inode c),
       put_inode [Inserted (mk (seq_inode c))] (fs_inode (tabs c) @ [mk (seq_inode c)])
         (c\<lparr>seq_inode := seq_inode c + 1\<rparr>))"
  by (simp add: insert_inode_def stmt_ready t_insert_def Let_def)

lemma inode_ok_update:
  "inode_ok t \<Longrightarrow> (\<And>r. i_ino (f r) = i_ino r) \<Longrightarrow> inode_ok (map (\<lambda>r. if p r then f r else r) t)"
proof -
  assume "inode_ok t" and "\<And>r. i_ino (f r) = i_ino r"
  then have "map i_ino (map (\<lambda>r. if p r then f r else r) t) = map i_ino t" by simp
  with \<open>inode_ok t\<close> show ?thesis by (simp only: inode_ok_def)
qed

lemma update_inode_ready [run]:
  "ready c \<Longrightarrow> inode_ok (fs_inode (tabs c)) \<Longrightarrow> (\<And>r. i_ino (f r) = i_ino r) \<Longrightarrow>
    update_inode ino f c =
      (Inr (length (filter (\<lambda>r. i_ino r = ino) (fs_inode (tabs c)))),
       put_inode (map Updated (filter (\<lambda>r. i_ino r = ino) (fs_inode (tabs c))))
         (map (\<lambda>r. if i_ino r = ino then f r else r) (fs_inode (tabs c))) c)"
  by (simp add: update_inode_def stmt_ready t_update_def Let_def inode_ok_update)

lemma delete_inodes_ready [run]:
  "ready c \<Longrightarrow>
    delete_inodes p c =
      (Inr (length (filter p (fs_inode (tabs c)))),
       let c' = put_inode (map Deleted (filter p (fs_inode (tabs c))))
                  (filter (\<lambda>r. \<not> p r) (fs_inode (tabs c))) c
       in c'\<lparr>tabs := cascade_inodes (map i_ino (filter p (fs_inode (tabs c)))) (tabs c')\<rparr>)"
  by (simp add: delete_inodes_def stmt_ready t_delete_def Let_def)

lemma cascade_sel [simp]:
  "fs_config (cascade_inodes is t) = fs_config t"
  "fs_inode (cascade_inodes is t) = fs_inode t"
  "fs_dentry (cascade_inodes is t) = fs_dentry t"
  "fs_data (cascade_inodes is t) = fs_data t"
  "fs_symlink (cascade_inodes is t) = fs_symlink t"
  "kv_store (cascade_inodes is t) = kv_store t"
  "tool_calls (cascade_inodes is t) = tool_calls t"
  "fs_whiteout (cascade_inodes is t) = fs_whiteout t"
  "fs_origin (cascade_inodes is t) = fs_origin t"
  by (simp_all add: cascade_inodes_def Let_def)

lemma insert_dentry_ready [run]:
  "ready c \<Longrightarrow>
    dentry_ok (fs_dentry (tabs c) @ [\<lparr>d_id = seq_dentry c, d_name = n, d_parent = p, d_ino = i\<rparr>]) \<Longrightarrow>
    insert_dentry n p i c =
      (Inr 1, put_dentry [Inserted \<lparr>d_id = seq_dentry c, d_name = n, d_parent = p, d_ino = i\<rparr>]
         (fs_dentry (tabs c) @ [\<lparr>d_id = seq_dentry c, d_name = n, d_parent = p, d_ino = i\<rparr>])
         (c\<lparr>seq_dentry := seq_dentry c + 1\<rparr>))"
  by (simp add: insert_dentry_def stmt_ready t_insert_def Let_def)

lemma update_dentries_ready [run]:
  "ready c \<Longrightarrow> dentry_ok (map (\<lambda>r. if p r then f r else r) (fs_dentry (tabs c))) \<Longrightarrow>
    update_dentries p f c =
      (Inr (length (filter p (fs_dentry (tabs c)))),
       put_dentry (map Updated (filter p (fs_dentry (tabs c))))
         (map (\<lambda>r. if p r then f r else r) (fs_dentry (tabs c))) c)"
  by (simp add: update_dentries_def stmt_ready t_update_def Let_def)

lemma delete_dentries_ready [run]:
  "ready c \<Longrightarrow>
    delete_dentries p c =
      (Inr (length (filter p (fs_dentry (tabs c)))),
       put_dentry (map Deleted (filter p (fs_dentry (tabs c))))
         (filter (\<lambda>r. \<not> p r) (fs_dentry (tabs c))) c)"
  by (simp add: delete_dentries_def stmt_ready t_delete_def Let_def)

lemma delete_data_ready [run]:
  "ready c \<Longrightarrow>
    delete_data p c =
      (Inr (length (filter p (fs_data (tabs c)))),
       put_data (map Deleted (filter p (fs_data (tabs c))))
         (filter (\<lambda>r. \<not> p r) (fs_data (tabs c))) c)"
  by (simp add: delete_data_def stmt_ready t_delete_def Let_def)

lemma data_ok_update:
  "data_ok t \<Longrightarrow> (\<And>r. b_key (f r) = b_key r) \<Longrightarrow> data_ok (map (\<lambda>r. if p r then f r else r) t)"
proof -
  assume "data_ok t" and k: "\<And>r. b_key (f r) = b_key r"
  have "map (\<lambda>r. b_key r) (map (\<lambda>r. if p r then f r else r) t) = map (\<lambda>r. b_key r) t"
    using k by (auto simp del: prod.inject)
  with \<open>data_ok t\<close> show ?thesis by (simp only: data_ok_def)
qed

lemma update_data_ready [run]:
  "ready c \<Longrightarrow> data_ok (fs_data (tabs c)) \<Longrightarrow> (\<And>r. b_key (f r) = b_key r) \<Longrightarrow>
    update_data p f c =
      (Inr (length (filter p (fs_data (tabs c)))),
       put_data (map Updated (filter p (fs_data (tabs c))))
         (map (\<lambda>r. if p r then f r else r) (fs_data (tabs c))) c)"
  using data_ok_update [of "fs_data (tabs c)" f p]
  by (simp add: update_data_def stmt_ready t_update_def Let_def)

lemma insert_symlink_ready [run]:
  "ready c \<Longrightarrow> symlink_ok (fs_symlink (tabs c) @ [l]) \<Longrightarrow>
    insert_symlink l c = (Inr 1, put_symlink [Inserted l] (fs_symlink (tabs c) @ [l]) c)"
  by (simp add: insert_symlink_def stmt_ready t_insert_def)

lemma delete_symlinks_ready [run]:
  "ready c \<Longrightarrow>
    delete_symlinks p c =
      (Inr (length (filter p (fs_symlink (tabs c)))),
       put_symlink (map Deleted (filter p (fs_symlink (tabs c))))
         (filter (\<lambda>r. \<not> p r) (fs_symlink (tabs c))) c)"
  by (simp add: delete_symlinks_def stmt_ready t_delete_def Let_def)

text \<open>An upsert is a map update, whichever of its two branches runs.\<close>

lemma upsert_data_ready:
  assumes "ready c" and ok: "data_ok (fs_data (tabs c))"
  obtains n t chs where "upsert_data b c = (Inr n, put_data chs t c)" and "data_ok t"
    and "look b_key t = (look b_key (fs_data (tabs c)))(b_key b \<mapsto> b)"
proof (cases "b_key b \<in> b_key ` set (fs_data (tabs c))")
  case True
  let ?t = "map (\<lambda>r. if b_key r = b_key b then r\<lparr>b_data := b_data b\<rparr> else r) (fs_data (tabs c))"
  obtain r where r: "look b_key (fs_data (tabs c)) (b_key b) = Some r"
    using True look_None_iff [of b_key "fs_data (tabs c)" "b_key b"]
    by (cases "look b_key (fs_data (tabs c)) (b_key b)") auto
  then have "b_key r = b_key b" by auto
  then have "r\<lparr>b_data := b_data b\<rparr> = b" by simp
  then have "look b_key ?t = (look b_key (fs_data (tabs c)))(b_key b \<mapsto> b)"
    using r look_map_key [of b_key "b_key b" "\<lambda>r. r\<lparr>b_data := b_data b\<rparr>" "fs_data (tabs c)"] by simp
  moreover have "data_ok ?t" by (rule data_ok_update [OF ok]) simp
  ultimately show ?thesis
    using that True assms(1) by (simp add: upsert_data_def run t_update_def Let_def)
next
  case False
  let ?t = "fs_data (tabs c) @ [b]"
  have "data_ok ?t" using ok False by (auto simp: data_ok_def)
  moreover have "look b_key ?t = (look b_key (fs_data (tabs c)))(b_key b \<mapsto> b)"
    using False by (intro ext look_snoc_fresh) (simp add: look_None_iff)
  ultimately show ?thesis
    using that False assms(1) by (simp add: upsert_data_def run t_insert_def Let_def)
qed

lemma upsert_kv_ready:
  assumes "ready c" and ok: "kv_ok (kv_store (tabs c))"
  obtains n t chs r where "upsert_kv k v now c = (Inr n, put_kv chs t c)" and "kv_ok t"
    and "look k_key t = (look k_key (kv_store (tabs c)))(k \<mapsto> r)"
    and "k_key r = k" and "k_value r = v" and "k_updated r = now"
    and "k_created r = (case look k_key (kv_store (tabs c)) k of None \<Rightarrow> now | Some o' \<Rightarrow> k_created o')"
proof (cases "look k_key (kv_store (tabs c)) k")
  case (Some r)
  let ?t = "map (\<lambda>r. if k_key r = k then r\<lparr>k_value := v, k_updated := now\<rparr> else r) (kv_store (tabs c))"
  have keys: "map k_key ?t = map k_key (kv_store (tabs c))" by simp
  have key: "k_key r = k" "k \<in> k_key ` set (kv_store (tabs c))"
    using Some by (auto dest: look_key_in)
  have "look k_key ?t = (look k_key (kv_store (tabs c)))(k \<mapsto> r\<lparr>k_value := v, k_updated := now\<rparr>)"
    using Some by (simp add: look_map_key)
  moreover have ok': "kv_ok ?t" using ok keys by (simp only: kv_ok_def)
  moreover have "upsert_kv k v now c =
      (Inr (length (filter (\<lambda>r. k_key r = k) (kv_store (tabs c)))),
       put_kv (map Updated (filter (\<lambda>r. k_key r = k) (kv_store (tabs c)))) ?t c)"
    using assms(1) key ok' by (simp add: upsert_kv_def run t_update_def Let_def)
  ultimately show ?thesis using that key Some by simp
next
  case None
  let ?r = "\<lparr>k_key = k, k_value = v, k_created = now, k_updated = now\<rparr>"
  let ?t = "kv_store (tabs c) @ [?r]"
  have nin: "k \<notin> k_key ` set (kv_store (tabs c))" using None by (simp add: look_None_iff)
  have ok': "kv_ok ?t" using ok nin by (auto simp: kv_ok_def)
  moreover have "look k_key ?t = (look k_key (kv_store (tabs c)))(k \<mapsto> ?r)"
    using look_snoc_fresh [of k_key "kv_store (tabs c)" ?r] None by (intro ext) simp
  moreover have "upsert_kv k v now c = (Inr 1, put_kv [Inserted ?r] ?t c)"
    using assms(1) nin ok' by (simp add: upsert_kv_def run t_insert_def Let_def)
  ultimately show ?thesis using that None by simp
qed

section \<open>Transactions are all or nothing\<close>

text \<open>\<open>in_txn s c\<close>: the session is inside a transaction that started on the tables \<open>s\<close>.\<close>

definition in_txn :: "tables \<Rightarrow> 'z conn_scheme \<Rightarrow> bool" where
  "in_txn s c \<longleftrightarrow> txn_state c = Active s \<or> txn_state c = Aborted s"

text \<open>
  How a statement changes a table, with the row changes its trigger sees: a row is appended,
  the rows that satisfy a condition are rewritten without touching their key, or they are
  removed.  The constraint of the schema holds after an insertion or an update.
\<close>

inductive table_step ::
  "('r \<Rightarrow> 'k) \<Rightarrow> ('r list \<Rightarrow> bool) \<Rightarrow> 'r list \<Rightarrow> 'r change list \<Rightarrow> 'r list \<Rightarrow> bool"
  for key ok where
  ts_insert: "ok (t @ [r]) \<Longrightarrow> table_step key ok t [Inserted r] (t @ [r])"
| ts_update: "ok (map (\<lambda>r. if p r then f r else r) t) \<Longrightarrow> (\<And>r. key (f r) = key r) \<Longrightarrow>
    table_step key ok t (map Updated (filter p t)) (map (\<lambda>r. if p r then f r else r) t)"
| ts_delete: "table_step key ok t (map Deleted (filter p t)) (filter (\<lambda>r. \<not> p r) t)"

inductive_cases table_stepE: "table_step key ok t chs t'"

text \<open>
  A statement that moves every row it updates to one place updates at most one row, by the
  constraint on the result.
\<close>

definition one_update :: "'r change list \<Rightarrow> bool" where
  "one_update chs \<longleftrightarrow> (\<forall>r. Updated r \<in> set chs \<longrightarrow> chs = [Updated r])"

lemma one_update_simps [simp]: "one_update [Inserted r]" "one_update (map Deleted rs)"
  by (auto simp: one_update_def)

lemma same_place_one_update:
  assumes "distinct (map s (map (\<lambda>r. if p r then g r else r) t))" and "\<And>r r'. s (g r) = s (g r')"
  shows "one_update (map Updated (filter p t))"
proof -
  have "length (filter p t) \<le> 1"
    using assms(1)
  proof (induction t)
    case (Cons a t)
    show ?case
    proof (cases "p a")
      case True
      then have "s (g a) \<notin> (\<lambda>r. s (if p r then g r else r)) ` set t" using Cons.prems by simp
      then have "\<forall>r \<in> set t. s (if p r then g r else r) \<noteq> s (g a)"
        unfolding image_iff by (metis (no_types, lifting))
      then have "\<forall>r \<in> set t. \<not> p r" using assms(2) [of _ a] by auto
      then show ?thesis using True by simp
    qed (use Cons in simp)
  qed simp
  then show ?thesis by (cases "filter p t") (auto simp: one_update_def)
qed

lemma stmt_cases:
  "stmt f c = (Inl Postgres, c) \<or>
   (\<exists>fs. stmt f c = (Inl Postgres, abort_txn (c\<lparr>faults := fs\<rparr>))) \<or>
   (\<exists>fs r c'. f (c\<lparr>faults := fs\<rparr>) = (r, c') \<and> (stmt f c = (r, c') \<or> stmt f c = (r, abort_txn c')))"
proof -
  define fs where "fs = tl (faults c)"
  obtain r c' where f: "f (c\<lparr>faults := fs\<rparr>) = (r, c')" by fastforce
  show ?thesis
  proof (cases "\<exists>s. txn_state c = Aborted s")
    case True
    then show ?thesis by (auto simp: stmt_def)
  next
    case nab: False
    show ?thesis
    proof (cases "\<exists>gs. faults c = True # gs")
      case True
      then obtain gs where "faults c = True # gs" by blast
      with nab have "stmt f c = (Inl Postgres, abort_txn (c\<lparr>faults := gs\<rparr>))"
        by (cases "txn_state c") (simp_all add: stmt_def)
      then show ?thesis by blast
    next
      case False
      have "faults c = [] \<or> faults c = False # fs"
        using False by (cases "faults c") (auto simp: fs_def)
      then have "stmt f c = (r, c') \<or> stmt f c = (r, abort_txn c')"
        using nab f by (cases "txn_state c"; cases r; cases "faults c") (auto simp: stmt_def fs_def)
      with f show ?thesis by blast
    qed
  qed
qed

text \<open>
  The interface between the statements and an invariant of the session.  A predicate that
  survives every table step, a consumed schedule entry, an aborted transaction and a serial's
  increment survives every statement, hence every operation built from statements.
\<close>

locale statement_invariant =
  fixes I :: "'z conn_scheme \<Rightarrow> bool"
  assumes I_faults: "I c \<Longrightarrow> I (c\<lparr>faults := fs\<rparr>)"
    and I_abort: "I c \<Longrightarrow> I (abort_txn c)"
    and I_seq_inode: "I c \<Longrightarrow> I (c\<lparr>seq_inode := seq_inode c + 1\<rparr>)"
    and I_seq_dentry: "I c \<Longrightarrow> I (c\<lparr>seq_dentry := seq_dentry c + 1\<rparr>)"
    and I_inode: "I c \<Longrightarrow> table_step i_ino inode_ok (fs_inode (tabs c)) ich it \<Longrightarrow>
      I (journalled_write fs_inode_update fs_inode_undo_update i_ino ich it c)"
    and I_dentry: "I c \<Longrightarrow> table_step d_id dentry_ok (fs_dentry (tabs c)) dch dt \<Longrightarrow> one_update dch \<Longrightarrow>
      I (journalled_write fs_dentry_update fs_dentry_undo_update d_id dch dt c)"
    and I_data: "I c \<Longrightarrow> table_step b_key data_ok (fs_data (tabs c)) bch bt \<Longrightarrow>
      I (journalled_write fs_data_update fs_data_undo_update b_key bch bt c)"
    and I_symlink: "I c \<Longrightarrow> table_step l_ino symlink_ok (fs_symlink (tabs c)) lch lt \<Longrightarrow>
      I (journalled_write fs_symlink_update fs_symlink_undo_update l_ino lch lt c)"
    and I_kv: "I c \<Longrightarrow> table_step k_key kv_ok (kv_store (tabs c)) kch kt \<Longrightarrow>
      I (journalled_write kv_store_update kv_store_undo_update k_key kch kt c)"
    and I_cascade: "I c \<Longrightarrow> I (c\<lparr>tabs := cascade_inodes inos (tabs c)\<rparr>)"
begin

lemma stmt_inv:
  assumes "preserves I f"
  shows "preserves I (stmt f)"
proof (rule preservesI)
  fix c
  assume "I c"
  then have ff: "I (c\<lparr>faults := fs\<rparr>)" for fs by (rule I_faults)
  then have "I c'" if "f (c\<lparr>faults := fs\<rparr>) = (r, c')" for fs r c'
    using preservesD [OF assms ff [of fs]] that by simp
  then show "I (snd (stmt f c))"
    using \<open>I c\<close> I_abort [OF ff] stmt_cases [of f c] by (metis I_abort snd_conv)
qed

lemma query_inv [pres]: "preserves I (query q)"
  unfolding query_def by (rule stmt_inv) (simp add: preserves_def)

lemma get_connection_inv [pres]: "preserves I get_connection"
  by (auto simp: preserves_def get_connection_def I_faults split: list.split bool.split)

lemma clock_now_inv [pres]: "preserves I (clock_now now)"
  unfolding clock_now_def by (rule pres)

lemma inode_write_inv:
  "preserves I (t_insert fs_inode fs_inode_update fs_inode_undo_update i_ino inode_ok r)"
  "(\<And>r. i_ino (f r) = i_ino r) \<Longrightarrow>
    preserves I (t_update fs_inode fs_inode_update fs_inode_undo_update i_ino inode_ok p f)"
  "preserves I (t_delete fs_inode fs_inode_update fs_inode_undo_update i_ino p)"
  by (auto simp: preserves_def t_insert_def t_update_def t_delete_def Let_def
      intro!: I_inode table_step.intros)

lemma dentry_write_inv:
  "preserves I (t_insert fs_dentry fs_dentry_update fs_dentry_undo_update d_id dentry_ok d)"
  "(\<And>r. d_id (g r) = d_id r) \<Longrightarrow> (\<And>r r'. d_slot (g r) = d_slot (g r')) \<Longrightarrow>
    preserves I (t_update fs_dentry fs_dentry_update fs_dentry_undo_update d_id dentry_ok q g)"
  "preserves I (t_delete fs_dentry fs_dentry_update fs_dentry_undo_update d_id q)"
proof -
  show "preserves I (t_update fs_dentry fs_dentry_update fs_dentry_undo_update d_id dentry_ok q g)"
    if g: "\<And>r. d_id (g r) = d_id r" "\<And>r r'. d_slot (g r) = d_slot (g r')"
  proof (rule preservesI)
    fix c :: "'z conn_scheme"
    let ?t = "fs_dentry (tabs c)" and ?m = "map (\<lambda>r. if q r then g r else r)"
    assume "I c"
    moreover have "one_update (map Updated (filter q ?t))" if "dentry_ok (?m ?t)"
      using that by (intro same_place_one_update [where s = d_slot and g = g, OF _ g(2)]) (simp only: dentry_ok_def)
    ultimately show "I (snd (t_update fs_dentry fs_dentry_update fs_dentry_undo_update d_id dentry_ok q g c))"
      by (simp add: t_update_def Let_def I_dentry table_step.intros g(1))
  qed
qed (auto simp: preserves_def t_insert_def t_delete_def Let_def intro!: I_dentry table_step.intros)

lemma data_write_inv:
  "preserves I (t_insert fs_data fs_data_update fs_data_undo_update b_key data_ok b)"
  "(\<And>r. b_key (h r) = b_key r) \<Longrightarrow>
    preserves I (t_update fs_data fs_data_update fs_data_undo_update b_key data_ok s h)"
  "preserves I (t_delete fs_data fs_data_update fs_data_undo_update b_key s)"
  by (auto simp: preserves_def t_insert_def t_update_def t_delete_def Let_def
      intro!: I_data table_step.intros)

lemma symlink_write_inv:
  "preserves I (t_insert fs_symlink fs_symlink_update fs_symlink_undo_update l_ino symlink_ok l)"
  "preserves I (t_delete fs_symlink fs_symlink_update fs_symlink_undo_update l_ino u)"
  by (auto simp: preserves_def t_insert_def t_delete_def Let_def
      intro!: I_symlink table_step.intros)

lemma kv_write_inv:
  "preserves I (t_insert kv_store kv_store_update kv_store_undo_update k_key kv_ok k)"
  "(\<And>r. k_key (j r) = k_key r) \<Longrightarrow>
    preserves I (t_update kv_store kv_store_update kv_store_undo_update k_key kv_ok w j)"
  "preserves I (t_delete kv_store kv_store_update kv_store_undo_update k_key w)"
  by (auto simp: preserves_def t_insert_def t_update_def t_delete_def Let_def
      intro!: I_kv table_step.intros)

lemma insert_inode_row_inv [pres]: "preserves I (insert_inode_row r)"
  unfolding insert_inode_row_def by (intro stmt_inv inode_write_inv)

lemma insert_inode_inv [pres]: "preserves I (insert_inode mk)"
  unfolding insert_inode_def
proof (intro stmt_inv preservesI)
  fix c :: "'z conn_scheme"
  assume "I c"
  then have "I (snd (t_insert fs_inode fs_inode_update fs_inode_undo_update i_ino inode_ok
      (mk (seq_inode c)) (c\<lparr>seq_inode := seq_inode c + 1\<rparr>)))"
    by (intro preservesD [OF inode_write_inv(1)] I_seq_inode)
  then show "I (snd (let n = seq_inode c in
      case t_insert fs_inode fs_inode_update fs_inode_undo_update i_ino inode_ok (mk n)
             (c\<lparr>seq_inode := n + 1\<rparr>) of
        (Inl e, c') \<Rightarrow> (Inl e, c') | (Inr _, c') \<Rightarrow> (Inr n, c')))"
    by (auto simp: Let_def split: prod.split sum.split)
qed

lemma update_inode_inv [pres]:
  "(\<And>r. i_ino (f r) = i_ino r) \<Longrightarrow> preserves I (update_inode ino f)"
  unfolding update_inode_def by (intro stmt_inv inode_write_inv)

lemma delete_inodes_inv [pres]: "preserves I (delete_inodes p)"
  unfolding delete_inodes_def
proof (intro stmt_inv preservesI)
  fix c :: "'z conn_scheme"
  assume "I c"
  then have "I (snd (t_delete fs_inode fs_inode_update fs_inode_undo_update i_ino p c))"
    by (intro preservesD [OF inode_write_inv(3)])
  then show "I (snd (let gone = map i_ino (filter p (fs_inode (tabs c))) in
      case t_delete fs_inode fs_inode_update fs_inode_undo_update i_ino p c of
        (r, c') \<Rightarrow> (r, c'\<lparr>tabs := cascade_inodes gone (tabs c')\<rparr>)))"
    by (simp add: Let_def split_beta I_cascade)
qed

lemma insert_dentry_row_inv [pres]: "preserves I (insert_dentry_row d)"
  unfolding insert_dentry_row_def by (intro stmt_inv dentry_write_inv)

lemma insert_dentry_inv [pres]: "preserves I (insert_dentry n p i)"
  unfolding insert_dentry_def
  by (intro stmt_inv preservesI)
    (simp add: Let_def preservesD [OF dentry_write_inv(1)] I_seq_dentry)

lemma update_dentries_inv [pres]:
  "(\<And>r. d_id (g r) = d_id r) \<Longrightarrow> (\<And>r r'. d_slot (g r) = d_slot (g r')) \<Longrightarrow> preserves I (update_dentries q g)"
  unfolding update_dentries_def by (intro stmt_inv dentry_write_inv)

lemma delete_dentries_inv [pres]: "preserves I (delete_dentries q)"
  unfolding delete_dentries_def by (intro stmt_inv dentry_write_inv)

lemma insert_data_inv [pres]: "preserves I (insert_data b)"
  unfolding insert_data_def by (intro stmt_inv data_write_inv)

lemma update_data_inv [pres]:
  "(\<And>r. b_key (h r) = b_key r) \<Longrightarrow> preserves I (update_data s h)"
  unfolding update_data_def by (intro stmt_inv data_write_inv)

lemma delete_data_inv [pres]: "preserves I (delete_data s)"
  unfolding delete_data_def by (intro stmt_inv data_write_inv)

lemma upsert_data_inv [pres]: "preserves I (upsert_data b)"
  unfolding upsert_data_def
  by (intro stmt_inv preservesI)
    (simp add: preservesD [OF data_write_inv(1)] preservesD [OF data_write_inv(2)])

lemma insert_symlink_inv [pres]: "preserves I (insert_symlink l)"
  unfolding insert_symlink_def by (intro stmt_inv symlink_write_inv)

lemma delete_symlinks_inv [pres]: "preserves I (delete_symlinks u)"
  unfolding delete_symlinks_def by (intro stmt_inv symlink_write_inv)

lemma insert_kv_inv [pres]: "preserves I (insert_kv k)"
  unfolding insert_kv_def by (intro stmt_inv kv_write_inv)

lemma delete_kv_inv [pres]: "preserves I (delete_kv k)"
  unfolding delete_kv_def by (intro stmt_inv kv_write_inv)

lemma upsert_kv_inv [pres]: "preserves I (upsert_kv k v n)"
  unfolding upsert_kv_def
  by (intro stmt_inv preservesI)
    (simp add: preservesD [OF kv_write_inv(1)] preservesD [OF kv_write_inv(2)])

end

text \<open>An invariant that also survives the transaction statements.\<close>

locale session_invariant = statement_invariant I
  for I :: "'z conn_scheme \<Rightarrow> bool" +
  assumes I_begin: "I c \<Longrightarrow> txn_state c = NoTxn \<Longrightarrow> I (c\<lparr>txn_state := Active (tabs c)\<rparr>)"
    and I_undone: "I c \<Longrightarrow> I (end_undone c)"
    and I_kept: "I c \<Longrightarrow> (\<And>s. txn_state c \<noteq> Aborted s) \<Longrightarrow> I (end_kept c)"
begin

lemma begin_txn_inv [pres]: "preserves I begin_txn"
  unfolding begin_txn_def
  by (intro stmt_inv) (auto simp: preserves_def I_begin split: txn.split)

lemma commit_txn_inv [pres]: "preserves I commit_txn"
  by (auto simp: preserves_def commit_txn_def Let_def I_faults
      intro!: I_undone I_kept split: list.split bool.split txn.split)

lemma rollback_txn_inv [pres]: "preserves I rollback_txn"
  by (auto simp: preserves_def rollback_txn_def I_faults I_abort
      intro!: I_undone split: list.split bool.split)

lemma transact_inv [pres]: "preserves I body \<Longrightarrow> preserves I (transact body)"
  unfolding transact_def by (intro pres)

end

text \<open>Being inside a given transaction is such a statement invariant.\<close>

interpretation in_txn: statement_invariant "in_txn s" for s :: tables
  by unfold_locales
    (auto simp: in_txn_def abort_txn_def journalled_write_def)

text \<open>
  All or nothing: a transactional operation that reports an error leaves the committed tables
  as they were, whatever statement failed, the \<open>COMMIT\<close> and the \<open>ROLLBACK\<close> included.
\<close>

lemma begin_txn_cases:
  assumes "txn_state c = NoTxn" and "begin_txn c = (r, c1)"
  shows "(\<exists>e. r = Inl e) \<and> tabs c1 = tabs c \<and> txn_state c1 = NoTxn \<or>
    r = Inr () \<and> in_txn (tabs c) c1"
  using assms
  by (auto simp: begin_txn_def stmt_def abort_txn_def in_txn_def
      split: list.splits bool.splits)

lemma committed_in_txn: "in_txn s c \<Longrightarrow> committed c = s"
  by (auto simp: in_txn_def committed_def)

lemma commit_txn_error: "commit_txn c = (Inl e, c') \<Longrightarrow> in_txn s c \<Longrightarrow> committed c' = s"
  by (auto simp: commit_txn_def end_undone_def committed_def in_txn_def Let_def
      split: list.splits bool.splits txn.splits)

lemma rollback_txn_committed: "in_txn s c \<Longrightarrow> committed (snd (rollback_txn c)) = s"
  by (auto simp: rollback_txn_def end_undone_def committed_def in_txn_def abort_txn_def
      split: list.splits bool.splits txn.splits)

lemma transact_atomic:
  assumes free: "txn_state c = NoTxn"
    and body: "preserves (in_txn (tabs c)) body"
    and run: "transact body c = (Inl e, c')"
  shows "committed c' = committed c"
proof -
  obtain r c1 where b: "begin_txn c = (r, c1)" by fastforce
  have cc: "committed c = tabs c" using free by (simp add: committed_def)
  show ?thesis
  proof (cases r)
    case (Inl e')
    with begin_txn_cases [OF free b] b run show ?thesis
      by (auto simp: transact_def sq_def bnd_def committed_def free)
  next
    case (Inr u)
    obtain q c2 where q: "body c1 = (q, c2)" by fastforce
    have t1: "in_txn (tabs c) c1" using begin_txn_cases [OF free b] Inr by auto
    have t2: "in_txn (tabs c) c2" using preservesD [OF body t1] q by simp
    obtain w c3 where w: "rollback_txn c2 = (w, c3)" by fastforce
    have "committed c3 = tabs c" using rollback_txn_committed [OF t2] w by simp
    moreover have "commit_txn c2 = (Inl e'', c'') \<Longrightarrow> committed c'' = tabs c" for e'' c''
      by (rule commit_txn_error [OF _ t2])
    ultimately show ?thesis
      using run b Inr q w cc committed_in_txn [OF t2]
      by (cases q) (auto simp: transact_def sq_def bnd_def try_op_def split: sum.splits prod.splits if_splits)
  qed
qed

text \<open>
  Before its transaction an operation only reads: the session is idle on the tables \<open>s\<close>.
\<close>

definition idle :: "tables \<Rightarrow> 'z conn_scheme \<Rightarrow> bool" where
  "idle s c \<longleftrightarrow> tabs c = s \<and> txn_state c = NoTxn"

lemma idle_query [pres]: "preserves (idle s) (query q)"
  by (auto simp: preserves_def idle_def query_def stmt_def abort_txn_def
      split: list.splits bool.splits txn.splits)

lemma idle_get_connection [pres]: "preserves (idle s) get_connection"
  by (auto simp: preserves_def idle_def get_connection_def split: list.splits bool.splits)

text \<open>
  \<open>atomic s m\<close>: started idle on \<open>s\<close>, an error of \<open>m\<close> leaves \<open>s\<close> committed.  Reads may
  precede the transaction.
\<close>

definition atomic :: "tables \<Rightarrow> ('z conn_scheme, 'a) oper \<Rightarrow> bool" where
  "atomic s m \<longleftrightarrow> (\<forall>c e c'. idle s c \<longrightarrow> m c = (Inl e, c') \<longrightarrow> committed c' = s)"

lemma atomicD: "atomic (tabs c) m \<Longrightarrow> txn_state c = NoTxn \<Longrightarrow> m c = (Inl e, c') \<Longrightarrow> committed c' = committed c"
  by (simp add: atomic_def idle_def committed_def)

lemma idle_committed: "idle s c \<Longrightarrow> committed c = s"
  by (simp add: idle_def committed_def)

lemma atomic_idle: "preserves (idle s) m \<Longrightarrow> atomic s m"
  by (fastforce simp: atomic_def preserves_def dest: idle_committed)

lemma atomic_bnd:
  assumes "preserves (idle s) m" and "\<And>x. atomic s (f x)"
  shows "atomic s (bnd m f)"
  unfolding atomic_def
proof (intro allI impI)
  fix c e c'
  assume c: "idle s c" and run: "bnd m f c = (Inl e, c')"
  obtain r d where m: "m c = (r, d)" by fastforce
  have "idle s d" using preservesD [OF assms(1) c] m by simp
  then show "committed c' = s"
    using assms(2) run m by (cases r) (auto simp: bnd_def atomic_def dest: idle_committed)
qed

lemma atomic_sq: "preserves (idle s) m \<Longrightarrow> atomic s n \<Longrightarrow> atomic s (sq m n)"
  unfolding sq_def by (rule atomic_bnd)

lemma atomic_if: "(b \<Longrightarrow> atomic s m) \<Longrightarrow> (\<not> b \<Longrightarrow> atomic s n) \<Longrightarrow> atomic s (if b then m else n)"
  by simp

lemma atomic_transact: "preserves (in_txn s) body \<Longrightarrow> atomic s (transact body)"
  unfolding atomic_def
  by (metis idle_committed idle_def transact_atomic)

lemmas atomic_intros = atomic_bnd atomic_sq atomic_if atomic_transact

text \<open>A body between \<open>BEGIN\<close> and a final \<open>COMMIT\<close>, without rollback, is atomic as well.\<close>

definition in_txn_or_done :: "tables \<Rightarrow> ('z conn_scheme, 'a) oper \<Rightarrow> bool" where
  "in_txn_or_done s m \<longleftrightarrow> (\<forall>c e c'. in_txn s c \<longrightarrow> m c = (Inl e, c') \<longrightarrow> committed c' = s)"

lemma in_txn_or_done_bnd:
  assumes "preserves (in_txn s) m" and "\<And>x. in_txn_or_done s (f x)"
  shows "in_txn_or_done s (bnd m f)"
  unfolding in_txn_or_done_def
proof (intro allI impI)
  fix c e c'
  assume c: "in_txn s c" and run: "bnd m f c = (Inl e, c')"
  obtain r d where m: "m c = (r, d)" by fastforce
  have "in_txn s d" using preservesD [OF assms(1) c] m by simp
  then show "committed c' = s"
    using assms(2) run m by (cases r) (auto simp: bnd_def in_txn_or_done_def dest: committed_in_txn)
qed

lemma in_txn_or_done_sq:
  "preserves (in_txn s) m \<Longrightarrow> in_txn_or_done s n \<Longrightarrow> in_txn_or_done s (sq m n)"
  unfolding sq_def by (rule in_txn_or_done_bnd)

lemma in_txn_or_done_case_prod:
  "(\<And>x y. in_txn_or_done s (f x y)) \<Longrightarrow> in_txn_or_done s (case v of (x, y) \<Rightarrow> f x y)"
  by (cases v) simp

lemma in_txn_or_done_commit: "in_txn_or_done s commit_txn"
  by (auto simp: in_txn_or_done_def intro: commit_txn_error)

lemma in_txn_or_done_ret: "in_txn_or_done s (ret x)"
  by (simp add: in_txn_or_done_def)

lemma in_txn_or_done_commit_ret: "in_txn_or_done s (sq commit_txn (ret x))"
  unfolding in_txn_or_done_def sq_def bnd_def
  by (auto split: prod.splits sum.splits intro: commit_txn_error)

lemmas in_txn_or_done_intros = in_txn_or_done_commit_ret in_txn_or_done_commit in_txn_or_done_bnd
  in_txn_or_done_sq in_txn_or_done_case_prod

lemma atomic_begin: "in_txn_or_done s m \<Longrightarrow> atomic s (sq begin_txn m)"
  unfolding atomic_def
proof (intro allI impI)
  fix c e c'
  assume m: "in_txn_or_done s m" and c: "idle s c" and run: "sq begin_txn m c = (Inl e, c')"
  obtain r d where b: "begin_txn c = (r, d)" by fastforce
  from c have t: "txn_state c = NoTxn" "tabs c = s" by (simp_all add: idle_def)
  show "committed c' = s"
    using begin_txn_cases [OF t(1) b] run b m t
    by (auto simp: sq_def bnd_def in_txn_or_done_def committed_def)
qed

section \<open>A sample database\<close>

text \<open>
  The database the examples of the development evaluate on: a root directory with a file
  \<open>a\<close> of six bytes (in chunks of four), an empty directory \<open>d\<close> and a symbolic link \<open>l\<close>.
\<close>

definition sample_inode :: "i64 \<Rightarrow> i64 \<Rightarrow> i64 \<Rightarrow> i64 \<Rightarrow> inode_row" where
  "sample_inode ino mode nlink sz =
    \<lparr>i_ino = ino, i_mode = mode, i_nlink = nlink, i_uid = 0, i_gid = 0, i_size = sz,
     i_atime = 100, i_mtime = 100, i_ctime = 100, i_rdev = 0,
     i_atime_nsec = 0, i_mtime_nsec = 0, i_ctime_nsec = 0\<rparr>"

definition sample_tables :: tables where
  "sample_tables =
    \<lparr>fs_config = [(''chunk_size'', ''4'')],
     fs_inode = [sample_inode 1 0x41ED 3 0, sample_inode 2 0x81A4 1 6,
                 sample_inode 3 0x41ED 2 0, sample_inode 4 0xA1FF 1 2],
     fs_dentry = [\<lparr>d_id = 1, d_name = ''a'', d_parent = 1, d_ino = 2\<rparr>,
                  \<lparr>d_id = 2, d_name = ''d'', d_parent = 1, d_ino = 3\<rparr>,
                  \<lparr>d_id = 3, d_name = ''l'', d_parent = 1, d_ino = 4\<rparr>],
     fs_data = [\<lparr>b_ino = 2, b_index = 0, b_data = [1, 2, 3, 4]\<rparr>,
                \<lparr>b_ino = 2, b_index = 1, b_data = [5, 6]\<rparr>],
     fs_symlink = [\<lparr>l_ino = 4, l_target = ''/a''\<rparr>],
     fs_volumes = [\<lparr>v_id = ''v'', v_root = 1\<rparr>],
     kv_store = [], tool_calls = [], fs_volume_state = [], fs_snapshots = [],
     fs_inode_undo = [], fs_dentry_undo = [], fs_data_undo = [], fs_symlink_undo = [],
     kv_store_undo = [], fs_whiteout = [], fs_origin = [],
     fs_overlay_config = []\<rparr>"

definition sample_conn :: conn where
  "sample_conn =
    \<lparr>tabs = sample_tables, txn_state = NoTxn, faults = [], seq_inode = 5, seq_dentry = 4,
     seq_tool = 1, guc_volume = Some ''v'', guc_suppress = None, guc_suppress_local = None\<rparr>"

lemmas sample_defs = sample_conn_def sample_tables_def sample_inode_def

lemma sample_ready [simp]:
  "ready sample_conn" "txn_state sample_conn = NoTxn" "tabs sample_conn = sample_tables"
  by (simp_all add: ready_def sample_conn_def)

end
