(* ===== verification/Journal.thy ===== *)
theory Journal
  imports Session "HOL-Library.Multiset"
begin

text \<open>
  The undo journal.  The triggers of \<open>snapshot/triggers.rs\<close> record every change of the five
  journalled tables; undoing the records, newest first, gives back the rows the table had.
  Tables are compared as multisets of rows: a row that is put back stands elsewhere.  The
  invariant \<open>recording\<close> says that this holds for all five tables since a given snapshot; it is
  a session invariant, so every operation of the program keeps it.
\<close>

section \<open>Undoing one table\<close>

definition undo1 :: "('r \<Rightarrow> 'k) \<Rightarrow> ('k, 'r) undo_row \<Rightarrow> 'r list \<Rightarrow> 'r list" where
  "undo1 key u t =
    filter (\<lambda>r. key r \<noteq> u_key u) t @ (case u_old u of None \<Rightarrow> [] | Some r \<Rightarrow> [r])"

text \<open>A record as the triggers write it.\<close>

definition wf_undo :: "('r \<Rightarrow> 'k) \<Rightarrow> ('k, 'r) undo_row \<Rightarrow> bool" where
  "wf_undo key u \<longleftrightarrow>
    (case u_old u of None \<Rightarrow> u_op u = CHR ''I''
     | Some r \<Rightarrow> u_op u \<in> {CHR ''U'', CHR ''D''} \<and> key r = u_key u)"

lemma wf_undo_of [simp]: "wf_undo key (undo_of v n key ch)"
  by (cases ch) (simp_all add: wf_undo_def)

text \<open>
  \<open>unwinds key ok us t t0\<close>: undoing the records \<open>us\<close> in order takes the rows of \<open>t\<close> to those of
  \<open>t0\<close>, through tables that satisfy the constraint.
\<close>

fun unwinds ::
  "('r \<Rightarrow> 'k) \<Rightarrow> ('r list \<Rightarrow> bool) \<Rightarrow> ('k, 'r) undo_row list \<Rightarrow> 'r list \<Rightarrow> 'r list \<Rightarrow> bool" where
  "unwinds key ok [] t t0 \<longleftrightarrow> mset t = mset t0"
| "unwinds key ok (u # us) t t0 \<longleftrightarrow>
    wf_undo key u \<and> ok (undo1 key u t) \<and> unwinds key ok us (undo1 key u t) t0"

lemma filter_fresh: "k \<notin> set (map key t) \<Longrightarrow> filter (\<lambda>x. key x \<noteq> k) t = t"
  by (induction t) auto

lemma distinct_map_sub:
  assumes "distinct (map f t)" and "mset t' \<subseteq># mset t"
  shows "distinct (map f t')"
proof -
  obtain m where "mset t = mset t' + m" using assms(2) by (auto simp: subset_mset.le_iff_add)
  moreover obtain z where "mset z = m" using ex_mset by blast
  ultimately have "mset (map f t) = mset (map f (t' @ z))" by simp
  then show ?thesis using assms(1) mset_eq_imp_distinct_iff by fastforce
qed

locale journalled_table =
  fixes key :: "'r \<Rightarrow> 'k" and ok :: "'r list \<Rightarrow> bool"
  assumes ok_sub: "ok t \<Longrightarrow> mset t' \<subseteq># mset t \<Longrightarrow> ok t'"
    and ok_key: "ok t \<Longrightarrow> distinct (map key t)"
begin

lemma ok_perm: "mset t = mset t' \<Longrightarrow> ok t = ok t'"
  using ok_sub [of t t'] ok_sub [of t' t] by auto

lemma undo1_perm: "mset t = mset t' \<Longrightarrow> mset (undo1 key u t) = mset (undo1 key u t')"
  by (simp add: undo1_def)

lemma unwinds_perm: "mset t = mset t' \<Longrightarrow> unwinds key ok us t t0 = unwinds key ok us t' t0"
proof (induction us arbitrary: t t')
  case (Cons u us)
  note p = undo1_perm [OF Cons.prems, of u]
  show ?case using Cons.IH [OF p] ok_perm [OF p] by simp
qed simp

lemma unwinds_insert:
  assumes "ok (t @ [r])" and "unwinds key ok us t t0"
  shows "unwinds key ok (undo_of v n key (Inserted r) # us) (t @ [r]) t0"
proof -
  have "filter (\<lambda>x. key x \<noteq> key r) t = t" using ok_key [OF assms(1)] by (intro filter_fresh) simp
  moreover have "ok t" using ok_sub [OF assms(1), of t] by simp
  ultimately show ?thesis using assms(2) by (simp add: undo1_def wf_undo_def)
qed

lemma unwinds_deletes:
  assumes "ok t" and "mset t' + mset ds = mset t" and "unwinds key ok us t t0"
  shows "unwinds key ok (rev (map (\<lambda>r. undo_of v n key (Deleted r)) ds) @ us) t' t0"
  using assms
proof (induction ds arbitrary: t' rule: rev_induct)
  case Nil
  then show ?case using unwinds_perm [of t' t us] by simp
next
  case (snoc r ds)
  have m: "mset (t' @ [r]) + mset ds = mset t" using snoc.prems(2) by (simp add: ac_simps)
  then have ok: "ok (t' @ [r])" by (intro ok_sub [OF snoc.prems(1)]) (metis mset_subset_eq_add_left)
  then have "filter (\<lambda>x. key x \<noteq> key r) t' = t'" using ok_key [OF ok] by (intro filter_fresh) simp
  then show ?case using snoc.IH [OF snoc.prems(1) m snoc.prems(3)] ok by (simp add: undo1_def wf_undo_def)
qed

lemma unwinds_update_one:
  assumes "ok t" and "filter p t = [r]" and f: "\<And>r. key (f r) = key r" and "unwinds key ok us t t0"
  shows "unwinds key ok (undo_of v n key (Updated r) # us) (map (\<lambda>r. if p r then f r else r) t) t0"
proof -
  obtain a b where t: "t = a @ r # b" "\<forall>x \<in> set a. \<not> p x" "p r" "[] = filter p b"
    using filter_eq_ConsD [OF assms(2)] by blast
  then have "\<forall>x \<in> set b. \<not> p x" by (metis filter_empty_conv)
  then have g: "map (\<lambda>r. if p r then f r else r) t = a @ f r # b" using t by (simp add: map_idI)
  have "key r \<notin> key ` set a" "key r \<notin> key ` set b" using ok_key [OF assms(1)] t(1) by auto
  then have "filter (\<lambda>x. key x \<noteq> key r) (a @ f r # b) = a @ b"
    using f filter_fresh [of "key r" key a] filter_fresh [of "key r" key b] by auto
  then have m: "mset (undo1 key (undo_of v n key (Updated r)) (a @ f r # b)) = mset t"
    unfolding t(1) by (simp add: undo1_def)
  show ?thesis unfolding g using assms(1,4) ok_perm [OF m] unwinds_perm [OF m] by (simp add: wf_undo_def)
qed

lemma step_unwinds:
  assumes "table_step key ok t chs t'" and "ok t" and "one_update chs" and "unwinds key ok us t t0"
  shows "ok t' \<and> unwinds key ok (rev (map (undo_of v n key) chs) @ us) t' t0"
  using assms(1)
proof cases
  case (ts_insert r)
  then show ?thesis using unwinds_insert [of t r us t0 v n] assms(4) by simp
next
  case (ts_update p f)
  show ?thesis
  proof (cases "filter p t")
    case Nil
    then have "map (\<lambda>r. if p r then f r else r) t = t" by (intro map_idI) (auto simp: filter_empty_conv)
    then show ?thesis using ts_update Nil assms(2,4) by simp
  next
    case (Cons r rs)
    then have "filter p t = [r]" using assms(3) ts_update(1) by (auto simp: one_update_def)
    then show ?thesis using ts_update unwinds_update_one [OF assms(2) _ ts_update(4) assms(4), of p r v n] by simp
  qed
next
  case (ts_delete p)
  have m: "mset (filter (\<lambda>r. \<not> p r) t) + mset (filter p t) = mset t" by (induction t) auto
  then have "ok t'" using ts_delete(2) ok_sub [OF assms(2), of t'] by (metis mset_subset_eq_add_left)
  then show ?thesis using ts_delete unwinds_deletes [OF assms(2) m assms(4), of v n] by (simp add: o_def)
qed

end

text \<open>A table whose only constraint is the journalled key.\<close>

locale keyed_table = journalled_table key ok
  for key :: "'r \<Rightarrow> 'k" and ok :: "'r list \<Rightarrow> bool" +
  assumes ok_iff: "ok t \<longleftrightarrow> distinct (map key t)"
begin

lemma unwinds_updates:
  assumes "distinct (map key (s @ z))" and f: "\<And>r. key (f r) = key r"
    and "mset x = mset (map (\<lambda>r. if p r then f r else r) s @ z)" and "unwinds key ok us (s @ z) t0"
  shows "unwinds key ok (rev (map (\<lambda>r. undo_of v n key (Updated r)) (filter p s)) @ us) x t0"
  using assms(1,3,4)
proof (induction s arbitrary: x z rule: rev_induct)
  case Nil
  then show ?case using unwinds_perm [of x z] by simp
next
  case (snoc r s)
  let ?g = "\<lambda>r. if p r then f r else r"
  have keys: "map key (map ?g s) = map key s" using f by simp
  have u: "unwinds key ok us (s @ r # z) t0" using snoc.prems(3) by simp
  have d: "distinct (map key (s @ r # z))" using snoc.prems(1) by simp
  show ?case
  proof (cases "p r")
    case False
    then show ?thesis using snoc.IH [OF d _ u, of x] snoc.prems(2) by simp
  next
    case True
    let ?u = "undo_of v n key (Updated r)"
    have "key r \<notin> set (map key (map ?g s))" using d unfolding keys by auto
    then have "filter (\<lambda>x. key x \<noteq> key r) (map ?g s) = map ?g s" by (rule filter_fresh)
    moreover have "filter (\<lambda>x. key x \<noteq> key r) z = z" using d by (intro filter_fresh) auto
    ultimately have "filter (\<lambda>x. key x \<noteq> key r) (map ?g (s @ [r]) @ z) = map ?g s @ z"
      using True f by simp
    then have "mset (undo1 key ?u (map ?g (s @ [r]) @ z)) = mset (map ?g s @ r # z)"
      by (simp add: undo1_def)
    then have m: "mset (undo1 key ?u x) = mset (map ?g s @ r # z)"
      using undo1_perm [OF snoc.prems(2), of ?u] by simp
    have "ok (map ?g s @ r # z)" using d unfolding ok_iff map_append keys by simp
    then have "ok (undo1 key ?u x)" using ok_perm [OF m] by simp
    then show ?thesis using snoc.IH [OF d m u] True by (simp add: wf_undo_def)
  qed
qed

lemma keyed_step_unwinds:
  assumes "table_step key ok t chs t'" and "ok t" and "unwinds key ok us t t0"
  shows "ok t' \<and> unwinds key ok (rev (map (undo_of v n key) chs) @ us) t' t0"
proof (cases "one_update chs")
  case True
  then show ?thesis using step_unwinds [OF assms(1,2) _ assms(3)] by simp
next
  case False
  show ?thesis
    using assms(1)
  proof cases
    case (ts_update p f)
    then show ?thesis
      using unwinds_updates [of t "[]" f t' p us t0 v n] assms(2,3) by (simp add: ok_iff o_def)
  qed (use False in simp_all)
qed

end

interpretation inode_j: keyed_table i_ino inode_ok
  by unfold_locales (auto simp: inode_ok_def intro: distinct_map_sub)

interpretation data_j: keyed_table "\<lambda>b. b_key b" data_ok
  by unfold_locales (auto simp: data_ok_def intro: distinct_map_sub)

interpretation symlink_j: keyed_table l_ino symlink_ok
  by unfold_locales (auto simp: symlink_ok_def intro: distinct_map_sub)

interpretation kv_j: keyed_table k_key kv_ok
  by unfold_locales (auto simp: kv_ok_def intro: distinct_map_sub)

interpretation dentry_j: journalled_table d_id dentry_ok
  by unfold_locales (auto simp: dentry_ok_def intro: distinct_map_sub)

section \<open>Recording since a snapshot\<close>

text \<open>
  The records of volume \<open>v\<close> after snapshot \<open>n\<close>, newest first: \<open>WHERE volume_id = $1 AND
  snap_id > $2 ORDER BY undo_id DESC\<close>.
\<close>

definition since :: "string \<Rightarrow> i64 \<Rightarrow> ('k, 'r) undo_row list \<Rightarrow> ('k, 'r) undo_row list" where
  "since v n us = rev (filter (\<lambda>u. u_volume u = v \<and> n < u_snap u) us)"

lemma undo_of_sel [simp]: "u_volume (undo_of v n key ch) = v" "u_snap (undo_of v n key ch) = n"
  by (cases ch; simp)+

lemma since_append: "n < m \<Longrightarrow> since v n (us @ map (undo_of v m key) chs) = rev (map (undo_of v m key) chs) @ since v n us"
  by (simp add: since_def filter_map o_def)

text \<open>The five tables of \<open>t\<close> unwind to those of \<open>t0\<close>.\<close>

definition undoable :: "string \<Rightarrow> i64 \<Rightarrow> tables \<Rightarrow> tables \<Rightarrow> bool" where
  "undoable v n t0 t \<longleftrightarrow>
    inode_ok (fs_inode t) \<and> unwinds i_ino inode_ok (since v n (fs_inode_undo t)) (fs_inode t) (fs_inode t0) \<and>
    dentry_ok (fs_dentry t) \<and> unwinds d_id dentry_ok (since v n (fs_dentry_undo t)) (fs_dentry t) (fs_dentry t0) \<and>
    data_ok (fs_data t) \<and> unwinds b_key data_ok (since v n (fs_data_undo t)) (fs_data t) (fs_data t0) \<and>
    symlink_ok (fs_symlink t) \<and> unwinds l_ino symlink_ok (since v n (fs_symlink_undo t)) (fs_symlink t) (fs_symlink t0) \<and>
    kv_ok (kv_store t) \<and> unwinds k_key kv_ok (since v n (kv_store_undo t)) (kv_store t) (kv_store t0)"

text \<open>
  While the volume's state row is there, capture is on under a number after \<open>n\<close>, the volume has
  its root, numbers and labels of its snapshots are unique, and the tables unwind.  (Deleting the root inode of a volume removes the row.)
\<close>

definition labels_ok :: "string \<Rightarrow> snapshot_row list \<Rightarrow> bool" where
  "labels_ok v ps \<longleftrightarrow>
    (\<forall>p \<in> set ps. \<forall>q \<in> set ps. p_volume p = v \<longrightarrow> p_volume q = v \<longrightarrow>
       (p_snap p = p_snap q \<longrightarrow> p_label p = p_label q) \<and>
       (p_label p \<noteq> None \<longrightarrow> p_label p = p_label q \<longrightarrow> p_snap p = p_snap q))"

lemma labels_ok_mono: "labels_ok v ps \<Longrightarrow> set qs \<subseteq> set ps \<Longrightarrow> labels_ok v qs"
  unfolding labels_ok_def by blast

definition restorable :: "string \<Rightarrow> i64 \<Rightarrow> tables \<Rightarrow> tables \<Rightarrow> bool" where
  "restorable v n t0 t \<longleftrightarrow>
    (\<forall>st. look s_volume (fs_volume_state t) v = Some st \<longrightarrow>
       s_enabled st \<and> n < s_current st \<and> look v_id (fs_volumes t) v = look v_id (fs_volumes t0) v \<and>
       distinct (map v_id (fs_volumes t)) \<and> labels_ok v (fs_snapshots t) \<and> undoable v n t0 t)"

definition recording :: "string \<Rightarrow> i64 \<Rightarrow> tables \<Rightarrow> 'z conn_scheme \<Rightarrow> bool" where
  "recording v n t0 c \<longleftrightarrow>
    guc_volume c = Some v \<and> v \<noteq> [] \<and> guc_suppress c \<noteq> Some ''true'' \<and> guc_suppress_local c = None \<and>
    restorable v n t0 (tabs c) \<and> restorable v n t0 (committed c)"

lemma recording_capture:
  assumes "recording v n t0 c" and "look s_volume (fs_volume_state (tabs c)) v = Some st"
  shows "capture c key chs = map (undo_of v (s_current st) key) chs" and "n < s_current st"
    and "undoable v n t0 (tabs c)"
  using assms by (auto simp: recording_def restorable_def capture_def capturing_def suppress_setting_def)

text \<open>A journalled write of one table, given that it keeps \<open>undoable\<close>.\<close>

lemma recording_write:
  assumes rec: "recording v n t0 c"
    and same: "fs_volume_state (tabs (journalled_write u w k chs t c)) = fs_volume_state (tabs c)"
      "fs_volumes (tabs (journalled_write u w k chs t c)) = fs_volumes (tabs c)"
      "fs_snapshots (tabs (journalled_write u w k chs t c)) = fs_snapshots (tabs c)"
    and und: "\<And>st. look s_volume (fs_volume_state (tabs c)) v = Some st \<Longrightarrow>
      undoable v n t0 (tabs (journalled_write u w k chs t c))"
  shows "recording v n t0 (journalled_write u w k chs t c)"
proof -
  have "restorable v n t0 (tabs (journalled_write u w k chs t c))"
    using rec same und unfolding recording_def restorable_def by simp
  moreover have "committed (journalled_write u w k chs t c) =
      (if txn_state c = NoTxn then tabs (journalled_write u w k chs t c) else committed c)"
    by (simp add: committed_def split: txn.split)
  ultimately show ?thesis using rec unfolding recording_def by simp
qed

lemma undoable_put:
  fixes c :: "'z conn_scheme"
  assumes und: "undoable v n t0 (tabs c)" and n: "n < m" and cap: "\<And>chs :: inode_row change list. capture c i_ino chs = map (undo_of v m i_ino) chs"
    "\<And>chs :: dentry_row change list. capture c d_id chs = map (undo_of v m d_id) chs" "\<And>chs :: data_row change list. capture c b_key chs = map (undo_of v m b_key) chs"
    "\<And>chs :: symlink_row change list. capture c l_ino chs = map (undo_of v m l_ino) chs" "\<And>chs :: kv_row change list. capture c k_key chs = map (undo_of v m k_key) chs"
  shows "table_step i_ino inode_ok (fs_inode (tabs c)) ich it \<Longrightarrow> undoable v n t0 (tabs (put_inode ich it c))"
    and "table_step d_id dentry_ok (fs_dentry (tabs c)) dch dt \<Longrightarrow> one_update dch \<Longrightarrow>
      undoable v n t0 (tabs (put_dentry dch dt c))"
    and "table_step b_key data_ok (fs_data (tabs c)) bch bt \<Longrightarrow> undoable v n t0 (tabs (put_data bch bt c))"
    and "table_step l_ino symlink_ok (fs_symlink (tabs c)) lch lt \<Longrightarrow> undoable v n t0 (tabs (put_symlink lch lt c))"
    and "table_step k_key kv_ok (kv_store (tabs c)) kch kt \<Longrightarrow> undoable v n t0 (tabs (put_kv kch kt c))"
proof -
  note defs = undoable_def journalled_write_def cap since_append [OF n]
  note D = und [unfolded undoable_def]
  show "undoable v n t0 (tabs (put_inode ich it c))"
    if "table_step i_ino inode_ok (fs_inode (tabs c)) ich it"
    using D inode_j.keyed_step_unwinds [OF that, of "since v n (fs_inode_undo (tabs c))" "fs_inode t0" v m]
    by (simp add: defs)
  show "undoable v n t0 (tabs (put_dentry dch dt c))"
    if "table_step d_id dentry_ok (fs_dentry (tabs c)) dch dt" "one_update dch"
    using D dentry_j.step_unwinds [OF that(1) _ that(2), of "since v n (fs_dentry_undo (tabs c))" "fs_dentry t0" v m]
    by (simp add: defs)
  show "undoable v n t0 (tabs (put_data bch bt c))"
    if "table_step b_key data_ok (fs_data (tabs c)) bch bt"
    using D data_j.keyed_step_unwinds [OF that, of "since v n (fs_data_undo (tabs c))" "fs_data t0" v m]
    by (simp add: defs)
  show "undoable v n t0 (tabs (put_symlink lch lt c))"
    if "table_step l_ino symlink_ok (fs_symlink (tabs c)) lch lt"
    using D symlink_j.keyed_step_unwinds [OF that, of "since v n (fs_symlink_undo (tabs c))" "fs_symlink t0" v m]
    by (simp add: defs)
  show "undoable v n t0 (tabs (put_kv kch kt c))"
    if "table_step k_key kv_ok (kv_store (tabs c)) kch kt"
    using D kv_j.keyed_step_unwinds [OF that, of "since v n (kv_store_undo (tabs c))" "kv_store t0" v m]
    by (simp add: defs)
qed

lemma look_filter_Some: "look key (filter p t) k = Some r \<Longrightarrow> (\<And>x. key x = k \<Longrightarrow> p x) \<Longrightarrow> look key t k = Some r"
  by (induction t) (auto split: if_splits)

lemma look_filter_keep: "look key t k = Some r \<Longrightarrow> p r \<Longrightarrow> look key (filter p t) k = Some r"
  by (induction t) (auto split: if_splits)

lemma undoable_cascade [simp]: "undoable v n t0 (cascade_inodes inos t) = undoable v n t0 t"
  by (simp add: undoable_def cascade_inodes_def Let_def)

lemma restorable_cascade:
  assumes "restorable v n t0 t"
  shows "restorable v n t0 (cascade_inodes inos t)"
  unfolding restorable_def
proof (intro allI impI)
  fix st
  let ?vs = "map v_id (filter (\<lambda>x. v_root x \<in> set inos) (fs_volumes t))"
  assume l: "look s_volume (fs_volume_state (cascade_inodes inos t)) v = Some st"
  then have lf: "look s_volume (filter (\<lambda>s. s_volume s \<notin> set ?vs) (fs_volume_state t)) v = Some st"
    by (simp add: cascade_inodes_def Let_def)
  then have v: "v \<notin> set ?vs" by (auto dest!: look_Some_key)
  then have "look s_volume (fs_volume_state t) v = Some st" by (intro look_filter_Some [OF lf]) blast
  then have st: "s_enabled st \<and> n < s_current st \<and> look v_id (fs_volumes t) v = look v_id (fs_volumes t0) v \<and>
      distinct (map v_id (fs_volumes t)) \<and> labels_ok v (fs_snapshots t) \<and> undoable v n t0 t" using assms unfolding restorable_def by blast
  moreover have "look v_id (filter (\<lambda>x. v_root x \<notin> set inos) (fs_volumes t)) v = look v_id (fs_volumes t) v"
  proof (cases "look v_id (fs_volumes t) v")
    case None
    then have "v \<notin> v_id ` set (filter (\<lambda>x. v_root x \<notin> set inos) (fs_volumes t))" by (auto simp: look_None_iff)
    then show ?thesis using None look_None_iff by metis
  next
    case (Some r)
    then have "v_id r = v" "r \<in> set (fs_volumes t)" by auto
    then have "v_root r \<notin> set inos" using v by auto
    then show ?thesis using look_filter_keep [OF Some] Some by simp
  qed
  moreover have "labels_ok v (fs_snapshots (cascade_inodes inos t))"
    using st by (auto simp: cascade_inodes_def Let_def intro: labels_ok_mono)
  ultimately show "s_enabled st \<and> n < s_current st \<and>
      look v_id (fs_volumes (cascade_inodes inos t)) v = look v_id (fs_volumes t0) v \<and>
      distinct (map v_id (fs_volumes (cascade_inodes inos t))) \<and> labels_ok v (fs_snapshots (cascade_inodes inos t)) \<and> undoable v n t0 (cascade_inodes inos t)"
    unfolding undoable_cascade by (simp add: cascade_inodes_def Let_def distinct_map_filter)
qed

interpretation recorded: session_invariant "recording v n t0" for v :: string and n :: i64 and t0 :: tables
proof
  fix c :: "'z conn_scheme" and inos
  note cap = recording_capture
  note put = undoable_put
  show "recording v n t0 (c\<lparr>tabs := cascade_inodes inos (tabs c)\<rparr>)" if "recording v n t0 c"
    using that restorable_cascade
    by (auto simp: recording_def committed_def split: txn.splits)
  show "recording v n t0 (put_inode ich it c)"
    if "recording v n t0 c" "table_step i_ino inode_ok (fs_inode (tabs c)) ich it" for ich it
    by (rule recording_write [OF that(1)])
      (simp_all add: put(1) [OF cap(3) [OF that(1)] cap(2) [OF that(1)] _ _ _ _ _ that(2)] cap(1) [OF that(1)])
  show "recording v n t0 (put_dentry dch dt c)"
    if "recording v n t0 c" "table_step d_id dentry_ok (fs_dentry (tabs c)) dch dt" "one_update dch" for dch dt
    by (rule recording_write [OF that(1)])
      (simp_all add: put(2) [OF cap(3) [OF that(1)] cap(2) [OF that(1)] _ _ _ _ _ that(2,3)] cap(1) [OF that(1)])
  show "recording v n t0 (put_data bch bt c)"
    if "recording v n t0 c" "table_step b_key data_ok (fs_data (tabs c)) bch bt" for bch bt
    by (rule recording_write [OF that(1)])
      (simp_all add: put(3) [OF cap(3) [OF that(1)] cap(2) [OF that(1)] _ _ _ _ _ that(2)] cap(1) [OF that(1)])
  show "recording v n t0 (put_symlink lch lt c)"
    if "recording v n t0 c" "table_step l_ino symlink_ok (fs_symlink (tabs c)) lch lt" for lch lt
    by (rule recording_write [OF that(1)])
      (simp_all add: put(4) [OF cap(3) [OF that(1)] cap(2) [OF that(1)] _ _ _ _ _ that(2)] cap(1) [OF that(1)])
  show "recording v n t0 (put_kv kch kt c)"
    if "recording v n t0 c" "table_step k_key kv_ok (kv_store (tabs c)) kch kt" for kch kt
    by (rule recording_write [OF that(1)])
      (simp_all add: put(5) [OF cap(3) [OF that(1)] cap(2) [OF that(1)] _ _ _ _ _ that(2)] cap(1) [OF that(1)])
qed (auto simp: recording_def committed_def abort_txn_def end_undone_def end_kept_def split: txn.splits)

end
