(* ===== verification/Snapshot.thy ===== *)
theory Snapshot
  imports Journal
begin

text \<open>
  The rollback snapshots of \<open>snapshot/*.rs\<close>: enabling and disabling a volume, committing and
  listing snapshots, and the restore that replays the undo tables backwards.  Every column the
  code reads back is NOT NULL or handled in the model, and has a type \<open>DbConn::query\<close> decodes
  (the code casts booleans and timestamps), so the conversions of non-NULL columns succeed.
  Two things are not code of the program: how the server prints a timestamp and the RFC 3339
  parser of the chrono crate; they are the parameter \<open>ts_lib\<close>.
\<close>

section \<open>Types (types.rs)\<close>

record volume_rollback_state =
  rs_volume :: string
  rs_enabled :: bool
  rs_current :: i64

record snapshot_info =
  si_snap :: i64
  si_committed :: i64
  si_label :: "string option"

datatype undo_op = UndoInsert | UndoUpdate | UndoDelete

definition from_char :: "char \<Rightarrow> undo_op option" where
  "from_char c =
    (if c = CHR ''I'' then Some UndoInsert
     else if c = CHR ''U'' then Some UndoUpdate
     else if c = CHR ''D'' then Some UndoDelete
     else None)"

fun to_char :: "undo_op \<Rightarrow> char" where
  "to_char UndoInsert = CHR ''I''"
| "to_char UndoUpdate = CHR ''U''"
| "to_char UndoDelete = CHR ''D''"

record disable_result =
  purged_snapshots :: i64
  purged_undo_rows :: i64

record restore_outcome =
  pruned_snapshots :: i64
  pruned_undo_rows :: i64

section \<open>Statements on the snapshot tables\<close>

text \<open>A \<open>DELETE\<close> on a table without triggers, with the number of rows it removed.\<close>

definition purge ::
  "(tables \<Rightarrow> 'r list) \<Rightarrow> (('r list \<Rightarrow> 'r list) \<Rightarrow> tables \<Rightarrow> tables) \<Rightarrow> ('r \<Rightarrow> bool) \<Rightarrow>
   ('z conn_scheme, nat) oper" where
  "purge get upd p =
    stmt (\<lambda>c. (Inr (length (filter p (get (tabs c)))),
      c\<lparr>tabs := upd (filter (\<lambda>r. \<not> p r)) (tabs c)\<rparr>))"

definition set_state :: "string \<Rightarrow> (vstate_row \<Rightarrow> vstate_row) \<Rightarrow> tables \<Rightarrow> tables" where
  "set_state v f = fs_volume_state_update (map (\<lambda>s. if s_volume s = v then f s else s))"

text \<open>The references to \<open>fs_volumes\<close>, the primary key and the partial unique index on labels.\<close>

definition volume_known :: "string \<Rightarrow> tables \<Rightarrow> bool" where
  "volume_known v t \<longleftrightarrow> v \<in> v_id ` set (fs_volumes t)"

definition insert_state :: "vstate_row \<Rightarrow> tables \<Rightarrow> tables option" where
  "insert_state s t =
    (if volume_known (s_volume s) t
     then Some (t\<lparr>fs_volume_state := fs_volume_state t @ [s]\<rparr>) else None)"

definition insert_snapshot :: "snapshot_row \<Rightarrow> tables \<Rightarrow> tables option" where
  "insert_snapshot p t =
    (if volume_known (p_volume p) t \<and>
        (\<forall>q \<in> set (fs_snapshots t). p_volume q = p_volume p \<longrightarrow>
           p_snap q \<noteq> p_snap p \<and> (p_label p = None \<or> p_label q \<noteq> p_label p))
     then Some (t\<lparr>fs_snapshots := fs_snapshots t @ [p]\<rparr>) else None)"

section \<open>state.rs\<close>

definition get_state :: "string \<Rightarrow> ('z conn_scheme, volume_rollback_state option) oper" where
  "get_state volume_id =
    query (\<lambda>t. map_option (\<lambda>s. \<lparr>rs_volume = s_volume s, rs_enabled = s_enabled s, rs_current = s_current s\<rparr>)
      (look s_volume (fs_volume_state t) volume_id))"

definition enable :: "string \<Rightarrow> ('z conn_scheme, volume_rollback_state) oper" where
  "enable volume_id =
    sq (write_tables (\<lambda>t.
          if volume_id \<in> s_volume ` set (fs_volume_state t)
          then Some (set_state volume_id (\<lambda>s. s\<lparr>s_enabled := True\<rparr>) t)
          else insert_state \<lparr>s_volume = volume_id, s_enabled = True, s_current = 1\<rparr> t))
    (bnd (get_state volume_id) (ok_or (Internal ''fs_volume_state row missing after upsert'')))"

text \<open>\<open>DELETE FROM {tbl} WHERE ...\<close> for the five undo tables in the order of the code.\<close>

definition purge_undo :: "string \<Rightarrow> (i64 \<Rightarrow> bool) \<Rightarrow> ('z conn_scheme, i64) oper" where
  "purge_undo v p =
    bnd (purge fs_inode_undo fs_inode_undo_update (\<lambda>u. u_volume u = v \<and> p (u_snap u))) (\<lambda>n1.
    bnd (purge fs_dentry_undo fs_dentry_undo_update (\<lambda>u. u_volume u = v \<and> p (u_snap u))) (\<lambda>n2.
    bnd (purge fs_data_undo fs_data_undo_update (\<lambda>u. u_volume u = v \<and> p (u_snap u))) (\<lambda>n3.
    bnd (purge fs_symlink_undo fs_symlink_undo_update (\<lambda>u. u_volume u = v \<and> p (u_snap u))) (\<lambda>n4.
    bnd (purge kv_store_undo kv_store_undo_update (\<lambda>u. u_volume u = v \<and> p (u_snap u))) (\<lambda>n5.
      ret (int (n1 + n2 + n3 + n4 + n5)))))))"

definition disable :: "string \<Rightarrow> ('z conn_scheme, disable_result) oper" where
  "disable volume_id =
    bnd (purge_undo volume_id (\<lambda>_. True)) (\<lambda>purged_undo.
    bnd (purge fs_snapshots fs_snapshots_update (\<lambda>p. p_volume p = volume_id)) (\<lambda>purged.
    sq (write_tables (\<lambda>t. Some (set_state volume_id (\<lambda>s. s\<lparr>s_enabled := False, s_current := 1\<rparr>) t)))
       (ret \<lparr>purged_snapshots = int purged, purged_undo_rows = purged_undo\<rparr>)))"

section \<open>snapshots.rs\<close>

record ts_lib =
  ts_text :: "i64 \<Rightarrow> string"
  parse_rfc3339 :: "string \<Rightarrow> i64 option"

definition ends_with :: "string \<Rightarrow> string \<Rightarrow> bool" where
  "ends_with s e \<longleftrightarrow> length e \<le> length s \<and> drop (length s - length e) s = e"

definition normalize_ts :: "string \<Rightarrow> string" where
  "normalize_ts s =
    (let normalized = map (\<lambda>c. if c = CHR '' '' then CHR ''T'' else c) s
     in if ends_with normalized ''+00'' then normalized @ '':00'' else normalized)"

definition parse_ts :: "ts_lib \<Rightarrow> string \<Rightarrow> ('s, i64) oper" where
  "parse_ts T s =
    (case parse_rfc3339 T s of
       Some dt \<Rightarrow> ret dt
     | None \<Rightarrow>
       (case parse_rfc3339 T (normalize_ts s) of
          Some dt \<Rightarrow> ret dt
        | None \<Rightarrow> throw (Internal (''parse timestamptz '' @ s))))"

definition snapshot_of :: "ts_lib \<Rightarrow> snapshot_row \<Rightarrow> ('s, snapshot_info) oper" where
  "snapshot_of T p =
    bnd (parse_ts T (ts_text T (p_committed p))) (\<lambda>committed_at.
      ret \<lparr>si_snap = p_snap p, si_committed = committed_at, si_label = p_label p\<rparr>)"

text \<open>The idempotency check on the label.\<close>

definition find_labelled ::
  "ts_lib \<Rightarrow> string \<Rightarrow> string option \<Rightarrow> ('z conn_scheme, snapshot_info option) oper" where
  "find_labelled T volume_id label =
    (case label of
       None \<Rightarrow> ret None
     | Some l \<Rightarrow>
         bnd (query (\<lambda>t. find (\<lambda>p. p_volume p = volume_id \<and> p_label p = Some l) (fs_snapshots t)))
         (\<lambda>existing. case existing of
            None \<Rightarrow> ret None
          | Some p \<Rightarrow> bnd (snapshot_of T p) (\<lambda>i. ret (Some i))))"

definition commit_inner ::
  "ts_lib \<Rightarrow> i64 \<Rightarrow> string \<Rightarrow> string option \<Rightarrow> ('z conn_scheme, snapshot_info) oper" where
  "commit_inner T now volume_id label =
    bnd (query (\<lambda>t. look s_volume (fs_volume_state t) volume_id)) (\<lambda>row.
    bnd (ok_or (Internal (''rollback not enabled for volume '' @ volume_id)) row) (\<lambda>st.
    if \<not> s_enabled st then throw (Internal (''rollback disabled for volume '' @ volume_id))
    else
      bnd (find_labelled T volume_id label) (\<lambda>existing.
      case existing of
        Some i \<Rightarrow> ret i
      | None \<Rightarrow>
          sq (write_tables (insert_snapshot
                \<lparr>p_volume = volume_id, p_snap = s_current st, p_committed = now, p_label = label\<rparr>))
          (sq (write_tables (\<lambda>t. Some (set_state volume_id (\<lambda>s. s\<lparr>s_current := s_current s + 1\<rparr>) t)))
          (bnd (query (\<lambda>t. find (\<lambda>p. p_volume p = volume_id \<and> p_snap p = s_current st) (fs_snapshots t)))
          (\<lambda>row.
           bnd (ok_or (Internal ''just-inserted snapshot not found'') row) (\<lambda>p.
           bnd (parse_ts T (ts_text T (p_committed p))) (\<lambda>committed_at.
             ret \<lparr>si_snap = s_current st, si_committed = committed_at, si_label = label\<rparr>))))))))"

definition commit ::
  "ts_lib \<Rightarrow> i64 \<Rightarrow> string \<Rightarrow> string option \<Rightarrow> ('z conn_scheme, snapshot_info) oper" where
  "commit T now volume_id label = transact (commit_inner T now volume_id label)"

fun read_infos :: "ts_lib \<Rightarrow> snapshot_row list \<Rightarrow> ('s, snapshot_info list) oper" where
  "read_infos T [] = ret []"
| "read_infos T (p # ps) =
    bnd (snapshot_of T p) (\<lambda>i. bnd (read_infos T ps) (\<lambda>out. ret (i # out)))"

definition list_snapshots :: "ts_lib \<Rightarrow> string \<Rightarrow> ('z conn_scheme, snapshot_info list) oper" where
  "list_snapshots T volume_id =
    bnd (query (\<lambda>t. sort_key p_snap (filter (\<lambda>p. p_volume p = volume_id) (fs_snapshots t))))
      (read_infos T)"

section \<open>restore.rs\<close>

definition read_op :: "('k, 'r) undo_row \<Rightarrow> ('s, undo_op) oper" where
  "read_op u = ok_or (Internal (''op: invalid '' @ [CHR 0x27, u_op u, CHR 0x27])) (from_char (u_op u))"

text \<open>
  One turn of the replay loops: the row with the recorded key goes; unless it was inserted, its
  recorded columns come back.  \<open>msg\<close> is the error of the first column read when it is NULL.
\<close>

definition replay_one ::
  "string \<Rightarrow> ('k \<Rightarrow> ('s, nat) oper) \<Rightarrow> ('r \<Rightarrow> ('s, nat) oper) \<Rightarrow> ('k, 'r) undo_row \<Rightarrow> ('s, unit) oper" where
  "replay_one msg del ins u =
    bnd (read_op u) (\<lambda>op.
    sq (del (u_key u))
    (if op \<noteq> UndoInsert then
       bnd (ok_or (Internal msg) (u_old u)) (\<lambda>r. sq (ins r) (ret ()))
     else ret ()))"

definition replay_rows ::
  "(tables \<Rightarrow> ('k, 'r) undo_row list) \<Rightarrow> string \<Rightarrow> ('k \<Rightarrow> ('z conn_scheme, nat) oper) \<Rightarrow>
   ('r \<Rightarrow> ('z conn_scheme, nat) oper) \<Rightarrow> string \<Rightarrow> i64 \<Rightarrow> ('z conn_scheme, i64) oper" where
  "replay_rows undo msg del ins volume_id target =
    bnd (query (\<lambda>t. since volume_id target (undo t))) (\<lambda>rows.
    sq (for_each (replay_one msg del ins) rows) (ret (int (length rows))))"

definition replay_fs_inode :: "string \<Rightarrow> i64 \<Rightarrow> ('z conn_scheme, i64) oper" where
  "replay_fs_inode =
    replay_rows fs_inode_undo ''col 2: expected integer'' (\<lambda>ino. delete_inode ino) insert_inode_row"

definition replay_fs_dentry :: "string \<Rightarrow> i64 \<Rightarrow> ('z conn_scheme, i64) oper" where
  "replay_fs_dentry =
    replay_rows fs_dentry_undo ''col 2: unexpected NULL'' (\<lambda>id. delete_dentries (\<lambda>d. d_id d = id)) insert_dentry_row"

definition replay_fs_data :: "string \<Rightarrow> i64 \<Rightarrow> ('z conn_scheme, i64) oper" where
  "replay_fs_data =
    replay_rows fs_data_undo ''fs_data_undo.data: NULL on non-INSERT''
      (\<lambda>k. delete_data (\<lambda>b. b_key b = k)) insert_data"

definition replay_fs_symlink :: "string \<Rightarrow> i64 \<Rightarrow> ('z conn_scheme, i64) oper" where
  "replay_fs_symlink =
    replay_rows fs_symlink_undo ''col 2: unexpected NULL'' (\<lambda>ino. delete_symlinks (\<lambda>l. l_ino l = ino)) insert_symlink"

definition replay_kv_store :: "string \<Rightarrow> i64 \<Rightarrow> ('z conn_scheme, i64) oper" where
  "replay_kv_store = replay_rows kv_store_undo ''col 2: unexpected NULL'' delete_kv insert_kv"

text \<open>\<open>SET LOCAL secafs.suppress_undo = 'true'\<close>; outside a transaction it is a warning.\<close>

definition set_local_suppress :: "('z conn_scheme, unit) oper" where
  "set_local_suppress = stmt (\<lambda>c. (Inr (),
     case txn_state c of NoTxn \<Rightarrow> c | _ \<Rightarrow> c\<lparr>guc_suppress_local := Some ''true''\<rparr>))"

text \<open>The three \<open>INSERT ... SELECT ... WHERE NOT EXISTS\<close> that put back what the cascade removed.\<close>

definition reinsert_volume :: "string \<Rightarrow> i64 \<Rightarrow> tables \<Rightarrow> tables option" where
  "reinsert_volume v root t =
    (if volume_known v t then Some t
     else if root \<in> i_ino ` set (fs_inode t)
     then Some (t\<lparr>fs_volumes := fs_volumes t @ [\<lparr>v_id = v, v_root = root\<rparr>]\<rparr>) else None)"

definition reinsert_state :: "vstate_row \<Rightarrow> tables \<Rightarrow> tables option" where
  "reinsert_state s t =
    (if s_volume s \<in> s_volume ` set (fs_volume_state t) then Some t else insert_state s t)"

definition reinsert_snapshot :: "snapshot_row \<Rightarrow> tables \<Rightarrow> tables option" where
  "reinsert_snapshot p t =
    (if \<exists>q \<in> set (fs_snapshots t). p_volume q = p_volume p \<and> p_snap q = p_snap p
     then Some t else insert_snapshot p t)"

definition put_back ::
  "i64 \<Rightarrow> string \<Rightarrow> i64 \<Rightarrow> i64 option \<Rightarrow> vstate_row option \<Rightarrow> snapshot_row list \<Rightarrow> ('z conn_scheme, unit) oper" where
  "put_back now volume_id target root st snaps =
    sq (case root of None \<Rightarrow> ret () | Some root_ino \<Rightarrow> write_tables (reinsert_volume volume_id root_ino))
    (sq (case st of None \<Rightarrow> ret ()
         | Some s \<Rightarrow> write_tables (reinsert_state
             \<lparr>s_volume = volume_id, s_enabled = s_enabled s, s_current = target + 1\<rparr>))
    (for_each (\<lambda>p. write_tables (reinsert_snapshot
        \<lparr>p_volume = volume_id, p_snap = p_snap p, p_committed = now, p_label = p_label p\<rparr>)) snaps))"

definition restore_inner :: "i64 \<Rightarrow> string \<Rightarrow> i64 \<Rightarrow> ('z conn_scheme, restore_outcome) oper" where
  "restore_inner now volume_id target =
    sq set_local_suppress
    (bnd (query (\<lambda>t. map_option v_root (look v_id (fs_volumes t) volume_id))) (\<lambda>root.
    bnd (query (\<lambda>t. look s_volume (fs_volume_state t) volume_id)) (\<lambda>st.
    bnd (query (\<lambda>t. filter (\<lambda>p. p_volume p = volume_id \<and> p_snap p \<le> target) (fs_snapshots t))) (\<lambda>snaps.
    bnd (query (\<lambda>t. int (length (filter (\<lambda>p. p_volume p = volume_id \<and> target < p_snap p) (fs_snapshots t)))))
    (\<lambda>pruned.
    bnd (replay_fs_dentry volume_id target) (\<lambda>n1.
    bnd (replay_fs_data volume_id target) (\<lambda>n2.
    bnd (replay_fs_symlink volume_id target) (\<lambda>n3.
    bnd (replay_fs_inode volume_id target) (\<lambda>n4.
    bnd (replay_kv_store volume_id target) (\<lambda>n5.
    sq (put_back now volume_id target root st snaps)
    (sq (purge_undo volume_id (\<lambda>s. target < s))
    (sq (write_tables (\<lambda>t. Some (set_state volume_id (\<lambda>s. s\<lparr>s_current := target + 1\<rparr>) t)))
        (ret \<lparr>pruned_snapshots = pruned, pruned_undo_rows = n1 + n2 + n3 + n4 + n5\<rparr>)))))))))))))"

definition restore_to :: "i64 \<Rightarrow> string \<Rightarrow> i64 \<Rightarrow> ('z conn_scheme, restore_outcome) oper" where
  "restore_to now volume_id target = transact (restore_inner now volume_id target)"

end
