(* ===== verification/Restore.thy ===== *)
theory Restore
  imports Snapshot
begin

text \<open>
  The replay of the undo tables.  With undo capture suppressed a statement changes one table
  only; the replay of a table whose records unwind succeeds and ends with the rows it unwinds
  to.  Putting back what the cascade of the inode replay removed succeeds as well, so a restore
  succeeds and its effect on every table is known.
\<close>

section \<open>Statements without capture\<close>

definition quiet :: "'z conn_scheme \<Rightarrow> bool" where
  "quiet c \<longleftrightarrow> ready c \<and> suppress_setting c = Some ''true''"

lemma quiet_ready: "quiet c \<Longrightarrow> ready c"
  by (simp add: quiet_def)

lemma quiet_capture: "quiet c \<Longrightarrow> capture c key chs = []"
  by (simp add: quiet_def capture_def capturing_def split: option.split)

text \<open>
  \<open>blank\<dots> c\<close> forgets the tables a statement may change: two sessions with the same image agree on
  everything else.
\<close>

definition blank_dentry :: "'z conn_scheme \<Rightarrow> 'z conn_scheme" where
  "blank_dentry c = c\<lparr>tabs := (tabs c)\<lparr>fs_dentry := []\<rparr>\<rparr>"

definition blank_data :: "'z conn_scheme \<Rightarrow> 'z conn_scheme" where
  "blank_data c = c\<lparr>tabs := (tabs c)\<lparr>fs_data := []\<rparr>\<rparr>"

definition blank_symlink :: "'z conn_scheme \<Rightarrow> 'z conn_scheme" where
  "blank_symlink c = c\<lparr>tabs := (tabs c)\<lparr>fs_symlink := []\<rparr>\<rparr>"

definition blank_kv :: "'z conn_scheme \<Rightarrow> 'z conn_scheme" where
  "blank_kv c = c\<lparr>tabs := (tabs c)\<lparr>kv_store := []\<rparr>\<rparr>"

definition blank_inode :: "'z conn_scheme \<Rightarrow> 'z conn_scheme" where
  "blank_inode c = c\<lparr>tabs := (tabs c)\<lparr>fs_inode := [], fs_volumes := [], fs_volume_state := [], fs_snapshots := []\<rparr>\<rparr>"

lemmas blank_defs = blank_dentry_def blank_data_def blank_symlink_def blank_kv_def blank_inode_def

text \<open>The cascade: rows of the volume may go, none comes.\<close>

definition cascaded :: "string \<Rightarrow> 'z conn_scheme \<Rightarrow> 'z conn_scheme \<Rightarrow> bool" where
  "cascaded v c c' \<longleftrightarrow>
    blank_inode c' = blank_inode c \<and>
    (\<exists>q. fs_volumes (tabs c') = filter q (fs_volumes (tabs c))) \<and>
    (look s_volume (fs_volume_state (tabs c')) v = None \<or>
     look s_volume (fs_volume_state (tabs c')) v = look s_volume (fs_volume_state (tabs c)) v) \<and>
    set (fs_snapshots (tabs c')) \<subseteq> set (fs_snapshots (tabs c))"

lemma undo_nothing [simp]:
  "fs_inode_undo_update (\<lambda>u. u) t = (t :: tables)" "fs_dentry_undo_update (\<lambda>u. u) t = t"
  "fs_data_undo_update (\<lambda>u. u) t = t" "fs_symlink_undo_update (\<lambda>u. u) t = t"
  "kv_store_undo_update (\<lambda>u. u) t = t"
  by (cases t; simp)+

lemma quiet_put:
  assumes "quiet c"
  shows "put_inode ich it c = c\<lparr>tabs := (tabs c)\<lparr>fs_inode := it\<rparr>\<rparr>"
    "put_dentry dch dt c = c\<lparr>tabs := (tabs c)\<lparr>fs_dentry := dt\<rparr>\<rparr>"
    "put_data bch bt c = c\<lparr>tabs := (tabs c)\<lparr>fs_data := bt\<rparr>\<rparr>"
    "put_symlink lch lt c = c\<lparr>tabs := (tabs c)\<lparr>fs_symlink := lt\<rparr>\<rparr>"
    "put_kv kch kt c = c\<lparr>tabs := (tabs c)\<lparr>kv_store := kt\<rparr>\<rparr>"
  by (simp_all add: journalled_write_def quiet_capture [OF assms])

lemma quiet_cong:
  "faults c' = faults c \<Longrightarrow> txn_state c' = txn_state c \<Longrightarrow> guc_suppress c' = guc_suppress c \<Longrightarrow>
    guc_suppress_local c' = guc_suppress_local c \<Longrightarrow> quiet c \<Longrightarrow> quiet c'"
  by (cases "guc_suppress_local c") (simp_all add: quiet_def ready_def suppress_setting_def)

lemma blank_fields:
  "b \<in> {blank_dentry, blank_data, blank_symlink, blank_kv, blank_inode} \<Longrightarrow> b c' = b c \<Longrightarrow>
    faults c' = faults c \<and> txn_state c' = txn_state c \<and> guc_suppress c' = guc_suppress c \<and>
    guc_suppress_local c' = guc_suppress_local c \<and> guc_volume c' = guc_volume c \<and>
    fs_inode_undo (tabs c') = fs_inode_undo (tabs c) \<and> fs_dentry_undo (tabs c') = fs_dentry_undo (tabs c) \<and>
    fs_data_undo (tabs c') = fs_data_undo (tabs c) \<and> fs_symlink_undo (tabs c') = fs_symlink_undo (tabs c) \<and>
    kv_store_undo (tabs c') = kv_store_undo (tabs c) \<and> conn.more c' = conn.more c"
  by (cases c; cases c'; cases "tabs c"; cases "tabs c'") (auto simp: blank_defs)

lemma blank_quiet:
  "b \<in> {blank_dentry, blank_data, blank_symlink, blank_kv, blank_inode} \<Longrightarrow> b c' = b c \<Longrightarrow> quiet c \<Longrightarrow> quiet c'"
  using blank_fields [of b c' c] by (blast intro: quiet_cong)

section \<open>Replaying one table\<close>

locale replayable =
  fixes get :: "tables \<Rightarrow> 'r list" and key :: "'r \<Rightarrow> 'k" and ok :: "'r list \<Rightarrow> bool"
    and del :: "'k \<Rightarrow> ('z conn_scheme, nat) oper" and ins :: "'r \<Rightarrow> ('z conn_scheme, nat) oper"
    and R :: "'z conn_scheme \<Rightarrow> 'z conn_scheme \<Rightarrow> bool"
  assumes del_run: "quiet c \<Longrightarrow> \<exists>m c'. del k c = (Inr m, c') \<and>
      get (tabs c') = filter (\<lambda>r. key r \<noteq> k) (get (tabs c)) \<and> R c c'"
    and ins_run: "quiet c \<Longrightarrow> ok (get (tabs c) @ [r]) \<Longrightarrow> \<exists>m c'. ins r c = (Inr m, c') \<and>
      get (tabs c') = get (tabs c) @ [r] \<and> R c c'"
    and R_refl: "R c c" and R_trans: "R c c' \<Longrightarrow> R c' c'' \<Longrightarrow> R c c''"
    and R_quiet: "R c c' \<Longrightarrow> quiet c \<Longrightarrow> quiet c'"
begin

lemma replay_one_run:
  assumes "quiet c" and "wf_undo key u" and "ok (undo1 key u (get (tabs c)))"
  shows "\<exists>c'. replay_one msg del ins u c = (Inr (), c') \<and> get (tabs c') = undo1 key u (get (tabs c)) \<and> R c c'"
proof -
  obtain m d where d: "del (u_key u) c = (Inr m, d)" "get (tabs d) = filter (\<lambda>r. key r \<noteq> u_key u) (get (tabs c))" "R c d"
    using del_run [OF assms(1)] by blast
  show ?thesis
  proof (cases "u_old u")
    case None
    then show ?thesis using assms(2) d by (simp add: wf_undo_def replay_one_def read_op_def from_char_def undo1_def)
  next
    case (Some r)
    then have "ok (get (tabs d) @ [r])" using assms(3) d(2) by (simp add: undo1_def)
    then obtain k e where e: "ins r d = (Inr k, e)" "get (tabs e) = get (tabs d) @ [r]" "R d e"
      using ins_run [OF R_quiet [OF d(3) assms(1)]] by blast
    then show ?thesis using assms(2) d Some R_trans [OF d(3) e(3)]
      by (auto simp: wf_undo_def replay_one_def read_op_def from_char_def undo1_def)
  qed
qed

lemma replay_all_run:
  "quiet c \<Longrightarrow> unwinds key ok us (get (tabs c)) t0 \<Longrightarrow>
    \<exists>c'. for_each (replay_one msg del ins) us c = (Inr (), c') \<and> mset (get (tabs c')) = mset t0 \<and> R c c'"
proof (induction us arbitrary: c)
  case Nil
  then show ?case using R_refl by simp
next
  case (Cons u us)
  obtain d where d: "replay_one msg del ins u c = (Inr (), d)" "get (tabs d) = undo1 key u (get (tabs c))" "R c d"
    using replay_one_run [OF Cons.prems(1)] Cons.prems(2) by fastforce
  then obtain c' where "for_each (replay_one msg del ins) us d = (Inr (), c')" "mset (get (tabs c')) = mset t0" "R d c'"
    using Cons.IH [OF R_quiet [OF d(3) Cons.prems(1)]] Cons.prems(2) by auto
  then show ?case using d R_trans by (auto intro!: exI [of _ c'])
qed

lemma replay_rows_run:
  assumes "quiet c" and "unwinds key ok (since v n (undo (tabs c))) (get (tabs c)) t0"
  obtains c' where "replay_rows undo msg del ins v n c = (Inr (int (length (since v n (undo (tabs c))))), c')"
    and "mset (get (tabs c')) = mset t0" and "R c c'"
proof -
  obtain c' where "for_each (replay_one msg del ins) (since v n (undo (tabs c))) c = (Inr (), c')"
    "mset (get (tabs c')) = mset t0" "R c c'" using replay_all_run [OF assms] by blast
  then show ?thesis using that quiet_ready [OF assms(1)] by (simp add: replay_rows_def run)
qed

end

interpretation dentry_r: replayable fs_dentry d_id dentry_ok "\<lambda>id. delete_dentries (\<lambda>d. d_id d = id)"
    insert_dentry_row "\<lambda>c c'. blank_dentry c' = blank_dentry c"
proof
  fix c :: "'z conn_scheme" and k r
  show "\<exists>m c'. delete_dentries (\<lambda>d. d_id d = k) c = (Inr m, c') \<and>
      fs_dentry (tabs c') = filter (\<lambda>r. d_id r \<noteq> k) (fs_dentry (tabs c)) \<and> blank_dentry c' = blank_dentry c"
    if "quiet c" using delete_dentries_ready [OF quiet_ready [OF that]] by (simp add: quiet_put [OF that] blank_defs)
  show "\<exists>m c'. insert_dentry_row r c = (Inr m, c') \<and> fs_dentry (tabs c') = fs_dentry (tabs c) @ [r] \<and>
      blank_dentry c' = blank_dentry c" if "quiet c" "dentry_ok (fs_dentry (tabs c) @ [r])"
    using that quiet_ready [OF that(1)]
    by (simp add: insert_dentry_row_def run t_insert_def quiet_put [OF that(1)] blank_defs)
  show "quiet c'" if "blank_dentry c' = blank_dentry c" "quiet c" for c'
    by (rule blank_quiet [of blank_dentry, OF _ that]) simp
qed simp_all

interpretation data_r: replayable fs_data "\<lambda>b. b_key b" data_ok "\<lambda>k. delete_data (\<lambda>b. b_key b = k)"
    insert_data "\<lambda>c c'. blank_data c' = blank_data c"
proof
  fix c :: "'z conn_scheme" and k r
  show "\<exists>m c'. delete_data (\<lambda>b. b_key b = k) c = (Inr m, c') \<and>
      fs_data (tabs c') = filter (\<lambda>r. b_key r \<noteq> k) (fs_data (tabs c)) \<and> blank_data c' = blank_data c"
    if "quiet c" using delete_data_ready [OF quiet_ready [OF that]] by (simp add: quiet_put [OF that] blank_defs)
  show "\<exists>m c'. insert_data r c = (Inr m, c') \<and> fs_data (tabs c') = fs_data (tabs c) @ [r] \<and>
      blank_data c' = blank_data c" if "quiet c" "data_ok (fs_data (tabs c) @ [r])"
    using that quiet_ready [OF that(1)]
    by (simp add: insert_data_def run t_insert_def quiet_put [OF that(1)] blank_defs)
  show "quiet c'" if "blank_data c' = blank_data c" "quiet c" for c'
    by (rule blank_quiet [of blank_data, OF _ that]) simp
qed simp_all

interpretation symlink_r: replayable fs_symlink l_ino symlink_ok "\<lambda>i. delete_symlinks (\<lambda>l. l_ino l = i)"
    insert_symlink "\<lambda>c c'. blank_symlink c' = blank_symlink c"
proof
  fix c :: "'z conn_scheme" and k r
  show "\<exists>m c'. delete_symlinks (\<lambda>l. l_ino l = k) c = (Inr m, c') \<and>
      fs_symlink (tabs c') = filter (\<lambda>r. l_ino r \<noteq> k) (fs_symlink (tabs c)) \<and> blank_symlink c' = blank_symlink c"
    if "quiet c" using delete_symlinks_ready [OF quiet_ready [OF that]] by (simp add: quiet_put [OF that] blank_defs)
  show "\<exists>m c'. insert_symlink r c = (Inr m, c') \<and> fs_symlink (tabs c') = fs_symlink (tabs c) @ [r] \<and>
      blank_symlink c' = blank_symlink c" if "quiet c" "symlink_ok (fs_symlink (tabs c) @ [r])"
    using that quiet_ready [OF that(1)]
    by (simp add: insert_symlink_def run t_insert_def quiet_put [OF that(1)] blank_defs)
  show "quiet c'" if "blank_symlink c' = blank_symlink c" "quiet c" for c'
    by (rule blank_quiet [of blank_symlink, OF _ that]) simp
qed simp_all

interpretation kv_r: replayable kv_store k_key kv_ok delete_kv insert_kv "\<lambda>c c'. blank_kv c' = blank_kv c"
proof
  fix c :: "'z conn_scheme" and k r
  show "\<exists>m c'. delete_kv k c = (Inr m, c') \<and>
      kv_store (tabs c') = filter (\<lambda>r. k_key r \<noteq> k) (kv_store (tabs c)) \<and> blank_kv c' = blank_kv c"
    if "quiet c" using quiet_ready [OF that]
    by (simp add: delete_kv_def run t_delete_def Let_def quiet_put [OF that] blank_defs)
  show "\<exists>m c'. insert_kv r c = (Inr m, c') \<and> kv_store (tabs c') = kv_store (tabs c) @ [r] \<and>
      blank_kv c' = blank_kv c" if "quiet c" "kv_ok (kv_store (tabs c) @ [r])"
    using that quiet_ready [OF that(1)]
    by (simp add: insert_kv_def run t_insert_def quiet_put [OF that(1)] blank_defs)
  show "quiet c'" if "blank_kv c' = blank_kv c" "quiet c" for c'
    by (rule blank_quiet [of blank_kv, OF _ that]) simp
qed simp_all

lemma cascaded_trans: "cascaded v c c' \<Longrightarrow> cascaded v c' c'' \<Longrightarrow> cascaded v c c''"
  unfolding cascaded_def by (elim conjE exE, intro conjI) (auto simp del: filter_filter simp: filter_filter)

lemma look_key_filter: "look key (filter (\<lambda>r. q (key r)) t) k = (if q k then look key t k else None)"
  by (induction t) auto

lemma cascade_step:
  assumes "quiet c"
  shows "cascaded v c (c\<lparr>tabs := cascade_inodes inos ((tabs c)\<lparr>fs_inode := t\<rparr>)\<rparr>)"
proof -
  let ?vs = "set (map v_id (filter (\<lambda>x. v_root x \<in> set inos) (fs_volumes (tabs c))))"
  have "look s_volume (filter (\<lambda>s. s_volume s \<notin> ?vs) (fs_volume_state (tabs c))) v =
      (if v \<notin> ?vs then look s_volume (fs_volume_state (tabs c)) v else None)"
    by (rule look_key_filter)
  then show ?thesis unfolding cascaded_def cascade_inodes_def Let_def by (auto simp: blank_defs)
qed

interpretation inode_r: replayable fs_inode i_ino inode_ok "\<lambda>i. delete_inode i" insert_inode_row "cascaded v"
  for v :: string
proof
  fix c :: "'z conn_scheme" and k r
  show "\<exists>m c'. delete_inode k c = (Inr m, c') \<and>
      fs_inode (tabs c') = filter (\<lambda>r. i_ino r \<noteq> k) (fs_inode (tabs c)) \<and> cascaded v c c'"
    if "quiet c" using quiet_ready [OF that] cascade_step [OF that, of v]
    by (simp add: delete_inodes_ready quiet_put [OF that])
  show "\<exists>m c'. insert_inode_row r c = (Inr m, c') \<and> fs_inode (tabs c') = fs_inode (tabs c) @ [r] \<and> cascaded v c c'"
    if "quiet c" "inode_ok (fs_inode (tabs c) @ [r])"
    using that quiet_ready [OF that(1)]
    by (auto simp: insert_inode_row_def run t_insert_def quiet_put [OF that(1)] cascaded_def blank_defs
        intro!: exI [of _ "\<lambda>_. True"])
  show "cascaded v c c" by (auto simp: cascaded_def intro!: exI [of _ "\<lambda>_. True"])
  show "quiet c'" if "cascaded v c c'" "quiet c" for c'
    by (rule blank_quiet [of blank_inode, OF _ _ that(2)]) (use that(1) in \<open>simp_all add: cascaded_def\<close>)
qed (rule cascaded_trans)

section \<open>Putting back the rows of the volume\<close>

abbreviation p_key :: "snapshot_row \<Rightarrow> string \<times> i64 \<times> string option" where
  "p_key p \<equiv> (p_volume p, p_snap p, p_label p)"

lemma labels_okD:
  assumes "labels_ok v ps" and "p \<in> set ps" "q \<in> set ps" "p_volume p = v" "p_volume q = v"
  shows "p_snap p = p_snap q \<Longrightarrow> p_label p = p_label q"
    and "p_label p \<noteq> None \<Longrightarrow> p_label p = p_label q \<Longrightarrow> p_snap p = p_snap q"
  using assms unfolding labels_ok_def by blast+

lemma reinsert_one:
  assumes "volume_known v t" and lab: "labels_ok v all" and sub: "p_key ` set (fs_snapshots t) \<subseteq> p_key ` set all"
    and p: "p \<in> set all" "p_volume p = v"
  obtains s1 where
    "reinsert_snapshot \<lparr>p_volume = v, p_snap = p_snap p, p_committed = now, p_label = p_label p\<rparr> t = Some (t\<lparr>fs_snapshots := s1\<rparr>)"
    and "p_key ` set s1 = insert (p_key p) (p_key ` set (fs_snapshots t))"
proof -
  have all: "\<exists>a \<in> set all. p_volume a = p_volume q \<and> p_snap a = p_snap q \<and> p_label a = p_label q"
    if "q \<in> set (fs_snapshots t)" for q using sub that by fastforce
  show ?thesis
  proof (cases "\<exists>q \<in> set (fs_snapshots t). p_volume q = v \<and> p_snap q = p_snap p")
    case True
    then obtain q where q: "q \<in> set (fs_snapshots t)" "p_volume q = v" "p_snap q = p_snap p" by blast
    obtain a where a: "a \<in> set all" "p_volume a = v" "p_snap a = p_snap q" "p_label a = p_label q" using all [OF q(1)] q(2) by auto
    have "p_label a = p_label p" using labels_okD(1) [OF lab a(1) p(1) a(2) p(2)] a(3) q(3) by simp
    then have "p_key q = p_key p" using q a p by simp
    then have "p_key p \<in> p_key ` set (fs_snapshots t)" using q(1) by (intro image_eqI [of _ _ q]) simp_all
    then show ?thesis using True by (intro that [of "fs_snapshots t"]) (simp_all add: reinsert_snapshot_def insert_absorb)
  next
    case False
    have "p_label p = None \<or> p_label q \<noteq> p_label p" if q: "q \<in> set (fs_snapshots t)" "p_volume q = v" for q
    proof -
      obtain a where a: "a \<in> set all" "p_volume a = v" "p_snap a = p_snap q" "p_label a = p_label q" using all [OF q(1)] q(2) by auto
      show ?thesis using labels_okD(2) [OF lab p(1) a(1) p(2) a(2)] a(3,4) False q by metis
    qed
    then show ?thesis using False assms(1) p(2)
      by (intro that [of "fs_snapshots t @ [\<lparr>p_volume = v, p_snap = p_snap p, p_committed = now, p_label = p_label p\<rparr>]"])
        (auto simp: reinsert_snapshot_def insert_snapshot_def)
  qed
qed

lemma reinsert_snapshots:
  assumes "ready c" and "volume_known v (tabs c)" and "labels_ok v all"
    and "p_key ` set (fs_snapshots (tabs c)) \<subseteq> p_key ` set all" and "set ps \<subseteq> set all" and "\<forall>p \<in> set ps. p_volume p = v"
  shows "\<exists>sn. for_each (\<lambda>p. write_tables (reinsert_snapshot
        \<lparr>p_volume = v, p_snap = p_snap p, p_committed = now, p_label = p_label p\<rparr>)) ps c =
      (Inr (), c\<lparr>tabs := (tabs c)\<lparr>fs_snapshots := sn\<rparr>\<rparr>) \<and>
    p_key ` set sn = p_key ` set (fs_snapshots (tabs c)) \<union> p_key ` set ps"
  using assms
proof (induction ps arbitrary: c)
  case Nil
  then show ?case by (intro exI [of _ "fs_snapshots (tabs c)"]) simp
next
  case (Cons p ps)
  obtain s1 where s1: "reinsert_snapshot \<lparr>p_volume = v, p_snap = p_snap p, p_committed = now, p_label = p_label p\<rparr> (tabs c) =
      Some ((tabs c)\<lparr>fs_snapshots := s1\<rparr>)" "p_key ` set s1 = insert (p_key p) (p_key ` set (fs_snapshots (tabs c)))"
    by (rule reinsert_one [OF Cons.prems(2-4), of p now]) (use Cons.prems in auto)
  let ?c = "c\<lparr>tabs := (tabs c)\<lparr>fs_snapshots := s1\<rparr>\<rparr>"
  have "\<exists>sn. for_each (\<lambda>p. write_tables (reinsert_snapshot
        \<lparr>p_volume = v, p_snap = p_snap p, p_committed = now, p_label = p_label p\<rparr>)) ps ?c =
      (Inr (), ?c\<lparr>tabs := (tabs ?c)\<lparr>fs_snapshots := sn\<rparr>\<rparr>) \<and>
    p_key ` set sn = p_key ` set (fs_snapshots (tabs ?c)) \<union> p_key ` set ps"
  proof (rule Cons.IH)
    have "p_key p \<in> p_key ` set all" using Cons.prems(5) by (intro imageI) simp
    then show "p_key ` set (fs_snapshots (tabs ?c)) \<subseteq> p_key ` set all" using Cons.prems(4) s1(2) by simp
  qed (use Cons.prems in \<open>auto simp: volume_known_def\<close>)
  then show ?case
    using s1 write_tables_ready [where g = "reinsert_snapshot \<lparr>p_volume = v, p_snap = p_snap p, p_committed = now, p_label = p_label p\<rparr>",
        OF Cons.prems(1) s1(1)] by (auto simp: sq_def bnd_def)
qed

lemma put_back_run:
  assumes rd: "ready c" and root: "rt \<in> i_ino ` set (fs_inode (tabs c))" and lab: "labels_ok v all"
    and sub: "p_key ` set (fs_snapshots (tabs c)) \<subseteq> p_key ` set all" "set ps \<subseteq> set all" "\<forall>p \<in> set ps. p_volume p = v"
  obtains sn where "put_back now v n (Some rt) (Some s0) ps c = (Inr (), c\<lparr>tabs := (tabs c)
      \<lparr>fs_volumes := (if volume_known v (tabs c) then fs_volumes (tabs c) else fs_volumes (tabs c) @ [\<lparr>v_id = v, v_root = rt\<rparr>]),
       fs_volume_state := (if v \<in> s_volume ` set (fs_volume_state (tabs c)) then fs_volume_state (tabs c)
         else fs_volume_state (tabs c) @ [\<lparr>s_volume = v, s_enabled = s_enabled s0, s_current = n + 1\<rparr>]),
       fs_snapshots := sn\<rparr>\<rparr>)"
    and "p_key ` set sn = p_key ` set (fs_snapshots (tabs c)) \<union> p_key ` set ps"
proof -
  let ?V = "if volume_known v (tabs c) then fs_volumes (tabs c) else fs_volumes (tabs c) @ [\<lparr>v_id = v, v_root = rt\<rparr>]"
  let ?s = "\<lparr>s_volume = v, s_enabled = s_enabled s0, s_current = n + 1\<rparr>"
  let ?S = "if v \<in> s_volume ` set (fs_volume_state (tabs c)) then fs_volume_state (tabs c) else fs_volume_state (tabs c) @ [?s]"
  let ?c1 = "c\<lparr>tabs := (tabs c)\<lparr>fs_volumes := ?V\<rparr>\<rparr>"
  let ?c2 = "c\<lparr>tabs := (tabs c)\<lparr>fs_volumes := ?V, fs_volume_state := ?S\<rparr>\<rparr>"
  have known: "volume_known v (tabs ?c1)" "volume_known v (tabs ?c2)" by (auto simp: volume_known_def)
  have 1: "write_tables (reinsert_volume v rt) c = (Inr (), ?c1)"
    by (rule write_tables_ready [OF rd]) (use root in \<open>simp add: reinsert_volume_def\<close>)
  have "reinsert_state ?s (tabs ?c1) = Some (tabs ?c2)"
    using known(1) by (cases "v \<in> s_volume ` set (fs_volume_state (tabs c))") (simp_all add: reinsert_state_def insert_state_def)
  then have 2: "write_tables (reinsert_state ?s) ?c1 = (Inr (), ?c2)"
    using write_tables_ready [of ?c1 "reinsert_state ?s" "tabs ?c2"] rd by simp
  obtain sn where 3: "for_each (\<lambda>p. write_tables (reinsert_snapshot
        \<lparr>p_volume = v, p_snap = p_snap p, p_committed = now, p_label = p_label p\<rparr>)) ps ?c2 =
      (Inr (), ?c2\<lparr>tabs := (tabs ?c2)\<lparr>fs_snapshots := sn\<rparr>\<rparr>)"
    "p_key ` set sn = p_key ` set (fs_snapshots (tabs ?c2)) \<union> p_key ` set ps"
    using reinsert_snapshots [of ?c2 v all ps now] rd known(2) lab sub by auto
  have "put_back now v n (Some rt) (Some s0) ps c = (Inr (), ?c2\<lparr>tabs := (tabs ?c2)\<lparr>fs_snapshots := sn\<rparr>\<rparr>)"
    unfolding put_back_def option.case using 1 2 3(1) by (simp only: sq_Inr)
  then show ?thesis using that 3(2) by simp
qed

lemma purge_ready [run]:
  "ready c \<Longrightarrow> purge get upd p c =
    (Inr (length (filter p (get (tabs c)))), c\<lparr>tabs := upd (filter (\<lambda>r. \<not> p r)) (tabs c)\<rparr>)"
  by (simp add: purge_def run)

lemma purge_undo_ready:
  fixes c :: "'z conn_scheme"
  assumes "ready c"
  obtains k where "purge_undo v p c = (Inr k, c\<lparr>tabs := (tabs c)
    \<lparr>fs_inode_undo := filter (\<lambda>u. \<not> (u_volume u = v \<and> p (u_snap u))) (fs_inode_undo (tabs c)),
     fs_dentry_undo := filter (\<lambda>u. \<not> (u_volume u = v \<and> p (u_snap u))) (fs_dentry_undo (tabs c)),
     fs_data_undo := filter (\<lambda>u. \<not> (u_volume u = v \<and> p (u_snap u))) (fs_data_undo (tabs c)),
     fs_symlink_undo := filter (\<lambda>u. \<not> (u_volume u = v \<and> p (u_snap u))) (fs_symlink_undo (tabs c)),
     kv_store_undo := filter (\<lambda>u. \<not> (u_volume u = v \<and> p (u_snap u))) (kv_store_undo (tabs c))\<rparr>\<rparr>)"
  using assms by (cases "tabs c") (simp add: purge_undo_def run)

section \<open>The restore\<close>

lemma blank_tables:
  "blank_dentry c' = blank_dentry c \<Longrightarrow> fs_inode (tabs c') = fs_inode (tabs c) \<and> fs_data (tabs c') = fs_data (tabs c) \<and>
    fs_symlink (tabs c') = fs_symlink (tabs c) \<and> kv_store (tabs c') = kv_store (tabs c) \<and>
    fs_volumes (tabs c') = fs_volumes (tabs c) \<and> fs_volume_state (tabs c') = fs_volume_state (tabs c) \<and>
    fs_snapshots (tabs c') = fs_snapshots (tabs c)"
  "blank_data c' = blank_data c \<Longrightarrow> fs_inode (tabs c') = fs_inode (tabs c) \<and> fs_dentry (tabs c') = fs_dentry (tabs c) \<and>
    fs_symlink (tabs c') = fs_symlink (tabs c) \<and> kv_store (tabs c') = kv_store (tabs c) \<and>
    fs_volumes (tabs c') = fs_volumes (tabs c) \<and> fs_volume_state (tabs c') = fs_volume_state (tabs c) \<and>
    fs_snapshots (tabs c') = fs_snapshots (tabs c)"
  "blank_symlink c' = blank_symlink c \<Longrightarrow> fs_inode (tabs c') = fs_inode (tabs c) \<and> fs_dentry (tabs c') = fs_dentry (tabs c) \<and>
    fs_data (tabs c') = fs_data (tabs c) \<and> kv_store (tabs c') = kv_store (tabs c) \<and>
    fs_volumes (tabs c') = fs_volumes (tabs c) \<and> fs_volume_state (tabs c') = fs_volume_state (tabs c) \<and>
    fs_snapshots (tabs c') = fs_snapshots (tabs c)"
  "blank_kv c' = blank_kv c \<Longrightarrow> fs_inode (tabs c') = fs_inode (tabs c) \<and> fs_dentry (tabs c') = fs_dentry (tabs c) \<and>
    fs_data (tabs c') = fs_data (tabs c) \<and> fs_symlink (tabs c') = fs_symlink (tabs c) \<and>
    fs_volumes (tabs c') = fs_volumes (tabs c) \<and> fs_volume_state (tabs c') = fs_volume_state (tabs c) \<and>
    fs_snapshots (tabs c') = fs_snapshots (tabs c)"
  "blank_inode c' = blank_inode c \<Longrightarrow> fs_dentry (tabs c') = fs_dentry (tabs c) \<and>
    fs_data (tabs c') = fs_data (tabs c) \<and> fs_symlink (tabs c') = fs_symlink (tabs c) \<and> kv_store (tabs c') = kv_store (tabs c)"
  by (cases c; cases c'; cases "tabs c"; cases "tabs c'"; auto simp: blank_defs)+

text \<open>The five replays, from a session without capture.\<close>

lemma replays_run:
  fixes c :: "'z conn_scheme"
  assumes q: "quiet c" and und: "undoable v n t0 (tabs c)"
  obtains n1 n2 n3 n4 n5 c1 c2 c3 c4 c' where "replay_fs_dentry v n c = (Inr n1, c1)" and "replay_fs_data v n c1 = (Inr n2, c2)"
    and "replay_fs_symlink v n c2 = (Inr n3, c3)" and "replay_fs_inode v n c3 = (Inr n4, c4)" and "replay_kv_store v n c4 = (Inr n5, c')"
    and "mset (fs_inode (tabs c')) = mset (fs_inode t0)" "mset (fs_dentry (tabs c')) = mset (fs_dentry t0)"
      "mset (fs_data (tabs c')) = mset (fs_data t0)" "mset (fs_symlink (tabs c')) = mset (fs_symlink t0)"
      "mset (kv_store (tabs c')) = mset (kv_store t0)"
    and "\<exists>p. fs_volumes (tabs c') = filter p (fs_volumes (tabs c))"
      "look s_volume (fs_volume_state (tabs c')) v = None \<or>
       look s_volume (fs_volume_state (tabs c')) v = look s_volume (fs_volume_state (tabs c)) v"
      "set (fs_snapshots (tabs c')) \<subseteq> set (fs_snapshots (tabs c))"
    and "quiet c'" "txn_state c' = txn_state c" "guc_volume c' = guc_volume c" "guc_suppress c' = guc_suppress c" "conn.more c' = conn.more c"
proof -
  note u = und [unfolded undoable_def]
  obtain c1 where c1: "replay_fs_dentry v n c = (Inr (int (length (since v n (fs_dentry_undo (tabs c))))), c1)"
    "mset (fs_dentry (tabs c1)) = mset (fs_dentry t0)" "blank_dentry c1 = blank_dentry c"
    using dentry_r.replay_rows_run [OF q, of v n fs_dentry_undo "fs_dentry t0"] u unfolding replay_fs_dentry_def by blast
  note b1 = blank_tables(1) [OF c1(3)] blank_fields [of blank_dentry, OF _ c1(3)] blank_quiet [of blank_dentry, OF _ c1(3) q]
  obtain c2 where c2: "replay_fs_data v n c1 = (Inr (int (length (since v n (fs_data_undo (tabs c1))))), c2)"
    "mset (fs_data (tabs c2)) = mset (fs_data t0)" "blank_data c2 = blank_data c1"
    using data_r.replay_rows_run [of c1 v n fs_data_undo "fs_data t0"] u b1 unfolding replay_fs_data_def by auto
  note b2 = blank_tables(2) [OF c2(3)] blank_fields [of blank_data, OF _ c2(3)] blank_quiet [of blank_data, OF _ c2(3)]
  obtain c3 where c3: "replay_fs_symlink v n c2 = (Inr (int (length (since v n (fs_symlink_undo (tabs c2))))), c3)"
    "mset (fs_symlink (tabs c3)) = mset (fs_symlink t0)" "blank_symlink c3 = blank_symlink c2"
    using symlink_r.replay_rows_run [of c2 v n fs_symlink_undo "fs_symlink t0"] u b1 b2 unfolding replay_fs_symlink_def by auto
  note b3 = blank_tables(3) [OF c3(3)] blank_fields [of blank_symlink, OF _ c3(3)] blank_quiet [of blank_symlink, OF _ c3(3)]
  obtain c4 where c4: "replay_fs_inode v n c3 = (Inr (int (length (since v n (fs_inode_undo (tabs c3))))), c4)"
    "mset (fs_inode (tabs c4)) = mset (fs_inode t0)" "cascaded v c3 c4"
    using inode_r.replay_rows_run [of c3 v n fs_inode_undo "fs_inode t0" _ v] u b1 b2 b3 unfolding replay_fs_inode_def by auto
  have bl: "blank_inode c4 = blank_inode c3" using c4(3) by (simp add: cascaded_def)
  note b4 = blank_tables(5) [OF bl] blank_fields [of blank_inode, OF _ bl] blank_quiet [of blank_inode, OF _ bl]
  obtain c' where c': "replay_kv_store v n c4 = (Inr (int (length (since v n (kv_store_undo (tabs c4))))), c')"
    "mset (kv_store (tabs c')) = mset (kv_store t0)" "blank_kv c' = blank_kv c4"
    using kv_r.replay_rows_run [of c4 v n kv_store_undo "kv_store t0"] u b1 b2 b3 b4 unfolding replay_kv_store_def by auto
  note b5 = blank_tables(4) [OF c'(3)] blank_fields [of blank_kv, OF _ c'(3)] blank_quiet [of blank_kv, OF _ c'(3)]
  have casc: "\<exists>p. fs_volumes (tabs c4) = filter p (fs_volumes (tabs c))"
      "look s_volume (fs_volume_state (tabs c4)) v = None \<or>
       look s_volume (fs_volume_state (tabs c4)) v = look s_volume (fs_volume_state (tabs c)) v"
      "set (fs_snapshots (tabs c4)) \<subseteq> set (fs_snapshots (tabs c))"
    using c4(3) b1(1) b2(1) b3(1) unfolding cascaded_def by simp_all
  show ?thesis
  proof (rule that [OF c1(1) c2(1) c3(1) c4(1) c'(1)])
    show "quiet c'" using b1(3) b2(3) b3(3) b4(3) b5(3) by simp
  qed (use c1(2) c2(2) c3(2) c4(2) c'(2) casc b1(1,2) b2(1,2) b3(1,2) b4(1,2) b5(1,2) in simp_all)
qed

lemma look_state_set: "look s_volume (fs_volume_state (set_state v f t)) v = map_option f (look s_volume (fs_volume_state t) v)"
  if "\<And>s. s_volume (f s) = s_volume s"
  using that look_map_key [of s_volume v f "fs_volume_state t"] by (simp add: set_state_def fun_upd_def)

lemma since_purged [simp]: "since v n (filter (\<lambda>u. \<not> (u_volume u = v \<and> n < u_snap u)) us) = []"
  by (simp add: since_def filter_empty_conv)

lemma kept_keys:
  assumes "p_key ` set sn = p_key ` set s1 \<union> p_key ` set (filter (\<lambda>p. p_volume p = v \<and> p_snap p \<le> n) s0)" and "set s1 \<subseteq> set s0"
  shows "p_key ` {p \<in> set sn. p_volume p = v \<and> p_snap p \<le> n} = p_key ` {p \<in> set s0. p_volume p = v \<and> p_snap p \<le> n}"
proof -
  have key: "p_key ` {p \<in> set z. p_volume p = v \<and> p_snap p \<le> n} = {k \<in> p_key ` set z. fst k = v \<and> fst (snd k) \<le> n}" for z :: "snapshot_row list"
    by force
  show ?thesis unfolding key assms(1) using assms(2) by force
qed

text \<open>The session after putting back: what a restore needs of it.\<close>

lemma put_back_facts:
  assumes rd: "ready c" and root: "v_root vr \<in> i_ino ` set (fs_inode (tabs c))" and lab: "labels_ok v all"
    and sub: "p_key ` set (fs_snapshots (tabs c)) \<subseteq> p_key ` set all" "set ps \<subseteq> set all" "\<forall>p \<in> set ps. p_volume p = v"
    and vol: "fs_volumes (tabs c) = filter q vs" "distinct (map v_id vs)" "look v_id vs v = Some vr"
    and st: "look s_volume (fs_volume_state (tabs c)) v = None \<or> look s_volume (fs_volume_state (tabs c)) v = Some st"
      "s_volume st = v"
  obtains e where "put_back now v n (Some (v_root vr)) (Some st) ps c = (Inr (), e)"
    and "look v_id (fs_volumes (tabs e)) v = Some vr"
    and "\<exists>s. look s_volume (fs_volume_state (tabs e)) v = Some s \<and> s_volume s = v \<and> s_enabled s = s_enabled st"
    and "p_key ` set (fs_snapshots (tabs e)) = p_key ` set (fs_snapshots (tabs c)) \<union> p_key ` set ps"
    and "fs_inode (tabs e) = fs_inode (tabs c)" "fs_dentry (tabs e) = fs_dentry (tabs c)" "fs_data (tabs e) = fs_data (tabs c)"
      "fs_symlink (tabs e) = fs_symlink (tabs c)" "kv_store (tabs e) = kv_store (tabs c)"
    and "faults e = faults c" "txn_state e = txn_state c" "guc_volume e = guc_volume c" "conn.more e = conn.more c"
proof -
  let ?V = "if volume_known v (tabs c) then fs_volumes (tabs c) else fs_volumes (tabs c) @ [\<lparr>v_id = v, v_root = v_root vr\<rparr>]"
  let ?S = "if v \<in> s_volume ` set (fs_volume_state (tabs c)) then fs_volume_state (tabs c)
         else fs_volume_state (tabs c) @ [\<lparr>s_volume = v, s_enabled = s_enabled st, s_current = n + 1\<rparr>]"
  obtain sn where pb: "put_back now v n (Some (v_root vr)) (Some st) ps c =
      (Inr (), c\<lparr>tabs := (tabs c)\<lparr>fs_volumes := ?V, fs_volume_state := ?S, fs_snapshots := sn\<rparr>\<rparr>)"
    and sn: "p_key ` set sn = p_key ` set (fs_snapshots (tabs c)) \<union> p_key ` set ps"
    by (rule put_back_run [OF rd root lab sub, of now n st]) (rule that)
  have vr: "v_id vr = v" using vol(3) by auto
  have "look v_id ?V v = Some vr"
  proof (cases "volume_known v (tabs c)")
    case True
    then have "look v_id (fs_volumes (tabs c)) v \<noteq> None" by (simp add: look_None_iff volume_known_def)
    then show ?thesis using True look_filter [OF vol(2), of q v] vol(1,3) by (auto split: if_splits)
  next
    case False
    then have "look v_id (fs_volumes (tabs c)) v = None" by (simp add: look_None_iff volume_known_def)
    then show ?thesis using False vr by (cases vr) (simp add: look_append)
  qed
  moreover have "\<exists>s. look s_volume ?S v = Some s \<and> s_volume s = v \<and> s_enabled s = s_enabled st"
  proof (cases "v \<in> s_volume ` set (fs_volume_state (tabs c))")
    case True
    then have "look s_volume (fs_volume_state (tabs c)) v = Some st" using st(1) by (simp add: look_None_iff)
    then show ?thesis using True st(2) by simp
  next
    case False
    then have "look s_volume (fs_volume_state (tabs c)) v = None" by (simp add: look_None_iff)
    then show ?thesis using False by (simp add: look_append)
  qed
  ultimately show ?thesis using sn by (intro that [OF pb]) simp_all
qed

lemma restore_run:
  fixes c :: "'z conn_scheme"
  assumes rd: "ready c" "txn_state c = NoTxn" and st: "look s_volume (fs_volume_state (tabs c)) v = Some st"
    and res: "restorable v n t0 (tabs c)"
    and vol: "look v_id (fs_volumes t0) v = Some vr" "v_root vr \<in> i_ino ` set (fs_inode t0)"
  obtains out c' where "restore_to now v n c = (Inr out, c')"
    and "mset (fs_inode (tabs c')) = mset (fs_inode t0)" "mset (fs_dentry (tabs c')) = mset (fs_dentry t0)"
      "mset (fs_data (tabs c')) = mset (fs_data t0)" "mset (fs_symlink (tabs c')) = mset (fs_symlink t0)"
      "mset (kv_store (tabs c')) = mset (kv_store t0)"
    and "look s_volume (fs_volume_state (tabs c')) v = Some \<lparr>s_volume = v, s_enabled = True, s_current = n + 1\<rparr>"
    and "look v_id (fs_volumes (tabs c')) v = Some vr"
    and "p_key ` {p \<in> set (fs_snapshots (tabs c')). p_volume p = v \<and> p_snap p \<le> n} =
      p_key ` {p \<in> set (fs_snapshots (tabs c)). p_volume p = v \<and> p_snap p \<le> n}"
    and "ready c'" "txn_state c' = NoTxn" "guc_volume c' = guc_volume c" "conn.more c' = conn.more c"
proof -
  note r = res [unfolded restorable_def, rule_format, OF st]
  have st_v: "s_volume st = v" "s_enabled st" using st r by auto
  have vr: "look v_id (fs_volumes (tabs c)) v = Some vr" "v_id vr = v" using r vol(1) by auto
  let ?c1 = "c\<lparr>txn_state := Active (tabs c), guc_suppress_local := Some ''true''\<rparr>"
  let ?ps = "filter (\<lambda>p. p_volume p = v \<and> p_snap p \<le> n) (fs_snapshots (tabs c))"
  have q1: "quiet ?c1" using rd by (simp add: quiet_def ready_def suppress_setting_def)
  have u1: "undoable v n t0 (tabs ?c1)" using r by simp
  obtain n1 n2 n3 n4 n5 d1 d2 d3 d4 d where
    rp: "replay_fs_dentry v n ?c1 = (Inr n1, d1)" "replay_fs_data v n d1 = (Inr n2, d2)"
      "replay_fs_symlink v n d2 = (Inr n3, d3)" "replay_fs_inode v n d3 = (Inr n4, d4)" "replay_kv_store v n d4 = (Inr n5, d)"
    and m: "mset (fs_inode (tabs d)) = mset (fs_inode t0)" "mset (fs_dentry (tabs d)) = mset (fs_dentry t0)"
      "mset (fs_data (tabs d)) = mset (fs_data t0)" "mset (fs_symlink (tabs d)) = mset (fs_symlink t0)"
      "mset (kv_store (tabs d)) = mset (kv_store t0)"
    and casc: "\<exists>p. fs_volumes (tabs d) = filter p (fs_volumes (tabs ?c1))"
      "look s_volume (fs_volume_state (tabs d)) v = None \<or>
       look s_volume (fs_volume_state (tabs d)) v = look s_volume (fs_volume_state (tabs ?c1)) v"
      "set (fs_snapshots (tabs d)) \<subseteq> set (fs_snapshots (tabs ?c1))"
    and d: "quiet d" "txn_state d = txn_state ?c1" "guc_volume d = guc_volume ?c1" "guc_suppress d = guc_suppress ?c1" "conn.more d = conn.more ?c1"
    by (rule replays_run [OF q1 u1]) (rule that)
  note rdd = quiet_ready [OF d(1)]
  have root: "v_root vr \<in> i_ino ` set (fs_inode (tabs d))" using vol(2) mset_eq_setD [OF m(1)] by simp
  have lab: "labels_ok v (fs_snapshots (tabs c))" using r by simp
  have sub: "p_key ` set (fs_snapshots (tabs d)) \<subseteq> p_key ` set (fs_snapshots (tabs c))" using casc(3) by (auto simp: image_mono)
  obtain q where vs: "fs_volumes (tabs d) = filter q (fs_volumes (tabs c))" using casc(1) by auto
  have vs2: "distinct (map v_id (fs_volumes (tabs c)))" using r by simp
  have sd: "look s_volume (fs_volume_state (tabs d)) v = None \<or> look s_volume (fs_volume_state (tabs d)) v = Some st"
    using casc(2) st by simp
  obtain e where pb: "put_back now v n (Some (v_root vr)) (Some st) ?ps d = (Inr (), e)"
    and e: "look v_id (fs_volumes (tabs e)) v = Some vr"
      "\<exists>s. look s_volume (fs_volume_state (tabs e)) v = Some s \<and> s_volume s = v \<and> s_enabled s = s_enabled st"
      "p_key ` set (fs_snapshots (tabs e)) = p_key ` set (fs_snapshots (tabs d)) \<union> p_key ` set ?ps"
      "fs_inode (tabs e) = fs_inode (tabs d)" "fs_dentry (tabs e) = fs_dentry (tabs d)" "fs_data (tabs e) = fs_data (tabs d)"
      "fs_symlink (tabs e) = fs_symlink (tabs d)" "kv_store (tabs e) = kv_store (tabs d)"
      "faults e = faults d" "txn_state e = txn_state d" "guc_volume e = guc_volume d" "conn.more e = conn.more d"
    by (rule put_back_facts [OF rdd root lab sub, of ?ps q "fs_volumes (tabs c)" st now n]) (use vs vs2 vr(1) sd st_v in auto)
  have rde: "ready e" using rdd e by (simp add: ready_def)
  obtain k t where pu: "purge_undo v (\<lambda>s. n < s) e = (Inr k, e\<lparr>tabs := t\<rparr>)"
    and t: "fs_inode t = fs_inode (tabs e)" "fs_dentry t = fs_dentry (tabs e)" "fs_data t = fs_data (tabs e)"
      "fs_symlink t = fs_symlink (tabs e)" "kv_store t = kv_store (tabs e)" "fs_volumes t = fs_volumes (tabs e)"
      "fs_volume_state t = fs_volume_state (tabs e)" "fs_snapshots t = fs_snapshots (tabs e)"
    by (rule purge_undo_ready [OF rde, of v "\<lambda>s. n < s"]) auto
  let ?set = "set_state v (\<lambda>s. s\<lparr>s_current := n + 1\<rparr>)"
  have sl: "set_local_suppress (c\<lparr>txn_state := Active (tabs c)\<rparr>) = (Inr (), ?c1)"
    using rd by (simp add: set_local_suppress_def run)
  have inner: "restore_inner now v n (c\<lparr>txn_state := Active (tabs c)\<rparr>) =
      (Inr \<lparr>pruned_snapshots = int (length (filter (\<lambda>p. p_volume p = v \<and> n < p_snap p) (fs_snapshots (tabs c)))),
        pruned_undo_rows = n1 + n2 + n3 + n4 + n5\<rparr>, e\<lparr>tabs := ?set t\<rparr>)"
    using sl rp pb pu vr(1) st rde
    by (simp add: restore_inner_def query_ready [OF quiet_ready [OF q1]] write_tables_ready)
  let ?c' = "end_kept (e\<lparr>tabs := ?set t\<rparr>)"
  have go: "restore_to now v n c = (Inr \<lparr>pruned_snapshots = int (length (filter (\<lambda>p. p_volume p = v \<and> n < p_snap p) (fs_snapshots (tabs c)))),
        pruned_undo_rows = n1 + n2 + n3 + n4 + n5\<rparr>, ?c')"
    using rd rde inner begin_ready [OF rd] commit_ready [of "e\<lparr>tabs := ?set t\<rparr>"]
    by (simp add: restore_to_def transact_def)
  have "look s_volume (fs_volume_state (?set t)) v = Some \<lparr>s_volume = v, s_enabled = True, s_current = n + 1\<rparr>"
    using e(2) t(7) st_v(2) by (subst look_state_set) auto
  moreover have "p_key ` {p \<in> set (fs_snapshots (tabs e)). p_volume p = v \<and> p_snap p \<le> n} =
      p_key ` {p \<in> set (fs_snapshots (tabs c)). p_volume p = v \<and> p_snap p \<le> n}"
    by (rule kept_keys [OF e(3)]) (use casc(3) in simp)
  moreover have "fs_inode (?set t) = fs_inode t" "fs_dentry (?set t) = fs_dentry t" "fs_data (?set t) = fs_data t"
    "fs_symlink (?set t) = fs_symlink t" "kv_store (?set t) = kv_store t" "fs_volumes (?set t) = fs_volumes t"
    "fs_snapshots (?set t) = fs_snapshots t" by (simp_all add: set_state_def)
  ultimately show ?thesis
    using t m e d rd by (intro that [OF go]) (simp_all add: quiet_def ready_def end_kept_def)
qed

end
