(* ===== verification/Kv_Store.thy ===== *)
theory Kv_Store
  imports Session
begin

text \<open>
  The key-value store of \<open>kvstore.rs\<close>.  Values are serialised by the serde_json crate, which is
  a parameter: \<open>ser\<close> gives the text or fails, \<open>de\<close> reads it back or fails.  The store refines a
  map from keys to texts.
\<close>

section \<open>Operations\<close>

definition kv_set :: "('v \<Rightarrow> string option) \<Rightarrow> i64 \<Rightarrow> string \<Rightarrow> 'v \<Rightarrow> ('z conn_scheme, unit) oper" where
  "kv_set ser now key v =
    sq get_connection
    (bnd (ok_or Json (ser v)) (\<lambda>serialized.
     sq (upsert_kv key serialized now) (ret ())))"

definition kv_get :: "(string \<Rightarrow> 'v option) \<Rightarrow> string \<Rightarrow> ('z conn_scheme, 'v option) oper" where
  "kv_get de key =
    sq get_connection
    (bnd (query (\<lambda>t. look k_key (kv_store t) key)) (\<lambda>row.
     case row of
       None \<Rightarrow> ret None
     | Some r \<Rightarrow> bnd (ok_or Json (de (k_value r))) (\<lambda>v. ret (Some v))))"

definition kv_delete :: "string \<Rightarrow> ('z conn_scheme, unit) oper" where
  "kv_delete key = sq get_connection (sq (delete_kv key) (ret ()))"

definition kv_keys :: "('z conn_scheme, string list) oper" where
  "kv_keys = sq get_connection (query (\<lambda>t. map k_key (kv_store t)))"

section \<open>The map it implements\<close>

definition kv_map :: "tables \<Rightarrow> string \<rightharpoonup> string" where
  "kv_map t = (\<lambda>k. map_option k_value (look k_key (kv_store t) k))"

datatype 'v kv_op = KvSet i64 string 'v | KvDelete string

fun kv_exec :: "('v \<Rightarrow> string option) \<Rightarrow> 'v kv_op \<Rightarrow> ('z conn_scheme, unit) oper" where
  "kv_exec ser (KvSet now k v) = kv_set ser now k v"
| "kv_exec ser (KvDelete k) = kv_delete k"

fun kv_step :: "('v \<Rightarrow> string option) \<Rightarrow> 'v kv_op \<Rightarrow> (string \<rightharpoonup> string) \<Rightarrow> (string \<rightharpoonup> string)" where
  "kv_step ser (KvSet now k v) m = (case ser v of None \<Rightarrow> m | Some s \<Rightarrow> m(k \<mapsto> s))"
| "kv_step ser (KvDelete k) m = m(k := None)"

text \<open>A client's operations one after the other, whatever each returns.\<close>

fun kv_run :: "('v \<Rightarrow> string option) \<Rightarrow> 'v kv_op list \<Rightarrow> 'z conn_scheme \<Rightarrow> 'z conn_scheme" where
  "kv_run ser [] c = c"
| "kv_run ser (op # ops) c = kv_run ser ops (snd (kv_exec ser op c))"

lemma kv_exec_step:
  assumes rd: "ready c" and ok: "kv_ok (kv_store (tabs c))"
  shows "ready (snd (kv_exec ser op c)) \<and> kv_ok (kv_store (tabs (snd (kv_exec ser op c)))) \<and>
    kv_map (tabs (snd (kv_exec ser op c))) = kv_step ser op (kv_map (tabs c))"
proof (cases op)
  case (KvSet now k v)
  show ?thesis
  proof (cases "ser v")
    case None
    then show ?thesis using KvSet rd ok by (simp add: kv_set_def run)
  next
    case (Some s)
    obtain n t chs r where u: "upsert_kv k s now c = (Inr n, put_kv chs t c)" "kv_ok t"
      "look k_key t = (look k_key (kv_store (tabs c)))(k \<mapsto> r)" "k_value r = s"
      by (rule upsert_kv_ready [OF rd ok, of k s now]) (rule that)
    have "kv_exec ser op c = (Inr (), put_kv chs t c)" using KvSet Some rd u(1) by (simp add: kv_set_def run)
    moreover have "kv_map (tabs (put_kv chs t c)) = (kv_map (tabs c))(k \<mapsto> s)"
      using u(3,4) by (auto simp: kv_map_def)
    ultimately show ?thesis using KvSet Some rd u(2) by simp
  qed
next
  case (KvDelete k)
  let ?t = "filter (\<lambda>r. k_key r \<noteq> k) (kv_store (tabs c))"
  have d: "distinct (map k_key (kv_store (tabs c)))" using ok by (simp add: kv_ok_def)
  obtain chs where run: "kv_exec ser op c = (Inr (), put_kv chs ?t c)"
    using KvDelete rd by (simp add: kv_delete_def delete_kv_def run t_delete_def Let_def)
  have "look k_key ?t = (look k_key (kv_store (tabs c)))(k := None)"
    using look_filter [OF d, of "\<lambda>r. k_key r \<noteq> k"] by (intro ext) (auto split: option.split)
  then have "kv_map (tabs (put_kv chs ?t c)) = (kv_map (tabs c))(k := None)" by (auto simp: kv_map_def)
  then show ?thesis using run rd d KvDelete by (simp add: kv_ok_def distinct_map_filter_key)
qed

lemma kv_run_map:
  "ready c \<Longrightarrow> kv_ok (kv_store (tabs c)) \<Longrightarrow>
    ready (kv_run ser ops c) \<and> kv_ok (kv_store (tabs (kv_run ser ops c))) \<and>
    kv_map (tabs (kv_run ser ops c)) = fold (kv_step ser) ops (kv_map (tabs c))"
proof (induction ops arbitrary: c)
  case (Cons op ops)
  then show ?case using kv_exec_step [of c ser op] by simp
qed simp

lemma kv_get_ready:
  "ready c \<Longrightarrow> kv_get de k c = ((case kv_map (tabs c) k of None \<Rightarrow> Inr None
      | Some s \<Rightarrow> (case de s of None \<Rightarrow> Inl Json | Some v \<Rightarrow> Inr (Some v))), c)"
  by (simp add: kv_get_def run kv_map_def split: option.split)

lemma kv_keys_ready:
  "ready c \<Longrightarrow> kv_ok (kv_store (tabs c)) \<Longrightarrow>
    \<exists>ks. kv_keys c = (Inr ks, c) \<and> distinct ks \<and> set ks = dom (kv_map (tabs c))"
  by (auto simp: kv_keys_def run kv_ok_def kv_map_def dom_def look_None_iff image_iff
      intro!: exI [of _ "map k_key (kv_store (tabs c))"])

text \<open>
  C17.  The key-value store is a map: after any sequence of sets and deletions, a get returns the
  value last set under the key (a value whose serialisation failed changes nothing, one that
  cannot be read back is reported), nothing for a key that was deleted or never set, and the
  list of keys has each key of the map once.
\<close>

theorem kv_refines_map:
  fixes c :: "'z conn_scheme"
  assumes "ready c" and "kv_ok (kv_store (tabs c))"
  shows "let c' = kv_run ser ops c; m = fold (kv_step ser) ops (kv_map (tabs c)) in
    kv_get de k c' = ((case m k of None \<Rightarrow> Inr None
      | Some s \<Rightarrow> (case de s of None \<Rightarrow> Inl Json | Some v \<Rightarrow> Inr (Some v))), c') \<and>
    (\<exists>ks. kv_keys c' = (Inr ks, c') \<and> distinct ks \<and> set ks = dom m)"
  using kv_run_map [OF assms, of ser ops] kv_get_ready [of "kv_run ser ops c" de k] kv_keys_ready [of "kv_run ser ops c"]
  by (simp add: Let_def)

theorem kv_refines_map_witness:
  "let de = (\<lambda>s. if s = ''1'' then Some True else if s = ''0'' then Some False else None);
       ser = (\<lambda>b. Some (if b then ''1'' else ''0''));
       c' = kv_run ser [KvSet 7 ''k'' False, KvSet 8 ''j'' True, KvSet 9 ''k'' True, KvDelete ''j''] sample_conn
   in kv_get de ''k'' c' = (Inr (Some True), c') \<and> kv_get de ''j'' c' = (Inr None, c')"
proof -
  let ?de = "\<lambda>s. if s = ''1'' then Some True else if s = ''0'' then Some False else None"
  let ?ser = "\<lambda>b. Some (if b then ''1'' else ''0'')"
  let ?ops = "[KvSet 7 ''k'' False, KvSet 8 ''j'' True, KvSet 9 ''k'' True, KvDelete ''j'']"
  have "kv_ok (kv_store (tabs sample_conn))" by (simp add: kv_ok_def sample_tables_def)
  note k = kv_refines_map [OF sample_ready(1) this, of ?ser ?ops ?de]
  have "fold (kv_step ?ser) ?ops m ''k'' = Some ''1''" "fold (kv_step ?ser) ?ops m ''j'' = None" for m by simp_all
  with k [of "''k''"] k [of "''j''"] show ?thesis unfolding Let_def by (simp del: kv_run.simps fold_simps)
qed

end
