(* ===== verification/Dentry_Cache.thy ===== *)
theory Dentry_Cache
  imports Session
begin

text \<open>
  The directory entry cache of \<open>filesystem/secafs.rs\<close> (\<open>DentryCache\<close>).  The cache is an
  \<open>LruCache\<close> of the third-party crate \<open>lru\<close>: its operations are a parameter of the model, and
  the locale \<open>lru_cache\<close> states what the crate documents of them.  The theory ends with a
  bounded list that satisfies the locale.
\<close>

section \<open>The parameter\<close>

type_synonym slot = "i64 \<times> string"

record 'l lru_ops =
  lru_get :: "slot \<Rightarrow> 'l \<Rightarrow> i64 option \<times> 'l"
  lru_put :: "slot \<Rightarrow> i64 \<Rightarrow> 'l \<Rightarrow> 'l"
  lru_pop :: "slot \<Rightarrow> 'l \<Rightarrow> 'l"

section \<open>The filesystem object\<close>

text \<open>\<open>SecAFS\<close>: a session of its pool, and the cache shared by its clones.\<close>

record 'l fs_state = conn +
  dcache :: 'l

type_synonym ('l, 'a) fs_oper = "('l fs_state, 'a) oper"

text \<open>\<open>DentryCache::get\<close>, \<open>insert\<close> and \<open>remove\<close>; none of them fails.\<close>

definition cache_get :: "'l lru_ops \<Rightarrow> i64 \<Rightarrow> string \<Rightarrow> ('l, i64 option) fs_oper" where
  "cache_get L parent name c =
    (case lru_get L (parent, name) (dcache c) of (r, l) \<Rightarrow> (Inr r, c\<lparr>dcache := l\<rparr>))"

definition cache_insert :: "'l lru_ops \<Rightarrow> i64 \<Rightarrow> string \<Rightarrow> i64 \<Rightarrow> ('l, unit) fs_oper" where
  "cache_insert L parent name ino c =
    (Inr (), c\<lparr>dcache := lru_put L (parent, name) ino (dcache c)\<rparr>)"

definition cache_remove :: "'l lru_ops \<Rightarrow> i64 \<Rightarrow> string \<Rightarrow> ('l, unit) fs_oper" where
  "cache_remove L parent name c =
    (Inr (), c\<lparr>dcache := lru_pop L (parent, name) (dcache c)\<rparr>)"

section \<open>What the cache relies on\<close>

text \<open>The name space of the tables: which inode an entry names.\<close>

definition dir_map :: "tables \<Rightarrow> slot \<Rightarrow> i64 option" where
  "dir_map t k = map_option d_ino (look d_slot (fs_dentry t) k)"

text \<open>
  A cache is coherent when every pair it holds is an entry of the committed directory table;
  \<open>view l\<close> is the finite map the cache \<open>l\<close> holds.
\<close>

definition cache_coherent :: "('l \<Rightarrow> slot \<rightharpoonup> i64) \<Rightarrow> 'l fs_state \<Rightarrow> bool" where
  "cache_coherent view c \<longleftrightarrow>
    (\<forall>k i. view (dcache c) k = Some i \<longrightarrow> dir_map (committed c) k = Some i)"

lemma committed_dcache [simp]: "committed (c\<lparr>dcache := l\<rparr>) = committed c"
  by (simp add: committed_def split: txn.splits)

text \<open>
  A lookup returns what the map holds and does not change it; an insertion makes its key
  current and may evict other keys; a removal removes exactly its key.
\<close>

locale lru_cache =
  fixes L :: "'l lru_ops" and view :: "'l \<Rightarrow> slot \<rightharpoonup> i64"
  assumes get_result: "fst (lru_get L k l) = view l k"
    and get_view: "view (snd (lru_get L k l)) = view l"
    and put_this: "view (lru_put L k i l) k = Some i"
    and put_other: "j \<noteq> k \<Longrightarrow> view (lru_put L k i l) j = Some v \<Longrightarrow> view l j = Some v"
    and pop_view: "view (lru_pop L k l) = (view l)(k := None)"
begin

lemma cache_get_run:
  fixes c :: "'l fs_state"
  shows "cache_get L p n c =
    (Inr (view (dcache c) (p, n)), c\<lparr>dcache := snd (lru_get L (p, n) (dcache c))\<rparr>)"
  using get_result [of "(p, n)" "dcache c"] by (auto simp: cache_get_def split_beta)

lemma coherent_get:
  fixes c :: "'l fs_state"
  assumes "cache_coherent view c"
  shows "cache_coherent view (c\<lparr>dcache := snd (lru_get L k (dcache c))\<rparr>)"
  using assms by (simp add: cache_coherent_def get_view)

lemma coherent_insert:
  fixes c :: "'l fs_state"
  assumes "cache_coherent view c" and "dir_map (committed c) (p, n) = Some i"
  shows "cache_coherent view (c\<lparr>dcache := lru_put L (p, n) i (dcache c)\<rparr>)"
proof -
  have "dir_map (committed c) k = Some j" if v: "view (lru_put L (p, n) i (dcache c)) k = Some j" for k j
  proof (cases "k = (p, n)")
    case True
    then show ?thesis using v put_this [of "(p, n)" i "dcache c"] assms(2) by simp
  next
    case False
    then have "view (dcache c) k = Some j" using put_other v by blast
    then show ?thesis using assms(1) unfolding cache_coherent_def by blast
  qed
  then show ?thesis unfolding cache_coherent_def by simp
qed

lemma coherent_remove:
  fixes c :: "'l fs_state"
  assumes "\<And>k i. k \<noteq> (p, n) \<Longrightarrow> view (dcache c) k = Some i \<Longrightarrow> dir_map (committed c) k = Some i"
  shows "cache_coherent view (c\<lparr>dcache := lru_pop L (p, n) (dcache c)\<rparr>)"
  using assms by (auto simp: cache_coherent_def pop_view split: if_splits)

end

section \<open>A bounded list satisfies the interface\<close>

text \<open>Most recent first; an insertion into a full list drops the last pair.\<close>

type_synonym lru_list = "(slot \<times> i64) list"

definition list_drop :: "slot \<Rightarrow> lru_list \<Rightarrow> lru_list" where
  "list_drop k l = filter (\<lambda>e. fst e \<noteq> k) l"

definition list_get :: "slot \<Rightarrow> lru_list \<Rightarrow> i64 option \<times> lru_list" where
  "list_get k l =
    (case map_of l k of None \<Rightarrow> (None, l) | Some i \<Rightarrow> (Some i, (k, i) # list_drop k l))"

definition list_put :: "nat \<Rightarrow> slot \<Rightarrow> i64 \<Rightarrow> lru_list \<Rightarrow> lru_list" where
  "list_put cap k i l = (k, i) # take (cap - 1) (list_drop k l)"

definition list_lru :: "nat \<Rightarrow> lru_list lru_ops" where
  "list_lru cap = \<lparr>lru_get = list_get, lru_put = list_put cap, lru_pop = list_drop\<rparr>"

lemma map_of_drop: "map_of (list_drop k l) = (map_of l)(k := None)"
  by (induction l) (auto simp: list_drop_def)

lemma map_of_take: "map_of (take m l) j = Some v \<Longrightarrow> map_of l j = Some v"
proof (induction l arbitrary: m)
  case (Cons e l)
  then show ?case by (cases m) (auto split: if_splits)
qed simp

interpretation bounded: lru_cache "list_lru cap" map_of for cap :: nat
proof
  fix k j i v and l :: lru_list
  show "fst (lru_get (list_lru cap) k l) = map_of l k"
    by (simp add: list_lru_def list_get_def split: option.splits)
  show "map_of (snd (lru_get (list_lru cap) k l)) = map_of l"
    by (auto simp: list_lru_def list_get_def map_of_drop split: option.splits)
  show "map_of (lru_put (list_lru cap) k i l) k = Some i"
    by (simp add: list_lru_def list_put_def)
  show "map_of (lru_pop (list_lru cap) k l) = (map_of l)(k := None)"
    by (simp add: list_lru_def map_of_drop)
  assume "j \<noteq> k" and "map_of (lru_put (list_lru cap) k i l) j = Some v"
  then show "map_of l j = Some v"
    by (auto simp: list_lru_def list_put_def map_of_drop dest!: map_of_take)
qed

end
