(* ===== verification/File_Handle.thy ===== *)
theory File_Handle
  imports Session
begin

text \<open>
  The open file handle \<open>SecAFSFile\<close> of \<open>filesystem/secafs.rs\<close>: positioned reads and writes
  and truncation over the fixed-size chunks of \<open>fs_data\<close>.  The theory ends with the
  refinement of these operations to a flat byte array: what a reader sees is the array, and
  a write or a truncation is the array operation of POSIX.
\<close>

section \<open>The handle and its operations\<close>

record file_handle =
  f_ino :: i64
  f_chunk_size :: nat

text \<open>\<open>SELECT size FROM fs_inode WHERE ino = ?\<close>, read \<open>as u64\<close>; 0 when there is no row.\<close>

definition select_size :: "i64 \<Rightarrow> ('z conn_scheme, u64) oper" where
  "select_size ino =
    query (\<lambda>t. case look i_ino (fs_inode t) ino of None \<Rightarrow> 0 | Some r \<Rightarrow> as_u64 (i_size r))"

subsection \<open>pread\<close>

text \<open>The bytes one row contributes: a prefix is skipped, a short chunk is padded with zeros.\<close>

definition read_chunk :: "nat \<Rightarrow> nat \<Rightarrow> nat \<Rightarrow> bytes \<Rightarrow> bytes \<Rightarrow> bytes" where
  "read_chunk cs skip sz d result =
    (if skip \<ge> length d then
       result @ replicate (min (cs - skip) (sz - length result)) 0
     else
       let remaining = sz - length result;
           n = min (length d - skip) remaining;
           result = result @ take n (drop skip d);
           chunk_end = skip + n
       in if chunk_end < cs \<and> length result < sz
          then result @ replicate (min (cs - chunk_end) (sz - length result)) 0
          else result)"

text \<open>The inner loop: missing chunks before the next row read as zeros.\<close>

function fill_gaps :: "nat \<Rightarrow> nat \<Rightarrow> nat \<Rightarrow> nat \<Rightarrow> nat \<Rightarrow> nat \<Rightarrow> bytes \<Rightarrow> bytes" where
  "fill_gaps cs start skip0 sz next ci result =
    (if next < ci \<and> length result < sz then
       let skip = (if next = start then skip0 else 0)
       in fill_gaps cs start skip0 sz (next + 1) ci
            (result @ replicate (min (cs - skip) (sz - length result)) 0)
     else result)"
  by pat_completeness auto
termination
  by (relation "measure (\<lambda>(cs, start, skip0, sz, next, ci, result). ci - next)") auto

declare fill_gaps.simps [simp del]

text \<open>The loop over the rows, in the order of \<open>chunk_index\<close>.\<close>

fun read_rows :: "nat \<Rightarrow> nat \<Rightarrow> nat \<Rightarrow> nat \<Rightarrow> (i64 \<times> bytes) list \<Rightarrow> nat \<Rightarrow> bytes \<Rightarrow> bytes" where
  "read_rows cs start skip0 sz [] next result = result"
| "read_rows cs start skip0 sz ((i, d) # rows) next result =
    (let ci = as_u64 i;
         result = fill_gaps cs start skip0 sz next ci result;
         skip = (if ci = start then skip0 else 0)
     in read_rows cs start skip0 sz rows (ci + 1) (read_chunk cs skip sz d result))"

text \<open>
  \<open>SELECT chunk_index, data FROM fs_data WHERE ino = ? AND chunk_index >= ? AND
  chunk_index <= ? ORDER BY chunk_index\<close>
\<close>

definition select_chunks :: "i64 \<Rightarrow> i64 \<Rightarrow> i64 \<Rightarrow> data_row list \<Rightarrow> (i64 \<times> bytes) list" where
  "select_chunks ino lo hi t =
    sort_key fst (map (\<lambda>b. (b_index b, b_data b))
      (filter (\<lambda>b. b_ino b = ino \<and> lo \<le> b_index b \<and> b_index b \<le> hi) t))"

definition pread :: "file_handle \<Rightarrow> u64 \<Rightarrow> u64 \<Rightarrow> ('z conn_scheme, bytes) oper" where
  "pread f offset sz =
    sq get_connection
    (bnd (select_size (f_ino f)) (\<lambda>file_size.
     if offset \<ge> file_size then ret []
     else if f_chunk_size f = 0 then throw Panic
     else
       let sz = min sz (file_size - offset);
           cs = f_chunk_size f;
           start_chunk = offset div cs;
           end_chunk = (u64_add offset sz - 1) div cs
       in bnd (query (\<lambda>t. select_chunks (f_ino f) (as_i64 start_chunk) (as_i64 end_chunk) (fs_data t)))
          (\<lambda>rows.
            let result = read_rows cs start_chunk (offset mod cs) sz rows start_chunk []
            in ret (if length result < sz
                    then result @ replicate (sz - length result) 0 else result))))"

subsection \<open>pwrite\<close>

text \<open>The new bytes of a chunk: the old ones extended with zeros, the data copied over them.\<close>

definition splice :: "nat \<Rightarrow> bytes \<Rightarrow> bytes \<Rightarrow> bytes" where
  "splice off piece old =
    (let old = (if length old < off + length piece
                then old @ replicate (off + length piece - length old) 0 else old)
     in take off old @ piece @ drop (off + length piece) old)"

text \<open>\<open>write_data_at_offset_with_conn\<close>: one upsert per chunk the data touches.\<close>

function write_data_at_offset ::
  "file_handle \<Rightarrow> u64 \<Rightarrow> bytes \<Rightarrow> nat \<Rightarrow> ('z conn_scheme, unit) oper" where
  "write_data_at_offset f offset data written =
    (if written < length data then
       if f_chunk_size f = 0 then throw Panic
       else
         let cs = f_chunk_size f;
             current_offset = u64_add offset written;
             chunk_index = as_i64 (current_offset div cs);
             offset_in_chunk = current_offset mod cs;
             to_write = min (cs - offset_in_chunk) (length data - written);
             piece = take to_write (drop written data)
         in bnd (if to_write \<noteq> cs then
                   bnd (query (\<lambda>t. look b_key (fs_data t) (f_ino f, chunk_index)))
                     (\<lambda>row. ret (splice offset_in_chunk piece
                        (case row of None \<Rightarrow> [] | Some b \<Rightarrow> b_data b)))
                 else ret piece)
            (\<lambda>chunk_data.
              sq (upsert_data \<lparr>b_ino = f_ino f, b_index = chunk_index, b_data = chunk_data\<rparr>)
                 (write_data_at_offset f offset data (written + to_write)))
     else ret ())"
  by pat_completeness auto
termination
  by (relation "measure (\<lambda>(f, offset, data, written). length data - written)")
    (auto intro: chunk_step_decreases)

declare write_data_at_offset.simps [simp del]

text \<open>
  Errors between \<open>BEGIN\<close> and \<open>COMMIT\<close> return with \<open>?\<close>: no rollback is sent and
  \<open>DbTransaction\<close> has no destructor.
\<close>

definition pwrite :: "clock \<Rightarrow> file_handle \<Rightarrow> u64 \<Rightarrow> bytes \<Rightarrow> ('z conn_scheme, unit) oper" where
  "pwrite now f offset data =
    (if data = [] then ret ()
     else
       sq get_connection
       (sq begin_txn
       (bnd (select_size (f_ino f)) (\<lambda>current_size.
        sq (write_data_at_offset f offset data 0)
        (let new_size = max current_size (u64_add offset (length data))
         in bnd (clock_now now) (\<lambda>(secs, nsec).
            sq (update_inode (f_ino f)
                 (\<lambda>r. r\<lparr>i_size := as_i64 new_size, i_mtime := secs, i_mtime_nsec := nsec\<rparr>))
               commit_txn))))))"

subsection \<open>truncate, fsync, fstat\<close>

definition truncate_chunks ::
  "file_handle \<Rightarrow> u64 \<Rightarrow> u64 \<Rightarrow> ('z conn_scheme, unit) oper" where
  "truncate_chunks f current_size new_size =
    (if new_size = 0 then
       sq (delete_data (\<lambda>b. b_ino b = f_ino f)) (ret ())
     else if new_size < current_size then
       if f_chunk_size f = 0 then throw Panic
       else
         let cs = f_chunk_size f;
             last_chunk_idx = as_i64 ((new_size - 1) div cs);
             offset_in_chunk = new_size mod cs
         in sq (delete_data (\<lambda>b. b_ino b = f_ino f \<and> last_chunk_idx < b_index b))
            (if offset_in_chunk > 0 then
               bnd (query (\<lambda>t. look b_key (fs_data t) (f_ino f, last_chunk_idx))) (\<lambda>row.
                 case row of
                   None \<Rightarrow> ret ()
                 | Some b \<Rightarrow>
                     if length (b_data b) > offset_in_chunk
                     then sq (update_data (\<lambda>r. b_key r = (f_ino f, last_chunk_idx))
                               (\<lambda>r. r\<lparr>b_data := take offset_in_chunk (b_data b)\<rparr>)) (ret ())
                     else ret ())
             else ret ())
     else ret ())"

definition truncate_body ::
  "clock \<Rightarrow> file_handle \<Rightarrow> u64 \<Rightarrow> u64 \<Rightarrow> ('z conn_scheme, unit) oper" where
  "truncate_body now f current_size new_size =
    sq (truncate_chunks f current_size new_size)
    (bnd (clock_now now) (\<lambda>(secs, nsec).
      sq (update_inode (f_ino f)
           (\<lambda>r. r\<lparr>i_size := as_i64 new_size, i_mtime := secs, i_ctime := secs,
                  i_mtime_nsec := nsec, i_ctime_nsec := nsec\<rparr>))
         (ret ())))"

definition truncate :: "clock \<Rightarrow> file_handle \<Rightarrow> u64 \<Rightarrow> ('z conn_scheme, unit) oper" where
  "truncate now f new_size =
    sq get_connection
    (bnd (select_size (f_ino f)) (\<lambda>current_size.
      transact (truncate_body now f current_size new_size)))"

definition fsync :: "file_handle \<Rightarrow> ('z conn_scheme, unit) oper" where
  "fsync f = ret ()"

definition fstat :: "file_handle \<Rightarrow> ('z conn_scheme, stats) oper" where
  "fstat f =
    sq get_connection
    (bnd (query (\<lambda>t. look i_ino (fs_inode t) (f_ino f))) (\<lambda>row.
      case row of None \<Rightarrow> throw (Fs NotFound) | Some r \<Rightarrow> ret (build_stats_from_row r)))"

section \<open>The flat file\<close>

text \<open>
  The abstract file is the byte array a reader sees: position \<open>pos\<close> lies in chunk
  \<open>pos div cs\<close>, and a byte no chunk stores is zero.
\<close>

definition chunk_byte :: "bytes option \<Rightarrow> nat \<Rightarrow> byte" where
  "chunk_byte d i = (case d of None \<Rightarrow> 0 | Some d \<Rightarrow> if i < length d then d ! i else 0)"

definition chunk_of :: "data_row list \<Rightarrow> i64 \<Rightarrow> nat \<Rightarrow> bytes option" where
  "chunk_of t ino k = map_option b_data (look b_key t (ino, int k))"

definition byte_at :: "nat \<Rightarrow> data_row list \<Rightarrow> i64 \<Rightarrow> nat \<Rightarrow> byte" where
  "byte_at cs t ino pos = chunk_byte (chunk_of t ino (pos div cs)) (pos mod cs)"

definition file_size :: "tables \<Rightarrow> i64 \<Rightarrow> nat" where
  "file_size t ino = (case look i_ino (fs_inode t) ino of None \<Rightarrow> 0 | Some r \<Rightarrow> nat (i_size r))"

definition contents :: "nat \<Rightarrow> tables \<Rightarrow> i64 \<Rightarrow> bytes" where
  "contents cs t ino = map (byte_at cs (fs_data t) ino) [0..<file_size t ino]"

text \<open>The array operations the handle promises.\<close>

definition a_read :: "nat \<Rightarrow> nat \<Rightarrow> bytes \<Rightarrow> bytes" where
  "a_read off n xs = take n (drop off xs)"

definition a_write :: "nat \<Rightarrow> bytes \<Rightarrow> bytes \<Rightarrow> bytes" where
  "a_write off ds xs =
    take off xs @ replicate (off - length xs) 0 @ ds @ drop (off + length ds) xs"

definition a_truncate :: "nat \<Rightarrow> bytes \<Rightarrow> bytes" where
  "a_truncate n xs = take n xs @ replicate (n - length xs) 0"

text \<open>
  The chunk invariant: chunks are numbered from 0, none is longer than the chunk size, and no
  byte is stored at or beyond the end of the file.
\<close>

definition chunks_within :: "nat \<Rightarrow> data_row list \<Rightarrow> i64 \<Rightarrow> nat \<Rightarrow> bool" where
  "chunks_within cs t ino sz \<longleftrightarrow>
    (\<forall>b \<in> set t. b_ino b = ino \<longrightarrow>
      0 \<le> b_index b \<and> length (b_data b) \<le> cs \<and>
      (b_data b \<noteq> [] \<longrightarrow> nat (b_index b) * cs + length (b_data b) \<le> sz))"

definition file_inv :: "nat \<Rightarrow> tables \<Rightarrow> i64 \<Rightarrow> bool" where
  "file_inv cs t ino \<longleftrightarrow>
    0 < cs \<and> inode_ok (fs_inode t) \<and> data_ok (fs_data t) \<and>
    (case look i_ino (fs_inode t) ino of
       None \<Rightarrow> False
     | Some r \<Rightarrow> 0 \<le> i_size r \<and> i_size r < 2 ^ 63 \<and> chunks_within cs (fs_data t) ino (nat (i_size r)))"

subsection \<open>pread refines reading the array\<close>

lemma length_contents [simp]: "length (contents cs t ino) = file_size t ino"
  by (simp add: contents_def)

definition padded :: "nat \<Rightarrow> bytes option \<Rightarrow> nat \<Rightarrow> bytes" where
  "padded cs d skip = map (chunk_byte d) [skip..<cs]"

lemma read_chunk_padded:
  assumes "skip < cs" and "length d \<le> cs" and "length result \<le> n"
  shows "read_chunk cs skip n d result =
    result @ take (n - length result) (padded cs (Some d) skip)"
  using assms
  by (auto simp: read_chunk_def padded_def chunk_byte_def Let_def min_def
      intro!: nth_equalityI simp: nth_append)

lemma zeros_padded:
  "skip < cs \<Longrightarrow> replicate (min (cs - skip) m) 0 = take m (padded cs None skip)"
  by (auto simp: padded_def chunk_byte_def intro!: nth_equalityI)

text \<open>What has been read when all chunks below \<open>k\<close> are done.\<close>

definition read_upto :: "nat \<Rightarrow> data_row list \<Rightarrow> i64 \<Rightarrow> nat \<Rightarrow> nat \<Rightarrow> nat \<Rightarrow> bytes" where
  "read_upto cs t ino off n k = take n (map (byte_at cs t ino) [off..<k * cs])"

lemma length_read_upto [simp]: "length (read_upto cs t ino off n k) = min n (k * cs - off)"
  by (simp add: read_upto_def min.commute)

lemma read_upto_start: "0 < cs \<Longrightarrow> read_upto cs t ino off n (off div cs) = []"
  by (simp add: read_upto_def)

lemma padded_bytes:
  assumes "0 < cs" and "off div cs \<le> k"
  shows "padded cs (chunk_of t ino k) (if k = off div cs then off mod cs else 0) =
    map (byte_at cs t ino) [max off (k * cs)..<(k + 1) * cs]"
proof -
  define skip where "skip = (if k = off div cs then off mod cs else 0)"
  have "off \<le> k * cs" if "k \<noteq> off div cs"
  proof -
    have "off div cs + 1 \<le> k" using that assms(2) by simp
    then have "(off div cs + 1) * cs \<le> k * cs" by (rule mult_le_mono1)
    then show ?thesis using le_Suc_div_mult [OF assms(1), of off] by simp
  qed
  moreover have "k * cs + skip = off" if "k = off div cs"
    using that by (simp add: skip_def)
  ultimately have m: "max off (k * cs) = k * cs + skip"
    by (cases "k = off div cs") (auto simp: skip_def)
  have skip: "skip < cs" using assms(1) by (simp add: skip_def)
  have [simp]: "(k + 1) * cs - (k * cs + skip) = cs - skip" by simp
  have dm: "(k * cs + skip + i) div cs = k" "(k * cs + skip + i) mod cs = skip + i"
    if "i < cs - skip" for i
    using that assms(1) by (simp_all add: div_mult_self3 add.assoc)
  show ?thesis
    unfolding m skip_def [symmetric] padded_def
    by (rule nth_equalityI) (auto simp: byte_at_def dm)
qed

lemma read_upto_step:
  assumes "0 < cs" and "off div cs \<le> k"
  shows "read_upto cs t ino off n (k + 1) =
    read_upto cs t ino off n k @ take (n - length (read_upto cs t ino off n k))
      (padded cs (chunk_of t ino k) (if k = off div cs then off mod cs else 0))"
proof -
  have "(off div cs + 1) * cs \<le> (k + 1) * cs" using assms(2) by (intro mult_le_mono1) simp
  then have le: "off \<le> (k + 1) * cs" using le_Suc_div_mult [OF assms(1), of off] by linarith
  show ?thesis
    unfolding padded_bytes [OF assms] unfolding read_upto_def upt_split_chunk [OF le]
    by (simp add: take_append min_def)
qed

lemma read_upto_full:
  assumes "n \<le> length (read_upto cs t ino off n k)" and "k \<le> k'"
  shows "read_upto cs t ino off n k' = read_upto cs t ino off n k"
proof -
  have "k * cs \<le> k' * cs" using assms(2) by (rule mult_le_mono1)
  moreover have "n \<le> k * cs - off" using assms(1) by simp
  ultimately have "n \<le> k * cs - off" "n \<le> k' * cs - off"
    using diff_le_mono [of "k * cs" "k' * cs" off] by linarith+
  then show ?thesis by (cases "n = 0") (simp_all add: read_upto_def take_map take_upt)
qed

lemma fill_gaps_read_upto:
  assumes "0 < cs" and "off div cs \<le> next" and "next \<le> ci"
    and "\<And>k. next \<le> k \<Longrightarrow> k < ci \<Longrightarrow> chunk_of t ino k = None"
  shows "fill_gaps cs (off div cs) (off mod cs) n next ci (read_upto cs t ino off n next) =
    read_upto cs t ino off n ci"
  using assms
proof (induction "ci - next" arbitrary: "next")
  case 0
  then show ?case by (subst fill_gaps.simps) simp
next
  case (Suc m)
  let ?r = "read_upto cs t ino off n next"
  show ?case
  proof (cases "length ?r < n")
    case True
    define skip where "skip = (if next = off div cs then off mod cs else 0)"
    have "skip < cs" using Suc.prems(1) by (simp add: skip_def)
    moreover have "chunk_of t ino next = None" using Suc.prems(4) Suc.hyps(2) by simp
    ultimately have "?r @ replicate (min (cs - skip) (n - length ?r)) 0 =
        read_upto cs t ino off n (next + 1)"
      using read_upto_step [OF Suc.prems(1,2), of t ino n]
      by (simp only: zeros_padded flip: skip_def)
    moreover have "fill_gaps cs (off div cs) (off mod cs) n (next + 1) ci
        (read_upto cs t ino off n (next + 1)) = read_upto cs t ino off n ci"
      using Suc by (intro Suc.hyps(1)) auto
    moreover have "next < ci" using Suc.hyps(2) by simp
    ultimately show ?thesis
      using True by (subst fill_gaps.simps) (simp add: Let_def skip_def del: length_read_upto)
  next
    case False
    then show ?thesis
      using read_upto_full [of n cs t ino off "next" ci] Suc.prems(3)
      by (subst fill_gaps.simps) (simp del: length_read_upto)
  qed
qed

text \<open>The rows a read asks for, in order: they are the chunks of the range.\<close>

lemma select_chunks_rows:
  assumes "data_ok t"
  shows "sorted_wrt (<) (map fst (select_chunks ino lo hi t))"
    and "set (select_chunks ino lo hi t) =
      {(i, d). lo \<le> i \<and> i \<le> hi \<and> map_option b_data (look b_key t (ino, i)) = Some d}"
proof -
  let ?p = "\<lambda>b. b_ino b = ino \<and> lo \<le> b_index b \<and> b_index b \<le> hi"
  have "distinct (map b_key t)" using assms by (simp add: data_ok_def)
  then have d: "distinct (map b_key (filter ?p t))" by (rule distinct_map_filter)
  then have "inj_on b_key (set (filter ?p t))" "distinct (filter ?p t)"
    by (simp_all only: distinct_map)
  then have "distinct (map b_index (filter ?p t))"
    by (auto simp: distinct_map inj_on_def)
  moreover have "distinct (map fst (sort_key fst xs)) = distinct (map fst xs)"
    for xs :: "(i64 \<times> bytes) list"
    by (simp add: distinct_map)
  ultimately have ds: "distinct (map fst (select_chunks ino lo hi t))"
    by (simp add: select_chunks_def o_def)
  then show "sorted_wrt (<) (map fst (select_chunks ino lo hi t))"
    unfolding strict_sorted_iff by (simp add: select_chunks_def)
  show "set (select_chunks ino lo hi t) =
      {(i, d). lo \<le> i \<and> i \<le> hi \<and> map_option b_data (look b_key t (ino, i)) = Some d}"
  proof -
    have "map_option b_data (look b_key t (ino, i)) = Some d \<longleftrightarrow>
        (\<exists>b \<in> set t. b_ino b = ino \<and> b_index b = i \<and> b_data b = d)" for i d
      using look_Some_iff [of b_key t "(ino, i)"] assms by (auto simp: data_ok_def)
    then show ?thesis by (auto simp: select_chunks_def)
  qed
qed

lemma read_rows_read_upto:
  assumes "0 < cs" and "off div cs \<le> next" and "hi < 2 ^ 63"
    and "sorted_wrt (<) (map fst rows)"
    and "\<And>i d. (i, d) \<in> set rows \<Longrightarrow> int next \<le> i \<and> i \<le> int hi \<and>
           chunk_of t ino (nat i) = Some d \<and> length d \<le> cs"
    and "\<And>k. next \<le> k \<Longrightarrow> k \<le> hi \<Longrightarrow> chunk_of t ino k \<noteq> None \<Longrightarrow> int k \<in> fst ` set rows"
  shows "\<exists>k \<ge> next. (\<forall>k' \<ge> k. k' \<le> hi \<longrightarrow> chunk_of t ino k' = None) \<and>
    read_rows cs (off div cs) (off mod cs) n rows next (read_upto cs t ino off n next) =
    read_upto cs t ino off n k"
  using assms(2,4-)
proof (induction rows arbitrary: "next")
  case Nil
  have "\<forall>k' \<ge> next. k' \<le> hi \<longrightarrow> chunk_of t ino k' = None" using Nil.prems(4) by (metis empty_iff image_empty list.set(1))
  then show ?case by auto
next
  case (Cons r rows)
  obtain i d where r: "r = (i, d)" by fastforce
  define k where "k = nat i"
  have i: "int next \<le> i" "i \<le> int hi" "chunk_of t ino (nat i) = Some d" "length d \<le> cs"
    using Cons.prems(3) [of i d] r by auto
  then have k: "i = int k" "next \<le> k" "k \<le> hi" "chunk_of t ino k = Some d"
    by (auto simp: k_def)
  have u: "as_u64 i = k" using k assms(3) by simp
  have rest: "int k < j" if "j \<in> fst ` set rows" for j
    using Cons.prems(2) that r k by auto
  have gap: "chunk_of t ino m = None" if "next \<le> m" "m < k" for m
    using Cons.prems(4) [of m] rest [of "int m"] that k r by (cases "chunk_of t ino m") auto
  define skip where "skip = (if k = off div cs then off mod cs else 0)"
  have "skip < cs" using assms(1) by (simp add: skip_def)
  then have "read_chunk cs skip n d (read_upto cs t ino off n k) =
      read_upto cs t ino off n (k + 1)"
    using read_upto_step [OF assms(1), of off k t ino n] Cons.prems(1) k i(4)
    by (simp add: read_chunk_padded skip_def)
  moreover have "fill_gaps cs (off div cs) (off mod cs) n next k (read_upto cs t ino off n next) =
      read_upto cs t ino off n k"
    by (rule fill_gaps_read_upto [OF assms(1) Cons.prems(1) k(2) gap])
  moreover obtain m where "m \<ge> k + 1" and "(\<forall>k' \<ge> m. k' \<le> hi \<longrightarrow> chunk_of t ino k' = None)" and
      "read_rows cs (off div cs) (off mod cs) n rows (k + 1) (read_upto cs t ino off n (k + 1)) =
      read_upto cs t ino off n m"
  proof (rule exE [OF Cons.IH [of "k + 1"]])
    show "off div cs \<le> k + 1" using Cons.prems(1) k(2) by simp
    show "sorted_wrt (<) (map fst rows)" using Cons.prems(2) by simp
    show "int (k + 1) \<le> j \<and> j \<le> int hi \<and> chunk_of t ino (nat j) = Some e \<and> length e \<le> cs"
      if "(j, e) \<in> set rows" for j e
      using Cons.prems(3) [of j e] rest [of j] that by force
    show "int m \<in> fst ` set rows" if "k + 1 \<le> m" "m \<le> hi" "chunk_of t ino m \<noteq> None" for m
      using Cons.prems(4) [of m] that k r by auto
  qed blast
  ultimately show ?case
    using r u k(2) by (intro exI [of _ m]) (auto simp: Let_def skip_def)
qed

lemma read_upto_rest_zero:
  assumes "0 < cs" and "\<And>k'. k \<le> k' \<Longrightarrow> k' \<le> hi \<Longrightarrow> chunk_of t ino k' = None"
    and "off + n \<le> (hi + 1) * cs"
  shows "read_upto cs t ino off n k @ replicate (n - length (read_upto cs t ino off n k)) 0 =
    map (byte_at cs t ino) [off..<off + n]"
proof (rule nth_equalityI)
  fix j
  let ?r = "read_upto cs t ino off n k"
  assume "j < length (?r @ replicate (n - length ?r) 0)"
  then have j: "j < n" by (auto simp: min_def split: if_splits)
  show "(?r @ replicate (n - length ?r) 0) ! j = map (byte_at cs t ino) [off..<off + n] ! j"
  proof (cases "j < length ?r")
    case True
    then show ?thesis using j by (simp add: nth_append read_upto_def)
  next
    case False
    then have "k * cs \<le> off + j" using j by auto
    then have "k \<le> (off + j) div cs" using assms(1) by (simp add: less_eq_div_iff_mult_less_eq)
    moreover have "off + j < (hi + 1) * cs" using j assms(3) by linarith
    then have "(off + j) div cs \<le> hi" using assms(1) by (simp add: div_less_iff_less_mult flip: less_Suc_eq_le)
    ultimately show ?thesis
      using False j assms(2) [of "(off + j) div cs"] by (simp add: nth_append byte_at_def chunk_byte_def)
  qed
qed (auto simp: min_def)

lemma select_size_ready [run]:
  "ready c \<Longrightarrow> file_inv cs (tabs c) ino \<Longrightarrow> select_size ino c = (Inr (file_size (tabs c) ino), c)"
  by (auto simp: select_size_def run file_inv_def file_size_def split: option.splits)

lemma file_inv_facts:
  assumes "file_inv cs t ino"
  shows "0 < cs" "data_ok (fs_data t)" "inode_ok (fs_inode t)" "file_size t ino < 2 ^ 63"
    "chunks_within cs (fs_data t) ino (file_size t ino)"
  using assms by (auto simp: file_inv_def file_size_def split: option.splits)

lemma chunks_within_length:
  "chunks_within cs t ino sz \<Longrightarrow> chunk_of t ino k = Some d \<Longrightarrow> length d \<le> cs"
  by (fastforce simp: chunks_within_def chunk_of_def)

lemma chunks_within_end:
  "chunks_within cs t ino sz \<Longrightarrow> chunk_of t ino k = Some d \<Longrightarrow> d \<noteq> [] \<Longrightarrow>
    k * cs + length d \<le> sz"
  by (fastforce simp: chunks_within_def chunk_of_def)

lemma a_read_contents:
  "a_read off n (contents cs t ino) =
    map (byte_at cs (fs_data t) ino) [off..<off + min n (file_size t ino - off)]"
  by (rule nth_equalityI) (auto simp: a_read_def contents_def)

lemma rows_read:
  fixes t :: "data_row list"
  assumes "0 < cs" and "data_ok t" and "chunks_within cs t ino sz" and "off + n < 2 ^ 63"
  defines "hi \<equiv> (off + n - 1) div cs"
  shows "(let r = read_rows cs (off div cs) (off mod cs) n
            (select_chunks ino (int (off div cs)) (int hi) t) (off div cs) []
          in r @ replicate (n - length r) 0) = map (byte_at cs t ino) [off..<off + n]"
proof -
  let ?rows = "select_chunks ino (int (off div cs)) (int hi) t"
  have hi: "hi < 2 ^ 63"
    unfolding hi_def using assms(4) div_le_dividend [of "off + n - 1" cs] by linarith
  have len: "length d \<le> cs" if "chunk_of t ino k = Some d" for k d
    using chunks_within_length [OF assms(3) that] .
  have "\<exists>k \<ge> off div cs. (\<forall>k' \<ge> k. k' \<le> hi \<longrightarrow> chunk_of t ino k' = None) \<and>
      read_rows cs (off div cs) (off mod cs) n ?rows (off div cs)
        (read_upto cs t ino off n (off div cs)) = read_upto cs t ino off n k"
  proof (rule read_rows_read_upto [OF assms(1) order_refl hi select_chunks_rows(1) [OF assms(2)]])
    show "int (off div cs) \<le> i \<and> i \<le> int hi \<and> chunk_of t ino (nat i) = Some d \<and> length d \<le> cs"
      if "(i, d) \<in> set ?rows" for i d
      using that len [of "nat i" d] unfolding select_chunks_rows(2) [OF assms(2)]
      by (simp add: chunk_of_def)
    show "int k \<in> fst ` set ?rows"
      if "off div cs \<le> k" "k \<le> hi" "chunk_of t ino k \<noteq> None" for k
      using that unfolding select_chunks_rows(2) [OF assms(2)]
      by (force simp: chunk_of_def)
  qed
  then obtain k where none: "\<And>k'. k \<le> k' \<Longrightarrow> k' \<le> hi \<Longrightarrow> chunk_of t ino k' = None"
    and read: "read_rows cs (off div cs) (off mod cs) n ?rows (off div cs) [] =
      read_upto cs t ino off n k"
    using read_upto_start [OF assms(1)] by auto
  have "off + n \<le> (hi + 1) * cs"
    using le_Suc_div_mult [OF assms(1), of "off + n - 1"] by (simp add: hi_def)
  from read_upto_rest_zero [OF assms(1) none this] read show ?thesis
    by (simp add: Let_def)
qed

text \<open>Reading is the array read: short at the end of the file, zero in holes.\<close>

lemma pread_ready:
  assumes "ready c" and inv: "file_inv (f_chunk_size f) (tabs c) (f_ino f)"
  shows "pread f off n c = (Inr (a_read off n (contents (f_chunk_size f) (tabs c) (f_ino f))), c)"
proof -
  let ?S = "file_size (tabs c) (f_ino f)" and ?cs = "f_chunk_size f"
  note fi = file_inv_facts [OF inv]
  show ?thesis
  proof (cases "?S \<le> off")
    case True
    then show ?thesis
      using assms by (simp add: pread_def run a_read_contents)
  next
    case False
    define m where "m = min n (?S - off)"
    have m: "off + m < 2 ^ 63" "off + m \<le> ?S" using False fi(4) by (auto simp: m_def)
    have small: "off div ?cs < 2 ^ 63" "(off + m - 1) div ?cs < 2 ^ 63"
      using m(1) div_le_dividend [of off ?cs] div_le_dividend [of "off + m - 1" ?cs] by linarith+
    have pad: "(if length r < k then r @ replicate (k - length r) 0 else r) =
        r @ replicate (k - length r) 0" for r :: bytes and k
      by simp
    show ?thesis
      using rows_read [OF fi(1,2,5) m(1)] assms False m fi(1) small
      by (simp add: pread_def run a_read_contents Let_def pad flip: m_def)
  qed
qed

subsection \<open>Writing chunks\<close>

lemma length_splice [simp]:
  "length (splice q piece old) = max (length old) (q + length piece)"
  by (auto simp: splice_def Let_def)

lemma splice_byte:
  "chunk_byte (Some (splice q piece old)) i =
    (if q \<le> i \<and> i < q + length piece then piece ! (i - q) else chunk_byte (Some old) i)"
proof -
  have "min (length old) q + (q - length old) = q" by simp
  then show ?thesis by (auto simp: splice_def Let_def chunk_byte_def nth_append)
qed

lemma splice_whole: "length old \<le> length piece \<Longrightarrow> splice 0 piece old = piece"
  by (simp add: splice_def)

lemma chunk_byte_None: "chunk_byte None i = chunk_byte (Some []) i"
  by (simp add: chunk_byte_def)

text \<open>Overwriting one piece of one chunk, seen in the array.\<close>

lemma byte_at_splice:
  assumes "0 < cs" and "p mod cs + length piece \<le> cs"
    and "look b_key t' = (look b_key t)((ino, int (p div cs)) \<mapsto> b)"
    and "b_data b = splice (p mod cs) piece (case chunk_of t ino (p div cs) of None \<Rightarrow> [] | Some d \<Rightarrow> d)"
  shows "byte_at cs t' ino pos =
    (if p \<le> pos \<and> pos < p + length piece then piece ! (pos - p) else byte_at cs t ino pos)"
proof (cases "pos div cs = p div cs")
  case True
  have "pos = p div cs * cs + pos mod cs" "p = p div cs * cs + p mod cs"
    using div_mult_mod_eq [of pos cs] True by simp_all
  then have "p \<le> pos \<longleftrightarrow> p mod cs \<le> pos mod cs" "pos - p = pos mod cs - p mod cs"
    "pos < p + length piece \<longleftrightarrow> pos mod cs < p mod cs + length piece"
    by linarith+
  then show ?thesis
    using True assms(3,4)
    by (simp add: byte_at_def chunk_of_def splice_byte chunk_byte_None split: option.splits)
next
  case False
  have "\<not> (p \<le> pos \<and> pos < p + length piece)"
  proof
    assume a: "p \<le> pos \<and> pos < p + length piece"
    then have "p div cs \<le> pos div cs" by (simp add: div_le_mono)
    moreover have "pos < (p div cs + 1) * cs"
      unfolding add_mult_distrib using a assms(2) div_mult_mod_eq [of p cs] by linarith
    then have "pos div cs < p div cs + 1" using assms(1) by (simp add: div_less_iff_less_mult)
    ultimately show False using False by simp
  qed
  then show ?thesis using False assms(3) by (auto simp: byte_at_def chunk_of_def)
qed

lemma chunks_within_upd:
  assumes "chunks_within cs t ino S" and "data_ok t" and "data_ok t'"
    and "look b_key t' = (look b_key t)((ino, int k) \<mapsto> b)"
    and "length (b_data b) \<le> cs" and "k * cs + length (b_data b) \<le> S'" and "S \<le> S'"
  shows "chunks_within cs t' ino S'"
proof -
  have "x = b \<and> b_index b = int k \<or> x \<in> set t" if "x \<in> set t'" for x
  proof -
    have "look b_key t' (b_key x) = Some x"
      using look_Some_iff [of b_key t'] assms(3) that by (simp add: data_ok_def)
    then show ?thesis
      unfolding assms(4) using look_Some_iff [of b_key t] assms(2)
      by (auto simp: data_ok_def fun_upd_apply split: if_splits)
  qed
  then show ?thesis using assms(1,5-) by (fastforce simp: chunks_within_def)
qed

text \<open>One turn of the write loop is one spliced chunk.\<close>

lemma write_turn:
  fixes c :: "'z conn_scheme"
  assumes "ready c" and ok: "data_ok (fs_data (tabs c))"
    and cs: "f_chunk_size f = cs" "0 < cs" and ino: "f_ino f = ino"
    and w: "w < length data" and small: "off + length data < 2 ^ 63"
    and win: "chunks_within cs (fs_data (tabs c)) ino S"
  obtains k t chs piece where
    "write_data_at_offset f off data w c = write_data_at_offset f off data (w + k) (put_data chs t c)"
    and "0 < k" and "w + k \<le> length data" and "data_ok t"
    and "piece = take k (drop w data)"
    and "\<forall>pos. byte_at cs t ino pos = (if off + w \<le> pos \<and> pos < off + w + k
          then piece ! (pos - (off + w)) else byte_at cs (fs_data (tabs c)) ino pos)"
    and "\<forall>i. fst i \<noteq> ino \<longrightarrow> look b_key t i = look b_key (fs_data (tabs c)) i"
    and "chunks_within cs t ino (max S (off + length data))"
proof -
  define p where "p = off + w"
  define k where "k = min (cs - p mod cs) (length data - w)"
  define piece where "piece = take k (drop w data)"
  let ?t0 = "fs_data (tabs c)"
  let ?old = "case chunk_of ?t0 ino (p div cs) of None \<Rightarrow> [] | Some d \<Rightarrow> d"
  define b where "b = \<lparr>b_ino = ino, b_index = int (p div cs), b_data = splice (p mod cs) piece ?old\<rparr>"
  have m: "p mod cs < cs" using cs by simp
  have p: "p < 2 ^ 63" "u64_add off w = p" using w small by (auto simp: p_def)
  have pi: "as_i64 (p div cs) = int (p div cs)"
    using p(1) div_le_dividend [of p cs] by (intro as_i64_small) linarith
  have kpos: "0 < k" "w + k \<le> length data" "length piece = k" "p mod cs + k \<le> cs"
    using m w by (auto simp: k_def piece_def)
  have old: "length ?old \<le> cs"
    using chunks_within_length [OF win] by (auto split: option.splits)
  have whole: "splice (p mod cs) piece ?old = piece" if "k = cs"
    using that kpos old m by (simp add: splice_whole)
  obtain n t chs where up: "upsert_data b c = (Inr n, put_data chs t c)" and "data_ok t"
    and look: "look b_key t = (look b_key ?t0)(b_key b \<mapsto> b)"
    by (rule upsert_data_ready [OF assms(1) ok])
  have look': "look b_key t = (look b_key ?t0)((ino, int (p div cs)) \<mapsto> b)"
    using look by (simp add: b_def)
  have bytes: "byte_at cs t ino pos = (if p \<le> pos \<and> pos < p + length piece
      then piece ! (pos - p) else byte_at cs ?t0 ino pos)" for pos
    by (rule byte_at_splice [OF cs(2) _ look']) (simp_all add: b_def kpos)
  have row: "(case look b_key ?t0 (ino, int (p div cs)) of None \<Rightarrow> [] | Some b \<Rightarrow> b_data b) = ?old"
    by (simp add: chunk_of_def split: option.splits)
  have "write_data_at_offset f off data w c =
      write_data_at_offset f off data (w + k) (put_data chs t c)"
  proof (cases "k = cs")
    case True
    then have "upsert_data \<lparr>b_ino = ino, b_index = int (p div cs), b_data = take cs (drop w data)\<rparr> c =
        (Inr n, put_data chs t c)"
      using up whole by (simp add: b_def piece_def)
    then show ?thesis
      using w cs ino p pi True assms(1)
      by (subst write_data_at_offset.simps) (simp add: Let_def run flip: k_def)
  next
    case False
    then show ?thesis
      using w cs ino p pi up row assms(1)
      by (subst write_data_at_offset.simps) (simp add: Let_def run b_def flip: k_def piece_def)
  qed
  moreover have "chunks_within cs t ino (max S (off + length data))"
  proof (rule chunks_within_upd [OF win ok \<open>data_ok t\<close> look'])
    show "length (b_data b) \<le> cs" using old kpos by (simp add: b_def)
    show "p div cs * cs + length (b_data b) \<le> max S (off + length data)"
    proof -
      have "length ?old = 0 \<or> p div cs * cs + length ?old \<le> S"
        using chunks_within_end [OF win, of "p div cs"] by (auto split: option.splits)
      moreover have "p div cs * cs + (p mod cs + length piece) \<le> off + length data"
        using kpos div_mult_mod_eq [of p cs] by (simp add: p_def)
      ultimately show ?thesis by (auto simp: b_def max_def)
    qed
  qed simp
  ultimately show ?thesis
    using that kpos \<open>data_ok t\<close> bytes look' piece_def by (simp add: p_def)
qed

lemma write_loop:
  fixes c :: "'z conn_scheme"
  assumes "ready c" and "data_ok (fs_data (tabs c))"
    and cs: "f_chunk_size f = cs" "0 < cs" and ino: "f_ino f = ino"
    and "w \<le> length data" and small: "off + length data < 2 ^ 63"
    and "chunks_within cs (fs_data (tabs c)) ino S"
  shows "\<exists>t chs. write_data_at_offset f off data w c = (Inr (), put_data chs t c) \<and> data_ok t \<and>
    (\<forall>pos. byte_at cs t ino pos = (if off + w \<le> pos \<and> pos < off + length data
          then data ! (pos - off) else byte_at cs (fs_data (tabs c)) ino pos)) \<and>
    (\<forall>i. fst i \<noteq> ino \<longrightarrow> look b_key t i = look b_key (fs_data (tabs c)) i) \<and>
    chunks_within cs t ino (if w < length data then max S (off + length data) else S)"
  using assms(1,2,6,8)
proof (induction "length data - w" arbitrary: w c S rule: less_induct)
  case less
  show ?case
  proof (cases "w < length data")
    case False
    have "put_data [] (fs_data (tabs c)) c = c"
      by (simp add: journalled_write_def capture_def split: option.split)
    then have "write_data_at_offset f off data w c = (Inr (), put_data [] (fs_data (tabs c)) c)"
      using False by (subst write_data_at_offset.simps) simp
    then show ?thesis using False less.prems(2,4) by (intro exI conjI) auto
  next
    case True
    obtain k t chs piece where
      run: "write_data_at_offset f off data w c =
        write_data_at_offset f off data (w + k) (put_data chs t c)"
      and k: "0 < k" "w + k \<le> length data" and "data_ok t" and piece: "piece = take k (drop w data)"
      and bytes: "\<forall>pos. byte_at cs t ino pos = (if off + w \<le> pos \<and> pos < off + w + k
          then piece ! (pos - (off + w)) else byte_at cs (fs_data (tabs c)) ino pos)"
      and frame: "\<forall>i. fst i \<noteq> ino \<longrightarrow> look b_key t i = look b_key (fs_data (tabs c)) i"
      and win: "chunks_within cs t ino (max S (off + length data))"
      by (rule write_turn [OF less.prems(1,2) cs ino True small less.prems(4)]) (rule that)
    have dec: "length data - (w + k) < length data - w" using k True by linarith
    obtain u ds where
      rest: "write_data_at_offset f off data (w + k) (put_data chs t c) = (Inr (), put_data (chs @ ds) u c)"
      and "data_ok u"
      and bytes': "\<And>pos. byte_at cs u ino pos = (if off + (w + k) \<le> pos \<and> pos < off + length data
          then data ! (pos - off) else byte_at cs t ino pos)"
      and frame': "\<And>i. fst i \<noteq> ino \<Longrightarrow> look b_key u i = look b_key t i"
      and win': "chunks_within cs u ino (max S (off + length data))"
      using less.hyps [OF dec, of "put_data chs t c" "max S (off + length data)"]
        less.prems(1) k(2) \<open>data_ok t\<close> win
      by (simp only: journalled_write_conn put_data_sel put_data_put_data max.assoc max.idem if_cancel simp_thms)
        blast
    have "byte_at cs u ino pos = (if off + w \<le> pos \<and> pos < off + length data
          then data ! (pos - off) else byte_at cs (fs_data (tabs c)) ino pos)" for pos
      using k spec [OF bytes, of pos] bytes' [of pos] by (auto simp: piece)
    then show ?thesis
      using run rest \<open>data_ok u\<close> frame frame' win' True by (intro exI [of _ u] exI [of _ "chs @ ds"]) simp
  qed
qed

subsection \<open>pwrite refines writing the array\<close>

lemma a_write_nth:
  assumes "ds \<noteq> []"
  shows "length (a_write off ds xs) = max (length xs) (off + length ds)"
    and "i < max (length xs) (off + length ds) \<Longrightarrow>
      a_write off ds xs ! i =
        (if off \<le> i \<and> i < off + length ds then ds ! (i - off)
         else if i < length xs then xs ! i else 0)"
proof -
  have e: "min (length xs) off + (off - length xs) = off" by simp
  show "length (a_write off ds xs) = max (length xs) (off + length ds)"
    by (auto simp: a_write_def)
  show "a_write off ds xs ! i =
        (if off \<le> i \<and> i < off + length ds then ds ! (i - off)
         else if i < length xs then xs ! i else 0)"
    if "i < max (length xs) (off + length ds)"
    using that e by (auto simp: a_write_def nth_append)
qed

text \<open>No byte is stored at or after the end of the file.\<close>

lemma byte_beyond:
  assumes "0 < cs" and "chunks_within cs t ino S" and "S \<le> pos"
  shows "byte_at cs t ino pos = 0"
proof (cases "chunk_of t ino (pos div cs)")
  case (Some d)
  have "\<not> pos mod cs < length d"
  proof
    assume "pos mod cs < length d"
    then show False
      using chunks_within_end [OF assms(2) Some] div_mult_mod_eq [of pos cs] assms(3)
      by (cases "d = []", simp, linarith)
  qed
  then show ?thesis using Some by (simp add: byte_at_def chunk_byte_def)
qed (simp add: byte_at_def chunk_byte_def)

lemma contents_cong:
  assumes "\<And>k. look b_key (fs_data t') (ino, k) = look b_key (fs_data t) (ino, k)"
    and "look i_ino (fs_inode t') ino = look i_ino (fs_inode t) ino"
  shows "contents cs t' ino = contents cs t ino"
  by (simp add: contents_def file_size_def byte_at_def chunk_of_def assms)

text \<open>The rows of the inode table after a single-row update.\<close>

lemma look_update_inode [table_simps]:
  "(\<And>r. i_ino (g r) = i_ino r) \<Longrightarrow>
    look i_ino (map (\<lambda>r. if i_ino r = ino then g r else r) t) =
    (look i_ino t)(ino := map_option g (look i_ino t ino))"
  by (rule look_map_key) simp

lemma pwrite_ready:
  assumes rd: "ready c" "txn_state c = NoTxn"
    and inv: "file_inv cs (tabs c) ino" and f: "f = \<lparr>f_ino = ino, f_chunk_size = cs\<rparr>"
    and data: "data \<noteq> []" "off + length data < 2 ^ 63"
  obtains c' where "pwrite (Some (secs, nsec)) f off data c = (Inr (), c')"
    and "ready c'" and "txn_state c' = NoTxn"
    and "contents cs (tabs c') ino = a_write off data (contents cs (tabs c) ino)"
    and "file_inv cs (tabs c') ino"
    and "\<forall>j. j \<noteq> ino \<longrightarrow> contents cs (tabs c') j = contents cs (tabs c) j \<and>
           look i_ino (fs_inode (tabs c')) j = look i_ino (fs_inode (tabs c)) j"
    and "fs_dentry (tabs c') = fs_dentry (tabs c)"
proof -
  note fi = file_inv_facts [OF inv]
  let ?S = "file_size (tabs c) ino"
  let ?S' = "max ?S (off + length data)"
  let ?c1 = "c\<lparr>txn_state := Active (tabs c)\<rparr>"
  let ?g = "\<lambda>r. r\<lparr>i_size := int ?S', i_mtime := secs, i_mtime_nsec := nsec\<rparr>"
  have r1: "ready ?c1" using rd by simp
  obtain t chs where
    wr: "write_data_at_offset f off data 0 ?c1 = (Inr (), put_data chs t ?c1)" and "data_ok t"
    and bytes: "\<forall>pos. byte_at cs t ino pos = (if off + 0 \<le> pos \<and> pos < off + length data
          then data ! (pos - off) else byte_at cs (fs_data (tabs ?c1)) ino pos)"
    and frame: "\<forall>i. fst i \<noteq> ino \<longrightarrow> look b_key t i = look b_key (fs_data (tabs ?c1)) i"
    and win: "chunks_within cs t ino ?S'"
    using write_loop [of ?c1 f cs ino 0 data off ?S] r1 fi f data by auto
  let ?c2 = "put_data chs t ?c1"
  let ?it = "map (\<lambda>r. if i_ino r = ino then ?g r else r) (fs_inode (tabs c))"
  let ?ich = "map Updated (filter (\<lambda>r. i_ino r = ino) (fs_inode (tabs c)))"
  let ?c' = "end_kept (put_inode ?ich ?it ?c2)"
  have size: "as_i64 ?S' = int ?S'" using fi(4) data by (intro as_i64_small) simp
  have "pwrite (Some (secs, nsec)) f off data c = (Inr (), ?c')"
    using rd r1 data f wr inv fi size by (simp add: pwrite_def run)
  moreover have look: "look i_ino ?it = (look i_ino (fs_inode (tabs c)))
      (ino := map_option ?g (look i_ino (fs_inode (tabs c)) ino))"
    by (rule look_update_inode) simp
  moreover have S': "file_size (tabs ?c') ino = ?S'"
    using look inv by (auto simp: file_size_def file_inv_def split: option.splits)
  moreover have "file_inv cs (tabs ?c') ino"
    using inv win \<open>data_ok t\<close> look fi data
    by (auto simp: file_inv_def inode_ok_update file_size_def split: option.splits)
  moreover have "contents cs (tabs ?c') ino = a_write off data (contents cs (tabs c) ino)"
  proof (rule nth_equalityI)
    fix i
    assume "i < length (contents cs (tabs ?c') ino)"
    then have "i < ?S'" using S' by simp
    then show "contents cs (tabs ?c') ino ! i = a_write off data (contents cs (tabs c) ino) ! i"
      using bytes S' a_write_nth(2) [OF data(1), of i "contents cs (tabs c) ino" off]
        byte_beyond [OF fi(1,5), of i]
      by (auto simp: contents_def)
  qed (use S' in \<open>simp add: a_write_nth(1) [OF data(1)]\<close>)
  moreover have "contents cs (tabs ?c') j = contents cs (tabs c) j" if "j \<noteq> ino" for j
    using that frame look by (intro contents_cong) auto
  ultimately show ?thesis using that rd by (simp add: ready_def)
qed

subsection \<open>truncate refines resizing the array\<close>

text \<open>
  \<open>cut_at cs n ino m\<close>: the chunk map \<open>m\<close> without what lies at or beyond byte \<open>n\<close> of the file
  \<open>ino\<close>; the last chunk that stays is shortened.
\<close>

definition cut_at ::
  "nat \<Rightarrow> nat \<Rightarrow> i64 \<Rightarrow> (i64 \<times> i64 \<Rightarrow> data_row option) \<Rightarrow> i64 \<times> i64 \<Rightarrow> data_row option" where
  "cut_at cs n ino m = (\<lambda>(j, i).
    if j = ino then
      if int ((n - 1) div cs) < i then None
      else if i = int ((n - 1) div cs)
      then map_option (b_data_update (take (n - (n - 1) div cs * cs))) (m (j, i))
      else m (j, i)
    else m (j, i))"

lemma last_chunk:
  fixes n cs :: nat
  assumes "0 < n" and "0 < cs"
  shows "(n - 1) div cs * cs < n" and "n \<le> (n - 1) div cs * cs + cs"
    and "0 < n mod cs \<Longrightarrow> n - (n - 1) div cs * cs = n mod cs"
    and "n mod cs = 0 \<Longrightarrow> n - (n - 1) div cs * cs = cs"
proof -
  obtain m where m: "n = Suc m" using assms(1) by (cases n) auto
  have d: "m div cs * cs + m mod cs = m" by simp
  have lt: "m mod cs < cs" using assms(2) by simp
  show "(n - 1) div cs * cs < n" "n \<le> (n - 1) div cs * cs + cs"
    unfolding m diff_Suc_1 using d lt by linarith+
  show "n - (n - 1) div cs * cs = n mod cs" if "0 < n mod cs"
  proof -
    have "n div cs = (n - 1) div cs" using that m by (simp add: div_Suc)
    then show ?thesis using minus_div_mult_eq_mod [of n cs] by simp
  qed
  show "n - (n - 1) div cs * cs = cs" if "n mod cs = 0"
  proof -
    have "n = n div cs * cs" using that by (metis add.right_neutral div_mult_mod_eq)
    moreover have "n div cs = Suc ((n - 1) div cs)" using that m by (simp add: div_Suc)
    ultimately show ?thesis by (metis add_diff_cancel_right' mult_Suc)
  qed
qed

lemma cut_bytes:
  assumes "0 < n" "0 < cs" and "look b_key t' = cut_at cs n ino (look b_key t)" and "pos < n"
  shows "byte_at cs t' ino pos = byte_at cs t ino pos"
proof -
  let ?l = "(n - 1) div cs"
  have le: "pos div cs \<le> ?l" using assms(4) by (intro div_le_mono) simp
  have "pos mod cs < n - ?l * cs" if "pos div cs = ?l"
    using that assms(4) div_mult_mod_eq [of pos cs] last_chunk(1) [OF assms(1,2)] by simp
  then show ?thesis
    using le assms(3)
    by (auto simp: byte_at_def chunk_of_def cut_at_def chunk_byte_def option.map_comp
        split: option.splits)
qed

lemma cut_within:
  assumes "0 < n" "0 < cs" and "look b_key t' = cut_at cs n ino (look b_key t)"
    and "data_ok t" "data_ok t'" and "chunks_within cs t ino S"
  shows "chunks_within cs t' ino n"
  unfolding chunks_within_def
proof (intro ballI impI)
  fix b
  assume b: "b \<in> set t'" "b_ino b = ino"
  let ?l = "(n - 1) div cs"
  have lb: "look b_key t' (b_key b) = Some b"
    using look_Some_iff [of b_key t'] assms(5) b by (simp add: data_ok_def)
  then obtain a where a: "look b_key t (b_key b) = Some a" "length (b_data b) \<le> length (b_data a)"
    "b_index b \<le> int ?l" "b_index b = int ?l \<Longrightarrow> length (b_data b) \<le> n - ?l * cs"
    unfolding assms(3) using b(2) by (auto simp: cut_at_def split: if_splits)
  then have k: "0 \<le> b_index b" "length (b_data b) \<le> cs"
    using assms(6) b(2) by (auto simp: chunks_within_def dest!: look_Some_key) (force)?
  have "nat (b_index b) * cs + length (b_data b) \<le> n"
  proof (cases "b_index b = int ?l")
    case True
    then show ?thesis using a(4) last_chunk(1) [OF assms(1,2)] by simp
  next
    case False
    then have "nat (b_index b) + 1 \<le> ?l" using a(3) k(1) by linarith
    then have "(nat (b_index b) + 1) * cs \<le> ?l * cs" by (rule mult_le_mono1)
    then show ?thesis using k(2) last_chunk(1) [OF assms(1,2)] by simp
  qed
  then show "0 \<le> b_index b \<and> length (b_data b) \<le> cs \<and>
      (b_data b \<noteq> [] \<longrightarrow> nat (b_index b) * cs + length (b_data b) \<le> n)"
    using k by simp
qed

lemma truncate_chunks_shrink:
  fixes c :: "'z conn_scheme"
  assumes "ready c" and ok: "data_ok (fs_data (tabs c))"
    and f: "f = \<lparr>f_ino = ino, f_chunk_size = cs\<rparr>" and n: "0 < n" "0 < cs" "n < S" "n < 2 ^ 63"
    and win: "chunks_within cs (fs_data (tabs c)) ino S"
  obtains t chs where "truncate_chunks f S n c = (Inr (), put_data chs t c)" and "data_ok t"
    and "look b_key t = cut_at cs n ino (look b_key (fs_data (tabs c)))"
proof -
  let ?t0 = "fs_data (tabs c)"
  define l where "l = int ((n - 1) div cs)"
  let ?p = "\<lambda>b. b_ino b = ino \<and> l < b_index b"
  define t1 where "t1 = filter (\<lambda>b. \<not> ?p b) ?t0"
  define g :: "data_row \<Rightarrow> data_row" where "g = b_data_update (take (n - (n - 1) div cs * cs))"
  let ?c1 = "put_data (map Deleted (filter ?p ?t0)) t1 c"
  have li: "as_i64 ((n - 1) div cs) = l"
    unfolding l_def using n div_le_dividend [of "n - 1" cs] by (intro as_i64_small) linarith
  have dk: "distinct (map b_key ?t0)" using ok by (simp add: data_ok_def)
  have ok1: "data_ok t1" using dk by (simp add: data_ok_def t1_def distinct_map_filter)
  have look1: "look b_key t1 (j, i) = (if j = ino \<and> l < i then None else look b_key ?t0 (j, i))" for j i
    using dk by (auto simp: t1_def look_filter split: option.splits dest!: look_Some_key)
  have cut: "look b_key t = cut_at cs n ino (look b_key ?t0)"
    if "look b_key t = (look b_key t1)((ino, l) := map_option g (look b_key t1 (ino, l)))" for t
    unfolding that cut_at_def l_def [symmetric] g_def [symmetric]
    by (intro ext) (auto simp: look1 split: if_splits)
  have del: "delete_data ?p c = (Inr (length (filter ?p ?t0)), ?c1)"
    using assms(1) by (simp add: run t1_def)
  show ?thesis
  proof (cases "0 < n mod cs \<and> (\<exists>b. look b_key ?t0 (ino, l) = Some b \<and> n mod cs < length (b_data b))")
    case True
    then obtain b where b: "look b_key ?t0 (ino, l) = Some b" "n mod cs < length (b_data b)" by blast
    have upd: "b_data_update (take m) b = b\<lparr>b_data := take m (b_data b)\<rparr>" for m by (cases b) simp
    let ?t2 = "map (\<lambda>r. if b_key r = (ino, l) then r\<lparr>b_data := take (n mod cs) (b_data b)\<rparr> else r) t1"
    let ?c2 = "put_data (map Updated (filter (\<lambda>r. b_key r = (ino, l)) t1)) ?t2 ?c1"
    have "update_data (\<lambda>r. b_key r = (ino, l)) (\<lambda>r. r\<lparr>b_data := take (n mod cs) (b_data b)\<rparr>) ?c1 =
        (Inr (length (filter (\<lambda>r. b_key r = (ino, l)) t1)), ?c2)"
      using assms(1) ok1 by (subst update_data_ready) (simp_all del: prod.inject)
    then have "truncate_chunks f S n c = (Inr (), ?c2)"
      using assms(1) n f li True b del look1 by (simp add: truncate_chunks_def Let_def run del: put_data_put_data)
    moreover have "look b_key ?t2 = (look b_key t1)((ino, l) := map_option g (look b_key t1 (ino, l)))"
      using look_map_key [of b_key "(ino, l)" "\<lambda>r. r\<lparr>b_data := take (n mod cs) (b_data b)\<rparr>" t1]
        b(1) look1 last_chunk(3) [OF n(1,2)] True by (simp add: g_def upd)
    moreover have "data_ok ?t2" by (rule data_ok_update [OF ok1]) simp
    ultimately show ?thesis using that cut by simp
  next
    case False
    have "truncate_chunks f S n c = (Inr (), ?c1)"
      using assms(1) n f li del False look1
      by (auto simp: truncate_chunks_def Let_def run split: option.splits)
    moreover have "map_option g (look b_key t1 (ino, l)) = look b_key t1 (ino, l)"
    proof (cases "look b_key ?t0 (ino, l)")
      case (Some b)
      then have "length (b_data b) \<le> cs"
        using win by (auto simp: chunks_within_def dest!: look_Some_key)
      then have "length (b_data b) \<le> n - (n - 1) div cs * cs"
        using False Some last_chunk(3,4) [OF n(1,2)] by (cases "n mod cs = 0") auto
      then show ?thesis using Some look1 by (simp add: g_def)
    qed (simp add: look1)
    ultimately show ?thesis using that ok1 cut by (simp add: fun_upd_idem)
  qed
qed

text \<open>The three branches of the truncation, as one effect on the chunk table.\<close>

lemma truncate_chunks_ready:
  fixes c :: "'z conn_scheme"
  assumes "ready c" and ok: "data_ok (fs_data (tabs c))"
    and f: "f = \<lparr>f_ino = ino, f_chunk_size = cs\<rparr>" and n: "0 < cs" "n < 2 ^ 63"
    and win: "chunks_within cs (fs_data (tabs c)) ino S"
  obtains t chs where "truncate_chunks f S n c = (Inr (), put_data chs t c)" and "data_ok t"
    and "\<forall>pos < min n S. byte_at cs t ino pos = byte_at cs (fs_data (tabs c)) ino pos"
    and "\<forall>i. fst i \<noteq> ino \<longrightarrow> look b_key t i = look b_key (fs_data (tabs c)) i"
    and "chunks_within cs t ino (min n S)"
proof -
  let ?t0 = "fs_data (tabs c)"
  consider "n = 0" | "0 < n" "n < S" | "0 < n" "S \<le> n" by linarith
  then show ?thesis
  proof cases
    case 1
    let ?u = "filter (\<lambda>b. b_ino b \<noteq> ino) ?t0"
    have "data_ok ?u" using ok by (simp add: data_ok_def distinct_map_filter)
    moreover have "\<forall>i. fst i \<noteq> ino \<longrightarrow> look b_key ?u i = look b_key ?t0 i"
      using ok by (auto simp: data_ok_def look_filter split: option.splits dest!: look_Some_key)
    moreover have "chunks_within cs ?u ino (min n S)" by (auto simp: chunks_within_def)
    moreover have "truncate_chunks f S n c =
        (Inr (), put_data (map Deleted (filter (\<lambda>b. b_ino b = ino) ?t0)) ?u c)"
      using 1 assms(1) f by (simp add: truncate_chunks_def run)
    moreover have "\<forall>pos < min n S. byte_at cs ?u ino pos = byte_at cs ?t0 ino pos" using 1 by simp
    ultimately show ?thesis using that by blast
  next
    case 2
    obtain t chs where t: "truncate_chunks f S n c = (Inr (), put_data chs t c)" "data_ok t"
      "look b_key t = cut_at cs n ino (look b_key ?t0)"
      by (rule truncate_chunks_shrink [OF assms(1,2) f 2(1) n(1) 2(2) n(2) win])
    have "look b_key t i = look b_key ?t0 i" if "fst i \<noteq> ino" for i
      using that by (cases i) (simp add: t(3) cut_at_def)
    moreover have "chunks_within cs t ino (min n S)"
      using cut_within [OF 2(1) n(1) t(3) ok t(2) win] 2 by simp
    ultimately show ?thesis
      using that [OF t(1,2)] cut_bytes [OF 2(1) n(1) t(3)] by simp
  next
    case 3
    have "put_data [] ?t0 c = c"
      by (simp add: journalled_write_def capture_def split: option.split)
    then have "truncate_chunks f S n c = (Inr (), put_data [] ?t0 c)"
      using 3 by (simp add: truncate_chunks_def)
    then show ?thesis using that ok win 3 by (simp add: min_def split: if_splits)
  qed
qed

lemma chunks_within_mono: "chunks_within cs t ino S \<Longrightarrow> S \<le> S' \<Longrightarrow> chunks_within cs t ino S'"
  by (fastforce simp: chunks_within_def)

lemma truncate_ready:
  assumes rd: "ready c" "txn_state c = NoTxn"
    and inv: "file_inv cs (tabs c) ino" and f: "f = \<lparr>f_ino = ino, f_chunk_size = cs\<rparr>"
    and n: "n < 2 ^ 63"
  obtains c' where "truncate (Some (secs, nsec)) f n c = (Inr (), c')"
    and "ready c'" and "txn_state c' = NoTxn"
    and "contents cs (tabs c') ino = a_truncate n (contents cs (tabs c) ino)"
    and "file_inv cs (tabs c') ino"
    and "\<forall>j. j \<noteq> ino \<longrightarrow> contents cs (tabs c') j = contents cs (tabs c) j \<and>
           look i_ino (fs_inode (tabs c')) j = look i_ino (fs_inode (tabs c)) j"
    and "fs_dentry (tabs c') = fs_dentry (tabs c)"
proof -
  note fi = file_inv_facts [OF inv]
  let ?S = "file_size (tabs c) ino"
  let ?c1 = "c\<lparr>txn_state := Active (tabs c)\<rparr>"
  let ?g = "\<lambda>r. r\<lparr>i_size := int n, i_mtime := secs, i_ctime := secs,
                  i_mtime_nsec := nsec, i_ctime_nsec := nsec\<rparr>"
  have r1: "ready ?c1" using rd by simp
  obtain t chs where
    tr: "truncate_chunks f ?S n ?c1 = (Inr (), put_data chs t ?c1)" and "data_ok t"
    and bytes: "\<forall>pos < min n ?S. byte_at cs t ino pos = byte_at cs (fs_data (tabs ?c1)) ino pos"
    and frame: "\<forall>i. fst i \<noteq> ino \<longrightarrow> look b_key t i = look b_key (fs_data (tabs ?c1)) i"
    and win: "chunks_within cs t ino (min n ?S)"
    by (rule truncate_chunks_ready [of ?c1 f ino cs n ?S]) (use r1 f fi n in auto)
  let ?c2 = "put_data chs t ?c1"
  let ?it = "map (\<lambda>r. if i_ino r = ino then ?g r else r) (fs_inode (tabs c))"
  let ?ich = "map Updated (filter (\<lambda>r. i_ino r = ino) (fs_inode (tabs c)))"
  let ?c' = "end_kept (put_inode ?ich ?it ?c2)"
  have "truncate (Some (secs, nsec)) f n c = (Inr (), ?c')"
    using rd r1 f tr inv fi n by (simp add: truncate_def truncate_body_def transact_def run)
  moreover have look: "look i_ino ?it = (look i_ino (fs_inode (tabs c)))
      (ino := map_option ?g (look i_ino (fs_inode (tabs c)) ino))"
    by (rule look_update_inode) simp
  moreover have S': "file_size (tabs ?c') ino = n"
    using look inv by (auto simp: file_size_def file_inv_def split: option.splits)
  moreover have "file_inv cs (tabs ?c') ino"
    using inv chunks_within_mono [OF win] \<open>data_ok t\<close> look fi n
    by (auto simp: file_inv_def inode_ok_update split: option.splits)
  moreover have "contents cs (tabs ?c') ino = a_truncate n (contents cs (tabs c) ino)"
  proof (rule nth_equalityI)
    fix i
    assume "i < length (contents cs (tabs ?c') ino)"
    then have "i < n" using S' by simp
    then show "contents cs (tabs ?c') ino ! i = a_truncate n (contents cs (tabs c) ino) ! i"
      using bytes S' byte_beyond [OF fi(1) win, of i]
      by (auto simp: contents_def a_truncate_def nth_append)
  qed (use S' in \<open>simp add: a_truncate_def\<close>)
  moreover have "contents cs (tabs ?c') j = contents cs (tabs c) j" if "j \<noteq> ino" for j
    using that frame look by (intro contents_cong) auto
  ultimately show ?thesis using that rd by (simp add: ready_def)
qed

section \<open>Properties of the file handle\<close>

lemma sample_file_inv [simp]: "file_inv 4 sample_tables 2"
  by (auto simp: file_inv_def sample_defs constraint_defs chunks_within_def)

lemma sample_contents: "contents 4 sample_tables 2 = [1, 2, 3, 4, 5, 6]"
  by (simp add: contents_def file_size_def byte_at_def chunk_of_def chunk_byte_def sample_defs
      upt_rec)

text \<open>
  C7.  A read through a handle returns exactly the bytes of the flat file it asks for: cut at
  the end of the file, zero where no chunk is stored, and it changes nothing.
\<close>

theorem pread_refines:
  assumes "ready c" and "file_inv (f_chunk_size f) (tabs c) (f_ino f)"
  shows "pread f off n c = (Inr (a_read off n (contents (f_chunk_size f) (tabs c) (f_ino f))), c)"
  using assms by (rule pread_ready)

theorem pread_refines_witness:
  "pread \<lparr>f_ino = 2, f_chunk_size = 4\<rparr> 3 9 sample_conn = (Inr [4, 5, 6], sample_conn)"
  using pread_refines [of sample_conn "\<lparr>f_ino = 2, f_chunk_size = 4\<rparr>" 3 9]
  by (simp add: sample_contents a_read_def)

text \<open>
  C8.  A write of at least one byte through a handle returns, and it is the array write: the
  hole between the old end and the offset reads as zeros, the rest of the file, every other
  file and all directory entries stay, the chunk invariant holds and no transaction is open.
\<close>

theorem pwrite_refines:
  assumes "ready c" and "txn_state c = NoTxn" and "file_inv cs (tabs c) ino"
    and "data \<noteq> []" and "off + length data < 2 ^ 63"
  shows "\<exists>c'. pwrite (Some now) \<lparr>f_ino = ino, f_chunk_size = cs\<rparr> off data c = (Inr (), c') \<and>
    txn_state c' = NoTxn \<and> file_inv cs (tabs c') ino \<and>
    contents cs (tabs c') ino = a_write off data (contents cs (tabs c) ino) \<and>
    (\<forall>j. j \<noteq> ino \<longrightarrow> contents cs (tabs c') j = contents cs (tabs c) j) \<and>
    fs_dentry (tabs c') = fs_dentry (tabs c)"
  by (cases now) (rule pwrite_ready [OF assms(1-3) refl assms(4,5)]; fastforce)

theorem pwrite_refines_witness:
  "\<exists>c'. pwrite (Some (7, 8)) \<lparr>f_ino = 2, f_chunk_size = 4\<rparr> 3 [9, 9, 9, 9, 9] sample_conn = (Inr (), c') \<and>
    contents 4 (tabs c') 2 = [1, 2, 3, 9, 9, 9, 9, 9]"
  using pwrite_refines [of sample_conn 4 2 "[9, 9, 9, 9, 9]" 3 "(7, 8)"]
  by (auto simp: sample_contents a_write_def)

text \<open>
  C9.  Truncation through a handle is the array resize: it keeps the bytes below the new
  length, drops the rest for good (growing the file again reads zeros), leaves other files
  alone and keeps the chunk invariant.
\<close>

theorem truncate_refines:
  assumes "ready c" and "txn_state c = NoTxn" and "file_inv cs (tabs c) ino" and "n < 2 ^ 63"
  shows "\<exists>c'. truncate (Some now) \<lparr>f_ino = ino, f_chunk_size = cs\<rparr> n c = (Inr (), c') \<and>
    txn_state c' = NoTxn \<and> file_inv cs (tabs c') ino \<and>
    contents cs (tabs c') ino = a_truncate n (contents cs (tabs c) ino) \<and>
    (\<forall>j. j \<noteq> ino \<longrightarrow> contents cs (tabs c') j = contents cs (tabs c) j) \<and>
    fs_dentry (tabs c') = fs_dentry (tabs c)"
  by (cases now) (rule truncate_ready [OF assms(1-3) refl assms(4)]; fastforce)

theorem truncate_refines_witness:
  "\<exists>c'. truncate (Some (7, 8)) \<lparr>f_ino = 2, f_chunk_size = 4\<rparr> 5 sample_conn = (Inr (), c') \<and>
    contents 4 (tabs c') 2 = [1, 2, 3, 4, 5]"
  using truncate_refines [of sample_conn 4 2 5 "(7, 8)"]
  by (auto simp: sample_contents a_truncate_def)

text \<open>
  A read that follows a write over the same range returns the data written.
\<close>

theorem pread_after_pwrite:
  assumes "ready c" and "txn_state c = NoTxn" and "file_inv cs (tabs c) ino"
    and "data \<noteq> []" and "off + length data < 2 ^ 63"
    and "f = \<lparr>f_ino = ino, f_chunk_size = cs\<rparr>"
  shows "fst (sq (pwrite (Some now) f off data) (pread f off (length data)) c) = Inr data"
proof -
  obtain s ns where now: "now = (s, ns)" by fastforce
  obtain c' where c': "pwrite (Some (s, ns)) f off data c = (Inr (), c')" "ready c'"
    "contents cs (tabs c') ino = a_write off data (contents cs (tabs c) ino)"
    "file_inv cs (tabs c') ino"
    by (rule pwrite_ready [OF assms(1-3,6,4,5)])
  have "a_read off (length data) (a_write off data xs) = data" for xs
    by (simp add: a_read_def a_write_def)
  then show ?thesis using c' pread_ready [OF c'(2), of f off "length data"] assms(6) now by simp
qed

theorem pread_after_pwrite_witness:
  "fst (sq (pwrite (Some (7, 8)) \<lparr>f_ino = 2, f_chunk_size = 4\<rparr> 10 [9, 8])
     (pread \<lparr>f_ino = 2, f_chunk_size = 4\<rparr> 10 (length [9, 8 :: byte])) sample_conn) = Inr [9, 8]"
  using pread_after_pwrite [of sample_conn 4 2 "[9, 8]" 10 _ "(7, 8)"] by simp

lemma write_data_in_txn: "preserves (in_txn s) (write_data_at_offset f off data w)"
proof (induction "length data - w" arbitrary: w rule: less_induct)
  case less
  then show ?case
    by (subst write_data_at_offset.simps) (auto simp: Let_def chunk_step_decreases intro!: pres)
qed

text \<open>
  Truncation is all or nothing: when it reports an error, whichever statement failed, the
  committed tables are those it started from.
\<close>

theorem truncate_atomic:
  assumes "txn_state c = NoTxn" and "truncate now f n c = (Inl e, c')"
  shows "committed c' = committed c"
proof -
  have "atomic (tabs c) (truncate now f n)"
    unfolding truncate_def select_size_def truncate_body_def truncate_chunks_def Let_def
    by (intro atomic_intros pres) auto
  then show ?thesis using assms by (rule atomicD)
qed

theorem truncate_atomic_witness:
  "committed (snd (truncate (Some (7, 8)) \<lparr>f_ino = 2, f_chunk_size = 4\<rparr> 5
     (sample_conn\<lparr>faults := [False, False, False, False, True]\<rparr>))) = sample_tables"
proof -
  let ?c = "sample_conn\<lparr>faults := [False, False, False, False, True]\<rparr>"
  let ?run = "truncate (Some (7, 8)) \<lparr>f_ino = 2, f_chunk_size = 4\<rparr> 5 ?c"
  have "fst ?run = Inl Postgres" by code_simp
  then obtain c' where "?run = (Inl Postgres, c')" by (cases ?run) auto
  from truncate_atomic [OF _ this] this show ?thesis by (simp add: committed_def)
qed

text \<open>
  A write that reports an error leaves the committed tables as they were.
\<close>

theorem pwrite_atomic:
  assumes "txn_state c = NoTxn" and "pwrite now f off data c = (Inl e, c')"
  shows "committed c' = committed c"
proof -
  have "atomic (tabs c) (pwrite now f off data)"
    unfolding pwrite_def select_size_def Let_def
    by (intro atomic_if atomic_begin in_txn_or_done_intros atomic_sq pres write_data_in_txn atomic_idle)
      auto
  then show ?thesis using assms by (rule atomicD)
qed

theorem pwrite_atomic_witness:
  "committed (snd (pwrite (Some (7, 8)) \<lparr>f_ino = 2, f_chunk_size = 4\<rparr> 3 [9, 9]
     (sample_conn\<lparr>faults := [False, False, False, True]\<rparr>))) = sample_tables"
proof -
  let ?c = "sample_conn\<lparr>faults := [False, False, False, True]\<rparr>"
  let ?run = "pwrite (Some (7, 8)) \<lparr>f_ino = 2, f_chunk_size = 4\<rparr> 3 [9, 9] ?c"
  have "fst ?run = Inl Postgres"
    by (simp add: pwrite_def write_data_at_offset.simps sq_def bnd_def get_connection_def
        begin_txn_def select_size_def query_def stmt_def)
  then obtain c' where "?run = (Inl Postgres, c')" by (cases ?run) auto
  from pwrite_atomic [OF _ this] this show ?thesis by (simp add: committed_def)
qed

text \<open>
  A write whose size query fails returns without ending its transaction: the session it
  used stays in the aborted transaction, and every later read through that session fails,
  whatever the file, even when no further fault happens.
\<close>

theorem pwrite_error_blocks_session:
  assumes "txn_state c = NoTxn" and "data \<noteq> []" and "faults c = [False, False, True]"
  shows "\<exists>c'. pwrite now f off data c = (Inl Postgres, c') \<and> txn_state c' = Aborted (tabs c) \<and>
    faults c' = [] \<and> (\<forall>g off' n. fst (pread g off' n c') = Inl Postgres) \<and>
    (\<forall>g. fst (fstat g c') = Inl Postgres)"
proof -
  let ?c' = "c\<lparr>faults := [], txn_state := Aborted (tabs c)\<rparr>"
  have "pwrite now f off data c = (Inl Postgres, ?c')"
    using assms
    by (simp add: pwrite_def sq_def bnd_def get_connection_def begin_txn_def select_size_def
        query_def stmt_def abort_txn_def)
  moreover have "fst (pread g off' n ?c') = Inl Postgres" "fst (fstat g ?c') = Inl Postgres" for g off' n
    by (simp_all add: pread_def fstat_def sq_def bnd_def get_connection_def select_size_def
        query_def stmt_def)
  ultimately show ?thesis by (intro exI [of _ ?c']) simp
qed

theorem pwrite_error_blocks_session_witness:
  "\<exists>c'. pwrite (Some (7, 8)) \<lparr>f_ino = 2, f_chunk_size = 4\<rparr> 0 [1]
      (sample_conn\<lparr>faults := [False, False, True]\<rparr>) = (Inl Postgres, c') \<and>
    fst (pread \<lparr>f_ino = 2, f_chunk_size = 4\<rparr> 0 1 c') = Inl Postgres"
  using pwrite_error_blocks_session [of "sample_conn\<lparr>faults := [False, False, True]\<rparr>" "[1]"]
  by fastforce

end
