(* ===== verification/Inode_Ops.thy ===== *)
theory Inode_Ops
  imports Dentry_Cache File_Handle
begin

text \<open>
  The inode-based filesystem interface of \<open>filesystem/secafs.rs\<close>
  (\<open>impl FileSystem for SecAFS\<close>), the one the FUSE and NFS front ends call: lookup and
  attributes, directory listing, creation of the four kinds of nodes, links, removal and
  rename.  Every operation is the sequence of statements of the source, cache updates
  included.  The theorems are in \<open>Namespace\<close>.
\<close>

section \<open>Shared queries and row updates\<close>

definition lookup_child :: "i64 \<Rightarrow> string \<Rightarrow> ('z conn_scheme, i64 option) oper" where
  "lookup_child parent name =
    bnd (query (\<lambda>t. filter (\<lambda>d. d_slot d = (parent, name)) (fs_dentry t))) (\<lambda>rows.
      if length rows > 1 then throw (Fs InvalidPath)
      else ret (if rows = [] then None else Some (d_ino (last rows))))"

definition get_link_count :: "i64 \<Rightarrow> ('z conn_scheme, u32) oper" where
  "get_link_count ino =
    query (\<lambda>t. case look i_ino (fs_inode t) ino of None \<Rightarrow> 0 | Some r \<Rightarrow> u32_of_i64 (i_nlink r))"

definition getattr_with_conn :: "i64 \<Rightarrow> ('z conn_scheme, stats option) oper" where
  "getattr_with_conn ino =
    query (\<lambda>t. map_option build_stats_from_row (look i_ino (fs_inode t) ino))"

text \<open>\<open>SELECT mode FROM fs_inode WHERE ino = ?\<close>, read \<open>as u32\<close>.\<close>

definition select_mode :: "i64 \<Rightarrow> ('z conn_scheme, u32 option) oper" where
  "select_mode ino =
    query (\<lambda>t. map_option (\<lambda>r. u32_of_i64 (i_mode r)) (look i_ino (fs_inode t) ino))"

definition select_ino :: "i64 \<Rightarrow> ('z conn_scheme, i64 option) oper" where
  "select_ino ino = query (\<lambda>t. map_option i_ino (look i_ino (fs_inode t) ino))"

definition count_children :: "i64 \<Rightarrow> ('z conn_scheme, nat) oper" where
  "count_children ino = query (\<lambda>t. length (filter (\<lambda>d. d_parent d = ino) (fs_dentry t)))"

text \<open>The SET clauses of the UPDATE statements on \<open>fs_inode\<close>.\<close>

definition set_ctime :: "i64 \<Rightarrow> i64 \<Rightarrow> inode_row \<Rightarrow> inode_row" where
  "set_ctime secs nsec r = r\<lparr>i_ctime := secs, i_ctime_nsec := nsec\<rparr>"

definition set_cmtime :: "i64 \<Rightarrow> i64 \<Rightarrow> inode_row \<Rightarrow> inode_row" where
  "set_cmtime secs nsec r =
    r\<lparr>i_ctime := secs, i_mtime := secs, i_ctime_nsec := nsec, i_mtime_nsec := nsec\<rparr>"

definition add_nlink :: "i64 \<Rightarrow> inode_row \<Rightarrow> inode_row" where
  "add_nlink k r = r\<lparr>i_nlink := i_nlink r + k\<rparr>"

text \<open>The row of an INSERT INTO \<open>fs_inode\<close>: the three times are the same clock reading.\<close>

definition new_inode ::
  "u32 \<Rightarrow> i64 \<Rightarrow> u32 \<Rightarrow> u32 \<Rightarrow> i64 \<Rightarrow> i64 \<Rightarrow> i64 \<Rightarrow> i64 \<Rightarrow> i64 \<Rightarrow> inode_row" where
  "new_inode mode nlink uid gid sz rdev secs nsec ino =
    \<lparr>i_ino = ino, i_mode = i64_of_u32 mode, i_nlink = nlink, i_uid = i64_of_u32 uid,
     i_gid = i64_of_u32 gid, i_size = sz, i_atime = secs, i_mtime = secs, i_ctime = secs,
     i_rdev = rdev, i_atime_nsec = nsec, i_mtime_nsec = nsec, i_ctime_nsec = nsec\<rparr>"

text \<open>The \<open>Stats\<close> the creating operations return without reading the row back.\<close>

definition new_stats ::
  "i64 \<Rightarrow> u32 \<Rightarrow> u32 \<Rightarrow> u32 \<Rightarrow> u32 \<Rightarrow> i64 \<Rightarrow> u64 \<Rightarrow> i64 \<Rightarrow> i64 \<Rightarrow> stats" where
  "new_stats ino mode nlink uid gid sz rdev secs nsec =
    \<lparr>st_ino = ino, st_mode = mode, st_nlink = nlink, st_uid = uid, st_gid = gid, st_size = sz,
     st_atime = secs, st_mtime = secs, st_ctime = secs, st_atime_nsec = u32_of_i64 nsec,
     st_mtime_nsec = u32_of_i64 nsec, st_ctime_nsec = u32_of_i64 nsec, st_rdev = rdev\<rparr>"

section \<open>Reading\<close>

text \<open>\<open>SELECT parent_ino FROM fs_dentry WHERE ino = ? LIMIT 1\<close>: the first row in table order.\<close>

definition lookup :: "'l lru_ops \<Rightarrow> i64 \<Rightarrow> string \<Rightarrow> ('l, stats option) fs_oper" where
  "lookup L parent_ino name =
    (if length name > MAX_NAME_LEN then throw (Fs NameTooLong)
     else
       sq get_connection
       (if name = ''..'' then
          if parent_ino = ROOT_INO then getattr_with_conn ROOT_INO
          else
            bnd (query (\<lambda>t. find (\<lambda>d. d_ino d = parent_ino) (fs_dentry t))) (\<lambda>row.
              getattr_with_conn (case row of None \<Rightarrow> ROOT_INO | Some d \<Rightarrow> d_parent d))
        else
          bnd (lookup_child parent_ino name) (\<lambda>child.
            case child of
              None \<Rightarrow> ret None
            | Some child_ino \<Rightarrow>
                bnd (getattr_with_conn child_ino) (\<lambda>st.
                  case st of
                    None \<Rightarrow> ret None
                  | Some stats \<Rightarrow> sq (cache_insert L parent_ino name child_ino) (ret (Some stats))))))"

definition getattr :: "i64 \<Rightarrow> ('z conn_scheme, stats option) oper" where
  "getattr ino = sq get_connection (getattr_with_conn ino)"

definition readlink :: "i64 \<Rightarrow> ('z conn_scheme, string option) oper" where
  "readlink ino =
    sq get_connection
    (bnd (select_mode ino) (\<lambda>m.
      case m of
        None \<Rightarrow> ret None
      | Some mode \<Rightarrow>
          if mode AND S_IFMT \<noteq> S_IFLNK then throw (Fs NotASymlink)
          else query (\<lambda>t. map_option l_target (look l_ino (fs_symlink t) ino))))"

text \<open>
  \<open>ORDER BY name\<close> is the collation of the database, a parameter: \<open>coll\<close> maps a name to its
  place in that order.
\<close>

definition readdir :: "(string \<Rightarrow> 'k :: linorder) \<Rightarrow> i64 \<Rightarrow> ('z conn_scheme, string list option) oper"
  where
  "readdir coll ino =
    sq get_connection
    (bnd (select_mode ino) (\<lambda>m.
      case m of
        None \<Rightarrow> ret None
      | Some mode \<Rightarrow>
          if mode AND S_IFMT \<noteq> S_IFDIR then throw (Fs NotADirectory)
          else
            bnd (query (\<lambda>t. sort_key coll
                  (map d_name (filter (\<lambda>d. d_parent d = ino) (fs_dentry t)))))
              (\<lambda>names. ret (Some (filter (\<lambda>n. n \<noteq> '''') names)))))"

definition readdir_plus ::
  "(string \<Rightarrow> 'k :: linorder) \<Rightarrow> i64 \<Rightarrow> ('z conn_scheme, dir_entry list option) oper" where
  "readdir_plus coll ino =
    sq get_connection
    (bnd (select_mode ino) (\<lambda>m.
      case m of
        None \<Rightarrow> ret None
      | Some mode \<Rightarrow>
          if mode AND S_IFMT \<noteq> S_IFDIR then throw (Fs NotADirectory)
          else
            bnd (query (\<lambda>t. sort_key (\<lambda>e. coll (de_name e))
                  (concat (map (\<lambda>d. case look i_ino (fs_inode t) (d_ino d) of
                       None \<Rightarrow> []
                     | Some r \<Rightarrow> [\<lparr>de_name = d_name d, de_stats = build_stats_from_row r\<rparr>])
                    (filter (\<lambda>d. d_parent d = ino) (fs_dentry t))))))
              (\<lambda>es. ret (Some (filter (\<lambda>e. de_name e \<noteq> '''') es)))))"

section \<open>Attributes\<close>

definition chmod :: "clock \<Rightarrow> i64 \<Rightarrow> u32 \<Rightarrow> ('z conn_scheme, unit) oper" where
  "chmod now ino mode =
    sq get_connection
    (bnd (select_mode ino) (\<lambda>m.
     bnd (ok_or (Fs NotFound) m) (\<lambda>current_mode.
       let new_mode = (current_mode AND S_IFMT) OR (mode AND PERM_BITS)
       in bnd (clock_now now) (\<lambda>(secs, nsec).
          sq (update_inode ino (\<lambda>r. set_ctime secs nsec (r\<lparr>i_mode := i64_of_u32 new_mode\<rparr>)))
             (ret ())))))"

definition chown :: "clock \<Rightarrow> i64 \<Rightarrow> u32 option \<Rightarrow> u32 option \<Rightarrow> ('z conn_scheme, unit) oper" where
  "chown now ino uid gid =
    (if uid = None \<and> gid = None then ret ()
     else
       sq get_connection
       (bnd (select_ino ino) (\<lambda>r.
        bnd (ok_or (Fs NotFound) r) (\<lambda>_.
        bnd (clock_now now) (\<lambda>(secs, nsec).
          sq (update_inode ino (\<lambda>r. set_ctime secs nsec
               (r\<lparr>i_uid := (case uid of None \<Rightarrow> i_uid r | Some u \<Rightarrow> i64_of_u32 u),
                  i_gid := (case gid of None \<Rightarrow> i_gid r | Some g \<Rightarrow> i64_of_u32 g)\<rparr>)))
             (ret ()))))))"

text \<open>
  The closure \<open>resolve\<close> of \<open>utimens\<close>; each use reads the clock again, and a clock before the
  epoch panics there.
\<close>

fun resolve_time :: "clock \<Rightarrow> time_change \<Rightarrow> ('s, (i64 \<times> i64) option) oper" where
  "resolve_time now Omit = ret None"
| "resolve_time now (SetTime secs nsec) = ret (Some (secs, i64_of_u32 nsec))"
| "resolve_time now Now = (case now of None \<Rightarrow> throw Panic | Some t \<Rightarrow> ret (Some t))"

definition utimens ::
  "clock \<Rightarrow> clock \<Rightarrow> clock \<Rightarrow> i64 \<Rightarrow> time_change \<Rightarrow> time_change \<Rightarrow> ('z conn_scheme, unit) oper" where
  "utimens now_a now_m now_c ino atime mtime =
    sq get_connection
    (bnd (select_ino ino) (\<lambda>r.
     bnd (ok_or (Fs NotFound) r) (\<lambda>_.
     bnd (resolve_time now_a atime) (\<lambda>a.
     bnd (resolve_time now_m mtime) (\<lambda>m.
       if a = None \<and> m = None then ret ()
       else
         bnd (clock_now now_c) (\<lambda>(secs, nsec).
           sq (update_inode ino (\<lambda>r. set_ctime secs nsec
                (r\<lparr>i_atime := (case a of None \<Rightarrow> i_atime r | Some (s, n) \<Rightarrow> s),
                   i_atime_nsec := (case a of None \<Rightarrow> i_atime_nsec r | Some (s, n) \<Rightarrow> n),
                   i_mtime := (case m of None \<Rightarrow> i_mtime r | Some (s, n) \<Rightarrow> s),
                   i_mtime_nsec := (case m of None \<Rightarrow> i_mtime_nsec r | Some (s, n) \<Rightarrow> n)\<rparr>)))
              (ret ())))))))"

definition fs_open :: "nat \<Rightarrow> i64 \<Rightarrow> ('z conn_scheme, file_handle) oper" where
  "fs_open chunk_size ino =
    sq get_connection
    (bnd (select_ino ino) (\<lambda>r.
     bnd (ok_or (Fs NotFound) r) (\<lambda>_.
       ret \<lparr>f_ino = ino, f_chunk_size = chunk_size\<rparr>)))"

section \<open>Creation\<close>

definition mkdir ::
  "'l lru_ops \<Rightarrow> clock \<Rightarrow> i64 \<Rightarrow> string \<Rightarrow> u32 \<Rightarrow> u32 \<Rightarrow> u32 \<Rightarrow> ('l, stats) fs_oper" where
  "mkdir L now parent_ino name mode uid gid =
    (if length name > MAX_NAME_LEN then throw (Fs NameTooLong)
     else
       sq get_connection
       (bnd (lookup_child parent_ino name) (\<lambda>existing.
        if existing \<noteq> None then throw (Fs AlreadyExists)
        else
          bnd (clock_now now) (\<lambda>(secs, nsec).
          let dir_mode = S_IFDIR OR (mode AND PERM_BITS)
          in bnd (insert_inode (new_inode dir_mode 0 uid gid 0 0 secs nsec)) (\<lambda>ino.
             sq (insert_dentry name parent_ino ino)
             (sq (update_inode ino (\<lambda>r. r\<lparr>i_nlink := 2\<rparr>))
             (sq (update_inode parent_ino (\<lambda>r. set_cmtime secs nsec (add_nlink 1 r)))
             (sq (cache_insert L parent_ino name ino)
                 (ret (new_stats ino dir_mode 2 uid gid 0 0 secs nsec)))))))))) "

text \<open>
  \<open>create_file\<close> runs between \<open>BEGIN\<close> and \<open>COMMIT\<close> without a rollback on the error paths.
\<close>

definition create_file ::
  "'l lru_ops \<Rightarrow> nat \<Rightarrow> clock \<Rightarrow> i64 \<Rightarrow> string \<Rightarrow> u32 \<Rightarrow> u32 \<Rightarrow> u32 \<Rightarrow>
   ('l, stats \<times> file_handle) fs_oper" where
  "create_file L chunk_size now parent_ino name mode uid gid =
    (if length name > MAX_NAME_LEN then throw (Fs NameTooLong)
     else
       sq get_connection
       (bnd (lookup_child parent_ino name) (\<lambda>existing.
        if existing \<noteq> None then throw (Fs AlreadyExists)
        else
          sq begin_txn
          (bnd (clock_now now) (\<lambda>(secs, nsec).
          let file_mode = S_IFREG OR (mode AND PERM_BITS)
          in bnd (insert_inode (new_inode file_mode 1 uid gid 0 0 secs nsec)) (\<lambda>ino.
             sq (insert_dentry name parent_ino ino)
             (sq (update_inode parent_ino (set_cmtime secs nsec))
             (sq commit_txn
             (sq (cache_insert L parent_ino name ino)
                 (ret (new_stats ino file_mode 1 uid gid 0 0 secs nsec,
                       \<lparr>f_ino = ino, f_chunk_size = chunk_size\<rparr>)))))))))))"

definition mknod ::
  "'l lru_ops \<Rightarrow> clock \<Rightarrow> i64 \<Rightarrow> string \<Rightarrow> u32 \<Rightarrow> u64 \<Rightarrow> u32 \<Rightarrow> u32 \<Rightarrow> ('l, stats) fs_oper" where
  "mknod L now parent_ino name mode rdev uid gid =
    (if length name > MAX_NAME_LEN then throw (Fs NameTooLong)
     else
       sq get_connection
       (bnd (lookup_child parent_ino name) (\<lambda>existing.
        if existing \<noteq> None then throw (Fs AlreadyExists)
        else
          bnd (clock_now now) (\<lambda>(secs, nsec).
          bnd (insert_inode (new_inode mode 0 uid gid 0 (as_i64 rdev) secs nsec)) (\<lambda>ino.
             sq (insert_dentry name parent_ino ino)
             (sq (update_inode ino (add_nlink 1))
             (sq (update_inode parent_ino (set_cmtime secs nsec))
             (sq (cache_insert L parent_ino name ino)
                 (ret (new_stats ino mode 1 uid gid 0 rdev secs nsec))))))))))"

definition symlink ::
  "'l lru_ops \<Rightarrow> clock \<Rightarrow> i64 \<Rightarrow> string \<Rightarrow> string \<Rightarrow> u32 \<Rightarrow> u32 \<Rightarrow> ('l, stats) fs_oper" where
  "symlink L now parent_ino name target uid gid =
    (if length name > MAX_NAME_LEN then throw (Fs NameTooLong)
     else
       sq get_connection
       (bnd (lookup_child parent_ino name) (\<lambda>existing.
        if existing \<noteq> None then throw (Fs AlreadyExists)
        else
          bnd (clock_now now) (\<lambda>(secs, nsec).
          let mode = S_IFLNK OR 0x1FF; sz = int (length target)
          in bnd (insert_inode (new_inode mode 0 uid gid sz 0 secs nsec)) (\<lambda>ino.
             sq (insert_symlink \<lparr>l_ino = ino, l_target = target\<rparr>)
             (sq (insert_dentry name parent_ino ino)
             (sq (update_inode ino (add_nlink 1))
             (sq (update_inode parent_ino (set_cmtime secs nsec))
             (sq (cache_insert L parent_ino name ino)
                 (ret (new_stats ino mode 1 uid gid sz 0 secs nsec)))))))))))"

section \<open>Removal\<close>

text \<open>What happens to an inode whose last link is gone.\<close>

definition release_inode :: "i64 \<Rightarrow> ('z conn_scheme, unit) oper" where
  "release_inode ino =
    sq (delete_data (\<lambda>b. b_ino b = ino))
    (sq (delete_symlinks (\<lambda>l. l_ino l = ino))
    (sq (delete_inode ino) (ret ())))"

definition unlink :: "'l lru_ops \<Rightarrow> clock \<Rightarrow> i64 \<Rightarrow> string \<Rightarrow> ('l, unit) fs_oper" where
  "unlink L now parent_ino name =
    (if length name > MAX_NAME_LEN then throw (Fs NameTooLong)
     else
       sq get_connection
       (bnd (lookup_child parent_ino name) (\<lambda>child.
        bnd (ok_or (Fs NotFound) child) (\<lambda>ino.
        bnd (select_mode ino) (\<lambda>m.
        if (case m of None \<Rightarrow> False | Some mode \<Rightarrow> mode AND S_IFMT = S_IFDIR)
        then throw (Fs IsADirectory)
        else
          sq (delete_dentry parent_ino name)
          (sq (cache_remove L parent_ino name)
          (bnd (clock_now now) (\<lambda>(secs, nsec).
          sq (update_inode parent_ino (set_cmtime secs nsec))
          (sq (update_inode ino (\<lambda>r. set_ctime secs nsec (add_nlink (- 1) r)))
          (bnd (get_link_count ino) (\<lambda>link_count.
           if link_count = 0 then release_inode ino else ret ()))))))))))) "

definition rmdir :: "'l lru_ops \<Rightarrow> clock \<Rightarrow> i64 \<Rightarrow> string \<Rightarrow> ('l, unit) fs_oper" where
  "rmdir L now parent_ino name =
    (if length name > MAX_NAME_LEN then throw (Fs NameTooLong)
     else
       sq get_connection
       (bnd (lookup_child parent_ino name) (\<lambda>child.
        bnd (ok_or (Fs NotFound) child) (\<lambda>ino.
        if ino = ROOT_INO then throw (Fs RootOperation)
        else
          bnd (select_mode ino) (\<lambda>m.
          bnd (ok_or (Fs NotFound) m) (\<lambda>mode.
          if mode AND S_IFMT \<noteq> S_IFDIR then throw (Fs NotADirectory)
          else
            bnd (count_children ino) (\<lambda>count.
            if count > 0 then throw (Fs NotEmpty)
            else
              sq (delete_dentry parent_ino name)
              (sq (cache_remove L parent_ino name)
              (sq (update_inode ino (add_nlink (- 1)))
              (bnd (clock_now now) (\<lambda>(secs, nsec).
              sq (update_inode parent_ino (\<lambda>r. set_cmtime secs nsec (add_nlink (- 1) r)))
              (bnd (get_link_count ino) (\<lambda>link_count.
               if link_count = 0 then sq (delete_inode ino) (ret ()) else ret ()))))))))))))) "

section \<open>Links and rename\<close>

definition link :: "'l lru_ops \<Rightarrow> clock \<Rightarrow> i64 \<Rightarrow> i64 \<Rightarrow> string \<Rightarrow> ('l, stats) fs_oper" where
  "link L now ino newparent_ino newname =
    (if length newname > MAX_NAME_LEN then throw (Fs NameTooLong)
     else
       sq get_connection
       (bnd (select_mode ino) (\<lambda>m.
        bnd (ok_or (Fs NotFound) m) (\<lambda>mode.
        if mode AND S_IFMT = S_IFDIR then throw (Fs IsADirectory)
        else
          bnd (lookup_child newparent_ino newname) (\<lambda>existing.
          if existing \<noteq> None then throw (Fs AlreadyExists)
          else
            sq (insert_dentry newname newparent_ino ino)
            (bnd (clock_now now) (\<lambda>(secs, nsec).
            sq (update_inode ino (\<lambda>r. set_ctime secs nsec (add_nlink 1 r)))
            (sq (update_inode newparent_ino (set_cmtime secs nsec))
            (sq (cache_insert L newparent_ino newname ino)
            (bnd (getattr_with_conn ino) (\<lambda>st. ok_or (Fs NotFound) st)))))))))) )"

text \<open>\<open>SystemTime::now().duration_since(UNIX_EPOCH).unwrap_or_default()\<close>\<close>

definition clock_or_zero :: "clock \<Rightarrow> i64 \<times> i64" where
  "clock_or_zero now = (case now of None \<Rightarrow> (0, 0) | Some t \<Rightarrow> t)"

text \<open>The part of \<open>rename\<close> that makes room at the destination.\<close>

definition replace_target ::
  "clock \<Rightarrow> stats \<Rightarrow> i64 \<Rightarrow> string \<Rightarrow> ('z conn_scheme, unit) oper" where
  "replace_target now src_stats newparent_ino newname =
    bnd (lookup_child newparent_ino newname) (\<lambda>dst.
    case dst of
      None \<Rightarrow> ret ()
    | Some dst_ino \<Rightarrow>
        bnd (getattr_with_conn dst_ino) (\<lambda>st.
        bnd (ok_or (Fs NotFound) st) (\<lambda>dst_stats.
        if is_directory dst_stats \<and> \<not> is_directory src_stats then throw (Fs IsADirectory)
        else if \<not> is_directory dst_stats \<and> is_directory src_stats then throw (Fs NotADirectory)
        else
          bnd (if is_directory dst_stats then count_children dst_ino else ret 0) (\<lambda>count.
          if count > 0 then throw (Fs NotEmpty)
          else
            sq (delete_dentry newparent_ino newname)
            (case clock_or_zero now of (secs, nsec) \<Rightarrow>
             sq (update_inode dst_ino (\<lambda>r. set_ctime secs nsec (add_nlink (- 1) r)))
             (bnd (get_link_count dst_ino) (\<lambda>link_count.
              if link_count = 0 then release_inode dst_ino else ret ())))))))"

text \<open>The link counts of the parents and the times, after the entry has moved.\<close>

definition rename_tail ::
  "clock \<Rightarrow> i64 \<Rightarrow> stats \<Rightarrow> i64 \<Rightarrow> i64 \<Rightarrow> ('z conn_scheme, unit) oper" where
  "rename_tail now src_ino src_stats oldparent_ino newparent_ino =
    sq (if is_directory src_stats \<and> oldparent_ino \<noteq> newparent_ino then
           sq (update_inode oldparent_ino (add_nlink (- 1)))
           (sq (update_inode newparent_ino (add_nlink 1)) (ret ()))
         else ret ())
    (case clock_or_zero now of (secs, nsec) \<Rightarrow>
     sq (update_inode src_ino (set_ctime secs nsec))
     (sq (update_inode oldparent_ino (set_cmtime secs nsec))
     (if newparent_ino \<noteq> oldparent_ino then
        sq (update_inode newparent_ino (set_cmtime secs nsec)) (ret ())
      else ret ())))"

definition rename_body ::
  "clock \<Rightarrow> clock \<Rightarrow> i64 \<Rightarrow> stats \<Rightarrow> i64 \<Rightarrow> string \<Rightarrow> i64 \<Rightarrow> string \<Rightarrow> ('z conn_scheme, unit) oper" where
  "rename_body now_dec now src_ino src_stats oldparent_ino oldname newparent_ino newname =
    sq (replace_target now_dec src_stats newparent_ino newname)
    (sq (update_dentries (\<lambda>d. d_slot d = (oldparent_ino, oldname))
          (\<lambda>d. d\<lparr>d_parent := newparent_ino, d_name := newname\<rparr>))
    (rename_tail now src_ino src_stats oldparent_ino newparent_ino))"

definition rename ::
  "'l lru_ops \<Rightarrow> clock \<Rightarrow> clock \<Rightarrow> i64 \<Rightarrow> string \<Rightarrow> i64 \<Rightarrow> string \<Rightarrow> ('l, unit) fs_oper" where
  "rename L now_dec now oldparent_ino oldname newparent_ino newname =
    (if length newname > MAX_NAME_LEN then throw (Fs NameTooLong)
     else
       sq get_connection
       (bnd (lookup_child oldparent_ino oldname) (\<lambda>child.
        bnd (ok_or (Fs NotFound) child) (\<lambda>src_ino.
        if src_ino = ROOT_INO then throw (Fs RootOperation)
        else
          bnd (getattr_with_conn src_ino) (\<lambda>st.
          bnd (ok_or (Fs NotFound) st) (\<lambda>src_stats.
          sq (transact (rename_body now_dec now src_ino src_stats
                oldparent_ino oldname newparent_ino newname))
          (sq (cache_remove L oldparent_ino oldname)
          (sq (cache_remove L newparent_ino newname)
              (cache_insert L newparent_ino newname src_ino)))))))))"

end
