(* ===== verification/Paths.thy ===== *)
theory Paths
  imports Prelude
begin

text \<open>
  The path functions of \<open>filesystem/secafs.rs\<close> (\<open>normalize_path\<close>, \<open>split_path\<close>), and what
  they use of the standard library: \<open>str::split\<close>, \<open>trim_end_matches\<close>, \<open>join\<close> and
  \<open>Path::parent\<close>.  A string is the list of its UTF-8 bytes; the separator is an ASCII byte, so
  splitting by bytes and by characters agree.
\<close>

section \<open>Splitting and joining\<close>

abbreviation slash :: char where "slash \<equiv> CHR ''/''"

text \<open>\<open>s.split('/')\<close>: the empty string gives one empty piece.\<close>

fun split_slash :: "string \<Rightarrow> string list" where
  "split_slash [] = [[]]"
| "split_slash (c # cs) =
    (if c = slash then [] # split_slash cs
     else case split_slash cs of [] \<Rightarrow> [[c]] | w # ws \<Rightarrow> (c # w) # ws)"

definition trim_slashes :: "string \<Rightarrow> string" where
  "trim_slashes s = rev (dropWhile (\<lambda>c. c = slash) (rev s))"

fun join_slash :: "string list \<Rightarrow> string" where
  "join_slash [] = []"
| "join_slash [w] = w"
| "join_slash (w # v # ws) = w @ slash # join_slash (v # ws)"

text \<open>\<open>s.split('/').filter(|s| !s.is_empty())\<close>\<close>

definition path_words :: "string \<Rightarrow> string list" where
  "path_words s = filter (\<lambda>w. w \<noteq> []) (split_slash s)"

section \<open>normalize\_path and split\_path\<close>

text \<open>The loop over the components, \<open>result\<close> being the vector of the source.\<close>

fun fold_dots :: "string list \<Rightarrow> string list \<Rightarrow> string list" where
  "fold_dots [] result = result"
| "fold_dots (w # ws) result =
    (if w = ''.'' then fold_dots ws result
     else if w = ''..'' then fold_dots ws (if result \<noteq> [] then butlast result else result)
     else fold_dots ws (result @ [w]))"

definition normalize_path :: "string \<Rightarrow> string" where
  "normalize_path path =
    (let s = trim_slashes path in
     if s \<noteq> [] \<and> hd s \<noteq> slash then slash # s
     else
       let s = (if s = [] then ''/'' else s);
           result = fold_dots (path_words s) []
       in if result = [] then ''/'' else slash # join_slash result)"

definition split_path :: "string \<Rightarrow> string list" where
  "split_path path =
    (let normalized = normalize_path path in
     if normalized = ''/'' then [] else path_words normalized)"

text \<open>\<open>components[..len - 1].join("/")\<close> behind a slash, as every path operation writes it.\<close>

definition parent_path :: "string list \<Rightarrow> string" where
  "parent_path comps =
    (if length comps = 1 then ''/'' else slash # join_slash (butlast comps))"

text \<open>
  \<open>Path::new(p).parent().unwrap_or(Path::new("/")).join(target)\<close> for an absolute \<open>p\<close> and a
  relative \<open>target\<close>.  \<open>Path\<close> ignores repeated separators and \<open>.\<close> components, so the parent is
  given by its components.
\<close>

definition join_target :: "string \<Rightarrow> string \<Rightarrow> string" where
  "join_target p target =
    (let comps = filter (\<lambda>w. w \<noteq> ''.'') (path_words p);
         parent = slash # join_slash (butlast comps)
     in (if last parent = slash then parent @ target else parent @ slash # target))"

section \<open>Words\<close>

definition word_ok :: "string \<Rightarrow> bool" where
  "word_ok w \<longleftrightarrow> w \<noteq> [] \<and> slash \<notin> set w"

definition plain_word :: "string \<Rightarrow> bool" where
  "plain_word w \<longleftrightarrow> word_ok w \<and> w \<noteq> ''.'' \<and> w \<noteq> ''..''"

lemma split_slash_ne [simp]: "split_slash s \<noteq> []"
  by (induction s) (auto split: list.split)

lemma split_slash_words: "w \<in> set (split_slash s) \<Longrightarrow> slash \<notin> set w"
proof (induction s arbitrary: w)
  case (Cons c s)
  obtain v vs where v: "split_slash s = v # vs" by (cases "split_slash s") auto
  with Cons show ?case by (auto split: if_splits)
qed simp

lemma path_words_ok: "w \<in> set (path_words s) \<Longrightarrow> word_ok w"
  by (auto simp: path_words_def word_ok_def dest: split_slash_words)

lemma split_word: "slash \<notin> set w \<Longrightarrow> split_slash w = [w]"
  by (induction w) auto

lemma split_word_slash: "slash \<notin> set w \<Longrightarrow> split_slash (w @ slash # s) = w # split_slash s"
  by (induction w) auto

lemma path_words_slash [simp]: "path_words (slash # s) = path_words s"
  by (simp add: path_words_def)

lemma path_words_Nil [simp]: "path_words [] = []"
  by (simp add: path_words_def)

lemma path_words_join: "\<forall>w \<in> set ws. word_ok w \<Longrightarrow> path_words (join_slash ws) = ws"
proof (induction ws rule: join_slash.induct)
  case (3 w v ws)
  then show ?case by (simp add: path_words_def word_ok_def split_word_slash)
qed (auto simp: path_words_def word_ok_def split_word)

lemma fold_dots_plain:
  "\<forall>w \<in> set ws. word_ok w \<Longrightarrow> \<forall>w \<in> set acc. plain_word w \<Longrightarrow> w \<in> set (fold_dots ws acc) \<Longrightarrow> plain_word w"
proof (induction ws arbitrary: acc)
  case (Cons v ws)
  have "\<forall>w \<in> set (butlast acc). plain_word w" using Cons.prems(2) by (blast dest: in_set_butlastD)
  moreover have "plain_word v" if "v \<noteq> ''.''" "v \<noteq> ''..''"
    using that Cons.prems(1) by (simp add: plain_word_def)
  ultimately show ?case
    using Cons.IH [of acc] Cons.IH [of "butlast acc"] Cons.IH [of "acc @ [v]"] Cons.prems
    by (simp split: if_splits)
qed simp

lemma fold_dots_id: "\<forall>w \<in> set ws. plain_word w \<Longrightarrow> fold_dots ws acc = acc @ ws"
  by (induction ws arbitrary: acc) (simp_all add: plain_word_def)

section \<open>Canonical paths\<close>

text \<open>The canonical path of a list of plain words.\<close>

definition canonical :: "string list \<Rightarrow> string" where
  "canonical ws = slash # join_slash ws"

lemma join_slash_eq_Nil: "\<forall>w \<in> set ws. word_ok w \<Longrightarrow> join_slash ws = [] \<longleftrightarrow> ws = []"
  by (induction ws rule: join_slash.induct) (auto simp: word_ok_def)

lemma last_join_slash:
  "ws \<noteq> [] \<Longrightarrow> \<forall>w \<in> set ws. word_ok w \<Longrightarrow> join_slash ws \<noteq> [] \<and> last (join_slash ws) \<noteq> slash"
proof (induction ws rule: join_slash.induct)
  case (2 w)
  then show ?case by (auto simp: word_ok_def) (metis last_in_set)
next
  case (3 w v ws)
  then show ?case by simp
qed simp

lemma trim_slashes_id: "s = [] \<or> last s \<noteq> slash \<Longrightarrow> trim_slashes s = s"
  by (cases s rule: rev_cases) (auto simp: trim_slashes_def)

text \<open>
  \<open>meaning p\<close>: the words a path means once \<open>.\<close> and \<open>..\<close> are taken out.
\<close>

definition meaning :: "string \<Rightarrow> string list" where
  "meaning p = fold_dots (path_words p) []"

lemma meaning_plain: "w \<in> set (meaning p) \<Longrightarrow> plain_word w"
  using fold_dots_plain [of "path_words p" "[]" w] path_words_ok [of _ p] by (simp add: meaning_def)

lemma split_slash_append_slash: "split_slash (s @ [slash]) = split_slash s @ [[]]"
  by (induction s) (auto split: list.split)

lemma path_words_snoc_slash: "path_words (s @ [slash]) = path_words s"
  by (simp add: path_words_def split_slash_append_slash)

lemma path_words_trim [simp]: "path_words (trim_slashes s) = path_words s"
proof (induction s rule: rev_induct)
  case (snoc c s)
  then show ?case
    by (cases "c = slash") (auto simp: path_words_snoc_slash trim_slashes_def)
qed (simp add: trim_slashes_def)

lemma trim_slashes_hd: "trim_slashes s \<noteq> [] \<Longrightarrow> hd (trim_slashes s) = hd s"
proof (induction s rule: rev_induct)
  case (snoc c s)
  then show ?case by (cases "c = slash"; cases s) (auto simp: trim_slashes_def)
qed (simp add: trim_slashes_def)

lemma normalize_absolute:
  assumes "p = [] \<or> hd p = slash"
  shows "normalize_path p = canonical (meaning p)"
proof (cases "trim_slashes p = []")
  case True
  then have "path_words p = []" using path_words_trim [of p] by simp
  with True show ?thesis by (simp add: normalize_path_def Let_def meaning_def canonical_def)
next
  case False
  then have "hd (trim_slashes p) = slash"
    using assms trim_slashes_hd [of p] by (auto simp: trim_slashes_def)
  with False show ?thesis by (simp add: normalize_path_def Let_def meaning_def canonical_def)
qed

lemma normalize_relative:
  assumes "p \<noteq> []" and "hd p \<noteq> slash"
  shows "normalize_path p = slash # trim_slashes p"
proof -
  have "trim_slashes p \<noteq> []"
    using assms by (cases p) (auto simp: trim_slashes_def dropWhile_eq_Nil_conv)
  then show ?thesis using assms(2) trim_slashes_hd [of p] by (simp add: normalize_path_def Let_def)
qed

lemma normalize_hd [simp]: "\<exists>s. normalize_path p = slash # s"
  by (cases "p = [] \<or> hd p = slash")
    (use normalize_absolute [of p] normalize_relative [of p] in \<open>auto simp: canonical_def\<close>)

lemma meaning_canonical: "\<forall>w \<in> set ws. plain_word w \<Longrightarrow> meaning (canonical ws) = ws"
  by (simp add: meaning_def canonical_def path_words_join plain_word_def fold_dots_id)

lemma meaning_normalize [simp]: "meaning (normalize_path p) = meaning p"
proof (cases "p = [] \<or> hd p = slash")
  case True
  then show ?thesis using meaning_plain [of _ p] by (simp add: normalize_absolute meaning_canonical)
next
  case False
  then show ?thesis by (simp add: normalize_relative meaning_def)
qed

lemma normalize_twice: "normalize_path (normalize_path p) = canonical (meaning p)"
proof -
  obtain s where "normalize_path p = slash # s" using normalize_hd [of p] by blast
  then have "normalize_path (normalize_path p) = canonical (meaning (normalize_path p))"
    by (intro normalize_absolute) simp
  then show ?thesis by simp
qed

lemma split_canonical: "\<forall>w \<in> set ws. plain_word w \<Longrightarrow> split_path (canonical ws) = ws"
proof -
  assume ws: "\<forall>w \<in> set ws. plain_word w"
  have "normalize_path (canonical ws) = canonical ws"
    using normalize_absolute [of "canonical ws"] meaning_canonical [OF ws] by (simp add: canonical_def)
  moreover have "path_words (canonical ws) = ws"
    using ws by (simp add: canonical_def path_words_join plain_word_def)
  moreover have "canonical ws = ''/'' \<longleftrightarrow> ws = []"
    using join_slash_eq_Nil [of ws] ws by (auto simp: canonical_def plain_word_def)
  ultimately show ?thesis by (simp add: split_path_def)
qed

lemma split_normalize: "split_path (normalize_path p) = meaning p"
proof -
  have "split_path (normalize_path p) =
      (if canonical (meaning p) = ''/'' then [] else path_words (canonical (meaning p)))"
    by (simp add: split_path_def normalize_twice Let_def)
  also have "\<dots> = meaning p"
    using meaning_plain [of _ p] join_slash_eq_Nil [of "meaning p"]
    by (auto simp: canonical_def path_words_join plain_word_def)
  finally show ?thesis .
qed

lemma split_absolute: "p = [] \<or> hd p = slash \<Longrightarrow> split_path p = meaning p"
proof -
  assume "p = [] \<or> hd p = slash"
  then have "normalize_path p = canonical (meaning p)" by (rule normalize_absolute)
  then have "split_path p =
      (if canonical (meaning p) = ''/'' then [] else path_words (canonical (meaning p)))"
    by (simp add: split_path_def Let_def)
  also have "\<dots> = meaning p"
    using meaning_plain [of _ p] join_slash_eq_Nil [of "meaning p"]
    by (auto simp: canonical_def path_words_join plain_word_def)
  finally show ?thesis .
qed

lemma parent_path_canonical: "ws \<noteq> [] \<Longrightarrow> parent_path ws = canonical (butlast ws)"
  by (cases ws rule: rev_cases) (auto simp: parent_path_def canonical_def)

lemma split_parent: "ws \<noteq> [] \<Longrightarrow> \<forall>w \<in> set ws. plain_word w \<Longrightarrow> split_path (parent_path ws) = butlast ws"
  by (simp add: parent_path_canonical split_canonical) (metis in_set_butlastD split_canonical)

lemma split_slash_append: "split_slash (s @ slash # s') = split_slash s @ split_slash s'"
  by (induction s) (auto split: list.split)

lemma path_words_append: "path_words (s @ slash # s') = path_words s @ path_words s'"
  by (simp add: path_words_def split_slash_append)

lemma fold_dots_append: "fold_dots (ws @ vs) acc = fold_dots vs (fold_dots ws acc)"
  by (induction ws arbitrary: acc) simp_all

lemma meaning_append:
  "word_ok w \<Longrightarrow> meaning (p @ slash # w) =
    (if w = ''.'' then meaning p else if w = ''..'' then butlast (meaning p) else meaning p @ [w])"
  by (simp add: meaning_def path_words_append fold_dots_append)
    (simp add: path_words_def word_ok_def split_word)

text \<open>
  C32.  Normalising an absolute path gives a canonical path: a slash, then words that are neither
  empty nor \<open>.\<close> nor \<open>..\<close>, separated by single slashes.  Normalising again changes nothing, and the
  words mean what they should: a further word is appended, a further \<open>.\<close> changes nothing, and a
  further \<open>..\<close> takes the last word away (nothing above the root).
\<close>

theorem normalize_path_canonical:
  assumes "p = [] \<or> hd p = slash"
  shows "normalize_path p = slash # join_slash (split_path p) \<and> (\<forall>w \<in> set (split_path p). plain_word w) \<and>
    normalize_path (normalize_path p) = normalize_path p \<and>
    split_path (p @ ''/.'') = split_path p \<and> split_path (p @ ''/..'') = butlast (split_path p) \<and>
    (\<forall>w. plain_word w \<longrightarrow> split_path (p @ slash # w) = split_path p @ [w])"
proof -
  have abs: "split_path (p @ slash # w) = meaning (p @ slash # w)" for w
    using assms by (intro split_absolute) (cases p; simp)
  have "word_ok ''.''" "word_ok ''..''" by (simp_all add: word_ok_def)
  then have dots: "split_path (p @ ''/.'') = meaning p" "split_path (p @ ''/..'') = butlast (meaning p)"
    using abs [of "''.''"] abs [of "''..''"] meaning_append [of "''.''" p] meaning_append [of "''..''" p] by simp_all
  have "\<forall>w. plain_word w \<longrightarrow> split_path (p @ slash # w) = meaning p @ [w]"
    using abs meaning_append [of _ p] by (simp add: plain_word_def)
  then show ?thesis
    using dots assms meaning_plain [of _ p] normalize_absolute [OF assms] normalize_twice [of p]
    by (simp only: split_absolute [OF assms] canonical_def) blast
qed

theorem normalize_path_canonical_witness:
  "normalize_path ''/a/./b/../c//'' = ''/a/c'' \<and>
    normalize_path (normalize_path ''/a/./b/../c//'') = ''/a/c'' \<and>
    split_path ''/a/./b/../c//'' = [''a'', ''c'']"
  using normalize_path_canonical [of "''/a/./b/../c//''"]
  by (simp add: normalize_path_def split_path_def path_words_def trim_slashes_def Let_def)

text \<open>
  A relative path keeps its \<open>.\<close> and \<open>..\<close> components after one normalisation (only a slash
  is put in front of it), so normalising is not idempotent there; a second normalisation takes
  them out.
\<close>

theorem normalize_relative_keeps_dots:
  assumes "p \<noteq> []" and "hd p \<noteq> slash"
  shows "path_words (normalize_path p) = path_words p \<and>
    split_path p = path_words p \<and>
    normalize_path (normalize_path p) = slash # join_slash (fold_dots (path_words p) [])"
proof -
  have "trim_slashes p \<noteq> []" "normalize_path p = slash # trim_slashes p"
    using assms normalize_relative [OF assms] by (cases p; auto simp: trim_slashes_def dropWhile_eq_Nil_conv)+
  then show ?thesis using normalize_twice [of p]
    by (auto simp: split_path_def Let_def canonical_def meaning_def)
qed

theorem normalize_relative_keeps_dots_witness:
  "split_path ''a/../b'' = [''a'', ''..'', ''b''] \<and>
    normalize_path (normalize_path ''a/../b'') = ''/b''"
  using normalize_relative_keeps_dots [of "''a/../b''"] by (simp add: path_words_def)

end
