(* ===== verification/Db_Value.thy ===== *)
theory Db_Value
  imports Prelude
begin

text \<open>
  Column values as \<open>DbConn::query\<close> of \<open>db.rs\<close> hands them out.  The driver
  (\<open>tokio_postgres\<close>) is outside the program: what a column of the server converts to is a
  parameter, the record \<open>driver\<close> of its four \<open>try_get\<close> conversions.
\<close>

section \<open>Values\<close>

text \<open>A floating point number is kept as its 64 bits.\<close>

type_synonym f64 = "64 word"

datatype db_value =
    Integer i64
  | Real f64
  | Text string
  | Blob bytes
  | Null

fun as_integer :: "db_value \<Rightarrow> i64 option" where
  "as_integer (Integer i) = Some i"
| "as_integer _ = None"

record 'v driver =
  get_i64 :: "'v \<Rightarrow> i64 option"
  get_f64 :: "'v \<Rightarrow> f64 option"
  get_string :: "'v \<Rightarrow> string option"
  get_bytes :: "'v \<Rightarrow> bytes option"

text \<open>The chain of \<open>try_get\<close> calls of \<open>DbConn::query\<close>.\<close>

definition decode_column :: "'v driver \<Rightarrow> 'v \<Rightarrow> db_value" where
  "decode_column D v =
    (case get_i64 D v of Some i \<Rightarrow> Integer i
     | None \<Rightarrow> (case get_f64 D v of Some f \<Rightarrow> Real f
     | None \<Rightarrow> (case get_string D v of Some s \<Rightarrow> Text s
     | None \<Rightarrow> (case get_bytes D v of Some b \<Rightarrow> Blob b
     | None \<Rightarrow> Null))))"

text \<open>\<open>row.get_value(0).ok().and_then(|v| v.as_integer().copied()).unwrap_or(0)\<close>\<close>

definition integer_or_zero :: "'v driver \<Rightarrow> 'v \<Rightarrow> i64" where
  "integer_or_zero D v = (case as_integer (decode_column D v) of None \<Rightarrow> 0 | Some i \<Rightarrow> i)"

section \<open>The column types of the server\<close>

text \<open>
  The columns the program reads: BIGINT, DOUBLE PRECISION, TEXT, BYTEA, and NUMERIC, the type of
  \<open>SUM\<close> and \<open>AVG\<close> over BIGINT.
\<close>

datatype pg_column =
    PgInt8 i64
  | PgFloat8 f64
  | PgText string
  | PgBytea bytes
  | PgNumeric int

text \<open>
  What the driver documents: a Rust type converts from exactly the SQL types it lists, and no
  conversion the chain tries lists NUMERIC.
\<close>

locale pg_driver =
  fixes D :: "pg_column driver"
  assumes int8: "get_i64 D (PgInt8 i) = Some i"
    and numeric: "get_i64 D (PgNumeric n) = None" "get_f64 D (PgNumeric n) = None"
      "get_string D (PgNumeric n) = None" "get_bytes D (PgNumeric n) = None"
    and texts: "get_i64 D (PgText s) = None" "get_f64 D (PgText s) = None" "get_string D (PgText s) = Some s"
begin

lemma decode_text: "decode_column D (PgText s) = Text s"
  by (simp add: decode_column_def texts)

lemma decode_int8: "decode_column D (PgInt8 i) = Integer i"
  by (simp add: decode_column_def int8)

lemma decode_numeric: "decode_column D (PgNumeric n) = Null"
  by (simp add: decode_column_def numeric)

lemma integer_int8: "integer_or_zero D (PgInt8 i) = i"
  by (simp add: integer_or_zero_def decode_int8)

lemma integer_numeric: "integer_or_zero D (PgNumeric n) = 0"
  by (simp add: integer_or_zero_def decode_numeric)

end

text \<open>A driver with these conversions.\<close>

definition pg_types :: "pg_column driver" where
  "pg_types =
    \<lparr>get_i64 = (\<lambda>v. case v of PgInt8 i \<Rightarrow> Some i | _ \<Rightarrow> None),
     get_f64 = (\<lambda>v. case v of PgFloat8 f \<Rightarrow> Some f | _ \<Rightarrow> None),
     get_string = (\<lambda>v. case v of PgText s \<Rightarrow> Some s | _ \<Rightarrow> None),
     get_bytes = (\<lambda>v. case v of PgBytea b \<Rightarrow> Some b | _ \<Rightarrow> None)\<rparr>"

interpretation pg: pg_driver pg_types
  by unfold_locales (simp_all add: pg_types_def)

end
