(* ===== verification/Path_Ops.thy ===== *)
theory Path_Ops
  imports Inode_Ops Paths Db_Value
begin

text \<open>
  The path-based operations of \<open>SecAFS\<close> (the inherent methods of \<open>filesystem/secafs.rs\<close>):
  resolution through the entry cache, symbolic links, and the operations that take a path.
  Methods that share their name with the inode-based interface carry the suffix \<open>_path\<close>.
\<close>

section \<open>Resolution\<close>

fun resolve_from :: "'l lru_ops \<Rightarrow> i64 \<Rightarrow> string list \<Rightarrow> ('l, i64 option) fs_oper" where
  "resolve_from L current_ino [] = ret (Some current_ino)"
| "resolve_from L current_ino (component # components) =
    bnd (cache_get L current_ino component) (\<lambda>hit.
      case hit of
        Some cached_ino \<Rightarrow> resolve_from L cached_ino components
      | None \<Rightarrow>
          bnd (query (\<lambda>t. filter (\<lambda>d. d_slot d = (current_ino, component)) (fs_dentry t))) (\<lambda>rows.
          if length rows > 1 then throw (Fs InvalidPath)
          else if rows = [] then ret None
          else
            let child_ino = d_ino (last rows)
            in sq (cache_insert L current_ino component child_ino)
                  (resolve_from L child_ino components)))"

definition resolve_path_with_conn :: "'l lru_ops \<Rightarrow> string \<Rightarrow> ('l, i64 option) fs_oper" where
  "resolve_path_with_conn L path = resolve_from L ROOT_INO (split_path path)"

definition resolve_path :: "'l lru_ops \<Rightarrow> string \<Rightarrow> ('l, i64 option) fs_oper" where
  "resolve_path L path = sq get_connection (resolve_path_with_conn L path)"

definition lstat :: "'l lru_ops \<Rightarrow> string \<Rightarrow> ('l, stats option) fs_oper" where
  "lstat L path =
    sq get_connection
    (bnd (resolve_path_with_conn L (normalize_path path)) (\<lambda>r.
      case r of None \<Rightarrow> ret None | Some ino \<Rightarrow> getattr_with_conn ino))"

definition readlink_with_conn :: "'l lru_ops \<Rightarrow> string \<Rightarrow> ('l, string option) fs_oper" where
  "readlink_with_conn L path =
    bnd (resolve_path_with_conn L (normalize_path path)) (\<lambda>r.
    case r of
      None \<Rightarrow> ret None
    | Some ino \<Rightarrow>
        bnd (select_mode ino) (\<lambda>m.
        case m of
          None \<Rightarrow> ret None
        | Some mode \<Rightarrow>
            if mode AND S_IFMT \<noteq> S_IFLNK then throw (Fs NotASymlink)
            else query (\<lambda>t. map_option l_target (look l_ino (fs_symlink t) ino))))"

definition readlink_path :: "'l lru_ops \<Rightarrow> string \<Rightarrow> ('l, string option) fs_oper" where
  "readlink_path L path = sq get_connection (readlink_with_conn L path)"

text \<open>
  The loop of \<open>stat\<close> and \<open>stat_with_conn\<close>; the first argument is what is left of the bound on
  symbolic links, \<open>e\<close> the error for a link without a target row (the only difference between
  the two).
\<close>

definition link_target_path :: "string \<Rightarrow> string \<Rightarrow> string" where
  "link_target_path current_path target =
    normalize_path
      (if target \<noteq> [] \<and> hd target = slash then target else join_target current_path target)"

fun follow :: "nat \<Rightarrow> 'l lru_ops \<Rightarrow> fs_error \<Rightarrow> string \<Rightarrow> ('l, stats option) fs_oper" where
  "follow 0 L e current_path = throw (Fs SymlinkLoop)"
| "follow (Suc n) L e current_path =
    bnd (resolve_path_with_conn L current_path) (\<lambda>r.
    case r of
      None \<Rightarrow> ret None
    | Some ino \<Rightarrow>
        bnd (getattr_with_conn ino) (\<lambda>st.
        case st of
          None \<Rightarrow> ret None
        | Some stats \<Rightarrow>
            if is_symlink stats then
              bnd (readlink_with_conn L current_path) (\<lambda>t.
              bnd (ok_or (Fs e) t) (\<lambda>target.
                follow n L e (link_target_path current_path target)))
            else ret (Some stats)))"

definition max_symlink_depth :: nat where "max_symlink_depth = 40"

definition stat :: "'l lru_ops \<Rightarrow> string \<Rightarrow> ('l, stats option) fs_oper" where
  "stat L path =
    sq get_connection (follow max_symlink_depth L NotFound (normalize_path path))"

definition stat_with_conn :: "'l lru_ops \<Rightarrow> string \<Rightarrow> ('l, stats option) fs_oper" where
  "stat_with_conn L path = follow max_symlink_depth L InvalidPath (normalize_path path)"

text \<open>
  How the creating operations find the directory and the name: the root has neither, and the
  parent must exist.
\<close>

definition resolve_parent :: "'l lru_ops \<Rightarrow> string list \<Rightarrow> ('l, i64) fs_oper" where
  "resolve_parent L components =
    bnd (resolve_path_with_conn L (parent_path components)) (\<lambda>r. ok_or (Fs NotFound) r)"

definition locate_path :: "'l lru_ops \<Rightarrow> string \<Rightarrow> ('l, i64 \<times> string) fs_oper" where
  "locate_path L path =
    (let components = split_path path in
     if components = [] then throw (Fs RootOperation)
     else bnd (resolve_parent L components) (\<lambda>parent_ino. ret (parent_ino, last components)))"

section \<open>Creation\<close>

definition mkdir_path :: "'l lru_ops \<Rightarrow> clock \<Rightarrow> string \<Rightarrow> u32 \<Rightarrow> u32 \<Rightarrow> ('l, unit) fs_oper" where
  "mkdir_path L now path uid gid =
    sq get_connection
    (bnd (locate_path L (normalize_path path)) (\<lambda>(parent_ino, name).
     bnd (lookup_child parent_ino name) (\<lambda>existing.
     if existing \<noteq> None then throw (Fs AlreadyExists)
     else
       bnd (clock_now now) (\<lambda>(secs, nsec).
       bnd (insert_inode (new_inode DEFAULT_DIR_MODE 0 uid gid 0 0 secs nsec)) (\<lambda>ino.
       sq (insert_dentry name parent_ino ino)
       (sq (update_inode ino (\<lambda>r. r\<lparr>i_nlink := 2\<rparr>))
       (sq (update_inode parent_ino (\<lambda>r. set_cmtime secs nsec (add_nlink 1 r)))
           (cache_insert L parent_ino name ino))))))))"

definition mknod_path ::
  "'l lru_ops \<Rightarrow> clock \<Rightarrow> string \<Rightarrow> u32 \<Rightarrow> u64 \<Rightarrow> u32 \<Rightarrow> u32 \<Rightarrow> ('l, unit) fs_oper" where
  "mknod_path L now path mode rdev uid gid =
    sq get_connection
    (bnd (locate_path L (normalize_path path)) (\<lambda>(parent_ino, name).
     bnd (lookup_child parent_ino name) (\<lambda>existing.
     if existing \<noteq> None then throw (Fs AlreadyExists)
     else
       bnd (clock_now now) (\<lambda>(secs, nsec).
       bnd (insert_inode (new_inode mode 0 uid gid 0 (as_i64 rdev) secs nsec)) (\<lambda>ino.
       sq (insert_dentry name parent_ino ino)
       (sq (update_inode ino (add_nlink 1))
           (cache_insert L parent_ino name ino)))))))"

definition create_file_path ::
  "'l lru_ops \<Rightarrow> nat \<Rightarrow> clock \<Rightarrow> string \<Rightarrow> u32 \<Rightarrow> u32 \<Rightarrow> u32 \<Rightarrow> ('l, stats \<times> file_handle) fs_oper" where
  "create_file_path L chunk_size now path mode uid gid =
    sq get_connection
    (bnd (locate_path L (normalize_path path)) (\<lambda>(parent_ino, name).
     bnd (lookup_child parent_ino name) (\<lambda>existing.
     if existing \<noteq> None then throw (Fs AlreadyExists)
     else
       sq begin_txn
       (bnd (clock_now now) (\<lambda>(secs, nsec).
       let file_mode = S_IFREG OR (mode AND PERM_BITS)
       in bnd (insert_inode (new_inode file_mode 1 uid gid 0 0 secs nsec)) (\<lambda>ino.
          sq (insert_dentry name parent_ino ino)
          (sq commit_txn
          (sq (cache_insert L parent_ino name ino)
              (ret (new_stats ino file_mode 1 uid gid 0 0 secs nsec,
                    \<lparr>f_ino = ino, f_chunk_size = chunk_size\<rparr>))))))))))"

text \<open>\<open>symlink\<close> unwraps the clock: before the epoch it panics.\<close>

definition symlink_path ::
  "'l lru_ops \<Rightarrow> clock \<Rightarrow> string \<Rightarrow> string \<Rightarrow> u32 \<Rightarrow> u32 \<Rightarrow> ('l, unit) fs_oper" where
  "symlink_path L now target linkpath uid gid =
    sq get_connection
    (bnd (locate_path L (normalize_path linkpath)) (\<lambda>(parent_ino, name).
     bnd (lookup_child parent_ino name) (\<lambda>existing.
     if existing \<noteq> None then throw (Fs AlreadyExists)
     else
       bnd (ok_or Panic now) (\<lambda>(secs, nsec).
       let mode = S_IFLNK OR 0x1FF; sz = int (length target)
       in bnd (insert_inode (new_inode mode 0 uid gid sz 0 secs nsec)) (\<lambda>ino.
          sq (insert_symlink \<lparr>l_ino = ino, l_target = target\<rparr>)
          (sq (insert_dentry name parent_ino ino)
          (sq (update_inode ino (add_nlink 1))
              (cache_insert L parent_ino name ino))))))))"

definition link_path :: "'l lru_ops \<Rightarrow> string \<Rightarrow> string \<Rightarrow> ('l, unit) fs_oper" where
  "link_path L oldpath newpath =
    sq get_connection
    (let oldpath = normalize_path oldpath; newpath = normalize_path newpath;
         components = split_path newpath
     in if components = [] then throw (Fs RootOperation)
        else
          bnd (resolve_path_with_conn L oldpath) (\<lambda>r.
          bnd (ok_or (Fs NotFound) r) (\<lambda>ino.
          bnd (select_mode ino) (\<lambda>m.
          bnd (ok_or (Fs NotFound) m) (\<lambda>mode.
          if mode AND S_IFMT = S_IFDIR then throw (Fs IsADirectory)
          else
            bnd (resolve_parent L components) (\<lambda>parent_ino.
            let name = last components
            in bnd (lookup_child parent_ino name) (\<lambda>existing.
               if existing \<noteq> None then throw (Fs AlreadyExists)
               else
                 sq (insert_dentry name parent_ino ino)
                 (sq (update_inode ino (add_nlink 1))
                     (cache_insert L parent_ino name ino)))))))))"

section \<open>Reading and writing\<close>

definition read_file :: "'l lru_ops \<Rightarrow> string \<Rightarrow> ('l, bytes option) fs_oper" where
  "read_file L path =
    sq get_connection
    (bnd (resolve_path_with_conn L path) (\<lambda>r.
    case r of
      None \<Rightarrow> ret None
    | Some ino \<Rightarrow>
        bnd (query (\<lambda>t. sort_key b_index (filter (\<lambda>b. b_ino b = ino) (fs_data t)))) (\<lambda>rows.
          ret (Some (concat (map b_data rows))))))"

text \<open>The loop of the path-based \<open>pread\<close>: the skip applies as long as nothing has been read.\<close>

fun collect_rows :: "nat \<Rightarrow> nat \<Rightarrow> (i64 \<times> bytes) list \<Rightarrow> bytes \<Rightarrow> bytes" where
  "collect_rows skip0 sz [] result = result"
| "collect_rows skip0 sz ((i, d) # rows) result =
    (let skip = (if result = [] then skip0 else 0) in
     if skip \<ge> length d then collect_rows skip0 sz rows result
     else
       let remaining = sz - length result; n = min (length d - skip) remaining
       in collect_rows skip0 sz rows (result @ take n (drop skip d)))"

text \<open>
  A capacity beyond \<open>isize::MAX\<close> panics in \<open>Vec::with_capacity\<close>, a chunk size of zero in the
  division.
\<close>

definition pread_path ::
  "'l lru_ops \<Rightarrow> nat \<Rightarrow> string \<Rightarrow> u64 \<Rightarrow> u64 \<Rightarrow> ('l, bytes option) fs_oper" where
  "pread_path L chunk_size path offset sz =
    sq get_connection
    (bnd (resolve_path_with_conn L path) (\<lambda>r.
    case r of
      None \<Rightarrow> ret None
    | Some ino \<Rightarrow>
        if chunk_size = 0 then throw Panic
        else
          let start_chunk = offset div chunk_size;
              end_chunk = (u64_add offset sz - 1) div chunk_size
          in bnd (query (\<lambda>t. select_chunks ino (as_i64 start_chunk) (as_i64 end_chunk) (fs_data t)))
             (\<lambda>rows.
               if sz \<ge> 2 ^ 63 then throw Panic
               else ret (Some (collect_rows (offset mod chunk_size) sz rows [])))))"

text \<open>Unchecked subtraction of two \<open>u64\<close> values: it wraps.\<close>

definition u64_sub :: "u64 \<Rightarrow> u64 \<Rightarrow> u64" where
  "u64_sub a b = (a + 2 ^ 64 - b) mod 2 ^ 64"

text \<open>\<open>v.resize(n, 0)\<close>\<close>

definition resize_zero :: "nat \<Rightarrow> bytes \<Rightarrow> bytes" where
  "resize_zero n v = take n v @ replicate (n - length v) 0"

text \<open>
  \<open>dst[a..b].copy_from_slice(&src[x..y])\<close>: nothing when a bound or the lengths make it panic.
\<close>

definition copy_slice :: "bytes \<Rightarrow> nat \<Rightarrow> nat \<Rightarrow> bytes \<Rightarrow> nat \<Rightarrow> nat \<Rightarrow> bytes option" where
  "copy_slice dst a b src x y =
    (if a \<le> b \<and> b \<le> length dst \<and> x \<le> y \<and> y \<le> length src \<and> b - a = y - x
     then Some (take a dst @ take (y - x) (drop x src) @ drop b dst) else None)"

text \<open>One round of the chunk loop of the path-based \<open>pwrite\<close>.\<close>

definition write_chunk_path ::
  "nat \<Rightarrow> i64 \<Rightarrow> u64 \<Rightarrow> u64 \<Rightarrow> bytes \<Rightarrow> u64 \<Rightarrow> ('z conn_scheme, unit) oper" where
  "write_chunk_path cs ino current_size offset data chunk_idx =
    (let write_end = u64_add offset (length data);
         end_chunk = u64_sub write_end 1 div cs;
         chunk_start = chunk_idx * cs;
         data_start = (if offset > chunk_start then offset - chunk_start else 0);
         data_end = min cs (u64_sub write_end chunk_start);
         src_start = (if chunk_start > offset then chunk_start - offset else 0);
         src_end = min (length data) (u64_add src_start (u64_sub data_end data_start));
         needs_read = (data_start > 0 \<or> data_end < cs)
     in bnd (if needs_read then
               bnd (query (\<lambda>t. look b_key (fs_data t) (ino, as_i64 chunk_idx))) (\<lambda>row.
                 ret (case row of None \<Rightarrow> replicate cs 0 | Some b \<Rightarrow> resize_zero cs (b_data b)))
             else ret (replicate cs 0)) (\<lambda>chunk_data.
        bnd (ok_or Panic (copy_slice chunk_data data_start data_end data src_start src_end)) (\<lambda>chunk_data.
        let actual_len =
              (if chunk_idx = end_chunk then
                 max (u64_sub write_end chunk_start)
                     (if current_size > chunk_start then min (current_size - chunk_start) cs else 0)
               else cs)
        in sq (delete_data (\<lambda>b. b_key b = (ino, as_i64 chunk_idx)))
           (if actual_len > length chunk_data then throw Panic
            else
              sq (insert_data \<lparr>b_ino = ino, b_index = as_i64 chunk_idx, b_data = take actual_len chunk_data\<rparr>)
                 (ret ())))))"

text \<open>The inode of the path, created when there is none: number, size before, and whether it is new.\<close>

definition open_or_create ::
  "'l lru_ops \<Rightarrow> clock \<Rightarrow> string \<Rightarrow> i64 \<Rightarrow> string \<Rightarrow> u64 \<Rightarrow> ('l, i64 \<times> u64 \<times> bool) fs_oper" where
  "open_or_create L now path parent_ino name write_end =
    bnd (resolve_path_with_conn L path) (\<lambda>r.
    case r of
      Some ino \<Rightarrow> bnd (select_size ino) (\<lambda>sz. ret (ino, sz, False))
    | None \<Rightarrow>
        bnd (clock_now now) (\<lambda>(secs, nsec).
        bnd (insert_inode (new_inode DEFAULT_FILE_MODE 1 0 0 (as_i64 write_end) 0 secs nsec)) (\<lambda>ino.
        sq (insert_dentry name parent_ino ino) (ret (ino, 0, True)))))"

definition pwrite_path_body ::
  "'l lru_ops \<Rightarrow> nat \<Rightarrow> clock \<Rightarrow> clock \<Rightarrow> string \<Rightarrow> i64 \<Rightarrow> string \<Rightarrow> u64 \<Rightarrow> bytes \<Rightarrow> ('l, unit) fs_oper" where
  "pwrite_path_body L cs now_create now path parent_ino name offset data =
    (let write_end = u64_add offset (length data) in
     bnd (open_or_create L now_create path parent_ino name write_end) (\<lambda>(ino, current_size, is_new).
     if data = [] then
       bnd (clock_now now) (\<lambda>(secs, nsec).
       sq (update_inode ino (\<lambda>r. r\<lparr>i_mtime := secs, i_mtime_nsec := nsec\<rparr>)) (ret ()))
     else if cs = 0 then throw Panic
     else
       sq (for_each (write_chunk_path cs ino current_size offset data)
             [offset div cs..<u64_sub write_end 1 div cs + 1])
       (if \<not> is_new then
          let new_size = max current_size write_end
          in bnd (clock_now now) (\<lambda>(secs, nsec).
             sq (update_inode ino
                  (\<lambda>r. r\<lparr>i_size := as_i64 new_size, i_mtime := secs, i_mtime_nsec := nsec\<rparr>)) (ret ()))
        else ret ())))"

definition pwrite_path ::
  "'l lru_ops \<Rightarrow> nat \<Rightarrow> clock \<Rightarrow> clock \<Rightarrow> string \<Rightarrow> u64 \<Rightarrow> bytes \<Rightarrow> ('l, unit) fs_oper" where
  "pwrite_path L chunk_size now_create now path offset data =
    sq get_connection
    (let path = normalize_path path in
     bnd (locate_path L path) (\<lambda>(parent_ino, name).
       transact (pwrite_path_body L chunk_size now_create now path parent_ino name offset data)))"

text \<open>The three cases of the path-based \<open>truncate\<close>: to zero, shrinking, extending.\<close>

definition shrink_chunks :: "nat \<Rightarrow> i64 \<Rightarrow> u64 \<Rightarrow> ('z conn_scheme, unit) oper" where
  "shrink_chunks cs ino new_size =
    (let last_chunk_idx = (new_size - 1) div cs;
         end_in_last_chunk = (new_size - 1) mod cs + 1
     in sq (delete_data (\<lambda>b. b_ino b = ino \<and> as_i64 last_chunk_idx < b_index b))
        (if end_in_last_chunk < cs then
           bnd (query (\<lambda>t. look b_key (fs_data t) (ino, as_i64 last_chunk_idx))) (\<lambda>row.
           case row of
             None \<Rightarrow> ret ()
           | Some b \<Rightarrow>
               if length (b_data b) > end_in_last_chunk
               then sq (update_data (\<lambda>r. b_key r = (ino, as_i64 last_chunk_idx))
                         (\<lambda>r. r\<lparr>b_data := take end_in_last_chunk (b_data b)\<rparr>)) (ret ())
               else ret ())
         else ret ()))"

definition pad_chunk :: "nat \<Rightarrow> i64 \<Rightarrow> u64 \<Rightarrow> u64 \<Rightarrow> ('z conn_scheme, unit) oper" where
  "pad_chunk cs ino last_idx new_size =
    (let last_new_chunk = (new_size - 1) div cs in
     bnd (query (\<lambda>t. look b_key (fs_data t) (ino, as_i64 last_idx))) (\<lambda>row.
     case row of
       None \<Rightarrow> ret ()
     | Some b \<Rightarrow>
         let needed_len = (if last_idx = last_new_chunk then (new_size - 1) mod cs + 1 else cs)
         in if needed_len > length (b_data b)
            then sq (update_data (\<lambda>r. b_key r = (ino, as_i64 last_idx))
                      (\<lambda>r. r\<lparr>b_data := resize_zero needed_len (b_data b)\<rparr>)) (ret ())
            else ret ()))"

definition extend_chunks :: "nat \<Rightarrow> i64 \<Rightarrow> u64 \<Rightarrow> u64 \<Rightarrow> ('z conn_scheme, unit) oper" where
  "extend_chunks cs ino current_size new_size =
    (let last_existing_chunk = (if current_size = 0 then None else Some ((current_size - 1) div cs));
         last_new_chunk = (new_size - 1) div cs;
         start_new_chunk = (case last_existing_chunk of None \<Rightarrow> 0 | Some i \<Rightarrow> i + 1)
     in sq (case last_existing_chunk of None \<Rightarrow> ret () | Some last_idx \<Rightarrow> pad_chunk cs ino last_idx new_size)
        (for_each (\<lambda>chunk_idx.
           let chunk_len = (if chunk_idx = last_new_chunk then (new_size - 1) mod cs + 1 else cs)
           in sq (insert_data \<lparr>b_ino = ino, b_index = as_i64 chunk_idx, b_data = replicate chunk_len 0\<rparr>) (ret ()))
           [start_new_chunk..<last_new_chunk + 1]))"

definition truncate_path_body ::
  "nat \<Rightarrow> clock \<Rightarrow> i64 \<Rightarrow> u64 \<Rightarrow> u64 \<Rightarrow> ('z conn_scheme, unit) oper" where
  "truncate_path_body cs now ino current_size new_size =
    sq (if new_size = 0 then sq (delete_data (\<lambda>b. b_ino b = ino)) (ret ())
        else if new_size = current_size then ret ()
        else if cs = 0 then throw Panic
        else if new_size < current_size then shrink_chunks cs ino new_size
        else extend_chunks cs ino current_size new_size)
    (bnd (clock_now now) (\<lambda>(secs, nsec).
      sq (update_inode ino
           (\<lambda>r. r\<lparr>i_size := as_i64 new_size, i_mtime := secs, i_mtime_nsec := nsec\<rparr>)) (ret ())))"

definition truncate_path :: "'l lru_ops \<Rightarrow> nat \<Rightarrow> clock \<Rightarrow> string \<Rightarrow> u64 \<Rightarrow> ('l, unit) fs_oper" where
  "truncate_path L chunk_size now path new_size =
    sq get_connection
    (bnd (resolve_path_with_conn L (normalize_path path)) (\<lambda>r.
     bnd (ok_or (Fs NotFound) r) (\<lambda>ino.
     bnd (select_size ino) (\<lambda>current_size.
       transact (truncate_path_body chunk_size now ino current_size new_size)))))"

section \<open>Listing\<close>

text \<open>Unlike the inode-based listing, these do not look at the inode at all.\<close>

definition readdir_path :: "(string \<Rightarrow> 'k :: linorder) \<Rightarrow> i64 \<Rightarrow> ('z conn_scheme, string list option) oper"
  where
  "readdir_path coll ino =
    sq get_connection
    (bnd (query (\<lambda>t. sort_key coll (map d_name (filter (\<lambda>d. d_parent d = ino) (fs_dentry t)))))
      (\<lambda>names. ret (Some (filter (\<lambda>n. n \<noteq> '''') names))))"

definition readdir_plus_path ::
  "(string \<Rightarrow> 'k :: linorder) \<Rightarrow> i64 \<Rightarrow> ('z conn_scheme, dir_entry list option) oper" where
  "readdir_plus_path coll ino =
    sq get_connection
    (bnd (query (\<lambda>t. sort_key (\<lambda>e. coll (de_name e))
          (concat (map (\<lambda>d. case look i_ino (fs_inode t) (d_ino d) of
               None \<Rightarrow> []
             | Some r \<Rightarrow> [\<lparr>de_name = d_name d, de_stats = build_stats_from_row r\<rparr>])
            (filter (\<lambda>d. d_parent d = ino) (fs_dentry t))))))
      (\<lambda>es. ret (Some (filter (\<lambda>e. de_name e \<noteq> '''') es))))"

section \<open>Removal and rename\<close>

text \<open>
  \<open>remove\<close> takes the number of the entry from the path but its type from \<open>stat_with_conn\<close>, which
  follows symbolic links.
\<close>

definition remove_entry ::
  "'l lru_ops \<Rightarrow> clock \<Rightarrow> i64 \<Rightarrow> stats \<Rightarrow> i64 \<Rightarrow> string \<Rightarrow> ('l, unit) fs_oper" where
  "remove_entry L now ino stats parent_ino name =
    sq (delete_dentry parent_ino name)
    (sq (cache_remove L parent_ino name)
    (sq (update_inode ino (add_nlink (- 1)))
    (sq (if is_directory stats then
           bnd (clock_now now) (\<lambda>(secs, nsec).
           sq (update_inode parent_ino (\<lambda>r. set_cmtime secs nsec (add_nlink (- 1) r))) (ret ()))
         else ret ())
    (bnd (get_link_count ino) (\<lambda>link_count.
     if link_count = 0 then release_inode ino else ret ())))))"

definition remove_path :: "'l lru_ops \<Rightarrow> clock \<Rightarrow> string \<Rightarrow> ('l, unit) fs_oper" where
  "remove_path L now path =
    sq get_connection
    (let path = normalize_path path; components = split_path path
     in if components = [] then throw (Fs RootOperation)
        else
          bnd (resolve_path_with_conn L path) (\<lambda>r.
          bnd (ok_or (Fs NotFound) r) (\<lambda>ino.
          if ino = ROOT_INO then throw (Fs RootOperation)
          else
            bnd (stat_with_conn L path) (\<lambda>st.
            bnd (ok_or (Fs NotFound) st) (\<lambda>stats.
            bnd (count_children ino) (\<lambda>count.
            if count > 0 then throw (Fs NotEmpty)
            else
              bnd (resolve_parent L components) (\<lambda>parent_ino.
                remove_entry L now ino stats parent_ino (last components))))))))"

text \<open>The path-based \<open>chown\<close>: no check that the inode exists, no change time.\<close>

definition chown_path :: "i64 \<Rightarrow> u32 option \<Rightarrow> u32 option \<Rightarrow> ('z conn_scheme, unit) oper" where
  "chown_path ino uid gid =
    (if uid = None \<and> gid = None then ret ()
     else
       sq get_connection
       (sq (update_inode ino (\<lambda>r. r\<lparr>
              i_uid := (case uid of None \<Rightarrow> i_uid r | Some u \<Rightarrow> i64_of_u32 u),
              i_gid := (case gid of None \<Rightarrow> i_gid r | Some g \<Rightarrow> i64_of_u32 g)\<rparr>))
           (ret ())))"

definition replace_target_path ::
  "'l lru_ops \<Rightarrow> stats \<Rightarrow> string \<Rightarrow> i64 \<Rightarrow> string \<Rightarrow> ('l, unit) fs_oper" where
  "replace_target_path L src_stats to_path dst_parent_ino dst_name =
    bnd (resolve_path_with_conn L to_path) (\<lambda>dst.
    case dst of
      None \<Rightarrow> ret ()
    | Some dst_ino \<Rightarrow>
        bnd (stat_with_conn L to_path) (\<lambda>st.
        bnd (ok_or (Fs NotFound) st) (\<lambda>dst_stats.
        if is_directory dst_stats \<and> \<not> is_directory src_stats then throw (Fs IsADirectory)
        else if \<not> is_directory dst_stats \<and> is_directory src_stats then throw (Fs NotADirectory)
        else
          bnd (if is_directory dst_stats then count_children dst_ino else ret 0) (\<lambda>count.
          if count > 0 then throw (Fs NotEmpty)
          else
            sq (delete_dentry dst_parent_ino dst_name)
            (sq (update_inode dst_ino (add_nlink (- 1)))
            (bnd (get_link_count dst_ino) (\<lambda>link_count.
             if link_count = 0 then release_inode dst_ino else ret ())))))))"

definition rename_path_body ::
  "'l lru_ops \<Rightarrow> clock \<Rightarrow> i64 \<Rightarrow> stats \<Rightarrow> string \<Rightarrow> i64 \<Rightarrow> string \<Rightarrow> i64 \<Rightarrow> string \<Rightarrow> ('l, unit) fs_oper" where
  "rename_path_body L now src_ino src_stats to_path src_parent_ino src_name dst_parent_ino dst_name =
    sq (replace_target_path L src_stats to_path dst_parent_ino dst_name)
    (sq (update_dentries (\<lambda>d. d_slot d = (src_parent_ino, src_name))
          (\<lambda>d. d\<lparr>d_parent := dst_parent_ino, d_name := dst_name\<rparr>))
    (rename_tail now src_ino src_stats src_parent_ino dst_parent_ino))"

definition starts_with :: "string \<Rightarrow> string \<Rightarrow> bool" where
  "starts_with s pre \<longleftrightarrow> take (length pre) s = pre"

text \<open>A directory may not move into itself or below itself; the test compares the paths.\<close>

definition into_itself :: "string \<Rightarrow> string \<Rightarrow> bool" where
  "into_itself from_path to_path \<longleftrightarrow>
    starts_with to_path (from_path @ ''/'') \<or> to_path = from_path"

definition rename_path :: "'l lru_ops \<Rightarrow> clock \<Rightarrow> string \<Rightarrow> string \<Rightarrow> ('l, unit) fs_oper" where
  "rename_path L now from to =
    sq get_connection
    (let from_path = normalize_path from; to_path = normalize_path to in
     if from_path = ''/'' then throw (Fs RootOperation)
     else
       bnd (resolve_path_with_conn L from_path) (\<lambda>r.
       bnd (ok_or (Fs NotFound) r) (\<lambda>src_ino.
       bnd (stat_with_conn L from_path) (\<lambda>st.
       bnd (ok_or (Fs NotFound) st) (\<lambda>src_stats.
       if is_directory src_stats \<and> into_itself from_path to_path then throw (Fs InvalidRename)
       else
         let from_components = split_path from_path; to_components = split_path to_path in
         if from_components = [] then throw (Fs InvalidPath)
         else
           bnd (resolve_parent L from_components) (\<lambda>src_parent_ino.
           if to_components = [] then throw (Fs RootOperation)
           else
             bnd (resolve_parent L to_components) (\<lambda>dst_parent_ino.
             let src_name = last from_components; dst_name = last to_components in
             sq (transact (rename_path_body L now src_ino src_stats to_path
                   src_parent_ino src_name dst_parent_ino dst_name))
             (sq (cache_remove L src_parent_ino src_name)
             (sq (cache_remove L dst_parent_ino dst_name)
                 (cache_insert L dst_parent_ino dst_name src_ino))))))))))"

section \<open>Statistics and open\<close>

text \<open>
  \<open>COUNT(*)\<close> is a BIGINT column; \<open>COALESCE(SUM(size), 0)\<close> over a BIGINT column is NUMERIC.
\<close>

definition statfs :: "pg_column driver \<Rightarrow> ('z conn_scheme, filesystem_stats) oper" where
  "statfs D =
    sq get_connection
    (bnd (query (\<lambda>t. PgInt8 (int (length (fs_inode t))))) (\<lambda>count.
     bnd (query (\<lambda>t. PgNumeric (sum_list (map i_size (fs_inode t))))) (\<lambda>total.
       ret \<lparr>inodes = as_u64 (integer_or_zero D count), bytes_used = as_u64 (integer_or_zero D total)\<rparr>)))"

definition fsync_path :: "string \<Rightarrow> ('z conn_scheme, unit) oper" where
  "fsync_path path = ret ()"

definition open_path :: "'l lru_ops \<Rightarrow> nat \<Rightarrow> string \<Rightarrow> ('l, file_handle) fs_oper" where
  "open_path L chunk_size path =
    bnd (resolve_path L (normalize_path path)) (\<lambda>r.
    bnd (ok_or (Fs NotFound) r) (\<lambda>ino. ret \<lparr>f_ino = ino, f_chunk_size = chunk_size\<rparr>))"

end
