(* ===== verification/Namespace.thy ===== *)
theory Namespace
  imports Inode_Ops
begin

text \<open>
  The theorems about the inode-based interface: the invariant of the name space (unique keys,
  no dangling entry, every parent a directory, link counts equal to the number of entries),
  the effect of every operation on the name space and the inode table, and the behaviour of
  the cache.
\<close>

section \<open>The invariant of the name space\<close>

definition is_dir :: "inode_row \<Rightarrow> bool" where
  "is_dir r \<longleftrightarrow> mode_type (i_mode r) = S_IFDIR"

definition ino_map :: "tables \<Rightarrow> i64 \<Rightarrow> inode_row option" where
  "ino_map t = look i_ino (fs_inode t)"

text \<open>The number of directory entries that name an inode.\<close>

definition links :: "dentry_row list \<Rightarrow> i64 \<Rightarrow> nat" where
  "links D i = length (filter (\<lambda>d. d_ino d = i) D)"

definition keys_ok :: "tables \<Rightarrow> bool" where
  "keys_ok t \<longleftrightarrow> inode_ok (fs_inode t) \<and> dentry_ok (fs_dentry t) \<and> data_ok (fs_data t) \<and>
    symlink_ok (fs_symlink t)"

text \<open>
  \<open>entries_ok\<close>: an entry names an existing inode and lies in an existing directory.
  \<open>counts_ok\<close>: the link count of an inode that is not a directory is the number of its
  entries, and a directory has at most one.  \<open>owned\<close>: chunks and link targets belong to
  existing inodes.
\<close>

definition entries_ok :: "(i64 \<Rightarrow> inode_row option) \<Rightarrow> dentry_row list \<Rightarrow> bool" where
  "entries_ok I D \<longleftrightarrow>
    (\<forall>d \<in> set D. I (d_ino d) \<noteq> None \<and> (\<exists>r. I (d_parent d) = Some r \<and> is_dir r))"

definition counts_ok :: "(i64 \<Rightarrow> inode_row option) \<Rightarrow> dentry_row list \<Rightarrow> bool" where
  "counts_ok I D \<longleftrightarrow>
    (\<forall>i r. I i = Some r \<longrightarrow>
      (is_dir r \<longrightarrow> links D i < 2) \<and> (\<not> is_dir r \<longrightarrow> i_nlink r = int (links D i)))"

definition owned :: "(i64 \<Rightarrow> inode_row option) \<Rightarrow> i64 set \<Rightarrow> bool" where
  "owned I X \<longleftrightarrow> (\<forall>i \<in> X. I i \<noteq> None)"

definition below_serials :: "'z conn_scheme \<Rightarrow> bool" where
  "below_serials c \<longleftrightarrow>
    (\<forall>i. ino_map (tabs c) i \<noteq> None \<longrightarrow> i < seq_inode c) \<and>
    (\<forall>d \<in> set (fs_dentry (tabs c)). d_id d < seq_dentry c)"

definition ns_inv :: "'z conn_scheme \<Rightarrow> bool" where
  "ns_inv c \<longleftrightarrow>
    keys_ok (tabs c) \<and> below_serials c \<and>
    entries_ok (ino_map (tabs c)) (fs_dentry (tabs c)) \<and>
    counts_ok (ino_map (tabs c)) (fs_dentry (tabs c)) \<and>
    owned (ino_map (tabs c)) (b_ino ` set (fs_data (tabs c)) \<union> l_ino ` set (fs_symlink (tabs c)))"

lemma ns_invD:
  assumes "ns_inv c"
  shows "inode_ok (fs_inode (tabs c))" "dentry_ok (fs_dentry (tabs c))"
    "data_ok (fs_data (tabs c))" "symlink_ok (fs_symlink (tabs c))"
    "below_serials c" "entries_ok (ino_map (tabs c)) (fs_dentry (tabs c))"
    "counts_ok (ino_map (tabs c)) (fs_dentry (tabs c))"
    "owned (ino_map (tabs c)) (b_ino ` set (fs_data (tabs c)) \<union> l_ino ` set (fs_symlink (tabs c)))"
  using assms by (auto simp: ns_inv_def keys_ok_def)

section \<open>Queries in a ready session\<close>

lemma lookup_child_ready [run]:
  assumes "ready c" and "dentry_ok (fs_dentry (tabs c))"
  shows "lookup_child p n c = (Inr (dir_map (tabs c) (p, n)), c)"
proof -
  have "distinct (map d_slot (fs_dentry (tabs c)))" using assms(2) by (simp add: dentry_ok_def)
  from filter_key_look [OF this, of "(p, n)"] show ?thesis
    using assms(1) by (auto simp: lookup_child_def run dir_map_def split: option.splits)
qed

lemma select_mode_ready [run]:
  "ready c \<Longrightarrow> select_mode i c = (Inr (map_option (\<lambda>r. u32_of_i64 (i_mode r)) (ino_map (tabs c) i)), c)"
  by (simp add: select_mode_def run ino_map_def)

lemma getattr_ready [run]:
  "ready c \<Longrightarrow> getattr_with_conn i c = (Inr (map_option build_stats_from_row (ino_map (tabs c) i)), c)"
  by (simp add: getattr_with_conn_def run ino_map_def)

lemma get_link_count_ready [run]:
  "ready c \<Longrightarrow> get_link_count i c =
    (Inr (case ino_map (tabs c) i of None \<Rightarrow> 0 | Some r \<Rightarrow> u32_of_i64 (i_nlink r)), c)"
  by (simp add: get_link_count_def run ino_map_def)

lemma select_ino_ready [run]:
  "ready c \<Longrightarrow> select_ino i c = (Inr (map_option i_ino (ino_map (tabs c) i)), c)"
  by (simp add: select_ino_def run ino_map_def)

lemma count_children_ready [run]:
  "ready c \<Longrightarrow> count_children i c =
    (Inr (length (filter (\<lambda>d. d_parent d = i) (fs_dentry (tabs c)))), c)"
  by (simp add: count_children_def run)

lemma cache_insert_run [simp]:
  "cache_insert L p n i c = (Inr (), c\<lparr>dcache := lru_put L (p, n) i (dcache c)\<rparr>)"
  "cache_remove L p n c = (Inr (), c\<lparr>dcache := lru_pop L (p, n) (dcache c)\<rparr>)"
  by (simp_all add: cache_insert_def cache_remove_def)

lemma is_directory_stats [simp]: "is_directory (build_stats_from_row r) \<longleftrightarrow> is_dir r"
  by (simp add: is_directory_def build_stats_from_row_def is_dir_def mode_type_def)

lemma is_dir_mode: "(u32_of_i64 (i_mode r) AND S_IFMT = S_IFDIR) \<longleftrightarrow> is_dir r"
  by (simp add: is_dir_def mode_type_def)

lemma row_updates [simp]:
  "i_ino (set_ctime s n r) = i_ino r" "i_mode (set_ctime s n r) = i_mode r"
  "i_nlink (set_ctime s n r) = i_nlink r" "i_size (set_ctime s n r) = i_size r"
  "i_ino (set_cmtime s n r) = i_ino r" "i_mode (set_cmtime s n r) = i_mode r"
  "i_nlink (set_cmtime s n r) = i_nlink r" "i_size (set_cmtime s n r) = i_size r"
  "i_ino (add_nlink k r) = i_ino r" "i_mode (add_nlink k r) = i_mode r"
  "i_nlink (add_nlink k r) = i_nlink r + k" "i_size (add_nlink k r) = i_size r"
  by (simp_all add: set_ctime_def set_cmtime_def add_nlink_def)

lemma is_dir_updates [simp]:
  "is_dir (set_ctime s n r) = is_dir r" "is_dir (set_cmtime s n r) = is_dir r"
  "is_dir (add_nlink k r) = is_dir r" "is_dir (r\<lparr>i_nlink := k\<rparr>) = is_dir r"
  by (simp_all add: is_dir_def)

section \<open>Maps after table updates\<close>

lemma look_snoc:
  "key r \<notin> key ` set t \<Longrightarrow> look key (t @ [r]) = (look key t)(key r \<mapsto> r)"
  by (intro ext look_snoc_fresh) (simp add: look_None_iff)

lemma look_delete:
  assumes "distinct (map key t)"
  shows "look key (filter (\<lambda>r. key r \<noteq> k) t) = (look key t)(k := None)"
  by (rule ext) (auto simp: look_filter [OF assms] split: option.splits)

lemma ino_map_None: "ino_map t i = None \<longleftrightarrow> i \<notin> i_ino ` set (fs_inode t)"
  by (simp add: ino_map_def look_None_iff)

lemma fresh_inode:
  "ns_inv c \<Longrightarrow> seq_inode c \<notin> i_ino ` set (fs_inode (tabs c))"
  "ns_inv c \<Longrightarrow> ino_map (tabs c) (seq_inode c) = None"
  by (auto simp: ns_inv_def below_serials_def simp flip: ino_map_None)

lemma inode_ok_snoc:
  "inode_ok t \<Longrightarrow> i_ino r \<notin> i_ino ` set t \<Longrightarrow> inode_ok (t @ [r])"
  by (auto simp: inode_ok_def)

lemma dentry_ok_snoc:
  "dentry_ok t \<Longrightarrow> d_id d \<notin> d_id ` set t \<Longrightarrow> d_slot d \<notin> d_slot ` set t \<Longrightarrow> dentry_ok (t @ [d])"
  by (auto simp: dentry_ok_def)

lemma new_entry_ok:
  assumes "ns_inv c" and "dir_map (tabs c) (p, n) = None"
  shows "dentry_ok (fs_dentry (tabs c) @ [\<lparr>d_id = seq_dentry c, d_name = n, d_parent = p, d_ino = i\<rparr>])"
proof (rule dentry_ok_snoc)
  show "dentry_ok (fs_dentry (tabs c))" using assms(1) by (rule ns_invD)
  show "d_id \<lparr>d_id = seq_dentry c, d_name = n, d_parent = p, d_ino = i\<rparr> \<notin> d_id ` set (fs_dentry (tabs c))"
    using assms(1) by (auto simp: ns_inv_def below_serials_def)
  show "d_slot \<lparr>d_id = seq_dentry c, d_name = n, d_parent = p, d_ino = i\<rparr> \<notin> d_slot ` set (fs_dentry (tabs c))"
    using assms(2) look_None_iff [of d_slot "fs_dentry (tabs c)" "(p, n)"] by (simp add: dir_map_def)
qed

lemma dir_map_snoc:
  assumes "dir_map t (d_parent d, d_name d) = None" and "fs_dentry t' = fs_dentry t @ [d]"
  shows "dir_map t' = (dir_map t)((d_parent d, d_name d) \<mapsto> d_ino d)"
  using assms look_snoc_fresh [of d_slot "fs_dentry t" d] by (intro ext) (auto simp: dir_map_def)

lemma links_snoc: "links (D @ [d]) i = links D i + (if d_ino d = i then 1 else 0)"
  by (simp add: links_def)

lemma links_zero: "links D i = 0 \<longleftrightarrow> (\<forall>d \<in> set D. d_ino d \<noteq> i)"
  by (auto simp: links_def filter_empty_conv)

lemma no_links_absent: "entries_ok I D \<Longrightarrow> I i = None \<Longrightarrow> links D i = 0"
  by (auto simp: entries_ok_def links_zero)

section \<open>Creating a node\<close>

text \<open>
  What the creating operations promise: one new entry, one new inode numbered by the serial,
  the parent's row rewritten by \<open>g\<close>, no other inode touched.
\<close>

definition created ::
  "'z conn_scheme \<Rightarrow> 'z conn_scheme \<Rightarrow> i64 \<Rightarrow> string \<Rightarrow> inode_row \<Rightarrow> (inode_row \<Rightarrow> inode_row) \<Rightarrow> bool"
  where
  "created c c' p n r g \<longleftrightarrow>
    fs_dentry (tabs c') = fs_dentry (tabs c) @
      [\<lparr>d_id = seq_dentry c, d_name = n, d_parent = p, d_ino = seq_inode c\<rparr>] \<and>
    ino_map (tabs c') = (ino_map (tabs c))(seq_inode c \<mapsto> r, p := map_option g (ino_map (tabs c) p)) \<and>
    fs_data (tabs c') = fs_data (tabs c) \<and>
    l_ino ` set (fs_symlink (tabs c')) \<subseteq> insert (seq_inode c) (l_ino ` set (fs_symlink (tabs c))) \<and>
    (is_dir r \<longrightarrow> fs_symlink (tabs c') = fs_symlink (tabs c)) \<and>
    keys_ok (tabs c') \<and> seq_inode c' = seq_inode c + 1 \<and> seq_dentry c' = seq_dentry c + 1"

lemma created_inv:
  assumes inv: "ns_inv c" and p: "ino_map (tabs c) p = Some pr" "is_dir pr"
    and cr: "created c c' p n r g"
    and g: "is_dir (g pr)" and r: "\<not> is_dir r \<Longrightarrow> i_nlink r = 1"
  shows "ns_inv c'"
proof -
  let ?new = "seq_inode c" and ?I = "ino_map (tabs c)" and ?D = "fs_dentry (tabs c)"
  note fr = fresh_inode(2) [OF inv]
  have np: "?new \<noteq> p" using fr p by auto
  have I': "ino_map (tabs c') = ?I(?new \<mapsto> r, p \<mapsto> g pr)" using cr p by (simp add: created_def)
  have D': "fs_dentry (tabs c') = ?D @ [\<lparr>d_id = seq_dentry c, d_name = n, d_parent = p, d_ino = ?new\<rparr>]"
    using cr by (simp add: created_def)
  have zero: "links ?D ?new = 0" by (rule no_links_absent [OF ns_invD(6) [OF inv] fr])
  have "entries_ok (ino_map (tabs c')) (fs_dentry (tabs c'))"
    using ns_invD(6) [OF inv] fr p g np unfolding entries_ok_def I' D' by fastforce
  moreover have "counts_ok (ino_map (tabs c')) (fs_dentry (tabs c'))"
    using ns_invD(7) [OF inv] p g np r zero unfolding counts_ok_def I' D'
    by (auto simp: links_snoc)
  moreover have "owned (ino_map (tabs c')) (b_ino ` set (fs_data (tabs c')) \<union> l_ino ` set (fs_symlink (tabs c')))"
  proof -
    have "fs_data (tabs c') = fs_data (tabs c)"
      "l_ino ` set (fs_symlink (tabs c')) \<subseteq> insert ?new (l_ino ` set (fs_symlink (tabs c)))"
      using cr by (simp_all add: created_def)
    then show ?thesis using ns_invD(8) [OF inv] unfolding owned_def I' by auto
  qed
  moreover have "below_serials c'"
  proof -
    have "seq_inode c' = ?new + 1" "seq_dentry c' = seq_dentry c + 1"
      using cr by (simp_all add: created_def)
    then show ?thesis
      using ns_invD(5) [OF inv] p unfolding below_serials_def I' D' by force
  qed
  moreover have "keys_ok (tabs c')" using cr by (simp add: created_def)
  ultimately show ?thesis by (simp add: ns_inv_def)
qed

lemma created_dir_map:
  "created c c' p n r g \<Longrightarrow> dir_map (tabs c) (p, n) = None \<Longrightarrow>
    dir_map (tabs c') = (dir_map (tabs c))((p, n) \<mapsto> seq_inode c)"
  using dir_map_snoc [of "tabs c" "\<lparr>d_id = seq_dentry c, d_name = n, d_parent = p, d_ino = seq_inode c\<rparr>" "tabs c'"]
  by (simp add: created_def)

text \<open>The inode table after an insertion and two updates.\<close>

lemma ino_map_update:
  "fs_inode t' = map (\<lambda>r. if i_ino r = i then g r else r) (fs_inode t) \<Longrightarrow>
    (\<And>r. i_ino (g r) = i_ino r) \<Longrightarrow> ino_map t' = (ino_map t)(i := map_option g (ino_map t i))"
  by (simp add: ino_map_def look_update_inode)

lemma look_inode_snoc:
  "i_ino r \<notin> i_ino ` set t \<Longrightarrow> look i_ino (t @ [r]) = (look i_ino t)(i_ino r \<mapsto> r)"
  by (rule look_snoc)

lemma new_inode_sel [simp]:
  "i_ino (new_inode m k u g z rd s ns i) = i" "i_mode (new_inode m k u g z rd s ns i) = i64_of_u32 m"
  "i_nlink (new_inode m k u g z rd s ns i) = k"
  by (simp_all add: new_inode_def)

lemma is_dir_new: "is_dir (new_inode m k u g z rd s ns i) \<longleftrightarrow> m AND S_IFMT = S_IFDIR"
  by (simp add: is_dir_def mode_type_def)

lemma new_stats_row:
  "as_u64 rd' = rd \<Longrightarrow> u32_of_i64 k' = k \<Longrightarrow>
    new_stats i m k u g z rd s ns = build_stats_from_row (new_inode m k' u g z rd' s ns i)"
  by (simp add: new_stats_def build_stats_from_row_def new_inode_def)

text \<open>
  \<open>inode_step c c' I\<close>: from \<open>c\<close> to \<open>c'\<close> only the inode table (and its undo table) changed, and
  its map is \<open>I\<close> now.
\<close>

definition inode_step :: "'z conn_scheme \<Rightarrow> 'z conn_scheme \<Rightarrow> (i64 \<Rightarrow> inode_row option) \<Rightarrow> bool" where
  "inode_step c c' I \<longleftrightarrow>
    ino_map (tabs c') = I \<and> inode_ok (fs_inode (tabs c')) \<and>
    fs_dentry (tabs c') = fs_dentry (tabs c) \<and> fs_data (tabs c') = fs_data (tabs c) \<and>
    fs_symlink (tabs c') = fs_symlink (tabs c) \<and> fs_volumes (tabs c') = fs_volumes (tabs c) \<and>
    seq_inode c' = seq_inode c \<and> seq_dentry c' = seq_dentry c \<and>
    ready c' = ready c \<and> txn_state c' = txn_state c \<and> conn.more c' = conn.more c"

lemma update_inode_step:
  assumes "ready c" and "inode_ok (fs_inode (tabs c))" and f: "\<And>r. i_ino (f r) = i_ino r"
  obtains k c' where "update_inode i f c = (Inr k, c')"
    and "inode_step c c' ((ino_map (tabs c))(i := map_option f (ino_map (tabs c) i)))"
proof -
  let ?F = "map (\<lambda>r. if i_ino r = i then f r else r) (fs_inode (tabs c))"
  let ?c' = "put_inode (map Updated (filter (\<lambda>r. i_ino r = i) (fs_inode (tabs c)))) ?F c"
  have "inode_step c ?c' ((ino_map (tabs c))(i := map_option f (ino_map (tabs c) i)))"
    using look_update_inode [of f i "fs_inode (tabs c)"] f inode_ok_update [OF assms(2) f]
    by (simp add: inode_step_def ino_map_def)
  then show ?thesis using that update_inode_ready [OF assms] by blast
qed

text \<open>The two insertions every creation starts with, whatever continuation \<open>k\<close> follows.\<close>

lemma insert_node:
  fixes c :: "'z conn_scheme"
  assumes rd: "ready c" and inv: "ns_inv c" and free: "dir_map (tabs c) (p, n) = None"
    and mk: "\<And>i. i_ino (mk i) = i"
  obtains c' where
    "\<And>k :: i64 \<Rightarrow> ('z conn_scheme, 'a) oper. bnd (insert_inode mk) (\<lambda>ino. sq (insert_dentry n p ino) (k ino)) c = k (seq_inode c) c'"
    and "fs_dentry (tabs c') = fs_dentry (tabs c) @
      [\<lparr>d_id = seq_dentry c, d_name = n, d_parent = p, d_ino = seq_inode c\<rparr>]"
    and "ino_map (tabs c') = (ino_map (tabs c))(seq_inode c \<mapsto> mk (seq_inode c))"
    and "keys_ok (tabs c')" and "fs_data (tabs c') = fs_data (tabs c)"
    and "fs_symlink (tabs c') = fs_symlink (tabs c)"
    and "seq_inode c' = seq_inode c + 1" and "seq_dentry c' = seq_dentry c + 1"
    and "ready c'" and "txn_state c' = txn_state c" and "conn.more c' = conn.more c"
proof -
  let ?n = "seq_inode c" and ?F = "fs_inode (tabs c)" and ?D = "fs_dentry (tabs c)"
  let ?e = "\<lparr>d_id = seq_dentry c, d_name = n, d_parent = p, d_ino = ?n\<rparr>"
  let ?c1 = "put_inode [Inserted (mk ?n)] (?F @ [mk ?n]) (c\<lparr>seq_inode := ?n + 1\<rparr>)"
  let ?c2 = "put_dentry [Inserted ?e] (?D @ [?e]) (?c1\<lparr>seq_dentry := seq_dentry c + 1\<rparr>)"
  have ok: "inode_ok (?F @ [mk ?n])"
    using inode_ok_snoc [OF ns_invD(1) [OF inv], of "mk ?n"] fresh_inode(1) [OF inv] mk by simp
  have D: "dentry_ok (?D @ [?e])" by (rule new_entry_ok [OF inv free])
  have s1: "insert_inode mk c = (Inr ?n, ?c1)" using rd ok by (simp add: run)
  have s2: "insert_dentry n p ?n ?c1 = (Inr 1, ?c2)"
    using rd D by (subst insert_dentry_ready) simp_all
  have "ino_map (tabs ?c2) = (ino_map (tabs c))(?n \<mapsto> mk ?n)"
    using look_snoc [of i_ino "mk ?n" ?F] fresh_inode(1) [OF inv] mk by (simp add: ino_map_def)
  moreover have "bnd (insert_inode mk) (\<lambda>ino. sq (insert_dentry n p ino) (k ino)) c = k ?n ?c2"
    for k :: "i64 \<Rightarrow> ('z conn_scheme, 'a) oper"
    by (simp only: bnd_def sq_def s1 s2 prod.case sum.case)
  moreover have "keys_ok (tabs ?c2)" using ok D ns_invD(3,4) [OF inv] by (simp add: keys_ok_def)
  ultimately show ?thesis using rd by (intro that [of ?c2]) simp_all
qed

text \<open>Insert the node, then rewrite its row and its parent's.\<close>

lemma create_steps:
  fixes c :: "'z conn_scheme"
  assumes rd: "ready c" and inv: "ns_inv c" and free: "dir_map (tabs c) (p, n) = None"
    and mk: "\<And>i. i_ino (mk i) = i" and f: "\<And>r. i_ino (f r) = i_ino r" and g: "\<And>r. i_ino (g r) = i_ino r"
    and p: "ino_map (tabs c) p \<noteq> None"
  obtains c' where
    "\<And>k :: i64 \<Rightarrow> ('z conn_scheme, 'a) oper. bnd (insert_inode mk) (\<lambda>ino. sq (insert_dentry n p ino)
        (sq (update_inode ino f) (sq (update_inode p g) (k ino)))) c = k (seq_inode c) c'"
    and "created c c' p n (f (mk (seq_inode c))) g" and "ready c'" and "txn_state c' = txn_state c"
    and "conn.more c' = conn.more c" and "fs_symlink (tabs c') = fs_symlink (tabs c)"
proof -
  let ?n = "seq_inode c"
  obtain c2 where s: "\<And>k :: i64 \<Rightarrow> ('z conn_scheme, 'a) oper. bnd (insert_inode mk) (\<lambda>ino. sq (insert_dentry n p ino)
        (sq (update_inode ino f) (sq (update_inode p g) (k ino)))) c =
        sq (update_inode ?n f) (sq (update_inode p g) (k ?n)) c2"
    and c2: "fs_dentry (tabs c2) = fs_dentry (tabs c) @
        [\<lparr>d_id = seq_dentry c, d_name = n, d_parent = p, d_ino = ?n\<rparr>]"
      "ino_map (tabs c2) = (ino_map (tabs c))(?n \<mapsto> mk ?n)" "keys_ok (tabs c2)"
      "fs_data (tabs c2) = fs_data (tabs c)" "fs_symlink (tabs c2) = fs_symlink (tabs c)"
      "seq_inode c2 = ?n + 1" "seq_dentry c2 = seq_dentry c + 1"
      "ready c2" "txn_state c2 = txn_state c" "conn.more c2 = conn.more c"
    by (rule insert_node [OF rd inv free mk]) (rule that)
  obtain k3 c3 where u3: "update_inode ?n f c2 = (Inr k3, c3)"
      "inode_step c2 c3 ((ino_map (tabs c2))(?n := map_option f (ino_map (tabs c2) ?n)))"
    by (rule update_inode_step [OF c2(8), of f]) (use c2(3) f in \<open>auto simp: keys_ok_def\<close>)
  obtain k4 c4 where u4: "update_inode p g c3 = (Inr k4, c4)"
      "inode_step c3 c4 ((ino_map (tabs c3))(p := map_option g (ino_map (tabs c3) p)))"
    by (rule update_inode_step [of c3 g]) (use u3(2) c2(8) g in \<open>auto simp: inode_step_def\<close>)
  have np: "p \<noteq> ?n" using p fresh_inode(2) [OF inv] by auto
  have "created c c4 p n (f (mk ?n)) g"
    using u3(2) u4(2) c2 np by (auto simp: created_def inode_step_def keys_ok_def)
  moreover have "bnd (insert_inode mk) (\<lambda>ino. sq (insert_dentry n p ino)
        (sq (update_inode ino f) (sq (update_inode p g) (k ino)))) c = k ?n c4"
    for k :: "i64 \<Rightarrow> ('z conn_scheme, 'a) oper"
    by (simp add: s u3(1) u4(1))
  ultimately show ?thesis
    using u3(2) u4(2) c2 by (intro that [of c4]) (simp_all add: inode_step_def)
qed

lemma more_dcache: "conn.more c' = conn.more c \<Longrightarrow> dcache c' = dcache (c :: 'l fs_state)"
  by (cases c; cases c') simp

lemma ready_dcache [simp]: "ready (c\<lparr>dcache := l\<rparr>) = ready (c :: 'l fs_state)"
  by (simp add: ready_def)

lemma mkdir_ready:
  fixes c :: "'l fs_state"
  assumes rd: "ready c" and inv: "ns_inv c" and n: "length n \<le> MAX_NAME_LEN"
    and free: "dir_map (tabs c) (p, n) = None" and p: "ino_map (tabs c) p = Some pr"
    and r: "r = new_inode (S_IFDIR OR (m AND PERM_BITS)) 2 u g 0 0 s ns (seq_inode c)"
  obtains c' where
    "mkdir L (Some (s, ns)) p n m u g c = (Inr (build_stats_from_row r), c')"
    and "created c c' p n r (\<lambda>r. set_cmtime s ns (add_nlink 1 r))"
    and "ready c'" and "txn_state c' = txn_state c"
    and "dcache c' = lru_put L (p, n) (seq_inode c) (dcache c)"
proof -
  let ?mk = "new_inode (S_IFDIR OR (m AND PERM_BITS)) 0 u g 0 0 s ns"
  obtain c1 where steps: "\<And>k :: i64 \<Rightarrow> ('l, stats) fs_oper. bnd (insert_inode ?mk) (\<lambda>ino. sq (insert_dentry n p ino)
        (sq (update_inode ino (\<lambda>r. r\<lparr>i_nlink := 2\<rparr>))
        (sq (update_inode p (\<lambda>r. set_cmtime s ns (add_nlink 1 r))) (k ino)))) c = k (seq_inode c) c1"
    and c1: "created c c1 p n ((?mk (seq_inode c))\<lparr>i_nlink := 2\<rparr>) (\<lambda>r. set_cmtime s ns (add_nlink 1 r))"
      "ready c1" "txn_state c1 = txn_state c" "conn.more c1 = conn.more c"
    by (rule create_steps [OF rd inv free, of ?mk "\<lambda>r. r\<lparr>i_nlink := 2\<rparr>"
          "\<lambda>r. set_cmtime s ns (add_nlink 1 r)"]) (use p in auto)
  have stats: "new_stats i (S_IFDIR OR (m AND PERM_BITS)) 2 u g 0 0 s ns =
      build_stats_from_row (new_inode (S_IFDIR OR (m AND PERM_BITS)) 2 u g 0 0 s ns i)" for i
    by (rule new_stats_row) (simp_all add: u32_of_i64_def)
  have row: "(?mk (seq_inode c))\<lparr>i_nlink := 2\<rparr> = r" using r by (simp add: new_inode_def)
  have "mkdir L (Some (s, ns)) p n m u g c =
      (Inr (build_stats_from_row r), c1\<lparr>dcache := lru_put L (p, n) (seq_inode c) (dcache c)\<rparr>)"
    using rd n free ns_invD(2) [OF inv] more_dcache [OF c1(4)] r
    by (simp add: mkdir_def run Let_def steps stats)
  moreover have "created c (c1\<lparr>dcache := l\<rparr>) p n r (\<lambda>r. set_cmtime s ns (add_nlink 1 r))" for l
    using c1(1) row by (simp add: created_def)
  ultimately show ?thesis using that c1 by simp
qed

lemma mknod_ready:
  fixes c :: "'l fs_state"
  assumes rd: "ready c" and inv: "ns_inv c" and n: "length n \<le> MAX_NAME_LEN"
    and free: "dir_map (tabs c) (p, n) = None" and p: "ino_map (tabs c) p = Some pr"
    and rdev: "rdev < 2 ^ 64"
    and r: "r = new_inode m 1 u g 0 (as_i64 rdev) s ns (seq_inode c)"
  obtains c' where
    "mknod L (Some (s, ns)) p n m rdev u g c = (Inr (build_stats_from_row r), c')"
    and "created c c' p n r (set_cmtime s ns)"
    and "ready c'" and "txn_state c' = txn_state c"
    and "dcache c' = lru_put L (p, n) (seq_inode c) (dcache c)"
proof -
  let ?mk = "new_inode m 0 u g 0 (as_i64 rdev) s ns"
  obtain c1 where steps: "\<And>k :: i64 \<Rightarrow> ('l, stats) fs_oper.
        bnd (insert_inode ?mk) (\<lambda>ino. sq (insert_dentry n p ino)
        (sq (update_inode ino (add_nlink 1))
        (sq (update_inode p (set_cmtime s ns)) (k ino)))) c = k (seq_inode c) c1"
    and c1: "created c c1 p n (add_nlink 1 (?mk (seq_inode c))) (set_cmtime s ns)"
      "ready c1" "txn_state c1 = txn_state c" "conn.more c1 = conn.more c"
    by (rule create_steps [OF rd inv free, of ?mk "add_nlink 1" "set_cmtime s ns"]) (use p in auto)
  have stats: "new_stats i m 1 u g 0 rdev s ns =
      build_stats_from_row (new_inode m 1 u g 0 (as_i64 rdev) s ns i)" for i
    using rdev by (intro new_stats_row) (simp_all add: u32_of_i64_def)
  have row: "add_nlink 1 (?mk (seq_inode c)) = r" using r by (simp add: new_inode_def add_nlink_def)
  have "mknod L (Some (s, ns)) p n m rdev u g c =
      (Inr (build_stats_from_row r), c1\<lparr>dcache := lru_put L (p, n) (seq_inode c) (dcache c)\<rparr>)"
    using rd n free ns_invD(2) [OF inv] more_dcache [OF c1(4)] r
    by (simp add: mknod_def run Let_def steps stats)
  moreover have "created c (c1\<lparr>dcache := l\<rparr>) p n r (set_cmtime s ns)" for l
    using c1(1) row by (simp add: created_def)
  ultimately show ?thesis using that c1 by simp
qed

lemma created_end_kept: "created c c' p n r g \<Longrightarrow> created c (end_kept c') p n r g"
  by (simp add: created_def)

lemma ns_inv_txn_state [simp]: "ns_inv (c\<lparr>txn_state := t\<rparr>) = ns_inv c"
  by (simp add: ns_inv_def below_serials_def)

lemma create_file_ready:
  fixes c :: "'l fs_state"
  assumes rd: "ready c" "txn_state c = NoTxn" and inv: "ns_inv c" and n: "length n \<le> MAX_NAME_LEN"
    and free: "dir_map (tabs c) (p, n) = None" and p: "ino_map (tabs c) p = Some pr"
    and r: "r = new_inode (S_IFREG OR (m AND PERM_BITS)) 1 u g 0 0 s ns (seq_inode c)"
  obtains c' where
    "create_file L cs (Some (s, ns)) p n m u g c =
      (Inr (build_stats_from_row r, \<lparr>f_ino = seq_inode c, f_chunk_size = cs\<rparr>), c')"
    and "created c c' p n r (set_cmtime s ns)"
    and "ready c'" and "txn_state c' = NoTxn"
    and "dcache c' = lru_put L (p, n) (seq_inode c) (dcache c)"
proof -
  let ?mk = "new_inode (S_IFREG OR (m AND PERM_BITS)) 1 u g 0 0 s ns"
  let ?c0 = "c\<lparr>txn_state := Active (tabs c)\<rparr>" and ?n = "seq_inode c"
  have r0: "ready ?c0" and f0: "dir_map (tabs ?c0) (p, n) = None" and i0: "ns_inv ?c0"
    using rd free inv by simp_all
  obtain c1 where steps: "\<And>k :: i64 \<Rightarrow> ('l, stats \<times> file_handle) fs_oper.
        bnd (insert_inode ?mk) (\<lambda>ino. sq (insert_dentry n p ino) (k ino)) ?c0 = k (seq_inode ?c0) c1"
    and c1: "fs_dentry (tabs c1) = fs_dentry (tabs ?c0) @
        [\<lparr>d_id = seq_dentry ?c0, d_name = n, d_parent = p, d_ino = seq_inode ?c0\<rparr>]"
      "ino_map (tabs c1) = (ino_map (tabs ?c0))(seq_inode ?c0 \<mapsto> ?mk (seq_inode ?c0))" "keys_ok (tabs c1)"
      "fs_data (tabs c1) = fs_data (tabs ?c0)" "fs_symlink (tabs c1) = fs_symlink (tabs ?c0)"
      "seq_inode c1 = seq_inode ?c0 + 1" "seq_dentry c1 = seq_dentry ?c0 + 1"
      "ready c1" "txn_state c1 = txn_state ?c0" "conn.more c1 = conn.more ?c0"
    by (rule insert_node [OF r0 i0 f0, of ?mk]) (simp, rule that)
  obtain k2 c2 where u2: "update_inode p (set_cmtime s ns) c1 = (Inr k2, c2)"
      "inode_step c1 c2 ((ino_map (tabs c1))(p := map_option (set_cmtime s ns) (ino_map (tabs c1) p)))"
    by (rule update_inode_step [OF c1(8), of "set_cmtime s ns" p]) (use c1(3) in \<open>auto simp: keys_ok_def\<close>)
  have np: "p \<noteq> ?n" using p fresh_inode(2) [OF inv] by auto
  have cr: "created c c2 p n r (set_cmtime s ns)"
    using u2(2) c1 np r by (auto simp: created_def inode_step_def keys_ok_def)
  have c2: "ready c2" "conn.more c2 = conn.more c"
    using u2(2) c1 by (auto simp: inode_step_def)
  have stats: "new_stats i (S_IFREG OR (m AND PERM_BITS)) 1 u g 0 0 s ns =
      build_stats_from_row (?mk i)" for i
    by (rule new_stats_row) (simp_all add: u32_of_i64_def)
  let ?c' = "(end_kept c2)\<lparr>dcache := lru_put L (p, n) ?n (dcache c)\<rparr>"
  have d: "dcache (end_kept c2) = dcache c" using c2(2) by (intro more_dcache) simp
  have "create_file L cs (Some (s, ns)) p n m u g c =
      (Inr (build_stats_from_row r, \<lparr>f_ino = ?n, f_chunk_size = cs\<rparr>), ?c')"
    using rd n free ns_invD(2) [OF inv] u2(1) c2 d r
    by (simp add: create_file_def run Let_def steps stats)
  moreover have "created c ?c' p n r (set_cmtime s ns)"
    using created_end_kept [OF cr] by (simp add: created_def)
  moreover have "ready ?c'" "txn_state ?c' = NoTxn" using c2 by (auto simp: ready_def)
  ultimately show ?thesis using that by simp
qed

text \<open>A symbolic link stores its target before its entry.\<close>

lemma insert_link_node:
  fixes c :: "'z conn_scheme"
  assumes rd: "ready c" and inv: "ns_inv c" and free: "dir_map (tabs c) (p, n) = None"
    and mk: "\<And>i. i_ino (mk i) = i"
  obtains c' where
    "\<And>k :: i64 \<Rightarrow> ('z conn_scheme, 'a) oper. bnd (insert_inode mk) (\<lambda>ino.
        sq (insert_symlink \<lparr>l_ino = ino, l_target = target\<rparr>)
        (sq (insert_dentry n p ino) (k ino))) c = k (seq_inode c) c'"
    and "fs_dentry (tabs c') = fs_dentry (tabs c) @
      [\<lparr>d_id = seq_dentry c, d_name = n, d_parent = p, d_ino = seq_inode c\<rparr>]"
    and "ino_map (tabs c') = (ino_map (tabs c))(seq_inode c \<mapsto> mk (seq_inode c))"
    and "keys_ok (tabs c')" and "fs_data (tabs c') = fs_data (tabs c)"
    and "fs_symlink (tabs c') = fs_symlink (tabs c) @ [\<lparr>l_ino = seq_inode c, l_target = target\<rparr>]"
    and "seq_inode c' = seq_inode c + 1" and "seq_dentry c' = seq_dentry c + 1"
    and "ready c'" and "txn_state c' = txn_state c" and "conn.more c' = conn.more c"
proof -
  let ?n = "seq_inode c" and ?F = "fs_inode (tabs c)" and ?D = "fs_dentry (tabs c)"
  let ?l = "\<lparr>l_ino = ?n, l_target = target\<rparr>" and ?Y = "fs_symlink (tabs c)"
  let ?e = "\<lparr>d_id = seq_dentry c, d_name = n, d_parent = p, d_ino = ?n\<rparr>"
  let ?c1 = "put_inode [Inserted (mk ?n)] (?F @ [mk ?n]) (c\<lparr>seq_inode := ?n + 1\<rparr>)"
  let ?c2 = "put_symlink [Inserted ?l] (?Y @ [?l]) ?c1"
  let ?c3 = "put_dentry [Inserted ?e] (?D @ [?e]) (?c2\<lparr>seq_dentry := seq_dentry c + 1\<rparr>)"
  have ok: "inode_ok (?F @ [mk ?n])"
    using inode_ok_snoc [OF ns_invD(1) [OF inv], of "mk ?n"] fresh_inode(1) [OF inv] mk by simp
  have "?n \<notin> l_ino ` set ?Y"
    using ns_invD(8) [OF inv] fresh_inode(2) [OF inv] unfolding owned_def by blast
  then have Y: "symlink_ok (?Y @ [?l])" using ns_invD(4) [OF inv] by (auto simp: symlink_ok_def)
  have D: "dentry_ok (?D @ [?e])" by (rule new_entry_ok [OF inv free])
  have s1: "insert_inode mk c = (Inr ?n, ?c1)" using rd ok by (simp add: run)
  have s2: "insert_symlink ?l ?c1 = (Inr 1, ?c2)"
    using rd Y by (subst insert_symlink_ready) simp_all
  have s3: "insert_dentry n p ?n ?c2 = (Inr 1, ?c3)"
    using rd D by (subst insert_dentry_ready) simp_all
  have "ino_map (tabs ?c3) = (ino_map (tabs c))(?n \<mapsto> mk ?n)"
    using look_snoc [of i_ino "mk ?n" ?F] fresh_inode(1) [OF inv] mk by (simp add: ino_map_def)
  moreover have "bnd (insert_inode mk) (\<lambda>ino. sq (insert_symlink \<lparr>l_ino = ino, l_target = target\<rparr>)
        (sq (insert_dentry n p ino) (k ino))) c = k ?n ?c3"
    for k :: "i64 \<Rightarrow> ('z conn_scheme, 'a) oper"
    by (simp only: bnd_def sq_def s1 s2 s3 prod.case sum.case)
  moreover have "keys_ok (tabs ?c3)" using ok D Y ns_invD(3) [OF inv] by (simp add: keys_ok_def)
  ultimately show ?thesis using rd by (intro that [of ?c3]) simp_all
qed

lemma symlink_ready:
  fixes c :: "'l fs_state"
  assumes rd: "ready c" and inv: "ns_inv c" and n: "length n \<le> MAX_NAME_LEN"
    and free: "dir_map (tabs c) (p, n) = None" and p: "ino_map (tabs c) p = Some pr"
    and r: "r = new_inode (S_IFLNK OR 0x1FF) 1 u g (int (length target)) 0 s ns (seq_inode c)"
  obtains c' where
    "symlink L (Some (s, ns)) p n target u g c = (Inr (build_stats_from_row r), c')"
    and "created c c' p n r (set_cmtime s ns)"
    and "fs_symlink (tabs c') = fs_symlink (tabs c) @ [\<lparr>l_ino = seq_inode c, l_target = target\<rparr>]"
    and "ready c'" and "txn_state c' = txn_state c"
    and "dcache c' = lru_put L (p, n) (seq_inode c) (dcache c)"
proof -
  let ?mk = "new_inode (S_IFLNK OR 0x1FF) 0 u g (int (length target)) 0 s ns" and ?n = "seq_inode c"
  obtain c1 where steps: "\<And>k :: i64 \<Rightarrow> ('l, stats) fs_oper.
        bnd (insert_inode ?mk) (\<lambda>ino. sq (insert_symlink \<lparr>l_ino = ino, l_target = target\<rparr>)
        (sq (insert_dentry n p ino) (k ino))) c = k ?n c1"
    and c1: "fs_dentry (tabs c1) = fs_dentry (tabs c) @
        [\<lparr>d_id = seq_dentry c, d_name = n, d_parent = p, d_ino = ?n\<rparr>]"
      "ino_map (tabs c1) = (ino_map (tabs c))(?n \<mapsto> ?mk ?n)" "keys_ok (tabs c1)"
      "fs_data (tabs c1) = fs_data (tabs c)"
      "fs_symlink (tabs c1) = fs_symlink (tabs c) @ [\<lparr>l_ino = ?n, l_target = target\<rparr>]"
      "seq_inode c1 = ?n + 1" "seq_dentry c1 = seq_dentry c + 1"
      "ready c1" "txn_state c1 = txn_state c" "conn.more c1 = conn.more c"
    by (rule insert_link_node [OF rd inv free, of ?mk target]) (simp, rule that)
  obtain k2 c2 where u2: "update_inode ?n (add_nlink 1) c1 = (Inr k2, c2)"
      "inode_step c1 c2 ((ino_map (tabs c1))(?n := map_option (add_nlink 1) (ino_map (tabs c1) ?n)))"
    by (rule update_inode_step [OF c1(8), of "add_nlink 1" ?n]) (use c1(3) in \<open>auto simp: keys_ok_def\<close>)
  obtain k3 c3 where u3: "update_inode p (set_cmtime s ns) c2 = (Inr k3, c3)"
      "inode_step c2 c3 ((ino_map (tabs c2))(p := map_option (set_cmtime s ns) (ino_map (tabs c2) p)))"
    by (rule update_inode_step [of c2 "set_cmtime s ns" p]) (use u2(2) c1(8) in \<open>auto simp: inode_step_def\<close>)
  have np: "p \<noteq> ?n" using p fresh_inode(2) [OF inv] by auto
  have row: "add_nlink 1 (?mk ?n) = r" using r by (simp add: new_inode_def add_nlink_def)
  have nd: "\<not> is_dir (?mk ?n)" by (simp add: is_dir_new mode_defs)
  have cr: "created c c3 p n r (set_cmtime s ns)"
    using u2(2) u3(2) c1 np row nd by (auto simp: created_def inode_step_def keys_ok_def)
  have c3: "ready c3" "conn.more c3 = conn.more c" "txn_state c3 = txn_state c"
    "fs_symlink (tabs c3) = fs_symlink (tabs c1)"
    using u2(2) u3(2) c1 by (auto simp: inode_step_def)
  have stats: "new_stats i (S_IFLNK OR 0x1FF) 1 u g (int (length target)) 0 s ns =
      build_stats_from_row (new_inode (S_IFLNK OR 0x1FF) 1 u g (int (length target)) 0 s ns i)" for i
    by (rule new_stats_row) (simp_all add: u32_of_i64_def)
  let ?c' = "c3\<lparr>dcache := lru_put L (p, n) ?n (dcache c)\<rparr>"
  have "symlink L (Some (s, ns)) p n target u g c = (Inr (build_stats_from_row r), ?c')"
    using rd n free ns_invD(2) [OF inv] u2(1) u3(1) more_dcache [OF c3(2)] r
    by (simp add: symlink_def run Let_def steps stats)
  moreover have "created c ?c' p n r (set_cmtime s ns)" using cr by (simp add: created_def)
  ultimately show ?thesis using that c3 c1(5) by simp
qed

section \<open>Removing an entry\<close>

lemma links_delete:
  assumes "distinct (map d_slot D)" and "look d_slot D k = Some d"
  shows "links (filter (\<lambda>d. d_slot d \<noteq> k) D) j = links D j - (if d_ino d = j then 1 else 0)"
proof -
  have "links D j = links (filter (\<lambda>d. d_slot d \<noteq> k) D) j + links (filter (\<lambda>d. d_slot d = k) D) j"
    unfolding links_def by (induction D) auto
  moreover have "filter (\<lambda>d. d_slot d = k) D = [d]"
    using filter_key_look [OF assms(1), of k] assms(2) by simp
  ultimately show ?thesis by (simp add: links_def)
qed

lemma links_pos: "look d_slot D k = Some d \<Longrightarrow> 0 < links D (d_ino d)"
  by (auto simp: links_def filter_empty_conv dest: look_Some_key)

lemma dentry_ok_filter: "dentry_ok D \<Longrightarrow> dentry_ok (filter q D)"
  by (auto simp: dentry_ok_def distinct_map_filter)

lemma dir_map_delete:
  assumes "dentry_ok (fs_dentry t)" and "fs_dentry t' = filter (\<lambda>d. d_slot d \<noteq> k) (fs_dentry t)"
  shows "dir_map t' = (dir_map t)(k := None)"
  using look_delete [of d_slot "fs_dentry t" k] assms by (intro ext) (auto simp: dir_map_def dentry_ok_def)

text \<open>
  What is left is again a well-formed name space, provided an inode disappears only when no
  entry names it or lies in it.
\<close>

lemma removed_inv:
  assumes inv: "ns_inv c" and d: "look d_slot (fs_dentry (tabs c)) k = Some d"
    and D': "fs_dentry (tabs c') = filter (\<lambda>d. d_slot d \<noteq> k) (fs_dentry (tabs c))"
    and keys: "keys_ok (tabs c')" and seqs: "seq_inode c' = seq_inode c" "seq_dentry c' = seq_dentry c"
    and prev: "\<And>j r. ino_map (tabs c') j = Some r \<Longrightarrow>
      \<exists>r0. ino_map (tabs c) j = Some r0 \<and> is_dir r = is_dir r0 \<and>
        (\<not> is_dir r \<longrightarrow> i_nlink r = i_nlink r0 - (if j = d_ino d then 1 else 0))"
    and gone: "\<And>j. ino_map (tabs c) j \<noteq> None \<Longrightarrow> ino_map (tabs c') j = None \<Longrightarrow>
      links (fs_dentry (tabs c')) j = 0 \<and> (\<forall>e \<in> set (fs_dentry (tabs c')). d_parent e \<noteq> j)"
    and own: "owned (ino_map (tabs c')) (b_ino ` set (fs_data (tabs c')) \<union> l_ino ` set (fs_symlink (tabs c')))"
  shows "ns_inv c'"
proof -
  let ?I = "ino_map (tabs c)" and ?I' = "ino_map (tabs c')"
  let ?D = "fs_dentry (tabs c)" and ?D' = "fs_dentry (tabs c')"
  have slots: "distinct (map d_slot ?D)" using ns_invD(2) [OF inv] by (simp add: dentry_ok_def)
  have lk: "links ?D' j = links ?D j - (if d_ino d = j then 1 else 0)" for j
    unfolding D' by (rule links_delete [OF slots d])
  have sub: "set ?D' \<subseteq> set ?D" unfolding D' by auto
  have "entries_ok ?I' ?D'"
    unfolding entries_ok_def
  proof (intro ballI conjI)
    fix e
    assume e: "e \<in> set ?D'"
    then obtain r where r: "?I (d_ino e) \<noteq> None" "?I (d_parent e) = Some r" "is_dir r"
      using ns_invD(6) [OF inv] sub unfolding entries_ok_def by blast
    show "?I' (d_ino e) \<noteq> None" using gone [OF r(1)] e by (auto simp: links_zero)
    then show "\<exists>r. ?I' (d_parent e) = Some r \<and> is_dir r"
      using gone [of "d_parent e"] r e prev [of "d_parent e"] by (cases "?I' (d_parent e)") auto
  qed
  moreover have "counts_ok ?I' ?D'"
    unfolding counts_ok_def
  proof (intro allI impI)
    fix j r
    assume "?I' j = Some r"
    then obtain r0 where r0: "?I j = Some r0" "is_dir r = is_dir r0"
      "\<not> is_dir r \<longrightarrow> i_nlink r = i_nlink r0 - (if j = d_ino d then 1 else 0)" using prev by blast
    then have "is_dir r0 \<longrightarrow> links ?D j < 2" "\<not> is_dir r0 \<longrightarrow> i_nlink r0 = int (links ?D j)"
      using ns_invD(7) [OF inv] by (auto simp: counts_ok_def)
    then show "(is_dir r \<longrightarrow> links ?D' j < 2) \<and> (\<not> is_dir r \<longrightarrow> i_nlink r = int (links ?D' j))"
      using r0 links_pos [OF d] by (auto simp: lk)
  qed
  moreover have "below_serials c'"
    using ns_invD(5) [OF inv] prev sub seqs by (fastforce simp: below_serials_def)
  ultimately show ?thesis using keys own by (simp add: ns_inv_def)
qed

text \<open>Rewriting rows without touching their type or the link count of a file keeps the invariant.\<close>

lemma inode_step_inv:
  assumes inv: "ns_inv c" and st: "inode_step c c' I"
    and dom: "\<And>j. (I j = None) = (ino_map (tabs c) j = None)"
    and rows: "\<And>j r r0. I j = Some r \<Longrightarrow> ino_map (tabs c) j = Some r0 \<Longrightarrow>
      is_dir r = is_dir r0 \<and> (\<not> is_dir r0 \<longrightarrow> i_nlink r = i_nlink r0)"
  shows "ns_inv c'"
proof -
  have f: "ino_map (tabs c') = I" "fs_dentry (tabs c') = fs_dentry (tabs c)"
    "fs_data (tabs c') = fs_data (tabs c)" "fs_symlink (tabs c') = fs_symlink (tabs c)"
    "inode_ok (fs_inode (tabs c'))" "seq_inode c' = seq_inode c" "seq_dentry c' = seq_dentry c"
    using st by (simp_all add: inode_step_def)
  have prev: "\<exists>r0. ino_map (tabs c) j = Some r0 \<and> is_dir r = is_dir r0 \<and> (\<not> is_dir r0 \<longrightarrow> i_nlink r = i_nlink r0)"
    if "I j = Some r" for j r
    using that dom [of j] rows [OF that] by (cases "ino_map (tabs c) j") auto
  have forth: "\<exists>r. I j = Some r \<and> (is_dir r0 \<longrightarrow> is_dir r)" if "ino_map (tabs c) j = Some r0" for j r0
    using that dom [of j] rows [OF _ that] by (cases "I j") auto
  have "entries_ok I (fs_dentry (tabs c))"
    using ns_invD(6) [OF inv] dom forth unfolding entries_ok_def by metis
  moreover have "counts_ok I (fs_dentry (tabs c))"
    using ns_invD(7) [OF inv] prev unfolding counts_ok_def by metis
  moreover have "owned I (b_ino ` set (fs_data (tabs c)) \<union> l_ino ` set (fs_symlink (tabs c)))"
    using ns_invD(8) [OF inv] dom unfolding owned_def by blast
  moreover have "below_serials c'"
    using ns_invD(5) [OF inv] dom f by (auto simp: below_serials_def)
  ultimately show ?thesis
    using ns_invD(1-4) [OF inv] f by (simp add: ns_inv_def keys_ok_def)
qed

text \<open>Releasing an inode removes it with its chunks and its link target.\<close>

lemma release_inode_ready:
  assumes "ready c" and "keys_ok (tabs c)"
  obtains c' where "release_inode i c = (Inr (), c')"
    and "fs_dentry (tabs c') = fs_dentry (tabs c)" and "ino_map (tabs c') = (ino_map (tabs c))(i := None)"
    and "fs_data (tabs c') = filter (\<lambda>b. b_ino b \<noteq> i) (fs_data (tabs c))"
    and "fs_symlink (tabs c') = filter (\<lambda>l. l_ino l \<noteq> i) (fs_symlink (tabs c))"
    and "keys_ok (tabs c')" and "seq_inode c' = seq_inode c" and "seq_dentry c' = seq_dentry c"
    and "ready c'" and "txn_state c' = txn_state c" and "conn.more c' = conn.more c"
proof -
  obtain c' where c': "release_inode i c = (Inr (), c')"
    "fs_dentry (tabs c') = fs_dentry (tabs c)"
    "fs_inode (tabs c') = filter (\<lambda>r. i_ino r \<noteq> i) (fs_inode (tabs c))"
    "fs_data (tabs c') = filter (\<lambda>b. b_ino b \<noteq> i) (fs_data (tabs c))"
    "fs_symlink (tabs c') = filter (\<lambda>l. l_ino l \<noteq> i) (fs_symlink (tabs c))"
    "seq_inode c' = seq_inode c" "seq_dentry c' = seq_dentry c"
    "ready c'" "txn_state c' = txn_state c" "conn.more c' = conn.more c"
    using assms(1) by (simp add: release_inode_def run Let_def)
  moreover have "distinct (map i_ino (fs_inode (tabs c)))"
    using assms(2) by (simp add: keys_ok_def inode_ok_def)
  then have "ino_map (tabs c') = (ino_map (tabs c))(i := None)"
    unfolding ino_map_def c'(3) by (rule look_delete)
  moreover have "keys_ok (tabs c')"
    using assms(2) c' by (auto simp: keys_ok_def constraint_defs distinct_map_filter)
  ultimately show ?thesis by (intro that)
qed

text \<open>
  The end of a removal: the link count has been decremented; the inode goes when it reached 0.
\<close>

lemma release_if_unlinked:
  assumes "ready c" and "keys_ok (tabs c)" and "ino_map (tabs c) i = Some r"
  obtains c' where
    "bnd (get_link_count i) (\<lambda>k. if k = 0 then release_inode i else ret ()) c = (Inr (), c')"
    and "fs_dentry (tabs c') = fs_dentry (tabs c)"
    and "ino_map (tabs c') = (if u32_of_i64 (i_nlink r) = 0 then (ino_map (tabs c))(i := None) else ino_map (tabs c))"
    and "fs_data (tabs c') = (if u32_of_i64 (i_nlink r) = 0 then filter (\<lambda>b. b_ino b \<noteq> i) (fs_data (tabs c)) else fs_data (tabs c))"
    and "fs_symlink (tabs c') = (if u32_of_i64 (i_nlink r) = 0 then filter (\<lambda>l. l_ino l \<noteq> i) (fs_symlink (tabs c)) else fs_symlink (tabs c))"
    and "keys_ok (tabs c')" and "seq_inode c' = seq_inode c" and "seq_dentry c' = seq_dentry c"
    and "ready c'" and "txn_state c' = txn_state c" and "conn.more c' = conn.more c"
proof -
  show ?thesis
  proof (cases "u32_of_i64 (i_nlink r) = 0")
    case True
    obtain c' where c': "release_inode i c = (Inr (), c')" "fs_dentry (tabs c') = fs_dentry (tabs c)"
      "ino_map (tabs c') = (ino_map (tabs c))(i := None)"
      "fs_data (tabs c') = filter (\<lambda>b. b_ino b \<noteq> i) (fs_data (tabs c))"
      "fs_symlink (tabs c') = filter (\<lambda>l. l_ino l \<noteq> i) (fs_symlink (tabs c))"
      "keys_ok (tabs c')" "seq_inode c' = seq_inode c" "seq_dentry c' = seq_dentry c"
      "ready c'" "txn_state c' = txn_state c" "conn.more c' = conn.more c"
      by (rule release_inode_ready [OF assms(1,2), of i])
    show ?thesis
      by (rule that [of c']) (use c' True assms in \<open>simp_all add: run\<close>)
  next
    case False
    then show ?thesis using that [of c] assms by (simp add: run)
  qed
qed

text \<open>Deleting the entry at \<open>k\<close>, as every removal does first.\<close>

definition entry_removed :: "'z conn_scheme \<Rightarrow> 'z conn_scheme \<Rightarrow> slot \<Rightarrow> bool" where
  "entry_removed c c' k \<longleftrightarrow>
    fs_dentry (tabs c') = filter (\<lambda>d. d_slot d \<noteq> k) (fs_dentry (tabs c)) \<and>
    fs_inode (tabs c') = fs_inode (tabs c) \<and> fs_data (tabs c') = fs_data (tabs c) \<and>
    fs_symlink (tabs c') = fs_symlink (tabs c) \<and>
    seq_inode c' = seq_inode c \<and> seq_dentry c' = seq_dentry c \<and>
    ready c' = ready c \<and> txn_state c' = txn_state c \<and> conn.more c' = conn.more c"

lemma delete_dentry_step:
  assumes "ready c"
  obtains k c' where "delete_dentry p n c = (Inr k, c')" and "entry_removed c c' (p, n)"
  using that assms by (simp add: run entry_removed_def)

lemma unlink_ready:
  fixes c :: "'l fs_state"
  assumes rd: "ready c" and inv: "ns_inv c" and n: "length n \<le> MAX_NAME_LEN"
    and i: "dir_map (tabs c) (p, n) = Some i" and r: "ino_map (tabs c) i = Some r" "\<not> is_dir r"
    and p: "ino_map (tabs c) p = Some pr" "is_dir pr"
    and few: "length (fs_dentry (tabs c)) < 2 ^ 32"
  obtains c' where "unlink L (Some (s, ns)) p n c = (Inr (), c')"
    and "fs_dentry (tabs c') = filter (\<lambda>d. d_slot d \<noteq> (p, n)) (fs_dentry (tabs c))"
    and "ino_map (tabs c') = (ino_map (tabs c))(p \<mapsto> set_cmtime s ns pr,
          i := (if i_nlink r = 1 then None else Some (set_ctime s ns (add_nlink (- 1) r))))"
    and "fs_data (tabs c') = (if i_nlink r = 1 then filter (\<lambda>b. b_ino b \<noteq> i) (fs_data (tabs c)) else fs_data (tabs c))"
    and "fs_symlink (tabs c') = (if i_nlink r = 1 then filter (\<lambda>l. l_ino l \<noteq> i) (fs_symlink (tabs c)) else fs_symlink (tabs c))"
    and "keys_ok (tabs c')" and "seq_inode c' = seq_inode c" and "seq_dentry c' = seq_dentry c"
    and "ready c'" and "txn_state c' = txn_state c"
    and "dcache c' = lru_pop L (p, n) (dcache c)"
proof -
  let ?I = "ino_map (tabs c)"
  have pi: "p \<noteq> i" using r p by auto
  obtain d where d: "look d_slot (fs_dentry (tabs c)) (p, n) = Some d" "d_ino d = i"
    using i by (auto simp: dir_map_def)
  have nl: "i_nlink r = int (links (fs_dentry (tabs c)) i)"
    using ns_invD(7) [OF inv] r unfolding counts_ok_def by blast
  have "links (fs_dentry (tabs c)) i \<le> length (fs_dentry (tabs c))" by (simp add: links_def)
  then have nlb: "0 \<le> i_nlink r + - 1" "i_nlink r + - 1 < 2 ^ 32"
    using few links_pos [OF d(1)] d(2) nl by simp_all
  obtain k1 c1 where c1: "delete_dentry p n c = (Inr k1, c1)" "entry_removed c c1 (p, n)"
    by (rule delete_dentry_step [OF rd])
  let ?c2 = "c1\<lparr>dcache := lru_pop L (p, n) (dcache c1)\<rparr>"
  have f1: "fs_inode (tabs ?c2) = fs_inode (tabs c)" "ino_map (tabs ?c2) = ?I" "ready ?c2"
    "fs_dentry (tabs ?c2) = filter (\<lambda>d. d_slot d \<noteq> (p, n)) (fs_dentry (tabs c))"
    "conn.more c1 = conn.more c"
    using c1(2) rd by (simp_all add: entry_removed_def ino_map_def)
  obtain k3 c3 where c3: "update_inode p (set_cmtime s ns) ?c2 = (Inr k3, c3)"
      "inode_step ?c2 c3 (?I(p := map_option (set_cmtime s ns) (?I p)))"
    by (rule update_inode_step [OF f1(3), of "set_cmtime s ns" p])
      (use f1 ns_invD(1) [OF inv] in auto)
  obtain k4 c4 where c4: "update_inode i (\<lambda>r. set_ctime s ns (add_nlink (- 1) r)) c3 = (Inr k4, c4)"
      "inode_step c3 c4 ((ino_map (tabs c3))(i := map_option (\<lambda>r. set_ctime s ns (add_nlink (- 1) r)) (ino_map (tabs c3) i)))"
    by (rule update_inode_step [of c3 "\<lambda>r. set_ctime s ns (add_nlink (- 1) r)" i])
      (use c3(2) f1(3) in \<open>auto simp: inode_step_def\<close>)
  let ?r' = "set_ctime s ns (add_nlink (- 1) r)"
  have I4: "ino_map (tabs c4) = ?I(p \<mapsto> set_cmtime s ns pr, i \<mapsto> ?r')"
    using c3(2) c4(2) p r pi by (auto simp: inode_step_def)
  have k4': "keys_ok (tabs c4)" "ready c4"
    using c3(2) c4(2) c1(2) f1 ns_invD(2-4) [OF inv] dentry_ok_filter
    by (auto simp: inode_step_def keys_ok_def entry_removed_def)
  obtain c5 where c5: "bnd (get_link_count i) (\<lambda>k. if k = 0 then release_inode i else ret ()) c4 = (Inr (), c5)"
    "fs_dentry (tabs c5) = fs_dentry (tabs c4)"
    "ino_map (tabs c5) = (if u32_of_i64 (i_nlink ?r') = 0 then (ino_map (tabs c4))(i := None) else ino_map (tabs c4))"
    "fs_data (tabs c5) = (if u32_of_i64 (i_nlink ?r') = 0 then filter (\<lambda>b. b_ino b \<noteq> i) (fs_data (tabs c4)) else fs_data (tabs c4))"
    "fs_symlink (tabs c5) = (if u32_of_i64 (i_nlink ?r') = 0 then filter (\<lambda>l. l_ino l \<noteq> i) (fs_symlink (tabs c4)) else fs_symlink (tabs c4))"
    "keys_ok (tabs c5)" "seq_inode c5 = seq_inode c4" "seq_dentry c5 = seq_dentry c4"
    "ready c5" "txn_state c5 = txn_state c4" "conn.more c5 = conn.more c4"
    by (rule release_if_unlinked [OF k4'(2,1), of i ?r']) (use I4 in simp_all)
  have "unlink L (Some (s, ns)) p n c = (Inr (), c5)"
    using rd n i r ns_invD(2) [OF inv] c1(1) c3(1) c4(1) c5(1)
    by (simp add: unlink_def run is_dir_mode)
  moreover have "dcache c5 = lru_pop L (p, n) (dcache c)"
    using c5(11) c4(2) c3(2) more_dcache [OF f1(5)]
      more_dcache [of c5 ?c2] by (simp add: inode_step_def)
  moreover have f4: "fs_dentry (tabs c4) = fs_dentry (tabs ?c2)" "fs_data (tabs c4) = fs_data (tabs c)"
    "fs_symlink (tabs c4) = fs_symlink (tabs c)" "seq_inode c4 = seq_inode c"
    "seq_dentry c4 = seq_dentry c" "txn_state c4 = txn_state c"
    using c4(2) c3(2) c1(2) by (simp_all add: inode_step_def entry_removed_def)
  moreover have "u32_of_i64 (i_nlink ?r') = 0 \<longleftrightarrow> i_nlink r = 1"
    using u32_zero_iff [OF nlb] by simp
  ultimately show ?thesis
    using f1(4) by (intro that [of c5]) (simp_all only: c5 f4 I4 fun_upd_upd if_distrib if_cancel split: if_split, auto)
qed

lemma dir_map_inode:
  assumes "ns_inv c" and "dir_map (tabs c) k = Some i"
  obtains d where "look d_slot (fs_dentry (tabs c)) k = Some d" and "d_ino d = i"
    and "ino_map (tabs c) i \<noteq> None"
    and "\<exists>pr. ino_map (tabs c) (fst k) = Some pr \<and> is_dir pr"
proof -
  obtain d where d: "look d_slot (fs_dentry (tabs c)) k = Some d" "d_ino d = i"
    using assms(2) by (auto simp: dir_map_def)
  then have "d \<in> set (fs_dentry (tabs c))" "d_slot d = k" by auto
  with ns_invD(6) [OF assms(1)] d(2)
  have "ino_map (tabs c) i \<noteq> None" "\<exists>pr. ino_map (tabs c) (fst k) = Some pr \<and> is_dir pr"
    unfolding entries_ok_def by auto
  with d that show ?thesis by blast
qed

lemma links_one_unique:
  assumes "distinct (map d_slot D)" "look d_slot D k = Some d" "links D (d_ino d) = 1"
  shows "links (filter (\<lambda>d. d_slot d \<noteq> k) D) (d_ino d) = 0"
  using links_delete [OF assms(1,2), of "d_ino d"] assms(3) by simp

lemma unlink_inv:
  fixes c :: "'l fs_state"
  assumes rd: "ready c" and inv: "ns_inv c" and n: "length n \<le> MAX_NAME_LEN"
    and i: "dir_map (tabs c) (p, n) = Some i" and r: "ino_map (tabs c) i = Some r" "\<not> is_dir r"
    and few: "length (fs_dentry (tabs c)) < 2 ^ 32"
  shows "ns_inv (snd (unlink L (Some (s, ns)) p n c))"
proof -
  obtain d pr where d: "look d_slot (fs_dentry (tabs c)) (p, n) = Some d" "d_ino d = i"
    and p: "ino_map (tabs c) p = Some pr" "is_dir pr"
    by (rule dir_map_inode [OF inv i]) auto
  have pi: "p \<noteq> i" using r p by auto
  obtain c' where run: "unlink L (Some (s, ns)) p n c = (Inr (), c')"
    and D': "fs_dentry (tabs c') = filter (\<lambda>d. d_slot d \<noteq> (p, n)) (fs_dentry (tabs c))"
    and I': "ino_map (tabs c') = (ino_map (tabs c))(p \<mapsto> set_cmtime s ns pr,
          i := (if i_nlink r = 1 then None else Some (set_ctime s ns (add_nlink (- 1) r))))"
    and B': "fs_data (tabs c') = (if i_nlink r = 1 then filter (\<lambda>b. b_ino b \<noteq> i) (fs_data (tabs c)) else fs_data (tabs c))"
    and Y': "fs_symlink (tabs c') = (if i_nlink r = 1 then filter (\<lambda>l. l_ino l \<noteq> i) (fs_symlink (tabs c)) else fs_symlink (tabs c))"
    and k': "keys_ok (tabs c')" "seq_inode c' = seq_inode c" "seq_dentry c' = seq_dentry c"
    by (rule unlink_ready [OF rd inv n i r p few]) (rule that)
  have nl: "i_nlink r = int (links (fs_dentry (tabs c)) i)"
    using ns_invD(7) [OF inv] r unfolding counts_ok_def by blast
  have "ns_inv c'"
  proof (rule removed_inv [OF inv d(1) D' k'])
    show "\<exists>r0. ino_map (tabs c) j = Some r0 \<and> is_dir q = is_dir r0 \<and>
        (\<not> is_dir q \<longrightarrow> i_nlink q = i_nlink r0 - (if j = d_ino d then 1 else 0))"
      if "ino_map (tabs c') j = Some q" for j q
      using that p r pi d(2) unfolding I' by (auto split: if_splits)
    show "links (fs_dentry (tabs c')) j = 0 \<and> (\<forall>e \<in> set (fs_dentry (tabs c')). d_parent e \<noteq> j)"
      if "ino_map (tabs c) j \<noteq> None" "ino_map (tabs c') j = None" for j
    proof -
      have j: "j = i" "i_nlink r = 1" using that p unfolding I' by (auto split: if_splits)
      have "links (fs_dentry (tabs c)) (d_ino d) = 1" using j nl d(2) by simp
      then have "links (fs_dentry (tabs c')) i = 0"
        using links_one_unique [OF _ d(1)] d(2) ns_invD(2) [OF inv] unfolding D' dentry_ok_def by blast
      moreover have "d_parent e \<noteq> i" if "e \<in> set (fs_dentry (tabs c'))" for e
        using ns_invD(6) [OF inv] that r unfolding D' entries_ok_def by fastforce
      ultimately show ?thesis using j by blast
    qed
    show "owned (ino_map (tabs c')) (b_ino ` set (fs_data (tabs c')) \<union> l_ino ` set (fs_symlink (tabs c')))"
      using ns_invD(8) [OF inv] unfolding owned_def I' B' Y' by (cases "i_nlink r = 1") auto
  qed
  then show ?thesis using run by simp
qed

lemma delete_inode_ready:
  assumes "ready c" and "keys_ok (tabs c)"
  obtains k c' where "delete_inode i c = (Inr k, c')"
    and "inode_ok (fs_inode (tabs c'))" and "ino_map (tabs c') = (ino_map (tabs c))(i := None)"
    and "fs_dentry (tabs c') = fs_dentry (tabs c)" and "fs_data (tabs c') = fs_data (tabs c)"
    and "fs_symlink (tabs c') = fs_symlink (tabs c)"
    and "seq_inode c' = seq_inode c" and "seq_dentry c' = seq_dentry c"
    and "ready c'" and "txn_state c' = txn_state c" and "conn.more c' = conn.more c"
proof -
  obtain k c' where c': "delete_inode i c = (Inr k, c')"
    "fs_inode (tabs c') = filter (\<lambda>r. i_ino r \<noteq> i) (fs_inode (tabs c))"
    "fs_dentry (tabs c') = fs_dentry (tabs c)" "fs_data (tabs c') = fs_data (tabs c)"
    "fs_symlink (tabs c') = fs_symlink (tabs c)"
    "seq_inode c' = seq_inode c" "seq_dentry c' = seq_dentry c"
    "ready c'" "txn_state c' = txn_state c" "conn.more c' = conn.more c"
    using assms(1) by (simp add: run Let_def)
  have ok: "distinct (map i_ino (fs_inode (tabs c)))"
    using assms(2) by (simp add: keys_ok_def inode_ok_def)
  then have "ino_map (tabs c') = (ino_map (tabs c))(i := None)"
    unfolding ino_map_def c'(2) by (rule look_delete)
  moreover have "inode_ok (fs_inode (tabs c'))" using ok c'(2) by (simp add: inode_ok_def distinct_map_filter)
  ultimately show ?thesis using that c' by blast
qed

text \<open>A removed directory keeps its row unless its link count drops to 0.\<close>

lemma rmdir_ready:
  fixes c :: "'l fs_state"
  assumes rd: "ready c" and inv: "ns_inv c" and n: "length n \<le> MAX_NAME_LEN"
    and i: "dir_map (tabs c) (p, n) = Some i" and r: "ino_map (tabs c) i = Some r" "is_dir r"
    and root: "i \<noteq> ROOT_INO" and empty: "\<forall>d \<in> set (fs_dentry (tabs c)). d_parent d \<noteq> i"
    and p: "ino_map (tabs c) p = Some pr"
  obtains c' where "rmdir L (Some (s, ns)) p n c = (Inr (), c')"
    and "fs_dentry (tabs c') = filter (\<lambda>d. d_slot d \<noteq> (p, n)) (fs_dentry (tabs c))"
    and "ino_map (tabs c') = (ino_map (tabs c))(p \<mapsto> set_cmtime s ns (add_nlink (- 1) pr),
          i := (if u32_of_i64 (i_nlink r - 1) = 0 then None else Some (add_nlink (- 1) r)))"
    and "fs_data (tabs c') = fs_data (tabs c)" and "fs_symlink (tabs c') = fs_symlink (tabs c)"
    and "keys_ok (tabs c')" and "seq_inode c' = seq_inode c" and "seq_dentry c' = seq_dentry c"
    and "ready c'" and "txn_state c' = txn_state c"
    and "dcache c' = lru_pop L (p, n) (dcache c)"
proof -
  let ?I = "ino_map (tabs c)" and ?dec = "add_nlink (- 1) :: inode_row \<Rightarrow> inode_row"
  let ?g = "\<lambda>r. set_cmtime s ns (add_nlink (- 1) r)"
  obtain d where d: "look d_slot (fs_dentry (tabs c)) (p, n) = Some d" "d_ino d = i"
    using i by (auto simp: dir_map_def)
  then have "d \<in> set (fs_dentry (tabs c))" "d_parent d = p" by auto
  then have pi: "p \<noteq> i" using empty by auto
  obtain k1 c1 where c1: "delete_dentry p n c = (Inr k1, c1)" "entry_removed c c1 (p, n)"
    by (rule delete_dentry_step [OF rd])
  let ?c2 = "c1\<lparr>dcache := lru_pop L (p, n) (dcache c1)\<rparr>"
  have f1: "fs_inode (tabs ?c2) = fs_inode (tabs c)" "ino_map (tabs ?c2) = ?I" "ready ?c2"
    "fs_dentry (tabs ?c2) = filter (\<lambda>d. d_slot d \<noteq> (p, n)) (fs_dentry (tabs c))"
    "conn.more c1 = conn.more c"
    using c1(2) rd by (simp_all add: entry_removed_def ino_map_def)
  obtain k3 c3 where c3: "update_inode i ?dec ?c2 = (Inr k3, c3)"
      "inode_step ?c2 c3 (?I(i := map_option ?dec (?I i)))"
    by (rule update_inode_step [OF f1(3), of ?dec i]) (use f1 ns_invD(1) [OF inv] in auto)
  obtain k4 c4 where c4: "update_inode p ?g c3 = (Inr k4, c4)"
      "inode_step c3 c4 ((ino_map (tabs c3))(p := map_option ?g (ino_map (tabs c3) p)))"
    by (rule update_inode_step [of c3 ?g p]) (use c3(2) f1(3) in \<open>auto simp: inode_step_def\<close>)
  have I4: "ino_map (tabs c4) = ?I(p \<mapsto> ?g pr, i \<mapsto> ?dec r)"
    using c3(2) c4(2) p r pi by (auto simp: inode_step_def)
  have f4: "keys_ok (tabs c4)" "ready c4" "fs_dentry (tabs c4) = fs_dentry (tabs ?c2)"
    "fs_data (tabs c4) = fs_data (tabs c)" "fs_symlink (tabs c4) = fs_symlink (tabs c)"
    "seq_inode c4 = seq_inode c" "seq_dentry c4 = seq_dentry c" "txn_state c4 = txn_state c"
    "conn.more c4 = conn.more ?c2"
    using c3(2) c4(2) c1(2) f1 ns_invD(2-4) [OF inv] dentry_ok_filter
    by (auto simp: inode_step_def keys_ok_def entry_removed_def)
  have dc: "dcache c4 = lru_pop L (p, n) (dcache c)"
    using more_dcache [OF f4(9)] more_dcache [OF f1(5)] by simp
  have no: "filter (\<lambda>d. d_parent d = i) (fs_dentry (tabs c)) = []"
    using empty by (simp add: filter_empty_conv)
  have pre: "rmdir L (Some (s, ns)) p n c =
      bnd (get_link_count i) (\<lambda>k. if k = 0 then sq (delete_inode i) (ret ()) else ret ()) c4"
    using rd n i r root no ns_invD(2) [OF inv] c1(1) c3(1) c4(1)
    by (simp add: rmdir_def run is_dir_mode)
  obtain k5 c5 where c5: "delete_inode i c4 = (Inr k5, c5)" "inode_ok (fs_inode (tabs c5))"
    "ino_map (tabs c5) = (ino_map (tabs c4))(i := None)"
    "fs_dentry (tabs c5) = fs_dentry (tabs c4)" "fs_data (tabs c5) = fs_data (tabs c4)"
    "fs_symlink (tabs c5) = fs_symlink (tabs c4)" "seq_inode c5 = seq_inode c4"
    "seq_dentry c5 = seq_dentry c4" "ready c5" "txn_state c5 = txn_state c4" "conn.more c5 = conn.more c4"
    by (rule delete_inode_ready [OF f4(2,1)])
  show ?thesis
  proof (cases "u32_of_i64 (i_nlink r - 1) = 0")
    case True
    have "rmdir L (Some (s, ns)) p n c = (Inr (), c5)"
      using True pre I4 f4(2) c5(1) by (simp add: run)
    moreover have "keys_ok (tabs c5)" using c5 f4(1) by (simp add: keys_ok_def)
    ultimately show ?thesis
      using True c5 f4 I4 f1(4) dc more_dcache [OF c5(11)] by (intro that [of c5]) simp_all
  next
    case False
    have "rmdir L (Some (s, ns)) p n c = (Inr (), c4)"
      using False pre I4 f4(2) by (simp add: run)
    then show ?thesis using False f4 I4 f1(4) dc by (intro that [of c4]) simp_all
  qed
qed

lemma rmdir_inv:
  fixes c :: "'l fs_state"
  assumes rd: "ready c" and inv: "ns_inv c" and n: "length n \<le> MAX_NAME_LEN"
    and i: "dir_map (tabs c) (p, n) = Some i" and r: "ino_map (tabs c) i = Some r" "is_dir r"
    and root: "i \<noteq> ROOT_INO" and empty: "\<forall>d \<in> set (fs_dentry (tabs c)). d_parent d \<noteq> i"
    and data: "i \<notin> b_ino ` set (fs_data (tabs c)) \<union> l_ino ` set (fs_symlink (tabs c))"
  shows "ns_inv (snd (rmdir L (Some (s, ns)) p n c))"
proof -
  obtain d pr where d: "look d_slot (fs_dentry (tabs c)) (p, n) = Some d" "d_ino d = i"
    and p: "ino_map (tabs c) p = Some pr" "is_dir pr"
    by (rule dir_map_inode [OF inv i]) auto
  obtain c' where run: "rmdir L (Some (s, ns)) p n c = (Inr (), c')"
    and D': "fs_dentry (tabs c') = filter (\<lambda>d. d_slot d \<noteq> (p, n)) (fs_dentry (tabs c))"
    and I': "ino_map (tabs c') = (ino_map (tabs c))(p \<mapsto> set_cmtime s ns (add_nlink (- 1) pr),
          i := (if u32_of_i64 (i_nlink r - 1) = 0 then None else Some (add_nlink (- 1) r)))"
    and Y': "fs_data (tabs c') = fs_data (tabs c)" "fs_symlink (tabs c') = fs_symlink (tabs c)"
    and k': "keys_ok (tabs c')" "seq_inode c' = seq_inode c" "seq_dentry c' = seq_dentry c"
    by (rule rmdir_ready [OF rd inv n i r root empty p(1)]) (rule that)
  have l1: "links (fs_dentry (tabs c)) (d_ino d) = 1"
    using ns_invD(7) [OF inv] r links_pos [OF d(1)] d(2) unfolding counts_ok_def by force
  have "ns_inv c'"
  proof (rule removed_inv [OF inv d(1) D' k'])
    show "\<exists>r0. ino_map (tabs c) j = Some r0 \<and> is_dir q = is_dir r0 \<and>
        (\<not> is_dir q \<longrightarrow> i_nlink q = i_nlink r0 - (if j = d_ino d then 1 else 0))"
      if "ino_map (tabs c') j = Some q" for j q
      using that p r d(2) unfolding I' by (auto split: if_splits)
    show "links (fs_dentry (tabs c')) j = 0 \<and> (\<forall>e \<in> set (fs_dentry (tabs c')). d_parent e \<noteq> j)"
      if "ino_map (tabs c) j \<noteq> None" "ino_map (tabs c') j = None" for j
    proof -
      have j: "j = i" using that p unfolding I' by (auto split: if_splits)
      have "links (fs_dentry (tabs c')) i = 0"
        using links_one_unique [OF _ d(1) l1] d(2) ns_invD(2) [OF inv] unfolding D' dentry_ok_def by blast
      then show ?thesis using j empty unfolding D' by auto
    qed
    show "owned (ino_map (tabs c')) (b_ino ` set (fs_data (tabs c')) \<union> l_ino ` set (fs_symlink (tabs c')))"
      using ns_invD(8) [OF inv] data unfolding owned_def I' Y' by auto
  qed
  then show ?thesis using run by simp
qed

section \<open>Links\<close>

lemma link_ready:
  fixes c :: "'l fs_state"
  assumes rd: "ready c" and inv: "ns_inv c" and n: "length n \<le> MAX_NAME_LEN"
    and free: "dir_map (tabs c) (p, n) = None" and r: "ino_map (tabs c) i = Some r" "\<not> is_dir r"
    and p: "ino_map (tabs c) p = Some pr" "is_dir pr"
  obtains c' where
    "link L (Some (s, ns)) i p n c = (Inr (build_stats_from_row (set_ctime s ns (add_nlink 1 r))), c')"
    and "fs_dentry (tabs c') = fs_dentry (tabs c) @
      [\<lparr>d_id = seq_dentry c, d_name = n, d_parent = p, d_ino = i\<rparr>]"
    and "ino_map (tabs c') = (ino_map (tabs c))(i \<mapsto> set_ctime s ns (add_nlink 1 r), p \<mapsto> set_cmtime s ns pr)"
    and "fs_data (tabs c') = fs_data (tabs c)" and "fs_symlink (tabs c') = fs_symlink (tabs c)"
    and "ns_inv c'" and "ready c'" and "txn_state c' = txn_state c"
    and "dcache c' = lru_put L (p, n) i (dcache c)"
proof -
  let ?I = "ino_map (tabs c)" and ?D = "fs_dentry (tabs c)"
  let ?e = "\<lparr>d_id = seq_dentry c, d_name = n, d_parent = p, d_ino = i\<rparr>"
  let ?inc = "\<lambda>r. set_ctime s ns (add_nlink 1 r)"
  let ?c1 = "put_dentry [Inserted ?e] (?D @ [?e]) (c\<lparr>seq_dentry := seq_dentry c + 1\<rparr>)"
  have pi: "p \<noteq> i" using r p by auto
  have D: "dentry_ok (?D @ [?e])" by (rule new_entry_ok [OF inv free])
  have s1: "insert_dentry n p i c = (Inr 1, ?c1)" using rd D by (simp add: run)
  have f1: "ready ?c1" "ino_map (tabs ?c1) = ?I" using rd by (simp_all add: ino_map_def)
  obtain k2 c2 where c2: "update_inode i ?inc ?c1 = (Inr k2, c2)"
      "inode_step ?c1 c2 (?I(i := map_option ?inc (?I i)))"
    by (rule update_inode_step [OF f1(1), of ?inc i]) (use f1(2) ns_invD(1) [OF inv] in auto)
  obtain k3 c3 where c3: "update_inode p (set_cmtime s ns) c2 = (Inr k3, c3)"
      "inode_step c2 c3 ((ino_map (tabs c2))(p := map_option (set_cmtime s ns) (ino_map (tabs c2) p)))"
    by (rule update_inode_step [of c2 "set_cmtime s ns" p]) (use c2(2) f1(1) in \<open>auto simp: inode_step_def\<close>)
  let ?c' = "c3\<lparr>dcache := lru_put L (p, n) i (dcache c)\<rparr>"
  have I3: "ino_map (tabs c3) = ?I(i \<mapsto> ?inc r, p \<mapsto> set_cmtime s ns pr)"
    using c2(2) c3(2) r p pi by (auto simp: inode_step_def)
  have f3: "fs_dentry (tabs c3) = ?D @ [?e]" "fs_data (tabs c3) = fs_data (tabs c)"
    "fs_symlink (tabs c3) = fs_symlink (tabs c)" "seq_inode c3 = seq_inode c"
    "seq_dentry c3 = seq_dentry c + 1" "ready c3" "txn_state c3 = txn_state c"
    "conn.more c3 = conn.more c" "inode_ok (fs_inode (tabs c3))"
    using c2(2) c3(2) rd by (simp_all add: inode_step_def)
  have "link L (Some (s, ns)) i p n c = (Inr (build_stats_from_row (?inc r)), ?c')"
    using rd n free r ns_invD(2) [OF inv] s1 c2(1) c3(1) f3(6) I3 pi more_dcache [OF f3(8)]
    by (simp add: link_def run is_dir_mode)
  moreover have "ns_inv ?c'"
  proof -
    have "entries_ok (ino_map (tabs c3)) (fs_dentry (tabs c3))"
      using ns_invD(6) [OF inv] r p pi unfolding entries_ok_def I3 f3(1) by fastforce
    moreover have "counts_ok (ino_map (tabs c3)) (fs_dentry (tabs c3))"
      using ns_invD(7) [OF inv] r p pi unfolding counts_ok_def I3 f3(1) by (auto simp: links_snoc)
    moreover have "owned (ino_map (tabs c3)) (b_ino ` set (fs_data (tabs c3)) \<union> l_ino ` set (fs_symlink (tabs c3)))"
      using ns_invD(8) [OF inv] unfolding owned_def I3 f3 by auto
    moreover have "below_serials c3"
      using ns_invD(5) [OF inv] r p unfolding below_serials_def I3 f3 by force
    ultimately show ?thesis
      using D f3(1-3,9) ns_invD(3,4) [OF inv] by (simp add: ns_inv_def keys_ok_def below_serials_def)
  qed
  ultimately show ?thesis using that I3 f3 by simp
qed

section \<open>Rename\<close>

text \<open>
  \<open>no_growth t t'\<close>: every inode of \<open>t'\<close> was one of \<open>t\<close> with the same type, and only inodes that
  owned chunks or link targets before own some afterwards.
\<close>

definition no_growth :: "tables \<Rightarrow> tables \<Rightarrow> bool" where
  "no_growth t t' \<longleftrightarrow>
    (\<forall>j r'. ino_map t' j = Some r' \<longrightarrow> (\<exists>r. ino_map t j = Some r \<and> is_dir r' = is_dir r)) \<and>
    b_ino ` set (fs_data t') \<union> l_ino ` set (fs_symlink t') \<subseteq> b_ino ` set (fs_data t) \<union> l_ino ` set (fs_symlink t)"

lemma no_growth_refl: "no_growth t t"
  by (simp add: no_growth_def)

lemma no_growth_trans:
  assumes "no_growth t t'" and "no_growth t' t''"
  shows "no_growth t t''"
proof -
  have "\<exists>r. ino_map t j = Some r \<and> is_dir r'' = is_dir r" if "ino_map t'' j = Some r''" for j r''
    using assms that unfolding no_growth_def by metis
  then show ?thesis using assms unfolding no_growth_def by (meson order_trans)
qed

text \<open>Making room: the entry at the destination goes, with its inode when that was its last link.\<close>

lemma replace_target_absent:
  assumes "ready c" and "ns_inv c" and "dir_map (tabs c) (p, n) = None"
  shows "replace_target now st p n c = (Inr (), c)"
  using assms ns_invD(2) [OF assms(2)] by (simp add: replace_target_def run)

lemma replace_target_ready:
  fixes c :: "'z conn_scheme"
  assumes rd: "ready c" and inv: "ns_inv c" and j: "dir_map (tabs c) (p, n) = Some j"
    and q: "ino_map (tabs c) j = Some q" "is_dir q = is_directory st"
    and empty: "is_dir q \<Longrightarrow> \<forall>d \<in> set (fs_dentry (tabs c)). d_parent d \<noteq> j"
    and few: "length (fs_dentry (tabs c)) < 2 ^ 32"
  obtains c' where "replace_target now st p n c = (Inr (), c')"
    and "fs_dentry (tabs c') = filter (\<lambda>d. d_slot d \<noteq> (p, n)) (fs_dentry (tabs c))"
    and "\<forall>k. k \<noteq> j \<longrightarrow> ino_map (tabs c') k = ino_map (tabs c) k"
    and "1 < links (fs_dentry (tabs c)) j \<longrightarrow>
          (\<exists>q'. ino_map (tabs c') j = Some q' \<and> i_mode q' = i_mode q \<and> i_size q' = i_size q)"
    and "\<forall>k. k \<noteq> j \<or> 1 < links (fs_dentry (tabs c)) j \<longrightarrow>
          filter (\<lambda>b. b_ino b = k) (fs_data (tabs c')) = filter (\<lambda>b. b_ino b = k) (fs_data (tabs c))"
    and "\<not> is_dir q \<longrightarrow> links (fs_dentry (tabs c)) j = 1 \<longrightarrow>
          ino_map (tabs c') j = None \<and> j \<notin> b_ino ` set (fs_data (tabs c'))"
    and "ns_inv c'" and "ready c'" and "txn_state c' = txn_state c" and "conn.more c' = conn.more c"
    and "no_growth (tabs c) (tabs c')"
proof -
  let ?I = "ino_map (tabs c)" and ?D = "fs_dentry (tabs c)"
  obtain secs nsec where now: "clock_or_zero now = (secs, nsec)" by fastforce
  let ?dec = "\<lambda>r. set_ctime secs nsec (add_nlink (- 1) r)"
  let ?gone = "u32_of_i64 (i_nlink q - 1) = 0"
  obtain d pr where d: "look d_slot ?D (p, n) = Some d" "d_ino d = j"
    and p: "?I p = Some pr" "is_dir pr"
    by (rule dir_map_inode [OF inv j]) auto
  obtain k1 c1 where c1: "delete_dentry p n c = (Inr k1, c1)" "entry_removed c c1 (p, n)"
    by (rule delete_dentry_step [OF rd])
  have f1: "fs_inode (tabs c1) = fs_inode (tabs c)" "ino_map (tabs c1) = ?I" "ready c1"
    using c1(2) rd by (simp_all add: entry_removed_def ino_map_def)
  obtain k2 c2 where c2: "update_inode j ?dec c1 = (Inr k2, c2)"
      "inode_step c1 c2 (?I(j := map_option ?dec (?I j)))"
    by (rule update_inode_step [OF f1(3), of ?dec j]) (use f1 ns_invD(1) [OF inv] in auto)
  have f2: "ino_map (tabs c2) = ?I(j \<mapsto> ?dec q)" "keys_ok (tabs c2)" "ready c2"
    "fs_dentry (tabs c2) = filter (\<lambda>d. d_slot d \<noteq> (p, n)) ?D" "fs_data (tabs c2) = fs_data (tabs c)"
    "fs_symlink (tabs c2) = fs_symlink (tabs c)" "seq_inode c2 = seq_inode c"
    "seq_dentry c2 = seq_dentry c" "txn_state c2 = txn_state c" "conn.more c2 = conn.more c"
    using c2(2) c1(2) rd q ns_invD(2-4) [OF inv] dentry_ok_filter
    by (auto simp: inode_step_def keys_ok_def entry_removed_def)
  obtain c3 where c3: "bnd (get_link_count j) (\<lambda>k. if k = 0 then release_inode j else ret ()) c2 = (Inr (), c3)"
    "fs_dentry (tabs c3) = fs_dentry (tabs c2)"
    "ino_map (tabs c3) = (if u32_of_i64 (i_nlink (?dec q)) = 0 then (ino_map (tabs c2))(j := None) else ino_map (tabs c2))"
    "fs_data (tabs c3) = (if u32_of_i64 (i_nlink (?dec q)) = 0 then filter (\<lambda>b. b_ino b \<noteq> j) (fs_data (tabs c2)) else fs_data (tabs c2))"
    "fs_symlink (tabs c3) = (if u32_of_i64 (i_nlink (?dec q)) = 0 then filter (\<lambda>l. l_ino l \<noteq> j) (fs_symlink (tabs c2)) else fs_symlink (tabs c2))"
    "keys_ok (tabs c3)" "seq_inode c3 = seq_inode c2" "seq_dentry c3 = seq_dentry c2"
    "ready c3" "txn_state c3 = txn_state c2" "conn.more c3 = conn.more c2"
    by (rule release_if_unlinked [OF f2(3,2), of j "?dec q"]) (use f2(1) in simp_all)
  have I3: "ino_map (tabs c3) = ?I(j := (if ?gone then None else Some (?dec q)))"
    using c3(3) f2(1) by simp
  have nochild: "(if is_dir q then length (filter (\<lambda>d. d_parent d = j) ?D) else 0) = 0"
    using empty by (auto simp: filter_empty_conv)
  have run: "replace_target now st p n c = (Inr (), c3)"
    using rd j q nochild ns_invD(2) [OF inv] c1(1) c2(1) c3(1) now
    by (cases "is_dir q") (simp_all add: replace_target_def run)
  have lpos: "0 < links ?D j" using links_pos [OF d(1)] d(2) by simp
  have gone1: "links ?D j = 1" if g: ?gone
  proof (cases "is_dir q")
    case True
    then show ?thesis using ns_invD(7) [OF inv] q(1) lpos unfolding counts_ok_def by force
  next
    case False
    then have nl: "i_nlink q = int (links ?D j)" using ns_invD(7) [OF inv] q(1) unfolding counts_ok_def by blast
    have "links ?D j \<le> length ?D" by (simp add: links_def)
    then show ?thesis using u32_zero_iff [of "i_nlink q - 1"] nl few lpos g by simp
  qed
  have inv3: "ns_inv c3"
  proof (rule removed_inv [OF inv d(1)])
    show "fs_dentry (tabs c3) = filter (\<lambda>d. d_slot d \<noteq> (p, n)) ?D" using c3(2) f2(4) by simp
    show "\<exists>r0. ?I k = Some r0 \<and> is_dir x = is_dir r0 \<and>
        (\<not> is_dir x \<longrightarrow> i_nlink x = i_nlink r0 - (if k = d_ino d then 1 else 0))"
      if "ino_map (tabs c3) k = Some x" for k x
      using that q d(2) unfolding I3 by (auto split: if_splits)
    show "links (fs_dentry (tabs c3)) k = 0 \<and> (\<forall>e \<in> set (fs_dentry (tabs c3)). d_parent e \<noteq> k)"
      if "?I k \<noteq> None" "ino_map (tabs c3) k = None" for k
    proof -
      have k: "k = j" ?gone using that unfolding I3 by (auto split: if_splits)
      have D3: "fs_dentry (tabs c3) = filter (\<lambda>d. d_slot d \<noteq> (p, n)) ?D" using c3(2) f2(4) by simp
      have "links (fs_dentry (tabs c3)) j = 0"
        using links_one_unique [OF _ d(1)] gone1 [OF k(2)] d(2) ns_invD(2) [OF inv]
        unfolding D3 dentry_ok_def by blast
      moreover have "d_parent e \<noteq> j" if e: "e \<in> set ?D" for e
      proof (cases "is_dir q")
        case False
        then show ?thesis using ns_invD(6) [OF inv] e q(1) unfolding entries_ok_def by fastforce
      qed (use empty e in blast)
      ultimately show ?thesis using k(1) D3 by auto
    qed
    show "owned (ino_map (tabs c3)) (b_ino ` set (fs_data (tabs c3)) \<union> l_ino ` set (fs_symlink (tabs c3)))"
      using ns_invD(8) [OF inv] c3(4,5) f2(5,6) unfolding owned_def I3 by (cases ?gone) auto
  qed (use c3 f2 in simp_all)
  have grow: "no_growth (tabs c) (tabs c3)"
    using q(1) c3(4,5) f2(5,6) unfolding no_growth_def I3 by auto
  show ?thesis
  proof (rule that [OF run _ _ _ _ _ inv3 _ _ _ grow])
    show "\<not> is_dir q \<longrightarrow> links ?D j = 1 \<longrightarrow>
        ino_map (tabs c3) j = None \<and> j \<notin> b_ino ` set (fs_data (tabs c3))"
    proof (intro impI)
      assume "\<not> is_dir q" "links ?D j = 1"
      then have "i_nlink q = 1" using ns_invD(7) [OF inv] q(1) unfolding counts_ok_def by force
      then have ?gone by (simp add: u32_of_i64_def)
      then show "ino_map (tabs c3) j = None \<and> j \<notin> b_ino ` set (fs_data (tabs c3))"
        using I3 c3(4) by auto
    qed
    show "\<forall>k. k \<noteq> j \<or> 1 < links ?D j \<longrightarrow>
        filter (\<lambda>b. b_ino b = k) (fs_data (tabs c3)) = filter (\<lambda>b. b_ino b = k) (fs_data (tabs c))"
      using c3(4) f2(5) gone1 by (cases ?gone) (auto intro!: filter_cong)
  qed (use c3 f2 I3 gone1 in \<open>auto split: if_splits\<close>)
qed

text \<open>Moving the entry at \<open>k\<close> to the free place \<open>(p, n)\<close>.\<close>

definition move_entry :: "slot \<Rightarrow> i64 \<Rightarrow> string \<Rightarrow> dentry_row \<Rightarrow> dentry_row" where
  "move_entry k p n d = (if d_slot d = k then d\<lparr>d_parent := p, d_name := n\<rparr> else d)"

lemma move_entry_sel [simp]: "d_ino (move_entry k p n d) = d_ino d" "d_id (move_entry k p n d) = d_id d"
  by (simp_all add: move_entry_def)

lemma look_move:
  assumes "distinct (map d_slot D)" and "(p, n) \<notin> d_slot ` set D"
  shows "look d_slot (map (move_entry k p n) D) x =
    (if x = (p, n) then map_option (\<lambda>d. d\<lparr>d_parent := p, d_name := n\<rparr>) (look d_slot D k)
     else if x = k then None else look d_slot D x)"
  using assms
proof (induction D)
  case (Cons e D)
  show ?case
  proof (cases "d_slot e = k")
    case True
    then have "look d_slot D k = None" using Cons.prems(1) by (auto simp: look_None_iff)
    then show ?thesis using Cons True by (auto simp: move_entry_def)
  next
    case False
    then show ?thesis using Cons by (auto simp: move_entry_def)
  qed
qed simp

lemma dentry_ok_move:
  assumes "dentry_ok D" and "(p, n) \<notin> d_slot ` set D"
  shows "dentry_ok (map (move_entry k p n) D)"
proof -
  have "distinct (map d_slot (map (move_entry k p n) D))"
    using assms(1) [unfolded dentry_ok_def, THEN conjunct2] assms(2)
  proof (induction D)
    case (Cons e D)
    have "d_slot (move_entry k p n e) \<notin> d_slot ` set (map (move_entry k p n) D)"
    proof
      assume "d_slot (move_entry k p n e) \<in> d_slot ` set (map (move_entry k p n) D)"
      then obtain x where x: "x \<in> set D" "d_slot (move_entry k p n e) = d_slot (move_entry k p n x)"
        by (metis (no_types, lifting) image_iff list.set_map)
      have slot: "d_slot (move_entry k p n d) = (if d_slot d = k then (p, n) else d_slot d)" for d
        by (simp add: move_entry_def)
      have "d_slot x \<in> d_slot ` set D" using x(1) by (rule imageI)
      moreover have "d_slot e \<notin> d_slot ` set D" "(p, n) \<noteq> d_slot e" "(p, n) \<notin> d_slot ` set D"
        using Cons.prems by simp_all
      ultimately have "d_slot e \<noteq> d_slot x" "(p, n) \<noteq> d_slot e" "(p, n) \<noteq> d_slot x"
        by metis+
      then show False using x(2) unfolding slot by (metis (full_types))
    qed
    then show ?case using Cons by (simp add: image_image)
  qed simp
  moreover have "map d_id (map (move_entry k p n) D) = map d_id D" by simp
  ultimately show ?thesis using assms(1) by (simp only: dentry_ok_def)
qed

lemma links_move [simp]: "links (map (move_entry k p n) D) = links D"
  by (intro ext) (simp add: links_def filter_map o_def)

lemma move_inv:
  assumes inv: "ns_inv c" and D': "fs_dentry (tabs c') = map (move_entry k p n) (fs_dentry (tabs c))"
    and free: "dir_map (tabs c) (p, n) = None" and p: "ino_map (tabs c) p = Some pr" "is_dir pr"
    and same: "fs_inode (tabs c') = fs_inode (tabs c)" "fs_data (tabs c') = fs_data (tabs c)"
      "fs_symlink (tabs c') = fs_symlink (tabs c)" "seq_inode c' = seq_inode c" "seq_dentry c' = seq_dentry c"
  shows "ns_inv c'"
proof -
  have I: "ino_map (tabs c') = ino_map (tabs c)" using same(1) by (simp add: ino_map_def)
  have slot: "(p, n) \<notin> d_slot ` set (fs_dentry (tabs c))"
    using free look_None_iff [of d_slot "fs_dentry (tabs c)" "(p, n)"] by (simp add: dir_map_def)
  have "entries_ok (ino_map (tabs c)) (fs_dentry (tabs c'))"
    using ns_invD(6) [OF inv] p unfolding entries_ok_def D' by (auto simp: move_entry_def)
  moreover have "counts_ok (ino_map (tabs c)) (fs_dentry (tabs c'))"
    using ns_invD(7) [OF inv] unfolding counts_ok_def D' by simp
  moreover have "below_serials c'"
    using ns_invD(5) [OF inv] same unfolding below_serials_def I D' by auto
  ultimately show ?thesis
    using ns_invD(1,3,4,8) [OF inv] dentry_ok_move [OF ns_invD(2) [OF inv] slot, of k] same I D'
    by (simp add: ns_inv_def keys_ok_def)
qed

lemma move_step:
  assumes "ready c" and "ns_inv c" and free: "dir_map (tabs c) (p, n) = None"
  obtains m c' where
    "update_dentries (\<lambda>d. d_slot d = k) (\<lambda>d. d\<lparr>d_parent := p, d_name := n\<rparr>) c = (Inr m, c')"
    and "fs_dentry (tabs c') = map (move_entry k p n) (fs_dentry (tabs c))"
    and "fs_inode (tabs c') = fs_inode (tabs c)" and "fs_data (tabs c') = fs_data (tabs c)"
    and "fs_symlink (tabs c') = fs_symlink (tabs c)"
    and "seq_inode c' = seq_inode c" and "seq_dentry c' = seq_dentry c"
    and "ready c'" and "txn_state c' = txn_state c" and "conn.more c' = conn.more c"
    and "dir_map (tabs c') = (\<lambda>x. if x = (p, n) then dir_map (tabs c) k
          else if x = k then None else dir_map (tabs c) x)"
proof -
  let ?D = "fs_dentry (tabs c)"
  have slot: "(p, n) \<notin> d_slot ` set ?D"
    using free look_None_iff [of d_slot ?D "(p, n)"] by (simp add: dir_map_def)
  have eq: "(\<lambda>r. if d_slot r = k then r\<lparr>d_parent := p, d_name := n\<rparr> else r) = move_entry k p n"
    by (intro ext) (simp only: move_entry_def)
  have ok: "dentry_ok (map (move_entry k p n) ?D)" by (rule dentry_ok_move [OF ns_invD(2) [OF assms(2)] slot])
  let ?c' = "put_dentry (map Updated (filter (\<lambda>d. d_slot d = k) ?D)) (map (move_entry k p n) ?D) c"
  have upd: "update_dentries (\<lambda>d. d_slot d = k) (\<lambda>d. d\<lparr>d_parent := p, d_name := n\<rparr>) c =
      (Inr (length (filter (\<lambda>d. d_slot d = k) ?D)), ?c')"
    using update_dentries_ready [OF assms(1), of "\<lambda>d. d_slot d = k" "\<lambda>d. d\<lparr>d_parent := p, d_name := n\<rparr>"] ok
    by (simp only: eq)
  have "distinct (map d_slot ?D)" using ns_invD(2) [OF assms(2)] by (simp add: dentry_ok_def)
  note lm = look_move [OF this slot, of k]
  have "dir_map (tabs ?c') = (\<lambda>x. if x = (p, n) then dir_map (tabs c) k
      else if x = k then None else dir_map (tabs c) x)"
    by (rule ext) (simp add: dir_map_def lm option.map_comp o_def)
  then show ?thesis using assms(1) by (intro that [OF upd]) simp_all
qed

text \<open>An update of one inode that keeps its type, and its link count unless it is a directory.\<close>

lemma touch_inode:
  assumes "ready c" and inv: "ns_inv c" and f: "\<And>r. i_ino (f r) = i_ino r" "\<And>r. is_dir (f r) = is_dir r"
    and nl: "\<And>r. ino_map (tabs c) i = Some r \<Longrightarrow> \<not> is_dir r \<Longrightarrow> i_nlink (f r) = i_nlink r"
  obtains k c' where "update_inode i f c = (Inr k, c')"
    and "inode_step c c' ((ino_map (tabs c))(i := map_option f (ino_map (tabs c) i)))" and "ns_inv c'"
proof -
  obtain k c' where c': "update_inode i f c = (Inr k, c')"
    "inode_step c c' ((ino_map (tabs c))(i := map_option f (ino_map (tabs c) i)))"
    by (rule update_inode_step [OF assms(1) ns_invD(1) [OF inv] f(1)])
  have "ns_inv c'"
    by (rule inode_step_inv [OF inv c'(2)]) (use f(2) nl in \<open>auto split: if_splits\<close>)
  with c' that show ?thesis by blast
qed

text \<open>\<open>kept c c' S\<close>: everything but the rows of the inodes in \<open>S\<close> is as before, and they stay alive.\<close>

definition kept :: "'z conn_scheme \<Rightarrow> 'z conn_scheme \<Rightarrow> i64 set \<Rightarrow> bool" where
  "kept c c' S \<longleftrightarrow>
    (\<forall>j. j \<notin> S \<or> ino_map (tabs c) j = None \<longrightarrow> ino_map (tabs c') j = ino_map (tabs c) j) \<and>
    (\<forall>j r. ino_map (tabs c) j = Some r \<longrightarrow> (\<exists>r'. ino_map (tabs c') j = Some r' \<and>
       i_mode r' = i_mode r \<and> i_size r' = i_size r)) \<and>
    fs_dentry (tabs c') = fs_dentry (tabs c) \<and> fs_data (tabs c') = fs_data (tabs c) \<and>
    fs_symlink (tabs c') = fs_symlink (tabs c) \<and>
    ready c' = ready c \<and> txn_state c' = txn_state c \<and> conn.more c' = conn.more c"

lemma kept_refl: "kept c c S"
  by (simp add: kept_def)

lemma kept_same: "kept c c' S \<Longrightarrow> j \<notin> S \<or> ino_map (tabs c) j = None \<Longrightarrow> ino_map (tabs c') j = ino_map (tabs c) j"
  unfolding kept_def by (elim conjE allE) (erule mp, assumption)

lemma kept_alive:
  assumes "kept c c' S" and "ino_map (tabs c) j = Some r"
  obtains r' where "ino_map (tabs c') j = Some r'" and "i_mode r' = i_mode r" and "i_size r' = i_size r"
proof -
  have "\<forall>j r. ino_map (tabs c) j = Some r \<longrightarrow> (\<exists>r'. ino_map (tabs c') j = Some r' \<and>
      i_mode r' = i_mode r \<and> i_size r' = i_size r)" using assms(1) unfolding kept_def by (elim conjE)
  from this [rule_format, OF assms(2)] that show ?thesis by (elim exE conjE)
qed

lemma kept_trans:
  assumes "kept c c1 S" and "kept c1 c2 S"
  shows "kept c c2 S"
proof -
  have "ino_map (tabs c2) j = ino_map (tabs c) j" if "j \<notin> S \<or> ino_map (tabs c) j = None" for j
    using kept_same [OF assms(1) that] kept_same [OF assms(2), of j] that by presburger
  moreover have "\<exists>r'. ino_map (tabs c2) j = Some r' \<and> i_mode r' = i_mode r \<and> i_size r' = i_size r"
    if "ino_map (tabs c) j = Some r" for j r
    by (rule kept_alive [OF assms(1) that], erule kept_alive [OF assms(2)]) simp
  ultimately show ?thesis using assms by (simp add: kept_def)
qed

lemma kept_no_growth:
  assumes "kept c c' S"
  shows "no_growth (tabs c) (tabs c')"
proof -
  have "\<exists>r. ino_map (tabs c) j = Some r \<and> is_dir r' = is_dir r" if r': "ino_map (tabs c') j = Some r'" for j r'
  proof (cases "ino_map (tabs c) j")
    case None
    then show ?thesis using kept_same [OF assms, of j] r' by simp
  next
    case (Some r)
    then show ?thesis using r' by (rule_tac kept_alive [OF assms Some]) (simp add: is_dir_def)
  qed
  then show ?thesis using assms by (simp add: no_growth_def kept_def)
qed

lemma kept_step:
  assumes "inode_step c c' ((ino_map (tabs c))(i := map_option f (ino_map (tabs c) i)))" and "i \<in> S"
    and "\<And>r. i_mode (f r) = i_mode r" and "\<And>r. i_size (f r) = i_size r"
  shows "kept c c' S"
  using assms by (auto simp: kept_def inode_step_def)

lemma kept_update:
  assumes rd: "ready c" and inv: "ns_inv c" and f: "\<And>r. i_ino (f r) = i_ino r"
    "\<And>r. i_mode (f r) = i_mode r" "\<And>r. i_size (f r) = i_size r"
    and nl: "\<And>r. ino_map (tabs c) i = Some r \<Longrightarrow> \<not> is_dir r \<Longrightarrow> i_nlink (f r) = i_nlink r"
    and "i \<in> S"
  obtains k c' where "update_inode i f c = (Inr k, c')" and "kept c c' S" and "ns_inv c'"
proof -
  have "is_dir (f r) = is_dir r" for r using f(2) by (simp add: is_dir_def)
  from touch_inode [OF rd inv f(1) this nl] obtain k c' where
    c': "update_inode i f c = (Inr k, c')" "ns_inv c'"
    "inode_step c c' ((ino_map (tabs c))(i := map_option f (ino_map (tabs c) i)))" by blast
  from kept_step [OF c'(3) assms(7) f(2,3)] c' that show ?thesis by blast
qed

text \<open>
  \<open>touches S m c\<close>: from \<open>c\<close> the operation \<open>m\<close> succeeds, keeps the invariant and rewrites only
  rows of \<open>S\<close>.
\<close>

definition touches :: "i64 set \<Rightarrow> ('z conn_scheme, unit) oper \<Rightarrow> 'z conn_scheme \<Rightarrow> bool" where
  "touches S m c \<longleftrightarrow> (\<exists>c'. m c = (Inr (), c') \<and> kept c c' S \<and> ns_inv c')"

lemma touches_ret: "ns_inv c \<Longrightarrow> touches S (ret ()) c"
  by (simp add: touches_def kept_refl)

lemma touches_update:
  assumes "ready c" "ns_inv c" "i \<in> S" "\<And>r. i_ino (f r) = i_ino r"
    "\<And>r. i_mode (f r) = i_mode r" "\<And>r. i_size (f r) = i_size r"
    "\<And>r. ino_map (tabs c) i = Some r \<Longrightarrow> \<not> is_dir r \<Longrightarrow> i_nlink (f r) = i_nlink r"
    and rest: "\<And>c'. ready c' \<Longrightarrow> ns_inv c' \<Longrightarrow> kept c c' S \<Longrightarrow> touches S m c'"
  shows "touches S (sq (update_inode i f) m) c"
proof -
  obtain k c' where c': "update_inode i f c = (Inr k, c')" "kept c c' S" "ns_inv c'"
    by (rule kept_update [OF assms(1,2,4-7,3)])
  then have "ready c'" using assms(1) by (simp add: kept_def)
  from rest [OF this c'(3,2)] c' show ?thesis
    by (auto simp: touches_def intro: kept_trans)
qed

lemma touches_sq:
  assumes "touches S m c" and "ready c"
    and "\<And>c'. ready c' \<Longrightarrow> ns_inv c' \<Longrightarrow> kept c c' S \<Longrightarrow> touches S n c'"
  shows "touches S (sq m n) c"
proof -
  obtain c' where c': "m c = (Inr (), c')" "kept c c' S" "ns_inv c'" using assms(1) by (auto simp: touches_def)
  then have "ready c'" using assms(2) by (simp add: kept_def)
  from assms(3) [OF this c'(3,2)] c' show ?thesis by (auto simp: touches_def intro: kept_trans)
qed

lemma kept_dir:
  "kept c c' S \<Longrightarrow> ino_map (tabs c) i = Some r \<Longrightarrow> is_dir r \<Longrightarrow>
    \<exists>r'. ino_map (tabs c') i = Some r' \<and> is_dir r'"
  by (erule kept_alive, assumption) (simp add: is_dir_def)

lemma rename_tail_touches:
  assumes "ready c" "ns_inv c" "ino_map (tabs c) op = Some r" "is_dir r"
    "ino_map (tabs c) np = Some r'" "is_dir r'"
  shows "touches {src, op, np} (rename_tail now src st op np) c"
proof -
  have dirs: "touches {src, op, np} (if is_directory st \<and> op \<noteq> np then
           sq (update_inode op (add_nlink (- 1))) (sq (update_inode np (add_nlink 1)) (ret ()))
         else ret ()) c"
  proof (cases "is_directory st \<and> op \<noteq> np")
    case True
    have "touches {src, op, np} (sq (update_inode op (add_nlink (- 1))) (sq (update_inode np (add_nlink 1)) (ret ()))) c"
    proof (rule touches_update)
      fix c'
      assume c': "ready c'" "ns_inv c'" "kept c c' {src, op, np}"
      then obtain q where "ino_map (tabs c') np = Some q" "is_dir q" using kept_dir assms(5,6) by blast
      with c' show "touches {src, op, np} (sq (update_inode np (add_nlink 1)) (ret ())) c'"
        by (intro touches_update touches_ret) auto
    qed (use assms in auto)
    then show ?thesis using True by simp
  qed (use assms(2) touches_ret in auto)
  show ?thesis
    unfolding rename_tail_def
  proof (rule touches_sq [OF dirs assms(1)])
    fix c'
    assume "ready c'" "ns_inv c'"
    then show "touches {src, op, np} (case clock_or_zero now of (secs, nsec) \<Rightarrow>
       sq (update_inode src (set_ctime secs nsec))
       (sq (update_inode op (set_cmtime secs nsec))
       (if np \<noteq> op then sq (update_inode np (set_cmtime secs nsec)) (ret ()) else ret ()))) c'"
      by (auto split: prod.split intro!: touches_update touches_ret)
  qed
qed

lemma two_links:
  assumes "distinct (map d_slot D)" and "look d_slot D k = Some d" "look d_slot D k' = Some d'"
    and "k \<noteq> k'" "d_ino d = d_ino d'"
  shows "1 < links D (d_ino d)"
proof -
  have "d \<in> set D" "d' \<in> set D" "d \<noteq> d'" using assms(2-4) by auto
  moreover have "distinct D" using assms(1) by (simp add: distinct_map)
  ultimately have "card {d, d'} \<le> card (set (filter (\<lambda>e. d_ino e = d_ino d) D))"
    using assms(5) by (intro card_mono) auto
  also have "\<dots> \<le> links D (d_ino d)" unfolding links_def by (rule card_length)
  finally show ?thesis using \<open>d \<noteq> d'\<close> by simp
qed

text \<open>Everything up to the move: the destination is free, the source and both parents live.\<close>

lemma rename_room:
  fixes c :: "'z conn_scheme"
  assumes rd: "ready c" and inv: "ns_inv c"
    and i: "dir_map (tabs c) (op, on) = Some i" and r: "ino_map (tabs c) i = Some r"
    and np: "ino_map (tabs c) np = Some pr" and diff: "(op, on) \<noteq> (np, nn)"
    and tgt: "\<And>j. dir_map (tabs c) (np, nn) = Some j \<Longrightarrow>
      \<exists>q. ino_map (tabs c) j = Some q \<and> is_dir q = is_dir r \<and>
        (is_dir q \<longrightarrow> (\<forall>d \<in> set (fs_dentry (tabs c)). d_parent d \<noteq> j))"
    and few: "length (fs_dentry (tabs c)) < 2 ^ 32"
  obtains c' where "replace_target now (build_stats_from_row r) np nn c = (Inr (), c')"
    and "ns_inv c'" and "ready c'" and "txn_state c' = txn_state c" and "conn.more c' = conn.more c"
    and "dir_map (tabs c') = (dir_map (tabs c))((np, nn) := None)"
    and "ino_map (tabs c') op = ino_map (tabs c) op" and "ino_map (tabs c') np = ino_map (tabs c) np"
    and "\<exists>r'. ino_map (tabs c') i = Some r' \<and> i_mode r' = i_mode r \<and> i_size r' = i_size r"
    and "\<forall>j. dir_map (tabs c) (np, nn) \<noteq> Some j \<longrightarrow> ino_map (tabs c') j = ino_map (tabs c) j"
    and "filter (\<lambda>b. b_ino b = i) (fs_data (tabs c')) = filter (\<lambda>b. b_ino b = i) (fs_data (tabs c))"
    and "no_growth (tabs c) (tabs c')"
proof (cases "dir_map (tabs c) (np, nn)")
  case None
  moreover have "(dir_map (tabs c))((np, nn) := None) = dir_map (tabs c)" using None by auto
  ultimately show ?thesis
    using replace_target_absent [OF rd inv] inv rd r by (intro that [of c]) (auto simp: no_growth_refl)
next
  case (Some j)
  obtain q where q: "ino_map (tabs c) j = Some q" "is_dir q = is_dir r"
    "is_dir q \<Longrightarrow> \<forall>d \<in> set (fs_dentry (tabs c)). d_parent d \<noteq> j"
    using tgt [OF Some] by blast
  obtain d opr where d: "look d_slot (fs_dentry (tabs c)) (op, on) = Some d" "d_ino d = i"
    and opr: "ino_map (tabs c) op = Some opr" "is_dir opr"
    by (rule dir_map_inode [OF inv i]) auto
  obtain e npr where e: "look d_slot (fs_dentry (tabs c)) (np, nn) = Some e" "d_ino e = j"
    and npr: "ino_map (tabs c) np = Some npr" "is_dir npr"
    by (rule dir_map_inode [OF inv Some]) auto
  have de: "d \<in> set (fs_dentry (tabs c))" "d_parent d = op" "e \<in> set (fs_dentry (tabs c))" "d_parent e = np"
    using d e by auto
  have oj: "op \<noteq> j" "np \<noteq> j" using q de opr npr by fastforce+
  have slots: "distinct (map d_slot (fs_dentry (tabs c)))" using ns_invD(2) [OF inv] by (simp add: dentry_ok_def)
  have two: "1 < links (fs_dentry (tabs c)) j" if "i = j"
    using two_links [OF slots d(1) e(1) diff] d(2) e(2) that by simp
  have qd: "is_dir q = is_directory (build_stats_from_row r)" using q(2) by simp
  obtain c' where c': "replace_target now (build_stats_from_row r) np nn c = (Inr (), c')"
    and D': "fs_dentry (tabs c') = filter (\<lambda>d. d_slot d \<noteq> (np, nn)) (fs_dentry (tabs c))"
    and I': "\<forall>k. k \<noteq> j \<longrightarrow> ino_map (tabs c') k = ino_map (tabs c) k"
      "1 < links (fs_dentry (tabs c)) j \<longrightarrow>
          (\<exists>q'. ino_map (tabs c') j = Some q' \<and> i_mode q' = i_mode q \<and> i_size q' = i_size q)"
    and B': "\<forall>k. k \<noteq> j \<or> 1 < links (fs_dentry (tabs c)) j \<longrightarrow>
          filter (\<lambda>b. b_ino b = k) (fs_data (tabs c')) = filter (\<lambda>b. b_ino b = k) (fs_data (tabs c))"
    and k': "ns_inv c'" "ready c'" "txn_state c' = txn_state c" "conn.more c' = conn.more c"
    and grow: "no_growth (tabs c) (tabs c')"
    by (rule replace_target_ready [OF rd inv Some q(1) qd q(3) few, of now]) (assumption, rule that)
  have "\<exists>r'. ino_map (tabs c') i = Some r' \<and> i_mode r' = i_mode r \<and> i_size r' = i_size r"
    using I' two r q(1) by (cases "i = j") auto
  moreover have "filter (\<lambda>b. b_ino b = i) (fs_data (tabs c')) = filter (\<lambda>b. b_ino b = i) (fs_data (tabs c))"
    using B' two by blast
  moreover have "dir_map (tabs c') = (dir_map (tabs c))((np, nn) := None)"
    by (rule dir_map_delete [OF ns_invD(2) [OF inv] D'])
  moreover have "\<forall>k. dir_map (tabs c) (np, nn) \<noteq> Some k \<longrightarrow> ino_map (tabs c') k = ino_map (tabs c) k"
    using I'(1) Some by auto
  ultimately show ?thesis using that [OF c' k'] I'(1) oj grow by blast
qed

lemma rename_ready:
  fixes c :: "'l fs_state"
  assumes rd: "ready c" "txn_state c = NoTxn" and inv: "ns_inv c" and nn: "length nn \<le> MAX_NAME_LEN"
    and i: "dir_map (tabs c) (op, on) = Some i" "i \<noteq> ROOT_INO" and r: "ino_map (tabs c) i = Some r"
    and np: "ino_map (tabs c) np = Some pr" "is_dir pr" and diff: "(op, on) \<noteq> (np, nn)"
    and tgt: "\<And>j. dir_map (tabs c) (np, nn) = Some j \<Longrightarrow>
      \<exists>q. ino_map (tabs c) j = Some q \<and> is_dir q = is_dir r \<and>
        (is_dir q \<longrightarrow> (\<forall>d \<in> set (fs_dentry (tabs c)). d_parent d \<noteq> j))"
    and few: "length (fs_dentry (tabs c)) < 2 ^ 32"
  obtains c' where "rename L now_dec now op on np nn c = (Inr (), c')"
    and "ns_inv c'" and "ready c'" and "txn_state c' = NoTxn"
    and "dir_map (tabs c') = (dir_map (tabs c))((op, on) := None, (np, nn) \<mapsto> i)"
    and "\<exists>r'. ino_map (tabs c') i = Some r' \<and> i_mode r' = i_mode r \<and> i_size r' = i_size r"
    and "\<forall>j. dir_map (tabs c) (np, nn) \<noteq> Some j \<longrightarrow> j \<notin> {i, op, np} \<longrightarrow>
          ino_map (tabs c') j = ino_map (tabs c) j"
    and "filter (\<lambda>b. b_ino b = i) (fs_data (tabs c')) = filter (\<lambda>b. b_ino b = i) (fs_data (tabs c))"
    and "dcache c' = lru_put L (np, nn) i (lru_pop L (np, nn) (lru_pop L (op, on) (dcache c)))"
    and "no_growth (tabs c) (tabs c')"
proof -
  let ?c0 = "c\<lparr>txn_state := Active (tabs c)\<rparr>" and ?st = "build_stats_from_row r"
  obtain opr where opr: "ino_map (tabs c) op = Some opr" "is_dir opr"
    using dir_map_inode [OF inv i(1)] by (metis fst_conv)
  have r0: "ready ?c0" using rd by simp
  obtain c1 where c1: "replace_target now_dec ?st np nn ?c0 = (Inr (), c1)"
    and i1: "ns_inv c1" "ready c1" "txn_state c1 = txn_state ?c0" "conn.more c1 = conn.more ?c0"
    and m1: "dir_map (tabs c1) = (dir_map (tabs ?c0))((np, nn) := None)"
    and p1: "ino_map (tabs c1) op = ino_map (tabs ?c0) op" "ino_map (tabs c1) np = ino_map (tabs ?c0) np"
    and s1: "\<exists>r'. ino_map (tabs c1) i = Some r' \<and> i_mode r' = i_mode r \<and> i_size r' = i_size r"
    and o1: "\<forall>j. dir_map (tabs ?c0) (np, nn) \<noteq> Some j \<longrightarrow> ino_map (tabs c1) j = ino_map (tabs ?c0) j"
    and d1: "filter (\<lambda>b. b_ino b = i) (fs_data (tabs c1)) = filter (\<lambda>b. b_ino b = i) (fs_data (tabs ?c0))"
    and w1: "no_growth (tabs ?c0) (tabs c1)"
    by (rule rename_room [OF r0 _ _ _ _ diff]) (use inv i r np tgt few in auto)
  have free1: "dir_map (tabs c1) (np, nn) = None" using m1 by simp
  obtain m c2 where c2: "update_dentries (\<lambda>d. d_slot d = (op, on)) (\<lambda>d. d\<lparr>d_parent := np, d_name := nn\<rparr>) c1 = (Inr m, c2)"
    and D2: "fs_dentry (tabs c2) = map (move_entry (op, on) np nn) (fs_dentry (tabs c1))"
    and f2: "fs_inode (tabs c2) = fs_inode (tabs c1)" "fs_data (tabs c2) = fs_data (tabs c1)"
      "fs_symlink (tabs c2) = fs_symlink (tabs c1)" "seq_inode c2 = seq_inode c1" "seq_dentry c2 = seq_dentry c1"
    and g2: "ready c2" "txn_state c2 = txn_state c1" "conn.more c2 = conn.more c1"
    and m2: "dir_map (tabs c2) = (\<lambda>x. if x = (np, nn) then dir_map (tabs c1) (op, on)
          else if x = (op, on) then None else dir_map (tabs c1) x)"
    by (rule move_step [OF i1(2,1) free1]) (rule that)
  have n1: "ino_map (tabs c1) np = Some pr" using p1(2) np by simp
  have inv2: "ns_inv c2" by (rule move_inv [OF i1(1) D2 free1 n1 np(2) f2])
  have I2: "ino_map (tabs c2) = ino_map (tabs c1)" using f2(1) by (simp add: ino_map_def)
  have "touches {i, op, np} (rename_tail now i ?st op np) c2"
    by (rule rename_tail_touches [OF g2(1) inv2, where r = opr and r' = pr]) (use I2 p1 opr np in auto)
  then obtain c3 where c3: "rename_tail now i ?st op np c2 = (Inr (), c3)" "kept c2 c3 {i, op, np}" "ns_inv c3"
    by (auto simp: touches_def)
  have f3: "ready c3" "dir_map (tabs c3) = dir_map (tabs c2)" "fs_data (tabs c3) = fs_data (tabs c1)"
    "conn.more c3 = conn.more c"
    using c3(2) g2 f2 i1 by (auto simp: kept_def dir_map_def)
  let ?c' = "(end_kept c3)\<lparr>dcache := lru_put L (np, nn) i (lru_pop L (np, nn) (lru_pop L (op, on) (dcache c)))\<rparr>"
  have body: "rename_body now_dec now i ?st op on np nn ?c0 = (Inr (), c3)"
    by (simp only: rename_body_def bnd_def sq_def c1 c2 c3(1) prod.case sum.case)
  have "dcache (end_kept c3) = dcache c" using f3(4) by (intro more_dcache) simp
  then have run: "rename L now_dec now op on np nn c = (Inr (), ?c')"
    using rd nn i r ns_invD(2) [OF inv] body f3(1) by (simp add: rename_def transact_def run)
  have "dir_map (tabs ?c') = (dir_map (tabs c))((op, on) := None, (np, nn) \<mapsto> i)"
    using f3(2) m2 m1 i(1) diff by (auto simp: fun_eq_iff)
  moreover have "ns_inv ?c'" using c3(3) by (simp add: ns_inv_def below_serials_def)
  moreover have "\<exists>r'. ino_map (tabs c3) i = Some r' \<and> i_mode r' = i_mode r \<and> i_size r' = i_size r"
    using s1 c3(2) I2 unfolding kept_def by metis
  moreover have "\<forall>j. dir_map (tabs c) (np, nn) \<noteq> Some j \<longrightarrow> j \<notin> {i, op, np} \<longrightarrow>
      ino_map (tabs c3) j = ino_map (tabs c) j"
    using o1 c3(2) I2 by (simp add: kept_def)
  moreover have "no_growth (tabs c2) (tabs c3)" by (rule kept_no_growth [OF c3(2)])
  then have "no_growth (tabs c1) (tabs c3)" using I2 f2(2,3) by (simp add: no_growth_def)
  then have "no_growth (tabs c) (tabs c3)" using w1 by (simp add: no_growth_trans)
  ultimately show ?thesis
    using f3 d1 by (intro that [OF run]) (simp_all add: ready_def)
qed

end
