(* ===== verification/Namespace_Theorems.thy ===== *)
theory Namespace_Theorems
  imports Namespace
begin

text \<open>
  The properties of the inode-based interface: what each operation does to the name space, on
  the success and on the error paths, that the invariant of the name space is kept, and that
  the entry cache never disagrees with the committed directory table.
\<close>

section \<open>A sample filesystem\<close>

definition sample_fs :: "lru_list fs_state" where
  "sample_fs =
    \<lparr>tabs = sample_tables, txn_state = NoTxn, faults = [], seq_inode = 5, seq_dentry = 4,
     seq_tool = 1, guc_volume = Some ''v'', guc_suppress = None, guc_suppress_local = None,
     dcache = []\<rparr>"

lemma sample_fs_sel [simp]:
  "tabs sample_fs = sample_tables" "txn_state sample_fs = NoTxn" "ready sample_fs"
  "seq_inode sample_fs = 5" "seq_dentry sample_fs = 4" "dcache sample_fs = []"
  by (simp_all add: sample_fs_def ready_def)

lemma sample_dir_map:
  "dir_map sample_tables k = (if k = (1, ''a'') then Some 2 else if k = (1, ''d'') then Some 3
    else if k = (1, ''l'') then Some 4 else None)"
  by (auto simp: dir_map_def sample_tables_def)

lemma sample_ino_map:
  "ino_map sample_tables i = (if i = 1 then Some (sample_inode 1 0x41ED 3 0)
    else if i = 2 then Some (sample_inode 2 0x81A4 1 6) else if i = 3 then Some (sample_inode 3 0x41ED 2 0)
    else if i = 4 then Some (sample_inode 4 0xA1FF 1 2) else None)"
  by (simp add: ino_map_def sample_tables_def sample_inode_def)

lemma sample_inode_sel [simp]:
  "i_ino (sample_inode i m k z) = i" "i_mode (sample_inode i m k z) = m"
  "i_nlink (sample_inode i m k z) = k" "i_size (sample_inode i m k z) = z"
  by (simp_all add: sample_inode_def)

lemma sample_rows:
  "fs_dentry sample_tables =
    [\<lparr>d_id = 1, d_name = ''a'', d_parent = 1, d_ino = 2\<rparr>,
     \<lparr>d_id = 2, d_name = ''d'', d_parent = 1, d_ino = 3\<rparr>,
     \<lparr>d_id = 3, d_name = ''l'', d_parent = 1, d_ino = 4\<rparr>]"
  "b_ino ` set (fs_data sample_tables) = {2}" "l_ino ` set (fs_symlink sample_tables) = {4}"
  by (simp_all add: sample_tables_def)

lemma sample_is_dir [simp]:
  "is_dir (sample_inode 1 0x41ED 3 0)" "\<not> is_dir (sample_inode 2 0x81A4 1 6)"
  "is_dir (sample_inode 3 0x41ED 2 0)" "\<not> is_dir (sample_inode 4 0xA1FF 1 2)"
  by (simp_all add: is_dir_def mode_type_def u32_of_i64_def mode_defs)

lemma sample_ns_inv [simp]: "ns_inv sample_fs"
proof -
  have "keys_ok sample_tables"
    by (simp add: keys_ok_def constraint_defs sample_tables_def sample_inode_def)
  moreover have "below_serials sample_fs"
    by (auto simp: below_serials_def sample_ino_map sample_rows)
  moreover have "entries_ok (ino_map sample_tables) (fs_dentry sample_tables)"
    by (simp add: entries_ok_def sample_ino_map sample_rows)
  moreover have "counts_ok (ino_map sample_tables) (fs_dentry sample_tables)"
    unfolding counts_ok_def sample_ino_map links_def sample_rows
    by (auto split: if_splits)
  moreover have "owned (ino_map sample_tables) (b_ino ` set (fs_data sample_tables) \<union> l_ino ` set (fs_symlink sample_tables))"
    by (simp add: owned_def sample_ino_map sample_rows)
  ultimately show ?thesis by (simp add: ns_inv_def)
qed

lemma sample_hyps:
  "dir_map (tabs sample_fs) (3, n) = None"
  "ino_map (tabs sample_fs) 3 = Some (sample_inode 3 0x41ED 2 0)"
  "ino_map (tabs sample_fs) 1 = Some (sample_inode 1 0x41ED 3 0)"
  "ino_map (tabs sample_fs) 2 = Some (sample_inode 2 0x81A4 1 6)"
  "dir_map (tabs sample_fs) (1, ''a'') = Some 2" "dir_map (tabs sample_fs) (1, ''d'') = Some 3"
  "length ''f'' \<le> MAX_NAME_LEN" "length ''a'' \<le> MAX_NAME_LEN" "length ''d'' \<le> MAX_NAME_LEN"
  "length (fs_dentry (tabs sample_fs)) < 2 ^ 32"
  "(3 :: i64) \<noteq> ROOT_INO" "\<forall>d \<in> set (fs_dentry (tabs sample_fs)). d_parent d \<noteq> 3"
  "i_nlink (sample_inode 3 0x41ED 2 0) = 2" "(2 :: i64) \<noteq> ROOT_INO"
  by (simp_all add: sample_dir_map sample_ino_map MAX_NAME_LEN_def ROOT_INO_def sample_rows)

section \<open>Creation\<close>

lemma created_facts:
  assumes "ns_inv c" and "created c c' p n r g" and "i_ino r = seq_inode c"
    and "ino_map (tabs c) p = Some pr" and "dir_map (tabs c) (p, n) = None"
  shows "dir_map (tabs c') = (dir_map (tabs c))((p, n) \<mapsto> i_ino r)"
    and "ino_map (tabs c) (i_ino r) = None" and "ino_map (tabs c') (i_ino r) = Some r"
    and "ino_map (tabs c') p = Some (g pr)"
    and "\<forall>j. j \<noteq> i_ino r \<and> j \<noteq> p \<longrightarrow> ino_map (tabs c') j = ino_map (tabs c) j"
proof -
  have "seq_inode c \<noteq> p" using fresh_inode(2) [OF assms(1)] assms(4) by auto
  then show "ino_map (tabs c') (i_ino r) = Some r" "ino_map (tabs c') p = Some (g pr)"
    "\<forall>j. j \<noteq> i_ino r \<and> j \<noteq> p \<longrightarrow> ino_map (tabs c') j = ino_map (tabs c) j"
    using assms(2-4) by (auto simp: created_def)
  show "dir_map (tabs c') = (dir_map (tabs c))((p, n) \<mapsto> i_ino r)"
    using created_dir_map [OF assms(2,5)] assms(3) by simp
  show "ino_map (tabs c) (i_ino r) = None" using fresh_inode(2) [OF assms(1)] assms(3) by simp
qed

text \<open>
  C34.  Creating a directory under a free name adds exactly one entry, for a fresh inode that is
  a directory with link count 2; the parent's link count grows by one, every other inode
  stays, the invariant is kept, and the attributes returned are those of the stored row.
\<close>

theorem mkdir_creates:
  fixes c :: "'l fs_state"
  assumes "ready c" and "ns_inv c" and "length n \<le> MAX_NAME_LEN"
    and "dir_map (tabs c) (p, n) = None" and "ino_map (tabs c) p = Some pr" and "is_dir pr"
  shows "\<exists>c' r. mkdir L (Some now) p n m u g c = (Inr (build_stats_from_row r), c') \<and>
    dir_map (tabs c') = (dir_map (tabs c))((p, n) \<mapsto> i_ino r) \<and>
    ino_map (tabs c) (i_ino r) = None \<and> ino_map (tabs c') (i_ino r) = Some r \<and>
    is_dir r \<and> i_nlink r = 2 \<and>
    map_option i_nlink (ino_map (tabs c') p) = Some (i_nlink pr + 1) \<and>
    (\<forall>j. j \<noteq> i_ino r \<and> j \<noteq> p \<longrightarrow> ino_map (tabs c') j = ino_map (tabs c) j) \<and> ns_inv c'"
proof -
  obtain s ns where now: "now = (s, ns)" by fastforce
  define r where "r = new_inode (S_IFDIR OR (m AND PERM_BITS)) 2 u g 0 0 s ns (seq_inode c)"
  obtain c' where c': "mkdir L (Some (s, ns)) p n m u g c = (Inr (build_stats_from_row r), c')"
    "created c c' p n r (\<lambda>r. set_cmtime s ns (add_nlink 1 r))"
    by (rule mkdir_ready [OF assms(1-5) r_def]) (rule that)
  have r: "is_dir r" "i_nlink r = 2" "i_ino r = seq_inode c" by (simp_all add: r_def is_dir_new)
  have "ns_inv c'" by (rule created_inv [OF assms(2,5,6) c'(2)]) (use assms(6) r in simp_all)
  with c'(1) r created_facts [OF assms(2) c'(2) r(3) assms(5,4)] now show ?thesis
    by (intro exI [of _ c'] exI [of _ r]) simp
qed

theorem mkdir_creates_witness:
  "\<exists>c' r. mkdir (list_lru 8) (Some (7, 8)) 3 ''f'' 0x1ED 0 0 sample_fs = (Inr (build_stats_from_row r), c') \<and>
    dir_map (tabs c') = (dir_map (tabs sample_fs))((3, ''f'') \<mapsto> i_ino r) \<and> is_dir r \<and> ns_inv c'"
  using mkdir_creates [OF sample_fs_sel(3) sample_ns_inv sample_hyps(7,1,2) sample_is_dir(3),
      of "list_lru 8" "(7, 8)" "0x1ED" 0 0] by blast

text \<open>
  C35.  Creating a file adds exactly one entry, for a fresh empty regular file with link count
  1 and a handle on it; no other inode changes except the parent's times, and the invariant is
  kept.
\<close>

theorem create_file_creates:
  fixes c :: "'l fs_state"
  assumes "ready c" and "txn_state c = NoTxn" and "ns_inv c" and "length n \<le> MAX_NAME_LEN"
    and "dir_map (tabs c) (p, n) = None" and "ino_map (tabs c) p = Some pr" and "is_dir pr"
  shows "\<exists>c' r. create_file L cs (Some now) p n m u g c =
      (Inr (build_stats_from_row r, \<lparr>f_ino = i_ino r, f_chunk_size = cs\<rparr>), c') \<and>
    dir_map (tabs c') = (dir_map (tabs c))((p, n) \<mapsto> i_ino r) \<and>
    ino_map (tabs c) (i_ino r) = None \<and> ino_map (tabs c') (i_ino r) = Some r \<and>
    is_file (build_stats_from_row r) \<and> i_nlink r = 1 \<and> i_size r = 0 \<and>
    map_option i_nlink (ino_map (tabs c') p) = Some (i_nlink pr) \<and>
    (\<forall>j. j \<noteq> i_ino r \<and> j \<noteq> p \<longrightarrow> ino_map (tabs c') j = ino_map (tabs c) j) \<and>
    fs_data (tabs c') = fs_data (tabs c) \<and> txn_state c' = NoTxn \<and> ns_inv c'"
proof -
  obtain s ns where now: "now = (s, ns)" by fastforce
  define r where "r = new_inode (S_IFREG OR (m AND PERM_BITS)) 1 u g 0 0 s ns (seq_inode c)"
  obtain c' where c': "create_file L cs (Some (s, ns)) p n m u g c =
      (Inr (build_stats_from_row r, \<lparr>f_ino = seq_inode c, f_chunk_size = cs\<rparr>), c')"
    "created c c' p n r (set_cmtime s ns)" "txn_state c' = NoTxn"
    by (rule create_file_ready [OF assms(1-6) r_def]) (rule that)
  have r: "is_file (build_stats_from_row r)" "\<not> is_dir r" "i_nlink r = 1" "i_ino r = seq_inode c" "i_size r = 0"
    by (simp_all add: r_def is_file_def build_stats_from_row_def is_dir_new, simp add: new_inode_def)
  have "ns_inv c'" by (rule created_inv [OF assms(3,6,7) c'(2)]) (use assms(7) r in simp_all)
  moreover have "fs_data (tabs c') = fs_data (tabs c)" using c'(2) by (simp add: created_def)
  ultimately show ?thesis
    using c'(1,3) r created_facts [OF assms(3) c'(2) r(4) assms(6,5)] now
    by (intro exI [of _ c'] exI [of _ r]) simp
qed

theorem create_file_creates_witness:
  "\<exists>c' r. create_file (list_lru 8) 4 (Some (7, 8)) 3 ''f'' 0x1A4 0 0 sample_fs =
      (Inr (build_stats_from_row r, \<lparr>f_ino = i_ino r, f_chunk_size = 4\<rparr>), c') \<and>
    dir_map (tabs c') = (dir_map (tabs sample_fs))((3, ''f'') \<mapsto> i_ino r) \<and> ns_inv c'"
  using create_file_creates [OF sample_fs_sel(3,2) sample_ns_inv sample_hyps(7,1,2) sample_is_dir(3),
      of "list_lru 8" 4 "(7, 8)" "0x1A4" 0 0] by blast

text \<open>
  A symbolic link created under a free name is a fresh inode of type link with count 1,
  and reading it returns the target it was created with; the invariant is kept.
\<close>

theorem symlink_then_readlink:
  fixes c :: "'l fs_state"
  assumes "ready c" and "ns_inv c" and "length n \<le> MAX_NAME_LEN"
    and "dir_map (tabs c) (p, n) = None" and "ino_map (tabs c) p = Some pr" and "is_dir pr"
  shows "\<exists>c' r. symlink L (Some now) p n target u g c = (Inr (build_stats_from_row r), c') \<and>
    dir_map (tabs c') = (dir_map (tabs c))((p, n) \<mapsto> i_ino r) \<and>
    ino_map (tabs c) (i_ino r) = None \<and> ino_map (tabs c') (i_ino r) = Some r \<and>
    is_symlink (build_stats_from_row r) \<and> i_nlink r = 1 \<and> i_size r = int (length target) \<and>
    readlink (i_ino r) c' = (Inr (Some target), c') \<and> ns_inv c'"
proof -
  obtain s ns where now: "now = (s, ns)" by fastforce
  define r where "r = new_inode (S_IFLNK OR 0x1FF) 1 u g (int (length target)) 0 s ns (seq_inode c)"
  obtain c' where c': "symlink L (Some (s, ns)) p n target u g c = (Inr (build_stats_from_row r), c')"
    "created c c' p n r (set_cmtime s ns)" "ready c'"
    "fs_symlink (tabs c') = fs_symlink (tabs c) @ [\<lparr>l_ino = seq_inode c, l_target = target\<rparr>]"
    by (rule symlink_ready [OF assms(1-5) r_def]) (rule that)
  have r: "u32_of_i64 (i_mode r) AND S_IFMT = S_IFLNK" "\<not> is_dir r" "i_nlink r = 1" "i_ino r = seq_inode c"
    by (simp_all add: r_def is_dir_new, simp_all add: mode_defs)
  have "seq_inode c \<notin> l_ino ` set (fs_symlink (tabs c))"
    using ns_invD(8) [OF assms(2)] fresh_inode(2) [OF assms(2)] unfolding owned_def by blast
  then have "look l_ino (fs_symlink (tabs c')) (seq_inode c) = Some \<lparr>l_ino = seq_inode c, l_target = target\<rparr>"
    using look_snoc [of l_ino "\<lparr>l_ino = seq_inode c, l_target = target\<rparr>"] c'(4) by simp
  then have "readlink (i_ino r) c' = (Inr (Some target), c')"
    using c'(3) r created_facts(3) [OF assms(2) c'(2) r(4) assms(5,4)]
    by (simp add: readlink_def run)
  moreover have "ns_inv c'" by (rule created_inv [OF assms(2,5,6) c'(2)]) (use assms(6) r in simp_all)
  moreover have "i_size r = int (length target)" by (simp add: r_def new_inode_def)
  ultimately show ?thesis
    using c'(1) r created_facts [OF assms(2) c'(2) r(4) assms(5,4)] now
    by (intro exI [of _ c'] exI [of _ r]) (simp add: is_symlink_def build_stats_from_row_def)
qed

theorem symlink_then_readlink_witness:
  "\<exists>c' r. symlink (list_lru 8) (Some (7, 8)) 3 ''f'' ''/a'' 0 0 sample_fs = (Inr (build_stats_from_row r), c') \<and>
    readlink (i_ino r) c' = (Inr (Some ''/a''), c')"
  using symlink_then_readlink [OF sample_fs_sel(3) sample_ns_inv sample_hyps(7,1,2) sample_is_dir(3),
      of "list_lru 8" "(7, 8)" "''/a''" 0 0] by blast

section \<open>Removal and links\<close>

text \<open>
  C14.  Unlinking a name removes exactly that entry.  The inode loses one link; when that was
  the last one its row and its chunks are gone, and otherwise row and chunks stay.  No other
  file loses a chunk and the invariant is kept.
\<close>

theorem unlink_removes:
  fixes c :: "'l fs_state"
  assumes "ready c" and "ns_inv c" and "length n \<le> MAX_NAME_LEN"
    and "dir_map (tabs c) (p, n) = Some i" and "ino_map (tabs c) i = Some r" and "\<not> is_dir r"
    and "length (fs_dentry (tabs c)) < 2 ^ 32"
  shows "\<exists>c'. unlink L (Some now) p n c = (Inr (), c') \<and>
    dir_map (tabs c') = (dir_map (tabs c))((p, n) := None) \<and>
    (if i_nlink r = 1
     then ino_map (tabs c') i = None \<and> i \<notin> b_ino ` set (fs_data (tabs c'))
     else map_option i_nlink (ino_map (tabs c') i) = Some (i_nlink r - 1) \<and>
       fs_data (tabs c') = fs_data (tabs c)) \<and>
    (\<forall>j. j \<noteq> i \<longrightarrow> filter (\<lambda>b. b_ino b = j) (fs_data (tabs c')) = filter (\<lambda>b. b_ino b = j) (fs_data (tabs c))) \<and>
    (\<forall>j. j \<noteq> i \<and> j \<noteq> p \<longrightarrow> ino_map (tabs c') j = ino_map (tabs c) j) \<and> ns_inv c'"
proof -
  obtain s ns where now: "now = (s, ns)" by fastforce
  obtain pr where p: "ino_map (tabs c) p = Some pr" "is_dir pr"
    using dir_map_inode [OF assms(2,4)] by (metis fst_conv)
  obtain c' where c': "unlink L (Some (s, ns)) p n c = (Inr (), c')"
    and D': "fs_dentry (tabs c') = filter (\<lambda>d. d_slot d \<noteq> (p, n)) (fs_dentry (tabs c))"
    and I': "ino_map (tabs c') = (ino_map (tabs c))(p \<mapsto> set_cmtime s ns pr,
          i := (if i_nlink r = 1 then None else Some (set_ctime s ns (add_nlink (- 1) r))))"
    and B': "fs_data (tabs c') = (if i_nlink r = 1 then filter (\<lambda>b. b_ino b \<noteq> i) (fs_data (tabs c)) else fs_data (tabs c))"
    by (rule unlink_ready [OF assms(1-6) p assms(7)]) (rule that)
  have "ns_inv c'" using unlink_inv [OF assms, of L s ns] c' by simp
  moreover have "dir_map (tabs c') = (dir_map (tabs c))((p, n) := None)"
    by (rule dir_map_delete [OF ns_invD(2) [OF assms(2)] D'])
  moreover have "filter (\<lambda>b. b_ino b = j) (fs_data (tabs c')) = filter (\<lambda>b. b_ino b = j) (fs_data (tabs c))"
    if "j \<noteq> i" for j
    unfolding B' using that by (auto intro: filter_cong)
  ultimately show ?thesis
    using now c' I' B' by (intro exI [of _ c']) auto
qed

theorem unlink_removes_witness:
  "\<exists>c'. unlink (list_lru 8) (Some (7, 8)) 1 ''a'' sample_fs = (Inr (), c') \<and>
    dir_map (tabs c') = (dir_map (tabs sample_fs))((1, ''a'') := None) \<and>
    ino_map (tabs c') 2 = None \<and> ns_inv c'"
  using unlink_removes [OF sample_fs_sel(3) sample_ns_inv sample_hyps(8,5,4) sample_is_dir(2) sample_hyps(10),
      of "list_lru 8" "(7, 8)"] by auto

text \<open>
  Removing an empty directory removes exactly its entry and takes one link from the
  parent; but the directory's own row, whose link count was 2, stays with link count 1, in no
  directory: the space is never reclaimed.
\<close>

theorem rmdir_leaves_inode:
  fixes c :: "'l fs_state"
  assumes "ready c" and "ns_inv c" and "length n \<le> MAX_NAME_LEN"
    and "dir_map (tabs c) (p, n) = Some i" and "ino_map (tabs c) i = Some r" and "is_dir r"
    and "i \<noteq> ROOT_INO" and "\<forall>d \<in> set (fs_dentry (tabs c)). d_parent d \<noteq> i" and "i_nlink r = 2"
    and "ino_map (tabs c) p = Some pr"
  shows "\<exists>c'. rmdir L (Some now) p n c = (Inr (), c') \<and>
    dir_map (tabs c') = (dir_map (tabs c))((p, n) := None) \<and>
    map_option i_nlink (ino_map (tabs c') i) = Some 1 \<and> links (fs_dentry (tabs c')) i = 0 \<and>
    map_option i_nlink (ino_map (tabs c') p) = Some (i_nlink pr - 1) \<and>
    (\<forall>j. j \<noteq> i \<and> j \<noteq> p \<longrightarrow> ino_map (tabs c') j = ino_map (tabs c) j)"
proof -
  obtain s ns where now: "now = (s, ns)" by fastforce
  obtain d where d: "look d_slot (fs_dentry (tabs c)) (p, n) = Some d" "d_ino d = i"
    using assms(4) by (auto simp: dir_map_def)
  then have "d \<in> set (fs_dentry (tabs c))" "d_parent d = p" by auto
  then have pi: "p \<noteq> i" using assms(8) by auto
  obtain c' where c': "rmdir L (Some (s, ns)) p n c = (Inr (), c')"
    and D': "fs_dentry (tabs c') = filter (\<lambda>d. d_slot d \<noteq> (p, n)) (fs_dentry (tabs c))"
    and I': "ino_map (tabs c') = (ino_map (tabs c))(p \<mapsto> set_cmtime s ns (add_nlink (- 1) pr),
          i := (if u32_of_i64 (i_nlink r - 1) = 0 then None else Some (add_nlink (- 1) r)))"
    by (rule rmdir_ready [OF assms(1-8,10)]) (rule that)
  have "links (fs_dentry (tabs c)) (d_ino d) = 1"
    using ns_invD(7) [OF assms(2)] assms(5,6) links_pos [OF d(1)] d(2) unfolding counts_ok_def by force
  then have "links (fs_dentry (tabs c')) i = 0"
    using links_one_unique [OF _ d(1)] d(2) ns_invD(2) [OF assms(2)] unfolding D' dentry_ok_def by blast
  moreover have "dir_map (tabs c') = (dir_map (tabs c))((p, n) := None)"
    by (rule dir_map_delete [OF ns_invD(2) [OF assms(2)] D'])
  moreover have "map_option i_nlink (ino_map (tabs c') i) = Some 1"
    using I' assms(9) by (simp add: u32_of_i64_def)
  ultimately show ?thesis
    using now c' I' pi by (intro exI [of _ c']) simp
qed

theorem rmdir_leaves_inode_witness:
  "\<exists>c'. rmdir (list_lru 8) (Some (7, 8)) 1 ''d'' sample_fs = (Inr (), c') \<and>
    dir_map (tabs c') = (dir_map (tabs sample_fs))((1, ''d'') := None) \<and>
    map_option i_nlink (ino_map (tabs c') 3) = Some 1"
  using rmdir_leaves_inode [OF sample_fs_sel(3) sample_ns_inv sample_hyps(9,6,2) sample_is_dir(3)
      sample_hyps(11,12,13,3), of "list_lru 8" "(7, 8)"] by blast

text \<open>
  A hard link adds exactly one entry for the same inode and raises its link count by one;
  the attributes returned are those stored, and the invariant is kept.
\<close>

theorem link_adds_entry:
  fixes c :: "'l fs_state"
  assumes "ready c" and "ns_inv c" and "length n \<le> MAX_NAME_LEN"
    and "dir_map (tabs c) (p, n) = None" and "ino_map (tabs c) i = Some r" and "\<not> is_dir r"
    and "ino_map (tabs c) p = Some pr" and "is_dir pr"
  shows "\<exists>c' r'. link L (Some now) i p n c = (Inr (build_stats_from_row r'), c') \<and>
    dir_map (tabs c') = (dir_map (tabs c))((p, n) \<mapsto> i) \<and>
    ino_map (tabs c') i = Some r' \<and> i_nlink r' = i_nlink r + 1 \<and>
    fs_data (tabs c') = fs_data (tabs c) \<and> ns_inv c'"
proof -
  obtain s ns where now: "now = (s, ns)" by fastforce
  obtain c' where c': "link L (Some (s, ns)) i p n c =
      (Inr (build_stats_from_row (set_ctime s ns (add_nlink 1 r))), c')"
    and D': "fs_dentry (tabs c') = fs_dentry (tabs c) @
      [\<lparr>d_id = seq_dentry c, d_name = n, d_parent = p, d_ino = i\<rparr>]"
    and I': "ino_map (tabs c') = (ino_map (tabs c))(i \<mapsto> set_ctime s ns (add_nlink 1 r), p \<mapsto> set_cmtime s ns pr)"
    and k': "fs_data (tabs c') = fs_data (tabs c)" "ns_inv c'"
    by (rule link_ready [OF assms]) (rule that)
  have "p \<noteq> i" using assms(5-8) by auto
  moreover have "dir_map (tabs c') = (dir_map (tabs c))((p, n) \<mapsto> i)"
    using dir_map_snoc [OF _ D'] assms(4) by simp
  ultimately show ?thesis
    using now c' I' k' by (intro exI [of _ c'] exI [of _ "set_ctime s ns (add_nlink 1 r)"]) simp
qed

theorem link_adds_entry_witness:
  "\<exists>c' r'. link (list_lru 8) (Some (7, 8)) 2 3 ''f'' sample_fs = (Inr (build_stats_from_row r'), c') \<and>
    i_nlink r' = 2 \<and> ns_inv c'"
  using link_adds_entry [OF sample_fs_sel(3) sample_ns_inv sample_hyps(7,1,4) sample_is_dir(2)
      sample_hyps(2) sample_is_dir(3), of "list_lru 8" "(7, 8)"] by fastforce

section \<open>Rename\<close>

text \<open>
  C13.  Renaming a node to a different place, over nothing or over a node of the same kind (an
  empty directory for a directory), moves exactly that entry: the node keeps its inode, its
  mode, its size and its chunks, other inodes are untouched, and the invariant is kept.
\<close>

theorem rename_moves:
  fixes c :: "'l fs_state"
  assumes "ready c" and "txn_state c = NoTxn" and "ns_inv c" and "length nn \<le> MAX_NAME_LEN"
    and "dir_map (tabs c) (op, on) = Some i" and "i \<noteq> ROOT_INO" and "ino_map (tabs c) i = Some r"
    and "ino_map (tabs c) np = Some pr" and "is_dir pr" and "(op, on) \<noteq> (np, nn)"
    and "\<And>j. dir_map (tabs c) (np, nn) = Some j \<Longrightarrow>
      \<exists>q. ino_map (tabs c) j = Some q \<and> is_dir q = is_dir r \<and>
        (is_dir q \<longrightarrow> (\<forall>d \<in> set (fs_dentry (tabs c)). d_parent d \<noteq> j))"
    and "length (fs_dentry (tabs c)) < 2 ^ 32"
  shows "\<exists>c'. rename L now_dec now op on np nn c = (Inr (), c') \<and>
    dir_map (tabs c') = (dir_map (tabs c))((op, on) := None, (np, nn) \<mapsto> i) \<and>
    (\<exists>r'. ino_map (tabs c') i = Some r' \<and> i_mode r' = i_mode r \<and> i_size r' = i_size r) \<and>
    filter (\<lambda>b. b_ino b = i) (fs_data (tabs c')) = filter (\<lambda>b. b_ino b = i) (fs_data (tabs c)) \<and>
    (\<forall>j. dir_map (tabs c) (np, nn) \<noteq> Some j \<longrightarrow> j \<notin> {i, op, np} \<longrightarrow>
       ino_map (tabs c') j = ino_map (tabs c) j) \<and>
    txn_state c' = NoTxn \<and> ns_inv c'"
  by (rule rename_ready [OF assms(1-10) _ assms(12)], erule assms(11), blast)

theorem rename_moves_witness:
  "\<exists>c'. rename (list_lru 8) None (Some (7, 8)) 1 ''a'' 3 ''f'' sample_fs = (Inr (), c') \<and>
    dir_map (tabs c') = (dir_map (tabs sample_fs))((1, ''a'') := None, (3, ''f'') \<mapsto> 2) \<and> ns_inv c'"
proof -
  have "\<exists>q. ino_map (tabs sample_fs) j = Some q \<and> is_dir q = is_dir (sample_inode 2 0x81A4 1 6) \<and>
      (is_dir q \<longrightarrow> (\<forall>d \<in> set (fs_dentry (tabs sample_fs)). d_parent d \<noteq> j))"
    if "dir_map (tabs sample_fs) (3, ''f'') = Some j" for j
    using that by (simp add: sample_hyps del: sample_fs_sel(1))
  moreover have "(1 :: i64, ''a'') \<noteq> (3, ''f'')" by simp
  ultimately show ?thesis
    using rename_moves [OF sample_fs_sel(3,2) sample_ns_inv sample_hyps(7,5,14,4,2) sample_is_dir(3) _ _ sample_hyps(10),
        of "list_lru 8" None "Some (7, 8)"] by blast
qed

text \<open>
  Renaming a regular file onto itself destroys it: the operation succeeds, the entry is
  gone, and when it was the only one the inode and all its chunks are deleted.
\<close>

theorem rename_onto_itself_deletes:
  fixes c :: "'l fs_state"
  assumes "ready c" and "txn_state c = NoTxn" and "ns_inv c" and "length n \<le> MAX_NAME_LEN"
    and "dir_map (tabs c) (p, n) = Some i" and "i \<noteq> ROOT_INO" and "ino_map (tabs c) i = Some r"
    and "\<not> is_dir r" and "i_nlink r = 1" and "length (fs_dentry (tabs c)) < 2 ^ 32"
  shows "\<exists>c'. rename L now_dec now p n p n c = (Inr (), c') \<and>
    dir_map (tabs c') (p, n) = None \<and> ino_map (tabs c') i = None \<and>
    i \<notin> b_ino ` set (fs_data (tabs c'))"
proof -
  let ?c0 = "c\<lparr>txn_state := Active (tabs c)\<rparr>" and ?st = "build_stats_from_row r"
  obtain d pr where d: "look d_slot (fs_dentry (tabs c)) (p, n) = Some d" "d_ino d = i"
    and p: "ino_map (tabs c) p = Some pr" "is_dir pr"
    by (rule dir_map_inode [OF assms(3,5)]) auto
  have pi: "p \<noteq> i" using p assms(7,8) by auto
  have one: "links (fs_dentry (tabs c)) i = 1"
    using ns_invD(7) [OF assms(3)] assms(7-9) unfolding counts_ok_def by force
  have st: "is_dir r = is_directory ?st" by simp
  obtain c1 where c1: "replace_target now_dec ?st p n ?c0 = (Inr (), c1)"
    and D1: "fs_dentry (tabs c1) = filter (\<lambda>d. d_slot d \<noteq> (p, n)) (fs_dentry (tabs ?c0))"
    and I1: "\<forall>k. k \<noteq> i \<longrightarrow> ino_map (tabs c1) k = ino_map (tabs ?c0) k"
    and g1: "\<not> is_dir r \<longrightarrow> links (fs_dentry (tabs ?c0)) i = 1 \<longrightarrow>
          ino_map (tabs c1) i = None \<and> i \<notin> b_ino ` set (fs_data (tabs c1))"
    and k1: "ns_inv c1" "ready c1"
    by (rule replace_target_ready [of ?c0 p n i r ?st now_dec]) (use assms in auto)
  have m1: "dir_map (tabs c1) = (dir_map (tabs c))((p, n) := None)"
    using dir_map_delete [of "tabs c" "tabs c1" "(p, n)"] ns_invD(2) [OF assms(3)] D1 by simp
  have free1: "dir_map (tabs c1) (p, n) = None" using m1 by simp
  obtain m c2 where c2: "update_dentries (\<lambda>d. d_slot d = (p, n)) (\<lambda>d. d\<lparr>d_parent := p, d_name := n\<rparr>) c1 = (Inr m, c2)"
    and D2: "fs_dentry (tabs c2) = map (move_entry (p, n) p n) (fs_dentry (tabs c1))"
    and f2: "fs_inode (tabs c2) = fs_inode (tabs c1)" "fs_data (tabs c2) = fs_data (tabs c1)"
      "fs_symlink (tabs c2) = fs_symlink (tabs c1)" "seq_inode c2 = seq_inode c1" "seq_dentry c2 = seq_dentry c1"
    and g2: "ready c2"
    and m2: "dir_map (tabs c2) = (\<lambda>x. if x = (p, n) then dir_map (tabs c1) (p, n)
          else if x = (p, n) then None else dir_map (tabs c1) x)"
    by (rule move_step [OF k1(2,1) free1]) (rule that)
  have p2: "ino_map (tabs c1) p = Some pr" "ino_map (tabs c2) = ino_map (tabs c1)"
    using I1 pi p f2(1) by (auto simp: ino_map_def)
  have "ns_inv c2" by (rule move_inv [OF k1(1) D2 _ p2(1) p(2) f2]) (use m1 in simp)
  then have "touches {i, p, p} (rename_tail now i ?st p p) c2"
    by (rule rename_tail_touches [OF g2, where r = pr and r' = pr]) (use p2 p in auto)
  then obtain c3 where c3: "rename_tail now i ?st p p c2 = (Inr (), c3)" "kept c2 c3 {i, p, p}" "ns_inv c3"
    by (auto simp: touches_def)
  have "dir_map (tabs c3) = dir_map (tabs c2)" using c3(2) by (intro ext) (simp add: kept_def dir_map_def)
  then have gone: "ino_map (tabs c3) i = None" "i \<notin> b_ino ` set (fs_data (tabs c3))"
    "dir_map (tabs c3) (p, n) = None" "ready c3"
    using c3(2) g1 assms(8) one p2(2) f2(2) g2 m2 free1 by (auto simp: kept_def)
  have body: "rename_body now_dec now i ?st p n p n ?c0 = (Inr (), c3)"
    by (simp only: rename_body_def bnd_def sq_def c1 c2 c3(1) prod.case sum.case)
  have "rename L now_dec now p n p n c = (Inr (), (end_kept c3)\<lparr>dcache :=
      lru_put L (p, n) i (lru_pop L (p, n) (lru_pop L (p, n) (dcache (end_kept c3))))\<rparr>)"
    using assms(1-8) ns_invD(2) [OF assms(3)] body gone(4) by (simp add: rename_def transact_def run)
  then show ?thesis using gone by simp
qed

theorem rename_onto_itself_deletes_witness:
  "\<exists>c'. rename (list_lru 8) None (Some (7, 8)) 1 ''a'' 1 ''a'' sample_fs = (Inr (), c') \<and>
    dir_map (tabs c') (1, ''a'') = None \<and> ino_map (tabs c') 2 = None \<and> 2 \<notin> b_ino ` set (fs_data (tabs c'))"
  by (rule rename_onto_itself_deletes [OF sample_fs_sel(3,2) sample_ns_inv sample_hyps(8,5,14,4) sample_is_dir(2)])
    (simp_all add: sample_rows)

lemma release_inode_in_txn [pres]: "preserves (in_txn t) (release_inode i)"
  unfolding release_inode_def by (intro pres)

lemma rename_body_in_txn:
  "preserves (in_txn t) (rename_body now_dec now i st op on np nn)"
  unfolding rename_body_def rename_tail_def replace_target_def lookup_child_def getattr_with_conn_def
    count_children_def get_link_count_def
  by (intro pres) (simp_all add: add_nlink_def set_ctime_def set_cmtime_def)

lemma atomic_then:
  assumes "atomic s m" and "\<And>c. \<exists>x c'. n c = (Inr x, c')"
  shows "atomic s (sq m n)"
proof -
  have "m c = (Inl e, c')" if "sq m n c = (Inl e, c')" for c e c'
    using that assms(2) by (auto simp: sq_def bnd_def split: prod.splits sum.splits) (metis Inl_Inr_False fst_conv)
  then show ?thesis using assms(1) unfolding atomic_def by blast
qed

text \<open>
  A rename that reports an error, whichever statement failed, leaves the committed tables
  as they were.
\<close>

theorem rename_atomic:
  fixes c :: "'l fs_state"
  assumes "txn_state c = NoTxn" and "rename L now_dec now op on np nn c = (Inl e, c')"
  shows "committed c' = committed c"
proof -
  have "atomic (tabs c) (rename L now_dec now op on np nn)"
    unfolding rename_def
    by (intro atomic_intros atomic_idle atomic_then pres rename_body_in_txn)
      (auto simp: cache_remove_def cache_insert_def sq_def bnd_def lookup_child_def getattr_with_conn_def
        intro!: pres)
  from atomicD [OF this assms] show ?thesis .
qed

theorem rename_atomic_witness:
  "committed (snd (rename (list_lru 8) None (Some (7, 8)) 1 ''a'' 1 ''l''
     (sample_fs\<lparr>faults := replicate 9 False @ [True]\<rparr>))) = sample_tables"
proof -
  let ?c = "sample_fs\<lparr>faults := replicate 9 False @ [True]\<rparr>"
  let ?run = "rename (list_lru 8) None (Some (7, 8)) 1 ''a'' 1 ''l'' ?c"
  have "fst ?run = Inl Postgres" by code_simp
  then obtain c' where "?run = (Inl Postgres, c')" by (cases ?run) auto
  from rename_atomic [OF _ this] this show ?thesis by (simp add: committed_def)
qed

lemma dir_entry_unique:
  assumes "ns_inv c" and "ino_map (tabs c) i = Some r" "is_dir r"
    and "dir_map (tabs c) k = Some i" "dir_map (tabs c) k' = Some i"
  shows "k' = k"
proof (rule ccontr)
  assume "k' \<noteq> k"
  obtain d d' where d: "look d_slot (fs_dentry (tabs c)) k = Some d" "d_ino d = i"
      "look d_slot (fs_dentry (tabs c)) k' = Some d'" "d_ino d' = i"
    using assms(4,5) by (auto simp: dir_map_def)
  have "1 < links (fs_dentry (tabs c)) i"
    using two_links [OF _ d(1,3)] ns_invD(2) [OF assms(1)] \<open>k' \<noteq> k\<close> d by (simp add: dentry_ok_def)
  moreover have "links (fs_dentry (tabs c)) i < 2"
    using ns_invD(7) [OF assms(1)] assms(2,3) unfolding counts_ok_def by blast
  ultimately show False by simp
qed

text \<open>
  The inode-based rename does not refuse to move a directory into itself: the operation
  succeeds, and afterwards the only entry of the directory lies in the directory itself, so no
  path from the root leads to it.
\<close>

theorem rename_into_itself_detaches:
  fixes c :: "'l fs_state"
  assumes "ready c" and "txn_state c = NoTxn" and "ns_inv c" and "length nn \<le> MAX_NAME_LEN"
    and "dir_map (tabs c) (op, on) = Some i" and "i \<noteq> ROOT_INO" and "ino_map (tabs c) i = Some r"
    and "is_dir r" and "dir_map (tabs c) (i, nn) = None" and "length (fs_dentry (tabs c)) < 2 ^ 32"
  shows "\<exists>c'. rename L now_dec now op on i nn c = (Inr (), c') \<and>
    dir_map (tabs c') (i, nn) = Some i \<and> (\<forall>k. dir_map (tabs c') k = Some i \<longrightarrow> k = (i, nn))"
proof -
  have diff: "(op, on) \<noteq> (i, nn)" using assms(5,9) by auto
  have tgt: "\<exists>q. ino_map (tabs c) j = Some q \<and> is_dir q = is_dir r \<and>
      (is_dir q \<longrightarrow> (\<forall>d \<in> set (fs_dentry (tabs c)). d_parent d \<noteq> j))"
    if "dir_map (tabs c) (i, nn) = Some j" for j using that assms(9) by simp
  obtain c' where c': "rename L now_dec now op on i nn c = (Inr (), c')"
    and m: "dir_map (tabs c') = (dir_map (tabs c))((op, on) := None, (i, nn) \<mapsto> i)"
    by (rule rename_ready [OF assms(1-7) assms(7,8) diff tgt assms(10)], assumption) (rule that)
  have "k = (i, nn)" if "dir_map (tabs c') k = Some i" for k
  proof (rule ccontr)
    assume "k \<noteq> (i, nn)"
    with that have "dir_map (tabs c) k = Some i" "k \<noteq> (op, on)"
      unfolding m fun_upd_apply by (simp_all split: if_splits)
    with dir_entry_unique [OF assms(3,7,8,5), of k] show False by simp
  qed
  moreover have "dir_map (tabs c') (i, nn) = Some i" by (simp only: m fun_upd_apply if_True simp_thms)
  ultimately show ?thesis using c' by blast
qed

theorem rename_into_itself_detaches_witness:
  "\<exists>c'. rename (list_lru 8) None (Some (7, 8)) 1 ''d'' 3 ''f'' sample_fs = (Inr (), c') \<and>
    dir_map (tabs c') (3, ''f'') = Some 3 \<and> (\<forall>k. dir_map (tabs c') k = Some 3 \<longrightarrow> k = (3, ''f''))"
  by (rule rename_into_itself_detaches [OF sample_fs_sel(3,2) sample_ns_inv sample_hyps(7,6,11,2)
        sample_is_dir(3) sample_hyps(1,10)])

end
