(* ===== verification/Path_Theorems.thy ===== *)
theory Path_Theorems
  imports Path_Ops Namespace_Theorems
begin

text \<open>
  The properties of the path-based operations: resolution through the cache is the walk of the
  committed directory table, following symbolic links is bounded and ends at something that is
  no link, the creating operations are the inode-based ones at the resolved parent, and the
  transactional ones are all or nothing.
\<close>

section \<open>Resolution\<close>

text \<open>What a list of names means in a name space.\<close>

fun walk :: "(slot \<Rightarrow> i64 option) \<Rightarrow> i64 \<Rightarrow> string list \<Rightarrow> i64 option" where
  "walk m i [] = Some i"
| "walk m i (n # ns) = (case m (i, n) of None \<Rightarrow> None | Some j \<Rightarrow> walk m j ns)"

text \<open>The rows of the resolution query are those of \<open>lookup_child\<close>.\<close>

lemma slot_rows:
  assumes "dentry_ok D"
  shows "filter (\<lambda>d. d_slot d = k) D = (case look d_slot D k of None \<Rightarrow> [] | Some d \<Rightarrow> [d])"
  using assms by (intro filter_key_look) (simp add: dentry_ok_def)

context lru_cache
begin

lemma resolve_from_ready:
  fixes c :: "'l fs_state"
  assumes "ready c" and "dentry_ok (fs_dentry (tabs c))" and "cache_coherent view c"
    and "dir_map (committed c) = dir_map (tabs c)"
  shows "\<exists>l. resolve_from L i ns c = (Inr (walk (dir_map (tabs c)) i ns), c\<lparr>dcache := l\<rparr>) \<and>
    cache_coherent view (c\<lparr>dcache := l\<rparr>)"
  using assms
proof (induction ns arbitrary: i c)
  case Nil
  then show ?case by (intro exI [of _ "dcache c"]) simp
next
  case (Cons n ns)
  define c1 where "c1 = c\<lparr>dcache := snd (lru_get L (i, n) (dcache c))\<rparr>"
  have get: "cache_get L i n c = (Inr (view (dcache c) (i, n)), c1)"
    by (simp add: cache_get_run c1_def)
  have co1: "cache_coherent view c1" unfolding c1_def by (rule coherent_get) (rule Cons.prems(3))
  have hyps1: "ready c1" "dentry_ok (fs_dentry (tabs c1))" "dir_map (committed c1) = dir_map (tabs c1)"
    using Cons.prems by (simp_all add: c1_def)
  show ?case
  proof (cases "view (dcache c) (i, n)")
    case (Some j)
    then have hit: "dir_map (tabs c) (i, n) = Some j"
      using Cons.prems(3,4) by (auto simp: cache_coherent_def)
    from Cons.IH [OF hyps1(1,2) co1 hyps1(3), of j] show ?thesis
      using get Some hit by (auto simp: bnd_def c1_def)
  next
    case None
    have q: "query (\<lambda>t. filter (\<lambda>d. d_slot d = (i, n)) (fs_dentry t)) c1 =
        (Inr (case look d_slot (fs_dentry (tabs c1)) (i, n) of None \<Rightarrow> [] | Some d \<Rightarrow> [d]), c1)"
      using hyps1 by (simp add: query_ready slot_rows del: prod.inject)
    show ?thesis
    proof (cases "look d_slot (fs_dentry (tabs c1)) (i, n)")
      case miss: None
      then have "dir_map (tabs c) (i, n) = None" by (simp add: dir_map_def c1_def)
      then show ?thesis using get None q miss co1
        by (intro exI [of _ "dcache c1"]) (simp add: bnd_def, simp add: c1_def)
    next
      case (Some d)
      define c2 where "c2 = c1\<lparr>dcache := lru_put L (i, n) (d_ino d) (dcache c1)\<rparr>"
      have dm: "dir_map (tabs c) (i, n) = Some (d_ino d)" using Some by (simp add: dir_map_def c1_def)
      have co2: "cache_coherent view c2" unfolding c2_def
        by (rule coherent_insert [OF co1]) (use Cons.prems(4) dm in \<open>simp add: c1_def\<close>)
      have hyps2: "ready c2" "dentry_ok (fs_dentry (tabs c2))" "dir_map (committed c2) = dir_map (tabs c2)"
        using hyps1 by (simp_all add: c2_def)
      have ins: "cache_insert L i n (d_ino d) c1 = (Inr (), c2)" by (simp add: c2_def)
      have "resolve_from L i (n # ns) c = resolve_from L (d_ino d) ns c2"
        using get None q Some ins by (simp add: bnd_def sq_def Let_def)
      with Cons.IH [OF hyps2(1,2) co2 hyps2(3), of "d_ino d"] dm show ?thesis
        by (auto simp: c1_def c2_def)
    qed
  qed
qed

end

text \<open>
  C11.  Resolving a path through the entry cache gives exactly the inode that walking the
  directory table from the root along the words of the path gives, whatever the cache holds, as
  long as it is coherent; nothing but the cache changes, and the cache stays coherent.
\<close>

theorem resolve_path_walks:
  fixes c :: "'l fs_state"
  assumes "lru_cache L view" and "ready c" and "txn_state c = NoTxn"
    and "dentry_ok (fs_dentry (tabs c))" and "cache_coherent view c"
  shows "\<exists>l. resolve_path L (normalize_path p) c =
      (Inr (walk (dir_map (tabs c)) ROOT_INO (meaning p)), c\<lparr>dcache := l\<rparr>) \<and>
    cache_coherent view (c\<lparr>dcache := l\<rparr>)"
proof -
  have "dir_map (committed c) = dir_map (tabs c)" using assms(3) by (simp add: committed_def)
  from lru_cache.resolve_from_ready [OF assms(1,2,4,5) this] show ?thesis
    using assms(2) by (simp add: resolve_path_def resolve_path_with_conn_def split_normalize sq_def bnd_def run)
qed

lemma list_cache: "lru_cache (list_lru cap) map_of"
  by (rule bounded.lru_cache_axioms)

text \<open>The sample filesystem with a cache that knows the entry \<open>a\<close>.\<close>

definition cached_fs :: "lru_list fs_state" where
  "cached_fs = sample_fs\<lparr>dcache := [((1, ''a''), 2)]\<rparr>"

lemma cached_fs_sel [simp]:
  "tabs cached_fs = sample_tables" "txn_state cached_fs = NoTxn" "ready cached_fs"
  by (simp_all add: cached_fs_def)

lemma cached_hyps:
  "cache_coherent map_of cached_fs" "cache_coherent map_of sample_fs"
  "dentry_ok (fs_dentry (tabs cached_fs))" "dentry_ok (fs_dentry (tabs sample_fs))"
  by (auto simp: cache_coherent_def committed_def sample_dir_map cached_fs_def dentry_ok_def sample_rows
      split: if_splits)

theorem resolve_path_walks_witness:
  "\<exists>l. resolve_path (list_lru 8) (normalize_path ''d/../a'') cached_fs =
      (Inr (Some 2), cached_fs\<lparr>dcache := l\<rparr>)"
proof -
  have "meaning ''d/../a'' = [''a'']" by (simp add: meaning_def path_words_def)
  then show ?thesis
    using resolve_path_walks [OF list_cache _ _ cached_hyps(3,1), of 8 "''d/../a''"]
    by (auto simp: sample_dir_map ROOT_INO_def)
qed

section \<open>Symbolic links\<close>

lemma follow_no_link:
  "follow n L e p c = (Inr (Some st), c') \<Longrightarrow> \<not> is_symlink st"
proof (induction n L e p arbitrary: c rule: follow.induct)
  case (2 n L e p)
  show ?case
  proof
    assume "is_symlink st"
    obtain r c1 where r: "resolve_path_with_conn L p c = (Inr r, c1)"
      using "2.prems" by (auto elim: bnd_InrE)
    then obtain i where i: "r = Some i" using "2.prems" by (cases r) simp_all
    obtain s c2 where s: "getattr_with_conn i c1 = (Inr s, c2)"
      using "2.prems" r i by (auto elim!: bnd_InrE)
    then obtain s' where s': "s = Some s'" using "2.prems" r i by (cases s) simp_all
    show False
    proof (cases "is_symlink s'")
      case False
      then show False using "2.prems" r i s s' \<open>is_symlink st\<close> by simp
    next
      case True
      then obtain t c3 where t: "readlink_with_conn L p c2 = (Inr t, c3)"
        using "2.prems" r i s s' by (auto elim!: bnd_InrE)
      then obtain t' where "t = Some t'" using "2.prems" r i s s' True by (cases t) simp_all
      then have "follow n L e (link_target_path p t') c3 = (Inr (Some st), c')"
        using "2.prems" r i s s' True t by simp
      from "2.IH" [OF True this] \<open>is_symlink st\<close> show False by simp
    qed
  qed
qed simp

text \<open>
  What \<open>stat\<close> returns is never a symbolic link, whatever the tables hold and whichever
  statements fail.
\<close>

theorem stat_no_link:
  assumes "stat L p c = (Inr (Some st), c')"
  shows "\<not> is_symlink st"
proof -
  from assms obtain c1 where "follow max_symlink_depth L NotFound (normalize_path p) c1 = (Inr (Some st), c')"
    by (auto simp: stat_def sq_def elim: bnd_InrE)
  then show ?thesis by (rule follow_no_link)
qed

theorem stat_no_link_witness:
  "\<exists>st c'. stat (list_lru 8) ''/l'' sample_fs = (Inr (Some st), c') \<and> \<not> is_symlink st \<and> st_ino st = 2"
proof -
  let ?run = "stat (list_lru 8) ''/l'' sample_fs"
  have "(case fst ?run of Inr (Some st) \<Rightarrow> st_ino st = 2 | _ \<Rightarrow> False)" by code_simp
  then obtain st c' where run: "?run = (Inr (Some st), c')" "st_ino st = 2"
    by (cases ?run) (auto split: sum.splits option.splits)
  from stat_no_link [OF run(1)] run show ?thesis by blast
qed

text \<open>One round of the loop at a link, in a ready session with a coherent cache.\<close>

lemma is_symlink_stats: "is_symlink (build_stats_from_row r) \<longleftrightarrow> mode_type (i_mode r) = S_IFLNK"
  by (simp add: is_symlink_def build_stats_from_row_def mode_type_def)

context lru_cache
begin

lemma resolve_with_conn_ready:
  fixes c :: "'l fs_state"
  assumes "ready c" and "txn_state c = NoTxn" and "dentry_ok (fs_dentry (tabs c))" and "cache_coherent view c"
  obtains l where "resolve_path_with_conn L p c =
      (Inr (walk (dir_map (tabs c)) ROOT_INO (split_path p)), c\<lparr>dcache := l\<rparr>)"
    and "cache_coherent view (c\<lparr>dcache := l\<rparr>)"
proof -
  have "dir_map (committed c) = dir_map (tabs c)" using assms(2) by (simp add: committed_def)
  from resolve_from_ready [OF assms(1,3,4) this] that show ?thesis
    unfolding resolve_path_with_conn_def by blast
qed

lemma follow_link_step:
  fixes c :: "'l fs_state"
  assumes c: "ready c" "txn_state c = NoTxn" "dentry_ok (fs_dentry (tabs c))" "cache_coherent view c"
    and w: "walk (dir_map (tabs c)) ROOT_INO (split_path p) = Some i"
      "walk (dir_map (tabs c)) ROOT_INO (meaning p) = Some i"
    and r: "ino_map (tabs c) i = Some r" "mode_type (i_mode r) = S_IFLNK"
    and t: "look l_ino (fs_symlink (tabs c)) i = Some row"
  obtains l where "follow (Suc n) L e p c = follow n L e (link_target_path p (l_target row)) (c\<lparr>dcache := l\<rparr>)"
    and "cache_coherent view (c\<lparr>dcache := l\<rparr>)"
proof -
  obtain l1 where l1: "resolve_path_with_conn L p c = (Inr (Some i), c\<lparr>dcache := l1\<rparr>)"
    "cache_coherent view (c\<lparr>dcache := l1\<rparr>)"
    by (rule resolve_with_conn_ready [OF c, of p]) (simp add: w)
  let ?c1 = "c\<lparr>dcache := l1\<rparr>"
  obtain l2 where l2: "resolve_path_with_conn L (normalize_path p) ?c1 = (Inr (Some i), c\<lparr>dcache := l2\<rparr>)"
    "cache_coherent view (c\<lparr>dcache := l2\<rparr>)"
    by (rule resolve_with_conn_ready [of ?c1 "normalize_path p"]) (use c l1(2) w in \<open>simp_all add: split_normalize\<close>)
  have "readlink_with_conn L p ?c1 = (Inr (Some (l_target row)), c\<lparr>dcache := l2\<rparr>)"
    using l2 c(1) r t by (simp add: readlink_with_conn_def run mode_type_def)
  then have "follow (Suc n) L e p c = follow n L e (link_target_path p (l_target row)) (c\<lparr>dcache := l2\<rparr>)"
    using l1 c(1) r by (simp add: run is_symlink_stats)
  from that [OF this l2(2)] show ?thesis .
qed

lemma follow_loop:
  fixes c :: "'l fs_state"
  assumes "ready c" "txn_state c = NoTxn" "dentry_ok (fs_dentry (tabs c))" "cache_coherent view c"
    and p: "split_path p = meaning p" "link_target_path p (l_target row) = p"
      "walk (dir_map (tabs c)) ROOT_INO (meaning p) = Some i"
    and r: "ino_map (tabs c) i = Some r" "mode_type (i_mode r) = S_IFLNK"
    and t: "look l_ino (fs_symlink (tabs c)) i = Some row"
  shows "fst (follow n L e p c) = Inl (Fs SymlinkLoop)"
  using assms
proof (induction n arbitrary: c)
  case (Suc n)
  obtain l where l: "follow (Suc n) L e p c = follow n L e (link_target_path p (l_target row)) (c\<lparr>dcache := l\<rparr>)"
    "cache_coherent view (c\<lparr>dcache := l\<rparr>)"
    by (rule follow_link_step [OF Suc.prems(1-4) _ Suc.prems(7-10)]) (use Suc.prems in simp)
  have "fst (follow n L e p (c\<lparr>dcache := l\<rparr>)) = Inl (Fs SymlinkLoop)"
    by (rule Suc.IH) (use Suc.prems l(2) in simp_all)
  then show ?case using l(1) Suc.prems(6) by simp
qed simp

end

text \<open>
  C40.  A symbolic link that points to itself is reported as a loop: \<open>stat\<close> returns, with
  \<open>SymlinkLoop\<close>, for a link at an absolute path whose target is that path.
\<close>

theorem stat_self_link_loops:
  fixes c :: "'l fs_state"
  assumes "lru_cache L view" and "ready c" and "txn_state c = NoTxn"
    and "dentry_ok (fs_dentry (tabs c))" and "cache_coherent view c"
    and "walk (dir_map (tabs c)) ROOT_INO (meaning (slash # p)) = Some i"
    and "ino_map (tabs c) i = Some r" and "mode_type (i_mode r) = S_IFLNK"
    and "look l_ino (fs_symlink (tabs c)) i = Some row" and "l_target row = slash # p"
  shows "fst (stat L (slash # p) c) = Inl (Fs SymlinkLoop)"
proof -
  let ?q = "normalize_path (slash # p)"
  have q: "?q = canonical (meaning (slash # p))" by (rule normalize_absolute) simp
  have "link_target_path ?q (l_target row) = ?q" using assms(10) by (simp add: link_target_path_def)
  moreover have "split_path ?q = meaning ?q" by (simp add: split_normalize)
  ultimately have "fst (follow max_symlink_depth L NotFound ?q c) = Inl (Fs SymlinkLoop)"
    by (intro lru_cache.follow_loop [OF assms(1-5) _ _ _ assms(7-9)]) (use assms(6) in simp_all)
  then show ?thesis using assms(2) by (simp add: stat_def run)
qed

text \<open>The sample filesystem with a link \<open>l\<close> that points to itself.\<close>

definition loop_fs :: "lru_list fs_state" where
  "loop_fs = sample_fs\<lparr>tabs := sample_tables\<lparr>fs_symlink := [\<lparr>l_ino = 4, l_target = ''/l''\<rparr>]\<rparr>\<rparr>"

theorem stat_self_link_loops_witness:
  "fst (stat (list_lru 8) ''/l'' loop_fs) = Inl (Fs SymlinkLoop)"
proof -
  have m: "meaning ''/l'' = [''l'']" by (simp add: meaning_def path_words_def)
  have d: "dir_map (tabs loop_fs) = dir_map sample_tables" "ino_map (tabs loop_fs) = ino_map sample_tables"
    "fs_dentry (tabs loop_fs) = fs_dentry sample_tables"
    by (auto simp: loop_fs_def dir_map_def ino_map_def)
  show ?thesis
    by (rule stat_self_link_loops [OF list_cache, where r = "sample_inode 4 0xA1FF 1 2" and
          row = "\<lparr>l_ino = 4, l_target = ''/l''\<rparr>" and i = 4])
      (use m d cached_hyps(4) in \<open>simp_all add: sample_dir_map sample_ino_map ROOT_INO_def loop_fs_def
        cache_coherent_def mode_type_def u32_of_i64_def mode_defs\<close>)
qed

section \<open>The path-based mkdir is the inode-based one\<close>

text \<open>\<open>discard m\<close> runs \<open>m\<close> and drops its value.\<close>

definition discard :: "('s, 'a) oper \<Rightarrow> ('s, unit) oper" where
  "discard m = bnd m (\<lambda>_. ret ())"

lemma bnd_assoc: "bnd (bnd m f) g = bnd m (\<lambda>x. bnd (f x) g)"
  by (rule ext) (auto simp: bnd_def split: prod.splits sum.splits)

lemma discard_simps:
  "discard (bnd m f) = bnd m (\<lambda>x. discard (f x))" "discard (sq n k) = sq n (discard k)"
  "discard (throw e) = throw e" "discard (ret x) = ret ()"
  "discard (if b then m' else n') = (if b then discard m' else discard n')"
  "discard (case v of (x, y) \<Rightarrow> h x y) = (case v of (x, y) \<Rightarrow> discard (h x y))"
  by (auto simp: discard_def bnd_assoc sq_def bnd_def split: prod.splits)

lemma sq_ret_unit: "sq m (ret ()) = (m :: ('s, unit) oper)"
  by (rule ext) (auto simp: sq_def bnd_def split: prod.splits sum.splits)

lemma default_dir_mode: "S_IFDIR OR (0x1ED AND PERM_BITS) = DEFAULT_DIR_MODE"
  by (simp add: mode_defs)

text \<open>
  C39.  Creating a directory by path is creating it by inode under the resolved parent, with the
  default permissions: same result (\<open>AlreadyExists\<close> included), same tables, same cache.  This is so for
  names of at most \<open>MAX_NAME_LEN\<close> bytes: a longer name is refused by inode, and the path-based
  operation, which does not check the length, goes on with it (\<open>mkdir_path_long_name\<close> below).
\<close>

theorem mkdir_path_is_mkdir:
  fixes c :: "'l fs_state"
  assumes "lru_cache L view" and "ready c" and "txn_state c = NoTxn"
    and "dentry_ok (fs_dentry (tabs c))" and "cache_coherent view c"
    and "meaning p \<noteq> []" and "walk (dir_map (tabs c)) ROOT_INO (butlast (meaning p)) = Some parent"
    and "length (last (meaning p)) \<le> MAX_NAME_LEN"
  shows "\<exists>l. cache_coherent view (c\<lparr>dcache := l\<rparr>) \<and>
    mkdir_path L now p u g c = discard (mkdir L now parent (last (meaning p)) 0x1ED u g) (c\<lparr>dcache := l\<rparr>)"
proof -
  have "split_path (parent_path (meaning p)) = butlast (meaning p)"
    by (rule split_parent [OF assms(6)]) (use meaning_plain [of _ p] in blast)
  then obtain l where l: "resolve_path_with_conn L (parent_path (meaning p)) c = (Inr (Some parent), c\<lparr>dcache := l\<rparr>)"
    "cache_coherent view (c\<lparr>dcache := l\<rparr>)"
    by (metis lru_cache.resolve_with_conn_ready [OF assms(1-5)] assms(7))
  let ?c = "c\<lparr>dcache := l\<rparr>" and ?n = "last (meaning p)"
  have loc: "locate_path L (normalize_path p) c = (Inr (parent, ?n), ?c)"
    using l(1) assms(6) by (simp add: locate_path_def resolve_parent_def split_normalize Let_def)
  have "get_connection ?c = (Inr (), ?c)" using assms(2) by (simp add: run)
  then have "discard (mkdir L now parent ?n 0x1ED u g) ?c =
      bnd (lookup_child parent ?n) (\<lambda>existing. if existing \<noteq> None then throw (Fs AlreadyExists) else
        bnd (clock_now now) (\<lambda>(secs, nsec). bnd (insert_inode (new_inode DEFAULT_DIR_MODE 0 u g 0 0 secs nsec)) (\<lambda>ino.
          sq (insert_dentry ?n parent ino) (sq (update_inode ino (\<lambda>r. r\<lparr>i_nlink := 2\<rparr>))
          (sq (update_inode parent (\<lambda>r. set_cmtime secs nsec (add_nlink 1 r)))
            (cache_insert L parent ?n ino)))))) ?c"
    using assms(8)
    by (simp only: mkdir_def not_less [symmetric] if_False discard_simps sq_Inr Let_def default_dir_mode sq_ret_unit)
  also have "\<dots> = mkdir_path L now p u g c"
    using loc assms(2) by (simp add: mkdir_path_def run)
  finally show ?thesis using l(2) by (intro exI [of _ l]) simp
qed

theorem mkdir_path_is_mkdir_witness:
  "\<exists>l. mkdir_path (list_lru 8) (Some (7, 8)) ''/d/x'' 0 0 cached_fs =
    discard (mkdir (list_lru 8) (Some (7, 8)) 3 ''x'' 0x1ED 0 0) (cached_fs\<lparr>dcache := l\<rparr>)"
proof -
  have "meaning ''/d/x'' = [''d'', ''x'']" by (simp add: meaning_def path_words_def)
  then show ?thesis
    using mkdir_path_is_mkdir [OF list_cache cached_fs_sel(3,2) cached_hyps(3,1), of "''/d/x''" 3 8 "Some (7, 8)" 0 0]
    by (auto simp: sample_dir_map ROOT_INO_def MAX_NAME_LEN_def)
qed

text \<open>
  The path-based operation has no limit on the name: it creates a directory under a free name that
  the inode-based one refuses as too long.
\<close>

theorem mkdir_path_long_name:
  fixes c :: "'l fs_state"
  assumes "lru_cache L view" and "ready c" and "txn_state c = NoTxn" and "ns_inv c" and "cache_coherent view c"
    and "meaning p \<noteq> []" and "walk (dir_map (tabs c)) ROOT_INO (butlast (meaning p)) = Some parent"
    and "dir_map (tabs c) (parent, last (meaning p)) = None" and "ino_map (tabs c) parent = Some pr"
    and "MAX_NAME_LEN < length (last (meaning p))"
  shows "fst (mkdir L now parent (last (meaning p)) m u g c) = Inl (Fs NameTooLong) \<and>
    (\<exists>c'. mkdir_path L (Some (s, ns)) p u g c = (Inr (), c') \<and>
      dir_map (tabs c') = (dir_map (tabs c))((parent, last (meaning p)) \<mapsto> seq_inode c))"
proof
  let ?n = "last (meaning p)" and ?mk = "new_inode DEFAULT_DIR_MODE 0 u g 0 0 s ns"
  show "fst (mkdir L now parent ?n m u g c) = Inl (Fs NameTooLong)" using assms(10) by (simp add: mkdir_def)
  note ok = ns_invD(2) [OF assms(4)]
  have "split_path (parent_path (meaning p)) = butlast (meaning p)"
    by (rule split_parent [OF assms(6)]) (use meaning_plain [of _ p] in blast)
  then obtain l where l: "resolve_path_with_conn L (parent_path (meaning p)) c = (Inr (Some parent), c\<lparr>dcache := l\<rparr>)"
    by (metis lru_cache.resolve_with_conn_ready [OF assms(1-3) ok assms(5)] assms(7))
  let ?c = "c\<lparr>dcache := l\<rparr>"
  have c: "ready ?c" "ns_inv ?c" "dir_map (tabs ?c) (parent, ?n) = None"
    using assms(2,4,8) by (simp_all add: ns_inv_def below_serials_def)
  obtain c1 where steps: "\<And>k :: i64 \<Rightarrow> ('l, unit) fs_oper. bnd (insert_inode ?mk) (\<lambda>ino. sq (insert_dentry ?n parent ino)
        (sq (update_inode ino (\<lambda>r. r\<lparr>i_nlink := 2\<rparr>))
        (sq (update_inode parent (\<lambda>r. set_cmtime s ns (add_nlink 1 r))) (k ino)))) ?c = k (seq_inode c) c1"
    and c1: "created ?c c1 parent ?n ((?mk (seq_inode c))\<lparr>i_nlink := 2\<rparr>) (\<lambda>r. set_cmtime s ns (add_nlink 1 r))"
    by (rule create_steps [OF c, of ?mk "\<lambda>r. r\<lparr>i_nlink := 2\<rparr>" "\<lambda>r. set_cmtime s ns (add_nlink 1 r)"])
      (use assms(9) in auto)
  have "locate_path L (normalize_path p) c = (Inr (parent, ?n), ?c)"
    using l(1) assms(6) by (simp add: locate_path_def resolve_parent_def split_normalize Let_def)
  then have "mkdir_path L (Some (s, ns)) p u g c = cache_insert L parent ?n (seq_inode c) c1"
    using assms(2) c ok by (simp add: mkdir_path_def run steps)
  moreover have "dir_map (tabs c1) = (dir_map (tabs c))((parent, ?n) \<mapsto> seq_inode c)"
    using created_dir_map [OF c1 c(3)] by simp
  ultimately show "\<exists>c'. mkdir_path L (Some (s, ns)) p u g c = (Inr (), c') \<and>
      dir_map (tabs c') = (dir_map (tabs c))((parent, ?n) \<mapsto> seq_inode c)"
    by (simp add: cache_insert_def)
qed

section \<open>All or nothing\<close>

text \<open>A predicate on the session that reading and the cache leave alone.\<close>

locale reader_invariant =
  fixes I :: "'l fs_state \<Rightarrow> bool"
  assumes I_faults: "I c \<Longrightarrow> I (c\<lparr>faults := fs\<rparr>)"
    and I_abort: "I c \<Longrightarrow> I (abort_txn c)"
    and I_dcache: "I c \<Longrightarrow> I (c\<lparr>dcache := l\<rparr>)"
begin

lemma reads_query: "preserves I (query q)"
proof (rule preservesI)
  fix c
  assume "I c"
  then show "I (snd (query q c))"
    using stmt_cases [of "\<lambda>c. (Inr (q (tabs c)), c)" c] I_faults [of c] I_abort
    by (auto simp: query_def)
qed

lemma reads_cache:
  "preserves I (cache_get L p n)" "preserves I (cache_insert L p n i)" "preserves I (cache_remove L p n)"
  by (auto simp: preserves_def cache_get_def I_dcache split: prod.splits)

lemma reads_resolve_from: "preserves I (resolve_from L i ns)"
  by (induction ns arbitrary: i) (auto intro!: pres reads_query reads_cache simp: Let_def)

lemma reads_resolve: "preserves I (resolve_path_with_conn L p)"
  unfolding resolve_path_with_conn_def by (rule reads_resolve_from)

lemma reads_rows:
  "preserves I (lookup_child i n)" "preserves I (getattr_with_conn i)" "preserves I (select_mode i)"
  "preserves I (count_children i)" "preserves I (get_link_count i)" "preserves I (select_size i)"
  unfolding lookup_child_def getattr_with_conn_def select_mode_def count_children_def get_link_count_def
    select_size_def
  by (intro pres reads_query)+

lemma reads_readlink: "preserves I (readlink_with_conn L p)"
  unfolding readlink_with_conn_def by (intro pres reads_resolve reads_rows reads_query)

lemma reads_follow: "preserves I (follow n L e p)"
proof (induction n arbitrary: p)
  case (Suc n)
  then show ?case by (simp, intro pres reads_resolve reads_rows reads_readlink)
qed (simp add: pres)

lemma reads_stat: "preserves I (stat_with_conn L p)"
  unfolding stat_with_conn_def by (rule reads_follow)

lemma reads_parent: "preserves I (resolve_parent L ws)"
  unfolding resolve_parent_def by (intro pres reads_resolve)

lemma reads_locate: "preserves I (locate_path L p)"
  unfolding locate_path_def by (intro pres reads_parent)

lemmas reads = reads_cache reads_resolve reads_rows reads_readlink reads_stat reads_parent reads_locate

end

interpretation idle_reads: reader_invariant "idle s" for s :: tables
  by unfold_locales (auto simp: idle_def abort_txn_def)

interpretation txn_reads: reader_invariant "in_txn s" for s :: tables
  by unfold_locales (auto simp: in_txn_def abort_txn_def)

lemma write_chunk_in_txn: "preserves (in_txn s) (write_chunk_path cs i sz off ds k)"
  unfolding write_chunk_path_def by (intro pres)

lemma pwrite_path_body_in_txn: "preserves (in_txn s) (pwrite_path_body L cs now1 now2 p i n off ds)"
  unfolding pwrite_path_body_def open_or_create_def
  by (intro pres txn_reads.reads write_chunk_in_txn) simp_all

lemma truncate_path_body_in_txn: "preserves (in_txn s) (truncate_path_body cs now i old new)"
  unfolding truncate_path_body_def shrink_chunks_def extend_chunks_def pad_chunk_def
  by (intro pres) simp_all

lemma rename_path_body_in_txn: "preserves (in_txn s) (rename_path_body L now i st p sp sn dp dn)"
  unfolding rename_path_body_def replace_target_path_def rename_tail_def
  by (intro pres txn_reads.reads) (simp_all add: add_nlink_def set_ctime_def set_cmtime_def)

lemma atomic_let: "(\<And>x. atomic s (f x)) \<Longrightarrow> atomic s (let x = v in f x)"
  by simp

lemma atomic_case_prod: "(\<And>x y. atomic s (f x y)) \<Longrightarrow> atomic s (case v of (x, y) \<Rightarrow> f x y)"
  by (cases v) simp

text \<open>
  C36.  The transactional path operations are all or nothing: when a write, a truncation or a
  rename by path reports an error, whichever statement failed, the committed tables are as
  before.
\<close>

theorem path_ops_atomic:
  fixes c :: "'l fs_state"
  assumes "op \<in> {pwrite_path L cs now1 now2 p off ds, truncate_path L cs now1 p new, rename_path L now1 p q}"
    and "txn_state c = NoTxn" and "op c = (Inl e, c')"
  shows "committed c' = committed c"
proof -
  have "atomic (tabs c) (pwrite_path L cs now1 now2 p off ds)"
    unfolding pwrite_path_def
    by (intro atomic_intros atomic_let atomic_case_prod pres idle_get_connection idle_reads.reads
        pwrite_path_body_in_txn)
  moreover have "atomic (tabs c) (truncate_path L cs now1 p new)"
    unfolding truncate_path_def
    by (intro atomic_intros atomic_let pres idle_get_connection idle_reads.reads truncate_path_body_in_txn)
  moreover have "atomic (tabs c) (rename_path L now1 p q)"
    unfolding rename_path_def
    by (intro atomic_intros atomic_let pres idle_get_connection idle_reads.reads
        rename_path_body_in_txn atomic_then atomic_idle)
      (simp add: sq_def bnd_def)
  ultimately have "atomic (tabs c) op" using assms(1) by blast
  from atomicD [OF this assms(2,3)] show ?thesis .
qed

theorem path_ops_atomic_witness:
  "committed (snd (truncate_path (list_lru 8) 4 (Some (7, 8)) ''/a'' 9
     (sample_fs\<lparr>faults := replicate 6 False @ [True]\<rparr>))) = sample_tables"
proof -
  let ?c = "sample_fs\<lparr>faults := replicate 6 False @ [True]\<rparr>"
  let ?op = "truncate_path (list_lru 8) 4 (Some (7, 8)) ''/a'' 9"
  have "fst (?op ?c) = Inl Postgres" by code_simp
  then obtain c' where run: "?op ?c = (Inl Postgres, c')" by (cases "?op ?c") auto
  show ?thesis
    using path_ops_atomic [of ?op "list_lru 8" 4 "Some (7, 8)" None "''/a''" 0 "[]" 9 "''/a''", OF _ _ run] run
    by (simp add: committed_def)
qed

section \<open>Removal, rename and statistics\<close>

text \<open>Symbolic links make \<open>remove\<close> look at the wrong node: it asks for the type of the target.\<close>

lemma depth_two:
  obtains n where "max_symlink_depth = Suc (Suc n)"
  by (rule that [of 38]) (simp add: max_symlink_depth_def)

lemma stat_dangling:
  fixes c :: "'l fs_state"
  assumes lru: "lru_cache L view" and c: "ready c" "txn_state c = NoTxn" "dentry_ok (fs_dentry (tabs c))"
      "cache_coherent view c"
    and p: "walk (dir_map (tabs c)) ROOT_INO (meaning p) = Some i"
    and r: "ino_map (tabs c) i = Some r" "mode_type (i_mode r) = S_IFLNK"
    and t: "look l_ino (fs_symlink (tabs c)) i = Some row"
    and gone: "l_target row = slash # q" "walk (dir_map (tabs c)) ROOT_INO (meaning (slash # q)) = None"
  obtains l where "stat_with_conn L (normalize_path p) c = (Inr None, c\<lparr>dcache := l\<rparr>)"
proof -
  let ?p = "normalize_path (normalize_path p)"
  have m: "split_path ?p = meaning p" "meaning ?p = meaning p" by (simp_all add: split_normalize)
  obtain n where n: "max_symlink_depth = Suc (Suc n)" by (rule depth_two)
  have w: "walk (dir_map (tabs c)) ROOT_INO (split_path ?p) = Some i"
    "walk (dir_map (tabs c)) ROOT_INO (meaning ?p) = Some i" using p m by simp_all
  obtain l where l: "follow (Suc (Suc n)) L InvalidPath ?p c =
      follow (Suc n) L InvalidPath (link_target_path ?p (l_target row)) (c\<lparr>dcache := l\<rparr>)"
    "cache_coherent view (c\<lparr>dcache := l\<rparr>)"
    by (rule lru_cache.follow_link_step [OF lru c w r t, of "Suc n" InvalidPath]) (rule that)
  let ?c = "c\<lparr>dcache := l\<rparr>" and ?t = "link_target_path ?p (l_target row)"
  have "split_path ?t = meaning (slash # q)" using gone(1) by (simp add: link_target_path_def split_normalize)
  then obtain l' where l': "resolve_path_with_conn L ?t ?c = (Inr None, c\<lparr>dcache := l'\<rparr>)"
    using lru_cache.resolve_with_conn_ready [OF lru, of ?c ?t] c l(2) gone(2) by (auto simp: ready_def)
  have "follow (Suc n) L InvalidPath ?t ?c = (Inr None, c\<lparr>dcache := l'\<rparr>)"
    using l' by simp
  then show ?thesis using that l(1) by (simp only: stat_with_conn_def n)
qed

text \<open>
  A dangling symbolic link cannot be removed by path: \<open>remove\<close> reports \<open>NotFound\<close> and the
  tables stay as they are, although the link itself exists.
\<close>

theorem remove_dangling_link_fails:
  fixes c :: "'l fs_state"
  assumes "lru_cache L view" and "ready c" and "txn_state c = NoTxn"
    and "dentry_ok (fs_dentry (tabs c))" and "cache_coherent view c"
    and "walk (dir_map (tabs c)) ROOT_INO (meaning p) = Some i" and "i \<noteq> ROOT_INO" and "meaning p \<noteq> []"
    and "ino_map (tabs c) i = Some r" and "mode_type (i_mode r) = S_IFLNK"
    and "look l_ino (fs_symlink (tabs c)) i = Some row" and "l_target row = slash # q"
    and "walk (dir_map (tabs c)) ROOT_INO (meaning (slash # q)) = None"
  shows "\<exists>l. remove_path L now p c = (Inl (Fs NotFound), c\<lparr>dcache := l\<rparr>)"
proof -
  obtain l where l: "resolve_path_with_conn L (normalize_path p) c = (Inr (Some i), c\<lparr>dcache := l\<rparr>)"
    "cache_coherent view (c\<lparr>dcache := l\<rparr>)"
    using lru_cache.resolve_with_conn_ready [OF assms(1-5), of "normalize_path p"] assms(6)
    by (auto simp: split_normalize)
  let ?c = "c\<lparr>dcache := l\<rparr>"
  obtain l' where "stat_with_conn L (normalize_path p) ?c = (Inr None, ?c\<lparr>dcache := l'\<rparr>)"
    by (rule stat_dangling [OF assms(1), of ?c p i r row q]) (use assms l(2) in simp_all)
  then show ?thesis using l(1) assms(2,7,8)
    by (intro exI [of _ l']) (simp add: remove_path_def run split_normalize Let_def)
qed

text \<open>The sample filesystem with a link \<open>l\<close> to nothing.\<close>

definition dangling_fs :: "lru_list fs_state" where
  "dangling_fs = sample_fs\<lparr>tabs := sample_tables\<lparr>fs_symlink := [\<lparr>l_ino = 4, l_target = ''/x''\<rparr>]\<rparr>\<rparr>"

theorem remove_dangling_link_fails_witness:
  "\<exists>l. remove_path (list_lru 8) (Some (7, 8)) ''/l'' dangling_fs =
    (Inl (Fs NotFound), dangling_fs\<lparr>dcache := l\<rparr>)"
proof -
  have m: "meaning ''/l'' = [''l'']" "meaning ''/x'' = [''x'']" by (simp_all add: meaning_def path_words_def)
  have d: "dir_map (tabs dangling_fs) = dir_map sample_tables" "ino_map (tabs dangling_fs) = ino_map sample_tables"
    "fs_dentry (tabs dangling_fs) = fs_dentry sample_tables"
    by (auto simp: dangling_fs_def dir_map_def ino_map_def)
  show ?thesis
    by (rule remove_dangling_link_fails [OF list_cache, where r = "sample_inode 4 0xA1FF 1 2" and
          row = "\<lparr>l_ino = 4, l_target = ''/x''\<rparr>" and i = 4 and q = "''x''"])
      (use m d cached_hyps(4) in \<open>simp_all add: sample_dir_map sample_ino_map ROOT_INO_def dangling_fs_def
        cache_coherent_def mode_type_def u32_of_i64_def mode_defs\<close>)
qed

lemma join_slash_append:
  "ws \<noteq> [] \<Longrightarrow> vs \<noteq> [] \<Longrightarrow> join_slash (ws @ vs) = join_slash ws @ slash # join_slash vs"
proof (induction ws rule: join_slash.induct)
  case (2 w)
  then show ?case by (cases vs) simp_all
qed simp_all

lemma into_itself_prefix:
  assumes "ws \<noteq> []"
  shows "into_itself (canonical ws) (canonical (ws @ vs))"
proof (cases "vs = []")
  case False
  then show ?thesis
    using join_slash_append [OF assms False] by (simp add: into_itself_def starts_with_def canonical_def)
qed (simp add: into_itself_def)

lemma follow_no_link_ready:
  fixes c :: "'l fs_state"
  assumes "lru_cache L view" "ready c" "txn_state c = NoTxn" "dentry_ok (fs_dentry (tabs c))" "cache_coherent view c"
    and "walk (dir_map (tabs c)) ROOT_INO (meaning p) = Some i"
    and "ino_map (tabs c) i = Some r" "mode_type (i_mode r) \<noteq> S_IFLNK"
  obtains l where "stat_with_conn L (normalize_path p) c = (Inr (Some (build_stats_from_row r)), c\<lparr>dcache := l\<rparr>)"
proof -
  let ?p = "normalize_path (normalize_path p)"
  obtain n where n: "max_symlink_depth = Suc (Suc n)" by (rule depth_two)
  obtain l where "resolve_path_with_conn L ?p c = (Inr (Some i), c\<lparr>dcache := l\<rparr>)"
    using lru_cache.resolve_with_conn_ready [OF assms(1-5), of ?p] assms(6) by (auto simp: split_normalize)
  then have "follow (Suc (Suc n)) L InvalidPath ?p c = (Inr (Some (build_stats_from_row r)), c\<lparr>dcache := l\<rparr>)"
    using assms(2,7,8) by (simp add: run is_symlink_stats)
  then show ?thesis using that by (simp only: stat_with_conn_def n)
qed

text \<open>
  By path, a directory is never moved into itself or below itself: for absolute paths the
  rename is refused with \<open>InvalidRename\<close> and nothing but the cache changes.
\<close>

theorem rename_path_into_itself:
  fixes c :: "'l fs_state"
  assumes "lru_cache L view" and "ready c" and "txn_state c = NoTxn"
    and "dentry_ok (fs_dentry (tabs c))" and "cache_coherent view c"
    and "walk (dir_map (tabs c)) ROOT_INO (meaning (slash # p)) = Some i"
    and "ino_map (tabs c) i = Some r" and "is_dir r"
    and "meaning (slash # p) \<noteq> []" and "meaning (slash # q) = meaning (slash # p) @ vs"
  shows "\<exists>l. rename_path L now (slash # p) (slash # q) c = (Inl (Fs InvalidRename), c\<lparr>dcache := l\<rparr>)"
proof -
  let ?p = "normalize_path (slash # p)" and ?q = "normalize_path (slash # q)"
  have pq: "?p = canonical (meaning (slash # p))" "?q = canonical (meaning (slash # q))"
    by (simp_all add: normalize_absolute)
  have root: "?p \<noteq> ''/''"
    using pq(1) assms(9) join_slash_eq_Nil [of "meaning (slash # p)"] meaning_plain [of _ "slash # p"]
    by (auto simp: canonical_def plain_word_def)
  obtain l where l: "resolve_path_with_conn L ?p c = (Inr (Some i), c\<lparr>dcache := l\<rparr>)"
    "cache_coherent view (c\<lparr>dcache := l\<rparr>)"
    using lru_cache.resolve_with_conn_ready [OF assms(1-5), of ?p] assms(6) by (auto simp: split_normalize)
  let ?c = "c\<lparr>dcache := l\<rparr>"
  obtain l' where "stat_with_conn L ?p ?c = (Inr (Some (build_stats_from_row r)), ?c\<lparr>dcache := l'\<rparr>)"
    by (rule follow_no_link_ready [OF assms(1), of ?c "slash # p" i r])
      (use assms l(2) in \<open>simp_all add: is_dir_def\<close>)
  moreover have "into_itself ?p ?q" using pq assms(9,10) into_itself_prefix by simp
  ultimately show ?thesis using root l(1) assms(2,8)
    by (intro exI [of _ l']) (simp add: rename_path_def run Let_def)
qed

theorem rename_path_into_itself_witness:
  "\<exists>l. rename_path (list_lru 8) (Some (7, 8)) ''/d'' ''/d/e'' sample_fs =
    (Inl (Fs InvalidRename), sample_fs\<lparr>dcache := l\<rparr>)"
proof -
  have "meaning ''/d'' = [''d'']" "meaning ''/d/e'' = [''d'', ''e'']"
    by (simp_all add: meaning_def path_words_def)
  then show ?thesis
    by (intro rename_path_into_itself [OF list_cache sample_fs_sel(3,2) cached_hyps(4,2) _ sample_hyps(2)
          sample_is_dir(3)])
      (simp_all add: sample_dir_map ROOT_INO_def)
qed

text \<open>
  The number of bytes in use is always reported as zero: the sum of the sizes arrives as a
  NUMERIC column, which no conversion of \<open>DbConn::query\<close> accepts.  The number of inodes is right.
\<close>

theorem statfs_reports_zero_bytes:
  assumes "pg_driver D" and "ready c" and "length (fs_inode (tabs c)) < 2 ^ 63"
  shows "statfs D c = (Inr \<lparr>inodes = length (fs_inode (tabs c)), bytes_used = 0\<rparr>, c)"
  using assms
  by (simp add: statfs_def run pg_driver.integer_int8 pg_driver.integer_numeric as_u64_def)

theorem statfs_reports_zero_bytes_witness:
  "statfs pg_types sample_conn = (Inr \<lparr>inodes = 4, bytes_used = 0\<rparr>, sample_conn)"
  using statfs_reports_zero_bytes [OF pg.pg_driver_axioms sample_ready(1)] by (simp add: sample_tables_def)

end
