(* ===== verification/Path_Data.thy ===== *)
theory Path_Data
  imports Path_Theorems
begin

text \<open>
  The data operations by path (\<open>read_file\<close>, \<open>pread\<close>, \<open>pwrite\<close>) against the flat byte array of
  \<open>File_Handle\<close>: reading is right on a file without holes and wrong on one with a hole, writing
  is the array write.
\<close>

section \<open>Files without holes\<close>

text \<open>Every chunk below the end of the file is stored and full, the last one up to the end.\<close>

definition dense :: "nat \<Rightarrow> data_row list \<Rightarrow> i64 \<Rightarrow> nat \<Rightarrow> bool" where
  "dense cs t ino sz \<longleftrightarrow>
    (\<forall>k. (chunk_of t ino k \<noteq> None \<longleftrightarrow> k * cs < sz) \<and>
      (\<forall>d. chunk_of t ino k = Some d \<longrightarrow> length d = min cs (sz - k * cs)))"

text \<open>The stored bytes of the chunks \<open>a\<close> to \<open>e - 1\<close>, one after the other, are the file.\<close>

lemma dense_chunk:
  assumes "0 < cs" and "dense cs t ino sz" and "k * cs < sz"
  obtains d where "chunk_of t ino k = Some d"
    and "d = map (byte_at cs t ino) [k * cs..<min ((k + 1) * cs) sz]"
proof -
  obtain d where d: "chunk_of t ino k = Some d" "length d = min cs (sz - k * cs)"
    using assms(2,3) by (auto simp: dense_def)
  have "d = map (byte_at cs t ino) [k * cs..<min ((k + 1) * cs) sz]"
  proof (rule nth_equalityI)
    show "length d = length (map (byte_at cs t ino) [k * cs..<min ((k + 1) * cs) sz])"
      using d(2) assms(3) by auto
    fix j
    assume j: "j < length d"
    then have "j < cs" using d(2) by simp
    then have "(k * cs + j) div cs = k" "(k * cs + j) mod cs = j" using assms(1) by simp_all
    moreover have "j < min ((k + 1) * cs) sz - k * cs" using j d(2) by auto
    ultimately show "d ! j = map (byte_at cs t ino) [k * cs..<min ((k + 1) * cs) sz] ! j"
      using j d(1) by (simp only: nth_map_upt byte_at_def chunk_byte_def option.case if_True)
  qed
  with d(1) that show ?thesis by blast
qed

definition chunk_rows :: "data_row list \<Rightarrow> i64 \<Rightarrow> nat list \<Rightarrow> (i64 \<times> bytes) list" where
  "chunk_rows t ino ks = map (\<lambda>k. (int k, the (chunk_of t ino k))) ks"

lemma chunk_rows_concat:
  assumes "0 < cs" and "dense cs t ino sz" and "a \<le> e" and "\<And>k. k < e \<Longrightarrow> k * cs < sz"
  shows "concat (map snd (chunk_rows t ino [a..<e])) = map (byte_at cs t ino) [a * cs..<min (e * cs) sz]"
  using assms(3,4)
proof (induction e)
  case (Suc e)
  show ?case
  proof (cases "a \<le> e")
    case False
    then have "Suc e = a" using Suc.prems(1) by simp
    then show ?thesis by (auto simp: chunk_rows_def)
  next
    case True
    have e: "e * cs < sz" using Suc.prems(2) by simp
    obtain d where d: "chunk_of t ino e = Some d" "d = map (byte_at cs t ino) [e * cs..<min ((e + 1) * cs) sz]"
      by (rule dense_chunk [OF assms(1,2) e])
    have IH: "concat (map snd (chunk_rows t ino [a..<e])) = map (byte_at cs t ino) [a * cs..<e * cs]"
      using Suc.IH True Suc.prems(2) e by simp
    have "[a * cs..<min (Suc e * cs) sz] = [a * cs..<e * cs] @ [e * cs..<min (Suc e * cs) sz]"
      using True e upt_add_eq_append [of "a * cs" "e * cs" "min (Suc e * cs) sz - e * cs"]
      by (simp add: mult_le_mono1)
    then show ?thesis using IH d True by (simp add: chunk_rows_def)
  qed
qed (simp add: chunk_rows_def)

text \<open>The rows of a query over a file without holes.\<close>

lemma strict_sorted_eq:
  fixes xs ys :: "(i64 \<times> bytes) list"
  assumes "sorted_wrt (<) (map fst xs)" "sorted_wrt (<) (map fst ys)" "set xs = set ys"
  shows "xs = ys"
proof -
  have "map fst xs = map fst ys"
    using assms strict_sorted_equal [of "map fst xs" "map fst ys"] by simp
  moreover have "inj_on fst (set xs \<union> set ys)"
    using assms(1,3) by (simp add: strict_sorted_iff distinct_map)
  ultimately show ?thesis by (rule map_inj_on)
qed

lemma dense_rows:
  assumes "0 < cs" and "data_ok t" and "dense cs t ino sz"
  obtains e where "\<And>k. k < e \<longleftrightarrow> k * cs < sz \<and> k \<le> hi"
    and "select_chunks ino (int lo) (int hi) t = chunk_rows t ino [lo..<e]"
proof -
  define e where "e = (if sz = 0 then 0 else min (hi + 1) ((sz - 1) div cs + 1))"
  have e: "k < e \<longleftrightarrow> k * cs < sz \<and> k \<le> hi" for k
  proof (cases "sz = 0")
    case False
    then have "k \<le> (sz - 1) div cs \<longleftrightarrow> k * cs < sz"
      using assms(1) by (simp add: less_eq_div_iff_mult_less_eq) linarith
    then show ?thesis using False by (auto simp: e_def)
  qed (simp add: e_def)
  have "select_chunks ino (int lo) (int hi) t = chunk_rows t ino [lo..<e]"
  proof (rule strict_sorted_eq [OF select_chunks_rows(1) [OF assms(2)]])
    show "sorted_wrt (<) (map fst (chunk_rows t ino [lo..<e]))"
      by (simp add: chunk_rows_def sorted_wrt_map o_def sorted_wrt_upt)
    have "(i, d) \<in> set (select_chunks ino (int lo) (int hi) t) \<longleftrightarrow> (i, d) \<in> set (chunk_rows t ino [lo..<e])" for i d
    proof -
      have "(i, d) \<in> set (select_chunks ino (int lo) (int hi) t) \<longleftrightarrow>
          (\<exists>k. i = int k \<and> lo \<le> k \<and> k \<le> hi \<and> chunk_of t ino k = Some d)"
        unfolding select_chunks_rows(2) [OF assms(2)] chunk_of_def
        by (auto intro: exI [of _ "nat i"])
      also have "\<dots> \<longleftrightarrow> (\<exists>k. i = int k \<and> lo \<le> k \<and> k < e \<and> d = the (chunk_of t ino k))"
        using assms(3) e unfolding dense_def by (metis option.exhaust_sel option.sel option.discI)
      also have "\<dots> \<longleftrightarrow> (i, d) \<in> set (chunk_rows t ino [lo..<e])"
        by (auto simp: chunk_rows_def)
      finally show ?thesis .
    qed
    then show "set (select_chunks ino (int lo) (int hi) t) = set (chunk_rows t ino [lo..<e])" by auto
  qed
  with e that show ?thesis by blast
qed

section \<open>Reading\<close>

lemma collect_rows_started:
  "r \<noteq> [] \<Longrightarrow> length r \<le> n \<Longrightarrow> collect_rows skip n rows r = take n (r @ concat (map snd rows))"
proof (induction skip n rows r rule: collect_rows.induct)
  case (2 skip n i d rows r)
  show ?case
  proof (cases "d = []")
    case True
    then show ?thesis using 2 by simp
  next
    case False
    let ?r = "r @ take (min (length d) (n - length r)) d"
    have r: "?r = take n (r @ d)" using "2.prems"(2) by (simp add: min_def)
    have "collect_rows skip n ((i, d) # rows) r = collect_rows skip n rows ?r"
      using "2.prems" False by simp
    also have "\<dots> = take n (?r @ concat (map snd rows))"
      using "2.IH"(2) [of 0 "n - length r" "min (length d) (n - length r)"] "2.prems" False by simp
    also have "\<dots> = take n (r @ concat (map snd ((i, d) # rows)))"
      unfolding r using "2.prems"(2) by (cases "length (r @ d) \<le> n") (simp_all add: min_absorb1)
    finally show ?thesis .
  qed
qed simp

lemma collect_rows_first:
  assumes "skip < length d"
  shows "collect_rows skip n ((i, d) # rows) [] = take n (drop skip (d @ concat (map snd rows)))"
proof (cases "n = 0")
  case True
  have "collect_rows skip 0 rows [] = []" for rows
    by (induction rows) (auto simp: Let_def)
  then show ?thesis using True assms by simp
next
  case False
  let ?r = "take (min (length d - skip) n) (drop skip d)"
  have "?r \<noteq> []" "length ?r \<le> n" using assms False by auto
  then have "collect_rows skip n rows ?r = take n (?r @ concat (map snd rows))"
    by (rule collect_rows_started)
  moreover have "?r = take n (drop skip d)" by (simp add: min_def)
  ultimately show ?thesis
    using assms by (cases "length d - skip \<le> n") (simp_all add: min_def)
qed

lemma collect_dense:
  assumes "0 < cs" and "data_ok t" and "dense cs t ino sz" and "off + n < 2 ^ 63"
  shows "collect_rows (off mod cs) n
      (select_chunks ino (int (off div cs)) (int ((off + n - 1) div cs)) t) [] =
    take n (map (byte_at cs t ino) [off..<sz])"
proof -
  let ?lo = "off div cs" and ?hi = "(off + n - 1) div cs"
  obtain e where e: "\<And>k. k < e \<longleftrightarrow> k * cs < sz \<and> k \<le> ?hi"
    and rows: "select_chunks ino (int ?lo) (int ?hi) t = chunk_rows t ino [?lo..<e]"
    by (rule dense_rows [OF assms(1-3), of ?hi ?lo]) (rule that)
  have off: "?lo * cs + off mod cs = off" "off mod cs < cs" using assms(1) by simp_all
  show ?thesis
  proof (cases "off < sz \<and> n \<noteq> 0")
    case False
    have zero: "collect_rows k 0 rs [] = []" for k rs
      by (induction rs) (auto simp: Let_def)
    have short: "collect_rows k m (chunk_rows t ino [?lo..<e]) [] = []" if "sz \<le> off" "k = off mod cs" for k m
    proof (cases "?lo < e")
      case True
      then have "?lo * cs < sz" using e by blast
      then obtain d where d: "chunk_of t ino ?lo = Some d" "length d = min cs (sz - ?lo * cs)"
        using assms(3) by (auto simp: dense_def)
      have "\<not> ?lo + 1 < e" using e [of "?lo + 1"] that(1) le_Suc_div_mult [OF assms(1), of off] by auto
      then have "[?lo..<e] = [?lo]" using True by (simp add: upt_conv_Cons)
      moreover have "length d \<le> off mod cs" using d(2) that(1) off(1) by linarith
      ultimately show ?thesis using d that by (simp add: chunk_rows_def Let_def)
    qed (simp add: chunk_rows_def)
    show ?thesis
    proof (cases "n = 0")
      case True
      then show ?thesis using zero by simp
    next
      case n: False
      then have "sz \<le> off" using False by simp
      then show ?thesis using short rows by simp
    qed
  next
    case True
    have "?lo \<le> ?hi" using True by (intro div_le_mono) linarith
    moreover have "?lo * cs < sz" using True off(1) by linarith
    ultimately have lo: "?lo < e" using e by blast
    have "?lo * cs < sz" using e lo by blast
    then obtain d where d: "chunk_of t ino ?lo = Some d"
        "d = map (byte_at cs t ino) [?lo * cs..<min ((?lo + 1) * cs) sz]"
      by (rule dense_chunk [OF assms(1,3)])
    have len: "off mod cs < length d"
      using d(2) True off le_Suc_div_mult [OF assms(1), of off] by (simp add: less_diff_conv)
    have list: "chunk_rows t ino [?lo..<e] = (int ?lo, d) # chunk_rows t ino [Suc ?lo..<e]"
      using lo d(1) by (simp add: upt_conv_Cons chunk_rows_def)
    have "collect_rows (off mod cs) n (chunk_rows t ino [?lo..<e]) [] =
        take n (drop (off mod cs) (concat (map snd (chunk_rows t ino [?lo..<e]))))"
      using collect_rows_first [OF len] by (simp add: list)
    also have "\<dots> = take n (drop (off mod cs) (map (byte_at cs t ino) [?lo * cs..<min (e * cs) sz]))"
      using chunk_rows_concat [OF assms(1,3), of ?lo e] lo e by simp
    also have "\<dots> = take n (map (byte_at cs t ino) [off..<min (e * cs) sz])"
      using off(1) by (simp add: drop_map)
    also have "\<dots> = take n (map (byte_at cs t ino) [off..<sz])"
    proof (cases "sz \<le> e * cs")
      case False
      then have "\<not> e \<le> ?hi" using e [of e] by simp
      then have "?hi + 1 \<le> e" by simp
      then have "(?hi + 1) * cs \<le> e * cs" by (rule mult_le_mono1)
      then have "off + n \<le> e * cs" using le_Suc_div_mult [OF assms(1), of "off + n - 1"] by linarith
      then show ?thesis using False True by (simp add: take_map take_upt min_def)
    qed (simp add: min_def)
    finally show ?thesis using rows by simp
  qed
qed

text \<open>
  Reading a range by path is the array read when the file has no hole: the bytes from the
  offset, as many as asked for, short at the end of the file.
\<close>

theorem pread_path_dense:
  fixes c :: "'l fs_state"
  assumes "lru_cache L view" and "ready c" and "txn_state c = NoTxn"
    and "dentry_ok (fs_dentry (tabs c))" and "cache_coherent view c"
    and "walk (dir_map (tabs c)) ROOT_INO (split_path p) = Some i"
    and "file_inv cs (tabs c) i" and "dense cs (fs_data (tabs c)) i (file_size (tabs c) i)"
    and "off + n < 2 ^ 63"
  shows "\<exists>l. pread_path L cs p off n c = (Inr (Some (a_read off n (contents cs (tabs c) i))), c\<lparr>dcache := l\<rparr>)"
proof -
  note fi = file_inv_facts [OF assms(7)]
  obtain l where l: "resolve_path_with_conn L p c = (Inr (Some i), c\<lparr>dcache := l\<rparr>)"
    using lru_cache.resolve_with_conn_ready [OF assms(1-5), of p] assms(6) by auto
  have small: "off div cs < 2 ^ 63" "(off + n - 1) div cs < 2 ^ 63" "n < 2 ^ 63"
    using assms(9) div_le_dividend [of off cs] div_le_dividend [of "off + n - 1" cs] by linarith+
  have "a_read off n (contents cs (tabs c) i) =
      take n (map (byte_at cs (fs_data (tabs c)) i) [off..<file_size (tabs c) i])"
    by (simp add: a_read_def contents_def drop_map)
  then show ?thesis
    using l small assms(2,9) fi(1) collect_dense [OF fi(1,2) assms(8,9)]
    by (intro exI [of _ l]) (simp add: pread_path_def run Let_def)
qed

lemma sample_file:
  "file_inv 4 sample_tables 2" "dense 4 (fs_data sample_tables) 2 (file_size sample_tables 2)"
  "contents 4 sample_tables 2 = [1, 2, 3, 4, 5, 6]"
proof -
  have d: "chunk_of (fs_data sample_tables) 2 k =
      (if k = 0 then Some [1, 2, 3, 4] else if k = 1 then Some [5, 6] else None)" for k
    by (simp add: chunk_of_def sample_tables_def)
  have z: "file_size sample_tables 2 = 6" by (simp add: file_size_def sample_tables_def sample_inode_def)
  show "dense 4 (fs_data sample_tables) 2 (file_size sample_tables 2)"
    unfolding dense_def d z by (auto split: if_splits)
  show "file_inv 4 sample_tables 2"
    by (simp add: file_inv_def sample_tables_def sample_inode_def chunks_within_def constraint_defs)
  show "contents 4 sample_tables 2 = [1, 2, 3, 4, 5, 6]"
    by (simp add: contents_def z byte_at_def d chunk_byte_def upt_rec)
qed

theorem pread_path_dense_witness:
  "\<exists>l. pread_path (list_lru 8) 4 ''/a'' 3 2 cached_fs = (Inr (Some [4, 5]), cached_fs\<lparr>dcache := l\<rparr>)"
proof -
  have p: "split_path ''/a'' = [''a'']" using split_absolute [of "''/a''"] by (simp add: meaning_def path_words_def)
  have "\<exists>l. pread_path (list_lru 8) 4 ''/a'' 3 2 cached_fs =
      (Inr (Some (a_read 3 2 (contents 4 (tabs cached_fs) 2))), cached_fs\<lparr>dcache := l\<rparr>)"
    by (rule pread_path_dense [OF list_cache cached_fs_sel(3,2) cached_hyps(3,1)])
      (simp_all add: p sample_dir_map ROOT_INO_def sample_file)
  then show ?thesis by (simp add: sample_file a_read_def)
qed

text \<open>
  A file with a hole: the first chunk of four is short.  Truncating to two bytes and writing at
  offset four through a handle leaves such a file.
\<close>

definition hole_fs :: "lru_list fs_state" where
  "hole_fs = sample_fs\<lparr>tabs := sample_tables\<lparr>fs_data :=
    [\<lparr>b_ino = 2, b_index = 0, b_data = [1, 2]\<rparr>, \<lparr>b_ino = 2, b_index = 1, b_data = [5, 6]\<rparr>]\<rparr>\<rparr>"

text \<open>
  On a file with a hole the two reads disagree: through a handle the hole reads as zeros, by
  path the bytes after the hole are lost, in \<open>pread\<close> as well as in \<open>read_file\<close>.
\<close>

theorem pread_path_loses_holes:
  "file_inv 4 (tabs hole_fs) 2 \<and> contents 4 (tabs hole_fs) 2 = [1, 2, 0, 0, 5, 6] \<and>
   fst (pread \<lparr>f_ino = 2, f_chunk_size = 4\<rparr> 3 2 hole_fs) = Inr [0, 5] \<and>
   fst (pread_path (list_lru 8) 4 ''/a'' 3 2 hole_fs) = Inr (Some []) \<and>
   fst (read_file (list_lru 8) ''/a'' hole_fs) = Inr (Some [1, 2, 5, 6])"
proof (intro conjI)
  show inv: "file_inv 4 (tabs hole_fs) 2"
    by (simp add: file_inv_def hole_fs_def sample_tables_def sample_inode_def chunks_within_def constraint_defs)
  show bytes: "contents 4 (tabs hole_fs) 2 = [1, 2, 0, 0, 5, 6]" by code_simp
  have "ready hole_fs" by (simp add: hole_fs_def)
  then show "fst (pread \<lparr>f_ino = 2, f_chunk_size = 4\<rparr> 3 2 hole_fs) = Inr [0, 5]"
    using pread_ready [of hole_fs "\<lparr>f_ino = 2, f_chunk_size = 4\<rparr>" 3 2] inv bytes by (simp add: a_read_def)
  have rows: "select_chunks 2 0 1 (fs_data (tabs hole_fs)) = [(0, [1, 2]), (1, [5, 6])]"
    by (simp add: select_chunks_def hole_fs_def)
  have h: "txn_state hole_fs = NoTxn" "dentry_ok (fs_dentry (tabs hole_fs))" "cache_coherent map_of hole_fs"
    using cached_hyps(4) by (simp_all add: hole_fs_def cache_coherent_def)
  have "walk (dir_map (tabs hole_fs)) ROOT_INO (split_path ''/a'') = Some 2"
    using split_absolute [of "''/a''"]
    by (simp add: meaning_def path_words_def hole_fs_def ROOT_INO_def dir_map_def sample_rows)
  then obtain l where "resolve_path_with_conn (list_lru 8) ''/a'' hole_fs = (Inr (Some 2), hole_fs\<lparr>dcache := l\<rparr>)"
    using lru_cache.resolve_with_conn_ready [OF list_cache [of 8] \<open>ready hole_fs\<close> h, of "''/a''"] by auto
  then show "fst (pread_path (list_lru 8) 4 ''/a'' 3 2 hole_fs) = Inr (Some [])"
    using \<open>ready hole_fs\<close> rows by (simp add: pread_path_def run Let_def)
  show "fst (read_file (list_lru 8) ''/a'' hole_fs) = Inr (Some [1, 2, 5, 6])" by code_simp
qed

section \<open>Writing\<close>

lemma u64_sub_small: "b \<le> a \<Longrightarrow> a < 2 ^ 64 \<Longrightarrow> u64_sub a b = a - b"
proof -
  assume ba: "b \<le> a" and a: "a < 2 ^ 64"
  have "a + 2 ^ 64 - b = (a - b) + 2 ^ 64" using ba by (rule diff_add_assoc2)
  then have "u64_sub a b = (a - b) mod 2 ^ 64" by (simp only: u64_sub_def mod_add_self2)
  also have "\<dots> = a - b" by (rule mod_less) (rule le_less_trans [OF diff_le_self a])
  finally show ?thesis .
qed

text \<open>The bounds of one round of the loop: no slice panics.\<close>

lemma chunk_bounds:
  fixes cs off len k :: nat
  assumes "0 < cs" and "0 < len" and "off div cs \<le> k" and "k \<le> (off + len - 1) div cs"
  defines "a \<equiv> off - k * cs" and "b \<equiv> min cs (off + len - k * cs)" and "x \<equiv> k * cs - off"
  shows "k * cs < off + len" and "off < (k + 1) * cs" and "a \<le> b" and "b \<le> cs" and "x + (b - a) \<le> len"
    and "k = (off + len - 1) div cs \<Longrightarrow> off + len \<le> k * cs + cs"
    and "k \<noteq> (off + len - 1) div cs \<Longrightarrow> (k + 1) * cs \<le> off + len"
proof -
  have "k * cs \<le> off + len - 1" using assms(1,4) by (simp add: less_eq_div_iff_mult_less_eq)
  then show kl: "k * cs < off + len" using assms(2) by simp
  have "(off div cs + 1) * cs \<le> (k + 1) * cs" using assms(3) by (intro mult_le_mono1) simp
  then show ok: "off < (k + 1) * cs" using le_Suc_div_mult [OF assms(1), of off] by linarith
  show "a \<le> b" "b \<le> cs" "x + (b - a) \<le> len" using kl ok by (auto simp: a_def b_def x_def)
  show "off + len \<le> k * cs + cs" if "k = (off + len - 1) div cs"
    using le_Suc_div_mult [OF assms(1), of "off + len - 1"] that assms(2) by simp
  show "(k + 1) * cs \<le> off + len" if "k \<noteq> (off + len - 1) div cs"
  proof -
    have "k + 1 \<le> (off + len - 1) div cs" using assms(4) that by simp
    then have "(k + 1) * cs \<le> off + len - 1" using assms(1) by (simp only: less_eq_div_iff_mult_less_eq)
    then show ?thesis by simp
  qed
qed

text \<open>The new bytes of a chunk.\<close>

definition merged :: "nat \<Rightarrow> nat \<Rightarrow> bytes \<Rightarrow> nat \<Rightarrow> bytes \<Rightarrow> bytes" where
  "merged cs off ds k old =
    take (off - k * cs) old @
    take (min cs (off + length ds - k * cs) - (off - k * cs)) (drop (k * cs - off) ds) @
    drop (min cs (off + length ds - k * cs)) old"

lemma merged_nth:
  assumes "0 < cs" and "ds \<noteq> []" and "off div cs \<le> k" and "k \<le> (off + length ds - 1) div cs"
    and "length old = cs"
  shows "length (merged cs off ds k old) = cs"
    and "j < cs \<Longrightarrow> merged cs off ds k old ! j =
      (if off \<le> k * cs + j \<and> k * cs + j < off + length ds then ds ! (k * cs + j - off) else old ! j)"
proof -
  have "0 < length ds" using assms(2) by simp
  note b = chunk_bounds [OF assms(1) this assms(3,4)]
  define a where "a = off - k * cs"
  define e where "e = min cs (off + length ds - k * cs)"
  define x where "x = k * cs - off"
  have abx: "a \<le> e" "e \<le> cs" "x + (e - a) \<le> length ds" using b(3-5) by (simp_all add: a_def e_def x_def)
  have m: "merged cs off ds k old = take a old @ take (e - a) (drop x ds) @ drop e old"
    by (simp add: merged_def a_def e_def x_def)
  show "length (merged cs off ds k old) = cs" using abx assms(5) by (simp add: m)
  assume j: "j < cs"
  have "a \<le> j \<longleftrightarrow> off \<le> k * cs + j" "j < e \<longleftrightarrow> k * cs + j < off + length ds"
    using j b(1) by (auto simp: a_def e_def)
  moreover have "x + (j - a) = k * cs + j - off" if "a \<le> j" using that by (auto simp: x_def a_def)
  ultimately show "merged cs off ds k old ! j =
      (if off \<le> k * cs + j \<and> k * cs + j < off + length ds then ds ! (k * cs + j - off) else old ! j)"
    using abx j assms(5) by (auto simp: m nth_append)
qed

lemma replace_row:
  assumes "data_ok t"
  shows "data_ok (filter (\<lambda>r. \<not> b_key r = b_key b) t @ [b])"
    and "look b_key (filter (\<lambda>r. \<not> b_key r = b_key b) t @ [b]) = (look b_key t)(b_key b \<mapsto> b)"
proof -
  have d: "distinct (map b_key t)" using assms by (simp add: data_ok_def)
  have "distinct (map b_key (filter (\<lambda>r. \<not> b_key r = b_key b) t))" by (rule distinct_map_filter [OF d])
  then show "data_ok (filter (\<lambda>r. \<not> b_key r = b_key b) t @ [b])" by (auto simp: data_ok_def)
  have "b_key b \<notin> b_key ` set (filter (\<lambda>r. \<not> b_key r = b_key b) t)" by auto
  from look_snoc [OF this] look_delete [OF d, of "b_key b"]
  show "look b_key (filter (\<lambda>r. \<not> b_key r = b_key b) t @ [b]) = (look b_key t)(b_key b \<mapsto> b)"
    by (simp only: fun_upd_upd)
qed

lemma insert_data_ready [run]:
  "ready c \<Longrightarrow> data_ok (fs_data (tabs c) @ [b]) \<Longrightarrow>
    insert_data b c = (Inr 1, put_data [Inserted b] (fs_data (tabs c) @ [b]) c)"
  by (simp add: insert_data_def stmt_ready t_insert_def Let_def)

text \<open>One round: the chunk is replaced by the merged bytes, cut at the end of the file.\<close>

lemma write_chunk_ready:
  fixes c :: "'z conn_scheme"
  assumes rd: "ready c" and ok: "data_ok (fs_data (tabs c))" and cs: "0 < cs" and ds: "ds \<noteq> []"
    and small: "off + length ds < 2 ^ 63" and k: "off div cs \<le> k" "k \<le> (off + length ds - 1) div cs"
    and zero: "\<And>pos. pos div cs = k \<Longrightarrow> S \<le> pos \<Longrightarrow> byte_at cs (fs_data (tabs c)) ino pos = 0"
    and win: "chunks_within cs (fs_data (tabs c)) ino (max S (off + length ds))"
  obtains chs t where "write_chunk_path cs ino S off ds k c = (Inr (), put_data chs t c)" and "data_ok t"
    and "\<forall>pos. byte_at cs t ino pos = (if pos div cs = k \<and> off \<le> pos \<and> pos < off + length ds
          then ds ! (pos - off) else byte_at cs (fs_data (tabs c)) ino pos)"
    and "\<forall>i. fst i \<noteq> ino \<longrightarrow> look b_key t i = look b_key (fs_data (tabs c)) i"
    and "chunks_within cs t ino (max S (off + length ds))"
proof -
  let ?E = "off + length ds" and ?t0 = "fs_data (tabs c)"
  have "0 < length ds" using ds by simp
  note cb = chunk_bounds [OF cs this k]
  define n where "n = (if k = (?E - 1) div cs then max (?E - k * cs) (min (S - k * cs) cs) else cs)"
  define needs where "needs \<longleftrightarrow> off - k * cs > 0 \<or> min cs (?E - k * cs) < cs"
  define old where "old = (if needs then resize_zero cs (case chunk_of ?t0 ino k of None \<Rightarrow> [] | Some d \<Rightarrow> d)
    else replicate cs 0)"
  define b where "b = \<lparr>b_ino = ino, b_index = int k, b_data = take n (merged cs off ds k old)\<rparr>"
  have lold: "length old = cs" by (auto simp: old_def resize_zero_def)
  note mn = merged_nth [OF cs ds k lold]
  have n: "n \<le> cs" using cb(6) by (auto simp: n_def)
  have "k * 1 \<le> k * cs" using cs by (intro mult_le_mono2) simp
  then have ki: "as_i64 k = int k" using small cb(1) by (intro as_i64_small) linarith
  have sub: "u64_add off (length ds) = ?E" "u64_sub ?E 1 = ?E - 1" "u64_sub ?E (k * cs) = ?E - k * cs"
    using small cb(1) ds by (simp_all add: u64_sub_small)
  define x where "x = k * cs - off"
  define a where "a = off - k * cs"
  define e where "e = min cs (?E - k * cs)"
  have abx: "a \<le> e" "e \<le> cs" "x + (e - a) \<le> length ds" using cb(3-5) by (simp_all add: a_def e_def x_def)
  have sub2: "u64_sub e a = e - a" "u64_add x (e - a) = x + (e - a)"
    using abx small by (simp_all add: u64_sub_small e_def)
  have copy: "copy_slice old a e ds x (min (length ds) (x + (e - a))) = Some (merged cs off ds k old)"
  proof -
    have "merged cs off ds k old = take a old @ take (e - a) (drop x ds) @ drop e old"
      by (simp add: merged_def a_def e_def x_def)
    moreover have "min (length ds) (x + (e - a)) = x + (e - a)" using abx(3) by simp
    ultimately show ?thesis using abx lold by (simp only: copy_slice_def) simp
  qed
  let ?del = "map Deleted (filter (\<lambda>r. b_key r = b_key b) ?t0)" and ?t1 = "filter (\<lambda>r. \<not> b_key r = b_key b) ?t0"
  have row: "(case look b_key ?t0 (ino, int k) of None \<Rightarrow> replicate cs 0 | Some b \<Rightarrow> resize_zero cs (b_data b)) =
      resize_zero cs (case chunk_of ?t0 ino k of None \<Rightarrow> [] | Some d \<Rightarrow> d)"
    by (auto simp: chunk_of_def resize_zero_def split: option.splits)
  have key: "b_key b = (ino, int k)" by (simp add: b_def)
  note rr = replace_row [OF ok, of b]
  have nle: "\<not> length (merged cs off ds k old) < n" using n mn(1) by simp
  have fin: "sq (delete_data (\<lambda>r. b_key r = (ino, int k))) (sq (insert_data b) (ret ())) c =
      (Inr (), put_data (?del @ [Inserted b]) (?t1 @ [b]) c)"
    using rd rr(1) by (simp add: run key del: prod.inject)
  have run: "write_chunk_path cs ino S off ds k c = (Inr (), put_data (?del @ [Inserted b]) (?t1 @ [b]) c)"
  proof -
    have ae: "(if off > k * cs then off - k * cs else 0) = a" "(if k * cs > off then k * cs - off else 0) = x"
      "(if S > k * cs then min (S - k * cs) cs else 0) = min (S - k * cs) cs"
      by (simp_all add: a_def x_def)
    have nd: "needs \<longleftrightarrow> a > 0 \<or> e < cs" by (simp add: needs_def a_def e_def)
    have rd': "(if a > 0 \<or> e < cs then bnd (query (\<lambda>t. look b_key (fs_data t) (ino, int k))) (\<lambda>row.
          ret (case row of None \<Rightarrow> replicate cs 0 | Some b \<Rightarrow> resize_zero cs (b_data b)))
        else ret (replicate cs 0)) c = (Inr old, c)"
      using rd row nd by (simp add: old_def query_ready)
    show ?thesis
      unfolding write_chunk_path_def Let_def sub ae ki e_def [symmetric] sub2 copy n_def [symmetric]
      using rd' copy fin nle by (simp add: b_def del: prod.inject)
  qed
  have bytes: "byte_at cs (?t1 @ [b]) ino pos = (if pos div cs = k \<and> off \<le> pos \<and> pos < ?E
        then ds ! (pos - off) else byte_at cs ?t0 ino pos)" for pos
  proof (cases "pos div cs = k")
    case True
    let ?j = "pos mod cs"
    have j: "?j < cs" "k * cs + ?j = pos" using cs True by auto
    have o: "old ! ?j = byte_at cs ?t0 ino pos" if "needs"
      using that True j lold
      by (auto simp: old_def byte_at_def resize_zero_def chunk_byte_def nth_append split: option.splits)
    have covered: "off \<le> pos \<and> pos < ?E" if "\<not> needs"
      using that j by (auto simp: needs_def)
    have m: "merged cs off ds k old ! ?j = (if off \<le> pos \<and> pos < ?E then ds ! (pos - off) else byte_at cs ?t0 ino pos)"
      using mn(2) [OF j(1)] j(2) o covered by auto
    have "byte_at cs (?t1 @ [b]) ino pos = chunk_byte (Some (take n (merged cs off ds k old))) ?j"
      using True rr(2) key by (simp add: byte_at_def chunk_of_def b_def)
    also have "\<dots> = merged cs off ds k old ! ?j"
    proof (cases "?j < n")
      case False
      then have "k = (?E - 1) div cs" using j(1) by (rule_tac ccontr) (simp add: n_def)
      then have "n = max (?E - k * cs) (min (S - k * cs) cs)" by (simp add: n_def)
      then have "?E \<le> pos" "S \<le> pos" using j False by linarith+
      then show ?thesis using m zero [OF True] False mn(1) j(1) by (simp add: chunk_byte_def)
    qed (use mn(1) j(1) in \<open>simp add: chunk_byte_def\<close>)
    finally show ?thesis using m True by simp
  next
    case False
    then show ?thesis using rr(2) key by (simp add: byte_at_def chunk_of_def)
  qed
  have "chunks_within cs (?t1 @ [b]) ino (max S ?E)"
  proof (rule chunks_within_upd [OF win ok rr(1)])
    show "look b_key (?t1 @ [b]) = (look b_key ?t0)((ino, int k) \<mapsto> b)" using rr(2) key by simp
    show "length (b_data b) \<le> cs" using n mn(1) by (simp add: b_def)
    have "length (b_data b) = n" using n mn(1) by (simp add: b_def)
    moreover have "k * cs + n \<le> max S ?E"
    proof (cases "k = (?E - 1) div cs")
      case True
      then have "n = max (?E - k * cs) (min (S - k * cs) cs)" by (simp add: n_def)
      then show ?thesis using cb(1) by linarith
    next
      case False
      then have "n = cs" by (simp add: n_def)
      then show ?thesis using cb(7) [OF False] by (simp add: add.commute)
    qed
    ultimately show "k * cs + length (b_data b) \<le> max S ?E" by simp
  qed simp
  with that [OF run rr(1)] bytes rr(2) key show ?thesis by simp
qed

lemma put_data_nothing [simp]: "put_data [] (fs_data (tabs c)) c = c"
  by (simp add: journalled_write_def capture_def split: option.split)

lemma write_chunks_loop:
  fixes c :: "'z conn_scheme"
  assumes cs: "0 < cs" and ds: "ds \<noteq> []" and small: "off + length ds < 2 ^ 63"
    and "ready c" and "data_ok (fs_data (tabs c))" and "off div cs \<le> m"
    and "m \<le> (off + length ds - 1) div cs + 1"
    and "\<And>pos. m \<le> pos div cs \<Longrightarrow> S \<le> pos \<Longrightarrow> byte_at cs (fs_data (tabs c)) ino pos = 0"
    and "chunks_within cs (fs_data (tabs c)) ino (max S (off + length ds))"
  shows "\<exists>chs t. for_each (write_chunk_path cs ino S off ds) [m..<(off + length ds - 1) div cs + 1] c =
      (Inr (), put_data chs t c) \<and> data_ok t \<and>
    (\<forall>pos. byte_at cs t ino pos = (if m \<le> pos div cs \<and> off \<le> pos \<and> pos < off + length ds
       then ds ! (pos - off) else byte_at cs (fs_data (tabs c)) ino pos)) \<and>
    (\<forall>i. fst i \<noteq> ino \<longrightarrow> look b_key t i = look b_key (fs_data (tabs c)) i) \<and>
    chunks_within cs t ino (max S (off + length ds))"
  using assms(4-)
proof (induction "(off + length ds - 1) div cs + 1 - m" arbitrary: m c)
  case 0
  let ?K = "(off + length ds - 1) div cs"
  have "\<not> (m \<le> pos div cs \<and> off \<le> pos \<and> pos < off + length ds)" for pos
    using 0(1) div_le_mono [of pos "off + length ds - 1" cs] by (auto; linarith)
  moreover have "[m..<?K + 1] = []" using 0(1) by simp
  ultimately show ?case using 0 by (rule_tac exI [of _ "[]"], rule_tac exI [of _ "fs_data (tabs c)"]) auto
next
  case (Suc d)
  let ?K = "(off + length ds - 1) div cs" and ?E = "off + length ds"
  have mK: "m \<le> ?K" using Suc.hyps(2) by simp
  obtain chs t where step: "write_chunk_path cs ino S off ds m c = (Inr (), put_data chs t c)" "data_ok t"
    and bytes: "\<forall>pos. byte_at cs t ino pos = (if pos div cs = m \<and> off \<le> pos \<and> pos < ?E
          then ds ! (pos - off) else byte_at cs (fs_data (tabs c)) ino pos)"
    and frame: "\<forall>i. fst i \<noteq> ino \<longrightarrow> look b_key t i = look b_key (fs_data (tabs c)) i"
    and win: "chunks_within cs t ino (max S ?E)"
    by (rule write_chunk_ready [OF Suc.prems(1,2) cs ds small Suc.prems(3) mK _ Suc.prems(6)])
      (use Suc.prems(5) in auto)
  have "\<exists>chs' t'. for_each (write_chunk_path cs ino S off ds) [m + 1..<?K + 1] (put_data chs t c) =
      (Inr (), put_data chs' t' (put_data chs t c)) \<and> data_ok t' \<and>
    (\<forall>pos. byte_at cs t' ino pos = (if m + 1 \<le> pos div cs \<and> off \<le> pos \<and> pos < ?E
       then ds ! (pos - off) else byte_at cs (fs_data (tabs (put_data chs t c))) ino pos)) \<and>
    (\<forall>i. fst i \<noteq> ino \<longrightarrow> look b_key t' i = look b_key (fs_data (tabs (put_data chs t c))) i) \<and>
    chunks_within cs t' ino (max S ?E)"
  proof (rule Suc.hyps(1))
    show "byte_at cs (fs_data (tabs (put_data chs t c))) ino pos = 0" if "m + 1 \<le> pos div cs" "S \<le> pos" for pos
      using that bytes Suc.prems(5) [of pos] by simp
  qed (use Suc.hyps(2) Suc.prems step(2) win mK in \<open>simp_all\<close>)
  then obtain chs' t' where rest: "for_each (write_chunk_path cs ino S off ds) [m + 1..<?K + 1] (put_data chs t c) =
      (Inr (), put_data (chs @ chs') t' c)" "data_ok t'"
    and bytes': "\<And>pos. byte_at cs t' ino pos = (if m + 1 \<le> pos div cs \<and> off \<le> pos \<and> pos < ?E
       then ds ! (pos - off) else byte_at cs t ino pos)"
    and frame': "\<And>i. fst i \<noteq> ino \<Longrightarrow> look b_key t' i = look b_key t i"
    and win': "chunks_within cs t' ino (max S ?E)"
    by (simp only: put_data_put_data put_data_sel) blast
  have "[m..<?K + 1] = m # [m + 1..<?K + 1]" using mK by (simp add: upt_conv_Cons)
  then have "for_each (write_chunk_path cs ino S off ds) [m..<?K + 1] c = (Inr (), put_data (chs @ chs') t' c)"
    using step rest(1) by simp
  moreover have "byte_at cs t' ino pos = (if m \<le> pos div cs \<and> off \<le> pos \<and> pos < ?E
       then ds ! (pos - off) else byte_at cs (fs_data (tabs c)) ino pos)" for pos
    using bytes' [of pos] bytes by auto
  ultimately show ?case using rest(2) frame frame' win'
    by (intro exI [of _ "chs @ chs'"] exI [of _ t']) simp
qed

lemma walk_butlast:
  "ws \<noteq> [] \<Longrightarrow> walk m i ws = Some j \<Longrightarrow> \<exists>p. walk m i (butlast ws) = Some p \<and> m (p, last ws) = Some j"
  by (induction ws arbitrary: i) (auto split: option.splits)

text \<open>The array after the chunks have been rewritten and the size updated.\<close>

lemma written_contents:
  assumes inv: "file_inv cs t ino" and ds: "ds \<noteq> []" and ok: "data_ok (fs_data t')"
    and bytes: "\<And>pos. byte_at cs (fs_data t') ino pos = (if off \<le> pos \<and> pos < off + length ds
          then ds ! (pos - off) else byte_at cs (fs_data t) ino pos)"
    and frame: "\<forall>i. fst i \<noteq> ino \<longrightarrow> look b_key (fs_data t') i = look b_key (fs_data t) i"
    and win: "chunks_within cs (fs_data t') ino (max (file_size t ino) (off + length ds))"
    and small: "off + length ds < 2 ^ 63"
    and rows: "inode_ok (fs_inode t')" "\<And>r. i_ino (g r) = i_ino r"
      "\<And>r. i_size (g r) = int (max (file_size t ino) (off + length ds))"
      "look i_ino (fs_inode t') = (look i_ino (fs_inode t))(ino := map_option g (look i_ino (fs_inode t) ino))"
  shows "contents cs t' ino = a_write off ds (contents cs t ino)" and "file_inv cs t' ino"
    and "j \<noteq> ino \<Longrightarrow> contents cs t' j = contents cs t j"
proof -
  note fi = file_inv_facts [OF inv]
  have sz: "file_size t' ino = max (file_size t ino) (off + length ds)"
    using rows(3,4) inv by (auto simp: file_size_def file_inv_def split: option.splits)
  show "file_inv cs t' ino"
    using inv win ok rows fi(4) small by (auto simp: file_inv_def split: option.splits)
  show "contents cs t' ino = a_write off ds (contents cs t ino)"
  proof (rule nth_equalityI)
    fix i
    assume "i < length (contents cs t' ino)"
    then have "i < max (file_size t ino) (off + length ds)" using sz by simp
    then show "contents cs t' ino ! i = a_write off ds (contents cs t ino) ! i"
      using bytes sz a_write_nth(2) [OF ds, of i "contents cs t ino" off] byte_beyond [OF fi(1,5), of i]
      by (auto simp: contents_def)
  qed (use sz in \<open>simp add: a_write_nth(1) [OF ds]\<close>)
  show "contents cs t' j = contents cs t j" if "j \<noteq> ino"
    using that frame rows(4) by (intro contents_cong) auto
qed

text \<open>Up to the chunk loop: the parent, then the inode inside the transaction.\<close>

lemma open_existing:
  fixes c :: "'l fs_state"
  assumes "lru_cache L view" and "ready c" and "txn_state c = NoTxn"
    and "dentry_ok (fs_dentry (tabs c))" and "cache_coherent view c"
    and "meaning p \<noteq> []" and "walk (dir_map (tabs c)) ROOT_INO (meaning p) = Some i"
    and "file_inv cs (tabs c) i"
  obtains l parent c1 where "locate_path L (normalize_path p) c = (Inr (parent, last (meaning p)), c\<lparr>dcache := l\<rparr>)"
    and "\<And>n e. open_or_create L now0 (normalize_path p) parent n e (c\<lparr>dcache := l, txn_state := Active (tabs c)\<rparr>) =
        (Inr (i, file_size (tabs c) i, False), c1)"
    and "tabs c1 = tabs c" and "ready c1"
proof -
  obtain parent where w: "walk (dir_map (tabs c)) ROOT_INO (butlast (meaning p)) = Some parent"
    using walk_butlast [OF assms(6,7)] by blast
  have "split_path (parent_path (meaning p)) = butlast (meaning p)"
    by (rule split_parent [OF assms(6)]) (use meaning_plain [of _ p] in blast)
  then obtain l where l: "resolve_path_with_conn L (parent_path (meaning p)) c = (Inr (Some parent), c\<lparr>dcache := l\<rparr>)"
      "cache_coherent view (c\<lparr>dcache := l\<rparr>)"
    by (metis lru_cache.resolve_with_conn_ready [OF assms(1-5)] w)
  let ?c0 = "c\<lparr>dcache := l, txn_state := Active (tabs c)\<rparr>"
  have loc: "locate_path L (normalize_path p) c = (Inr (parent, last (meaning p)), c\<lparr>dcache := l\<rparr>)"
    using l(1) assms(6) by (simp add: locate_path_def resolve_parent_def split_normalize Let_def)
  have r0: "ready ?c0" using assms(2,3) by (simp add: ready_def)
  have "\<exists>m. resolve_from L ROOT_INO (meaning p) ?c0 =
      (Inr (walk (dir_map (tabs ?c0)) ROOT_INO (meaning p)), ?c0\<lparr>dcache := m\<rparr>) \<and> cache_coherent view (?c0\<lparr>dcache := m\<rparr>)"
    by (rule lru_cache.resolve_from_ready [OF assms(1) r0])
      (use assms(3,4) l(2) in \<open>simp_all add: cache_coherent_def committed_def\<close>)
  then obtain m where m: "resolve_path_with_conn L (normalize_path p) ?c0 = (Inr (Some i), ?c0\<lparr>dcache := m\<rparr>)"
    using assms(7) by (auto simp: resolve_path_with_conn_def split_normalize)
  define c1 where "c1 = ?c0\<lparr>dcache := m\<rparr>"
  let ?S = "file_size (tabs c) i"
  have t1: "tabs c1 = tabs c" by (simp add: c1_def)
  have r1: "ready c1" using assms(2,3) by (simp add: ready_def c1_def)
  have ooc: "open_or_create L now0 (normalize_path p) parent n e ?c0 = (Inr (i, ?S, False), c1)" for n e
    using m select_size_ready [OF r1, of cs i] assms(8) t1 by (simp add: open_or_create_def c1_def)
  from that [OF loc ooc t1 r1] show ?thesis .
qed

text \<open>
  C37.  Writing by path to an existing file is the array write, holes read as zeros, and the
  chunk invariant is kept; other files, the directory table and the committed state of the
  session are as before.
\<close>

theorem pwrite_path_refines:
  fixes c :: "'l fs_state"
  assumes "lru_cache L view" and "ready c" and "txn_state c = NoTxn"
    and "dentry_ok (fs_dentry (tabs c))" and "cache_coherent view c"
    and "meaning p \<noteq> []" and "walk (dir_map (tabs c)) ROOT_INO (meaning p) = Some i"
    and "file_inv cs (tabs c) i" and "ds \<noteq> []" and "off + length ds < 2 ^ 63"
  shows "\<exists>c'. pwrite_path L cs now0 (Some now) p off ds c = (Inr (), c') \<and>
    contents cs (tabs c') i = a_write off ds (contents cs (tabs c) i) \<and> file_inv cs (tabs c') i \<and>
    (\<forall>j. j \<noteq> i \<longrightarrow> contents cs (tabs c') j = contents cs (tabs c) j) \<and>
    fs_dentry (tabs c') = fs_dentry (tabs c) \<and> txn_state c' = NoTxn"
proof -
  note fi = file_inv_facts [OF assms(8)]
  obtain secs nsec where now: "now = (secs, nsec)" by fastforce
  obtain l parent c1 where loc: "locate_path L (normalize_path p) c = (Inr (parent, last (meaning p)), c\<lparr>dcache := l\<rparr>)"
    and ooc: "\<And>n e. open_or_create L now0 (normalize_path p) parent n e (c\<lparr>dcache := l, txn_state := Active (tabs c)\<rparr>) =
        (Inr (i, file_size (tabs c) i, False), c1)"
    and t1: "tabs c1 = tabs c" and r1: "ready c1"
    by (rule open_existing [OF assms(1-8)]) (rule that)
  let ?c0 = "c\<lparr>dcache := l, txn_state := Active (tabs c)\<rparr>" and ?S = "file_size (tabs c) i"
  have r0: "ready ?c0" using assms(2,3) by (simp add: ready_def)
  have win0: "chunks_within cs (fs_data (tabs c1)) i (max ?S (off + length ds))"
    using fi(5) t1 by (fastforce simp: chunks_within_def)
  have le: "off div cs \<le> (off + length ds - 1) div cs + 1"
    using assms(9) by (intro le_SucI [unfolded Suc_eq_plus1] div_le_mono) (cases ds; simp)
  have ok1: "data_ok (fs_data (tabs c1))" using fi(2) t1 by simp
  have z1: "byte_at cs (fs_data (tabs c1)) i pos = 0" if "?S \<le> pos" for pos
    using byte_beyond [OF fi(1,5) that] t1 by simp
  obtain chs t where wr: "for_each (write_chunk_path cs i ?S off ds) [off div cs..<(off + length ds - 1) div cs + 1] c1 =
      (Inr (), put_data chs t c1)" and t: "data_ok t"
    and bytes: "\<forall>pos. byte_at cs t i pos = (if off div cs \<le> pos div cs \<and> off \<le> pos \<and> pos < off + length ds
       then ds ! (pos - off) else byte_at cs (fs_data (tabs c)) i pos)"
    and frame: "\<forall>k. fst k \<noteq> i \<longrightarrow> look b_key t k = look b_key (fs_data (tabs c)) k"
    and win: "chunks_within cs t i (max ?S (off + length ds))"
    using write_chunks_loop [OF fi(1) assms(9,10) r1 ok1 order_refl le z1 win0] unfolding t1 by blast
  let ?g = "\<lambda>r. r\<lparr>i_size := int (max ?S (off + length ds)), i_mtime := secs, i_mtime_nsec := nsec\<rparr>"
  let ?it = "map (\<lambda>r. if i_ino r = i then ?g r else r) (fs_inode (tabs c))"
  let ?ich = "map Updated (filter (\<lambda>r. i_ino r = i) (fs_inode (tabs c)))"
  let ?c' = "end_kept (put_inode ?ich ?it (put_data chs t c1))"
  have sub: "u64_add off (length ds) = off + length ds" "u64_sub (off + length ds) 1 = off + length ds - 1"
    "as_i64 (max ?S (off + length ds)) = int (max ?S (off + length ds))"
    using assms(9,10) fi(4) by (simp_all add: u64_sub_small Suc_le_eq)
  have i1: "inode_ok (fs_inode (tabs c1))" using fi(3) t1 by simp
  have "pwrite_path_body L cs now0 (Some now) (normalize_path p) parent (last (meaning p)) off ds ?c0 =
      (Inr (), put_inode ?ich ?it (put_data chs t c1))"
    using ooc wr r1 assms(9) fi(1) i1 t1 now unfolding pwrite_path_body_def Let_def sub
    by (simp add: run sub(3))
  then have run: "pwrite_path L cs now0 (Some now) p off ds c = (Inr (), ?c')"
    using assms(2,3) loc r0 r1 by (simp add: pwrite_path_def transact_def run Let_def)
  have "(off div cs \<le> pos div cs \<and> off \<le> pos) = (off \<le> pos)" for pos by (auto intro: div_le_mono)
  then have bytes': "byte_at cs (fs_data (tabs ?c')) i pos = (if off \<le> pos \<and> pos < off + length ds
       then ds ! (pos - off) else byte_at cs (fs_data (tabs c)) i pos)" for pos
    using bytes by (simp add: conj_assoc [symmetric])
  have look: "look i_ino (fs_inode (tabs ?c')) = (look i_ino (fs_inode (tabs c)))(i := map_option ?g (look i_ino (fs_inode (tabs c)) i))"
    using look_update_inode [of ?g i "fs_inode (tabs c)"] by simp
  have hyps: "data_ok (fs_data (tabs ?c'))" "\<forall>k. fst k \<noteq> i \<longrightarrow> look b_key (fs_data (tabs ?c')) k = look b_key (fs_data (tabs c)) k"
    "chunks_within cs (fs_data (tabs ?c')) i (max ?S (off + length ds))" "inode_ok (fs_inode (tabs ?c'))"
    "\<And>r. i_ino (?g r) = i_ino r" "\<And>r. i_size (?g r) = int (max ?S (off + length ds))"
    using t frame win fi(3) by (simp_all add: inode_ok_update)
  note wc = written_contents [OF assms(8,9) hyps(1) bytes' hyps(2,3) assms(10) hyps(4-6) look]
  show ?thesis
    by (rule exI [of _ ?c'], intro conjI allI impI run wc(1,2)) (erule wc(3), simp_all add: t1)
qed

theorem pwrite_path_refines_witness:
  "\<exists>c'. pwrite_path (list_lru 8) 4 None (Some (7, 8)) ''/a'' 5 [9, 9] cached_fs = (Inr (), c') \<and>
    contents 4 (tabs c') 2 = [1, 2, 3, 4, 5, 9, 9]"
proof -
  have p: "meaning ''/a'' = [''a'']" by (simp add: meaning_def path_words_def)
  have "\<exists>c'. pwrite_path (list_lru 8) 4 None (Some (7, 8)) ''/a'' 5 [9, 9] cached_fs = (Inr (), c') \<and>
    contents 4 (tabs c') 2 = a_write 5 [9, 9] (contents 4 (tabs cached_fs) 2) \<and> file_inv 4 (tabs c') 2 \<and>
    (\<forall>j. j \<noteq> 2 \<longrightarrow> contents 4 (tabs c') j = contents 4 (tabs cached_fs) j) \<and>
    fs_dentry (tabs c') = fs_dentry (tabs cached_fs) \<and> txn_state c' = NoTxn"
    by (rule pwrite_path_refines [OF list_cache cached_fs_sel(3,2) cached_hyps(3,1)])
      (simp_all add: p sample_dir_map ROOT_INO_def sample_file)
  then show ?thesis by (auto simp: sample_file a_write_def)
qed

end
