(* ===== verification/Fs_Machine.thy ===== *)
theory Fs_Machine
  imports Path_Data
begin

text \<open>
  The filesystem as a state machine.  A client of the inode-based interface sends operations; a
  step is one operation, whatever it returns.  The operations do not check everything a client may
  send: a step requires that the directory a new entry goes into is a directory, and that no
  existing entry is renamed onto itself (\<open>allowed\<close>; the last section shows that the code accepts
  both and leaves the invariant).  The clock reads after the epoch.  Every state reachable by such
  steps satisfies the invariant of the name space, and its entry cache agrees with the directory
  table.
\<close>

section \<open>Operations and steps\<close>

datatype fs_op =
    OpLookup i64 string
  | OpMkdir i64 string u32 u32 u32
  | OpCreate i64 string u32 u32 u32
  | OpMknod i64 string u32 u64 u32 u32
  | OpSymlink i64 string string u32 u32
  | OpUnlink i64 string
  | OpRmdir i64 string
  | OpLink i64 i64 string
  | OpRename i64 string i64 string
  | OpChmod i64 u32
  | OpChown i64 "u32 option" "u32 option"

fun exec :: "'l lru_ops \<Rightarrow> nat \<Rightarrow> i64 \<times> i64 \<Rightarrow> fs_op \<Rightarrow> ('l, unit) fs_oper" where
  "exec L cs now (OpLookup p n) = discard (lookup L p n)"
| "exec L cs now (OpMkdir p n m u g) = discard (mkdir L (Some now) p n m u g)"
| "exec L cs now (OpCreate p n m u g) = discard (create_file L cs (Some now) p n m u g)"
| "exec L cs now (OpMknod p n m rdev u g) = discard (mknod L (Some now) p n m rdev u g)"
| "exec L cs now (OpSymlink p n target u g) = discard (symlink L (Some now) p n target u g)"
| "exec L cs now (OpUnlink p n) = unlink L (Some now) p n"
| "exec L cs now (OpRmdir p n) = rmdir L (Some now) p n"
| "exec L cs now (OpLink i p n) = discard (link L (Some now) i p n)"
| "exec L cs now (OpRename op on np nn) = rename L (Some now) (Some now) op on np nn"
| "exec L cs now (OpChmod i m) = chmod (Some now) i m"
| "exec L cs now (OpChown i u g) = chown (Some now) i u g"

definition dir_at :: "tables \<Rightarrow> i64 \<Rightarrow> bool" where
  "dir_at t i = (case ino_map t i of None \<Rightarrow> False | Some r \<Rightarrow> is_dir r)"

text \<open>
  What the client guarantees of an operation: a new entry goes into a directory; the device number
  is of 64 bits, as its type says; a rename of an existing entry leads to another entry than
  itself; and an inode that loses an entry has fewer than \<open>2 ^ 32\<close> of them, since the link count is
  cut to 32 bits when it is tested for zero.
\<close>

fun allowed :: "tables \<Rightarrow> fs_op \<Rightarrow> bool" where
  "allowed t (OpMkdir p n m u g) = dir_at t p"
| "allowed t (OpCreate p n m u g) = dir_at t p"
| "allowed t (OpMknod p n m rdev u g) = (dir_at t p \<and> rdev < 2 ^ 64)"
| "allowed t (OpSymlink p n target u g) = dir_at t p"
| "allowed t (OpLink i p n) = dir_at t p"
| "allowed t (OpRename op on np nn) =
    (dir_map t (op, on) = None \<or> dir_at t np \<and> (op, on) \<noteq> (np, nn) \<and> length (fs_dentry t) < 2 ^ 32)"
| "allowed t (OpUnlink p n) = (length (fs_dentry t) < 2 ^ 32)"
| "allowed t _ = True"

inductive fs_step :: "'l lru_ops \<Rightarrow> 'l fs_state \<Rightarrow> 'l fs_state \<Rightarrow> bool" for L where
  step: "allowed (tabs c) op \<Longrightarrow> exec L cs now op c = (r, c') \<Longrightarrow> fs_step L c c'"

inductive_cases fs_stepE: "fs_step L c c'"

inductive reachable :: "'l lru_ops \<Rightarrow> 'l fs_state \<Rightarrow> 'l fs_state \<Rightarrow> bool" for L c0 where
  start: "reachable L c0 c0"
| next_state: "reachable L c0 c \<Longrightarrow> fs_step L c c' \<Longrightarrow> reachable L c0 c'"

section \<open>The invariant\<close>

text \<open>A directory has neither chunks nor a link target.\<close>

definition dirs_clean :: "tables \<Rightarrow> bool" where
  "dirs_clean t \<longleftrightarrow>
    (\<forall>i r. ino_map t i = Some r \<longrightarrow> is_dir r \<longrightarrow> i \<notin> b_ino ` set (fs_data t) \<union> l_ino ` set (fs_symlink t))"

definition fs_good :: "('l \<Rightarrow> slot \<rightharpoonup> i64) \<Rightarrow> 'l fs_state \<Rightarrow> bool" where
  "fs_good view c \<longleftrightarrow>
    ready c \<and> txn_state c = NoTxn \<and> ns_inv c \<and> dirs_clean (tabs c) \<and> cache_coherent view c"

lemma fs_goodD:
  assumes "fs_good view c"
  shows "ready c" "txn_state c = NoTxn" "ns_inv c" "dirs_clean (tabs c)" "cache_coherent view c"
  using assms by (simp_all add: fs_good_def)

lemma snd_discard [simp]: "snd (discard m c) = snd (m c)"
  by (auto simp: discard_def bnd_def split: prod.splits sum.splits)

text \<open>
  \<open>dirs_clean\<close> survives when inodes change without becoming directories and no row of data or
  link target is added to a directory.
\<close>

lemma dirs_clean_mono:
  assumes "dirs_clean t"
    and "\<And>i r'. ino_map t' i = Some r' \<Longrightarrow> is_dir r' \<Longrightarrow>
      (\<exists>r. ino_map t i = Some r \<and> is_dir r) \<or> i \<notin> b_ino ` set (fs_data t') \<union> l_ino ` set (fs_symlink t')"
    and "\<And>i. i \<in> b_ino ` set (fs_data t') \<union> l_ino ` set (fs_symlink t') \<Longrightarrow>
      i \<in> b_ino ` set (fs_data t) \<union> l_ino ` set (fs_symlink t) \<or> (\<exists>r. ino_map t' i = Some r \<and> \<not> is_dir r)"
  shows "dirs_clean t'"
  unfolding dirs_clean_def
proof (intro allI impI)
  fix i r
  assume i: "ino_map t' i = Some r" "is_dir r"
  show "i \<notin> b_ino ` set (fs_data t') \<union> l_ino ` set (fs_symlink t')"
  proof
    assume x: "i \<in> b_ino ` set (fs_data t') \<union> l_ino ` set (fs_symlink t')"
    with assms(2) [OF i] obtain r0 where "ino_map t i = Some r0" "is_dir r0" by blast
    moreover have "i \<in> b_ino ` set (fs_data t) \<union> l_ino ` set (fs_symlink t)"
      using assms(3) [OF x] i by auto
    ultimately show False using assms(1) unfolding dirs_clean_def by blast
  qed
qed

context lru_cache
begin

lemma coherent_put:
  fixes c c' :: "'l fs_state"
  assumes "cache_coherent view c" and "dir_map (committed c') = (dir_map (committed c))(k \<mapsto> i)"
    and "dcache c' = lru_put L k i (dcache c)"
  shows "cache_coherent view c'"
  unfolding cache_coherent_def
proof (intro allI impI)
  fix j v
  assume v: "view (dcache c') j = Some v"
  show "dir_map (committed c') j = Some v"
  proof (cases "j = k")
    case True
    then show ?thesis using v put_this [of k i "dcache c"] assms(2,3) by simp
  next
    case False
    have "view (lru_put L k i (dcache c)) j = Some v" using v assms(3) by simp
    then have "view (dcache c) j = Some v" by (rule put_other [OF False])
    then have "dir_map (committed c) j = Some v" using assms(1) unfolding cache_coherent_def by blast
    then show ?thesis using assms(2) False by simp
  qed
qed

lemma coherent_pop:
  fixes c c' :: "'l fs_state"
  assumes "cache_coherent view c" and "dir_map (committed c') = (dir_map (committed c))(k := None)"
    and "dcache c' = lru_pop L k (dcache c)"
  shows "cache_coherent view c'"
  using assms by (auto simp: cache_coherent_def pop_view split: if_splits)

lemma created_good:
  fixes c c' :: "'l fs_state"
  assumes good: "fs_good view c" and p: "ino_map (tabs c) p = Some pr" "is_dir pr"
    and free: "dir_map (tabs c) (p, n) = None"
    and cr: "created c c' p n r g" "i_ino r = seq_inode c" "is_dir (g pr)" "\<not> is_dir r \<Longrightarrow> i_nlink r = 1"
    and c': "ready c'" "txn_state c' = NoTxn" "dcache c' = lru_put L (p, n) (seq_inode c) (dcache c)"
  shows "fs_good view c'"
proof -
  note g = fs_goodD [OF good]
  note cf = created_facts [OF g(3) cr(1,2) p(1) free]
  have fresh: "seq_inode c \<notin> b_ino ` set (fs_data (tabs c))"
    using ns_invD(8) [OF g(3)] fresh_inode(2) [OF g(3)] unfolding owned_def by blast
  have sym: "seq_inode c \<notin> l_ino ` set (fs_symlink (tabs c'))" if "is_dir r"
  proof -
    have "seq_inode c \<notin> l_ino ` set (fs_symlink (tabs c))"
      using ns_invD(8) [OF g(3)] fresh_inode(2) [OF g(3)] unfolding owned_def by blast
    then show ?thesis using cr(1) that by (simp add: created_def)
  qed
  have inv: "ns_inv c'" by (rule created_inv [OF g(3) p cr(1,3,4)])
  have "cache_coherent view c'"
    by (rule coherent_put [OF g(5) _ c'(3)]) (use cf(1) cr(2) g(2) c'(2) in \<open>simp add: committed_def\<close>)
  moreover have "dirs_clean (tabs c')"
  proof (rule dirs_clean_mono [OF g(4)])
    fix i r'
    assume i: "ino_map (tabs c') i = Some r'" "is_dir r'"
    show "(\<exists>r. ino_map (tabs c) i = Some r \<and> is_dir r) \<or>
        i \<notin> b_ino ` set (fs_data (tabs c')) \<union> l_ino ` set (fs_symlink (tabs c'))"
    proof (cases "i = seq_inode c")
      case True
      then have "is_dir r" using i cf(3) cr(2) by simp
      then show ?thesis using True sym fresh cr(1) by (simp add: created_def)
    next
      case False
      then show ?thesis using i cf(5) cr(2) p by (cases "i = p") auto
    qed
  next
    fix i
    assume "i \<in> b_ino ` set (fs_data (tabs c')) \<union> l_ino ` set (fs_symlink (tabs c'))"
    then have "i \<in> b_ino ` set (fs_data (tabs c)) \<union> l_ino ` set (fs_symlink (tabs c)) \<or>
        i = seq_inode c \<and> i \<in> l_ino ` set (fs_symlink (tabs c'))"
      using cr(1) unfolding created_def by auto
    then show "i \<in> b_ino ` set (fs_data (tabs c)) \<union> l_ino ` set (fs_symlink (tabs c)) \<or>
        (\<exists>r. ino_map (tabs c') i = Some r \<and> \<not> is_dir r)"
      using sym cf(3) cr(2) by auto
  qed
  ultimately show ?thesis using c' inv by (simp add: fs_good_def)
qed

end

lemma dir_atE:
  assumes "dir_at t i"
  obtains r where "ino_map t i = Some r" and "is_dir r"
  using assms by (auto simp: dir_at_def split: option.splits)

text \<open>The refusals of the creating operations leave the session untouched.\<close>

lemma create_refused:
  fixes c :: "'l fs_state"
  assumes "ready c" and "dentry_ok (fs_dentry (tabs c))"
    and "MAX_NAME_LEN < length n \<or> dir_map (tabs c) (p, n) \<noteq> None"
  shows "snd (mkdir L now p n m u g c) = c" "snd (create_file L cs now p n m u g c) = c"
    "snd (mknod L now p n m rdev u g c) = c" "snd (symlink L now p n target u g c) = c"
  using assms by (auto simp: mkdir_def create_file_def mknod_def symlink_def run)

context lru_cache
begin

lemma exec_mkdir_good:
  fixes c :: "'l fs_state"
  assumes good: "fs_good view c" and p: "dir_at (tabs c) p"
  shows "fs_good view (snd (mkdir L (Some now) p n m u g c))"
proof -
  note g = fs_goodD [OF good]
  obtain s ns where now: "now = (s, ns)" by fastforce
  obtain pr where pr: "ino_map (tabs c) p = Some pr" "is_dir pr" by (rule dir_atE [OF p])
  show ?thesis
  proof (cases "length n \<le> MAX_NAME_LEN \<and> dir_map (tabs c) (p, n) = None")
    case True
    then have n: "length n \<le> MAX_NAME_LEN" and free: "dir_map (tabs c) (p, n) = None" by simp_all
    let ?r = "new_inode (S_IFDIR OR (m AND PERM_BITS)) 2 u g 0 0 s ns (seq_inode c)"
    obtain c' where c': "mkdir L (Some (s, ns)) p n m u g c = (Inr (build_stats_from_row ?r), c')"
      and cr: "created c c' p n ?r (\<lambda>r. set_cmtime s ns (add_nlink 1 r))"
      and k: "ready c'" "txn_state c' = txn_state c" "dcache c' = lru_put L (p, n) (seq_inode c) (dcache c)"
      by (rule mkdir_ready [OF g(1,3) n free pr(1) refl]) (rule that)
    have "fs_good view c'"
      by (rule created_good [OF good pr _ cr]) (use True k g(2) pr(2) in \<open>simp_all add: is_dir_new\<close>)
    then show ?thesis using c' now by simp
  qed (use create_refused(1) [OF g(1) ns_invD(2) [OF g(3)]] good in \<open>auto simp: not_le\<close>)
qed

lemma exec_create_file_good:
  fixes c :: "'l fs_state"
  assumes good: "fs_good view c" and p: "dir_at (tabs c) p"
  shows "fs_good view (snd (create_file L cs (Some now) p n m u g c))"
proof -
  note g = fs_goodD [OF good]
  obtain s ns where now: "now = (s, ns)" by fastforce
  obtain pr where pr: "ino_map (tabs c) p = Some pr" "is_dir pr" by (rule dir_atE [OF p])
  show ?thesis
  proof (cases "length n \<le> MAX_NAME_LEN \<and> dir_map (tabs c) (p, n) = None")
    case True
    then have n: "length n \<le> MAX_NAME_LEN" and free: "dir_map (tabs c) (p, n) = None" by simp_all
    let ?r = "new_inode (S_IFREG OR (m AND PERM_BITS)) 1 u g 0 0 s ns (seq_inode c)"
    obtain c' where c': "create_file L cs (Some (s, ns)) p n m u g c =
        (Inr (build_stats_from_row ?r, \<lparr>f_ino = seq_inode c, f_chunk_size = cs\<rparr>), c')"
      and cr: "created c c' p n ?r (set_cmtime s ns)"
      and k: "ready c'" "txn_state c' = NoTxn" "dcache c' = lru_put L (p, n) (seq_inode c) (dcache c)"
      by (rule create_file_ready [OF g(1,2,3) n free pr(1) refl]) (rule that)
    have "fs_good view c'"
      by (rule created_good [OF good pr _ cr]) (use True k pr(2) in \<open>simp_all add: is_dir_new\<close>)
    then show ?thesis using c' now by simp
  qed (use create_refused(2) [OF g(1) ns_invD(2) [OF g(3)]] good in \<open>auto simp: not_le\<close>)
qed

lemma exec_mknod_good:
  fixes c :: "'l fs_state"
  assumes good: "fs_good view c" and p: "dir_at (tabs c) p" and rdev: "rdev < 2 ^ 64"
  shows "fs_good view (snd (mknod L (Some now) p n m rdev u g c))"
proof -
  note g = fs_goodD [OF good]
  obtain s ns where now: "now = (s, ns)" by fastforce
  obtain pr where pr: "ino_map (tabs c) p = Some pr" "is_dir pr" by (rule dir_atE [OF p])
  show ?thesis
  proof (cases "length n \<le> MAX_NAME_LEN \<and> dir_map (tabs c) (p, n) = None")
    case True
    then have n: "length n \<le> MAX_NAME_LEN" and free: "dir_map (tabs c) (p, n) = None" by simp_all
    let ?r = "new_inode m 1 u g 0 (as_i64 rdev) s ns (seq_inode c)"
    obtain c' where c': "mknod L (Some (s, ns)) p n m rdev u g c = (Inr (build_stats_from_row ?r), c')"
      and cr: "created c c' p n ?r (set_cmtime s ns)"
      and k: "ready c'" "txn_state c' = txn_state c" "dcache c' = lru_put L (p, n) (seq_inode c) (dcache c)"
      by (rule mknod_ready [OF g(1,3) n free pr(1) rdev refl]) (rule that)
    have "fs_good view c'"
      by (rule created_good [OF good pr _ cr]) (use True k g(2) pr(2) in \<open>simp_all\<close>)
    then show ?thesis using c' now by simp
  qed (use create_refused(3) [OF g(1) ns_invD(2) [OF g(3)]] good in \<open>auto simp: not_le\<close>)
qed

lemma exec_symlink_good:
  fixes c :: "'l fs_state"
  assumes good: "fs_good view c" and p: "dir_at (tabs c) p"
  shows "fs_good view (snd (symlink L (Some now) p n target u g c))"
proof -
  note g = fs_goodD [OF good]
  obtain s ns where now: "now = (s, ns)" by fastforce
  obtain pr where pr: "ino_map (tabs c) p = Some pr" "is_dir pr" by (rule dir_atE [OF p])
  show ?thesis
  proof (cases "length n \<le> MAX_NAME_LEN \<and> dir_map (tabs c) (p, n) = None")
    case True
    then have n: "length n \<le> MAX_NAME_LEN" and free: "dir_map (tabs c) (p, n) = None" by simp_all
    let ?r = "new_inode (S_IFLNK OR 0x1FF) 1 u g (int (length target)) 0 s ns (seq_inode c)"
    obtain c' where c': "symlink L (Some (s, ns)) p n target u g c = (Inr (build_stats_from_row ?r), c')"
      and cr: "created c c' p n ?r (set_cmtime s ns)"
      and k: "ready c'" "txn_state c' = txn_state c" "dcache c' = lru_put L (p, n) (seq_inode c) (dcache c)"
      by (rule symlink_ready [OF g(1,3) n free pr(1) refl]) (rule that)
    have "fs_good view c'"
      by (rule created_good [OF good pr _ cr]) (use True k g(2) pr(2) in \<open>simp_all\<close>)
    then show ?thesis using c' now by simp
  qed (use create_refused(4) [OF g(1) ns_invD(2) [OF g(3)]] good in \<open>auto simp: not_le\<close>)
qed

end

text \<open>The refusals of the removing operations and of \<open>link\<close>.\<close>

lemma unlink_refused:
  fixes c :: "'l fs_state"
  assumes "ready c" and "ns_inv c"
    and "MAX_NAME_LEN < length n \<or> dir_map (tabs c) (p, n) = None \<or>
      (\<exists>i r. dir_map (tabs c) (p, n) = Some i \<and> ino_map (tabs c) i = Some r \<and> is_dir r)"
  shows "snd (unlink L now p n c) = c"
  using assms ns_invD(2) [OF assms(2)] by (auto simp: unlink_def run is_dir_mode)

lemma rmdir_refused:
  fixes c :: "'l fs_state"
  assumes "ready c" and "ns_inv c"
    and "MAX_NAME_LEN < length n \<or> dir_map (tabs c) (p, n) = None \<or>
      (\<exists>i r. dir_map (tabs c) (p, n) = Some i \<and> ino_map (tabs c) i = Some r \<and>
        (i = ROOT_INO \<or> \<not> is_dir r \<or> (\<exists>d \<in> set (fs_dentry (tabs c)). d_parent d = i)))"
  shows "snd (rmdir L now p n c) = c"
  using assms ns_invD(2) [OF assms(2)] by (auto simp: rmdir_def run is_dir_mode filter_empty_conv)

lemma link_refused:
  fixes c :: "'l fs_state"
  assumes "ready c" and "ns_inv c"
    and "MAX_NAME_LEN < length n \<or> ino_map (tabs c) i = None \<or> (\<exists>r. ino_map (tabs c) i = Some r \<and> is_dir r) \<or>
      dir_map (tabs c) (p, n) \<noteq> None"
  shows "snd (link L now i p n c) = c"
  using assms ns_invD(2) [OF assms(2)]
  by (cases "ino_map (tabs c) i") (auto simp: link_def run is_dir_mode)

lemma named_inode:
  assumes "ns_inv c" and "dir_map (tabs c) k = Some i"
  obtains r pr where "ino_map (tabs c) i = Some r" and "ino_map (tabs c) (fst k) = Some pr" and "is_dir pr"
  by (rule dir_map_inode [OF assms]) (use that in auto)

context lru_cache
begin

lemma exec_unlink_good:
  fixes c :: "'l fs_state"
  assumes good: "fs_good view c" and few: "length (fs_dentry (tabs c)) < 2 ^ 32"
  shows "fs_good view (snd (unlink L (Some now) p n c))"
proof (cases "MAX_NAME_LEN < length n \<or> dir_map (tabs c) (p, n) = None \<or>
      (\<exists>i r. dir_map (tabs c) (p, n) = Some i \<and> ino_map (tabs c) i = Some r \<and> is_dir r)")
  case True
  then show ?thesis using unlink_refused [OF fs_goodD(1,3) [OF good] True] good by simp
next
  case False
  note g = fs_goodD [OF good]
  obtain s ns where now: "now = (s, ns)" by fastforce
  have n: "length n \<le> MAX_NAME_LEN" using False by simp
  obtain i where i: "dir_map (tabs c) (p, n) = Some i" using False by auto
  obtain r pr where r: "ino_map (tabs c) i = Some r" and p: "ino_map (tabs c) p = Some pr" "is_dir pr"
    using named_inode [OF g(3) i] by auto
  have nd: "\<not> is_dir r" using False i r by auto
  obtain c' where c': "unlink L (Some (s, ns)) p n c = (Inr (), c')"
    and D: "fs_dentry (tabs c') = filter (\<lambda>d. d_slot d \<noteq> (p, n)) (fs_dentry (tabs c))"
    and I: "ino_map (tabs c') = (ino_map (tabs c))(p \<mapsto> set_cmtime s ns pr,
          i := (if i_nlink r = 1 then None else Some (set_ctime s ns (add_nlink (- 1) r))))"
    and B: "fs_data (tabs c') = (if i_nlink r = 1 then filter (\<lambda>b. b_ino b \<noteq> i) (fs_data (tabs c)) else fs_data (tabs c))"
    and Y: "fs_symlink (tabs c') = (if i_nlink r = 1 then filter (\<lambda>l. l_ino l \<noteq> i) (fs_symlink (tabs c)) else fs_symlink (tabs c))"
    and k: "ready c'" "txn_state c' = txn_state c" "dcache c' = lru_pop L (p, n) (dcache c)"
    by (rule unlink_ready [OF g(1,3) n i r nd p few]) (rule that)
  have "ns_inv c'" using unlink_inv [OF g(1,3) n i r nd few, of L s ns] c' by simp
  moreover have "dir_map (tabs c') = (dir_map (tabs c))((p, n) := None)"
    by (rule dir_map_delete [OF ns_invD(2) [OF g(3)] D])
  then have "cache_coherent view c'"
    by (intro coherent_pop [OF g(5) _ k(3)]) (use k(2) g(2) in \<open>simp add: committed_def\<close>)
  moreover have "dirs_clean (tabs c')"
  proof (rule dirs_clean_mono [OF g(4)])
    show "(\<exists>r. ino_map (tabs c) j = Some r \<and> is_dir r) \<or>
        j \<notin> b_ino ` set (fs_data (tabs c')) \<union> l_ino ` set (fs_symlink (tabs c'))"
      if "ino_map (tabs c') j = Some r'" "is_dir r'" for j r'
      using that I nd p by (cases "j = i"; cases "j = p") (auto split: if_splits)
  qed (auto simp: B Y split: if_splits)
  ultimately show ?thesis using c' now k g(2) by (simp add: fs_good_def)
qed

lemma exec_rmdir_good:
  fixes c :: "'l fs_state"
  assumes good: "fs_good view c"
  shows "fs_good view (snd (rmdir L (Some now) p n c))"
proof (cases "MAX_NAME_LEN < length n \<or> dir_map (tabs c) (p, n) = None \<or>
      (\<exists>i r. dir_map (tabs c) (p, n) = Some i \<and> ino_map (tabs c) i = Some r \<and>
        (i = ROOT_INO \<or> \<not> is_dir r \<or> (\<exists>d \<in> set (fs_dentry (tabs c)). d_parent d = i)))")
  case True
  then show ?thesis using rmdir_refused [OF fs_goodD(1,3) [OF good] True] good by simp
next
  case False
  note g = fs_goodD [OF good]
  obtain s ns where now: "now = (s, ns)" by fastforce
  have n: "length n \<le> MAX_NAME_LEN" using False by simp
  obtain i where i: "dir_map (tabs c) (p, n) = Some i" using False by auto
  obtain r pr where r: "ino_map (tabs c) i = Some r" and p: "ino_map (tabs c) p = Some pr" "is_dir pr"
    using named_inode [OF g(3) i] by auto
  have dr: "is_dir r" "i \<noteq> ROOT_INO" "\<forall>d \<in> set (fs_dentry (tabs c)). d_parent d \<noteq> i"
    using False i r by auto
  have data: "i \<notin> b_ino ` set (fs_data (tabs c)) \<union> l_ino ` set (fs_symlink (tabs c))"
    using g(4) r dr(1) unfolding dirs_clean_def by blast
  obtain c' where c': "rmdir L (Some (s, ns)) p n c = (Inr (), c')"
    and D: "fs_dentry (tabs c') = filter (\<lambda>d. d_slot d \<noteq> (p, n)) (fs_dentry (tabs c))"
    and I: "ino_map (tabs c') = (ino_map (tabs c))(p \<mapsto> set_cmtime s ns (add_nlink (- 1) pr),
          i := (if u32_of_i64 (i_nlink r - 1) = 0 then None else Some (add_nlink (- 1) r)))"
    and Y: "fs_data (tabs c') = fs_data (tabs c)" "fs_symlink (tabs c') = fs_symlink (tabs c)"
    and k: "ready c'" "txn_state c' = txn_state c" "dcache c' = lru_pop L (p, n) (dcache c)"
    by (rule rmdir_ready [OF g(1,3) n i r dr p(1)]) (rule that)
  have "ns_inv c'" using rmdir_inv [OF g(1,3) n i r dr data, of L s ns] c' by simp
  moreover have "dir_map (tabs c') = (dir_map (tabs c))((p, n) := None)"
    by (rule dir_map_delete [OF ns_invD(2) [OF g(3)] D])
  then have "cache_coherent view c'"
    by (intro coherent_pop [OF g(5) _ k(3)]) (use k(2) g(2) in \<open>simp add: committed_def\<close>)
  moreover have "dirs_clean (tabs c')"
  proof (rule dirs_clean_mono [OF g(4)])
    show "(\<exists>r. ino_map (tabs c) j = Some r \<and> is_dir r) \<or>
        j \<notin> b_ino ` set (fs_data (tabs c')) \<union> l_ino ` set (fs_symlink (tabs c'))"
      if "ino_map (tabs c') j = Some r'" "is_dir r'" for j r'
      using that I dr(1) r p by (cases "j = i"; cases "j = p") (auto split: if_splits)
  qed (auto simp: Y)
  ultimately show ?thesis using c' now k g(2) by (simp add: fs_good_def)
qed

lemma exec_link_good:
  fixes c :: "'l fs_state"
  assumes good: "fs_good view c" and p: "dir_at (tabs c) p"
  shows "fs_good view (snd (link L (Some now) i p n c))"
proof (cases "MAX_NAME_LEN < length n \<or> ino_map (tabs c) i = None \<or>
      (\<exists>r. ino_map (tabs c) i = Some r \<and> is_dir r) \<or> dir_map (tabs c) (p, n) \<noteq> None")
  case True
  then show ?thesis using link_refused [OF fs_goodD(1,3) [OF good] True] good by simp
next
  case False
  note g = fs_goodD [OF good]
  obtain s ns where now: "now = (s, ns)" by fastforce
  have n: "length n \<le> MAX_NAME_LEN" and free: "dir_map (tabs c) (p, n) = None" using False by simp_all
  obtain r where r: "ino_map (tabs c) i = Some r" "\<not> is_dir r" using False by auto
  obtain pr where pr: "ino_map (tabs c) p = Some pr" "is_dir pr" by (rule dir_atE [OF p])
  obtain c' where c': "link L (Some (s, ns)) i p n c = (Inr (build_stats_from_row (set_ctime s ns (add_nlink 1 r))), c')"
    and D: "fs_dentry (tabs c') = fs_dentry (tabs c) @ [\<lparr>d_id = seq_dentry c, d_name = n, d_parent = p, d_ino = i\<rparr>]"
    and I: "ino_map (tabs c') = (ino_map (tabs c))(i \<mapsto> set_ctime s ns (add_nlink 1 r), p \<mapsto> set_cmtime s ns pr)"
    and Y: "fs_data (tabs c') = fs_data (tabs c)" "fs_symlink (tabs c') = fs_symlink (tabs c)"
    and k: "ns_inv c'" "ready c'" "txn_state c' = txn_state c" "dcache c' = lru_put L (p, n) i (dcache c)"
    by (rule link_ready [OF g(1,3) n free r pr]) (rule that)
  have "dir_map (tabs c') = (dir_map (tabs c))((p, n) \<mapsto> i)" using dir_map_snoc [OF _ D] free by simp
  then have "cache_coherent view c'"
    by (intro coherent_put [OF g(5) _ k(4)]) (use k(3) g(2) in \<open>simp add: committed_def\<close>)
  moreover have "dirs_clean (tabs c')"
  proof (rule dirs_clean_mono [OF g(4)])
    show "(\<exists>r. ino_map (tabs c) j = Some r \<and> is_dir r) \<or>
        j \<notin> b_ino ` set (fs_data (tabs c')) \<union> l_ino ` set (fs_symlink (tabs c'))"
      if "ino_map (tabs c') j = Some r'" "is_dir r'" for j r'
      using that I r pr by (cases "j = i"; cases "j = p") auto
  qed (auto simp: Y)
  ultimately show ?thesis using c' now k g(2) by (simp add: fs_good_def)
qed

end

section \<open>Rename, the attributes and lookup\<close>

lemma no_growth_clean:
  assumes "dirs_clean t" and "no_growth t t'"
  shows "dirs_clean t'"
proof (rule dirs_clean_mono [OF assms(1)])
  show "(\<exists>r. ino_map t i = Some r \<and> is_dir r) \<or> i \<notin> b_ino ` set (fs_data t') \<union> l_ino ` set (fs_symlink t')"
    if "ino_map t' i = Some r'" "is_dir r'" for i r'
    using assms(2) that unfolding no_growth_def by blast
  show "i \<in> b_ino ` set (fs_data t) \<union> l_ino ` set (fs_symlink t) \<or> (\<exists>r. ino_map t' i = Some r \<and> \<not> is_dir r)"
    if "i \<in> b_ino ` set (fs_data t') \<union> l_ino ` set (fs_symlink t')" for i
    using assms(2) that unfolding no_growth_def by blast
qed

text \<open>A destination of the wrong type, or a directory that still has entries, stops \<open>rename\<close>.\<close>

definition target_fits :: "tables \<Rightarrow> inode_row \<Rightarrow> slot \<Rightarrow> bool" where
  "target_fits t r k \<longleftrightarrow>
    (\<forall>j. dir_map t k = Some j \<longrightarrow> (\<exists>q. ino_map t j = Some q \<and> is_dir q = is_dir r \<and>
       (is_dir q \<longrightarrow> (\<forall>d \<in> set (fs_dentry t). d_parent d \<noteq> j))))"

lemma replace_target_refused:
  fixes c :: "'z conn_scheme"
  assumes "ready c" and "ns_inv c" and "\<not> target_fits (tabs c) r (p, n)"
  shows "\<exists>e. replace_target now (build_stats_from_row r) p n c = (Inl (Fs e), c)"
proof -
  obtain j where j: "dir_map (tabs c) (p, n) = Some j" using assms(3) by (auto simp: target_fits_def)
  obtain q where q: "ino_map (tabs c) j = Some q" using named_inode [OF assms(2) j] by auto
  have "is_dir q \<noteq> is_dir r \<or> is_dir q \<and> (\<exists>d \<in> set (fs_dentry (tabs c)). d_parent d = j)"
    using assms(3) j q by (auto simp: target_fits_def)
  then show ?thesis
    using assms(1) ns_invD(2) [OF assms(2)] j q
    by (auto simp: replace_target_def run filter_empty_conv)
qed

lemma rename_refused:
  fixes c :: "'l fs_state"
  assumes rd: "ready c" "txn_state c = NoTxn" and inv: "ns_inv c"
    and no: "MAX_NAME_LEN < length nn \<or> dir_map (tabs c) (op, on) = None \<or>
      dir_map (tabs c) (op, on) = Some ROOT_INO \<or>
      (\<exists>i r. dir_map (tabs c) (op, on) = Some i \<and> ino_map (tabs c) i = Some r \<and> \<not> target_fits (tabs c) r (np, nn))"
  shows "\<exists>g. snd (rename L now_dec now op on np nn c) = c\<lparr>guc_suppress_local := g\<rparr>"
proof (cases "MAX_NAME_LEN < length nn \<or> dir_map (tabs c) (op, on) = None \<or> dir_map (tabs c) (op, on) = Some ROOT_INO")
  case True
  then have "snd (rename L now_dec now op on np nn c) = c\<lparr>guc_suppress_local := guc_suppress_local c\<rparr>"
    using rd(1) ns_invD(2) [OF inv] by (auto simp: rename_def run)
  then show ?thesis by blast
next
  case False
  then obtain i r where i: "dir_map (tabs c) (op, on) = Some i" "i \<noteq> ROOT_INO" "ino_map (tabs c) i = Some r"
    and t: "\<not> target_fits (tabs c) r (np, nn)" using no by auto
  let ?c0 = "c\<lparr>txn_state := Active (tabs c)\<rparr>"
  obtain e where e: "replace_target now_dec (build_stats_from_row r) np nn ?c0 = (Inl (Fs e), ?c0)"
    using replace_target_refused [of ?c0 r np nn now_dec] rd inv t by auto
  have "c\<lparr>tabs := committed ?c0, txn_state := NoTxn, guc_suppress_local := None\<rparr> = c\<lparr>guc_suppress_local := None\<rparr>"
    using rd(2) by (cases c) (simp add: committed_def)
  moreover have "rename_body now_dec now i (build_stats_from_row r) op on np nn ?c0 = (Inl (Fs e), ?c0)"
    by (simp add: rename_body_def bnd_def sq_def e)
  ultimately have "rename L now_dec now op on np nn c = (Inl (Fs e), c\<lparr>guc_suppress_local := None\<rparr>)"
    using rd False i ns_invD(2) [OF inv]
    by (simp add: rename_def transact_def run end_undone_def ready_def rollback_txn_def)
  then show ?thesis by auto
qed

lemma fs_good_guc: "fs_good view c \<Longrightarrow> fs_good view (c\<lparr>guc_suppress_local := g\<rparr>)"
  by (auto simp: fs_good_def ready_def ns_inv_def below_serials_def cache_coherent_def committed_def)

context lru_cache
begin

lemma coherent_rename:
  fixes c c' :: "'l fs_state"
  assumes co: "cache_coherent view c" and same: "txn_state c = NoTxn" "txn_state c' = NoTxn"
    and D: "dir_map (tabs c') = (dir_map (tabs c))(k := None, k' \<mapsto> i)"
    and dc: "dcache c' = lru_put L k' i (lru_pop L k' (lru_pop L k (dcache c)))"
  shows "cache_coherent view c'"
  unfolding cache_coherent_def
proof (intro allI impI)
  fix j v
  assume v: "view (dcache c') j = Some v"
  show "dir_map (committed c') j = Some v"
  proof (cases "j = k'")
    case True
    then show ?thesis using v put_this [of k' i] D dc same(2) by (simp add: committed_def)
  next
    case False
    then have "view (lru_pop L k' (lru_pop L k (dcache c))) j = Some v" using put_other v dc by metis
    then have "j \<noteq> k" "view (dcache c) j = Some v" using False by (auto simp: pop_view split: if_splits)
    then have "j \<noteq> k" "dir_map (tabs c) j = Some v" using co same(1) by (cases j; auto simp: cache_coherent_def committed_def)+
    then show ?thesis using D False same(2) by (simp add: committed_def)
  qed
qed

lemma exec_rename_good:
  fixes c :: "'l fs_state"
  assumes good: "fs_good view c"
    and fine: "dir_map (tabs c) (op, on) = None \<or>
      dir_at (tabs c) np \<and> (op, on) \<noteq> (np, nn) \<and> length (fs_dentry (tabs c)) < 2 ^ 32"
  shows "fs_good view (snd (rename L now_dec now op on np nn c))"
proof (cases "MAX_NAME_LEN < length nn \<or> dir_map (tabs c) (op, on) = None \<or>
      dir_map (tabs c) (op, on) = Some ROOT_INO \<or>
      (\<exists>i r. dir_map (tabs c) (op, on) = Some i \<and> ino_map (tabs c) i = Some r \<and> \<not> target_fits (tabs c) r (np, nn))")
  case True
  then show ?thesis
    using rename_refused [OF fs_goodD(1-3) [OF good] True] fs_good_guc [OF good] by metis
next
  case False
  note g = fs_goodD [OF good]
  have nn: "length nn \<le> MAX_NAME_LEN" using False by simp
  obtain i where i: "dir_map (tabs c) (op, on) = Some i" "i \<noteq> ROOT_INO" using False by auto
  obtain r where r: "ino_map (tabs c) i = Some r" using named_inode [OF g(3) i(1)] by auto
  have np: "dir_at (tabs c) np" and diff: "(op, on) \<noteq> (np, nn)" and few: "length (fs_dentry (tabs c)) < 2 ^ 32"
    using fine i(1) by simp_all
  obtain pr where pr: "ino_map (tabs c) np = Some pr" "is_dir pr" by (rule dir_atE [OF np])
  have tgt: "\<exists>q. ino_map (tabs c) j = Some q \<and> is_dir q = is_dir r \<and>
        (is_dir q \<longrightarrow> (\<forall>d \<in> set (fs_dentry (tabs c)). d_parent d \<noteq> j))" if "dir_map (tabs c) (np, nn) = Some j" for j
    using False i(1) r that unfolding target_fits_def by blast
  obtain c' where c': "rename L now_dec now op on np nn c = (Inr (), c')"
    and k: "ns_inv c'" "ready c'" "txn_state c' = NoTxn"
    and D: "dir_map (tabs c') = (dir_map (tabs c))((op, on) := None, (np, nn) \<mapsto> i)"
    and dc: "dcache c' = lru_put L (np, nn) i (lru_pop L (np, nn) (lru_pop L (op, on) (dcache c)))"
    and w: "no_growth (tabs c) (tabs c')"
    by (rule rename_ready [OF g(1-3) nn i r pr diff tgt few, where L = L and now_dec = now_dec and now = now]) (assumption, rule that)
  have "cache_coherent view c'" by (rule coherent_rename [OF g(5,2) k(3) D dc])
  then show ?thesis using c' k no_growth_clean [OF g(4) w] by (simp add: fs_good_def)
qed

text \<open>An update of one inode that keeps its type and link count.\<close>

lemma touch_good:
  fixes c :: "'l fs_state"
  assumes good: "fs_good view c" and f: "\<And>r. i_ino (f r) = i_ino r" "\<And>r. i_nlink (f r) = i_nlink r"
    and ty: "\<And>r. ino_map (tabs c) i = Some r \<Longrightarrow> is_dir (f r) = is_dir r"
  obtains k c' where "update_inode i f c = (Inr k, c')" and "fs_good view c'"
proof -
  note g = fs_goodD [OF good]
  obtain k c' where c': "update_inode i f c = (Inr k, c')"
    "inode_step c c' ((ino_map (tabs c))(i := map_option f (ino_map (tabs c) i)))"
    by (rule update_inode_step [OF g(1) ns_invD(1) [OF g(3)] f(1)])
  have s: "ino_map (tabs c') = (ino_map (tabs c))(i := map_option f (ino_map (tabs c) i))"
    "fs_dentry (tabs c') = fs_dentry (tabs c)" "fs_data (tabs c') = fs_data (tabs c)"
    "fs_symlink (tabs c') = fs_symlink (tabs c)" "ready c'" "txn_state c' = txn_state c" "conn.more c' = conn.more c"
    using c'(2) g(1) unfolding inode_step_def by simp_all
  have "ns_inv c'"
    by (rule inode_step_inv [OF g(3) c'(2)]) (use f(2) ty in \<open>auto split: if_splits\<close>)
  moreover have "no_growth (tabs c) (tabs c')"
    using s ty unfolding no_growth_def by (auto split: if_splits)
  then have "dirs_clean (tabs c')" by (rule no_growth_clean [OF g(4)])
  moreover have "cache_coherent view c'"
    using g(2,5) s more_dcache [OF s(7)] by (simp add: cache_coherent_def committed_def dir_map_def)
  ultimately show ?thesis using that c'(1) s(5,6) g(2) by (simp add: fs_good_def)
qed

end

context lru_cache
begin

lemma exec_chmod_good:
  fixes c :: "'l fs_state"
  assumes good: "fs_good view c"
  shows "fs_good view (snd (chmod (Some now) i m c))"
proof (cases "ino_map (tabs c) i")
  case None
  then show ?thesis using good fs_goodD(1) [OF good] by (simp add: chmod_def run)
next
  case (Some r)
  obtain s ns where now: "now = (s, ns)" by fastforce
  let ?m = "(u32_of_i64 (i_mode r) AND S_IFMT) OR (m AND PERM_BITS)"
  obtain k c' where "update_inode i (\<lambda>r. set_ctime s ns (r\<lparr>i_mode := i64_of_u32 ?m\<rparr>)) c = (Inr k, c')" "fs_good view c'"
    by (rule touch_good [OF good, of "\<lambda>r. set_ctime s ns (r\<lparr>i_mode := i64_of_u32 ?m\<rparr>)" i])
      (use Some in \<open>auto simp: set_ctime_def is_dir_def mode_type_def\<close>)
  then show ?thesis using now Some fs_goodD(1) [OF good] by (simp add: chmod_def run clock_now_def Let_def)
qed

lemma exec_chown_good:
  fixes c :: "'l fs_state"
  assumes good: "fs_good view c"
  shows "fs_good view (snd (chown (Some now) i u g c))"
proof (cases "(u = None \<and> g = None) \<or> ino_map (tabs c) i = None")
  case True
  then show ?thesis using good fs_goodD(1) [OF good] by (auto simp: chown_def run)
next
  case False
  obtain s ns where now: "now = (s, ns)" by fastforce
  let ?f = "\<lambda>r. set_ctime s ns (r\<lparr>i_uid := (case u of None \<Rightarrow> i_uid r | Some u \<Rightarrow> i64_of_u32 u),
      i_gid := (case g of None \<Rightarrow> i_gid r | Some g \<Rightarrow> i64_of_u32 g)\<rparr>)"
  obtain k c' where "update_inode i ?f c = (Inr k, c')" "fs_good view c'"
    by (rule touch_good [OF good, of ?f i]) (auto simp: set_ctime_def is_dir_def mode_type_def)
  then show ?thesis using now False fs_goodD(1) [OF good] by (auto simp: chown_def run clock_now_def)
qed

lemma exec_lookup_good:
  fixes c :: "'l fs_state"
  assumes good: "fs_good view c"
  shows "fs_good view (snd (lookup L p n c))"
proof (cases "MAX_NAME_LEN < length n \<or> n = ''..'' \<or> dir_map (tabs c) (p, n) = None")
  case True
  then show ?thesis
    using good fs_goodD(1) [OF good] ns_invD(2) [OF fs_goodD(3) [OF good]]
    by (auto simp: lookup_def run ROOT_INO_def split: option.splits)
next
  case False
  note g = fs_goodD [OF good]
  obtain i where i: "dir_map (tabs c) (p, n) = Some i" using False by auto
  obtain r where r: "ino_map (tabs c) i = Some r" using named_inode [OF g(3) i] by auto
  let ?c' = "c\<lparr>dcache := lru_put L (p, n) i (dcache c)\<rparr>"
  have "dir_map (committed c) = (dir_map (committed c))((p, n) \<mapsto> i)"
    using i g(2) by (simp add: committed_def fun_upd_idem)
  then have "cache_coherent view ?c'" by (intro coherent_put [OF g(5)]) simp_all
  then have "fs_good view ?c'" using g by (simp add: fs_good_def ns_inv_def below_serials_def)
  moreover have "snd (lookup L p n c) = ?c'"
    using False i r g(1) ns_invD(2) [OF g(3)] by (simp add: lookup_def run)
  ultimately show ?thesis by simp
qed

lemma exec_good:
  fixes c :: "'l fs_state"
  assumes "fs_good view c" and "allowed (tabs c) op"
  shows "fs_good view (snd (exec L cs now op c))"
  using assms
  by (cases op)
    (simp_all add: exec_mkdir_good exec_create_file_good exec_mknod_good exec_symlink_good exec_unlink_good
      exec_rmdir_good exec_link_good exec_rename_good exec_chmod_good exec_chown_good exec_lookup_good)

lemma reachable_good:
  assumes "reachable L c0 c" and "fs_good view c0"
  shows "fs_good view c"
  using assms
proof (induction rule: reachable.induct)
  case (next_state c c')
  then show ?case using exec_good by (metis fs_stepE snd_conv)
qed

end

section \<open>Every reachable state\<close>

text \<open>
  C1.  From a good state (no failing statement, no transaction open, the name space invariant, no
  data behind a directory, the entry cache agreeing with the table) every sequence of lookups,
  creations, removals, links, renames and attribute changes, refused or performed, ends in a good
  state: entries name live inodes and live parents, link counts are the numbers of entries, and
  the cache never answers with an entry the table does not have.  The client has to see to four
  things (\<open>allowed\<close>): the parent of a new or moved entry is a directory, an existing entry is not
  renamed onto itself, device numbers have 64 bits, and there are fewer than \<open>2 ^ 32\<close> entries when one
  is unlinked or renamed.  The code does not enforce the first two, and without them the claim fails
  (\<open>rename_onto_itself_stale\<close> and \<open>mkdir_under_file_accepted\<close> below).
\<close>

theorem reachable_fs_good:
  assumes "lru_cache L view" and "fs_good view c0" and "reachable L c0 c"
  shows "ns_inv c \<and> cache_coherent view c \<and> txn_state c = NoTxn"
  using fs_goodD [OF lru_cache.reachable_good [OF assms(1,3,2)]] by simp_all

lemma sample_good: "fs_good map_of sample_fs"
  using cached_hyps(2)
  by (auto simp: fs_good_def dirs_clean_def sample_ino_map sample_rows split: if_splits)

theorem reachable_fs_good_witness:
  "ns_inv (snd (exec (list_lru 8) 4096 (7, 8) (OpRename 1 ''a'' 3 ''b'') sample_fs))"
proof (rule conjunct1 [OF reachable_fs_good [OF list_cache sample_good]])
  have "fs_step (list_lru 8) sample_fs (snd (exec (list_lru 8) 4096 (7, 8) (OpRename 1 ''a'' 3 ''b'') sample_fs))"
    by (rule fs_step.step [where op = "OpRename 1 ''a'' 3 ''b''" and cs = 4096 and now = "(7, 8)"])
      (simp add: dir_at_def sample_ino_map sample_rows, rule prod.collapse [symmetric])
  then show "reachable (list_lru 8) sample_fs
      (snd (exec (list_lru 8) 4096 (7, 8) (OpRename 1 ''a'' 3 ''b'') sample_fs))"
    using reachable.start reachable.next_state by metis
qed

section \<open>What the client must not ask for\<close>

text \<open>
  Renaming a file onto itself reports success, removes the file, and leaves its old entry in the
  cache, where no entry of the table agrees with it.
\<close>

theorem rename_onto_itself_stale:
  "let (r, c') = rename (list_lru 8) (Some (7, 8)) (Some (7, 8)) 1 ''a'' 1 ''a'' sample_fs
   in r = Inr () \<and> dir_map (tabs c') (1, ''a'') = None \<and> map_of (dcache c') (1, ''a'') = Some 2"
  by code_simp

text \<open>
  The creating operations do not look at the type of the parent: an entry is made below a file,
  and the name space is no longer consistent.
\<close>

theorem mkdir_under_file_accepted:
  fixes c :: "'l fs_state"
  assumes "ready c" and "ns_inv c" and "length n \<le> MAX_NAME_LEN" and "dir_map (tabs c) (p, n) = None"
    and "ino_map (tabs c) p = Some pr" and "\<not> is_dir pr"
  shows "\<exists>st c'. mkdir L (Some (s, ns)) p n m u g c = (Inr st, c') \<and>
    dir_map (tabs c') (p, n) = Some (seq_inode c) \<and> \<not> ns_inv c'"
proof -
  define r where "r = new_inode (S_IFDIR OR (m AND PERM_BITS)) 2 u g 0 0 s ns (seq_inode c)"
  obtain c' where c': "mkdir L (Some (s, ns)) p n m u g c = (Inr (build_stats_from_row r), c')"
    "created c c' p n r (\<lambda>r. set_cmtime s ns (add_nlink 1 r))"
    by (rule mkdir_ready [OF assms(1-5) r_def]) (rule that)
  have D: "dir_map (tabs c') (p, n) = Some (seq_inode c)"
    using created_dir_map [OF c'(2) assms(4)] by simp
  have "ino_map (tabs c') p = Some (set_cmtime s ns (add_nlink 1 pr))"
    using c'(2) assms(5) by (simp add: created_def)
  then have "\<not> ns_inv c'"
    using named_inode [of c' "(p, n)"] D assms(6) by fastforce
  with c'(1) D show ?thesis by blast
qed

end
