(* ===== verification/Rollback.thy ===== *)
theory Rollback
  imports Restore Kv_Store Fs_Machine
begin

text \<open>
  Rollback as a whole: the file system, the key-value store and the snapshots together.  A client
  works on a volume through any of the interfaces, statements may fail, transactions may be
  rolled back, further snapshots may be taken; restoring a snapshot brings back the rows of all
  five journalled tables.
\<close>

section \<open>The clients of a volume\<close>

inductive client_step :: "'l lru_ops \<Rightarrow> ts_lib \<Rightarrow> string \<Rightarrow> 'l fs_state \<Rightarrow> 'l fs_state \<Rightarrow> bool"
  for L :: "'l lru_ops" and T v where
  by_inode: "client_step L T v c (snd (exec L cs now op c))"
| by_handle_write: "client_step L T v c (snd (pwrite now f off ds c))"
| by_handle_truncate: "client_step L T v c (snd (File_Handle.truncate now f sz c))"
| by_path_mkdir: "client_step L T v c (snd (mkdir_path L now p uid gid c))"
| by_path_create: "client_step L T v c (snd (create_file_path L cs now p mode uid gid c))"
| by_path_mknod: "client_step L T v c (snd (mknod_path L now p mode rdev uid gid c))"
| by_path_symlink: "client_step L T v c (snd (symlink_path L now target p uid gid c))"
| by_path_link: "client_step L T v c (snd (link_path L p q c))"
| by_path_write: "client_step L T v c (snd (pwrite_path L cs now1 now2 p off ds c))"
| by_path_truncate: "client_step L T v c (snd (truncate_path L cs now p sz c))"
| by_path_remove: "client_step L T v c (snd (remove_path L now p c))"
| by_path_rename: "client_step L T v c (snd (rename_path L now p q c))"
| by_key: "client_step L T v c (snd (kv_exec (ser :: string \<Rightarrow> string option) kop c))"
| by_commit: "client_step L T v c (snd (commit T ts v label c))"
| failures: "client_step L T v c (c\<lparr>faults := fs\<rparr>)"

inductive client_run :: "'l lru_ops \<Rightarrow> ts_lib \<Rightarrow> string \<Rightarrow> 'l fs_state \<Rightarrow> 'l fs_state \<Rightarrow> bool"
  for L :: "'l lru_ops" and T v c0 where
  idle_run: "client_run L T v c0 c0"
| more_run: "client_run L T v c0 c \<Longrightarrow> client_step L T v c c' \<Longrightarrow> client_run L T v c0 c'"

section \<open>Every operation keeps the journal\<close>

interpretation rec_reads: reader_invariant "recording v n t0" for v :: string and n :: i64 and t0 :: tables
proof
  fix c :: "'l fs_state" and l
  show "recording v n t0 (c\<lparr>dcache := l\<rparr>)" if "recording v n t0 c"
    using that by (simp add: recording_def)
qed (rule recorded.I_faults recorded.I_abort; assumption)+

lemma preserves_discard [pres]: "preserves I m \<Longrightarrow> preserves I (discard m)"
  unfolding discard_def by (intro pres)

lemma rec_release [pres]: "preserves (recording v n t0) (release_inode i)"
  unfolding release_inode_def by (intro pres)

lemma rec_select_ino [pres]: "preserves (recording v n t0) (select_ino i)"
  unfolding select_ino_def by (intro pres)

lemmas rec_rules = pres rec_reads.reads

lemmas row_defs = add_nlink_def set_ctime_def set_cmtime_def

lemma rec_create:
  fixes L :: "'l lru_ops"
  shows "preserves (recording v n t0) (mkdir L now p nm m u g)"
    "preserves (recording v n t0) (create_file L cs now p nm m u g)"
    "preserves (recording v n t0) (mknod L now p nm m rdev u g)"
    "preserves (recording v n t0) (symlink L now p nm target u g)"
  unfolding mkdir_def create_file_def mknod_def symlink_def
  by (intro rec_rules; simp add: row_defs)+

lemma rec_remove:
  fixes L :: "'l lru_ops"
  shows "preserves (recording v n t0) (unlink L now p nm)"
    "preserves (recording v n t0) (rmdir L now p nm)"
    "preserves (recording v n t0) (link L now i p nm)"
    "preserves (recording v n t0) (rename L now1 now op on np nn)"
  unfolding unlink_def rmdir_def link_def rename_def rename_body_def rename_tail_def replace_target_def
  by (intro rec_rules; simp add: row_defs)+

lemma rec_attributes:
  fixes L :: "'l lru_ops"
  shows "preserves (recording v n t0 :: 'l fs_state \<Rightarrow> bool) (chmod now i m)"
    "preserves (recording v n t0 :: 'l fs_state \<Rightarrow> bool) (chown now i u g)"
    "preserves (recording v n t0) (lookup L p nm)"
  unfolding chmod_def chown_def lookup_def
  by (intro rec_rules; simp add: row_defs)+

lemma rec_exec: "preserves (recording v n t0) (exec L cs now op)"
  by (cases op) (simp_all add: rec_create rec_remove rec_attributes preserves_discard)

lemma rec_write_data: "preserves (recording v n t0) (write_data_at_offset f off ds w)"
proof (induction "length ds - w" arbitrary: w rule: less_induct)
  case less
  then show ?case
    by (subst write_data_at_offset.simps) (auto simp: Let_def chunk_step_decreases intro!: rec_rules)
qed

lemma rec_handle:
  "preserves (recording v n t0) (pwrite now f off ds)"
  "preserves (recording v n t0) (File_Handle.truncate now f sz)"
  unfolding pwrite_def File_Handle.truncate_def truncate_body_def truncate_chunks_def select_size_def
  by (intro rec_rules rec_write_data; simp add: row_defs)+

lemma rec_path_create:
  fixes L :: "'l lru_ops"
  shows "preserves (recording v n t0) (mkdir_path L now p uid gid)"
    "preserves (recording v n t0) (create_file_path L cs now p mode uid gid)"
    "preserves (recording v n t0) (mknod_path L now p mode rdev uid gid)"
    "preserves (recording v n t0) (symlink_path L now target p uid gid)"
    "preserves (recording v n t0) (link_path L p q)"
  unfolding mkdir_path_def create_file_path_def mknod_path_def symlink_path_def link_path_def
  by (intro rec_rules; simp add: row_defs)+

lemma rec_path_data:
  fixes L :: "'l lru_ops"
  shows "preserves (recording v n t0) (pwrite_path L cs now1 now2 p off ds)"
    "preserves (recording v n t0) (truncate_path L cs now p sz)"
  unfolding pwrite_path_def pwrite_path_body_def open_or_create_def write_chunk_path_def truncate_path_def
    truncate_path_body_def shrink_chunks_def extend_chunks_def pad_chunk_def
  by (intro rec_rules; simp add: row_defs)+

lemma rec_path_remove:
  fixes L :: "'l lru_ops"
  shows "preserves (recording v n t0) (remove_path L now p)"
    "preserves (recording v n t0) (rename_path L now p q)"
  unfolding remove_path_def remove_entry_def rename_path_def rename_path_body_def replace_target_path_def rename_tail_def
  by (intro rec_rules; simp add: row_defs)+

lemma rec_kv: "preserves (recording v n t0) (kv_exec ser op)"
  by (cases op) (auto simp: kv_set_def kv_delete_def intro!: pres)

text \<open>Committing a further snapshot of the volume.\<close>

lemma rec_write_tables:
  assumes "\<And>t t'. restorable v n t0 t \<Longrightarrow> g t = Some t' \<Longrightarrow> restorable v n t0 t'"
  shows "preserves (recording v n t0) (write_tables g)"
  unfolding write_tables_def
proof (intro recorded.stmt_inv preservesI)
  fix c :: "'z conn_scheme"
  assume "recording v n t0 c"
  then show "recording v n t0 (snd (case g (tabs c) of None \<Rightarrow> (Inl Postgres, c) | Some t \<Rightarrow> (Inr (), c\<lparr>tabs := t\<rparr>)))"
    using assms by (auto simp: recording_def committed_def split: option.split txn.split)
qed

lemma undoable_same:
  assumes "fs_inode t' = fs_inode t" "fs_dentry t' = fs_dentry t" "fs_data t' = fs_data t" "fs_symlink t' = fs_symlink t"
    "kv_store t' = kv_store t" "fs_inode_undo t' = fs_inode_undo t" "fs_dentry_undo t' = fs_dentry_undo t"
    "fs_data_undo t' = fs_data_undo t" "fs_symlink_undo t' = fs_symlink_undo t" "kv_store_undo t' = kv_store_undo t"
  shows "undoable v n t0 t' = undoable v n t0 t"
  by (simp add: undoable_def assms)

lemma labels_ok_snoc:
  assumes "labels_ok v ps" and "\<And>q. q \<in> set ps \<Longrightarrow> p_volume q = p_volume p \<Longrightarrow>
      p_snap q \<noteq> p_snap p \<and> (p_label p = None \<or> p_label q \<noteq> p_label p)"
  shows "labels_ok v (ps @ [p])"
  using assms unfolding labels_ok_def by fastforce

lemma insert_snapshot_restorable:
  assumes "restorable v n t0 t" and "insert_snapshot p t = Some t'"
  shows "restorable v n t0 t'"
proof -
  have t': "t' = t\<lparr>fs_snapshots := fs_snapshots t @ [p]\<rparr>"
    and fresh: "\<And>q. q \<in> set (fs_snapshots t) \<Longrightarrow> p_volume q = p_volume p \<Longrightarrow>
      p_snap q \<noteq> p_snap p \<and> (p_label p = None \<or> p_label q \<noteq> p_label p)"
    using assms(2) by (auto simp: insert_snapshot_def split: if_splits)
  have "labels_ok v (fs_snapshots t')" if "labels_ok v (fs_snapshots t)"
    using labels_ok_snoc [OF that fresh] by (simp add: t')
  then show ?thesis using assms(1) undoable_same [of t' t] unfolding restorable_def by (simp add: t')
qed

lemma bump_restorable:
  assumes "restorable v n t0 t"
  shows "restorable v n t0 (set_state v (\<lambda>s. s\<lparr>s_current := s_current s + 1\<rparr>) t)"
proof -
  let ?t = "set_state v (\<lambda>s. s\<lparr>s_current := s_current s + 1\<rparr>) t"
  have "look s_volume (fs_volume_state ?t) v = map_option (\<lambda>s. s\<lparr>s_current := s_current s + 1\<rparr>) (look s_volume (fs_volume_state t) v)"
    by (rule look_state_set) simp
  moreover have "undoable v n t0 ?t = undoable v n t0 t" by (rule undoable_same) (simp_all add: set_state_def)
  ultimately show ?thesis using assms unfolding restorable_def
    by (auto simp: set_state_def)
qed

lemma rec_commit: "preserves (recording v n t0) (commit T ts v label)"
proof -
  have ts: "preserves (recording v n t0) (parse_ts T s)" for s
    unfolding parse_ts_def by (intro pres)
  have w: "preserves (recording v n t0) (write_tables (insert_snapshot p))"
    "preserves (recording v n t0) (write_tables (\<lambda>t. Some (set_state v (\<lambda>s. s\<lparr>s_current := s_current s + 1\<rparr>) t)))" for p
    by (rule rec_write_tables; use insert_snapshot_restorable bump_restorable in blast)+
  show ?thesis
    unfolding commit_def commit_inner_def find_labelled_def snapshot_of_def by (intro pres ts w)
qed

lemma step_recording:
  assumes "client_step L T v c c'" and "recording v n t0 c"
  shows "recording v n t0 c'"
  using assms
  by cases (auto intro: recorded.I_faults preservesD rec_exec rec_handle rec_path_create rec_path_data rec_path_remove rec_kv rec_commit)

lemma run_recording:
  assumes "client_run L T v c0 c" and "recording v n t0 c0"
  shows "recording v n t0 c"
  using assms by induction (blast intro: step_recording)+

section \<open>Committing a snapshot\<close>

text \<open>
  A volume with rollback enabled in a consistent database: the constraints and references of the
  schema hold, and neither a journal record nor a snapshot of the volume is ahead of its current
  number.
\<close>

definition journal_sound :: "string \<Rightarrow> tables \<Rightarrow> bool" where
  "journal_sound v t \<longleftrightarrow>
    inode_ok (fs_inode t) \<and> dentry_ok (fs_dentry t) \<and> data_ok (fs_data t) \<and> symlink_ok (fs_symlink t) \<and> kv_ok (kv_store t) \<and>
    distinct (map v_id (fs_volumes t)) \<and>
    (\<exists>vr. look v_id (fs_volumes t) v = Some vr \<and> v_root vr \<in> i_ino ` set (fs_inode t)) \<and>
    labels_ok v (fs_snapshots t) \<and>
    (\<exists>st. look s_volume (fs_volume_state t) v = Some st \<and> s_enabled st \<and>
      (\<forall>p \<in> set (fs_snapshots t). p_volume p = v \<longrightarrow> p_snap p < s_current st) \<and>
      since v (s_current st) (fs_inode_undo t) = [] \<and> since v (s_current st) (fs_dentry_undo t) = [] \<and>
      since v (s_current st) (fs_data_undo t) = [] \<and> since v (s_current st) (fs_symlink_undo t) = [] \<and>
      since v (s_current st) (kv_store_undo t) = [])"

definition ts_parsed :: "ts_lib \<Rightarrow> string \<Rightarrow> i64 option" where
  "ts_parsed T s = (case parse_rfc3339 T s of Some d \<Rightarrow> Some d | None \<Rightarrow> parse_rfc3339 T (normalize_ts s))"

lemma parse_ts_run:
  "parse_ts T s c = (case ts_parsed T s of None \<Rightarrow> Inl (Internal (''parse timestamptz '' @ s)) | Some d \<Rightarrow> Inr d, c)"
  by (simp add: parse_ts_def ts_parsed_def split: option.split)

lemma find_snoc: "\<forall>x \<in> set xs. \<not> P x \<Longrightarrow> P y \<Longrightarrow> find P (xs @ [y]) = Some y"
  by (induction xs) auto

definition label_fresh :: "string \<Rightarrow> string option \<Rightarrow> tables \<Rightarrow> bool" where
  "label_fresh v label t \<longleftrightarrow> (label \<noteq> None \<longrightarrow> (\<forall>p \<in> set (fs_snapshots t). p_volume p = v \<longrightarrow> p_label p \<noteq> label))"

text \<open>The tables after a commit: one more snapshot row, and the current number advanced.\<close>

definition committed_tables :: "string \<Rightarrow> i64 \<Rightarrow> i64 \<Rightarrow> string option \<Rightarrow> tables \<Rightarrow> tables" where
  "committed_tables v n ts label t =
    set_state v (\<lambda>s. s\<lparr>s_current := s_current s + 1\<rparr>)
      (t\<lparr>fs_snapshots := fs_snapshots t @ [\<lparr>p_volume = v, p_snap = n, p_committed = ts, p_label = label\<rparr>]\<rparr>)"

lemma commit_run:
  fixes c :: "'z conn_scheme"
  assumes rd: "ready c" "txn_state c = NoTxn" and js: "journal_sound v (tabs c)" and lf: "label_fresh v label (tabs c)"
    and st: "look s_volume (fs_volume_state (tabs c)) v = Some st"
  shows "commit T ts v label c =
    (case ts_parsed T (ts_text T ts) of
       None \<Rightarrow> (Inl (Internal (''parse timestamptz '' @ ts_text T ts)), c\<lparr>guc_suppress_local := None\<rparr>)
     | Some d \<Rightarrow> (Inr \<lparr>si_snap = s_current st, si_committed = d, si_label = label\<rparr>,
         c\<lparr>tabs := committed_tables v (s_current st) ts label (tabs c), guc_suppress_local := None\<rparr>))"
proof -
  let ?c0 = "c\<lparr>txn_state := Active (tabs c)\<rparr>"
  let ?p = "\<lparr>p_volume = v, p_snap = s_current st, p_committed = ts, p_label = label\<rparr>"
  let ?t1 = "(tabs c)\<lparr>fs_snapshots := fs_snapshots (tabs c) @ [?p]\<rparr>"
  let ?t2 = "committed_tables v (s_current st) ts label (tabs c)"
  have en: "s_enabled st" and old: "\<forall>p \<in> set (fs_snapshots (tabs c)). p_volume p = v \<longrightarrow> p_snap p < s_current st"
    and known: "volume_known v (tabs c)"
    using js st by (auto simp: journal_sound_def volume_known_def dest!: look_key_in)
  have r0: "ready ?c0" using rd by simp
  have fl: "find_labelled T v label ?c0 = (Inr None, ?c0)"
  proof (cases label)
    case (Some l)
    then have "find (\<lambda>p. p_volume p = v \<and> p_label p = Some l) (fs_snapshots (tabs c)) = None"
      using lf by (auto simp: label_fresh_def find_None_iff)
    then show ?thesis using Some r0 by (simp add: find_labelled_def run)
  qed (simp add: find_labelled_def)
  have ins: "insert_snapshot ?p (tabs ?c0) = Some ?t1"
    using known old lf by (auto simp: insert_snapshot_def label_fresh_def)
  have w1: "write_tables (insert_snapshot ?p) ?c0 = (Inr (), ?c0\<lparr>tabs := ?t1\<rparr>)"
    using write_tables_ready [OF r0, of "insert_snapshot ?p"] ins by simp
  have snaps: "fs_snapshots ?t2 = fs_snapshots (tabs c) @ [?p]" by (simp add: committed_tables_def set_state_def)
  have fnd: "find (\<lambda>p. p_volume p = v \<and> p_snap p = s_current st) (fs_snapshots ?t2) = Some ?p"
    unfolding snaps by (rule find_snoc) (use old in auto)
  have inner: "commit_inner T ts v label ?c0 =
      (case ts_parsed T (ts_text T ts) of
         None \<Rightarrow> (Inl (Internal (''parse timestamptz '' @ ts_text T ts)), ?c0\<lparr>tabs := ?t2\<rparr>)
       | Some d \<Rightarrow> (Inr \<lparr>si_snap = s_current st, si_committed = d, si_label = label\<rparr>, ?c0\<lparr>tabs := ?t2\<rparr>))"
    using r0 st en fl w1 fnd
    by (simp add: commit_inner_def query_ready write_tables_ready committed_tables_def bnd_def parse_ts_run split: option.split)
  have undo: "c\<lparr>tabs := committed (?c0\<lparr>tabs := ?t2\<rparr>), txn_state := NoTxn, guc_suppress_local := None\<rparr> = c\<lparr>guc_suppress_local := None\<rparr>"
    "c\<lparr>tabs := ?t2, txn_state := NoTxn, guc_suppress_local := None\<rparr> = c\<lparr>tabs := ?t2, guc_suppress_local := None\<rparr>"
    using rd(2) by (cases c; simp add: committed_def)+
  show ?thesis
    using rd inner undo begin_ready [OF rd] commit_ready [of "?c0\<lparr>tabs := ?t2\<rparr>"]
    by (cases "ts_parsed T (ts_text T ts)")
      (simp_all add: commit_def transact_def rollback_txn_def end_undone_def end_kept_def ready_def)
qed

lemma committed_same:
  "fs_inode (committed_tables v n ts label t) = fs_inode t" "fs_dentry (committed_tables v n ts label t) = fs_dentry t"
  "fs_data (committed_tables v n ts label t) = fs_data t" "fs_symlink (committed_tables v n ts label t) = fs_symlink t"
  "kv_store (committed_tables v n ts label t) = kv_store t" "fs_volumes (committed_tables v n ts label t) = fs_volumes t"
  "fs_inode_undo (committed_tables v n ts label t) = fs_inode_undo t" "fs_dentry_undo (committed_tables v n ts label t) = fs_dentry_undo t"
  "fs_data_undo (committed_tables v n ts label t) = fs_data_undo t" "fs_symlink_undo (committed_tables v n ts label t) = fs_symlink_undo t"
  "kv_store_undo (committed_tables v n ts label t) = kv_store_undo t"
  "fs_snapshots (committed_tables v n ts label t) =
    fs_snapshots t @ [\<lparr>p_volume = v, p_snap = n, p_committed = ts, p_label = label\<rparr>]"
  by (simp_all add: committed_tables_def set_state_def)

text \<open>Right after the commit, recording starts from the tables committed.\<close>

lemma commit_starts_recording:
  fixes c :: "'z conn_scheme"
  assumes guc: "guc_volume c = Some v" "v \<noteq> []" "guc_suppress c \<noteq> Some ''true''" and rd: "txn_state c = NoTxn"
    and js: "journal_sound v (tabs c)" and lf: "label_fresh v label (tabs c)"
    and st: "look s_volume (fs_volume_state (tabs c)) v = Some st"
  shows "recording v (s_current st) (tabs c)
    (c\<lparr>tabs := committed_tables v (s_current st) ts label (tabs c), guc_suppress_local := None\<rparr>)"
proof -
  let ?t = "committed_tables v (s_current st) ts label (tabs c)"
  have look: "look s_volume (fs_volume_state ?t) v = Some (st\<lparr>s_current := s_current st + 1\<rparr>)"
    unfolding committed_tables_def by (subst look_state_set) (use st in simp_all)
  have "undoable v (s_current st) (tabs c) ?t"
    using js st unfolding undoable_def committed_same by (simp add: journal_sound_def)
  moreover have "labels_ok v (fs_snapshots ?t)"
    unfolding committed_same by (rule labels_ok_snoc) (use js st lf in \<open>auto simp: journal_sound_def label_fresh_def\<close>)
  ultimately have "restorable v (s_current st) (tabs c) ?t"
    using js st look by (simp add: restorable_def committed_same journal_sound_def)
  then show ?thesis using guc rd by (simp add: recording_def committed_def)
qed

section \<open>Snapshot and restore\<close>

text \<open>
  C2.  A snapshot can be restored.  Commit a snapshot of a volume; let clients then work on the
  volume in any way, through inodes, handles, paths and keys, with failing statements, rolled
  back transactions and further commits.  As long as the volume still exists, restoring the
  snapshot succeeds, and the inodes, entries, chunks, link targets and keys are exactly the rows
  there were at the commit; capture goes on under the number after the snapshot, the volume has
  its root, and the snapshots up to the restored one are kept.
\<close>

theorem restore_recovers:
  fixes c0 c1 c2 :: "'l fs_state"
  assumes "ready c0" and "txn_state c0 = NoTxn" and "guc_volume c0 = Some v" and "v \<noteq> []"
    and "guc_suppress c0 \<noteq> Some ''true''" and "journal_sound v (tabs c0)" and "label_fresh v label (tabs c0)"
    and "commit T ts v label c0 = (Inr info, c1)" and "client_run L T v c1 c2"
    and "ready c2" and "txn_state c2 = NoTxn" and "look s_volume (fs_volume_state (tabs c2)) v \<noteq> None"
  shows "\<exists>out c3. restore_to now v (si_snap info) c2 = (Inr out, c3) \<and>
    mset (fs_inode (tabs c3)) = mset (fs_inode (tabs c0)) \<and> mset (fs_dentry (tabs c3)) = mset (fs_dentry (tabs c0)) \<and>
    mset (fs_data (tabs c3)) = mset (fs_data (tabs c0)) \<and> mset (fs_symlink (tabs c3)) = mset (fs_symlink (tabs c0)) \<and>
    mset (kv_store (tabs c3)) = mset (kv_store (tabs c0)) \<and>
    look s_volume (fs_volume_state (tabs c3)) v = Some \<lparr>s_volume = v, s_enabled = True, s_current = si_snap info + 1\<rparr> \<and>
    look v_id (fs_volumes (tabs c3)) v = look v_id (fs_volumes (tabs c0)) v \<and>
    p_key ` {p \<in> set (fs_snapshots (tabs c3)). p_volume p = v \<and> p_snap p \<le> si_snap info} =
      p_key ` {p \<in> set (fs_snapshots (tabs c2)). p_volume p = v \<and> p_snap p \<le> si_snap info}"
proof -
  obtain st where st: "look s_volume (fs_volume_state (tabs c0)) v = Some st" using assms(6) by (auto simp: journal_sound_def)
  obtain vr where vr: "look v_id (fs_volumes (tabs c0)) v = Some vr" "v_root vr \<in> i_ino ` set (fs_inode (tabs c0))"
    using assms(6) by (auto simp: journal_sound_def)
  have info: "si_snap info = s_current st"
    and c1: "c1 = c0\<lparr>tabs := committed_tables v (s_current st) ts label (tabs c0), guc_suppress_local := None\<rparr>"
    using commit_run [OF assms(1,2,6,7) st, of T ts] assms(8) by (auto split: option.splits)
  have "recording v (s_current st) (tabs c0) c1"
    unfolding c1 by (rule commit_starts_recording [OF assms(3-5,2,6,7) st])
  then have "recording v (s_current st) (tabs c0) c2" by (rule run_recording [OF assms(9)])
  then have res: "restorable v (s_current st) (tabs c0) (tabs c2)" by (simp add: recording_def)
  obtain st2 where st2: "look s_volume (fs_volume_state (tabs c2)) v = Some st2" using assms(12) by auto
  show ?thesis
    unfolding info vr(1) by (rule restore_run [OF assms(10,11) st2 res vr, of now]) blast
qed

text \<open>The sample volume with rollback enabled, and a timestamp library for one instant.\<close>

definition vol_fs :: "lru_list fs_state" where
  "vol_fs = sample_fs\<lparr>tabs := sample_tables\<lparr>fs_volume_state := [\<lparr>s_volume = ''v'', s_enabled = True, s_current = 1\<rparr>]\<rparr>\<rparr>"

definition utc_lib :: ts_lib where
  "utc_lib = \<lparr>ts_text = (\<lambda>_. ''2026-01-01 00:00:00+00''),
    parse_rfc3339 = (\<lambda>s. if s = ''2026-01-01T00:00:00+00:00'' then Some 1767225600 else None)\<rparr>"

lemma vol_fs_sel [simp]:
  "ready vol_fs" "txn_state vol_fs = NoTxn" "guc_volume vol_fs = Some ''v''" "guc_suppress vol_fs = None"
  by (simp_all add: vol_fs_def sample_fs_def ready_def)

lemma vol_sound: "journal_sound ''v'' (tabs vol_fs)"
  by (simp add: journal_sound_def vol_fs_def sample_tables_def sample_inode_def constraint_defs labels_ok_def since_def)

text \<open>After the snapshot a directory is made; then the snapshot is restored.\<close>

definition after_mkdir :: "lru_list fs_state" where
  "after_mkdir = snd (exec (list_lru 8) 4 (7, 8) (OpMkdir 1 ''x'' 0x1ED 0 0) (snd (commit utc_lib 5 ''v'' None vol_fs)))"

theorem restore_recovers_witness:
  "\<exists>out c3. restore_to 9 ''v'' 1 after_mkdir = (Inr out, c3) \<and>
    mset (fs_inode (tabs c3)) = mset (fs_inode sample_tables) \<and> mset (fs_dentry (tabs c3)) = mset (fs_dentry sample_tables)"
proof -
  have run: "fst (commit utc_lib 5 ''v'' None vol_fs) = Inr \<lparr>si_snap = 1, si_committed = 1767225600, si_label = None\<rparr>" by code_simp
  then obtain c1 where c1: "commit utc_lib 5 ''v'' None vol_fs =
      (Inr \<lparr>si_snap = 1, si_committed = 1767225600, si_label = None\<rparr>, c1)" by (metis prod.collapse)
  then have am: "after_mkdir = snd (exec (list_lru 8) 4 (7, 8) (OpMkdir 1 ''x'' 0x1ED 0 0) c1)" by (simp add: after_mkdir_def)
  have "client_run (list_lru 8) utc_lib ''v'' c1 after_mkdir"
    unfolding am by (rule more_run [OF idle_run by_inode])
  moreover have "faults after_mkdir = []" "txn_state after_mkdir = NoTxn" by code_simp+
  moreover have "look s_volume (fs_volume_state (tabs after_mkdir)) ''v'' \<noteq> None" by code_simp
  moreover have "label_fresh ''v'' None (tabs vol_fs)" by (simp add: label_fresh_def)
  ultimately show ?thesis
    using restore_recovers [OF vol_fs_sel(1-3) _ _ vol_sound _ c1, of "list_lru 8" after_mkdir 9]
    by (auto simp: ready_def vol_fs_def sample_fs_def)
qed

section \<open>What goes wrong\<close>

text \<open>
  The offset of an RFC 3339 time is \<open>Z\<close> or has hours and minutes.  The server prints a whole
  number of hours as two digits.
\<close>

definition has_offset :: "string \<Rightarrow> bool" where
  "has_offset s \<longleftrightarrow> s \<noteq> [] \<and> (last s \<in> {CHR ''Z'', CHR ''z''} \<or> 3 \<le> length s \<and> s ! (length s - 3) = CHR '':'')"

lemma no_offset:
  assumes "sg \<in> {CHR ''+'', CHR ''-''}" and "db \<notin> {CHR ''Z'', CHR ''z'', CHR '' ''}" and "da \<noteq> CHR '' ''"
    and "[sg, da, db] \<noteq> ''+00''"
  shows "\<not> has_offset (s @ [sg, da, db])" and "\<not> has_offset (normalize_ts (s @ [sg, da, db]))"
proof -
  have 1: "\<not> has_offset (r @ [sg, da, db])" for r using assms by (auto simp: has_offset_def nth_append)
  then show "\<not> has_offset (s @ [sg, da, db])" .
  have "normalize_ts (s @ [sg, da, db]) = map (\<lambda>c. if c = CHR '' '' then CHR ''T'' else c) s @ [sg, da, db]"
    using assms by (auto simp: normalize_ts_def ends_with_def Let_def)
  then show "\<not> has_offset (normalize_ts (s @ [sg, da, db]))" using 1 by simp
qed

text \<open>
  On a server whose time zone is a whole number of hours from UTC, other than UTC itself, no
  snapshot can be committed: the time of the new row, as the server prints it, is not understood,
  the error is returned and the commit is rolled back.
\<close>

theorem commit_fails_off_utc:
  fixes c :: "'z conn_scheme"
  assumes "ready c" and "txn_state c = NoTxn" and "journal_sound v (tabs c)" and "label_fresh v label (tabs c)"
    and rfc: "\<And>s d. parse_rfc3339 T s = Some d \<Longrightarrow> has_offset s"
    and "ts_text T ts = s @ [sg, da, db]" and "sg \<in> {CHR ''+'', CHR ''-''}" and "{da, db} \<subseteq> set ''0123456789''"
    and "[sg, da, db] \<noteq> ''+00''"
  shows "\<exists>msg c'. commit T ts v label c = (Inl (Internal msg), c') \<and> tabs c' = tabs c \<and> committed c' = tabs c"
proof -
  obtain st where st: "look s_volume (fs_volume_state (tabs c)) v = Some st" using assms(3) by (auto simp: journal_sound_def)
  have dig: "db \<notin> {CHR ''Z'', CHR ''z'', CHR '' ''}" "da \<noteq> CHR '' ''"
    using assms(8) by auto
  have "\<not> has_offset (ts_text T ts)" "\<not> has_offset (normalize_ts (ts_text T ts))"
    using no_offset [OF assms(7) dig assms(9), of s] assms(6) by simp_all
  moreover have "parse_rfc3339 T x = None" if "\<not> has_offset x" for x
    using rfc [of x] that by (cases "parse_rfc3339 T x") auto
  ultimately have "parse_rfc3339 T (ts_text T ts) = None" "parse_rfc3339 T (normalize_ts (ts_text T ts)) = None"
    by simp_all
  then have "ts_parsed T (ts_text T ts) = None" by (simp add: ts_parsed_def)
  then show ?thesis using commit_run [OF assms(1-4) st, of T ts] assms(2) by (simp add: committed_def)
qed

definition cst_lib :: ts_lib where
  "cst_lib = \<lparr>ts_text = (\<lambda>_. ''2026-01-01 08:00:00+08''),
    parse_rfc3339 = (\<lambda>s. if s = ''2026-01-01T08:00:00+08:00'' then Some 1767225600 else None)\<rparr>"

theorem commit_fails_off_utc_witness:
  "\<exists>msg c'. commit cst_lib 5 ''v'' None vol_fs = (Inl (Internal msg), c') \<and> tabs c' = tabs vol_fs \<and> committed c' = tabs vol_fs"
  by (rule commit_fails_off_utc [OF vol_fs_sel(1,2) vol_sound, where s = "''2026-01-01 08:00:00''" and sg = "CHR ''+''" and
        da = "CHR ''0''" and db = "CHR ''8''"])
    (auto simp: label_fresh_def cst_lib_def has_offset_def split: if_splits)

text \<open>
  A volume with two snapshots, a key set between them; the first one is restored.
\<close>

definition rolled_back :: "(error + restore_outcome) \<times> lru_list fs_state" where
  "rolled_back =
    (let c1 = snd (commit utc_lib 5 ''v'' (Some ''m1'') vol_fs);
         c2 = snd (kv_exec Some (KvSet 6 ''k'' ''1'') c1);
         c3 = snd (commit utc_lib 7 ''v'' (Some ''m2'') c2)
     in restore_to 8 ''v'' 1 c3)"

text \<open>
  When the root directory of the volume did not change since the restored snapshot, the
  later snapshots stay: here a restore to snapshot 1 reports one pruned snapshot, yet snapshot 2
  is still listed, and the next commit, which gets the number 2 again, fails on the primary key
  and fails forever after.
\<close>

theorem restore_keeps_later_snapshots:
  "fst rolled_back = Inr \<lparr>pruned_snapshots = 1, pruned_undo_rows = 1\<rparr> \<and>
    fst (list_snapshots utc_lib ''v'' (snd rolled_back)) =
      Inr [\<lparr>si_snap = 1, si_committed = 1767225600, si_label = Some ''m1''\<rparr>,
           \<lparr>si_snap = 2, si_committed = 1767225600, si_label = Some ''m2''\<rparr>] \<and>
    fst (commit utc_lib 9 ''v'' (Some ''m3'') (snd rolled_back)) = Inl Postgres \<and>
    committed (snd (commit utc_lib 9 ''v'' (Some ''m3'') (snd rolled_back))) = committed (snd rolled_back)"
  by code_simp

text \<open>
  A restore does not touch the entry cache: a directory made after the snapshot is gone from
  the table, and the path still resolves to its inode.
\<close>

theorem restore_leaves_stale_cache:
  "let c = snd (restore_to 9 ''v'' 1 after_mkdir) in
    dir_map (tabs c) (1, ''x'') = None \<and> fst (resolve_path (list_lru 8) ''/x'' c) = Inr (Some 5) \<and>
    ino_map (tabs c) 5 = None"
  by code_simp

end
