(* ===== verification/Fs_Init.thy ===== *)
theory Fs_Init
  imports Fs_Machine
begin

text \<open>
  Opening a filesystem: \<open>SecAFS::from_pool\<close>, \<open>initialize_schema\<close> and \<open>read_chunk_size\<close> of
  \<open>filesystem/secafs.rs\<close>, and the version check of \<open>schema.rs\<close>.  The tables are fields of the
  model, so a statement of the data definition language can fail and changes nothing; the
  catalogue that the version check reads is a parameter.
\<close>

section \<open>Statements\<close>

definition create_table :: "('z conn_scheme, unit) oper" where
  "create_table = query (\<lambda>t. ())"

definition set_init_gucs :: "('z conn_scheme, unit) oper" where
  "set_init_gucs =
    stmt (\<lambda>c. (Inr (), c\<lparr>guc_volume := Some ''__init__'', guc_suppress := Some ''true''\<rparr>))"

fun put_pair :: "'k \<Rightarrow> 'v \<Rightarrow> ('k \<times> 'v) list \<Rightarrow> ('k \<times> 'v) list" where
  "put_pair k x [] = [(k, x)]"
| "put_pair k x ((j, y) # ps) = (if j = k then (k, x) # ps else (j, y) # put_pair k x ps)"

definition select_config :: "string \<Rightarrow> ('z conn_scheme, string option) oper" where
  "select_config k = query (\<lambda>t. map_of (fs_config t) k)"

definition insert_config :: "string \<Rightarrow> string \<Rightarrow> ('z conn_scheme, unit) oper" where
  "insert_config k x =
    write_tables (\<lambda>t. if k \<in> fst ` set (fs_config t) then None else Some (t\<lparr>fs_config := fs_config t @ [(k, x)]\<rparr>))"

definition upsert_config :: "string \<Rightarrow> string \<Rightarrow> ('z conn_scheme, unit) oper" where
  "upsert_config k x = write_tables (\<lambda>t. Some (t\<lparr>fs_config := put_pair k x (fs_config t)\<rparr>))"

text \<open>\<open>SELECT setval(..., (SELECT GREATEST(MAX(ino), 1) FROM fs_inode))\<close>\<close>

definition set_inode_serial :: "('z conn_scheme, unit) oper" where
  "set_inode_serial =
    stmt (\<lambda>c. (Inr (), c\<lparr>seq_inode := fold max (map i_ino (fs_inode (tabs c))) 1 + 1\<rparr>))"

section \<open>initialize\_schema\<close>

definition DEFAULT_CHUNK_SIZE :: nat where "DEFAULT_CHUNK_SIZE = 4096"
definition SECAFS_SCHEMA_VERSION :: string where "SECAFS_SCHEMA_VERSION = ''0.6''"

text \<open>
  The tables and indexes in the order of the source: the configuration and inode tables, three
  columns whose addition may fail, eight statements for the other tables, thirteen for the snapshot
  tables and ten for the triggers.
\<close>

definition create_tables :: "('z conn_scheme, unit) oper" where
  "create_tables =
    sq (for_each (\<lambda>_. create_table) (replicate 2 ()))
    (sq (for_each (\<lambda>_. bnd (try_op create_table) (\<lambda>_. ret ())) (replicate 3 ()))
    (sq (for_each (\<lambda>_. create_table) (replicate 8 ()))
    (sq (for_each (\<lambda>_. create_table) (replicate 13 ()))
        (for_each (\<lambda>_. create_table) (replicate 10 ())))))"

text \<open>\<open>DEFAULT_CHUNK_SIZE.to_string()\<close> is the text ''4096''.\<close>

definition initialize_schema :: "clock \<Rightarrow> u32 \<Rightarrow> u32 \<Rightarrow> ('z conn_scheme, unit) oper" where
  "initialize_schema now uid gid =
    sq set_init_gucs
    (sq create_tables
    (bnd (select_config ''chunk_size'') (\<lambda>cfg.
    sq (if cfg = None then insert_config ''chunk_size'' ''4096'' else ret ())
    (sq (upsert_config ''schema_version'' SECAFS_SCHEMA_VERSION)
    (bnd (select_ino ROOT_INO) (\<lambda>root.
    sq (if root = None then
          bnd (clock_now now) (\<lambda>(secs, nsec).
            sq (insert_inode_row (new_inode DEFAULT_DIR_MODE 2 uid gid 0 0 secs nsec ROOT_INO)) (ret ()))
        else sq (update_inode ROOT_INO (\<lambda>r. r\<lparr>i_uid := i64_of_u32 uid, i_gid := i64_of_u32 gid\<rparr>)) (ret ()))
       set_inode_serial))))))"

text \<open>\<open>str::parse::<usize>\<close>: an optional plus sign, then decimal digits, below \<open>2^64\<close>.\<close>

definition digit :: "char \<Rightarrow> nat option" where
  "digit ch = (let n = of_char ch :: nat in if 48 \<le> n \<and> n \<le> 57 then Some (n - 48) else None)"

fun digits :: "nat \<Rightarrow> string \<Rightarrow> nat option" where
  "digits acc [] = Some acc"
| "digits acc (ch # s) = (case digit ch of None \<Rightarrow> None | Some d \<Rightarrow> digits (10 * acc + d) s)"

definition parse_usize :: "string \<Rightarrow> nat option" where
  "parse_usize s =
    (let s = (if s \<noteq> '''' \<and> hd s = CHR ''+'' then tl s else s) in
     if s = '''' then None
     else case digits 0 s of None \<Rightarrow> None | Some n \<Rightarrow> if n < 2 ^ 64 then Some n else None)"

definition read_chunk_size :: "('z conn_scheme, nat) oper" where
  "read_chunk_size =
    bnd (select_config ''chunk_size'') (\<lambda>cfg.
      ret (case cfg of
             None \<Rightarrow> DEFAULT_CHUNK_SIZE
           | Some s \<Rightarrow> (case parse_usize s of None \<Rightarrow> DEFAULT_CHUNK_SIZE | Some n \<Rightarrow> n)))"

text \<open>The new filesystem has the chunk size it returns and the empty cache \<open>cache\<close>.\<close>

definition from_pool :: "'l \<Rightarrow> clock \<Rightarrow> u32 \<Rightarrow> u32 \<Rightarrow> ('l, nat) fs_oper" where
  "from_pool cache now uid gid =
    sq get_connection
    (sq (initialize_schema now uid gid)
    (bnd read_chunk_size (\<lambda>chunk_size c. (Inr chunk_size, c\<lparr>dcache := cache\<rparr>))))"

section \<open>The version check\<close>

datatype schema_version = V0_0 | V0_2 | V0_4 | V0_5 | V0_6

fun version_str :: "schema_version \<Rightarrow> string" where
  "version_str V0_0 = ''0.0''"
| "version_str V0_2 = ''0.2''"
| "version_str V0_4 = ''0.4''"
| "version_str V0_5 = ''0.5''"
| "version_str V0_6 = ''0.6''"

definition is_current :: "schema_version \<Rightarrow> bool" where
  "is_current v \<longleftrightarrow> v = V0_6"

text \<open>The catalogue: the tables of the schema \<open>public\<close> with their columns.\<close>

type_synonym catalogue = "string \<rightharpoonup> string list"

definition table_exists :: "catalogue \<Rightarrow> string \<Rightarrow> ('z conn_scheme, bool) oper" where
  "table_exists cat name = query (\<lambda>t. cat name \<noteq> None)"

definition get_table_columns :: "catalogue \<Rightarrow> string \<Rightarrow> ('z conn_scheme, string list) oper" where
  "get_table_columns cat name = query (\<lambda>t. case cat name of None \<Rightarrow> [] | Some cols \<Rightarrow> cols)"

definition detect_schema_version :: "catalogue \<Rightarrow> ('z conn_scheme, schema_version option) oper" where
  "detect_schema_version cat =
    bnd (table_exists cat ''fs_inode'') (\<lambda>ex.
    if \<not> ex then ret None
    else
      bnd (get_table_columns cat ''fs_inode'') (\<lambda>cols.
      if ''atime_nsec'' \<in> set cols \<and> ''mtime_nsec'' \<in> set cols \<and> ''ctime_nsec'' \<in> set cols \<and> ''rdev'' \<in> set cols then
        bnd (table_exists cat ''fs_volumes'') (\<lambda>vol.
        if vol then
          bnd (table_exists cat ''fs_volume_state'') (\<lambda>state.
            ret (Some (if state then V0_6 else V0_5)))
        else ret (Some V0_4))
      else ret (Some (if ''nlink'' \<in> set cols then V0_2 else V0_0))))"

definition check_schema_version :: "catalogue \<Rightarrow> ('z conn_scheme, unit) oper" where
  "check_schema_version cat =
    bnd (detect_schema_version cat) (\<lambda>v.
      case v of
        None \<Rightarrow> ret ()
      | Some v \<Rightarrow>
          if \<not> is_current v then throw (SchemaVersionMismatch (version_str v) SECAFS_SCHEMA_VERSION)
          else ret ())"

section \<open>Opening gives a good filesystem\<close>

text \<open>
  What the database must hold: the keys, and a consistent name space, whose root is a directory if
  there is one.  An empty database qualifies; nothing is asked of the inode serial.
\<close>

definition stored_ok :: "'z conn_scheme \<Rightarrow> bool" where
  "stored_ok c \<longleftrightarrow>
    keys_ok (tabs c) \<and> (\<forall>d \<in> set (fs_dentry (tabs c)). d_id d < seq_dentry c) \<and>
    entries_ok (ino_map (tabs c)) (fs_dentry (tabs c)) \<and> counts_ok (ino_map (tabs c)) (fs_dentry (tabs c)) \<and>
    owned (ino_map (tabs c)) (b_ino ` set (fs_data (tabs c)) \<union> l_ino ` set (fs_symlink (tabs c))) \<and>
    dirs_clean (tabs c) \<and> (\<forall>r. ino_map (tabs c) ROOT_INO = Some r \<longrightarrow> is_dir r)"

lemma for_each_tables:
  "ready c \<Longrightarrow> for_each (\<lambda>_. create_table) xs c = (Inr (), c)"
  "ready c \<Longrightarrow> for_each (\<lambda>_. bnd (try_op create_table) (\<lambda>_. ret ())) xs c = (Inr (), c)"
  by (induction xs) (simp_all add: create_table_def run)

lemma create_tables_ready [run]: "ready c \<Longrightarrow> create_tables c = (Inr (), c)"
  by (simp add: create_tables_def for_each_tables)

lemma map_of_put_pair: "map_of (put_pair k x ps) = (map_of ps)(k \<mapsto> x)"
  by (induction ps) (auto simp: fun_eq_iff)

lemma fold_max_ge: "(a :: int) \<le> fold max xs a" "x \<in> set xs \<Longrightarrow> x \<le> fold max xs a"
  by (induction xs arbitrary: a) (auto intro: order_trans [OF max.cobounded2] order_trans [OF max.cobounded1])

text \<open>The tables after initialisation: a root directory, everything else as it was.\<close>

definition rooted :: "'z conn_scheme \<Rightarrow> 'z conn_scheme \<Rightarrow> inode_row \<Rightarrow> bool" where
  "rooted c c' r \<longleftrightarrow>
    ready c' \<and> txn_state c' = NoTxn \<and> inode_ok (fs_inode (tabs c')) \<and>
    ino_map (tabs c') = (ino_map (tabs c))(ROOT_INO \<mapsto> r) \<and> is_dir r \<and>
    fs_dentry (tabs c') = fs_dentry (tabs c) \<and> fs_data (tabs c') = fs_data (tabs c) \<and>
    fs_symlink (tabs c') = fs_symlink (tabs c) \<and> fs_config (tabs c') = fs_config (tabs c) \<and>
    seq_dentry c' = seq_dentry c"

lemma root_made:
  fixes c :: "'z conn_scheme"
  assumes rd: "ready c" "txn_state c = NoTxn" and ok: "inode_ok (fs_inode (tabs c))"
    and root: "\<And>r. ino_map (tabs c) ROOT_INO = Some r \<Longrightarrow> is_dir r"
  obtains c' r where
    "(if map_option i_ino (ino_map (tabs c) ROOT_INO) = None then
        bnd (clock_now (Some (secs, nsec))) (\<lambda>(secs, nsec).
          sq (insert_inode_row (new_inode DEFAULT_DIR_MODE 2 uid gid 0 0 secs nsec ROOT_INO)) (ret ()))
      else sq (update_inode ROOT_INO (\<lambda>r. r\<lparr>i_uid := i64_of_u32 uid, i_gid := i64_of_u32 gid\<rparr>)) (ret ())) c = (Inr (), c')"
    and "rooted c c' r"
proof (cases "ino_map (tabs c) ROOT_INO")
  case None
  let ?r = "new_inode DEFAULT_DIR_MODE 2 uid gid 0 0 secs nsec ROOT_INO"
  have fresh: "ROOT_INO \<notin> i_ino ` set (fs_inode (tabs c))" using None by (simp add: ino_map_None)
  have ok': "inode_ok (fs_inode (tabs c) @ [?r])" by (rule inode_ok_snoc [OF ok]) (simp add: fresh)
  have "rooted c (put_inode [Inserted ?r] (fs_inode (tabs c) @ [?r]) c) ?r"
    using rd ok' look_snoc [of i_ino ?r "fs_inode (tabs c)"] fresh
    by (simp add: rooted_def ino_map_def is_dir_new mode_defs)
  then show ?thesis by (rule that [rotated]) (use None rd ok' in \<open>simp add: run\<close>)
next
  case (Some r)
  let ?f = "\<lambda>r. r\<lparr>i_uid := i64_of_u32 uid, i_gid := i64_of_u32 gid\<rparr>"
  let ?c' = "put_inode (map Updated (filter (\<lambda>r. i_ino r = ROOT_INO) (fs_inode (tabs c))))
    (map (\<lambda>r. if i_ino r = ROOT_INO then ?f r else r) (fs_inode (tabs c))) c"
  have u: "update_inode ROOT_INO ?f c = (Inr (length (filter (\<lambda>r. i_ino r = ROOT_INO) (fs_inode (tabs c)))), ?c')"
    by (rule update_inode_ready [OF rd(1) ok]) simp
  have "is_dir (?f r)" using root [OF Some] by (simp add: is_dir_def)
  then have "rooted c ?c' (?f r)"
    using rd Some look_update_inode [of ?f ROOT_INO "fs_inode (tabs c)"] inode_ok_update [OF ok, of ?f "\<lambda>r. i_ino r = ROOT_INO"]
    by (simp add: rooted_def ino_map_def)
  then show ?thesis by (rule that [rotated]) (use Some u in simp)
qed

lemma initialize_run:
  fixes c :: "'z conn_scheme"
  assumes rd: "ready c" "txn_state c = NoTxn" and ok: "stored_ok c"
  obtains c1 c' r where "initialize_schema (Some now) uid gid c = (Inr (), c')"
    and "rooted c1 c' r" and "tabs c1 = (tabs c)\<lparr>fs_config := fs_config (tabs c1)\<rparr>"
    and "seq_dentry c1 = seq_dentry c"
    and "seq_inode c' = fold max (map i_ino (fs_inode (tabs c'))) 1 + 1"
    and "map_of (fs_config (tabs c')) ''chunk_size'' =
      Some (case map_of (fs_config (tabs c)) ''chunk_size'' of None \<Rightarrow> ''4096'' | Some s \<Rightarrow> s)"
proof -
  obtain secs nsec where now: "now = (secs, nsec)" by fastforce
  let ?g = "c\<lparr>guc_volume := Some ''__init__'', guc_suppress := Some ''true''\<rparr>"
  let ?cfg = "fs_config (tabs c)"
  let ?cfg1 = "case map_of ?cfg ''chunk_size'' of None \<Rightarrow> ?cfg @ [(''chunk_size'', ''4096'')] | Some s \<Rightarrow> ?cfg"
  let ?t1 = "(tabs c)\<lparr>fs_config := put_pair ''schema_version'' SECAFS_SCHEMA_VERSION ?cfg1\<rparr>"
  let ?c1 = "?g\<lparr>tabs := ?t1\<rparr>"
  have g: "ready ?g" using rd by (simp add: ready_def)
  have r1: "ready ?c1" "txn_state ?c1 = NoTxn" using rd by (simp_all add: ready_def)
  have ins: "(if map_of ?cfg ''chunk_size'' = None then insert_config ''chunk_size'' ''4096'' else ret ()) ?g =
      (Inr (), ?g\<lparr>tabs := (tabs c)\<lparr>fs_config := ?cfg1\<rparr>\<rparr>)"
  proof (cases "map_of ?cfg ''chunk_size''")
    case None
    then have "''chunk_size'' \<notin> fst ` set ?cfg" by (simp add: map_of_eq_None_iff)
    then show ?thesis using None g by (simp add: insert_config_def run)
  qed simp
  have im: "ino_map (tabs ?c1) = ino_map (tabs c)" by (simp add: ino_map_def)
  obtain c2 r where c2: "(if map_option i_ino (ino_map (tabs ?c1) ROOT_INO) = None then
        bnd (clock_now (Some (secs, nsec))) (\<lambda>(secs, nsec).
          sq (insert_inode_row (new_inode DEFAULT_DIR_MODE 2 uid gid 0 0 secs nsec ROOT_INO)) (ret ()))
      else sq (update_inode ROOT_INO (\<lambda>r. r\<lparr>i_uid := i64_of_u32 uid, i_gid := i64_of_u32 gid\<rparr>)) (ret ())) ?c1 = (Inr (), c2)"
    and rt: "rooted ?c1 c2 r"
    by (rule root_made [OF r1, where secs = secs and nsec = nsec and uid = uid and gid = gid])
      (use ok im in \<open>auto simp: stored_ok_def keys_ok_def\<close>)
  let ?c' = "c2\<lparr>seq_inode := fold max (map i_ino (fs_inode (tabs c2))) 1 + 1\<rparr>"
  have r2: "ready c2" using rt by (simp add: rooted_def)
  have s1: "set_init_gucs c = (Inr (), ?g)" using rd by (simp add: set_init_gucs_def run)
  have s2: "select_config ''chunk_size'' ?g = (Inr (map_of ?cfg ''chunk_size''), ?g)"
    using g by (simp add: select_config_def run)
  have s3: "upsert_config ''schema_version'' SECAFS_SCHEMA_VERSION (?g\<lparr>tabs := (tabs c)\<lparr>fs_config := ?cfg1\<rparr>\<rparr>) = (Inr (), ?c1)"
    using rd by (simp add: upsert_config_def run ready_def)
  have s4: "select_ino ROOT_INO ?c1 = (Inr (map_option i_ino (ino_map (tabs ?c1) ROOT_INO)), ?c1)"
    by (rule select_ino_ready [OF r1(1)])
  have s5: "set_inode_serial c2 = (Inr (), ?c')" using r2 by (simp add: set_inode_serial_def run)
  have "initialize_schema (Some now) uid gid c = (Inr (), ?c')"
    by (simp only: initialize_schema_def now sq_Inr bnd_Inr s1 create_tables_ready [OF g] s2 ins s3 s4 c2 s5)
  moreover have "rooted ?c1 ?c' r" using rt by (simp add: rooted_def)
  moreover have "map_of (fs_config (tabs ?c')) ''chunk_size'' =
      Some (case map_of ?cfg ''chunk_size'' of None \<Rightarrow> ''4096'' | Some s \<Rightarrow> s)"
    using rt by (simp add: rooted_def map_of_put_pair map_add_def split: option.split)
  ultimately show ?thesis by (intro that [of ?c' ?c1 r]) simp_all
qed

text \<open>With the serial above every inode, the stored tables are a good filesystem.\<close>

lemma rooted_good:
  fixes c c' :: "'l fs_state"
  assumes ok: "stored_ok c" and rt: "rooted c c' r" and seq: "\<And>i. ino_map (tabs c') i \<noteq> None \<Longrightarrow> i < seq_inode c'"
    and cache: "view (dcache c') = Map.empty"
  shows "fs_good view c'"
proof -
  let ?I = "ino_map (tabs c)" and ?D = "fs_dentry (tabs c)"
  have I': "ino_map (tabs c') = ?I(ROOT_INO \<mapsto> r)" and D': "fs_dentry (tabs c') = ?D" and r: "is_dir r"
    and X': "fs_data (tabs c') = fs_data (tabs c)" "fs_symlink (tabs c') = fs_symlink (tabs c)"
    using rt by (simp_all add: rooted_def)
  have zero: "links ?D ROOT_INO < 2"
  proof (cases "?I ROOT_INO")
    case None
    then show ?thesis using no_links_absent [of ?I ?D ROOT_INO] ok by (simp add: stored_ok_def)
  next
    case (Some q)
    then show ?thesis using ok by (auto simp: stored_ok_def counts_ok_def)
  qed
  have "keys_ok (tabs c')" using ok rt by (simp add: stored_ok_def rooted_def keys_ok_def)
  moreover have "below_serials c'" using ok rt seq by (simp add: below_serials_def stored_ok_def rooted_def)
  moreover have "entries_ok (ino_map (tabs c')) (fs_dentry (tabs c'))"
    using ok r unfolding stored_ok_def entries_ok_def I' D' by (metis fun_upd_apply option.simps(3))
  moreover have "counts_ok (ino_map (tabs c')) (fs_dentry (tabs c'))"
    using ok r zero unfolding stored_ok_def counts_ok_def I' D' by (metis fun_upd_apply option.inject)
  moreover have "owned (ino_map (tabs c')) (b_ino ` set (fs_data (tabs c')) \<union> l_ino ` set (fs_symlink (tabs c')))"
    using ok unfolding stored_ok_def owned_def I' X' by (metis fun_upd_apply option.simps(3))
  moreover have "dirs_clean (tabs c')"
  proof -
    have "ROOT_INO \<notin> b_ino ` set (fs_data (tabs c)) \<union> l_ino ` set (fs_symlink (tabs c))"
      using ok unfolding stored_ok_def owned_def dirs_clean_def by (metis not_Some_eq)
    then show ?thesis using ok unfolding stored_ok_def dirs_clean_def I' X' by (metis fun_upd_apply)
  qed
  ultimately show ?thesis
    using rt cache by (simp add: fs_good_def ns_inv_def rooted_def cache_coherent_def)
qed

text \<open>
  C12.  Opening a filesystem on an empty database, or again on one that holds a consistent name
  space, returns and gives a good filesystem with a root directory, whatever the inode serial
  was: so every state that clients of the inode interface reach afterwards keeps the invariant.
  The directory entries are those of the database, and the chunk size is 4096 unless one is
  configured.
\<close>

theorem from_pool_good:
  fixes c :: "'l fs_state"
  assumes "ready c" and "txn_state c = NoTxn" and "stored_ok c" and "view cache = Map.empty"
  shows "\<exists>n c'. from_pool cache (Some now) uid gid c = (Inr n, c') \<and> fs_good view c' \<and>
    dir_at (tabs c') ROOT_INO \<and> dir_map (tabs c') = dir_map (tabs c) \<and>
    (map_of (fs_config (tabs c)) ''chunk_size'' = None \<longrightarrow> n = 4096)"
proof -
  obtain c1 c2 r where ini: "initialize_schema (Some now) uid gid c = (Inr (), c2)" "rooted c1 c2 r"
    "tabs c1 = (tabs c)\<lparr>fs_config := fs_config (tabs c1)\<rparr>" "seq_dentry c1 = seq_dentry c"
    "seq_inode c2 = fold max (map i_ino (fs_inode (tabs c2))) 1 + 1"
    "map_of (fs_config (tabs c2)) ''chunk_size'' =
      Some (case map_of (fs_config (tabs c)) ''chunk_size'' of None \<Rightarrow> ''4096'' | Some s \<Rightarrow> s)"
    by (rule initialize_run [OF assms(1-3)])
  let ?c' = "c2\<lparr>dcache := cache\<rparr>"
  have t1: "fs_inode (tabs c1) = fs_inode (tabs c)" "fs_dentry (tabs c1) = fs_dentry (tabs c)"
    "fs_data (tabs c1) = fs_data (tabs c)" "fs_symlink (tabs c1) = fs_symlink (tabs c)"
    by (subst ini(3), simp)+
  have ok1: "stored_ok c1"
    using assms(3) t1 ini(4) by (simp add: stored_ok_def keys_ok_def ino_map_def dirs_clean_def)
  have good: "fs_good view ?c'"
  proof (rule rooted_good [OF ok1, of _ r])
    show "i < seq_inode ?c'" if "ino_map (tabs ?c') i \<noteq> None" for i
      using that fold_max_ge(2) [of i "map i_ino (fs_inode (tabs c2))" 1] ini(5) by (auto simp: ino_map_None zless_add1_eq)
  qed (use ini(2) assms(4) in \<open>simp_all add: rooted_def\<close>)
  have "read_chunk_size c2 = (Inr (case parse_usize (case map_of (fs_config (tabs c)) ''chunk_size'' of None \<Rightarrow> ''4096'' | Some s \<Rightarrow> s)
      of None \<Rightarrow> DEFAULT_CHUNK_SIZE | Some n \<Rightarrow> n), c2)"
    using ini(2,6) by (simp add: read_chunk_size_def select_config_def run rooted_def)
  then obtain n where n: "from_pool cache (Some now) uid gid c = (Inr n, ?c')"
    "map_of (fs_config (tabs c)) ''chunk_size'' = None \<Longrightarrow> parse_usize ''4096'' = Some n"
    using ini(1) assms(1) by (auto simp: from_pool_def run parse_usize_def digit_def split: option.splits)
  have "parse_usize ''4096'' = Some 4096" by (simp add: parse_usize_def digit_def)
  moreover have "dir_map (tabs ?c') = dir_map (tabs c)"
    using ini(2) t1(2) by (intro ext) (simp add: dir_map_def rooted_def)
  moreover have "dir_at (tabs ?c') ROOT_INO" using ini(2) by (simp add: dir_at_def rooted_def)
  ultimately show ?thesis using n good by auto
qed

text \<open>An empty database.\<close>

definition empty_fs :: "lru_list fs_state" where
  "empty_fs = sample_fs\<lparr>tabs := sample_tables\<lparr>fs_config := [], fs_inode := [], fs_dentry := [], fs_data := [],
     fs_symlink := [], fs_volumes := []\<rparr>, seq_inode := 1, seq_dentry := 1\<rparr>"

theorem from_pool_good_witness:
  "\<exists>c'. from_pool [] (Some (7, 8)) 1000 1000 empty_fs = (Inr 4096, c') \<and> fs_good map_of c'"
proof -
  have "stored_ok empty_fs"
    by (simp add: stored_ok_def empty_fs_def keys_ok_def constraint_defs ino_map_def entries_ok_def counts_ok_def
        owned_def dirs_clean_def)
  moreover have "ready empty_fs" "txn_state empty_fs = NoTxn" by (simp_all add: empty_fs_def sample_fs_def ready_def)
  ultimately show ?thesis
    using from_pool_good [of empty_fs map_of "[]" "(7, 8)" 1000 1000] by (auto simp: empty_fs_def)
qed

section \<open>What the version check accepts\<close>

text \<open>
  The check passes exactly for a database without the inode table and for one with the columns and
  tables of version 0.6; every other database is refused with its version.
\<close>

lemma check_schema_version_accepts:
  assumes "ready c"
  shows "fst (check_schema_version cat c) = Inr () \<longleftrightarrow>
    (case cat ''fs_inode'' of
       None \<Rightarrow> True
     | Some cols \<Rightarrow> {''atime_nsec'', ''mtime_nsec'', ''ctime_nsec'', ''rdev''} \<subseteq> set cols \<and>
         cat ''fs_volumes'' \<noteq> None \<and> cat ''fs_volume_state'' \<noteq> None)"
proof -
  have ex: "table_exists cat name c = (Inr (cat name \<noteq> None), c)"
    and cols: "get_table_columns cat name c = (Inr (case cat name of None \<Rightarrow> [] | Some cols \<Rightarrow> cols), c)" for name
    using assms by (simp_all add: table_exists_def get_table_columns_def query_ready)
  show ?thesis
    by (auto simp: check_schema_version_def detect_schema_version_def is_current_def bnd_def ret_def throw_def ex cols
        split: option.splits if_splits)
qed

end
