(* ===== verification/Overlay.thy ===== *)
theory Overlay
  imports Fs_Init "HOL-Library.Char_ord" "HOL-Library.List_Lexorder"
begin

text \<open>
  The copy-on-write overlay of \<open>filesystem/overlayfs.rs\<close>: a read-only base filesystem below a
  writable delta layer, which is a SecAFS.  The base is any implementation of the \<open>FileSystem\<close>
  trait (\<open>Arc<dyn FileSystem>\<close>), so the reading operations of that trait are a parameter, the
  record \<open>base_fs\<close>; it is read-only, so its answers do not change.  The properties of the
  overlay are in \<open>Overlay_Theorems\<close>.
\<close>

section \<open>State\<close>

datatype layer = Delta | Base

record inode_info =
  n_layer :: layer
  n_under :: i64
  n_path :: string

record 'f base_fs =
  base_lookup :: "i64 \<Rightarrow> string \<Rightarrow> error + stats option"
  base_getattr :: "i64 \<Rightarrow> error + stats option"
  base_readlink :: "i64 \<Rightarrow> error + string option"
  base_readdir :: "i64 \<Rightarrow> error + string list option"
  base_readdir_plus :: "i64 \<Rightarrow> error + dir_entry list option"
  base_open :: "i64 \<Rightarrow> error + 'f"
  base_pread :: "'f \<Rightarrow> u64 \<Rightarrow> u64 \<Rightarrow> error + bytes"

text \<open>
  \<open>OverlayFS\<close>.  \<open>readings\<close> are the values \<open>SystemTime::now\<close> will give, in turn: an operation of
  the overlay calls several operations of the delta, and each reads the clock itself.
\<close>

record 'l overlay =
  delta :: "'l fs_state"
  inode_map :: "i64 \<rightharpoonup> inode_info"
  reverse_map :: "layer \<times> i64 \<rightharpoonup> i64"
  path_map :: "string \<rightharpoonup> i64"
  next_ino :: i64
  whiteouts :: "string set"
  origin_map :: "i64 \<rightharpoonup> i64"
  readings :: "nat \<Rightarrow> clock"
  ticks :: nat

type_synonym ('l, 'a) ov_oper = "('l overlay, 'a) oper"

definition on_delta :: "('l, 'a) fs_oper \<Rightarrow> ('l, 'a) ov_oper" where
  "on_delta m v = (case m (delta v) of (r, d) \<Rightarrow> (r, v\<lparr>delta := d\<rparr>))"

definition from_base :: "error + 'a \<Rightarrow> ('l, 'a) ov_oper" where
  "from_base r v = (r, v)"

definition modify :: "('l overlay \<Rightarrow> 'l overlay) \<Rightarrow> ('l, unit) ov_oper" where
  "modify f v = (Inr (), f v)"

definition tick :: "('l, clock) ov_oper" where
  "tick v = (Inr (readings v (ticks v)), v\<lparr>ticks := ticks v + 1\<rparr>)"

definition timed :: "(clock \<Rightarrow> ('l, 'a) fs_oper) \<Rightarrow> ('l, 'a) ov_oper" where
  "timed m = bnd tick (\<lambda>now. on_delta (m now))"

definition overlay_new :: "'l fs_state \<Rightarrow> (nat \<Rightarrow> clock) \<Rightarrow> 'l overlay" where
  "overlay_new d rs =
    \<lparr>delta = d,
     inode_map = [ROOT_INO \<mapsto> \<lparr>n_layer = Delta, n_under = 1, n_path = ''/''\<rparr>],
     reverse_map = [(Delta, 1) \<mapsto> ROOT_INO],
     path_map = [''/'' \<mapsto> ROOT_INO],
     next_ino = 2, whiteouts = {}, origin_map = Map.empty, readings = rs, ticks = 0\<rparr>"

section \<open>The tables of the overlay\<close>

text \<open>
  As at the opening of a filesystem, \<open>CREATE TABLE IF NOT EXISTS\<close> can fail but changes nothing.
  None of these tables has an undo trigger.
\<close>

definition set_overlay_config :: "string \<Rightarrow> string \<Rightarrow> ('z conn_scheme, unit) oper" where
  "set_overlay_config k x =
    write_tables (\<lambda>t. Some (fs_overlay_config_update (put_pair k x) t))"

definition upsert_whiteout :: "string \<Rightarrow> i64 \<Rightarrow> ('z conn_scheme, unit) oper" where
  "upsert_whiteout path now =
    write_tables (\<lambda>t. Some (fs_whiteout_update (put_pair path now) t))"

definition delete_whiteout :: "string \<Rightarrow> ('z conn_scheme, unit) oper" where
  "delete_whiteout path =
    write_tables (\<lambda>t. Some (fs_whiteout_update (filter (\<lambda>r. fst r \<noteq> path)) t))"

definition upsert_origin :: "i64 \<Rightarrow> i64 \<Rightarrow> ('z conn_scheme, unit) oper" where
  "upsert_origin d b =
    write_tables (\<lambda>t. Some (fs_origin_update (put_pair d b) t))"

definition init_schema :: "string \<Rightarrow> ('z conn_scheme, unit) oper" where
  "init_schema base_path =
    sq create_table (sq create_table
    (sq (set_overlay_config ''base_path'' base_path)
    (sq create_table (ret ()))))"

definition load_whiteouts :: "('l, unit) ov_oper" where
  "load_whiteouts =
    bnd (on_delta (query (\<lambda>t. map fst (fs_whiteout t)))) (\<lambda>paths.
      modify (\<lambda>v. v\<lparr>whiteouts := whiteouts v \<union> set paths\<rparr>))"

text \<open>A failure of the query is ignored.\<close>

definition load_origins :: "('l, unit) ov_oper" where
  "load_origins =
    bnd (try_op (on_delta (query fs_origin))) (\<lambda>r.
      case r of
        Inl e \<Rightarrow> ret ()
      | Inr mappings \<Rightarrow> modify (\<lambda>v. v\<lparr>origin_map := fold (\<lambda>(d, b) m. m(d \<mapsto> b)) mappings (origin_map v)\<rparr>))"

definition ov_init :: "string \<Rightarrow> ('l, unit) ov_oper" where
  "ov_init base_path =
    sq (on_delta get_connection)
    (sq (on_delta (init_schema base_path))
    (sq load_whiteouts (sq load_origins (ret ()))))"

definition load :: "('l, unit) ov_oper" where
  "load = sq (on_delta get_connection) (sq load_whiteouts (sq load_origins (ret ())))"

section \<open>Whiteouts\<close>

text \<open>The loop of \<open>is_whiteout\<close> over the components, \<open>cur\<close> the path so far.\<close>

fun whited :: "string set \<Rightarrow> string \<Rightarrow> string list \<Rightarrow> bool" where
  "whited W cur [] = False"
| "whited W cur (w # ws) =
    (let cur = cur @ slash # w in if cur \<in> W then True else whited W cur ws)"

definition is_whiteout :: "'l overlay \<Rightarrow> string \<Rightarrow> bool" where
  "is_whiteout v path = whited (whiteouts v) [] (path_words path)"

definition create_whiteout :: "string \<Rightarrow> ('l, unit) ov_oper" where
  "create_whiteout path =
    sq (on_delta get_connection)
    (bnd tick (\<lambda>now. bnd (clock_now now) (\<lambda>(secs, nsec).
     sq (on_delta (upsert_whiteout path secs))
        (modify (\<lambda>v. v\<lparr>whiteouts := insert path (whiteouts v)\<rparr>)))))"

definition remove_whiteout :: "string \<Rightarrow> ('l, unit) ov_oper" where
  "remove_whiteout path v =
    (if path \<notin> whiteouts v then ret ()
     else
       sq (on_delta get_connection)
       (sq (on_delta (delete_whiteout path))
           (modify (\<lambda>v. v\<lparr>whiteouts := whiteouts v - {path}\<rparr>)))) v"

definition get_child_whiteouts :: "'l overlay \<Rightarrow> string \<Rightarrow> string set" where
  "get_child_whiteouts v dir =
    (if dir = ''/'' then
       Set.filter (\<lambda>s. slash \<notin> set s) (dropWhile (\<lambda>c. c = slash) ` whiteouts v)
     else
       let pre = dir @ ''/'' in
       Set.filter (\<lambda>s. slash \<notin> set s)
         (drop (length pre) ` Set.filter (\<lambda>p. take (length pre) p = pre) (whiteouts v)))"

section \<open>Inode numbers of the overlay\<close>

definition get_or_create_overlay_ino :: "layer \<Rightarrow> i64 \<Rightarrow> string \<Rightarrow> ('l, i64) ov_oper" where
  "get_or_create_overlay_ino layer u path v =
    (case reverse_map v (layer, u) of
       Some ino \<Rightarrow> (Inr ino, v)
     | None \<Rightarrow>
         let ino = next_ino v in
         (Inr ino, v\<lparr>next_ino := ino + 1,
            inode_map := (inode_map v)(ino \<mapsto> \<lparr>n_layer = layer, n_under = u, n_path = path\<rparr>),
            reverse_map := (reverse_map v)((layer, u) \<mapsto> ino),
            path_map := (path_map v)(path \<mapsto> ino)\<rparr>))"

definition get_inode_info :: "i64 \<Rightarrow> ('l, inode_info option) ov_oper" where
  "get_inode_info ino v = (Inr (inode_map v ino), v)"

definition child_path :: "string \<Rightarrow> string \<Rightarrow> string" where
  "child_path dir name = (if dir = ''/'' then slash # name else dir @ slash # name)"

definition build_path :: "i64 \<Rightarrow> string \<Rightarrow> ('l, string) ov_oper" where
  "build_path parent_ino name =
    bnd (get_inode_info parent_ino) (\<lambda>i. bnd (ok_or (Fs NotFound) i) (\<lambda>info.
      ret (child_path (n_path info) name)))"

definition add_origin_mapping :: "i64 \<Rightarrow> i64 \<Rightarrow> ('l, unit) ov_oper" where
  "add_origin_mapping d b =
    sq (on_delta get_connection)
    (sq (on_delta (upsert_origin d b))
        (modify (\<lambda>v. v\<lparr>origin_map := (origin_map v)(d \<mapsto> b)\<rparr>)))"

definition promote_to_delta :: "string \<Rightarrow> i64 \<Rightarrow> 'l overlay \<Rightarrow> 'l overlay" where
  "promote_to_delta path delta_ino v =
    (case path_map v path of
       None \<Rightarrow> v
     | Some overlay_ino \<Rightarrow>
        (case inode_map v overlay_ino of
           None \<Rightarrow> v
         | Some info \<Rightarrow>
             if n_layer info = Base then
               v\<lparr>inode_map := (inode_map v)(overlay_ino \<mapsto> info\<lparr>n_layer := Delta, n_under := delta_ino\<rparr>),
                 reverse_map := (reverse_map v)((Base, n_under info) := None, (Delta, delta_ino) \<mapsto> overlay_ino)\<rparr>
             else v))"

section \<open>Walks\<close>

text \<open>The three loops over the components of a path: both layers, and one that skips what is missing.\<close>

fun walk_delta :: "'l lru_ops \<Rightarrow> string list \<Rightarrow> i64 \<Rightarrow> ('l, i64 option) ov_oper" where
  "walk_delta L [] ino = ret (Some ino)"
| "walk_delta L (w # ws) ino =
    bnd (on_delta (lookup L ino w)) (\<lambda>st.
      case st of None \<Rightarrow> ret None | Some s \<Rightarrow> walk_delta L ws (st_ino s))"

fun walk_delta_lax :: "'l lru_ops \<Rightarrow> string list \<Rightarrow> i64 \<Rightarrow> ('l, i64) ov_oper" where
  "walk_delta_lax L [] ino = ret ino"
| "walk_delta_lax L (w # ws) ino =
    bnd (on_delta (lookup L ino w)) (\<lambda>st.
      case st of None \<Rightarrow> walk_delta_lax L ws ino | Some s \<Rightarrow> walk_delta_lax L ws (st_ino s))"

fun walk_base :: "'f base_fs \<Rightarrow> string list \<Rightarrow> i64 \<Rightarrow> ('l, i64 option) ov_oper" where
  "walk_base B [] ino = ret (Some ino)"
| "walk_base B (w # ws) ino =
    bnd (from_base (base_lookup B ino w)) (\<lambda>st.
      case st of None \<Rightarrow> ret None | Some s \<Rightarrow> walk_base B ws (st_ino s))"

definition delta_parent :: "'l lru_ops \<Rightarrow> inode_info \<Rightarrow> ('l, i64) ov_oper" where
  "delta_parent L info =
    (if n_layer info = Delta then ret (n_under info)
     else walk_delta_lax L (path_words (n_path info)) 1)"

definition base_parent :: "'f base_fs \<Rightarrow> inode_info \<Rightarrow> ('l, i64 option) ov_oper" where
  "base_parent B info =
    (if n_layer info = Base then ret (Some (n_under info))
     else walk_base B (path_words (n_path info)) 1)"

section \<open>Copying up\<close>

fun ensure_dirs ::
  "'f base_fs \<Rightarrow> 'l lru_ops \<Rightarrow> u32 \<Rightarrow> u32 \<Rightarrow> string list \<Rightarrow> string \<Rightarrow> i64 \<Rightarrow> i64 \<Rightarrow> ('l, unit) ov_oper" where
  "ensure_dirs B L uid gid [] cur cd cb = ret ()"
| "ensure_dirs B L uid gid (w # ws) cur cd cb =
    (let cur = cur @ slash # w in
     sq (remove_whiteout cur)
     (bnd (on_delta (lookup L cd w)) (\<lambda>st.
      case st of
        Some s \<Rightarrow>
          if is_directory s then
            bnd (from_base (base_lookup B cb w)) (\<lambda>bs.
              ensure_dirs B L uid gid ws cur (st_ino s)
                (case bs of None \<Rightarrow> cb | Some b \<Rightarrow> st_ino b))
          else throw (Fs NotADirectory)
      | None \<Rightarrow>
          bnd (from_base (base_lookup B cb w)) (\<lambda>bs.
          bnd (timed (\<lambda>now. mkdir L now cd w 0x1ED
                 (case bs of None \<Rightarrow> uid | Some b \<Rightarrow> st_uid b)
                 (case bs of None \<Rightarrow> gid | Some b \<Rightarrow> st_gid b))) (\<lambda>new.
            case bs of
              None \<Rightarrow> ensure_dirs B L uid gid ws cur (st_ino new) cb
            | Some b \<Rightarrow>
                sq (add_origin_mapping (st_ino new) (st_ino b))
                (sq (modify (promote_to_delta cur (st_ino new)))
                    (ensure_dirs B L uid gid ws cur (st_ino new) (st_ino b))))))))"

definition ensure_parent_dirs ::
  "'f base_fs \<Rightarrow> 'l lru_ops \<Rightarrow> string \<Rightarrow> u32 \<Rightarrow> u32 \<Rightarrow> ('l, unit) ov_oper" where
  "ensure_parent_dirs B L path uid gid =
    ensure_dirs B L uid gid (butlast (path_words path)) [] 1 1"

text \<open>The three kinds of nodes \<open>copy_up\<close> distinguishes.\<close>

definition copy_node ::
  "'f base_fs \<Rightarrow> 'l lru_ops \<Rightarrow> nat \<Rightarrow> i64 \<Rightarrow> stats \<Rightarrow> i64 \<Rightarrow> string \<Rightarrow> ('l, i64) ov_oper" where
  "copy_node B L cs base_ino bs parent name =
    (if is_symlink bs then
       bnd (from_base (base_readlink B base_ino)) (\<lambda>t. bnd (ok_or (Fs NotFound) t) (\<lambda>target.
       bnd (timed (\<lambda>now. symlink L now parent name target (st_uid bs) (st_gid bs))) (\<lambda>st.
         ret (st_ino st))))
     else if is_directory bs then
       bnd (timed (\<lambda>now. mkdir L now parent name (st_mode bs AND PERM_BITS) (st_uid bs) (st_gid bs)))
         (\<lambda>st. ret (st_ino st))
     else
       bnd (from_base (base_open B base_ino)) (\<lambda>f.
       bnd (from_base (base_pread B f 0 (as_u64 (st_size bs)))) (\<lambda>content.
       bnd (timed (\<lambda>now. create_file L cs now parent name (st_mode bs) (st_uid bs) (st_gid bs)))
         (\<lambda>(st, h).
           sq (timed (\<lambda>now. pwrite now h 0 content)) (ret (st_ino st))))))"

definition copy_up :: "'f base_fs \<Rightarrow> 'l lru_ops \<Rightarrow> nat \<Rightarrow> string \<Rightarrow> i64 \<Rightarrow> ('l, i64) ov_oper" where
  "copy_up B L cs path base_ino =
    (let comps = path_words path in
     if comps = [] then throw (Fs RootOperation)
     else
       bnd (walk_delta L (butlast comps) 1) (\<lambda>found.
       bnd (case found of None \<Rightarrow> ret None | Some p \<Rightarrow> on_delta (lookup L p (last comps))) (\<lambda>there.
       case there of
         Some s \<Rightarrow> ret (st_ino s)
       | None \<Rightarrow>
           bnd (from_base (base_getattr B base_ino)) (\<lambda>g. bnd (ok_or (Fs NotFound) g) (\<lambda>bs.
           sq (ensure_parent_dirs B L path (st_uid bs) (st_gid bs))
           (bnd (walk_delta L (butlast comps) 1) (\<lambda>p. bnd (ok_or (Fs NotFound) p) (\<lambda>parent.
            bnd (copy_node B L cs base_ino bs parent (last comps)) (\<lambda>delta_ino.
              sq (add_origin_mapping delta_ino base_ino) (ret delta_ino))))))))))"

definition copy_up_and_update_mapping ::
  "'f base_fs \<Rightarrow> 'l lru_ops \<Rightarrow> nat \<Rightarrow> i64 \<Rightarrow> inode_info \<Rightarrow> ('l, i64) ov_oper" where
  "copy_up_and_update_mapping B L cs overlay_ino info =
    bnd (copy_up B L cs (n_path info) (n_under info)) (\<lambda>delta_ino.
    sq (modify (\<lambda>v. v\<lparr>inode_map := (inode_map v)(overlay_ino \<mapsto>
                \<lparr>n_layer = Delta, n_under = delta_ino, n_path = n_path info\<rparr>),
              reverse_map := (reverse_map v)((Delta, delta_ino) \<mapsto> overlay_ino)\<rparr>))
       (ret delta_ino))"

definition in_delta :: "'f base_fs \<Rightarrow> 'l lru_ops \<Rightarrow> nat \<Rightarrow> i64 \<Rightarrow> ('l, i64) ov_oper" where
  "in_delta B L cs ino =
    bnd (get_inode_info ino) (\<lambda>i. bnd (ok_or (Fs NotFound) i) (\<lambda>info.
      case n_layer info of
        Delta \<Rightarrow> ret (n_under info)
      | Base \<Rightarrow> copy_up_and_update_mapping B L cs ino info))"

section \<open>Reading through the overlay\<close>

text \<open>A node found in one of the layers, under its overlay inode number.\<close>

definition renumber :: "i64 \<Rightarrow> stats \<Rightarrow> stats" where
  "renumber ino s = s\<lparr>st_ino := ino\<rparr>"

definition ov_lookup :: "'f base_fs \<Rightarrow> 'l lru_ops \<Rightarrow> i64 \<Rightarrow> string \<Rightarrow> ('l, stats option) ov_oper" where
  "ov_lookup B L parent_ino name =
    bnd (get_inode_info parent_ino) (\<lambda>i. bnd (ok_or (Fs NotFound) i) (\<lambda>parent_info.
    bnd (build_path parent_ino name) (\<lambda>path v.
     (if is_whiteout v path then ret None
      else
        bnd (if n_layer parent_info = Delta then ret (Some (n_under parent_info))
             else walk_delta L (path_words (n_path parent_info)) 1) (\<lambda>delta_parent_ino.
        bnd (case delta_parent_ino of None \<Rightarrow> ret None | Some p \<Rightarrow> on_delta (lookup L p name)) (\<lambda>found.
        case found of
          Some stats \<Rightarrow>
            bnd (get_or_create_overlay_ino Delta (st_ino stats) path) (\<lambda>ino v.
             (case origin_map v (st_ino stats) of
                Some base_ino \<Rightarrow>
                  bnd (get_or_create_overlay_ino Base base_ino path) (\<lambda>ino.
                    ret (Some (renumber ino stats)))
              | None \<Rightarrow> ret (Some (renumber ino stats))) v)
        | None \<Rightarrow>
            bnd (base_parent B parent_info) (\<lambda>p.
            case p of
              None \<Rightarrow> ret None
            | Some base_parent_ino \<Rightarrow>
                bnd (from_base (base_lookup B base_parent_ino name)) (\<lambda>st.
                case st of
                  None \<Rightarrow> ret None
                | Some stats \<Rightarrow>
                    bnd (get_or_create_overlay_ino Base (st_ino stats) path) (\<lambda>ino.
                      ret (Some (renumber ino stats)))))))) v)))"

definition ov_getattr :: "'f base_fs \<Rightarrow> i64 \<Rightarrow> ('l, stats option) ov_oper" where
  "ov_getattr B ino =
    bnd (get_inode_info ino) (\<lambda>i.
      case i of
        None \<Rightarrow> ret None
      | Some info \<Rightarrow>
          bnd (case n_layer info of
                 Delta \<Rightarrow> on_delta (getattr (n_under info))
               | Base \<Rightarrow> from_base (base_getattr B (n_under info)))
            (\<lambda>st. ret (map_option (renumber ino) st)))"

definition ov_readlink :: "'f base_fs \<Rightarrow> i64 \<Rightarrow> ('l, string option) ov_oper" where
  "ov_readlink B ino =
    bnd (get_inode_info ino) (\<lambda>i. bnd (ok_or (Fs NotFound) i) (\<lambda>info.
      case n_layer info of
        Delta \<Rightarrow> on_delta (readlink (n_under info))
      | Base \<Rightarrow> from_base (base_readlink B (n_under info))))"

text \<open>Which entries of a base directory show: no whiteout on the path, none on the name.\<close>

definition base_shows :: "'l overlay \<Rightarrow> string \<Rightarrow> string \<Rightarrow> bool" where
  "base_shows v dir name \<longleftrightarrow>
    \<not> is_whiteout v (child_path dir name) \<and> name \<notin> get_child_whiteouts v dir"

definition ov_readdir ::
  "'f base_fs \<Rightarrow> (string \<Rightarrow> 'k :: linorder) \<Rightarrow> i64 \<Rightarrow> ('l, string list option) ov_oper" where
  "ov_readdir B coll ino =
    bnd (get_inode_info ino) (\<lambda>i. bnd (ok_or (Fs NotFound) i) (\<lambda>info v0.
    (bnd (if n_layer info = Delta then on_delta (readdir coll (n_under info)) else ret None) (\<lambda>ds.
     bnd (base_parent B info) (\<lambda>p.
     bnd (case p of None \<Rightarrow> ret None | Some base_ino \<Rightarrow> from_base (base_readdir B base_ino)) (\<lambda>bs.
       let delta_entries = (case ds of None \<Rightarrow> [] | Some es \<Rightarrow> es);
           base_entries = (case bs of None \<Rightarrow> [] | Some es \<Rightarrow> filter (base_shows v0 (n_path info)) es)
       in ret (Some (sort (remdups (delta_entries @ base_entries))))))) v0)))"

text \<open>The map of \<open>readdir_plus\<close> from names to entries, as a list without repeated names.\<close>

fun put_entry :: "dir_entry \<Rightarrow> dir_entry list \<Rightarrow> dir_entry list" where
  "put_entry e [] = [e]"
| "put_entry e (x # xs) = (if de_name x = de_name e then e # xs else x # put_entry e xs)"

fun list_base_entries :: "string \<Rightarrow> dir_entry list \<Rightarrow> dir_entry list \<Rightarrow> ('l, dir_entry list) ov_oper" where
  "list_base_entries dir [] acc = ret acc"
| "list_base_entries dir (e # es) acc = (\<lambda>v.
    (if base_shows v dir (de_name e) then
       bnd (get_or_create_overlay_ino Base (st_ino (de_stats e)) (child_path dir (de_name e))) (\<lambda>ino.
         list_base_entries dir es (put_entry (e\<lparr>de_stats := renumber ino (de_stats e)\<rparr>) acc))
     else list_base_entries dir es acc) v)"

fun list_delta_entries :: "string \<Rightarrow> dir_entry list \<Rightarrow> dir_entry list \<Rightarrow> ('l, dir_entry list) ov_oper" where
  "list_delta_entries dir [] acc = ret acc"
| "list_delta_entries dir (e # es) acc = (\<lambda>v.
    bnd (case origin_map v (st_ino (de_stats e)) of
           Some base_ino \<Rightarrow> get_or_create_overlay_ino Base base_ino (child_path dir (de_name e))
         | None \<Rightarrow> get_or_create_overlay_ino Delta (st_ino (de_stats e)) (child_path dir (de_name e)))
      (\<lambda>ino. list_delta_entries dir es (put_entry (e\<lparr>de_stats := renumber ino (de_stats e)\<rparr>) acc)) v)"

definition ov_readdir_plus ::
  "'f base_fs \<Rightarrow> (string \<Rightarrow> 'k :: linorder) \<Rightarrow> i64 \<Rightarrow> ('l, dir_entry list option) ov_oper" where
  "ov_readdir_plus B coll ino =
    bnd (get_inode_info ino) (\<lambda>i. bnd (ok_or (Fs NotFound) i) (\<lambda>info.
    bnd (base_parent B info) (\<lambda>p.
    bnd (case p of None \<Rightarrow> ret None | Some base_ino \<Rightarrow> from_base (base_readdir_plus B base_ino)) (\<lambda>bs.
    bnd (list_base_entries (n_path info) (case bs of None \<Rightarrow> [] | Some es \<Rightarrow> es) []) (\<lambda>acc.
    bnd (if n_layer info = Delta then on_delta (readdir_plus coll (n_under info)) else ret None) (\<lambda>ds.
    bnd (list_delta_entries (n_path info) (case ds of None \<Rightarrow> [] | Some es \<Rightarrow> es) acc) (\<lambda>acc.
      ret (Some (sort_key de_name acc)))))))))"

section \<open>Changing nodes\<close>

definition ov_chmod :: "'f base_fs \<Rightarrow> 'l lru_ops \<Rightarrow> nat \<Rightarrow> i64 \<Rightarrow> u32 \<Rightarrow> ('l, unit) ov_oper" where
  "ov_chmod B L cs ino mode =
    bnd (in_delta B L cs ino) (\<lambda>d. timed (\<lambda>now. chmod now d mode))"

definition ov_chown ::
  "'f base_fs \<Rightarrow> 'l lru_ops \<Rightarrow> nat \<Rightarrow> i64 \<Rightarrow> u32 option \<Rightarrow> u32 option \<Rightarrow> ('l, unit) ov_oper" where
  "ov_chown B L cs ino uid gid =
    bnd (in_delta B L cs ino) (\<lambda>d. timed (\<lambda>now. chown now d uid gid))"

definition ov_utimens ::
  "'f base_fs \<Rightarrow> 'l lru_ops \<Rightarrow> nat \<Rightarrow> i64 \<Rightarrow> time_change \<Rightarrow> time_change \<Rightarrow> ('l, unit) ov_oper" where
  "ov_utimens B L cs ino atime mtime =
    bnd (in_delta B L cs ino) (\<lambda>d.
    bnd tick (\<lambda>now_a. bnd tick (\<lambda>now_m. timed (\<lambda>now_c. utimens now_a now_m now_c d atime mtime))))"

definition ov_open :: "'f base_fs \<Rightarrow> 'l lru_ops \<Rightarrow> nat \<Rightarrow> i64 \<Rightarrow> ('l, file_handle) ov_oper" where
  "ov_open B L cs ino = bnd (in_delta B L cs ino) (\<lambda>d. on_delta (fs_open cs d))"

section \<open>Creating nodes\<close>

text \<open>What the creating operations share before they create the node in the delta.\<close>

definition delta_place ::
  "'f base_fs \<Rightarrow> 'l lru_ops \<Rightarrow> inode_info \<Rightarrow> string \<Rightarrow> u32 \<Rightarrow> u32 \<Rightarrow> ('l, i64) ov_oper" where
  "delta_place B L parent_info path uid gid =
    sq (remove_whiteout path)
    (sq (ensure_parent_dirs B L path uid gid) (delta_parent L parent_info))"

definition ov_mkdir ::
  "'f base_fs \<Rightarrow> 'l lru_ops \<Rightarrow> i64 \<Rightarrow> string \<Rightarrow> u32 \<Rightarrow> u32 \<Rightarrow> u32 \<Rightarrow> ('l, stats) ov_oper" where
  "ov_mkdir B L parent_ino name mode uid gid =
    bnd (get_inode_info parent_ino) (\<lambda>i. bnd (ok_or (Fs NotFound) i) (\<lambda>parent_info.
    bnd (build_path parent_ino name) (\<lambda>path.
    bnd (ov_lookup B L parent_ino name) (\<lambda>existing.
    if existing \<noteq> None then throw (Fs AlreadyExists)
    else
      bnd (delta_place B L parent_info path uid gid) (\<lambda>p.
      bnd (timed (\<lambda>now. mkdir L now p name mode uid gid)) (\<lambda>stats.
      bnd (get_or_create_overlay_ino Delta (st_ino stats) path) (\<lambda>ino.
        ret (renumber ino stats))))))))"

definition ov_create_file ::
  "'f base_fs \<Rightarrow> 'l lru_ops \<Rightarrow> nat \<Rightarrow> i64 \<Rightarrow> string \<Rightarrow> u32 \<Rightarrow> u32 \<Rightarrow> u32 \<Rightarrow> ('l, stats \<times> file_handle) ov_oper" where
  "ov_create_file B L cs parent_ino name mode uid gid =
    bnd (get_inode_info parent_ino) (\<lambda>i. bnd (ok_or (Fs NotFound) i) (\<lambda>parent_info.
    bnd (build_path parent_ino name) (\<lambda>path.
    bnd (delta_place B L parent_info path uid gid) (\<lambda>p.
    bnd (timed (\<lambda>now. create_file L cs now p name mode uid gid)) (\<lambda>(stats, file).
    bnd (get_or_create_overlay_ino Delta (st_ino stats) path) (\<lambda>ino.
      ret (renumber ino stats, file)))))))"

definition ov_mknod ::
  "'f base_fs \<Rightarrow> 'l lru_ops \<Rightarrow> i64 \<Rightarrow> string \<Rightarrow> u32 \<Rightarrow> u64 \<Rightarrow> u32 \<Rightarrow> u32 \<Rightarrow> ('l, stats) ov_oper" where
  "ov_mknod B L parent_ino name mode rdev uid gid =
    bnd (get_inode_info parent_ino) (\<lambda>i. bnd (ok_or (Fs NotFound) i) (\<lambda>parent_info.
    bnd (build_path parent_ino name) (\<lambda>path.
    bnd (delta_place B L parent_info path uid gid) (\<lambda>p.
    bnd (timed (\<lambda>now. mknod L now p name mode rdev uid gid)) (\<lambda>stats.
    bnd (get_or_create_overlay_ino Delta (st_ino stats) path) (\<lambda>ino.
      ret (renumber ino stats)))))))"

definition ov_symlink ::
  "'f base_fs \<Rightarrow> 'l lru_ops \<Rightarrow> i64 \<Rightarrow> string \<Rightarrow> string \<Rightarrow> u32 \<Rightarrow> u32 \<Rightarrow> ('l, stats) ov_oper" where
  "ov_symlink B L parent_ino name target uid gid =
    bnd (get_inode_info parent_ino) (\<lambda>i. bnd (ok_or (Fs NotFound) i) (\<lambda>parent_info.
    bnd (build_path parent_ino name) (\<lambda>path.
    bnd (delta_place B L parent_info path uid gid) (\<lambda>p.
    bnd (timed (\<lambda>now. symlink L now p name target uid gid)) (\<lambda>stats.
    bnd (get_or_create_overlay_ino Delta (st_ino stats) path) (\<lambda>ino.
      ret (renumber ino stats)))))))"

section \<open>Removing, linking and renaming\<close>

text \<open>
  The end of \<open>unlink\<close>, \<open>rmdir\<close> and \<open>rename\<close>: a whiteout when the base has the name.
\<close>

definition hide_base :: "'f base_fs \<Rightarrow> inode_info \<Rightarrow> string \<Rightarrow> string \<Rightarrow> ('l, unit) ov_oper" where
  "hide_base B parent_info name path =
    bnd (base_parent B parent_info) (\<lambda>p.
    case p of
      None \<Rightarrow> ret ()
    | Some base_parent_ino \<Rightarrow>
        bnd (from_base (base_lookup B base_parent_ino name)) (\<lambda>st.
          if st \<noteq> None then create_whiteout path else ret ()))"

definition ov_unlink :: "'f base_fs \<Rightarrow> 'l lru_ops \<Rightarrow> i64 \<Rightarrow> string \<Rightarrow> ('l, unit) ov_oper" where
  "ov_unlink B L parent_ino name =
    bnd (get_inode_info parent_ino) (\<lambda>i. bnd (ok_or (Fs NotFound) i) (\<lambda>parent_info.
    bnd (build_path parent_ino name) (\<lambda>path.
    bnd (ov_lookup B L parent_ino name) (\<lambda>s. bnd (ok_or (Fs NotFound) s) (\<lambda>stats.
    if is_directory stats then throw (Fs IsADirectory)
    else
      sq (if n_layer parent_info = Delta
          then bnd (try_op (timed (\<lambda>now. unlink L now (n_under parent_info) name))) (\<lambda>_. ret ())
          else ret ())
         (hide_base B parent_info name path))))))"

definition ov_rmdir ::
  "'f base_fs \<Rightarrow> 'l lru_ops \<Rightarrow> (string \<Rightarrow> 'k :: linorder) \<Rightarrow> i64 \<Rightarrow> string \<Rightarrow> ('l, unit) ov_oper" where
  "ov_rmdir B L coll parent_ino name =
    bnd (get_inode_info parent_ino) (\<lambda>i. bnd (ok_or (Fs NotFound) i) (\<lambda>parent_info.
    bnd (build_path parent_ino name) (\<lambda>path.
    bnd (ov_lookup B L parent_ino name) (\<lambda>s. bnd (ok_or (Fs NotFound) s) (\<lambda>stats.
    if \<not> is_directory stats then throw (Fs NotADirectory)
    else
      bnd (ov_readdir B coll (st_ino stats)) (\<lambda>entries.
      if (case entries of None \<Rightarrow> [] | Some es \<Rightarrow> es) \<noteq> [] then throw (Fs NotEmpty)
      else
        sq (if n_layer parent_info = Delta
            then bnd (try_op (timed (\<lambda>now. rmdir L now (n_under parent_info) name))) (\<lambda>_. ret ())
            else ret ())
           (hide_base B parent_info name path)))))))"

definition ov_link :: "'f base_fs \<Rightarrow> 'l lru_ops \<Rightarrow> nat \<Rightarrow> i64 \<Rightarrow> i64 \<Rightarrow> string \<Rightarrow> ('l, stats) ov_oper" where
  "ov_link B L cs ino newparent_ino newname =
    bnd (get_inode_info ino) (\<lambda>i. bnd (ok_or (Fs NotFound) i) (\<lambda>info.
    bnd (get_inode_info newparent_ino) (\<lambda>i. bnd (ok_or (Fs NotFound) i) (\<lambda>parent_info.
    bnd (build_path newparent_ino newname) (\<lambda>new_path.
    bnd (if n_layer info = Delta then ret (n_under info)
         else copy_up B L cs (n_path info) (n_under info)) (\<lambda>delta_ino.
    bnd (delta_place B L parent_info new_path 0 0) (\<lambda>p.
    bnd (timed (\<lambda>now. link L now delta_ino p newname)) (\<lambda>stats.
      ret (renumber ino stats)))))))))"

definition ov_rename ::
  "'f base_fs \<Rightarrow> 'l lru_ops \<Rightarrow> nat \<Rightarrow> i64 \<Rightarrow> string \<Rightarrow> i64 \<Rightarrow> string \<Rightarrow> ('l, unit) ov_oper" where
  "ov_rename B L cs oldparent_ino oldname newparent_ino newname =
    bnd (get_inode_info oldparent_ino) (\<lambda>i. bnd (ok_or (Fs NotFound) i) (\<lambda>old_parent_info.
    bnd (get_inode_info newparent_ino) (\<lambda>i. bnd (ok_or (Fs NotFound) i) (\<lambda>new_parent_info.
    bnd (build_path oldparent_ino oldname) (\<lambda>old_path.
    bnd (build_path newparent_ino newname) (\<lambda>new_path.
    bnd (ov_lookup B L oldparent_ino oldname) (\<lambda>s. bnd (ok_or (Fs NotFound) s) (\<lambda>src_stats.
    bnd (get_inode_info (st_ino src_stats)) (\<lambda>i. bnd (ok_or (Fs NotFound) i) (\<lambda>src_info.
    bnd (delta_parent L old_parent_info) (\<lambda>delta_src_parent_ino.
    sq (if n_layer src_info = Base
        then bnd (copy_up B L cs old_path (n_under src_info)) (\<lambda>_. ret ()) else ret ())
    (bnd (delta_place B L new_parent_info new_path 0 0) (\<lambda>delta_dst_parent_ino.
     sq (bnd tick (\<lambda>now1. timed (\<lambda>now2.
           rename L now1 now2 delta_src_parent_ino oldname delta_dst_parent_ino newname)))
        (hide_base B old_parent_info oldname old_path))))))))))))))"

definition ov_statfs :: "pg_column driver \<Rightarrow> ('l, filesystem_stats) ov_oper" where
  "ov_statfs D = on_delta (statfs D)"

end
