(* ===== verification/Overlay_Theorems.thy ===== *)
theory Overlay_Theorems
  imports Overlay
begin

text \<open>
  The properties of the overlay: a lookup answers with the union of the two layers, removing a
  name hides it in both, and the first opening of a base file copies it up byte for byte.
\<close>

section \<open>The base layer\<close>

text \<open>
  What the properties ask of the base: looking a name up succeeds (it finds the name or finds
  nothing; a base whose lookups fail with an error, as those of a host directory can, is outside of
  them), and the attributes of a node are those the lookup reported.
\<close>

locale base_layer =
  fixes B :: "'f base_fs"
  assumes lookup_total: "\<exists>st. base_lookup B p n = Inr st"
    and getattr_lookup: "base_lookup B p n = Inr (Some s) \<Longrightarrow> base_getattr B (st_ino s) = Inr (Some s)"

definition base_dir :: "'f base_fs \<Rightarrow> slot \<Rightarrow> i64 option" where
  "base_dir B k = (case base_lookup B (fst k) (snd k) of Inr (Some s) \<Rightarrow> Some (st_ino s) | _ \<Rightarrow> None)"

text \<open>The node an entry of the tables names.\<close>

definition node :: "tables \<Rightarrow> slot \<Rightarrow> stats option" where
  "node t k = (case dir_map t k of None \<Rightarrow> None | Some i \<Rightarrow> map_option build_stats_from_row (ino_map t i))"

text \<open>A SecAFS whose tables do not change is such a base.\<close>

definition frozen :: "nat \<Rightarrow> tables \<Rightarrow> i64 base_fs" where
  "frozen cs t =
    \<lparr>base_lookup = (\<lambda>p n. Inr (node t (p, n))),
     base_getattr = (\<lambda>i. Inr (map_option build_stats_from_row (ino_map t i))),
     base_readlink = (\<lambda>i. Inr (map_option l_target (look l_ino (fs_symlink t) i))),
     base_readdir = (\<lambda>i. Inr (Some (map d_name (filter (\<lambda>d. d_parent d = i) (fs_dentry t))))),
     base_readdir_plus = (\<lambda>i. Inr None),
     base_open = (\<lambda>i. Inr i),
     base_pread = (\<lambda>i off n. Inr (a_read off n (contents cs t i)))\<rparr>"

lemma st_ino_row: "ino_map t i = Some r \<Longrightarrow> st_ino (build_stats_from_row r) = i"
  by (auto simp: ino_map_def build_stats_from_row_def)

lemma node_ino: "node t k = Some s \<Longrightarrow> dir_map t k = Some (st_ino s)"
  by (auto simp: node_def st_ino_row split: option.splits)

lemma node_None:
  assumes "ns_inv c"
  shows "node (tabs c) k = None \<longleftrightarrow> dir_map (tabs c) k = None"
proof (cases "dir_map (tabs c) k")
  case (Some i)
  then have "ino_map (tabs c) i \<noteq> None" by (rule dir_map_inode [OF assms])
  then show ?thesis using Some by (simp add: node_def)
qed (simp add: node_def)

interpretation frozen: base_layer "frozen cs t" for cs t
proof
  show "\<exists>st. base_lookup (frozen cs t) p n = Inr st" for p n by (simp add: frozen_def)
  show "base_getattr (frozen cs t) (st_ino s) = Inr (Some s)"
    if "base_lookup (frozen cs t) p n = Inr (Some s)" for p n s
    using that by (auto simp: frozen_def node_def st_ino_row split: option.splits)
qed

section \<open>The union of the layers\<close>

definition fs_name :: "string \<Rightarrow> bool" where
  "fs_name w \<longleftrightarrow> word_ok w \<and> w \<noteq> ''..'' \<and> length w \<le> MAX_NAME_LEN"

text \<open>What a name in the directory with the path \<open>ws\<close> means.\<close>

definition delta_node :: "tables \<Rightarrow> string list \<Rightarrow> string \<Rightarrow> stats option" where
  "delta_node t ws n = (case walk (dir_map t) 1 ws of None \<Rightarrow> None | Some p \<Rightarrow> node t (p, n))"

definition base_node :: "'f base_fs \<Rightarrow> string list \<Rightarrow> string \<Rightarrow> stats option" where
  "base_node B ws n =
    (case walk (base_dir B) 1 ws of
       None \<Rightarrow> None
     | Some p \<Rightarrow> (case base_lookup B p n of Inl e \<Rightarrow> None | Inr st \<Rightarrow> st))"

definition union_node :: "'f base_fs \<Rightarrow> 'l overlay \<Rightarrow> string list \<Rightarrow> string \<Rightarrow> stats option" where
  "union_node B v ws n =
    (if whited (whiteouts v) [] (ws @ [n]) then None
     else case delta_node (tabs (delta v)) ws n of Some s \<Rightarrow> Some s | None \<Rightarrow> base_node B ws n)"

text \<open>
  The union in the order of the section \<open>Overlay Lookup Semantics\<close> of \<open>SPEC.md\<close>, which takes the
  entry of the delta before it looks for a whiteout.
\<close>

definition spec_node :: "'f base_fs \<Rightarrow> 'l overlay \<Rightarrow> string list \<Rightarrow> string \<Rightarrow> stats option" where
  "spec_node B v ws n =
    (case delta_node (tabs (delta v)) ws n of
       Some s \<Rightarrow> Some s
     | None \<Rightarrow> if whited (whiteouts v) [] (ws @ [n]) then None else base_node B ws n)"

lemma union_is_spec:
  "\<not> (whited (whiteouts v) [] (ws @ [n]) \<and> delta_node (tabs (delta v)) ws n \<noteq> None) \<Longrightarrow>
    union_node B v ws n = spec_node B v ws n"
  by (auto simp: union_node_def spec_node_def split: option.split)

text \<open>The entry of the inode map for the directory with the path \<open>ws\<close> points at that directory.\<close>

definition placed :: "'f base_fs \<Rightarrow> 'l overlay \<Rightarrow> inode_info \<Rightarrow> string list \<Rightarrow> bool" where
  "placed B v info ws \<longleftrightarrow>
    n_path info = canonical ws \<and> (\<forall>w \<in> set ws. fs_name w) \<and>
    (case n_layer info of
       Delta \<Rightarrow> walk (dir_map (tabs (delta v))) 1 ws = Some (n_under info)
     | Base \<Rightarrow> walk (base_dir B) 1 ws = Some (n_under info))"

lemma placed_words:
  assumes "placed B v info ws" and "fs_name n"
  shows "path_words (n_path info) = ws" "child_path (n_path info) n = canonical (ws @ [n])"
    "path_words (canonical (ws @ [n])) = ws @ [n]"
proof -
  have ok: "\<forall>w \<in> set ws. word_ok w" "\<forall>w \<in> set (ws @ [n]). word_ok w"
    using assms by (auto simp: placed_def fs_name_def)
  show "path_words (n_path info) = ws" "path_words (canonical (ws @ [n])) = ws @ [n]"
    using assms(1) path_words_join [OF ok(1)] path_words_join [OF ok(2)]
    by (simp_all add: placed_def canonical_def)
  have "canonical ws = ''/'' \<longleftrightarrow> ws = []"
    using join_slash_eq_Nil [OF ok(1)] by (simp add: canonical_def)
  then show "child_path (n_path info) n = canonical (ws @ [n])"
    using assms(1) by (auto simp: placed_def child_path_def canonical_def join_slash_append)
qed

section \<open>Running the delta and the base\<close>

lemma on_delta_run [simp]: "m (delta v) = (r, d) \<Longrightarrow> on_delta m v = (r, v\<lparr>delta := d\<rparr>)"
  by (simp add: on_delta_def)

lemma from_base_run [simp]: "from_base r v = (r, v)"
  by (simp add: from_base_def)

lemma modify_run [simp]: "modify f v = (Inr (), f v)"
  by (simp add: modify_def)

lemma get_inode_info_run [simp]: "get_inode_info i v = (Inr (inode_map v i), v)"
  by (simp add: get_inode_info_def)

lemma build_path_run [simp]:
  "inode_map v i = Some info \<Longrightarrow> build_path i n v = (Inr (child_path (n_path info) n), v)"
  by (simp add: build_path_def)

abbreviation recache :: "'l \<Rightarrow> 'l overlay \<Rightarrow> 'l overlay" where
  "recache l v \<equiv> v\<lparr>delta := (delta v)\<lparr>dcache := l\<rparr>\<rparr>"

context lru_cache
begin

lemma lookup_good:
  fixes c :: "'l fs_state"
  assumes good: "fs_good view c" and n: "n \<noteq> ''..''" "length n \<le> MAX_NAME_LEN"
  shows "\<exists>l. lookup L p n c = (Inr (node (tabs c) (p, n)), c\<lparr>dcache := l\<rparr>) \<and> fs_good view (c\<lparr>dcache := l\<rparr>)"
proof -
  note g = fs_goodD [OF good]
  show ?thesis
  proof (cases "dir_map (tabs c) (p, n)")
    case None
    then have "lookup L p n c = (Inr (node (tabs c) (p, n)), c\<lparr>dcache := dcache c\<rparr>)"
      using n g(1) ns_invD(2) [OF g(3)] by (simp add: lookup_def run node_def)
    then show ?thesis using good by (intro exI [of _ "dcache c"]) simp
  next
    case (Some i)
    obtain r where "ino_map (tabs c) i = Some r" using named_inode [OF g(3) Some] by auto
    then have "lookup L p n c = (Inr (node (tabs c) (p, n)), c\<lparr>dcache := lru_put L (p, n) i (dcache c)\<rparr>)"
      using Some n g(1) ns_invD(2) [OF g(3)] by (simp add: lookup_def run node_def)
    with exec_lookup_good [OF good, of p n] show ?thesis by auto
  qed
qed

lemma walk_delta_good:
  fixes v :: "'l overlay"
  assumes "fs_good view (delta v)" and "\<forall>w \<in> set ws. fs_name w"
  shows "\<exists>l. walk_delta L ws i v = (Inr (walk (dir_map (tabs (delta v))) i ws), recache l v) \<and>
    fs_good view ((delta v)\<lparr>dcache := l\<rparr>)"
  using assms
proof (induction ws arbitrary: i v)
  case Nil
  then show ?case by (intro exI [of _ "dcache (delta v)"]) simp
next
  case (Cons w ws)
  obtain l where l: "lookup L i w (delta v) = (Inr (node (tabs (delta v)) (i, w)), (delta v)\<lparr>dcache := l\<rparr>)"
    "fs_good view ((delta v)\<lparr>dcache := l\<rparr>)"
    using lookup_good [OF Cons.prems(1), of w i] Cons.prems(2) by (auto simp: fs_name_def)
  note miss = node_None [OF fs_goodD(3) [OF Cons.prems(1)]]
  show ?case
  proof (cases "node (tabs (delta v)) (i, w)")
    case None
    then have "dir_map (tabs (delta v)) (i, w) = None" by (simp only: miss)
    then show ?thesis using l None by (intro exI [of _ l]) simp
  next
    case (Some s)
    from Cons.IH [of "recache l v" "st_ino s"] l(2) Cons.prems(2) obtain l' where
      "walk_delta L ws (st_ino s) (recache l v) = (Inr (walk (dir_map (tabs (delta v))) (st_ino s) ws), recache l' v)"
      "fs_good view ((delta v)\<lparr>dcache := l'\<rparr>)" by auto
    then show ?thesis using l(1) Some node_ino [OF Some] by (intro exI [of _ l']) simp
  qed
qed

end

context base_layer
begin

lemma lookup_no_error [simp]: "base_lookup B p n \<noteq> Inl e"
  using lookup_total [of p n] by auto

lemma walk_base_run: "walk_base B ws i v = (Inr (walk (base_dir B) i ws), v)"
proof (induction ws arbitrary: i)
  case (Cons w ws)
  obtain st where "base_lookup B i w = Inr st" using lookup_total by blast
  then show ?case by (cases st) (simp_all add: base_dir_def Cons.IH)
qed simp

lemma base_parent_run:
  "placed B v info ws \<Longrightarrow> base_parent B info u = (Inr (walk (base_dir B) 1 ws), u)"
  using placed_words(1) [of B v info ws "''a''"]
  by (auto simp: base_parent_def walk_base_run placed_def fs_name_def word_ok_def MAX_NAME_LEN_def
      split: layer.splits)

end

section \<open>Lookup is the union\<close>

text \<open>Overlay inode numbers in use are below the next one.\<close>

definition numbered :: "'l overlay \<Rightarrow> bool" where
  "numbered v \<longleftrightarrow> (\<forall>i. inode_map v i \<noteq> None \<longrightarrow> i < next_ino v)"

text \<open>
  What a reading operation leaves alone: the tables, the whiteouts, the clock and the overlay
  inodes that exist; only the entry cache moves and inode numbers are added.
\<close>

definition read_only :: "('l \<Rightarrow> slot \<rightharpoonup> i64) \<Rightarrow> 'l overlay \<Rightarrow> 'l overlay \<Rightarrow> bool" where
  "read_only view v v' \<longleftrightarrow>
    fs_good view (delta v') \<and> tabs (delta v') = tabs (delta v) \<and> whiteouts v' = whiteouts v \<and>
    readings v' = readings v \<and> (numbered v \<longrightarrow> numbered v' \<and> inode_map v \<subseteq>\<^sub>m inode_map v')"

lemma read_only_trans: "read_only view v v' \<Longrightarrow> read_only view v' v'' \<Longrightarrow> read_only view v v''"
  by (auto simp: read_only_def intro: map_le_trans)

lemma read_only_recache: "fs_good view ((delta v)\<lparr>dcache := l\<rparr>) \<Longrightarrow> read_only view v (recache l v)"
  by (simp add: read_only_def numbered_def)

lemma get_or_create_run:
  assumes "fs_good view (delta v)"
  obtains ino v' where "get_or_create_overlay_ino layer u path v = (Inr ino, v')" and "read_only view v v'"
    and "origin_map v' = origin_map v"
proof (cases "reverse_map v (layer, u)")
  case None
  have "inode_map v \<subseteq>\<^sub>m (inode_map v)(next_ino v \<mapsto> x)" if "numbered v" for x
    using that by (auto simp: map_le_def numbered_def)
  moreover have "numbered v \<Longrightarrow> \<forall>i. i \<noteq> next_ino v \<longrightarrow> (\<exists>y. inode_map v i = Some y) \<longrightarrow> i < next_ino v + 1"
    unfolding numbered_def by fastforce
  ultimately show ?thesis
    using None assms that by (simp add: get_or_create_overlay_ino_def Let_def read_only_def numbered_def)
qed (use assms that in \<open>auto simp: get_or_create_overlay_ino_def read_only_def\<close>)

lemma renumber_renumber [simp]: "renumber i (renumber j s) = renumber i s"
  by (simp add: renumber_def)

lemma is_directory_renumber [simp]: "is_directory (renumber i s) = is_directory s"
  by (simp add: is_directory_def renumber_def)

text \<open>A SecAFS above a base.\<close>

locale layers = lru_cache L view + base_layer B
  for L :: "'l lru_ops" and view :: "'l \<Rightarrow> slot \<rightharpoonup> i64" and B :: "'f base_fs"
begin

lemma delta_lookup:
  fixes v :: "'l overlay"
  assumes good: "fs_good view (delta v)" and pl: "placed B v info ws" and n: "fs_name n"
  obtains q v1 l where
    "(if n_layer info = Delta then ret (Some (n_under info))
      else walk_delta L (path_words (n_path info)) 1) v = (Inr q, v1)"
    and "(case q of None \<Rightarrow> ret None | Some p \<Rightarrow> on_delta (lookup L p n)) v1 =
      (Inr (delta_node (tabs (delta v)) ws n), recache l v)"
    and "fs_good view ((delta v)\<lparr>dcache := l\<rparr>)"
proof -
  let ?m = "dir_map (tabs (delta v))"
  have ws: "\<forall>w \<in> set ws. fs_name w" using pl by (simp add: placed_def)
  obtain l1 where l1: "(if n_layer info = Delta then ret (Some (n_under info))
          else walk_delta L (path_words (n_path info)) 1) v = (Inr (walk ?m 1 ws), recache l1 v)"
    "fs_good view ((delta v)\<lparr>dcache := l1\<rparr>)"
  proof (cases "n_layer info")
    case Delta
    then show ?thesis using that [of "dcache (delta v)"] good pl by (simp add: placed_def)
  next
    case Base
    then show ?thesis using that walk_delta_good [OF good ws, of 1] placed_words(1) [OF pl n] by auto
  qed
  show ?thesis
  proof (cases "walk ?m 1 ws")
    case None
    then show ?thesis by (intro that [OF l1(1) _ l1(2)]) (simp add: delta_node_def)
  next
    case (Some p)
    obtain l2 where "lookup L p n ((delta v)\<lparr>dcache := l1\<rparr>) =
        (Inr (node (tabs (delta v)) (p, n)), (delta v)\<lparr>dcache := l2\<rparr>)" "fs_good view ((delta v)\<lparr>dcache := l2\<rparr>)"
      using lookup_good [OF l1(2), of n p] n by (auto simp: fs_name_def)
    then show ?thesis using Some by (intro that [OF l1(1), of l2]) (simp_all add: delta_node_def)
  qed
qed

text \<open>A node of one layer under its overlay number.\<close>

lemma found_run:
  fixes v :: "'l overlay"
  assumes good: "fs_good view (delta v)"
  obtains r v' where
    "bnd (get_or_create_overlay_ino layer u path) (\<lambda>ino. ret (Some (renumber ino s))) v = (Inr (Some r), v')"
    and "renumber 0 r = renumber 0 s" and "read_only view v v'"
proof -
  obtain ino v' where g: "get_or_create_overlay_ino layer u path v = (Inr ino, v')" and ro: "read_only view v v'"
    by (rule get_or_create_run [OF good])
  show ?thesis by (rule that [of "renumber ino s" v']) (simp_all add: g ro)
qed

lemma ov_lookup_run:
  fixes v :: "'l overlay"
  assumes good: "fs_good view (delta v)" and info: "inode_map v p = Some info"
    and pl: "placed B v info ws" and n: "fs_name n"
  obtains r v' where "ov_lookup B L p n v = (Inr r, v')" and "read_only view v v'"
    and "map_option (renumber 0) r = map_option (renumber 0) (union_node B v ws n)"
proof -
  let ?path = "canonical (ws @ [n])" and ?dn = "delta_node (tabs (delta v)) ws n"
  note w = placed_words [OF pl n]
  obtain q v1 l where l: "(if n_layer info = Delta then ret (Some (n_under info))
      else walk_delta L (path_words (n_path info)) 1) v = (Inr q, v1)"
    "(case q of None \<Rightarrow> ret None | Some p \<Rightarrow> on_delta (lookup L p n)) v1 = (Inr ?dn, recache l v)"
    and gl: "fs_good view ((delta v)\<lparr>dcache := l\<rparr>)"
    by (rule delta_lookup [OF good pl n])
  have gr: "fs_good view (delta (recache l v))" using gl by simp
  note ro = read_only_recache [OF gl]
  consider (white) "is_whiteout v ?path" | (delta) s where "\<not> is_whiteout v ?path" "?dn = Some s"
    | (base) "\<not> is_whiteout v ?path" "?dn = None" by blast
  then show ?thesis
  proof cases
    case white
    then show ?thesis
      using that [of None v] info w good by (simp add: ov_lookup_def is_whiteout_def union_node_def read_only_def)
  next
    case (delta s)
    obtain ino v2 where g: "get_or_create_overlay_ino Delta (st_ino s) ?path (recache l v) = (Inr ino, v2)"
      "read_only view (recache l v) v2" "origin_map v2 = origin_map (recache l v)"
      by (rule get_or_create_run [OF gr])
    have g2: "fs_good view (delta v2)" using g(2) by (simp add: read_only_def)
    have start: "ov_lookup B L p n v =
      (case origin_map v2 (st_ino s) of
         Some b \<Rightarrow> bnd (get_or_create_overlay_ino Base b ?path) (\<lambda>ino. ret (Some (renumber ino s)))
       | None \<Rightarrow> ret (Some (renumber ino s))) v2"
      using delta info l g(1) w(2) by (simp add: ov_lookup_def)
    have u: "union_node B v ws n = Some s" using delta w by (simp add: union_node_def is_whiteout_def)
    note ro2 = read_only_trans [OF ro g(2)]
    show ?thesis
    proof (cases "origin_map v2 (st_ino s)")
      case None
      then show ?thesis using that [OF _ ro2] start u by simp
    next
      case (Some b)
      obtain r v3 where "bnd (get_or_create_overlay_ino Base b ?path) (\<lambda>ino. ret (Some (renumber ino s))) v2 = (Inr (Some r), v3)"
        "renumber 0 r = renumber 0 s" and ro3: "read_only view v2 v3"
        by (rule found_run [OF g2])
      then show ?thesis using that [OF _ read_only_trans [OF ro2 ro3]] Some start u by simp
    qed
  next
    case base
    have start: "ov_lookup B L p n v =
      (case walk (base_dir B) 1 ws of None \<Rightarrow> ret None | Some bp \<Rightarrow>
         bnd (from_base (base_lookup B bp n)) (\<lambda>st. case st of None \<Rightarrow> ret None
           | Some s \<Rightarrow> bnd (get_or_create_overlay_ino Base (st_ino s) ?path) (\<lambda>ino. ret (Some (renumber ino s))))) (recache l v)"
      using base info l w(2) by (simp add: ov_lookup_def base_parent_run [OF pl])
    have u: "union_node B v ws n = base_node B ws n" using base w by (simp add: union_node_def is_whiteout_def)
    show ?thesis
    proof (cases "base_node B ws n")
      case None
      then have "ov_lookup B L p n v = (Inr None, recache l v)"
        using start by (auto simp: base_node_def split: option.splits sum.splits)
      then show ?thesis using that [OF _ ro] u None by simp
    next
      case (Some s)
      then have "ov_lookup B L p n v =
          bnd (get_or_create_overlay_ino Base (st_ino s) ?path) (\<lambda>ino. ret (Some (renumber ino s))) (recache l v)"
        using start by (auto simp: base_node_def split: option.splits sum.splits)
      moreover obtain r v3 where "bnd (get_or_create_overlay_ino Base (st_ino s) ?path)
          (\<lambda>ino. ret (Some (renumber ino s))) (recache l v) = (Inr (Some r), v3)"
        "renumber 0 r = renumber 0 s" and ro3: "read_only view (recache l v) v3"
        by (rule found_run [OF gr])
      ultimately show ?thesis using that [OF _ read_only_trans [OF ro ro3]] Some u by simp
    qed
  qed
qed

end

context layers
begin

text \<open>Removing an entry of a file does not cut the way to a directory.\<close>

lemma walk_without_file:
  assumes dirs: "\<And>k j. m k = Some j \<Longrightarrow> D (fst k)" and f: "m k = Some i" "\<not> D i" and q: "D q"
  shows "walk m a ws = Some q \<Longrightarrow> walk (m(k := None)) a ws = Some q"
proof (induction ws arbitrary: a)
  case (Cons w ws)
  then obtain j where j: "m (a, w) = Some j" "walk m j ws = Some q" by (auto split: option.splits)
  have "(a, w) \<noteq> k"
  proof
    assume "(a, w) = k"
    then have "j = i" using j(1) f(1) by simp
    then have "\<not> D j" using f(2) by simp
    moreover have "D j" using j(2) q dirs by (cases ws) (fastforce split: option.splits)+
    ultimately show False by simp
  qed
  then show ?case using j Cons.IH [OF j(2)] by simp
qed simp

lemma unlink_delta:
  fixes c :: "'l fs_state"
  assumes good: "fs_good view c" and n: "fs_name n"
    and nd: "\<And>s. node (tabs c) (p, n) = Some s \<Longrightarrow> \<not> is_directory s"
    and few: "length (fs_dentry (tabs c)) < 2 ^ 32"
  obtains r c' where "unlink L (Some now) p n c = (r, c')" and "fs_good view c'"
    and "dir_map (tabs c') = (dir_map (tabs c))((p, n) := None)"
proof -
  note g = fs_goodD [OF good]
  obtain s ns where now: "now = (s, ns)" by fastforce
  have good': "fs_good view (snd (unlink L (Some now) p n c))" by (rule exec_unlink_good [OF good few])
  have "dir_map (tabs (snd (unlink L (Some now) p n c))) = (dir_map (tabs c))((p, n) := None)"
  proof (cases "dir_map (tabs c) (p, n)")
    case None
    then show ?thesis using unlink_refused [OF g(1,3), of n p L "Some now"] by (simp add: fun_upd_idem)
  next
    case (Some i)
    obtain r pr where r: "ino_map (tabs c) i = Some r" and pr: "ino_map (tabs c) p = Some pr" "is_dir pr"
      using named_inode [OF g(3) Some] by auto
    have nr: "\<not> is_dir r" using nd Some r by (simp add: node_def)
    obtain c' where "unlink L (Some (s, ns)) p n c = (Inr (), c')"
      and D: "fs_dentry (tabs c') = filter (\<lambda>d. d_slot d \<noteq> (p, n)) (fs_dentry (tabs c))"
      by (rule unlink_ready [OF g(1,3) _ Some r nr pr few, where L = L and s = s and ns = ns])
        (use n in \<open>auto simp: fs_name_def\<close>)
    moreover have "dir_map (tabs c') = (dir_map (tabs c))((p, n) := None)"
      by (rule dir_map_delete [OF ns_invD(2) [OF g(3)] D])
    ultimately show ?thesis using now by simp
  qed
  with good' show ?thesis using that by (metis prod.collapse)
qed

end

section \<open>Whiteouts\<close>

definition clock_runs :: "'l overlay \<Rightarrow> bool" where
  "clock_runs v \<longleftrightarrow> (\<forall>k. readings v k \<noteq> None)"

lemma tick_run:
  assumes "clock_runs v"
  obtains now where "tick v = (Inr (Some now), v\<lparr>ticks := ticks v + 1\<rparr>)"
proof -
  have "readings v (ticks v) \<noteq> None" using assms unfolding clock_runs_def by blast
  then obtain now where "readings v (ticks v) = Some now" by blast
  then show ?thesis using that by (simp add: tick_def)
qed

text \<open>The tables of the overlay do not concern the filesystem.\<close>

lemma fs_good_tabs:
  assumes "fs_good view c" and "fs_inode t = fs_inode (tabs c)" "fs_dentry t = fs_dentry (tabs c)"
    "fs_data t = fs_data (tabs c)" "fs_symlink t = fs_symlink (tabs c)"
  shows "fs_good view (c\<lparr>tabs := t\<rparr>)"
  using fs_goodD(2) [OF assms(1)] assms
  by (simp add: fs_good_def ns_inv_def keys_ok_def below_serials_def ino_map_def dirs_clean_def
      cache_coherent_def committed_def dir_map_def)

lemma dir_map_cong: "fs_dentry t = fs_dentry t' \<Longrightarrow> dir_map t = dir_map t'"
  by (intro ext) (simp add: dir_map_def)

lemma ino_map_cong: "fs_inode t = fs_inode t' \<Longrightarrow> ino_map t = ino_map t'"
  by (simp add: ino_map_def)

lemma whited_full: "ws \<noteq> [] \<Longrightarrow> cur @ slash # join_slash ws \<in> W \<Longrightarrow> whited W cur ws"
proof (induction ws arbitrary: cur rule: join_slash.induct)
  case (3 w x ws)
  then show ?case using "3.IH" [of "cur @ slash # w"] by (simp add: Let_def)
qed (auto simp: Let_def)

text \<open>
  \<open>moved view v v'\<close>: the overlay after an operation that changed the delta or the whiteouts; it
  is still in order and knows the overlay inodes it knew.
\<close>

definition in_order :: "('l \<Rightarrow> slot \<rightharpoonup> i64) \<Rightarrow> 'l overlay \<Rightarrow> bool" where
  "in_order view v \<longleftrightarrow> fs_good view (delta v) \<and> clock_runs v \<and> numbered v"

lemma in_orderD:
  assumes "in_order view v"
  shows "fs_good view (delta v)" "clock_runs v" "numbered v"
  using assms by (simp_all add: in_order_def)

lemma read_only_in_order:
  "in_order view v \<Longrightarrow> read_only view v v' \<Longrightarrow> in_order view v' \<and> inode_map v \<subseteq>\<^sub>m inode_map v'"
  by (simp add: in_order_def read_only_def clock_runs_def)

lemma create_whiteout_run:
  assumes ok: "in_order view v"
  obtains v' where "create_whiteout path v = (Inr (), v')" and "in_order view v'"
    and "whiteouts v' = insert path (whiteouts v)" and "inode_map v' = inode_map v"
    and "dir_map (tabs (delta v')) = dir_map (tabs (delta v))"
    and "ino_map (tabs (delta v')) = ino_map (tabs (delta v))"
proof -
  note o = in_orderD [OF ok]
  have rd: "ready (delta v)" by (rule fs_goodD [OF o(1)])
  obtain s ns where t: "tick v = (Inr (Some (s, ns)), v\<lparr>ticks := ticks v + 1\<rparr>)"
    by (rule tick_run [OF o(2)]) auto
  let ?d = "(delta v)\<lparr>tabs := fs_whiteout_update (put_pair path s) (tabs (delta v))\<rparr>"
  have "fs_good view ?d" by (rule fs_good_tabs [OF o(1)]) simp_all
  then have "in_order view (v\<lparr>ticks := ticks v + 1, delta := ?d, whiteouts := insert path (whiteouts v)\<rparr>)"
    using o by (simp add: in_order_def clock_runs_def numbered_def)
  moreover have "create_whiteout path v =
      (Inr (), v\<lparr>ticks := ticks v + 1, delta := ?d, whiteouts := insert path (whiteouts v)\<rparr>)"
    using rd t by (simp add: create_whiteout_def upsert_whiteout_def run)
  moreover have "dir_map (tabs ?d) = dir_map (tabs (delta v))" by (rule dir_map_cong) simp
  moreover have "ino_map (tabs ?d) = ino_map (tabs (delta v))" by (rule ino_map_cong) simp
  ultimately show ?thesis using that by simp
qed

context layers
begin

lemma ov_unlink_run:
  fixes v :: "'l overlay"
  assumes ok: "in_order view v" and info: "inode_map v p = Some info" "n_layer info = Delta"
    and pl: "placed B v info ws" and n: "fs_name n"
    and s: "union_node B v ws n = Some s" "\<not> is_directory s"
    and few: "length (fs_dentry (tabs (delta v))) < 2 ^ 32"
  obtains v' where "ov_unlink B L p n v = (Inr (), v')" and "in_order view v'"
    and "inode_map v' p = Some info" and "placed B v' info ws" and "union_node B v' ws n = None"
proof -
  let ?t = "tabs (delta v)" and ?path = "canonical (ws @ [n])" and ?u = "n_under info"
  note o = in_orderD [OF ok] and w = placed_words [OF pl n]
  have wk: "walk (dir_map ?t) 1 ws = Some ?u" using pl info(2) by (simp add: placed_def)
  have nw: "\<not> whited (whiteouts v) [] (ws @ [n])" using s(1) by (auto simp: union_node_def)
  obtain r v1 where l: "ov_lookup B L p n v = (Inr r, v1)" "read_only view v v1"
    "map_option (renumber 0) r = map_option (renumber 0) (union_node B v ws n)"
    by (rule ov_lookup_run [OF o(1) info(1) pl n])
  obtain st where st: "r = Some st" "renumber 0 st = renumber 0 s" using l(3) s(1) by auto
  have nd: "\<not> is_directory st" using st(2) s(2) is_directory_renumber [of 0 st] by simp
  have o1: "in_order view v1" "inode_map v \<subseteq>\<^sub>m inode_map v1" using read_only_in_order [OF ok l(2)] by simp_all
  have t1: "tabs (delta v1) = ?t" "whiteouts v1 = whiteouts v" using l(2) by (simp_all add: read_only_def)
  have i1: "inode_map v1 p = Some info" using o1(2) info(1) by (auto simp: map_le_def dom_def) 
  obtain now where tm: "tick v1 = (Inr (Some now), v1\<lparr>ticks := ticks v1 + 1\<rparr>)"
    by (rule tick_run [OF in_orderD(2) [OF o1(1)]])
  have plain: "\<not> is_directory x" if "node ?t (?u, n) = Some x" for x
    using that s nw wk by (simp add: union_node_def delta_node_def)
  then obtain q d where d: "unlink L (Some now) ?u n (delta v1) = (q, d)" "fs_good view d"
    "dir_map (tabs d) = (dir_map ?t)((?u, n) := None)"
    using unlink_delta [OF in_orderD(1) [OF o1(1)] n, of ?u now] t1(1) few by metis
  let ?v2 = "v1\<lparr>ticks := ticks v1 + 1, delta := d\<rparr>"
  have run1: "ov_unlink B L p n v = hide_base B info n ?path ?v2"
    using info l(1) st(1) nd w(2) tm d(1) by (simp add: ov_unlink_def timed_def)
  have o2: "in_order view ?v2" using o1(1) d(2) by (simp add: in_order_def clock_runs_def numbered_def)
  have wk': "walk ((dir_map ?t)((?u, n) := None)) 1 ws = Some ?u"
  proof (cases "dir_map ?t (?u, n)")
    case None
    then show ?thesis using wk by (simp add: fun_upd_idem)
  next
    case (Some i)
    let ?D = "\<lambda>i. \<exists>r. ino_map ?t i = Some r \<and> is_dir r"
    have par: "?D (fst k)" if "dir_map ?t k = Some j" for k j
      using named_inode [OF fs_goodD(3) [OF o(1)] that] by blast
    have "\<not> ?D i" using plain Some by (auto simp: node_def)
    then show ?thesis
      using walk_without_file [of "dir_map ?t" ?D "(?u, n)" i ?u 1 ws] par par [OF Some] Some wk by auto
  qed
  obtain v3 where v3: "hide_base B info n ?path ?v2 = (Inr (), v3)" "in_order view v3" "inode_map v3 = inode_map ?v2"
    "dir_map (tabs (delta v3)) = dir_map (tabs d)" "whited (whiteouts v3) [] (ws @ [n]) \<or> base_node B ws n = None"
  proof (cases "base_node B ws n")
    case None
    then have "hide_base B info n ?path ?v2 = (Inr (), ?v2)"
      by (auto simp: hide_base_def base_node_def base_parent_run [OF pl] split: option.splits sum.splits)
    then show ?thesis using that [of ?v2] o2 None by simp
  next
    case (Some b)
    obtain v3 where c: "create_whiteout ?path ?v2 = (Inr (), v3)" "in_order view v3"
      "whiteouts v3 = insert ?path (whiteouts ?v2)" "inode_map v3 = inode_map ?v2"
      "dir_map (tabs (delta v3)) = dir_map (tabs (delta ?v2))"
      by (rule create_whiteout_run [OF o2])
    have "whited (whiteouts v3) [] (ws @ [n])" by (rule whited_full) (simp_all add: c(3) canonical_def)
    moreover have "hide_base B info n ?path ?v2 = (Inr (), v3)"
      using Some c(1) by (auto simp: hide_base_def base_node_def base_parent_run [OF pl] split: option.splits sum.splits)
    ultimately show ?thesis using that [of v3] c by simp
  qed
  have pl3: "placed B v3 info ws" using pl info(2) wk' v3(4) d(3) by (simp add: placed_def)
  have "node (tabs (delta v3)) (?u, n) = None" by (simp add: node_def v3(4) d(3))
  then have "union_node B v3 ws n = None"
    using v3(4,5) d(3) wk' by (auto simp: union_node_def delta_node_def)
  then show ?thesis using that [of v3] run1 v3 i1 pl3 by simp
qed

end

section \<open>Copying up\<close>

text \<open>
  \<open>running view v\<close>: the delta is good and the clock runs; \<open>same_files v v'\<close>: the tables of the
  filesystem did not change from \<open>v\<close> to \<open>v'\<close>.
\<close>

definition running :: "('l \<Rightarrow> slot \<rightharpoonup> i64) \<Rightarrow> 'l overlay \<Rightarrow> bool" where
  "running view v \<longleftrightarrow> fs_good view (delta v) \<and> clock_runs v"

definition same_files :: "tables \<Rightarrow> tables \<Rightarrow> bool" where
  "same_files t t' \<longleftrightarrow>
    fs_inode t' = fs_inode t \<and> fs_dentry t' = fs_dentry t \<and> fs_data t' = fs_data t \<and> fs_symlink t' = fs_symlink t"

lemma same_filesD:
  assumes "same_files t t'"
  shows "dir_map t' = dir_map t" "ino_map t' = ino_map t" "contents cs t' = contents cs t" "file_inv cs t' = file_inv cs t"
proof -
  show "dir_map t' = dir_map t" by (rule dir_map_cong) (use assms in \<open>simp add: same_files_def\<close>)
  show "ino_map t' = ino_map t" by (rule ino_map_cong) (use assms in \<open>simp add: same_files_def\<close>)
  show "contents cs t' = contents cs t"
    using assms by (intro ext) (simp add: contents_def file_size_def same_files_def)
  show "file_inv cs t' = file_inv cs t"
    using assms by (intro ext) (simp add: file_inv_def same_files_def cong: option.case_cong)
qed

lemma same_files_trans: "same_files t t' \<Longrightarrow> same_files t' t'' \<Longrightarrow> same_files t t''"
  by (simp add: same_files_def)

lemma remove_whiteout_run:
  assumes "running view v"
  obtains v' where "remove_whiteout path v = (Inr (), v')" and "running view v'"
    and "same_files (tabs (delta v)) (tabs (delta v'))"
proof (cases "path \<in> whiteouts v")
  case False
  then show ?thesis using that [of v] assms by (simp add: remove_whiteout_def same_files_def)
next
  case True
  let ?d = "(delta v)\<lparr>tabs := fs_whiteout_update (filter (\<lambda>r. fst r \<noteq> path)) (tabs (delta v))\<rparr>"
  have good: "fs_good view (delta v)" using assms by (simp add: running_def)
  have "fs_good view ?d" by (rule fs_good_tabs [OF good]) simp_all
  moreover have "remove_whiteout path v = (Inr (), v\<lparr>delta := ?d, whiteouts := whiteouts v - {path}\<rparr>)"
    using True fs_goodD(1) [OF good] by (simp add: remove_whiteout_def delete_whiteout_def run)
  ultimately show ?thesis using that assms by (simp add: running_def clock_runs_def same_files_def)
qed

lemma add_origin_ready:
  "ready (delta v) \<Longrightarrow> add_origin_mapping d b v =
    (Inr (), v\<lparr>delta := (delta v)\<lparr>tabs := fs_origin_update (put_pair d b) (tabs (delta v))\<rparr>,
       origin_map := (origin_map v)(d \<mapsto> b)\<rparr>)"
  by (simp add: add_origin_mapping_def upsert_origin_def run)

lemma add_origin_run:
  assumes "fs_good view (delta v)"
  obtains v' where "add_origin_mapping d b v = (Inr (), v')" and "fs_good view (delta v')"
    and "readings v' = readings v" and "same_files (tabs (delta v)) (tabs (delta v'))"
proof -
  let ?d = "(delta v)\<lparr>tabs := fs_origin_update (put_pair d b) (tabs (delta v))\<rparr>"
  have "fs_good view ?d" by (rule fs_good_tabs [OF assms]) simp_all
  with add_origin_ready [OF fs_goodD(1) [OF assms]] show ?thesis using that by (simp add: same_files_def)
qed

lemma promote_sel [simp]:
  "delta (promote_to_delta path d v) = delta v" "readings (promote_to_delta path d v) = readings v"
  by (simp_all add: promote_to_delta_def split: option.split)

text \<open>Nothing but directories stands in the way of a path.\<close>

fun clear :: "tables \<Rightarrow> i64 \<Rightarrow> string list \<Rightarrow> bool" where
  "clear t i [] \<longleftrightarrow> True"
| "clear t i (w # ws) \<longleftrightarrow> (case dir_map t (i, w) of None \<Rightarrow> True | Some j \<Rightarrow> dir_at t j \<and> clear t j ws)"

lemma clear_cong: "dir_map t = dir_map t' \<Longrightarrow> ino_map t = ino_map t' \<Longrightarrow> clear t i ws = clear t' i ws"
  by (induction ws arbitrary: i) (simp_all add: dir_at_def split: option.split)

text \<open>
  What making the parent directories of \<open>ws\<close> below \<open>cd\<close> achieves: they exist, entries are only
  added, and a name that was free at the end of the path still is.
\<close>

definition made_dirs :: "tables \<Rightarrow> tables \<Rightarrow> i64 \<Rightarrow> string list \<Rightarrow> bool" where
  "made_dirs t t' cd ws \<longleftrightarrow>
    dir_map t \<subseteq>\<^sub>m dir_map t' \<and>
    (\<exists>q. walk (dir_map t') cd ws = Some q \<and> dir_at t' q \<and>
      (\<forall>n. walk (dir_map t) cd (ws @ [n]) = None \<longrightarrow> dir_map t' (q, n) = None))"

lemma made_dirs_old:
  assumes "made_dirs t t' j ws" and "dir_map t (cd, w) = Some j"
  shows "made_dirs t t' cd (w # ws)"
proof -
  have "dir_map t' (cd, w) = Some j" using assms by (auto simp: made_dirs_def map_le_def dom_def)
  then show ?thesis using assms by (simp add: made_dirs_def)
qed

lemma made_dirs_new:
  assumes "made_dirs t1 t' j ws" and "dir_map t (cd, w) = None" and "dir_map t1 = (dir_map t)((cd, w) \<mapsto> j)"
    and "\<And>x. dir_map t (j, x) = None" and "cd \<noteq> j"
  shows "made_dirs t t' cd (w # ws)"
proof -
  have le: "dir_map t1 \<subseteq>\<^sub>m dir_map t'" using assms(1) by (simp add: made_dirs_def)
  then have "dir_map t' (cd, w) = Some j" using assms(3) by (auto simp: map_le_def)
  moreover have "dir_map t \<subseteq>\<^sub>m dir_map t1" using assms(2,3) by (auto simp: map_le_def)
  moreover have "walk (dir_map t1) j (ws @ [n]) = None" for n
    using assms(3-5) by (cases ws) simp_all
  ultimately show ?thesis using assms(1) le by (auto simp: made_dirs_def intro: map_le_trans)
qed

context layers
begin

lemma mkdir_delta:
  fixes c :: "'l fs_state"
  assumes good: "fs_good view c" and w: "fs_name w" and cd: "dir_at (tabs c) cd"
    and free: "dir_map (tabs c) (cd, w) = None"
  obtains st c' where "mkdir L (Some now) cd w m u g c = (Inr st, c')" and "fs_good view c'"
    and "st_ino st = seq_inode c" and "dir_map (tabs c') = (dir_map (tabs c))((cd, w) \<mapsto> seq_inode c)"
    and "dir_at (tabs c') (seq_inode c)" and "cd \<noteq> seq_inode c"
    and "\<And>x. dir_map (tabs c) (seq_inode c, x) = None"
proof -
  note g = fs_goodD [OF good]
  obtain s ns where now: "now = (s, ns)" by fastforce
  obtain pr where pr: "ino_map (tabs c) cd = Some pr" "is_dir pr" by (rule dir_atE [OF cd])
  let ?r = "new_inode (S_IFDIR OR (m AND PERM_BITS)) 2 u g 0 0 s ns (seq_inode c)"
  obtain c' where c': "mkdir L (Some (s, ns)) cd w m u g c = (Inr (build_stats_from_row ?r), c')"
    and cr: "created c c' cd w ?r (\<lambda>r. set_cmtime s ns (add_nlink 1 r))"
    by (rule mkdir_ready [OF g(1,3) _ free pr(1) refl]) (use w in \<open>auto simp: fs_name_def\<close>)
  have ne: "cd \<noteq> seq_inode c" using pr fresh_inode(2) [OF g(3)] by auto
  have "fs_good view c'" using exec_mkdir_good [OF good cd, of "(s, ns)" w m u g] c' by simp
  moreover have "dir_map (tabs c') = (dir_map (tabs c))((cd, w) \<mapsto> seq_inode c)"
    by (rule created_dir_map [OF cr free])
  moreover have "dir_at (tabs c') (seq_inode c)"
    using cr ne by (simp add: dir_at_def created_def is_dir_new)
  moreover have "dir_map (tabs c) (seq_inode c, x) = None" for x
    using named_inode [OF g(3), of "(seq_inode c, x)"] fresh_inode(2) [OF g(3)] by fastforce
  ultimately show ?thesis
    using that [of "build_stats_from_row ?r" c'] c' now ne by (simp add: build_stats_from_row_def new_inode_def)
qed

lemma ensure_dirs_run:
  fixes v :: "'l overlay"
  assumes "running view v" and "dir_at (tabs (delta v)) cd" and "clear (tabs (delta v)) cd ws"
    and "\<forall>w \<in> set ws. fs_name w"
  shows "\<exists>v'. ensure_dirs B L u g ws cur cd cb v = (Inr (), v') \<and> running view v' \<and>
    made_dirs (tabs (delta v)) (tabs (delta v')) cd ws"
  using assms
proof (induction ws arbitrary: v cur cd cb)
  case Nil
  then show ?case by (simp add: made_dirs_def split: option.split)
next
  case (Cons w ws)
  let ?cur = "cur @ slash # w" and ?t = "tabs (delta v)"
  have w: "fs_name w" "\<forall>w \<in> set ws. fs_name w" using Cons.prems(4) by simp_all
  obtain v1 where v1: "remove_whiteout ?cur v = (Inr (), v1)" "running view v1" "same_files ?t (tabs (delta v1))"
    by (rule remove_whiteout_run [OF Cons.prems(1)])
  note sf1 = same_filesD [OF v1(3)]
  obtain l where l: "lookup L cd w (delta v1) = (Inr (node (tabs (delta v1)) (cd, w)), (delta v1)\<lparr>dcache := l\<rparr>)"
    "fs_good view ((delta v1)\<lparr>dcache := l\<rparr>)"
    using lookup_good [of "delta v1" w cd] v1(2) w(1) by (auto simp: fs_name_def running_def)
  let ?v2 = "recache l v1"
  have r2: "running view ?v2" using v1(2) l(2) by (simp add: running_def clock_runs_def)
  have nd: "node (tabs (delta v1)) (cd, w) = node ?t (cd, w)" by (simp add: node_def sf1 split: option.split)
  obtain st where bl: "base_lookup B cb w = Inr st" using lookup_total by blast
  show ?case
  proof (cases "node ?t (cd, w)")
    case (Some s)
    have dm: "dir_map ?t (cd, w) = Some (st_ino s)" by (rule node_ino [OF Some])
    then have cl: "dir_at ?t (st_ino s)" "clear ?t (st_ino s) ws" using Cons.prems(3) by simp_all
    have dir: "is_directory s" using Some cl(1) dm by (auto simp: node_def dir_at_def split: option.splits)
    have h: "dir_at (tabs (delta ?v2)) (st_ino s)" "clear (tabs (delta ?v2)) (st_ino s) ws"
      using cl clear_cong [OF sf1(1,2)] sf1 by (simp_all add: dir_at_def)
    obtain v' where v': "ensure_dirs B L u g ws ?cur (st_ino s) (case st of None \<Rightarrow> cb | Some b \<Rightarrow> st_ino b) ?v2 = (Inr (), v')"
      "running view v'" "made_dirs (tabs (delta ?v2)) (tabs (delta v')) (st_ino s) ws"
      using Cons.IH [OF r2 h w(2)] by blast
    have "made_dirs ?t (tabs (delta v')) (st_ino s) ws" using v'(3) sf1 by (simp add: made_dirs_def)
    then have "made_dirs ?t (tabs (delta v')) cd (w # ws)" by (rule made_dirs_old [OF _ dm])
    moreover have "ensure_dirs B L u g (w # ws) cur cd cb v = (Inr (), v')"
      using v1(1) l(1) nd Some dir bl v'(1) by (simp add: Let_def)
    ultimately show ?thesis using v'(2) by blast
  next
    case None
    then have free: "dir_map (tabs (delta ?v2)) (cd, w) = None"
      using node_None [OF fs_goodD(3) [OF l(2)], of "(cd, w)"] nd by simp
    obtain now where tk: "tick ?v2 = (Inr (Some now), ?v2\<lparr>ticks := ticks v1 + 1\<rparr>)"
      using tick_run [of ?v2] r2 by (auto simp: running_def)
    let ?u = "case st of None \<Rightarrow> u | Some b \<Rightarrow> st_uid b" and ?g = "case st of None \<Rightarrow> g | Some b \<Rightarrow> st_gid b"
    let ?j = "seq_inode (delta ?v2)"
    have cd: "dir_at (tabs (delta ?v2)) cd" using Cons.prems(2) sf1 by (simp add: dir_at_def)
    obtain new c3 where mk: "mkdir L (Some now) cd w 0x1ED ?u ?g (delta ?v2) = (Inr new, c3)" "fs_good view c3"
      "st_ino new = ?j" "dir_map (tabs c3) = (dir_map (tabs (delta ?v2)))((cd, w) \<mapsto> ?j)"
      "dir_at (tabs c3) ?j" "cd \<noteq> ?j" "\<And>x. dir_map (tabs (delta ?v2)) (?j, x) = None"
      by (rule mkdir_delta [OF r2 [unfolded running_def, THEN conjunct1] w(1) cd free]) (rule that)
    let ?v3 = "?v2\<lparr>ticks := ticks v1 + 1, delta := c3\<rparr>"
    have rest: "\<exists>v'. ensure_dirs B L u g ws ?cur ?j cb' v5 = (Inr (), v') \<and> running view v' \<and>
        made_dirs ?t (tabs (delta v')) cd (w # ws)"
      if "running view v5" "same_files (tabs c3) (tabs (delta v5))" for v5 cb'
    proof -
      note sf5 = same_filesD [OF that(2)]
      have "dir_at (tabs (delta v5)) ?j" "clear (tabs (delta v5)) ?j ws"
        using mk(4-7) by (cases ws; simp add: dir_at_def sf5)+
      from Cons.IH [OF that(1) this w(2)] obtain v' where
        "ensure_dirs B L u g ws ?cur ?j cb' v5 = (Inr (), v')" "running view v'"
        "made_dirs (tabs (delta v5)) (tabs (delta v')) ?j ws" by blast
      moreover from this(3) have "made_dirs ?t (tabs (delta v')) cd (w # ws)"
        by (rule made_dirs_new) (use mk(4,6,7) free sf1 sf5 in simp_all)
      ultimately show ?thesis by blast
    qed
    have run3: "ensure_dirs B L u g (w # ws) cur cd cb v =
      (case st of None \<Rightarrow> ensure_dirs B L u g ws ?cur ?j cb
       | Some b \<Rightarrow> sq (add_origin_mapping ?j (st_ino b)) (sq (modify (promote_to_delta ?cur ?j))
           (ensure_dirs B L u g ws ?cur ?j (st_ino b)))) ?v3"
      using v1(1) l(1) nd None bl tk mk(1,3) by (simp add: Let_def timed_def split: option.split)
    have r3: "running view ?v3" using r2 mk(2) by (simp add: running_def clock_runs_def)
    show ?thesis
    proof (cases st)
      case None
      then show ?thesis using rest [OF r3, of cb] run3 by (simp add: same_files_def)
    next
      case (Some b)
      obtain v4 where v4: "add_origin_mapping ?j (st_ino b) ?v3 = (Inr (), v4)" "fs_good view (delta v4)"
        "readings v4 = readings ?v3" "same_files (tabs (delta ?v3)) (tabs (delta v4))"
        by (rule add_origin_run [of view ?v3]) (use mk(2) in simp, rule that)
      have "running view (promote_to_delta ?cur ?j v4)"
        using r3 v4(2,3) by (simp add: running_def clock_runs_def)
      from rest [OF this, of "st_ino b"] show ?thesis using v4(1,4) Some run3 by simp
    qed
  qed
qed

end

lemma fresh_file_inv:
  fixes c c' :: "'l fs_state"
  assumes inv: "ns_inv c" and cr: "created c c' p n r g" and r: "i_ino r = seq_inode c" "i_size r = 0"
    and p: "p \<noteq> seq_inode c" and cs: "0 < cs"
  shows "file_inv cs (tabs c') (seq_inode c)" and "contents cs (tabs c') (seq_inode c) = []"
proof -
  have look: "look i_ino (fs_inode (tabs c')) (seq_inode c) = Some r"
    using cr p by (simp add: created_def flip: ino_map_def)
  have keys: "inode_ok (fs_inode (tabs c'))" "data_ok (fs_data (tabs c'))"
    using cr by (auto simp: created_def keys_ok_def)
  have "fs_data (tabs c') = fs_data (tabs c)" using cr by (simp add: created_def)
  then have "seq_inode c \<notin> b_ino ` set (fs_data (tabs c'))"
    using ns_invD(8) [OF inv] fresh_inode(2) [OF inv] unfolding owned_def by (metis UnI1)
  then have "chunks_within cs (fs_data (tabs c')) (seq_inode c) 0"
    unfolding chunks_within_def by (metis image_eqI)
  then show "file_inv cs (tabs c') (seq_inode c)"
    using look r cs keys by (simp add: file_inv_def)
  show "contents cs (tabs c') (seq_inode c) = []" using look r by (simp add: contents_def file_size_def)
qed

context layers
begin

lemma copy_node_file:
  fixes v :: "'l overlay"
  assumes run: "running view v" and q: "dir_at (tabs (delta v)) q" and n: "fs_name n"
    and free: "dir_map (tabs (delta v)) (q, n) = None"
    and bs: "\<not> is_symlink bs" "\<not> is_directory bs"
    and rd: "base_open B b = Inr f" "base_pread B f 0 (as_u64 (st_size bs)) = Inr content"
    and cs: "0 < cs" "length content < 2 ^ 63"
  obtains v' where "copy_node B L cs b bs q n v = (Inr (seq_inode (delta v)), v')"
    and "ready (delta v')" and "file_inv cs (tabs (delta v')) (seq_inode (delta v))"
    and "contents cs (tabs (delta v')) (seq_inode (delta v)) = content"
proof -
  let ?i = "seq_inode (delta v)" and ?v1 = "v\<lparr>ticks := ticks v + 1\<rparr>"
  have good: "fs_good view (delta v)" and ck: "clock_runs v" using run by (simp_all add: running_def)
  note g = fs_goodD [OF good]
  obtain s ns where t1: "tick v = (Inr (Some (s, ns)), ?v1)" by (rule tick_run [OF ck]) auto
  obtain pr where pr: "ino_map (tabs (delta v)) q = Some pr" "is_dir pr" by (rule dir_atE [OF q])
  let ?r = "new_inode (S_IFREG OR (st_mode bs AND PERM_BITS)) 1 (st_uid bs) (st_gid bs) 0 0 s ns ?i"
  let ?h = "\<lparr>f_ino = ?i, f_chunk_size = cs\<rparr>"
  obtain c1 where c1: "create_file L cs (Some (s, ns)) q n (st_mode bs) (st_uid bs) (st_gid bs) (delta v) =
      (Inr (build_stats_from_row ?r, ?h), c1)" "created (delta v) c1 q n ?r (set_cmtime s ns)"
    "ready c1" "txn_state c1 = NoTxn"
    by (rule create_file_ready [OF g(1-3) _ free pr(1) refl]) (use n in \<open>auto simp: fs_name_def\<close>)
  have ne: "q \<noteq> ?i" using pr fresh_inode(2) [OF g(3)] by auto
  note fi = fresh_file_inv [OF g(3) c1(2) _ _ ne cs(1)]
  have f1: "file_inv cs (tabs c1) ?i" "contents cs (tabs c1) ?i = []" using fi by (simp_all add: new_inode_def)
  let ?v2 = "?v1\<lparr>delta := c1\<rparr>"
  have "clock_runs ?v2" using ck by (simp add: clock_runs_def)
  then obtain s2 ns2 where t2: "tick ?v2 = (Inr (Some (s2, ns2)), ?v2\<lparr>ticks := ticks v + 2\<rparr>)"
    by (rule tick_run) auto
  obtain c2 where c2: "pwrite (Some (s2, ns2)) ?h 0 content c1 = (Inr (), c2)" "ready c2" "file_inv cs (tabs c2) ?i"
    "contents cs (tabs c2) ?i = content"
  proof (cases "content = []")
    case True
    then show ?thesis using that [of c1] c1 f1 by (simp add: pwrite_def)
  next
    case False
    show ?thesis
      by (rule pwrite_ready [OF c1(3,4) f1(1) refl False, of 0]) (use cs(2) f1(2) that in \<open>auto simp: a_write_def\<close>)
  qed
  have "copy_node B L cs b bs q n v = (Inr ?i, ?v2\<lparr>ticks := ticks v + 2, delta := c2\<rparr>)"
    using bs rd t1 c1(1) t2 c2(1) by (simp add: copy_node_def timed_def build_stats_from_row_def)
  with c2 show ?thesis using that by simp
qed

end

lemma walk_snoc: "walk m i (ws @ [n]) = (case walk m i ws of None \<Rightarrow> None | Some p \<Rightarrow> m (p, n))"
  by (induction ws arbitrary: i) (auto split: option.split)

context layers
begin

lemma copy_up_file:
  fixes v :: "'l overlay"
  assumes run: "running view v" and root: "dir_at (tabs (delta v)) 1"
    and names: "\<forall>w \<in> set (ws @ [n]). fs_name w" and cl: "clear (tabs (delta v)) 1 ws"
    and free: "walk (dir_map (tabs (delta v))) 1 (ws @ [n]) = None"
    and ga: "base_getattr B b = Inr (Some bs)" and bs: "\<not> is_symlink bs" "\<not> is_directory bs"
    and rd: "base_open B b = Inr f" "base_pread B f 0 (as_u64 (st_size bs)) = Inr content"
    and cs: "0 < cs" "length content < 2 ^ 63"
  obtains i v' where "copy_up B L cs (canonical (ws @ [n])) b v = (Inr i, v')"
    and "ready (delta v')" and "file_inv cs (tabs (delta v')) i" and "contents cs (tabs (delta v')) i = content"
proof -
  let ?t = "tabs (delta v)" and ?path = "canonical (ws @ [n])"
  have w: "path_words ?path = ws @ [n]" "\<forall>w \<in> set ws. fs_name w" "fs_name n"
    using names path_words_join [of "ws @ [n]"] by (auto simp: canonical_def fs_name_def)
  have good: "fs_good view (delta v)" using run by (simp add: running_def)
  obtain l1 where l1: "walk_delta L ws 1 v = (Inr (walk (dir_map ?t) 1 ws), recache l1 v)"
    "fs_good view ((delta v)\<lparr>dcache := l1\<rparr>)" using walk_delta_good [OF good w(2)] by blast
  obtain l2 where l2: "(case walk (dir_map ?t) 1 ws of None \<Rightarrow> ret None | Some p \<Rightarrow> on_delta (lookup L p (last (ws @ [n])))) (recache l1 v) =
      (Inr None, recache l2 v)" "fs_good view ((delta v)\<lparr>dcache := l2\<rparr>)"
  proof (cases "walk (dir_map ?t) 1 ws")
    case None
    then show ?thesis using that [of l1] l1(2) by simp
  next
    case (Some p)
    then have "node ?t (p, n) = None" using free by (simp add: walk_snoc node_def)
    then show ?thesis using that lookup_good [OF l1(2), of n p] w(3) Some by (auto simp: fs_name_def)
  qed
  let ?v2 = "recache l2 v"
  have r2: "running view ?v2" using run l2(2) by (simp add: running_def clock_runs_def)
  obtain v3 where v3: "ensure_dirs B L (st_uid bs) (st_gid bs) ws [] 1 1 ?v2 = (Inr (), v3)" "running view v3"
    "made_dirs ?t (tabs (delta v3)) 1 ws"
    using ensure_dirs_run [OF r2 _ _ w(2), of 1 "st_uid bs" "st_gid bs" "[]" 1] root cl by auto
  then obtain q where q: "walk (dir_map (tabs (delta v3))) 1 ws = Some q" "dir_at (tabs (delta v3)) q"
    "dir_map (tabs (delta v3)) (q, n) = None" using free by (auto simp: made_dirs_def)
  obtain l4 where l4: "walk_delta L ws 1 v3 = (Inr (Some q), recache l4 v3)" "fs_good view ((delta v3)\<lparr>dcache := l4\<rparr>)"
    using walk_delta_good [of v3 ws 1] v3(2) w(2) q(1) by (auto simp: running_def)
  let ?v4 = "recache l4 v3" and ?i = "seq_inode (delta v3)"
  have r4: "running view ?v4" using v3(2) l4(2) by (simp add: running_def clock_runs_def)
  obtain v5 where v5: "copy_node B L cs b bs q n ?v4 = (Inr ?i, v5)" "ready (delta v5)"
    "file_inv cs (tabs (delta v5)) ?i" "contents cs (tabs (delta v5)) ?i = content"
    using copy_node_file [OF r4 _ w(3) _ bs rd cs, of q] q(2,3) by auto
  let ?t6 = "fs_origin_update (put_pair ?i b) (tabs (delta v5))"
  have sf: "same_files (tabs (delta v5)) ?t6" by (simp add: same_files_def)
  have "copy_up B L cs ?path b v =
      (Inr ?i, v5\<lparr>delta := (delta v5)\<lparr>tabs := ?t6\<rparr>, origin_map := (origin_map v5)(?i \<mapsto> b)\<rparr>)"
    using w(1) l1(1) l2(1) ga v3(1) l4(1) v5(1) add_origin_ready [OF v5(2)]
    by (simp add: copy_up_def ensure_parent_dirs_def)
  then show ?thesis using that v5(2-4) same_filesD(3,4) [OF sf] by simp
qed

end

section \<open>The properties\<close>

text \<open>
  C10.  While the base answers its lookups, a lookup through the overlay answers with the union of
  its layers: nothing when the path or one of its ancestors has a whiteout, otherwise the node of the
  delta, otherwise the node of the base, with the attributes of that layer under an inode number of
  the overlay.  \<open>SPEC.md\<close> takes the delta before the whiteout: the lookup gives what it says except
  where a whiteout covers an entry of the delta, and there the lookup finds nothing although
  \<open>SPEC.md\<close> finds the entry.  It returns whichever layer the parent was found in, and changes neither
  tables nor whiteouts.
\<close>

theorem lookup_is_union:
  assumes "lru_cache L view" and "base_layer B" and "fs_good view (delta v)"
    and "inode_map v p = Some info" and "placed B v info ws" and "fs_name n"
  shows "\<exists>r v'. ov_lookup B L p n v = (Inr r, v') \<and>
    map_option (renumber 0) r = map_option (renumber 0) (union_node B v ws n) \<and>
    tabs (delta v') = tabs (delta v) \<and> whiteouts v' = whiteouts v \<and>
    (if whited (whiteouts v) [] (ws @ [n]) \<and> delta_node (tabs (delta v)) ws n \<noteq> None
     then r = None \<and> spec_node B v ws n \<noteq> None
     else map_option (renumber 0) r = map_option (renumber 0) (spec_node B v ws n))"
proof -
  obtain r v' where run: "ov_lookup B L p n v = (Inr r, v')"
    and r: "map_option (renumber 0) r = map_option (renumber 0) (union_node B v ws n)"
    and ro: "read_only view v v'"
    using layers.ov_lookup_run [OF layers.intro [OF assms(1,2)] assms(3-6)] by metis
  have "r = None \<and> spec_node B v ws n \<noteq> None"
    if "whited (whiteouts v) [] (ws @ [n]) \<and> delta_node (tabs (delta v)) ws n \<noteq> None"
    using r that by (auto simp: union_node_def spec_node_def)
  moreover have "map_option (renumber 0) r = map_option (renumber 0) (spec_node B v ws n)"
    if "\<not> (whited (whiteouts v) [] (ws @ [n]) \<and> delta_node (tabs (delta v)) ws n \<noteq> None)"
    using r union_is_spec [OF that, of B] by simp
  ultimately show ?thesis using run r ro unfolding read_only_def by metis
qed

text \<open>
  C30.  Removing a name hides it, when the parent is known by a number of the delta layer: after
  \<open>unlink\<close> of a file that the overlay shows in such a directory, whether the file lives in the delta, in
  the base or in both, a lookup of the name finds nothing.  Through a number of the base layer for a
  directory that is also in the delta it is not so (\<open>unlink_through_base_number_keeps_file\<close>).
\<close>

theorem unlink_hides:
  assumes "lru_cache L view" and "base_layer B" and "in_order view v"
    and "inode_map v p = Some info" and "n_layer info = Delta" and "placed B v info ws" and "fs_name n"
    and "union_node B v ws n = Some s" and "\<not> is_directory s"
    and "length (fs_dentry (tabs (delta v))) < 2 ^ 32"
  shows "\<exists>v'. ov_unlink B L p n v = (Inr (), v') \<and> fst (ov_lookup B L p n v') = Inr None \<and> in_order view v'"
proof -
  have lay: "layers L view B" by (rule layers.intro [OF assms(1,2)])
  obtain v' where v': "ov_unlink B L p n v = (Inr (), v')" "in_order view v'" "inode_map v' p = Some info"
    "placed B v' info ws" "union_node B v' ws n = None"
    by (rule layers.ov_unlink_run [OF lay assms(3-10)])
  obtain r v'' where "ov_lookup B L p n v' = (Inr r, v'')"
    "map_option (renumber 0) r = map_option (renumber 0) (union_node B v' ws n)"
    by (rule layers.ov_lookup_run [OF lay in_orderD(1) [OF v'(2)] v'(3,4) assms(7)])
  with v' show ?thesis by simp
qed

text \<open>
  C31.  Opening a file of the base copies it up: whatever directories are missing above it in the
  delta are made, and the handle that \<open>open\<close> returns reads, at every offset and length, the bytes
  of the base file; the overlay inode now stands for the copy.
\<close>

theorem open_copies_up:
  fixes v :: "'l overlay"
  assumes "lru_cache L view" and "base_layer B" and "running view v" and "dir_at (tabs (delta v)) 1"
    and "inode_map v i = Some \<lparr>n_layer = Base, n_under = b, n_path = canonical (ws @ [n])\<rparr>"
    and "\<forall>w \<in> set (ws @ [n]). fs_name w" and "clear (tabs (delta v)) 1 ws"
    and "walk (dir_map (tabs (delta v))) 1 (ws @ [n]) = None"
    and "base_getattr B b = Inr (Some bs)" and "\<not> is_symlink bs" and "\<not> is_directory bs"
    and "base_open B b = Inr f" and "base_pread B f 0 (as_u64 (st_size bs)) = Inr content"
    and "0 < cs" and "length content < 2 ^ 63"
  shows "\<exists>h v'. ov_open B L cs i v = (Inr h, v') \<and>
    (\<forall>off m. pread h off m (delta v') = (Inr (a_read off m content), delta v')) \<and>
    inode_map v' i = Some \<lparr>n_layer = Delta, n_under = f_ino h, n_path = canonical (ws @ [n])\<rparr>"
proof -
  obtain j v1 where cu: "copy_up B L cs (canonical (ws @ [n])) b v = (Inr j, v1)" "ready (delta v1)"
    "file_inv cs (tabs (delta v1)) j" "contents cs (tabs (delta v1)) j = content"
    by (rule layers.copy_up_file [OF layers.intro [OF assms(1,2)] assms(3,4,6-15)])
  let ?h = "\<lparr>f_ino = j, f_chunk_size = cs\<rparr>"
  let ?v' = "v1\<lparr>inode_map := (inode_map v1)(i \<mapsto> \<lparr>n_layer = Delta, n_under = j, n_path = canonical (ws @ [n])\<rparr>),
    reverse_map := (reverse_map v1)((Delta, j) \<mapsto> i)\<rparr>"
  have "ino_map (tabs (delta v1)) j \<noteq> None"
    using cu(3) by (auto simp: file_inv_def ino_map_def split: option.splits)
  then have "ov_open B L cs i v = (Inr ?h, ?v')"
    using assms(5) cu(1,2)
    by (auto simp: ov_open_def in_delta_def copy_up_and_update_mapping_def fs_open_def run)
  moreover have "pread ?h off m (delta ?v') = (Inr (a_read off m content), delta ?v')" for off m
    using pread_ready [of "delta v1" ?h off m] cu by simp
  ultimately show ?thesis by (intro exI [of _ ?h] exI [of _ ?v']) simp
qed

section \<open>A sample overlay\<close>

text \<open>A base with a file \<open>/a\<close> of its own and a directory \<open>/e\<close> that the sample filesystem lacks.\<close>

definition base_tables :: tables where
  "base_tables = sample_tables\<lparr>
     fs_inode := [sample_inode 1 0x41ED 3 0, sample_inode 7 0x41ED 2 0, sample_inode 8 0x81A4 1 3, sample_inode 9 0x81A4 1 0,
                  sample_inode 10 0x81A4 1 0],
     fs_dentry := [\<lparr>d_id = 1, d_name = ''e'', d_parent = 1, d_ino = 7\<rparr>,
                   \<lparr>d_id = 2, d_name = ''f'', d_parent = 7, d_ino = 8\<rparr>,
                   \<lparr>d_id = 3, d_name = ''a'', d_parent = 1, d_ino = 9\<rparr>,
                   \<lparr>d_id = 4, d_name = ''z'', d_parent = 1, d_ino = 10\<rparr>],
     fs_data := [\<lparr>b_ino = 8, b_index = 0, b_data = [7, 8, 9]\<rparr>], fs_symlink := []\<rparr>"

definition sample_overlay :: "lru_list overlay" where
  "sample_overlay = (overlay_new sample_fs (\<lambda>k. Some (int k, 0)))\<lparr>
     inode_map := [1 \<mapsto> \<lparr>n_layer = Delta, n_under = 1, n_path = ''/''\<rparr>,
       2 \<mapsto> \<lparr>n_layer = Base, n_under = 7, n_path = ''/e''\<rparr>,
       3 \<mapsto> \<lparr>n_layer = Base, n_under = 8, n_path = ''/e/f''\<rparr>],
     next_ino := 4\<rparr>"

abbreviation sample_base :: "i64 base_fs" where
  "sample_base \<equiv> frozen 4 base_tables"

interpretation sample: layers "list_lru cap" map_of "frozen cs t" for cap cs t
  by (rule layers.intro) (rule list_cache, rule frozen.base_layer_axioms)

lemma base_nodes:
  "node base_tables (1, ''e'') = Some (build_stats_from_row (sample_inode 7 0x41ED 2 0))"
  "node base_tables (7, ''f'') = Some (build_stats_from_row (sample_inode 8 0x81A4 1 3))"
  "node base_tables (1, ''a'') = Some (build_stats_from_row (sample_inode 9 0x81A4 1 0))"
  by (simp_all add: node_def dir_map_def ino_map_def base_tables_def)

lemma sample_overlay_sel [simp]:
  "delta sample_overlay = sample_fs" "whiteouts sample_overlay = {}" "next_ino sample_overlay = 4"
  "inode_map sample_overlay 1 = Some \<lparr>n_layer = Delta, n_under = 1, n_path = ''/''\<rparr>"
  "inode_map sample_overlay 2 = Some \<lparr>n_layer = Base, n_under = 7, n_path = ''/e''\<rparr>"
  "inode_map sample_overlay 3 = Some \<lparr>n_layer = Base, n_under = 8, n_path = ''/e/f''\<rparr>"
  by (simp_all add: sample_overlay_def overlay_new_def)

lemma sample_in_order: "in_order map_of sample_overlay" "running map_of sample_overlay"
proof -
  have "clock_runs sample_overlay" by (simp add: clock_runs_def sample_overlay_def overlay_new_def)
  moreover have "numbered sample_overlay"
    by (auto simp: numbered_def sample_overlay_def split: if_splits)
  ultimately show "in_order map_of sample_overlay" "running map_of sample_overlay"
    using sample_good by (simp_all add: in_order_def running_def)
qed

lemma sample_names [simp]: "fs_name ''a''" "fs_name ''e''" "fs_name ''f''"
  by (simp_all add: fs_name_def word_ok_def MAX_NAME_LEN_def)

theorem lookup_is_union_witness:
  "\<exists>r v'. ov_lookup sample_base (list_lru 8) 2 ''f'' sample_overlay = (Inr (Some r), v') \<and>
    renumber 0 r = renumber 0 (build_stats_from_row (sample_inode 8 0x81A4 1 3))"
proof -
  have pl: "placed sample_base sample_overlay \<lparr>n_layer = Base, n_under = 7, n_path = ''/e''\<rparr> [''e'']"
    by (simp add: placed_def canonical_def base_dir_def frozen_def base_nodes build_stats_from_row_def)
  have "union_node sample_base sample_overlay [''e''] ''f'' = Some (build_stats_from_row (sample_inode 8 0x81A4 1 3))"
    by (simp add: union_node_def delta_node_def sample_dir_map base_node_def base_dir_def frozen_def base_nodes
        build_stats_from_row_def)
  with lookup_is_union [OF list_cache [of 8] frozen.base_layer_axioms _ _ pl sample_names(3), of 2]
  show ?thesis using sample_good by auto
qed

theorem unlink_hides_witness:
  "\<exists>v'. ov_unlink sample_base (list_lru 8) 1 ''a'' sample_overlay = (Inr (), v') \<and>
    fst (ov_lookup sample_base (list_lru 8) 1 ''a'' v') = Inr None"
proof -
  have pl: "placed sample_base sample_overlay \<lparr>n_layer = Delta, n_under = 1, n_path = ''/''\<rparr> []"
    by (simp add: placed_def canonical_def)
  have "union_node sample_base sample_overlay [] ''a'' = Some (build_stats_from_row (sample_inode 2 0x81A4 1 6))"
    by (simp add: union_node_def delta_node_def node_def sample_dir_map sample_ino_map)
  from unlink_hides [OF list_cache [of 8] frozen.base_layer_axioms sample_in_order(1) _ _ pl sample_names(1) this, of 1]
  show ?thesis by (auto simp: sample_rows)
qed

theorem open_copies_up_witness:
  "\<exists>h v'. ov_open sample_base (list_lru 8) 4 3 sample_overlay = (Inr h, v') \<and>
    fst (pread h 1 9 (delta v')) = Inr [8, 9]"
proof -
  let ?bs = "build_stats_from_row (sample_inode 8 0x81A4 1 3)"
  have st: "st_size ?bs = 3" "\<not> is_symlink ?bs" "\<not> is_directory ?bs"
    by (simp_all add: build_stats_from_row_def is_symlink_def is_directory_def u32_of_i64_def mode_defs)
  have rd: "base_pread sample_base 8 0 (as_u64 (st_size ?bs)) = Inr [7, 8, 9]"
    by (simp add: st frozen_def a_read_def contents_def file_size_def base_tables_def byte_at_def chunk_of_def
        chunk_byte_def upt_rec)
  have h: "dir_at (tabs (delta sample_overlay)) 1" "clear (tabs (delta sample_overlay)) 1 [''e'']"
    "walk (dir_map (tabs (delta sample_overlay))) 1 ([''e''] @ [''f'']) = None"
    by (simp_all add: dir_at_def sample_ino_map sample_dir_map)
  have k: "base_getattr sample_base 8 = Inr (Some ?bs)" "base_open sample_base 8 = Inr 8"
    "inode_map sample_overlay 3 = Some \<lparr>n_layer = Base, n_under = 8, n_path = canonical ([''e''] @ [''f''])\<rparr>"
    by (simp_all add: frozen_def ino_map_def base_tables_def canonical_def)
  from open_copies_up [OF list_cache [of 8] frozen.base_layer_axioms sample_in_order(2) h(1) k(3) _ h(2,3) k(1) st(2,3) k(2) rd, of 4]
  show ?thesis by (auto simp: a_read_def)
qed

section \<open>Where the overlay falls short of the union\<close>

text \<open>The inode number a lookup answered with.\<close>

definition found_ino :: "error + stats option \<Rightarrow> i64" where
  "found_ino r = (case r of Inr (Some s) \<Rightarrow> st_ino s | _ \<Rightarrow> 0)"

text \<open>
  Creating a file in a directory of the base promotes the directory to the delta and forgets its
  base number in the reverse map; the next lookup of the directory allots a new number of the base
  layer through the origin map, and a listing through that number leaves the new file out.
\<close>

theorem created_file_not_listed:
  "let L = list_lru 8; v0 = overlay_new sample_fs (\<lambda>k. Some (int k, 0));
       (r1, v1) = ov_lookup sample_base L 1 ''e'' v0;
       (r2, v2) = ov_create_file sample_base L 4 (found_ino r1) ''new'' 0x1A4 0 0 v1;
       (l3, v3) = ov_readdir sample_base (\<lambda>n. n) (found_ino r1) v2;
       (r4, v4) = ov_lookup sample_base L 1 ''e'' v3;
       (l5, v5) = ov_readdir sample_base (\<lambda>n. n) (found_ino r4) v4
   in l3 = Inr (Some [''f'', ''new'']) \<and> l5 = Inr (Some [''f''])"
  by code_simp

text \<open>
  Renaming a directory of the base copies up the directory alone and hides the old name, so
  everything below it is gone.
\<close>

theorem rename_loses_base_children:
  "let L = list_lru 8; v0 = overlay_new sample_fs (\<lambda>k. Some (int k, 0));
       (r1, v1) = ov_lookup sample_base L 1 ''e'' v0;
       (l2, v2) = ov_readdir sample_base (\<lambda>n. n) (found_ino r1) v1;
       (r3, v3) = ov_rename sample_base L 4 1 ''e'' 1 ''g'' v2;
       (r4, v4) = ov_lookup sample_base L 1 ''g'' v3;
       (l5, v5) = ov_readdir sample_base (\<lambda>n. n) (found_ino r4) v4
   in l2 = Inr (Some [''f'']) \<and> r3 = Inr () \<and> l5 = Inr (Some [])"
  by code_simp

text \<open>
  A file that was copied up and changed shows its old attributes after the overlay is loaded
  again: the lookup goes through the origin map and registers a number of the base layer.
\<close>

theorem reload_shows_base_attributes:
  "let L = list_lru 8; v0 = overlay_new sample_fs (\<lambda>k. Some (int k, 0));
       (r1, v1) = ov_lookup sample_base L 1 ''z'' v0;
       (r2, v2) = ov_chmod sample_base L 4 (found_ino r1) 0 v1;
       (r3, v3) = ov_getattr sample_base (found_ino r1) v2;
       (r4, v4) = load (overlay_new (delta v2) (\<lambda>k. Some (int k, 0)));
       (r5, v5) = ov_lookup sample_base L 1 ''z'' v4;
       (r6, v6) = ov_getattr sample_base (found_ino r5) v5
   in r2 = Inr () \<and> map_sum id (map_option st_mode) r3 = Inr (Some S_IFREG) \<and>
      map_sum id (map_option st_mode) r6 = Inr (Some DEFAULT_FILE_MODE)"
  by code_simp

text \<open>
  Through such a number of the base layer \<open>unlink\<close> does not touch the delta: it reports success
  and the file is still there.
\<close>

theorem unlink_through_base_number_keeps_file:
  "let L = list_lru 8; v0 = overlay_new sample_fs (\<lambda>k. Some (int k, 0));
       (r1, v1) = ov_lookup sample_base L 1 ''e'' v0;
       (r2, v2) = ov_create_file sample_base L 4 (found_ino r1) ''new'' 0x1A4 0 0 v1;
       (r3, v3) = ov_lookup sample_base L 1 ''e'' v2;
       (r4, v4) = ov_unlink sample_base L (found_ino r3) ''new'' v3;
       (r5, v5) = ov_lookup sample_base L (found_ino r3) ''new'' v4
   in r4 = Inr () \<and> map_sum id (map_option st_size) r5 = Inr (Some 0)"
  by code_simp

end
