(* ===== verification/Tool_Calls.thy ===== *)
theory Tool_Calls
  imports Fs_Init
begin

text \<open>
  The audit trail of tool calls of \<open>toolcalls.rs\<close>: calls are started and completed, or recorded at
  once, and counted per tool.  JSON values are serialised by \<open>serde_json\<close>, a parameter as in
  \<open>Kv_Store\<close>.  Rows with equal start times are listed in table order, an order the server
  does not promise; no theorem depends on it.
\<close>

section \<open>Status\<close>

datatype tool_call_status = Pending | Success | Error

fun status_text :: "tool_call_status \<Rightarrow> string" where
  "status_text Pending = ''pending''"
| "status_text Success = ''success''"
| "status_text Error = ''error''"

definition status_from :: "string \<Rightarrow> tool_call_status" where
  "status_from s = (if s = ''success'' then Success else if s = ''error'' then Error else Pending)"

lemma status_roundtrip [simp]: "status_from (status_text s) = s"
  by (cases s) (simp_all add: status_from_def)

record 'j tool_call =
  tc_id :: i64
  tc_name :: string
  tc_parameters :: "'j option"
  tc_result :: "'j option"
  tc_error :: "string option"
  tc_status :: tool_call_status
  tc_started_at :: i64
  tc_completed_at :: "i64 option"
  tc_duration_ms :: "i64 option"

record tool_call_stats =
  ts_name :: string
  ts_total_calls :: i64
  ts_successful :: i64
  ts_failed :: i64
  ts_avg_duration_ms :: f64

section \<open>Statements\<close>

text \<open>The arithmetic of \<open>i64\<close> in release builds: it wraps.\<close>

definition wrap_i64 :: "int \<Rightarrow> i64" where
  "wrap_i64 x = (x + 2 ^ 63) mod 2 ^ 64 - 2 ^ 63"

definition duration_of :: "i64 \<Rightarrow> i64 \<Rightarrow> i64" where
  "duration_of started completed = wrap_i64 (wrap_i64 (completed - started) * 1000)"

definition tool_from_pool :: "('z conn_scheme, unit) oper" where
  "tool_from_pool =
    sq get_connection (sq create_table (sq create_table (sq create_table (ret ()))))"

definition insert_tool :: "(i64 \<Rightarrow> tool_row) \<Rightarrow> ('z conn_scheme, i64) oper" where
  "insert_tool mk =
    stmt (\<lambda>c. let n = seq_tool c; c1 = c\<lparr>seq_tool := n + 1\<rparr>; t = tool_calls (tabs c) @ [mk n] in
      if distinct (map t_id t) then (Inr n, c1\<lparr>tabs := (tabs c)\<lparr>tool_calls := t\<rparr>\<rparr>) else (Inl Postgres, c1))"

definition update_tool :: "i64 \<Rightarrow> (tool_row \<Rightarrow> tool_row) \<Rightarrow> ('z conn_scheme, unit) oper" where
  "update_tool i f =
    write_tables (\<lambda>t. Some (t\<lparr>tool_calls := map (\<lambda>r. if t_id r = i then f r else r) (tool_calls t)\<rparr>))"

text \<open>\<open>value.map(|p| serde_json::to_string(&p)).transpose()?\<close>\<close>

definition serialize_opt :: "('j \<Rightarrow> string option) \<Rightarrow> 'j option \<Rightarrow> ('s, string option) oper" where
  "serialize_opt ser v =
    (case v of None \<Rightarrow> ret None | Some x \<Rightarrow> bnd (ok_or Json (ser x)) (\<lambda>s. ret (Some s)))"

definition or_empty :: "string option \<Rightarrow> string" where
  "or_empty s = (case s of None \<Rightarrow> '''' | Some s \<Rightarrow> s)"

section \<open>Operations\<close>

definition tool_start ::
  "('j \<Rightarrow> string option) \<Rightarrow> clock \<Rightarrow> string \<Rightarrow> 'j option \<Rightarrow> ('z conn_scheme, i64) oper" where
  "tool_start ser now name parameters =
    sq get_connection
    (bnd (serialize_opt ser parameters) (\<lambda>serialized.
     bnd (clock_now now) (\<lambda>(started_at, nsec).
       insert_tool (\<lambda>i. \<lparr>t_id = i, t_name = name, t_parameters = or_empty serialized, t_result = None,
         t_error = None, t_status = ''pending'', t_started = started_at, t_completed = None,
         t_duration = None\<rparr>))))"

definition select_started :: "i64 \<Rightarrow> ('z conn_scheme, i64) oper" where
  "select_started i =
    bnd (query (\<lambda>t. map_option t_started (look t_id (tool_calls t) i))) (\<lambda>r. ok_or ToolCallNotFound r)"

definition tool_success ::
  "('j \<Rightarrow> string option) \<Rightarrow> clock \<Rightarrow> i64 \<Rightarrow> 'j option \<Rightarrow> ('z conn_scheme, unit) oper" where
  "tool_success ser now i result =
    sq get_connection
    (bnd (serialize_opt ser result) (\<lambda>serialized.
     bnd (clock_now now) (\<lambda>(completed_at, nsec).
     bnd (select_started i) (\<lambda>started_at.
       update_tool i (\<lambda>r. r\<lparr>t_result := Some (or_empty serialized), t_status := ''success'',
         t_completed := Some completed_at, t_duration := Some (duration_of started_at completed_at)\<rparr>)))))"

definition tool_error :: "clock \<Rightarrow> i64 \<Rightarrow> string \<Rightarrow> ('z conn_scheme, unit) oper" where
  "tool_error now i error =
    sq get_connection
    (bnd (clock_now now) (\<lambda>(completed_at, nsec).
     bnd (select_started i) (\<lambda>started_at.
       update_tool i (\<lambda>r. r\<lparr>t_error := Some error, t_status := ''error'',
         t_completed := Some completed_at, t_duration := Some (duration_of started_at completed_at)\<rparr>))))"

definition tool_record ::
  "('j \<Rightarrow> string option) \<Rightarrow> string \<Rightarrow> i64 \<Rightarrow> i64 \<Rightarrow> 'j option \<Rightarrow> 'j option \<Rightarrow> string option \<Rightarrow>
   ('z conn_scheme, i64) oper" where
  "tool_record ser name started_at completed_at parameters result error =
    sq get_connection
    (bnd (serialize_opt ser parameters) (\<lambda>sp.
     bnd (serialize_opt ser result) (\<lambda>sr.
       insert_tool (\<lambda>i. \<lparr>t_id = i, t_name = name, t_parameters = or_empty sp,
         t_result = Some (or_empty sr), t_error = Some (or_empty error),
         t_status = (if error \<noteq> None then ''error'' else ''success''), t_started = started_at,
         t_completed = Some completed_at, t_duration = Some (duration_of started_at completed_at)\<rparr>))))"

section \<open>Reading\<close>

text \<open>A column that is NULL or the empty text gives nothing, and so does a text that is no JSON.\<close>

definition text_or_none :: "string option \<Rightarrow> string option" where
  "text_or_none s = (case s of None \<Rightarrow> None | Some s \<Rightarrow> if s = '''' then None else Some s)"

definition json_or_none :: "(string \<Rightarrow> 'j option) \<Rightarrow> string option \<Rightarrow> 'j option" where
  "json_or_none de s = (case text_or_none s of None \<Rightarrow> None | Some s \<Rightarrow> de s)"

definition row_to_tool_call :: "(string \<Rightarrow> 'j option) \<Rightarrow> tool_row \<Rightarrow> 'j tool_call" where
  "row_to_tool_call de r =
    \<lparr>tc_id = t_id r, tc_name = t_name r, tc_parameters = json_or_none de (Some (t_parameters r)),
     tc_result = json_or_none de (t_result r), tc_error = text_or_none (t_error r),
     tc_status = status_from (t_status r), tc_started_at = t_started r,
     tc_completed_at = t_completed r, tc_duration_ms = t_duration r\<rparr>"

definition tool_get :: "(string \<Rightarrow> 'j option) \<Rightarrow> i64 \<Rightarrow> ('z conn_scheme, 'j tool_call option) oper" where
  "tool_get de i =
    sq get_connection
    (bnd (query (\<lambda>t. look t_id (tool_calls t) i)) (\<lambda>r. ret (map_option (row_to_tool_call de) r)))"

text \<open>The server refuses a negative LIMIT.\<close>

definition tool_recent ::
  "(string \<Rightarrow> 'j option) \<Rightarrow> i64 option \<Rightarrow> ('z conn_scheme, 'j tool_call list) oper" where
  "tool_recent de limit =
    (let n = (case limit of None \<Rightarrow> 100 | Some n \<Rightarrow> n) in
     sq get_connection
     (bnd (stmt (\<lambda>c. if n < 0 then (Inl Postgres, c)
            else (Inr (take (nat n) (sort_key (\<lambda>r. - t_started r) (tool_calls (tabs c)))), c)))
       (\<lambda>rows. ret (map (row_to_tool_call de) rows))))"

text \<open>
  One row of the statistics queries: \<open>COUNT(*)\<close> and \<open>SUM\<close> over INTEGER are BIGINT, \<open>AVG\<close> over
  BIGINT is NUMERIC.
\<close>

definition count_status :: "string \<Rightarrow> tool_row list \<Rightarrow> nat" where
  "count_status s rs = length (filter (\<lambda>r. t_status r = s) rs)"

definition stats_row :: "string \<Rightarrow> tool_row list \<Rightarrow> pg_column list" where
  "stats_row name rs =
    [PgText name, PgInt8 (int (length rs)), PgInt8 (int (count_status ''success'' rs)),
     PgInt8 (int (count_status ''error'' rs)),
     PgNumeric (sum_list (map (\<lambda>r. case t_duration r of None \<Rightarrow> 0 | Some d \<Rightarrow> d) rs) div int (length rs))]"

definition row_to_stats :: "pg_column driver \<Rightarrow> (i64 \<Rightarrow> f64) \<Rightarrow> pg_column list \<Rightarrow> tool_call_stats" where
  "row_to_stats D to_f64 cols =
    \<lparr>ts_name = (case decode_column D (cols ! 0) of Text s \<Rightarrow> s | _ \<Rightarrow> ''''),
     ts_total_calls = integer_or_zero D (cols ! 1),
     ts_successful = integer_or_zero D (cols ! 2),
     ts_failed = integer_or_zero D (cols ! 3),
     ts_avg_duration_ms = (case decode_column D (cols ! 4) of Real f \<Rightarrow> f | Integer i \<Rightarrow> to_f64 i | _ \<Rightarrow> 0)\<rparr>"

definition tool_stats_for ::
  "pg_column driver \<Rightarrow> (i64 \<Rightarrow> f64) \<Rightarrow> string \<Rightarrow> ('z conn_scheme, tool_call_stats option) oper" where
  "tool_stats_for D to_f64 name =
    sq get_connection
    (bnd (query (\<lambda>t. filter (\<lambda>r. t_name r = name) (tool_calls t))) (\<lambda>rs.
       ret (if rs = [] then None else Some (row_to_stats D to_f64 (stats_row name rs)))))"

definition tool_stats ::
  "pg_column driver \<Rightarrow> (i64 \<Rightarrow> f64) \<Rightarrow> ('z conn_scheme, tool_call_stats list) oper" where
  "tool_stats D to_f64 =
    sq get_connection
    (bnd (query (\<lambda>t. sort_key (\<lambda>g. - int (length (snd g)))
           (map (\<lambda>n. (n, filter (\<lambda>r. t_name r = n) (tool_calls t))) (remdups (map t_name (tool_calls t))))))
       (\<lambda>groups. ret (map (\<lambda>(n, rs). row_to_stats D to_f64 (stats_row n rs)) groups)))"

section \<open>The life of a call\<close>

text \<open>
  The invariant: ids are unique and below the serial, the status is one of the three, and a call
  has a completion time and a duration exactly when it is no longer pending, the duration being
  that of the two times.
\<close>

definition row_ok :: "tool_row \<Rightarrow> bool" where
  "row_ok r \<longleftrightarrow>
    (t_status r = ''pending'' \<and> t_completed r = None \<and> t_duration r = None) \<or>
    (t_status r \<in> {''success'', ''error''} \<and>
      (\<exists>x. t_completed r = Some x \<and> t_duration r = Some (duration_of (t_started r) x)))"

definition tools_ok :: "'z conn_scheme \<Rightarrow> bool" where
  "tools_ok c \<longleftrightarrow>
    distinct (map t_id (tool_calls (tabs c))) \<and>
    (\<forall>r \<in> set (tool_calls (tabs c)). t_id r < seq_tool c \<and> row_ok r)"

datatype 'j tool_op =
    ToolStart clock string "'j option"
  | ToolSuccess clock i64 "'j option"
  | ToolError clock i64 string
  | ToolRecord string i64 i64 "'j option" "'j option" "string option"

fun tool_exec :: "('j \<Rightarrow> string option) \<Rightarrow> 'j tool_op \<Rightarrow> ('z conn_scheme, unit) oper" where
  "tool_exec ser (ToolStart now n p) = bnd (tool_start ser now n p) (\<lambda>_. ret ())"
| "tool_exec ser (ToolSuccess now i r) = tool_success ser now i r"
| "tool_exec ser (ToolError now i e) = tool_error now i e"
| "tool_exec ser (ToolRecord n s e p r err) = bnd (tool_record ser n s e p r err) (\<lambda>_. ret ())"

inductive tool_reach :: "('j \<Rightarrow> string option) \<Rightarrow> 'z conn_scheme \<Rightarrow> 'z conn_scheme \<Rightarrow> bool" for ser c0 where
  tool_init: "tool_reach ser c0 c0"
| tool_step: "tool_reach ser c0 c \<Longrightarrow> tool_exec ser op c = (r, c') \<Longrightarrow> tool_reach ser c0 c'"

inductive_cases tool_reachE: "tool_reach ser c0 c"

text \<open>
  The trail is append-only: a call keeps its id, its name, its parameters and its start, and stays
  completed.
\<close>

definition continues :: "tool_row \<Rightarrow> tool_row \<Rightarrow> bool" where
  "continues r r' \<longleftrightarrow>
    t_id r' = t_id r \<and> t_name r' = t_name r \<and> t_parameters r' = t_parameters r \<and> t_started r' = t_started r \<and>
    (t_status r \<noteq> ''pending'' \<longrightarrow> t_status r' \<noteq> ''pending'')"

definition audited :: "tool_row set \<Rightarrow> 'z conn_scheme \<Rightarrow> bool" where
  "audited T c \<longleftrightarrow> tools_ok c \<and> (\<forall>r \<in> T. \<exists>r' \<in> set (tool_calls (tabs c)). continues r r')"

interpretation audit: statement_invariant "audited T" for T
  by unfold_locales (auto simp: audited_def tools_ok_def abort_txn_def split: txn.splits)

lemma insert_tool_audited:
  assumes "\<And>i. t_id (mk i) = i" and "\<And>i. row_ok (mk i)"
  shows "preserves (audited T) (insert_tool mk)"
  unfolding insert_tool_def
  by (intro audit.stmt_inv)
    (use assms in \<open>auto simp: preserves_def audited_def tools_ok_def Let_def intro: less_trans zless_add1_eq\<close>)

text \<open>
  A completion reads the start of the call and updates its row; the read is of the same session,
  so the start is that of the row.
\<close>

lemma update_tool_audited:
  fixes c :: "'z conn_scheme"
  assumes au: "audited T c" and st: "\<And>r. r \<in> set (tool_calls (tabs c)) \<Longrightarrow> t_id r = i \<Longrightarrow> t_started r = s"
    and f: "\<And>r. continues r (f r)" and ok: "\<And>r. t_started r = s \<Longrightarrow> row_ok (f r)"
  shows "audited T (snd (update_tool i f c))"
proof -
  let ?g = "\<lambda>t. t\<lparr>tool_calls := map (\<lambda>r. if t_id r = i then f r else r) (tool_calls t)\<rparr>"
  have idf: "t_id (f r) = t_id r" for r using f [of r] by (simp add: continues_def)
  have refl: "continues r r" for r by (simp add: continues_def)
  have "audited T (c\<lparr>tabs := ?g (tabs c)\<rparr>)"
  proof -
    have "distinct (map t_id (tool_calls (?g (tabs c))))"
    proof -
      have "map t_id (tool_calls (?g (tabs c))) = map t_id (tool_calls (tabs c))" by (simp add: idf)
      then show ?thesis using au by (simp only: audited_def tools_ok_def)
    qed
    moreover have "t_id r' < seq_tool c \<and> row_ok r'" if "r' \<in> set (tool_calls (?g (tabs c)))" for r'
      using that au st ok idf by (auto simp: audited_def tools_ok_def)
    moreover have "\<exists>r' \<in> set (tool_calls (?g (tabs c))). continues r r'" if "r \<in> T" for r
    proof -
      obtain q where q: "q \<in> set (tool_calls (tabs c))" "continues r q" using au \<open>r \<in> T\<close> by (auto simp: audited_def)
      then have "continues r (if t_id q = i then f q else q)" using f [of q] by (auto simp: continues_def)
      moreover have "(if t_id q = i then f q else q) \<in> set (tool_calls (?g (tabs c)))"
        using imageI [OF q(1), of "\<lambda>r. if t_id r = i then f r else r"] by simp
      ultimately show ?thesis by blast
    qed
    ultimately show ?thesis unfolding audited_def tools_ok_def by (simp del: tables.simps)
  qed
  then show ?thesis
    using au by (auto simp: update_tool_def write_tables_def stmt_def audited_def tools_ok_def abort_txn_def
        split: txn.splits list.splits bool.splits)
qed

lemma select_started_run:
  assumes "select_started i c = (Inr s, c')"
  shows "tabs c' = tabs c" "\<exists>r. look t_id (tool_calls (tabs c)) i = Some r \<and> t_started r = s"
  using assms
  by (auto simp: select_started_def query_def stmt_def bnd_def ok_or_def
      split: txn.splits list.splits bool.splits option.splits)

lemma completion_audited:
  assumes "\<And>s r. continues r (g s r)" and "\<And>r. row_ok (g (t_started r) r)"
  shows "preserves (audited T) (bnd (select_started i) (\<lambda>s. update_tool i (g s)))"
proof (rule preservesI)
  fix c :: "'z conn_scheme"
  assume au: "audited T c"
  obtain r c1 where sel: "select_started i c = (r, c1)" by fastforce
  have "preserves (audited T) (select_started i)"
    unfolding select_started_def query_def by (intro pres audit.stmt_inv) (simp add: preserves_def)
  then have au1: "audited T c1" using au sel unfolding preserves_def by (metis snd_conv)
  show "audited T (snd (bnd (select_started i) (\<lambda>s. update_tool i (g s)) c))"
  proof (cases r)
    case (Inl e)
    then show ?thesis using sel au1 by simp
  next
    case (Inr s)
    note run = select_started_run [OF sel [unfolded Inr]]
    have "distinct (map t_id (tool_calls (tabs c)))" using au by (simp add: audited_def tools_ok_def)
    note iff = look_Some_iff [OF this, of i]
    have "t_started q = s" if "q \<in> set (tool_calls (tabs c1))" "t_id q = i" for q
    proof -
      have "look t_id (tool_calls (tabs c)) i = Some q" using that run(1) iff by simp
      then show ?thesis using run(2) by simp
    qed
    then have "audited T (snd (update_tool i (g s) c1))"
      by (rule update_tool_audited [OF au1]) (use assms in auto)
    then show ?thesis using sel Inr by simp
  qed
qed

lemma serialize_audited: "preserves (audited T) (serialize_opt ser v)"
  unfolding serialize_opt_def by (intro pres)

lemma clock_audited: "preserves (audited T) (clock_now now)"
  unfolding clock_now_def by (intro pres)

lemma tool_exec_audited: "preserves (audited T) (tool_exec ser op)"
proof (cases op)
  case (ToolStart now n p)
  show ?thesis unfolding ToolStart tool_exec.simps tool_start_def
    by (intro pres serialize_audited clock_audited insert_tool_audited audit.get_connection_inv) (simp_all add: row_ok_def)
next
  case (ToolSuccess now i r)
  show ?thesis unfolding ToolSuccess tool_exec.simps tool_success_def
    by (intro pres serialize_audited clock_audited completion_audited audit.get_connection_inv)
      (simp_all add: row_ok_def continues_def)
next
  case (ToolError now i e)
  show ?thesis unfolding ToolError tool_exec.simps tool_error_def
    by (intro pres clock_audited completion_audited audit.get_connection_inv) (simp_all add: row_ok_def continues_def)
next
  case (ToolRecord n s e p r err)
  show ?thesis unfolding ToolRecord tool_exec.simps tool_record_def
    by (intro pres serialize_audited insert_tool_audited audit.get_connection_inv) (simp_all add: row_ok_def)
qed

section \<open>The properties\<close>

lemma tool_reach_audited: "tool_reach ser c0 c \<Longrightarrow> audited T c0 \<Longrightarrow> audited T c"
proof (induction rule: tool_reach.induct)
  case (tool_step c op r c')
  then show ?case using preservesD [OF tool_exec_audited, of T c ser op] by simp
qed

text \<open>
  C33.  The audit trail keeps its books, whatever statements the server fails: however calls are
  started, completed, failed and recorded, ids stay unique, a call has a completion time and the
  duration between its two times exactly when it is no longer pending, and the trail is
  append-only: no call is lost, each keeps its name, its parameters and its start, and none goes
  back to pending.
\<close>

theorem tool_trail_append_only:
  fixes c0 c :: "'z conn_scheme"
  assumes "tools_ok c0" and "tool_reach ser c0 c"
  shows "tools_ok c \<and> (\<forall>r \<in> set (tool_calls (tabs c0)). \<exists>r' \<in> set (tool_calls (tabs c)). continues r r')"
proof -
  have "audited (set (tool_calls (tabs c0))) c0"
    using assms(1) unfolding audited_def by (auto intro!: bexI simp: continues_def)
  from tool_reach_audited [OF assms(2) this] show ?thesis by (simp add: audited_def)
qed

theorem tool_trail_append_only_witness:
  "let ser = (\<lambda>n :: nat. if n = 0 then None else Some ''1'');
       c1 = snd (tool_exec ser (ToolStart (Some (7, 0)) ''grep'' (Some 1)) sample_conn);
       c2 = snd (tool_exec ser (ToolSuccess (Some (9, 0)) 1 None) c1)
   in tools_ok c2 \<and> map t_status (tool_calls (tabs c2)) = [''success'']"
proof -
  let ?ser = "\<lambda>n :: nat. if n = 0 then None else Some ''1''"
  let ?op1 = "ToolStart (Some (7, 0)) ''grep'' (Some (1 :: nat))" and ?op2 = "ToolSuccess (Some (9, 0)) 1 None"
  let ?c1 = "snd (tool_exec ?ser ?op1 sample_conn)"
  let ?c2 = "snd (tool_exec ?ser ?op2 ?c1)"
  have "tools_ok sample_conn" by (simp add: tools_ok_def sample_tables_def)
  moreover have "tool_reach ?ser sample_conn ?c2"
    by (rule tool_step [OF tool_step [OF tool_init prod.collapse [symmetric]] prod.collapse [symmetric]])
  ultimately have "tools_ok ?c2" using tool_trail_append_only by blast
  moreover have "map t_status (tool_calls (tabs ?c2)) = [''success'']"
    by (simp add: tool_start_def tool_success_def serialize_opt_def insert_tool_def select_started_def update_tool_def
        run sample_conn_def sample_tables_def ready_def sq_def bnd_def)
  ultimately show ?thesis by (simp only: Let_def simp_thms)
qed

text \<open>
  The statistics of a tool count its calls: the total is the number of rows of the tool, the
  successful, the failed and the pending ones add up to it, and there are none for a tool never
  called.  The average duration is always reported as zero, since the driver does not convert the
  NUMERIC that \<open>AVG\<close> over a BIGINT column returns.
\<close>

theorem stats_count_calls:
  fixes c :: "'z conn_scheme"
  assumes "pg_driver D" and "ready c" and "tools_ok c"
  shows "let rs = filter (\<lambda>r. t_name r = name) (tool_calls (tabs c)) in
    tool_stats_for D conv name c =
      (Inr (if rs = [] then None else
         Some \<lparr>ts_name = name, ts_total_calls = int (length rs),
               ts_successful = int (count_status ''success'' rs), ts_failed = int (count_status ''error'' rs),
               ts_avg_duration_ms = 0\<rparr>), c) \<and>
    count_status ''success'' rs + count_status ''error'' rs + count_status ''pending'' rs = length rs"
proof -
  let ?rs = "filter (\<lambda>r. t_name r = name) (tool_calls (tabs c))"
  note drv = pg_driver.integer_int8 [OF assms(1)] pg_driver.decode_numeric [OF assms(1)] pg_driver.decode_text [OF assms(1)]
  have "\<forall>r \<in> set rs. row_ok r \<Longrightarrow>
      count_status ''success'' rs + count_status ''error'' rs + count_status ''pending'' rs = length rs" for rs
    by (induction rs) (auto simp: count_status_def row_ok_def)
  then have "count_status ''success'' ?rs + count_status ''error'' ?rs + count_status ''pending'' ?rs = length ?rs"
    using assms(3) by (simp add: tools_ok_def)
  then show ?thesis
    using assms(2) by (simp add: Let_def tool_stats_for_def run row_to_stats_def stats_row_def drv)
qed

theorem stats_count_calls_witness:
  "let row = (\<lambda>i s. \<lparr>t_id = i, t_name = ''ls'', t_parameters = '''', t_result = None, t_error = None,
         t_status = s, t_started = 5, t_completed = (if s = ''pending'' then None else Some 8),
         t_duration = (if s = ''pending'' then None else Some 3000)\<rparr>);
       c = sample_conn\<lparr>tabs := sample_tables\<lparr>tool_calls := [row 1 ''success'', row 2 ''error'', row 3 ''pending'']\<rparr>,
         seq_tool := 4\<rparr>
   in fst (tool_stats_for pg_types (\<lambda>i. 0) ''ls'' c) =
     Inr (Some \<lparr>ts_name = ''ls'', ts_total_calls = 3, ts_successful = 1, ts_failed = 1, ts_avg_duration_ms = 0\<rparr>)"
proof -
  let ?row = "\<lambda>i s. \<lparr>t_id = i, t_name = ''ls'', t_parameters = '''', t_result = None, t_error = None,
         t_status = s, t_started = 5, t_completed = (if s = ''pending'' then None else Some 8),
         t_duration = (if s = ''pending'' then None else Some 3000)\<rparr>"
  let ?c = "sample_conn\<lparr>tabs := sample_tables\<lparr>tool_calls := [?row 1 ''success'', ?row 2 ''error'', ?row 3 ''pending'']\<rparr>,
         seq_tool := 4\<rparr>"
  have "duration_of 5 8 = 3000" by (simp add: duration_of_def wrap_i64_def)
  then have "tools_ok ?c" by (simp add: tools_ok_def row_ok_def)
  moreover have "ready ?c" by (simp add: ready_def sample_conn_def)
  ultimately show ?thesis
    using stats_count_calls [OF pg.pg_driver_axioms, where name = "''ls''" and c = ?c and conv = "\<lambda>i. 0"]
    by (simp add: Let_def count_status_def)
qed

end
