(* ===== verification/Volume.thy ===== *)
theory Volume
  imports Fs_Machine
begin

text \<open>
  Volumes (\<open>filesystem/volume.rs\<close>): a volume is a directory below the global root, registered in
  \<open>fs_volumes\<close>.  Destroying a volume removes its tree by four statements with a recursive common
  table expression.  The recursion of the server joins the rows of the last round with the
  directory table until a round is empty (\<open>UNION ALL\<close>): on a cycle it does not end, so it is a
  partial function, and an operation that does not return is \<open>None\<close>.
\<close>

section \<open>ensure\<close>

definition insert_volume :: "string \<Rightarrow> i64 \<Rightarrow> ('z conn_scheme, unit) oper" where
  "insert_volume vid root =
    write_tables (\<lambda>t.
      if vid \<in> v_id ` set (fs_volumes t) \<or> root \<notin> i_ino ` set (fs_inode t) then None
      else Some (t\<lparr>fs_volumes := fs_volumes t @ [\<lparr>v_id = vid, v_root = root\<rparr>]\<rparr>))"

definition select_root :: "string \<Rightarrow> ('z conn_scheme, i64 option) oper" where
  "select_root vid = query (\<lambda>t. map_option v_root (look v_id (fs_volumes t) vid))"

text \<open>Like \<open>create_file\<close>, it opens a transaction and does not roll it back on the error paths.\<close>

definition ensure :: "clock \<Rightarrow> u32 \<Rightarrow> u32 \<Rightarrow> string \<Rightarrow> ('z conn_scheme, i64) oper" where
  "ensure now uid gid vid =
    bnd (select_root vid) (\<lambda>r.
    case r of
      Some ino \<Rightarrow> ret ino
    | None \<Rightarrow>
        sq begin_txn
        (bnd (clock_now now) (\<lambda>(secs, nsec).
         bnd (insert_inode (new_inode DEFAULT_DIR_MODE 2 uid gid 0 0 secs nsec)) (\<lambda>root_ino.
         sq (insert_dentry vid 1 root_ino)
         (sq (insert_volume vid root_ino)
         (sq commit_txn (ret root_ino)))))))"

section \<open>destroy\<close>

text \<open>One round of the recursion, and the rounds until one is empty.\<close>

definition children :: "dentry_row list \<Rightarrow> i64 list \<Rightarrow> i64 list" where
  "children D work = concat (map (\<lambda>i. map d_ino (filter (\<lambda>d. d_parent d = i) D)) work)"

partial_function (option) subtree_rows :: "dentry_row list \<Rightarrow> i64 list \<Rightarrow> i64 list \<Rightarrow> i64 list option" where
  "subtree_rows D work acc =
    (if work = [] then Some acc else subtree_rows D (children D work) (acc @ work))"

text \<open>
  A statement whose condition is the subtree of \<open>root\<close>.  A statement that does not reach the server
  fails at once; one that does returns when the recursion does.
\<close>

type_synonym ('s, 'a) maybe_oper = "'s \<Rightarrow> ((error + 'a) \<times> 's) option"

definition refused :: "'z conn_scheme \<Rightarrow> bool" where
  "refused c \<longleftrightarrow> (case txn_state c of Aborted s \<Rightarrow> True | _ \<Rightarrow> (case faults c of f # fs \<Rightarrow> f | [] \<Rightarrow> False))"

definition over_subtree :: "i64 \<Rightarrow> (i64 set \<Rightarrow> ('z conn_scheme, nat) oper) \<Rightarrow> ('z conn_scheme, nat) maybe_oper" where
  "over_subtree root f c =
    (if refused c then Some (f {} c)
     else map_option (\<lambda>s. f (set s) c) (subtree_rows (fs_dentry (tabs c)) [root] []))"

definition bnd_maybe :: "('s, 'a) maybe_oper \<Rightarrow> ('a \<Rightarrow> ('s, 'b) maybe_oper) \<Rightarrow> ('s, 'b) maybe_oper" where
  "bnd_maybe m f s =
    (case m s of None \<Rightarrow> None | Some (Inl e, s') \<Rightarrow> Some (Inl e, s') | Some (Inr x, s') \<Rightarrow> f x s')"

definition returns :: "('s, 'a) oper \<Rightarrow> ('s, 'a) maybe_oper" where
  "returns m s = Some (m s)"

text \<open>\<open>DELETE FROM fs_volumes\<close> cascades to the rollback state and the snapshots of the volume.\<close>

definition delete_volume :: "string \<Rightarrow> ('z conn_scheme, unit) oper" where
  "delete_volume vid =
    write_tables (\<lambda>t. Some (t\<lparr>
      fs_volumes := filter (\<lambda>v. v_id v \<noteq> vid) (fs_volumes t),
      fs_volume_state := filter (\<lambda>s. s_volume s \<noteq> vid) (fs_volume_state t),
      fs_snapshots := filter (\<lambda>p. p_volume p \<noteq> vid) (fs_snapshots t)\<rparr>))"

definition destroy :: "string \<Rightarrow> ('z conn_scheme, bool) maybe_oper" where
  "destroy vid =
    bnd_maybe (returns (select_root vid)) (\<lambda>r.
    case r of
      None \<Rightarrow> returns (ret False)
    | Some root_ino \<Rightarrow>
        bnd_maybe (returns (delete_volume vid)) (\<lambda>_.
        bnd_maybe (returns (delete_dentries (\<lambda>d. d_parent d = 1 \<and> d_ino d = root_ino))) (\<lambda>_.
        bnd_maybe (over_subtree root_ino (\<lambda>S. delete_data (\<lambda>b. b_ino b \<in> S))) (\<lambda>_.
        bnd_maybe (over_subtree root_ino (\<lambda>S. delete_symlinks (\<lambda>l. l_ino l \<in> S))) (\<lambda>_.
        bnd_maybe (over_subtree root_ino (\<lambda>S. delete_inodes (\<lambda>r. i_ino r \<in> S))) (\<lambda>_.
        bnd_maybe (over_subtree root_ino (\<lambda>S. delete_dentries (\<lambda>d. d_ino d \<in> S \<or> d_parent d \<in> S))) (\<lambda>_.
          returns (ret True))))))))"

section \<open>The recursion\<close>

text \<open>What lies below a directory.\<close>

inductive below :: "dentry_row list \<Rightarrow> i64 \<Rightarrow> i64 \<Rightarrow> bool" for D root where
  below_root: "below D root root"
| below_child: "below D root (d_parent d) \<Longrightarrow> d \<in> set D \<Longrightarrow> below D root (d_ino d)"

lemma children_iff: "i \<in> set (children D work) \<longleftrightarrow> (\<exists>d \<in> set D. d_parent d \<in> set work \<and> d_ino d = i)"
  by (auto simp: children_def)

text \<open>
  The entries below \<open>root\<close>, from a directory to what it names.  Where they have no cycle the rounds
  end, with everything below the root: the number of inodes below one goes down along the entries.
\<close>

definition edges :: "dentry_row list \<Rightarrow> i64 \<Rightarrow> (i64 \<times> i64) set" where
  "edges D root = {(d_parent d, d_ino d) | d. d \<in> set D \<and> below D root (d_parent d)}"

definition ranked :: "dentry_row list \<Rightarrow> i64 \<Rightarrow> (i64 \<Rightarrow> nat) \<Rightarrow> bool" where
  "ranked D root h \<longleftrightarrow> (\<forall>d \<in> set D. below D root (d_parent d) \<longrightarrow> h (d_ino d) < h (d_parent d))"

lemma finite_edges: "finite (edges D root)"
  by (rule finite_subset [of _ "(\<lambda>d. (d_parent d, d_ino d)) ` set D"]) (auto simp: edges_def)

lemma acyclic_ranked:
  assumes "acyclic (edges D root)"
  shows "ranked D root (\<lambda>i. card ((edges D root)\<^sup>+ `` {i}))"
  unfolding ranked_def
proof (intro ballI impI psubset_card_mono)
  fix d assume d: "d \<in> set D" "below D root (d_parent d)"
  then have e: "(d_parent d, d_ino d) \<in> edges D root" by (auto simp: edges_def)
  show "finite ((edges D root)\<^sup>+ `` {d_parent d})" using finite_edges by (simp add: finite_Image)
  have "(edges D root)\<^sup>+ `` {d_ino d} \<subseteq> (edges D root)\<^sup>+ `` {d_parent d}"
    using e by (auto intro: trancl_into_trancl2)
  moreover have "d_ino d \<in> (edges D root)\<^sup>+ `` {d_parent d}" "d_ino d \<notin> (edges D root)\<^sup>+ `` {d_ino d}"
    using e assms by (auto simp: acyclic_def)
  ultimately show "(edges D root)\<^sup>+ `` {d_ino d} \<subset> (edges D root)\<^sup>+ `` {d_parent d}" by blast
qed

lemma subtree_rounds:
  assumes "ranked D root h" and "\<And>i. i \<in> set work \<Longrightarrow> below D root i \<and> h i < n"
    and "\<And>i. i \<in> set acc \<Longrightarrow> below D root i"
    and "root \<in> set (acc @ work)"
    and "\<And>d. d \<in> set D \<Longrightarrow> d_parent d \<in> set acc \<Longrightarrow> d_ino d \<in> set (acc @ work)"
  shows "\<exists>s. subtree_rows D work acc = Some s \<and> set s = {i. below D root i}"
  using assms(2-)
proof (induction n arbitrary: work acc)
  case 0
  then have w: "work = []" by (cases work) auto
  have "i \<in> set acc" if "below D root i" for i
    using that
  proof (induction rule: below.induct)
    case (below_child d)
    then show ?case using 0(4) w by auto
  qed (use 0(3) w in simp)
  then show ?case using w 0(2) by (subst subtree_rows.simps) auto
next
  case (Suc n)
  let ?w = "children D work"
  have w': "below D root i \<and> h i < n" if i: "i \<in> set ?w" for i
  proof -
    obtain d where d: "d \<in> set D" "d_parent d \<in> set work" "d_ino d = i" using i by (auto simp: children_iff)
    then have "below D root (d_parent d)" "h (d_parent d) < Suc n" using Suc.prems(1) by auto
    then show ?thesis using below_child [of D root d] d assms(1) unfolding ranked_def by fastforce
  qed
  have "\<exists>s. subtree_rows D ?w (acc @ work) = Some s \<and> set s = {i. below D root i}"
  proof (rule Suc.IH [OF w'])
    show "below D root i" if "i \<in> set (acc @ work)" for i using that Suc.prems(1,2) by auto
    show "root \<in> set ((acc @ work) @ ?w)" using Suc.prems(3) by auto
    show "d_ino d \<in> set ((acc @ work) @ ?w)" if "d \<in> set D" "d_parent d \<in> set (acc @ work)" for d
      using that Suc.prems(4) [of d] by (auto simp: children_iff)
  qed
  moreover have "subtree_rows D [] acc = Some acc" by (subst subtree_rows.simps) simp
  ultimately show ?case
  proof (cases "work = []")
    case True
    have "i \<in> set acc" if "below D root i" for i
      using that by (induction rule: below.induct) (use Suc.prems(3,4) True in auto)
    then show ?thesis using True Suc.prems(2) by (subst subtree_rows.simps) auto
  qed (subst subtree_rows.simps, simp)
qed

lemma subtree_returns:
  "ranked D root h \<Longrightarrow> \<exists>s. subtree_rows D [root] [] = Some s \<and> set s = {i. below D root i}"
  by (rule subtree_rounds [of D root h _ "Suc (h root)"]) (auto intro: below_root)

text \<open>On a cycle the rounds never end.\<close>

definition endless :: "dentry_row list \<Rightarrow> i64 set \<Rightarrow> bool" where
  "endless D C \<longleftrightarrow> (\<forall>i \<in> C. \<exists>d \<in> set D. d_parent d = i \<and> d_ino d \<in> C)"

lemma subtree_only_returns:
  assumes "subtree_rows D work acc = Some s"
  shows "endless D C \<longrightarrow> C \<inter> set work = {}"
proof (rule subtree_rows.raw_induct [OF _ assms, where P = "\<lambda>D work acc s. endless D C \<longrightarrow> C \<inter> set work = {}"])
  fix f and D :: "dentry_row list" and work acc s :: "i64 list"
  assume IH: "\<And>D work acc y. f D work acc = Some y \<Longrightarrow> endless D C \<longrightarrow> C \<inter> set work = {}"
    and ret: "(if work = [] then Some acc else f D (children D work) (acc @ work)) = Some s"
  then have "endless D C \<longrightarrow> C \<inter> set (children D work) = {}" if "work \<noteq> []"
    using that by simp
  then show "endless D C \<longrightarrow> C \<inter> set work = {}"
    by (cases "work = []") (fastforce simp: children_iff endless_def)+
qed

lemma subtree_hangs: "\<lbrakk>endless D C; C \<inter> set work \<noteq> {}\<rbrakk> \<Longrightarrow> subtree_rows D work acc = None"
  using subtree_only_returns [of D work acc _ C] by (cases "subtree_rows D work acc") auto

lemma cycle_endless:
  assumes "\<not> acyclic (edges D root)"
  shows "endless D {i. below D root i \<and> (\<exists>j. (j, j) \<in> (edges D root)\<^sup>+ \<and> (i, j) \<in> (edges D root)\<^sup>*)}"
  unfolding endless_def
proof
  fix i assume "i \<in> {i. below D root i \<and> (\<exists>j. (j, j) \<in> (edges D root)\<^sup>+ \<and> (i, j) \<in> (edges D root)\<^sup>*)}"
  then obtain j where i: "below D root i" and j: "(j, j) \<in> (edges D root)\<^sup>+" "(i, j) \<in> (edges D root)\<^sup>*" by auto
  then have "(i, j) \<in> (edges D root)\<^sup>+" by (metis rtrancl_trancl_trancl)
  then obtain k where "(i, k) \<in> edges D root" "(k, j) \<in> (edges D root)\<^sup>*" by (meson tranclD)
  moreover from this obtain d where "d \<in> set D" "d_parent d = i" "d_ino d = k" by (auto simp: edges_def)
  moreover from this i have "below D root k" using below_child [of D root d] by simp
  ultimately show "\<exists>d\<in>set D. d_parent d = i \<and>
      d_ino d \<in> {i. below D root i \<and> (\<exists>j. (j, j) \<in> (edges D root)\<^sup>+ \<and> (i, j) \<in> (edges D root)\<^sup>*)}"
    using j(1) by blast
qed

text \<open>So the recursion of the server ends exactly when there is no cycle below the root.\<close>

lemma below_reached: "below D root i \<Longrightarrow> (root, i) \<in> (edges D root)\<^sup>*"
  by (induction rule: below.induct) (auto simp: edges_def intro: rtrancl_into_rtrancl)

lemma subtree_returns_iff: "(\<exists>s. subtree_rows D [root] [] = Some s) \<longleftrightarrow> acyclic (edges D root)"
proof
  assume "acyclic (edges D root)"
  then show "\<exists>s. subtree_rows D [root] [] = Some s" using subtree_returns [OF acyclic_ranked] by blast
next
  assume s: "\<exists>s. subtree_rows D [root] [] = Some s"
  show "acyclic (edges D root)"
  proof (rule ccontr)
    assume cyc: "\<not> acyclic (edges D root)"
    then obtain j where j: "(j, j) \<in> (edges D root)\<^sup>+" by (auto simp: acyclic_def)
    then obtain k where "(j, k) \<in> edges D root" by (meson tranclD)
    then have "(root, j) \<in> (edges D root)\<^sup>*" using below_reached by (auto simp: edges_def)
    then show False using subtree_hangs [OF cycle_endless [OF cyc], of "[root]" "[]"] j s below_root by fastforce
  qed
qed

section \<open>Destroying a volume\<close>

text \<open>The directory table without the entry of the volume itself.\<close>

definition detached :: "i64 \<Rightarrow> tables \<Rightarrow> dentry_row list" where
  "detached root t = filter (\<lambda>d. \<not> (d_parent d = 1 \<and> d_ino d = root)) (fs_dentry t)"

lemma over_subtree_ready:
  "ready c \<Longrightarrow>
    over_subtree root f c = map_option (\<lambda>s. f (set s) c) (subtree_rows (fs_dentry (tabs c)) [root] [])"
  by (auto simp: over_subtree_def refused_def ready_def split: txn.split)

text \<open>The entry of the volume leads to its root only: what is below the root is below it without the entry.\<close>

lemma below_detached: "below (detached root t) root i \<longleftrightarrow> below (fs_dentry t) root i"
proof
  show "below (detached root t) root i \<Longrightarrow> below (fs_dentry t) root i"
    by (induction rule: below.induct) (auto simp: detached_def intro: below.intros)
  show "below (fs_dentry t) root i \<Longrightarrow> below (detached root t) root i"
  proof (induction rule: below.induct)
    case (below_child d)
    then show ?case using below.below_child [of "detached root t" root d] below_root by (cases "d_ino d = root") (auto simp: detached_def)
  qed (rule below_root)
qed

definition pruned :: "i64 set \<Rightarrow> 'z conn_scheme \<Rightarrow> 'z conn_scheme \<Rightarrow> bool" where
  "pruned S c c' \<longleftrightarrow>
    ready c' \<and> seq_inode c' = seq_inode c \<and> seq_dentry c' = seq_dentry c \<and>
    fs_inode (tabs c') = filter (\<lambda>r. i_ino r \<notin> S) (fs_inode (tabs c)) \<and>
    fs_data (tabs c') = filter (\<lambda>b. b_ino b \<notin> S) (fs_data (tabs c)) \<and>
    fs_symlink (tabs c') = filter (\<lambda>l. l_ino l \<notin> S) (fs_symlink (tabs c)) \<and>
    fs_dentry (tabs c') = filter (\<lambda>d. d_ino d \<notin> S \<and> d_parent d \<notin> S) (fs_dentry (tabs c))"

text \<open>
  The volumes that go: the one named, and those whose root is one of the inodes that go, by the
  cascade of the foreign key.
\<close>

definition gone_volume :: "string \<Rightarrow> i64 set \<Rightarrow> tables \<Rightarrow> volume_row \<Rightarrow> bool" where
  "gone_volume vid S t x \<longleftrightarrow> v_id x = vid \<or> v_root x \<in> S \<and> v_root x \<in> i_ino ` set (fs_inode t)"

definition cascaded :: "string \<Rightarrow> i64 set \<Rightarrow> 'z conn_scheme \<Rightarrow> 'z conn_scheme \<Rightarrow> bool" where
  "cascaded vid S c c' \<longleftrightarrow>
    (let gone = v_id ` {x \<in> set (fs_volumes (tabs c)). gone_volume vid S (tabs c) x} in
     fs_volumes (tabs c') = filter (\<lambda>x. \<not> gone_volume vid S (tabs c) x) (fs_volumes (tabs c)) \<and>
     fs_volume_state (tabs c') = filter (\<lambda>x. s_volume x \<notin> gone) (fs_volume_state (tabs c)) \<and>
     fs_snapshots (tabs c') = filter (\<lambda>x. p_volume x \<notin> gone) (fs_snapshots (tabs c)))"

lemma destroy_ready:
  assumes rd: "ready c" and v: "look v_id (fs_volumes (tabs c)) vid = Some v"
  shows "destroy vid c = None \<longleftrightarrow> \<not> acyclic (edges (detached (v_root v) (tabs c)) (v_root v))"
    and "acyclic (edges (detached (v_root v) (tabs c)) (v_root v)) \<Longrightarrow>
      \<exists>c'. destroy vid c = Some (Inr True, c') \<and> pruned {i. below (fs_dentry (tabs c)) (v_root v) i} c c' \<and>
        cascaded vid {i. below (fs_dentry (tabs c)) (v_root v) i} c c'"
proof -
  let ?root = "v_root v" and ?D = "detached (v_root v) (tabs c)"
  define c2 where "c2 = snd (sq (delete_volume vid) (delete_dentries (\<lambda>d. d_parent d = 1 \<and> d_ino d = ?root)) c)"
  have c2: "ready c2" "fs_dentry (tabs c2) = ?D"
    using rd by (simp_all add: c2_def delete_volume_def run detached_def)
  have run2: "destroy vid c =
      bnd_maybe (over_subtree ?root (\<lambda>S. delete_data (\<lambda>b. b_ino b \<in> S))) (\<lambda>_.
      bnd_maybe (over_subtree ?root (\<lambda>S. delete_symlinks (\<lambda>l. l_ino l \<in> S))) (\<lambda>_.
      bnd_maybe (over_subtree ?root (\<lambda>S. delete_inodes (\<lambda>r. i_ino r \<in> S))) (\<lambda>_.
      bnd_maybe (over_subtree ?root (\<lambda>S. delete_dentries (\<lambda>d. d_ino d \<in> S \<or> d_parent d \<in> S))) (\<lambda>_.
        returns (ret True))))) c2"
    using rd v by (simp add: destroy_def bnd_maybe_def returns_def select_root_def delete_volume_def run c2_def)
  have tree: "\<exists>c'. destroy vid c = Some (Inr True, c') \<and> pruned (set s) (c\<lparr>tabs := (tabs c)\<lparr>fs_dentry := ?D\<rparr>\<rparr>) c' \<and>
        cascaded vid (set s) c c'"
    if s: "subtree_rows ?D [?root] [] = Some s" for s
    unfolding run2 using c2 s rd
    by (simp add: bnd_maybe_def over_subtree_ready run returns_def Let_def pruned_def)
       (insert look_Some_key [OF v], auto simp: cascaded_def gone_volume_def c2_def delete_volume_def run
         cascade_inodes_def Let_def image_iff intro!: filter_cong)
  have "destroy vid c = None" if "subtree_rows ?D [?root] [] = None"
    unfolding run2 using c2 that by (simp add: bnd_maybe_def over_subtree_ready)
  then show "destroy vid c = None \<longleftrightarrow> \<not> acyclic (edges ?D ?root)"
    using tree subtree_returns_iff [of ?D ?root] by (metis not_Some_eq option.distinct(1))
  assume "acyclic (edges ?D ?root)"
  then obtain s where s: "subtree_rows ?D [?root] [] = Some s" "set s = {i. below (fs_dentry (tabs c)) ?root i}"
    using subtree_returns [OF acyclic_ranked] by (fastforce simp: below_detached)
  have "filter (\<lambda>d. d_ino d \<notin> set s \<and> d_parent d \<notin> set s) ?D =
      filter (\<lambda>d. d_ino d \<notin> set s \<and> d_parent d \<notin> set s) (fs_dentry (tabs c))"
    unfolding detached_def filter_filter s(2) by (rule filter_cong) (auto intro: below.intros)
  with tree [OF s(1)] show "\<exists>c'. destroy vid c = Some (Inr True, c') \<and>
      pruned {i. below (fs_dentry (tabs c)) ?root i} c c' \<and> cascaded vid {i. below (fs_dentry (tabs c)) (v_root v) i} c c'"
    unfolding s(2) [symmetric] by (auto simp: pruned_def)
qed

text \<open>
  Pruning a set of inodes that is closed under the entries keeps the name space consistent: the
  survivors lose no entry.
\<close>

lemma links_filter: "(\<And>d. d \<in> set D \<Longrightarrow> d_ino d = i \<Longrightarrow> p d) \<Longrightarrow> links (filter p D) i = links D i"
  unfolding links_def filter_filter by (rule arg_cong [where f = length], rule filter_cong) auto

lemma pruned_inv:
  assumes inv: "ns_inv c" and pr: "pruned S c c'"
    and S: "\<And>d. d \<in> set (fs_dentry (tabs c)) \<Longrightarrow> d_parent d \<in> S \<Longrightarrow> d_ino d \<in> S"
  shows "ns_inv c'"
    and "ino_map (tabs c') i = (if i \<in> S then None else ino_map (tabs c) i)"
    and "dir_map (tabs c') k = (case dir_map (tabs c) k of Some i \<Rightarrow> if i \<in> S then None else Some i | None \<Rightarrow> None)"
proof -
  let ?D = "fs_dentry (tabs c)"
  have f: "fs_inode (tabs c') = filter (\<lambda>r. i_ino r \<notin> S) (fs_inode (tabs c))"
    "fs_dentry (tabs c') = filter (\<lambda>d. d_ino d \<notin> S \<and> d_parent d \<notin> S) ?D"
    "fs_data (tabs c') = filter (\<lambda>b. b_ino b \<notin> S) (fs_data (tabs c))"
    "fs_symlink (tabs c') = filter (\<lambda>l. l_ino l \<notin> S) (fs_symlink (tabs c))"
    using pr by (simp_all add: pruned_def)
  show I: "ino_map (tabs c') i = (if i \<in> S then None else ino_map (tabs c) i)" for i
    using ns_invD(1) [OF inv] f(1)
    by (auto simp: ino_map_def look_filter inode_ok_def split: option.split)
  show "dir_map (tabs c') k = (case dir_map (tabs c) k of Some i \<Rightarrow> if i \<in> S then None else Some i | None \<Rightarrow> None)"
    using ns_invD(2) [OF inv] f(2) S
    by (auto simp: dir_map_def look_filter dentry_ok_def split: option.split)
  have kept: "links (fs_dentry (tabs c')) i = links ?D i" if "i \<notin> S" for i
    unfolding f(2) using S that by (intro links_filter) auto
  have "keys_ok (tabs c')"
    using inv f by (simp add: ns_inv_def keys_ok_def constraint_defs distinct_map_filter)
  moreover have "below_serials c'"
    using inv f(2) pr by (auto simp: ns_inv_def below_serials_def I pruned_def)
  moreover have "entries_ok (ino_map (tabs c')) (fs_dentry (tabs c'))"
    using inv f(2) by (auto simp: ns_inv_def entries_ok_def I)
  moreover have "counts_ok (ino_map (tabs c')) (fs_dentry (tabs c'))"
    using inv kept by (auto simp: ns_inv_def counts_ok_def I split: if_splits)
  moreover have "owned (ino_map (tabs c')) (b_ino ` set (fs_data (tabs c')) \<union> l_ino ` set (fs_symlink (tabs c')))"
    using inv f(3,4) by (auto simp: ns_inv_def owned_def I)
  ultimately show "ns_inv c'" by (simp add: ns_inv_def)
qed

section \<open>Creating a volume\<close>

lemma ensure_ready:
  assumes rd: "ready c" "txn_state c = NoTxn" and inv: "ns_inv c" and free: "dir_map (tabs c) (1, vid) = None"
    and new: "look v_id (fs_volumes (tabs c)) vid = None"
    and p: "ino_map (tabs c) 1 = Some pr" "is_dir pr"
    and r: "r = new_inode DEFAULT_DIR_MODE 2 uid gid 0 0 s ns (seq_inode c)"
  obtains c' where "ensure (Some (s, ns)) uid gid vid c = (Inr (seq_inode c), c')"
    and "created c c' 1 vid r id" and "ready c'" and "txn_state c' = NoTxn"
    and "fs_volumes (tabs c') = fs_volumes (tabs c) @ [\<lparr>v_id = vid, v_root = seq_inode c\<rparr>]"
    and "fs_symlink (tabs c') = fs_symlink (tabs c)"
proof -
  let ?n = "seq_inode c" and ?F = "fs_inode (tabs c)" and ?D = "fs_dentry (tabs c)"
  let ?e = "\<lparr>d_id = seq_dentry c, d_name = vid, d_parent = 1, d_ino = ?n\<rparr>"
  let ?mk = "new_inode DEFAULT_DIR_MODE 2 uid gid 0 0 s ns"
  let ?c0 = "c\<lparr>txn_state := Active (tabs c)\<rparr>"
  let ?c1 = "put_inode [Inserted r] (?F @ [r]) (?c0\<lparr>seq_inode := ?n + 1\<rparr>)"
  let ?c2 = "put_dentry [Inserted ?e] (?D @ [?e]) (?c1\<lparr>seq_dentry := seq_dentry c + 1\<rparr>)"
  let ?c3 = "?c2\<lparr>tabs := (tabs ?c2)\<lparr>fs_volumes := fs_volumes (tabs c) @ [\<lparr>v_id = vid, v_root = ?n\<rparr>]\<rparr>\<rparr>"
  have ok: "inode_ok (?F @ [r])"
    using inode_ok_snoc [OF ns_invD(1) [OF inv], of r] fresh_inode(1) [OF inv] r by simp
  have D: "dentry_ok (?D @ [?e])" by (rule new_entry_ok [OF inv free])
  have v: "vid \<notin> v_id ` set (fs_volumes (tabs c))" using new by (simp add: look_None_iff)
  have run: "ensure (Some (s, ns)) uid gid vid c = (Inr ?n, end_kept ?c3)"
    using rd new ok D v r by (simp add: ensure_def select_root_def insert_volume_def run)
  have "created c ?c3 1 vid r id"
    using ns_invD(3,4) [OF inv] ok D r look_inode_snoc [of r ?F] fresh_inode(1,2) [OF inv] p
    by (auto simp: created_def keys_ok_def ino_map_def fun_eq_iff)
  then show ?thesis
    using that [OF run] rd by (simp add: created_end_kept ready_def)
qed

lemma leaf_below: "\<lbrakk>below D root i; \<And>d. d \<in> set D \<Longrightarrow> d_parent d \<noteq> root\<rbrakk> \<Longrightarrow> i = root"
  by (induction rule: below.induct) auto

text \<open>
  C38.  A new volume is one new directory below the root, named by its identifier; asking for it
  again returns the same inode and changes nothing; and destroying it at once returns and gives
  back the directories and the inodes there were.  The name space is consistent all the way.
\<close>

theorem ensure_destroy_roundtrip:
  assumes "ready c" and "txn_state c = NoTxn" and "ns_inv c" and "dir_at (tabs c) 1"
    and "dir_map (tabs c) (1, vid) = None" and "look v_id (fs_volumes (tabs c)) vid = None"
  shows "\<exists>c1 c2. ensure (Some (s, ns)) uid gid vid c = (Inr (seq_inode c), c1) \<and>
    ns_inv c1 \<and> dir_at (tabs c1) (seq_inode c) \<and> dir_map (tabs c1) = (dir_map (tabs c))((1, vid) \<mapsto> seq_inode c) \<and>
    ensure now uid' gid' vid c1 = (Inr (seq_inode c), c1) \<and>
    destroy vid c1 = Some (Inr True, c2) \<and>
    ns_inv c2 \<and> ino_map (tabs c2) = ino_map (tabs c) \<and> dir_map (tabs c2) = dir_map (tabs c)"
proof -
  let ?n = "seq_inode c" and ?r = "new_inode DEFAULT_DIR_MODE 2 uid gid 0 0 s ns (seq_inode c)"
  obtain pr where p: "ino_map (tabs c) 1 = Some pr" "is_dir pr" using assms(4) by (auto simp: dir_at_def split: option.splits)
  obtain c1 where c1: "ensure (Some (s, ns)) uid gid vid c = (Inr ?n, c1)" "created c c1 1 vid ?r id" "ready c1"
    "fs_volumes (tabs c1) = fs_volumes (tabs c) @ [\<lparr>v_id = vid, v_root = ?n\<rparr>]"
    by (rule ensure_ready [OF assms(1-3,5,6) p refl])
  have dir: "is_dir ?r" by (simp add: is_dir_new DEFAULT_DIR_MODE_def S_IFMT_def S_IFDIR_def)
  have inv1: "ns_inv c1" by (rule created_inv [OF assms(3) p c1(2)]) (use p dir in simp_all)
  have D: "dir_map (tabs c1) = (dir_map (tabs c))((1, vid) \<mapsto> ?n)"
    by (rule created_dir_map [OF c1(2) assms(5)])
  have fresh: "ino_map (tabs c) ?n = None" by (rule fresh_inode(2) [OF assms(3)])
  then have n1: "?n \<noteq> 1" using p by auto
  have I: "ino_map (tabs c1) = (ino_map (tabs c))(?n \<mapsto> ?r)"
    using c1(2) p n1 by (auto simp: created_def)
  have v: "look v_id (fs_volumes (tabs c1)) vid = Some \<lparr>v_id = vid, v_root = ?n\<rparr>"
    using c1(4) assms(6) by (simp add: look_append)
  have leaf: "d_parent d \<noteq> ?n" if "d \<in> set (fs_dentry (tabs c1))" for d
    using that c1(2) n1 ns_invD(6) [OF assms(3)] fresh by (auto simp: created_def entries_ok_def)
  then have tree: "below (fs_dentry (tabs c1)) ?n i \<longleftrightarrow> i = ?n" for i
    using leaf_below [of "fs_dentry (tabs c1)" ?n i] below_root by auto
  have "edges (detached ?n (tabs c1)) ?n = {}"
    using leaf unfolding edges_def below_detached tree by (auto simp: detached_def)
  then have "acyclic (edges (detached ?n (tabs c1)) ?n)" by (simp add: acyclic_def)
  then obtain c2 where c2: "destroy vid c1 = Some (Inr True, c2)" "pruned {?n} c1 c2"
    using destroy_ready(2) [OF c1(3) v] by (auto simp: tree)
  have S: "d_ino d \<in> {?n}" if "d \<in> set (fs_dentry (tabs c1))" "d_parent d \<in> {?n}" for d
    using leaf that by auto
  have "dir_map (tabs c) k \<noteq> Some ?n" for k
    using ns_invD(6) [OF assms(3)] fresh by (fastforce simp: dir_map_def entries_ok_def)
  then have "dir_map (tabs c2) = dir_map (tabs c)"
    using pruned_inv(3) [OF inv1 c2(2) S] D assms(5) by (auto simp: fun_eq_iff split: option.split)
  moreover have "ino_map (tabs c2) = ino_map (tabs c)"
    using pruned_inv(2) [OF inv1 c2(2) S] I fresh by (auto simp: fun_eq_iff)
  moreover have "dir_at (tabs c1) ?n" using I dir by (simp add: dir_at_def)
  moreover have "ensure now uid' gid' vid c1 = (Inr ?n, c1)"
    using c1(3) v by (simp add: ensure_def select_root_def run)
  ultimately show ?thesis using c1(1) inv1 D c2(1) pruned_inv(1) [OF inv1 c2(2) S] by blast
qed

theorem ensure_destroy_roundtrip_witness:
  "\<exists>c1 c2. ensure (Some (7, 8)) 1000 1000 ''w'' sample_fs = (Inr 5, c1) \<and>
    dir_map (tabs c1) = (dir_map (tabs sample_fs))((1, ''w'') \<mapsto> 5) \<and>
    ensure None 0 0 ''w'' c1 = (Inr 5, c1) \<and> destroy ''w'' c1 = Some (Inr True, c2) \<and>
    ino_map (tabs c2) = ino_map (tabs sample_fs)"
proof -
  have "dir_at (tabs sample_fs) 1" "dir_map (tabs sample_fs) (1, ''w'') = None"
    "look v_id (fs_volumes (tabs sample_fs)) ''w'' = None"
    by (simp_all add: sample_defs dir_at_def ino_map_def dir_map_def is_dir_def mode_type_def S_IFMT_def S_IFDIR_def
        u32_of_i64_def)
  then show ?thesis
    using ensure_destroy_roundtrip [of sample_fs "''w''" 7 8 1000 1000 None 0 0] by auto
qed

section \<open>When destroying returns\<close>

text \<open>
  C29.  Destroying an existing volume returns exactly when there is no cycle of directories below
  its root, once the entry of the volume itself is gone.  Then it reports success, and what was
  below the root, and nothing else, has gone: the inodes, every name of one of them (also one
  outside the volume), the chunks and the link targets of these inodes, and the row of the volume
  with its rollback state and its snapshots (and likewise of a volume whose root lies below).
  Everything else is the same row for row, and the name space is consistent.
\<close>

theorem destroy_returns:
  assumes "ready c" and "ns_inv c" and "look v_id (fs_volumes (tabs c)) vid = Some v"
  shows "((\<exists>out. destroy vid c = Some out) \<longleftrightarrow> acyclic (edges (detached (v_root v) (tabs c)) (v_root v))) \<and>
    (\<forall>r c'. destroy vid c = Some (r, c') \<longrightarrow> r = Inr True \<and> ns_inv c' \<and>
      fs_inode (tabs c') = filter (\<lambda>x. \<not> below (fs_dentry (tabs c)) (v_root v) (i_ino x)) (fs_inode (tabs c)) \<and>
      fs_dentry (tabs c') = filter (\<lambda>d. \<not> below (fs_dentry (tabs c)) (v_root v) (d_ino d)) (fs_dentry (tabs c)) \<and>
      fs_data (tabs c') = filter (\<lambda>b. \<not> below (fs_dentry (tabs c)) (v_root v) (b_ino b)) (fs_data (tabs c)) \<and>
      fs_symlink (tabs c') = filter (\<lambda>l. \<not> below (fs_dentry (tabs c)) (v_root v) (l_ino l)) (fs_symlink (tabs c)) \<and>
      cascaded vid {i. below (fs_dentry (tabs c)) (v_root v) i} c c')"
proof (intro conjI allI impI)
  let ?S = "{i. below (fs_dentry (tabs c)) (v_root v) i}"
  have S: "d_ino d \<in> ?S" if "d \<in> set (fs_dentry (tabs c))" "d_parent d \<in> ?S" for d
    using that by (auto intro: below_child)
  show "(\<exists>out. destroy vid c = Some out) \<longleftrightarrow> acyclic (edges (detached (v_root v) (tabs c)) (v_root v))"
    using destroy_ready(1) [OF assms(1,3)] by (metis not_Some_eq)
  fix r c'
  assume run: "destroy vid c = Some (r, c')"
  then have "acyclic (edges (detached (v_root v) (tabs c)) (v_root v))"
    using destroy_ready(1) [OF assms(1,3)] by auto
  from destroy_ready(2) [OF assms(1,3) this] run
  have eff: "r = Inr True" "pruned ?S c c'" "cascaded vid ?S c c'" by auto
  have "filter (\<lambda>d. d_ino d \<notin> ?S \<and> d_parent d \<notin> ?S) (fs_dentry (tabs c)) =
      filter (\<lambda>d. \<not> below (fs_dentry (tabs c)) (v_root v) (d_ino d)) (fs_dentry (tabs c))"
    by (rule filter_cong) (use S in auto)
  then show "r = Inr True" "ns_inv c'"
    "fs_inode (tabs c') = filter (\<lambda>x. \<not> below (fs_dentry (tabs c)) (v_root v) (i_ino x)) (fs_inode (tabs c))"
    "fs_dentry (tabs c') = filter (\<lambda>d. \<not> below (fs_dentry (tabs c)) (v_root v) (d_ino d)) (fs_dentry (tabs c))"
    "fs_data (tabs c') = filter (\<lambda>b. \<not> below (fs_dentry (tabs c)) (v_root v) (b_ino b)) (fs_data (tabs c))"
    "fs_symlink (tabs c') = filter (\<lambda>l. \<not> below (fs_dentry (tabs c)) (v_root v) (l_ino l)) (fs_symlink (tabs c))"
    "cascaded vid ?S c c'"
    using eff pruned_inv(1) [OF assms(2) eff(2) S] by (simp_all add: pruned_def)
qed

text \<open>
  A volume whose root directory lies in itself, as the inode-based rename leaves it when it moves
  the root into itself: destroying the volume never returns.
\<close>

theorem destroy_hangs:
  assumes "ready c" and "look v_id (fs_volumes (tabs c)) vid = Some v"
    and "dir_map (tabs c) (v_root v, n) = Some (v_root v)" and "v_root v \<noteq> 1"
  shows "destroy vid c = None"
proof -
  obtain d where d: "d \<in> set (fs_dentry (tabs c))" "d_parent d = v_root v" "d_ino d = v_root v"
    using assms(3) by (auto simp: dir_map_def)
  then have "(v_root v, v_root v) \<in> edges (detached (v_root v) (tabs c)) (v_root v)"
    using assms(4) below_root by (force simp: edges_def detached_def)
  then have "\<not> acyclic (edges (detached (v_root v) (tabs c)) (v_root v))" by (auto simp: acyclic_def)
  then show ?thesis using destroy_ready(1) [OF assms(1,2)] by simp
qed

theorem destroy_returns_witness:
  "\<exists>c'. destroy ''w'' (sample_fs\<lparr>tabs := sample_tables\<lparr>fs_volumes := [\<lparr>v_id = ''w'', v_root = 3\<rparr>]\<rparr>\<rparr>) = Some (Inr True, c') \<and>
    ns_inv c' \<and> dir_map (tabs c') (1, ''d'') = None \<and> dir_map (tabs c') (1, ''a'') = Some 2 \<and>
    fs_data (tabs c') = fs_data sample_tables"
proof -
  let ?c = "sample_fs\<lparr>tabs := sample_tables\<lparr>fs_volumes := [\<lparr>v_id = ''w'', v_root = 3\<rparr>]\<rparr>\<rparr>"
  have inv: "ns_inv ?c"
    using sample_ns_inv by (simp add: ns_inv_def keys_ok_def below_serials_def ino_map_def)
  have rd: "ready ?c" and vol: "look v_id (fs_volumes (tabs ?c)) ''w'' = Some \<lparr>v_id = ''w'', v_root = 3\<rparr>"
    using sample_fs_sel(3) by (simp_all add: ready_def)
  have leaf: "d_parent d \<noteq> 3" if "d \<in> set (fs_dentry (tabs ?c))" for d using that by (auto simp: sample_defs)
  then have tree: "below (fs_dentry (tabs ?c)) 3 i \<longleftrightarrow> i = 3" for i
    using leaf_below [of "fs_dentry (tabs ?c)" 3 i] below_root by auto
  have "edges (detached 3 (tabs ?c)) 3 = {}"
    using leaf unfolding edges_def below_detached tree by (auto simp: detached_def)
  then have "acyclic (edges (detached 3 (tabs ?c)) 3)" by (simp add: acyclic_def)
  note ret = destroy_returns [OF rd inv vol, unfolded volume_row.simps]
  from \<open>acyclic _\<close> ret obtain c' where c': "destroy ''w'' ?c = Some (Inr True, c')" by (metis surj_pair)
  with ret have eff: "ns_inv c'"
    "fs_dentry (tabs c') = filter (\<lambda>d. \<not> below (fs_dentry (tabs ?c)) 3 (d_ino d)) (fs_dentry (tabs ?c))"
    "fs_data (tabs c') = filter (\<lambda>b. \<not> below (fs_dentry (tabs ?c)) 3 (b_ino b)) (fs_data (tabs ?c))" by blast+
  then have "dir_map (tabs c') (1, ''d'') = None" "dir_map (tabs c') (1, ''a'') = Some 2"
    "fs_data (tabs c') = fs_data sample_tables"
    unfolding tree by (simp_all add: dir_map_def sample_defs)
  then show ?thesis using c' eff(1) by blast
qed

end
