(* ===== verification/Fd_Table.thy ===== *)
theory Fd_Table
  imports Prelude
begin

text \<open>
  The table of virtual file descriptors of the system call sandbox (\<open>sandbox/src/vfs/fdtable.rs\<close>).
  Descriptors are \<open>i32\<close> values, modelled as integers with the wrap-around of release builds
  written out.  The binary heap of freed descriptors is the sorted list of its elements: the
  sources only push, pop the least one and filter.  A \<open>panic!\<close> is the result \<open>None\<close>.
\<close>

section \<open>The table\<close>

definition i32_max :: int where "i32_max = 2 ^ 31 - 1"
definition wrap_i32 :: "int \<Rightarrow> int" where "wrap_i32 x = (x + 2 ^ 31) mod 2 ^ 32 - 2 ^ 31"
definition FIRST_USER_FD :: int where "FIRST_USER_FD = 3"

datatype 'o fd_entry =
    Passthrough int int "string option"
  | Virtual 'o int "string option"

fun kernel_fd :: "'o fd_entry \<Rightarrow> int option" where
  "kernel_fd (Passthrough k flags path) = Some k"
| "kernel_fd (Virtual ops flags path) = None"

fun fd_flags :: "'o fd_entry \<Rightarrow> int" where
  "fd_flags (Passthrough k flags path) = flags"
| "fd_flags (Virtual ops flags path) = flags"

fun fd_path :: "'o fd_entry \<Rightarrow> string option" where
  "fd_path (Passthrough k flags path) = path"
| "fd_path (Virtual ops flags path) = path"

fun file_ops :: "'o fd_entry \<Rightarrow> 'o option" where
  "file_ops (Passthrough k flags path) = None"
| "file_ops (Virtual ops flags path) = Some ops"

record 'o fd_table =
  entries :: "int \<Rightarrow> 'o fd_entry option"
  next_vfd :: int
  free_fds :: "int list"

definition fd_new :: "'o fd_table" where
  "fd_new =
    \<lparr>entries = [0 \<mapsto> Passthrough 0 0 None, 1 \<mapsto> Passthrough 1 0 None, 2 \<mapsto> Passthrough 2 0 None],
     next_vfd = FIRST_USER_FD, free_fds = []\<rparr>"

section \<open>Allocation\<close>

text \<open>\<open>(from..i32::MAX).find(|fd| !entries.contains_key(fd))\<close>\<close>

function first_free :: "(int \<Rightarrow> 'e option) \<Rightarrow> int \<Rightarrow> int option" where
  "first_free m fd =
    (if fd \<ge> i32_max then None else if m fd = None then Some fd else first_free m (fd + 1))"
  by pat_completeness auto
termination
  by (relation "measure (\<lambda>(m, fd). nat (i32_max - fd))") auto

declare first_free.simps [simp del]

definition allocate :: "'o fd_entry \<Rightarrow> 'o fd_table \<Rightarrow> (int \<times> 'o fd_table) option" where
  "allocate e t =
    (case free_fds t of
       fd # fds \<Rightarrow> Some (fd, t\<lparr>free_fds := fds, entries := (entries t)(fd \<mapsto> e)\<rparr>)
     | [] \<Rightarrow>
         if next_vfd t = i32_max then
           map_option (\<lambda>fd. (fd, t\<lparr>entries := (entries t)(fd \<mapsto> e)\<rparr>)) (first_free (entries t) FIRST_USER_FD)
         else
           Some (next_vfd t, t\<lparr>next_vfd := next_vfd t + 1, entries := (entries t)(next_vfd t \<mapsto> e)\<rparr>))"

text \<open>The loop that frees the descriptors a far allocation skips, and the new upper end.\<close>

definition skip_to :: "int \<Rightarrow> 'o fd_table \<Rightarrow> 'o fd_table" where
  "skip_to vfd t =
    (if vfd \<ge> next_vfd t then
       t\<lparr>free_fds := fold insort
           (filter (\<lambda>fd. fd \<ge> FIRST_USER_FD \<and> entries t fd = None) [next_vfd t..vfd - 1]) (free_fds t),
         next_vfd := wrap_i32 (vfd + 1)\<rparr>
     else t)"

definition unfree :: "int \<Rightarrow> 'o fd_table \<Rightarrow> 'o fd_table" where
  "unfree vfd t = t\<lparr>free_fds := filter (\<lambda>fd. fd \<noteq> vfd) (free_fds t)\<rparr>"

definition allocate_min :: "int \<Rightarrow> 'o fd_entry \<Rightarrow> 'o fd_table \<Rightarrow> (int \<times> 'o fd_table) option" where
  "allocate_min min_vfd e t =
    map_option (\<lambda>vfd.
      let t1 = unfree vfd (skip_to vfd t) in (vfd, t1\<lparr>entries := (entries t1)(vfd \<mapsto> e)\<rparr>))
      (first_free (entries t) min_vfd)"

definition allocate_at :: "int \<Rightarrow> 'o fd_entry \<Rightarrow> 'o fd_table \<Rightarrow> 'o fd_entry option \<times> 'o fd_table" where
  "allocate_at vfd e t =
    (let t1 = skip_to vfd (unfree vfd t) in (entries t1 vfd, t1\<lparr>entries := (entries t1)(vfd \<mapsto> e)\<rparr>))"

section \<open>Lookup, release and duplication\<close>

definition fd_get :: "'o fd_table \<Rightarrow> int \<Rightarrow> 'o fd_entry option" where
  "fd_get t vfd = entries t vfd"

definition translate :: "'o fd_table \<Rightarrow> int \<Rightarrow> int option" where
  "translate t vfd = Option.bind (entries t vfd) kernel_fd"

definition deallocate :: "int \<Rightarrow> 'o fd_table \<Rightarrow> 'o fd_entry option \<times> 'o fd_table" where
  "deallocate vfd t =
    (case entries t vfd of
       None \<Rightarrow> (None, t)
     | Some e \<Rightarrow>
         (Some e, t\<lparr>entries := (entries t)(vfd := None),
                   free_fds := (if vfd \<ge> FIRST_USER_FD then insort vfd (free_fds t) else free_fds t)\<rparr>))"

text \<open>The outer option of \<open>duplicate\<close> is the panic, the inner one the \<open>?\<close> of the source.\<close>

definition duplicate :: "int \<Rightarrow> 'o fd_table \<Rightarrow> (int option \<times> 'o fd_table) option" where
  "duplicate old t =
    (case fd_get t old of
       None \<Rightarrow> Some (None, t)
     | Some e \<Rightarrow> map_option (\<lambda>(fd, t'). (Some fd, t')) (allocate e t))"

definition duplicate_at :: "int \<Rightarrow> int \<Rightarrow> 'o fd_table \<Rightarrow> 'o fd_entry option \<times> 'o fd_table" where
  "duplicate_at old new t =
    (case fd_get t old of None \<Rightarrow> (None, t) | Some e \<Rightarrow> allocate_at new e t)"

section \<open>The invariant\<close>

text \<open>
  The free list holds exactly the unused descriptors between 3 and the upper end, and no entry
  lies at or above the upper end.
\<close>

definition fd_ok :: "'o fd_table \<Rightarrow> bool" where
  "fd_ok t \<longleftrightarrow>
    sorted (free_fds t) \<and> distinct (free_fds t) \<and>
    set (free_fds t) = {fd. FIRST_USER_FD \<le> fd \<and> fd < next_vfd t \<and> entries t fd = None} \<and>
    (\<forall>fd. entries t fd \<noteq> None \<longrightarrow> fd < next_vfd t) \<and>
    FIRST_USER_FD \<le> next_vfd t \<and> next_vfd t \<le> i32_max"

lemma fd_okD:
  assumes "fd_ok t"
  shows "sorted (free_fds t)" "distinct (free_fds t)"
    "set (free_fds t) = {fd. FIRST_USER_FD \<le> fd \<and> fd < next_vfd t \<and> entries t fd = None}"
    "\<And>fd. entries t fd \<noteq> None \<Longrightarrow> fd < next_vfd t" "FIRST_USER_FD \<le> next_vfd t" "next_vfd t \<le> i32_max"
  using assms by (simp_all add: fd_ok_def)

lemma fd_okI:
  assumes "sorted (free_fds t)" "distinct (free_fds t)" "next_vfd t = n"
    "\<And>fd. fd \<in> set (free_fds t) \<longleftrightarrow> FIRST_USER_FD \<le> fd \<and> fd < n \<and> entries t fd = None"
    "\<And>fd e. entries t fd = Some e \<Longrightarrow> fd < n" "FIRST_USER_FD \<le> n" "n \<le> i32_max"
  shows "fd_ok t"
  using assms by (auto simp: fd_ok_def)

text \<open>\<open>lowest m from fd\<close>: the lowest unused descriptor at or above \<open>from\<close>.\<close>

definition lowest :: "(int \<Rightarrow> 'e option) \<Rightarrow> int \<Rightarrow> int \<Rightarrow> bool" where
  "lowest m from fd \<longleftrightarrow> from \<le> fd \<and> m fd = None \<and> (\<forall>g. from \<le> g \<longrightarrow> g < fd \<longrightarrow> m g \<noteq> None)"

lemma first_free_spec:
  "first_free m from = Some fd \<longleftrightarrow> lowest m from fd \<and> fd < i32_max"
proof (induction m "from" rule: first_free.induct)
  case (1 m "from")
  have step: "lowest m from fd \<longleftrightarrow> lowest m (from + 1) fd" if "m from \<noteq> None"
    using that unfolding lowest_def by (metis order_le_less zless_add1_eq add1_zle_eq order.strict_trans1 less_le_not_le)
  show ?case
  proof (cases "from \<ge> i32_max")
    case True
    then show ?thesis by (subst first_free.simps) (auto simp: lowest_def)
  next
    case False
    then show ?thesis using 1 step
      by (subst first_free.simps) (auto simp: lowest_def intro: order.antisym leI)
  qed
qed

lemma first_free_None: "first_free m from = None \<longleftrightarrow> (\<forall>fd. from \<le> fd \<longrightarrow> fd < i32_max \<longrightarrow> m fd \<noteq> None)"
proof (induction m "from" rule: first_free.induct)
  case (1 m "from")
  have split: "(\<forall>fd. from \<le> fd \<longrightarrow> fd < i32_max \<longrightarrow> m fd \<noteq> None) \<longleftrightarrow>
      m from \<noteq> None \<and> (\<forall>fd. from + 1 \<le> fd \<longrightarrow> fd < i32_max \<longrightarrow> m fd \<noteq> None)" if "\<not> from \<ge> i32_max"
    using that by (metis add1_zle_eq le_less linorder_not_le)
  show ?case using 1 split by (subst first_free.simps) auto
qed

lemma lowest_unique: "lowest m from fd \<Longrightarrow> lowest m from fd' \<Longrightarrow> fd = fd'"
  unfolding lowest_def by (metis linorder_neqE)

lemma fd_new_ok: "fd_ok fd_new"
  by (auto simp: fd_ok_def fd_new_def FIRST_USER_FD_def i32_max_def split: if_splits)

text \<open>Filtering and pushing, on sorted lists without duplicates.\<close>

lemma fold_insort:
  "sorted xs \<Longrightarrow> sorted (fold insort ys xs)"
  "set (fold insort ys xs) = set ys \<union> set xs"
  "distinct xs \<Longrightarrow> distinct ys \<Longrightarrow> set xs \<inter> set ys = {} \<Longrightarrow> distinct (fold insort ys xs)"
proof (induction ys arbitrary: xs)
  case (Cons y ys)
  {
    case 1
    then show ?case using Cons(1) by (simp add: sorted_insort)
  next
    case 2
    then show ?case using Cons(2) by (auto simp: set_insort_key)
  next
    case 3
    then show ?case using Cons(3) [of "insort y xs"] by (auto simp: distinct_insort set_insort_key)
  }
qed simp_all

text \<open>
  A far allocation keeps the invariant up to the entry of \<open>vfd\<close> itself: the free list is the
  unused part below the new upper end.
\<close>

lemma skip_to_free:
  assumes "sorted (free_fds t)" "distinct (free_fds t)" "set (free_fds t) = F"
    and "F \<subseteq> {fd. fd < next_vfd t}" and "vfd \<ge> next_vfd t" and "vfd < i32_max" "FIRST_USER_FD \<le> next_vfd t"
  shows "sorted (free_fds (skip_to vfd t))" "distinct (free_fds (skip_to vfd t))"
    "set (free_fds (skip_to vfd t)) = F \<union> {fd. next_vfd t \<le> fd \<and> fd < vfd \<and> entries t fd = None}"
    "next_vfd (skip_to vfd t) = vfd + 1" "entries (skip_to vfd t) = entries t"
proof -
  have w: "wrap_i32 (vfd + 1) = vfd + 1"
    using assms(5-7) by (simp add: wrap_i32_def i32_max_def FIRST_USER_FD_def)
  let ?ys = "filter (\<lambda>fd. fd \<ge> FIRST_USER_FD \<and> entries t fd = None) [next_vfd t..vfd - 1]"
  have f: "free_fds (skip_to vfd t) = fold insort ?ys (free_fds t)"
    using assms(5) by (simp add: skip_to_def)
  show "sorted (free_fds (skip_to vfd t))" using assms(1) f by (simp add: fold_insort)
  show "distinct (free_fds (skip_to vfd t))"
    unfolding f using assms by (intro fold_insort) auto
  show "set (free_fds (skip_to vfd t)) = F \<union> {fd. next_vfd t \<le> fd \<and> fd < vfd \<and> entries t fd = None}"
    unfolding f fold_insort(2) using assms by auto
  show "next_vfd (skip_to vfd t) = vfd + 1" "entries (skip_to vfd t) = entries t"
    using assms(5) w by (simp_all add: skip_to_def)
qed

lemma allocate_spec:
  assumes "fd_ok t"
  shows "allocate e t = Some (fd, t') \<longleftrightarrow>
    lowest (entries t) FIRST_USER_FD fd \<and> fd < i32_max \<and>
    t' = t\<lparr>free_fds := tl (free_fds t), next_vfd := max (next_vfd t) (fd + 1), entries := (entries t)(fd \<mapsto> e)\<rparr>"
    (is "?l \<longleftrightarrow> ?r")
proof -
  note ok = fd_okD [OF assms]
  show ?thesis
  proof (cases "free_fds t")
    case (Cons x xs)
    then have x: "FIRST_USER_FD \<le> x" "x < next_vfd t" "entries t x = None" "\<And>y. y \<in> set xs \<Longrightarrow> x \<le> y"
      using ok(1,3) by auto
    have "lowest (entries t) FIRST_USER_FD x"
      unfolding lowest_def
    proof (intro conjI allI impI)
      fix g assume g: "FIRST_USER_FD \<le> g" "g < x"
      show "entries t g \<noteq> None"
      proof
        assume "entries t g = None"
        then have "g \<in> set (free_fds t)" using ok(3) g x(2) by simp
        then show False using Cons g(2) x(4) [of g] by auto
      qed
    qed (use x in simp_all)
    then have "?r \<longleftrightarrow> fd = x \<and> t' = t\<lparr>free_fds := xs, entries := (entries t)(x \<mapsto> e)\<rparr>"
      using lowest_unique [of "entries t" FIRST_USER_FD fd x] x(2) ok(6) Cons by (auto simp: max_def)
    then show ?thesis using Cons by (auto simp: allocate_def)
  next
    case Nil
    then have full: "entries t g \<noteq> None" if "FIRST_USER_FD \<le> g" "g < next_vfd t" for g using ok(3) that by auto
    have none: "entries t (next_vfd t) = None" using ok(4) by fastforce
    then have low: "lowest (entries t) FIRST_USER_FD (next_vfd t)" using full ok(5) by (simp add: lowest_def)
    show ?thesis
    proof (cases "next_vfd t = i32_max")
      case True
      have "first_free (entries t) FIRST_USER_FD = None" using full True by (simp add: first_free_None)
      then show ?thesis using Nil True low lowest_unique by (fastforce simp: allocate_def)
    next
      case False
      then have "next_vfd t < i32_max" using ok(6) by simp
      moreover have "?r \<longleftrightarrow> fd = next_vfd t \<and> t' = t\<lparr>next_vfd := next_vfd t + 1, entries := (entries t)(next_vfd t \<mapsto> e)\<rparr>"
        using lowest_unique [of "entries t" FIRST_USER_FD fd "next_vfd t"] low calculation Nil by auto
      ultimately show ?thesis using Nil False by (auto simp: allocate_def)
    qed
  qed
qed

lemma allocate_ok:
  assumes "fd_ok t" and "allocate e t = Some (fd, t')"
  shows "fd_ok t'"
proof -
  note ok = fd_okD [OF assms(1)]
  have low: "lowest (entries t) FIRST_USER_FD fd" "fd < i32_max" and
    t': "t' = t\<lparr>free_fds := tl (free_fds t), next_vfd := max (next_vfd t) (fd + 1), entries := (entries t)(fd \<mapsto> e)\<rparr>"
    using assms(2) allocate_spec [OF assms(1)] by blast+
  have tl: "set (tl (free_fds t)) = set (free_fds t) - {fd} \<and> sorted (tl (free_fds t)) \<and> distinct (tl (free_fds t))"
  proof (cases "free_fds t")
    case (Cons x xs)
    then have "fd = x" using assms(2) by (auto simp: allocate_def)
    then show ?thesis using Cons ok(1,2) by auto
  qed simp
  have "fd \<le> next_vfd t"
  proof (rule ccontr)
    assume "\<not> fd \<le> next_vfd t"
    then have "entries t (next_vfd t) \<noteq> None" using low(1) ok(5) unfolding lowest_def by auto
    then show False using ok(4) by blast
  qed
  then have set: "set (tl (free_fds t)) =
      {g. FIRST_USER_FD \<le> g \<and> g < max (next_vfd t) (fd + 1) \<and> ((entries t)(fd \<mapsto> e)) g = None}"
    unfolding conjunct1 [OF tl] ok(3) by (intro set_eqI) (auto simp: less_max_iff_disj)
  have "g < max (next_vfd t) (fd + 1)" if "((entries t)(fd \<mapsto> e)) g \<noteq> None" for g
    using that ok(4) [of g] by (cases "g = fd") (auto simp: less_max_iff_disj)
  then show ?thesis using set tl low(2) ok(5,6) unfolding fd_ok_def t' by simp
qed

lemma skip_to_entries [simp]: "entries (skip_to vfd t) = entries t" "entries (unfree vfd t) = entries t"
  by (simp_all add: skip_to_def unfree_def)

lemma unfree_sel [simp]:
  "free_fds (unfree vfd t) = filter (\<lambda>fd. fd \<noteq> vfd) (free_fds t)" "next_vfd (unfree vfd t) = next_vfd t"
  by (simp_all add: unfree_def)

lemma sorted_filter': "sorted xs \<Longrightarrow> sorted (filter p xs)" for xs :: "int list"
  using sorted_filter [of "\<lambda>x. x" xs p] by simp

text \<open>Placing an entry at a given descriptor, whatever the order of the two bookkeeping steps.\<close>

lemma unfree_skip_to:
  assumes "fd_ok t"
  shows "unfree vfd (skip_to vfd t) = skip_to vfd (unfree vfd t)"
proof (cases "vfd \<ge> next_vfd t")
  case True
  let ?ys = "filter (\<lambda>fd. fd \<ge> FIRST_USER_FD \<and> entries t fd = None) [next_vfd t..vfd - 1]"
  have "vfd \<notin> set (free_fds t)" using True fd_okD(3) [OF assms] by auto
  then have "filter (\<lambda>fd. fd \<noteq> vfd) (free_fds t) = free_fds t"
    "filter (\<lambda>fd. fd \<noteq> vfd) (fold insort ?ys (free_fds t)) = fold insort ?ys (free_fds t)"
    by (auto simp: filter_id_conv fold_insort)
  then show ?thesis using True by (simp add: skip_to_def unfree_def)
qed (simp add: skip_to_def unfree_def)

lemma place_ok:
  assumes "fd_ok t" and "vfd < i32_max"
  shows "fd_ok ((skip_to vfd (unfree vfd t))\<lparr>entries := (entries t)(vfd \<mapsto> e)\<rparr>)"
    and "fd_ok ((unfree vfd (skip_to vfd t))\<lparr>entries := (entries t)(vfd \<mapsto> e)\<rparr>)"
proof -
  note ok = fd_okD [OF assms(1)]
  have low: "F - {vfd} \<subseteq> {fd. fd < next_vfd t}" "F \<subseteq> {fd. fd < next_vfd t}" if "F = set (free_fds t)" for F
    using ok(3) that by auto
  have used: "fd < next_vfd t" if "entries t fd = Some x" for fd x using ok(4) that by blast
  show unfree: "fd_ok ((unfree vfd (skip_to vfd t))\<lparr>entries := (entries t)(vfd \<mapsto> e)\<rparr>)"
  proof (cases "vfd \<ge> next_vfd t")
    case True
    have sk: "sorted (free_fds (skip_to vfd t))" "distinct (free_fds (skip_to vfd t))"
      "set (free_fds (skip_to vfd t)) =
        set (free_fds t) \<union> {fd. next_vfd t \<le> fd \<and> fd < vfd \<and> entries t fd = None}"
      "next_vfd (skip_to vfd t) = vfd + 1"
      using skip_to_free [of t "set (free_fds t)" vfd] ok(1,2,5) True assms(2) low(2) [OF refl] by auto
    show ?thesis
    proof (rule fd_okI [of _ "vfd + 1"])
      fix fd
      have mem: "fd \<in> set (free_fds (skip_to vfd t)) \<longleftrightarrow> FIRST_USER_FD \<le> fd \<and> fd < vfd \<and> entries t fd = None"
        unfolding sk(3) ok(3) using ok(5) True by auto
      show "fd \<in> set (free_fds ((unfree vfd (skip_to vfd t))\<lparr>entries := (entries t)(vfd \<mapsto> e)\<rparr>)) \<longleftrightarrow>
          FIRST_USER_FD \<le> fd \<and> fd < vfd + 1 \<and>
          entries ((unfree vfd (skip_to vfd t))\<lparr>entries := (entries t)(vfd \<mapsto> e)\<rparr>) fd = None"
        using mem by auto
    next
      fix fd x
      show "entries ((unfree vfd (skip_to vfd t))\<lparr>entries := (entries t)(vfd \<mapsto> e)\<rparr>) fd = Some x \<Longrightarrow> fd < vfd + 1"
        using used [of fd x] True by (auto split: if_splits)
    qed (use sk(1,2,4) ok(5) True assms(2) in \<open>simp_all add: sorted_filter'\<close>)
  next
    case False
    then show ?thesis unfolding fd_ok_def using ok by (auto simp: skip_to_def sorted_filter')
  qed
  show "fd_ok ((skip_to vfd (unfree vfd t))\<lparr>entries := (entries t)(vfd \<mapsto> e)\<rparr>)"
    using unfree unfree_skip_to [OF assms(1), of vfd] by simp
qed

lemma allocate_min_ok:
  assumes "fd_ok t" and "allocate_min m e t = Some (fd, t')"
  shows "fd_ok t'" "lowest (entries t) m fd" "entries t' = (entries t)(fd \<mapsto> e)"
  using assms place_ok(2) [OF assms(1), of fd e] first_free_spec [of "entries t" m fd]
  by (auto simp: allocate_min_def Let_def)

lemma allocate_at_ok:
  assumes "allocate_at vfd e t = (old, t')"
  shows "fd_ok t \<Longrightarrow> vfd < i32_max \<Longrightarrow> fd_ok t'" "old = entries t vfd" "entries t' = (entries t)(vfd \<mapsto> e)"
  using assms place_ok(1) [of t vfd e] by (auto simp: allocate_at_def Let_def)

lemma deallocate_ok:
  assumes "deallocate vfd t = (old, t')"
  shows "fd_ok t \<Longrightarrow> fd_ok t'" "old = entries t vfd" "entries t' = (entries t)(vfd := None)"
proof -
  show "old = entries t vfd" "entries t' = (entries t)(vfd := None)"
    using assms by (auto simp: deallocate_def fun_upd_idem split: option.splits)
  show "fd_ok t'" if ok: "fd_ok t"
  proof (cases "entries t vfd")
    case None
    then show ?thesis using assms ok by (simp add: deallocate_def)
  next
    case (Some e)
    note ok = fd_okD [OF ok]
    have n: "vfd < next_vfd t" "vfd \<notin> set (free_fds t)" using ok(3,4) Some by auto
    have t': "t' = t\<lparr>entries := (entries t)(vfd := None),
        free_fds := (if vfd \<ge> FIRST_USER_FD then insort vfd (free_fds t) else free_fds t)\<rparr>"
      using assms Some by (simp add: deallocate_def)
    show ?thesis
    proof (rule fd_okI [of _ "next_vfd t"])
      fix fd x
      show "fd \<in> set (free_fds t') \<longleftrightarrow> FIRST_USER_FD \<le> fd \<and> fd < next_vfd t \<and> entries t' fd = None"
        unfolding t' using ok(3) n by (auto simp: set_insort_key)
      show "entries t' fd = Some x \<Longrightarrow> fd < next_vfd t" using ok(4) [of fd] by (simp add: t' split: if_splits)
    qed (use ok n in \<open>auto simp: t' sorted_insort distinct_insort\<close>)
  qed
qed

section \<open>Reachable tables\<close>

text \<open>
  The operations as a step relation.  Placing an entry at the last \<open>i32\<close> is left out: there the
  upper end wraps around to \<open>i32::MIN\<close>.
\<close>

inductive fd_step :: "'o fd_table \<Rightarrow> 'o fd_table \<Rightarrow> bool" where
  step_allocate: "allocate e t = Some (fd, t') \<Longrightarrow> fd_step t t'"
| step_allocate_min: "allocate_min m e t = Some (fd, t') \<Longrightarrow> fd_step t t'"
| step_allocate_at: "vfd < i32_max \<Longrightarrow> allocate_at vfd e t = (old, t') \<Longrightarrow> fd_step t t'"
| step_deallocate: "deallocate vfd t = (old, t') \<Longrightarrow> fd_step t t'"
| step_duplicate: "duplicate v t = Some (r, t') \<Longrightarrow> fd_step t t'"
| step_duplicate_at: "w < i32_max \<Longrightarrow> duplicate_at v w t = (old, t') \<Longrightarrow> fd_step t t'"

inductive fd_reach :: "'o fd_table \<Rightarrow> bool" where
  reach_new: "fd_reach fd_new"
| reach_step: "fd_reach t \<Longrightarrow> fd_step t t' \<Longrightarrow> fd_reach t'"

lemma fd_step_ok: "fd_step t t' \<Longrightarrow> fd_ok t \<Longrightarrow> fd_ok t'"
proof (induction rule: fd_step.induct)
  case (step_duplicate v t r t')
  then show ?case by (auto simp: duplicate_def split: option.splits intro: allocate_ok)
next
  case (step_duplicate_at w v t old t')
  then show ?case using allocate_at_ok(1) [of w _ t old t'] by (auto simp: duplicate_at_def split: option.splits)
qed (auto intro: allocate_ok allocate_min_ok allocate_at_ok deallocate_ok)

lemma fd_reach_ok: "fd_reach t \<Longrightarrow> fd_ok t"
  by (induction rule: fd_reach.induct) (auto intro: fd_new_ok fd_step_ok)

text \<open>
  C18.  In every table that the operations reach, an allocation takes the lowest unused descriptor
  from 3 on, and changes no other descriptor; it panics only when all descriptors below
  \<open>i32::MAX\<close> are in use.
\<close>

theorem allocate_lowest:
  assumes "fd_reach t"
  shows "case allocate e t of
      Some (fd, t') \<Rightarrow> lowest (entries t) FIRST_USER_FD fd \<and> entries t' = (entries t)(fd \<mapsto> e)
    | None \<Rightarrow> (\<forall>fd. FIRST_USER_FD \<le> fd \<and> fd < i32_max \<longrightarrow> entries t fd \<noteq> None)"
proof (cases "allocate e t")
  case None
  have "entries t fd \<noteq> None" if "FIRST_USER_FD \<le> fd" "fd < i32_max" for fd
  proof
    assume "entries t fd = None"
    then have "first_free (entries t) FIRST_USER_FD \<noteq> None"
      unfolding first_free_None using that by blast
    then obtain g where "first_free (entries t) FIRST_USER_FD = Some g" by blast
    then show False
      using allocate_spec [OF fd_reach_ok [OF assms], of e g] None by (auto simp: first_free_spec)
  qed
  then show ?thesis using None by simp
next
  case (Some r)
  then show ?thesis using allocate_spec [OF fd_reach_ok [OF assms], of e "fst r" "snd r"] by (cases r) auto
qed

text \<open>After a far \<open>dup2\<close> and a \<open>close\<close>, the next descriptor is the one that was closed.\<close>

definition busy_table :: "unit fd_table" where
  "busy_table = snd (deallocate 3 (snd (duplicate_at 3 6 (snd (the (allocate (Passthrough 5 0 None) fd_new))))))"

theorem allocate_lowest_witness:
  "case allocate (Passthrough 8 0 None) busy_table of
      Some (fd, t') \<Rightarrow> fd = 3 \<and> entries t' = (entries busy_table)(3 \<mapsto> Passthrough 8 0 None) | None \<Rightarrow> False"
proof -
  have "fd_reach busy_table"
    unfolding busy_table_def
  proof (rule reach_step [OF reach_step [OF reach_step [OF reach_new]]])
    show "fd_step fd_new (snd (the (allocate (Passthrough 5 0 None) fd_new)))"
      by (rule step_allocate [of "Passthrough 5 0 None" _ 3]) (simp add: allocate_def fd_new_def FIRST_USER_FD_def i32_max_def)
  qed (rule step_duplicate_at [of 6], simp add: i32_max_def, rule prod.collapse [symmetric],
       rule step_deallocate, rule prod.collapse [symmetric])
  moreover have "allocate (Passthrough 8 0 None) busy_table \<noteq> None" "entries busy_table 3 = None"
    by (simp_all add: busy_table_def allocate_def deallocate_def duplicate_at_def allocate_at_def skip_to_def unfree_def
        fd_get_def fd_new_def FIRST_USER_FD_def i32_max_def upto.simps wrap_i32_def)
  moreover have "a = 3" if "lowest (entries busy_table) 3 a" for a
    using that lowest_unique [of "entries busy_table" 3 a 3] calculation(3) by (auto simp: lowest_def)
  ultimately show ?thesis
    using allocate_lowest [of busy_table "Passthrough 8 0 None"]
    by (cases "allocate (Passthrough 8 0 None) busy_table") (auto simp: FIRST_USER_FD_def)
qed

end
