(* ===== verification/Os_Names.thy ===== *)
theory Os_Names
  imports Prelude
begin

text \<open>
  What the front ends use of the operating system: the error numbers of \<open>libc\<close>, and which byte
  strings are text.
\<close>

section \<open>Error numbers\<close>

definition EPERM :: int where "EPERM = 1"
definition ENOENT :: int where "ENOENT = 2"
definition EIO :: int where "EIO = 5"
definition EBADF :: int where "EBADF = 9"
definition EAGAIN :: int where "EAGAIN = 11"
definition EACCES :: int where "EACCES = 13"
definition EFAULT :: int where "EFAULT = 14"
definition EEXIST :: int where "EEXIST = 17"
definition ENOTDIR :: int where "ENOTDIR = 20"
definition EINVAL :: int where "EINVAL = 22"
definition ENOSYS :: int where "ENOSYS = 38"
definition EBADFD :: int where "EBADFD = 77"

section \<open>Text\<close>

text \<open>Well-formed UTF-8: a path that is not has no \<open>to_str\<close>.\<close>

abbreviation in_range :: "char \<Rightarrow> nat \<Rightarrow> nat \<Rightarrow> bool" where
  "in_range c l h \<equiv> l \<le> of_char c \<and> (of_char c :: nat) \<le> h"

fun utf8 :: "string \<Rightarrow> bool" where
  "utf8 [] = True"
| "utf8 (a # s) =
    (if in_range a 0 127 then utf8 s
     else case s of
       [] \<Rightarrow> False
     | b # s \<Rightarrow>
         if in_range a 194 223 then in_range b 128 191 \<and> utf8 s
         else case s of
           [] \<Rightarrow> False
         | c # s \<Rightarrow>
             if in_range a 224 239 then
               in_range b (if of_char a = (224 :: nat) then 160 else 128) (if of_char a = (237 :: nat) then 159 else 191) \<and>
               in_range c 128 191 \<and> utf8 s
             else case s of
               [] \<Rightarrow> False
             | d # s \<Rightarrow>
                 in_range a 240 244 \<and>
                 in_range b (if of_char a = (240 :: nat) then 144 else 128) (if of_char a = (244 :: nat) then 143 else 191) \<and>
                 in_range c 128 191 \<and> in_range d 128 191 \<and> utf8 s)"

end
