(* ===== verification/Mounts.thy ===== *)
theory Mounts
  imports Paths Os_Names "HOL-Library.Sublist" "HOL-Library.Multiset"
begin

text \<open>
  The mount table of the system call sandbox: \<open>sandbox/src/vfs/mod.rs\<close> (the \<open>Vfs\<close> trait),
  \<open>vfs/bind.rs\<close> (bind mounts) and \<open>vfs/mount.rs\<close> (the table and the mount options of the command
  line).  A path is the list of its bytes; of the standard library the sources use
  \<open>Path::components\<close>, \<open>Path::join\<close> and the splitting functions of \<open>str\<close>.
\<close>

section \<open>Strings and paths\<close>

text \<open>\<open>Path::is_absolute\<close>, the number of \<open>components()\<close>, and \<open>join\<close>.\<close>

definition is_absolute :: "string \<Rightarrow> bool" where
  "is_absolute p \<longleftrightarrow> p \<noteq> [] \<and> hd p = slash"

definition component_count :: "string \<Rightarrow> nat" where
  "component_count p =
    (if is_absolute p then 1 else if hd (split_slash p) = ''.'' then 1 else 0) +
    length (filter (\<lambda>w. w \<noteq> ''.'') (path_words p))"

definition path_join :: "string \<Rightarrow> string \<Rightarrow> string" where
  "path_join p q =
    (if is_absolute q then q
     else if p = [] \<or> last p = slash then p @ q
     else p @ slash # q)"

section \<open>The trait and the bind mount\<close>

datatype vfs_error =
    VNotFound | VPermissionDenied | VAlreadyExists | VInvalidInput string | VIoError | VOther string

text \<open>
  A trait object: its operations on the files it keeps (the state \<open>'w\<close>), \<open>'o\<close> being its open
  files.  The results of \<open>stat\<close> are the bytes of the structure.
\<close>

record ('o, 'w) vfs =
  translate_path :: "string \<Rightarrow> vfs_error + string"
  is_virtual :: bool
  vfs_open :: "string \<Rightarrow> int \<Rightarrow> int \<Rightarrow> 'w \<Rightarrow> (vfs_error + 'o) \<times> 'w"
  vfs_stat :: "string \<Rightarrow> 'w \<Rightarrow> (vfs_error + bytes) \<times> 'w"
  vfs_lstat :: "string \<Rightarrow> 'w \<Rightarrow> (vfs_error + bytes) \<times> 'w"
  vfs_symlink :: "string \<Rightarrow> string \<Rightarrow> 'w \<Rightarrow> (vfs_error + unit) \<times> 'w"
  vfs_readlink :: "string \<Rightarrow> 'w \<Rightarrow> (vfs_error + string) \<times> 'w"
  vfs_link :: "string \<Rightarrow> string \<Rightarrow> 'w \<Rightarrow> (vfs_error + unit) \<times> 'w"

text \<open>The default methods of the trait.\<close>

definition default_vfs :: "(string \<Rightarrow> vfs_error + string) \<Rightarrow> ('o, 'w) vfs" where
  "default_vfs tr =
    \<lparr>translate_path = tr, is_virtual = False,
     vfs_open = (\<lambda>p fl m w. (Inl (VOther ''open() not supported by this VFS''), w)),
     vfs_stat = (\<lambda>p w. (Inl (VOther ''stat() not supported by this VFS''), w)),
     vfs_lstat = (\<lambda>p w. (Inl (VOther ''lstat() not supported by this VFS''), w)),
     vfs_symlink = (\<lambda>t l w. (Inl (VOther ''symlink() not supported by this VFS''), w)),
     vfs_readlink = (\<lambda>p w. (Inl (VOther ''readlink() not supported by this VFS''), w)),
     vfs_link = (\<lambda>p q w. (Inl (VOther ''link() not supported by this VFS''), w))\<rparr>"

text \<open>\<open>BindVfs::translate_path\<close>\<close>

definition bind_translate :: "string \<Rightarrow> string \<Rightarrow> string \<Rightarrow> vfs_error + string" where
  "bind_translate host_root sandbox_root path =
    (if \<not> utf8 sandbox_root then Inl (VInvalidInput ''Invalid sandbox path'')
     else if \<not> utf8 path then Inl (VInvalidInput ''Invalid path'')
     else if path = sandbox_root \<or> prefix (sandbox_root @ [slash]) path then
       let relative = dropWhile (\<lambda>c. c = slash) (drop (length sandbox_root) path)
       in Inr (if relative = [] then host_root else path_join host_root relative)
     else Inl VNotFound)"

definition bind_vfs :: "string \<Rightarrow> string \<Rightarrow> ('o, 'w) vfs" where
  "bind_vfs host_root sandbox_root = default_vfs (bind_translate host_root sandbox_root)"

section \<open>The mount table\<close>

record ('o, 'w) mount_point =
  sandbox_path :: string
  mount_vfs :: "('o, 'w) vfs"

type_synonym ('o, 'w) mount_table = "('o, 'w) mount_point list"

text \<open>\<open>sort_by_key\<close> is stable, as \<open>sort_key\<close> is; \<open>Reverse\<close> turns the order around.\<close>

definition add_mount :: "string \<Rightarrow> ('o, 'w) vfs \<Rightarrow> ('o, 'w) mount_table \<Rightarrow> ('o, 'w) mount_table" where
  "add_mount p v mounts =
    sort_key (\<lambda>m. - int (component_count (sandbox_path m))) (mounts @ [\<lparr>sandbox_path = p, mount_vfs = v\<rparr>])"

fun resolve :: "('o, 'w) mount_table \<Rightarrow> string \<Rightarrow> (('o, 'w) vfs \<times> string) option" where
  "resolve [] path = None"
| "resolve (m # ms) path =
    (case translate_path (mount_vfs m) path of
       Inr translated \<Rightarrow> Some (mount_vfs m, translated)
     | Inl e \<Rightarrow> resolve ms path)"

section \<open>Mount options\<close>

datatype mount_type = Bind string

record mount_config =
  mount_type :: mount_type
  dst :: string

datatype mount_error =
    InvalidOption string | DuplicateKey string | MissingType | MissingSrc | MissingDst
  | NotAbsolute string | CanonicalizeFailed string | UnsupportedType string

fun split_at :: "char \<Rightarrow> string \<Rightarrow> string list" where
  "split_at sep [] = [[]]"
| "split_at sep (c # cs) =
    (if c = sep then [] # split_at sep cs
     else case split_at sep cs of [] \<Rightarrow> [[c]] | w # ws \<Rightarrow> (c # w) # ws)"

text \<open>\<open>part.splitn(2, '=')\<close> with exactly two pieces.\<close>

fun key_value :: "string \<Rightarrow> (string \<times> string) option" where
  "key_value [] = None"
| "key_value (c # cs) =
    (if c = CHR ''='' then Some ([], cs) else map_option (\<lambda>(k, v). (c # k, v)) (key_value cs))"

fun read_options :: "string list \<Rightarrow> (string \<rightharpoonup> string) \<Rightarrow> mount_error + (string \<rightharpoonup> string)" where
  "read_options [] opts = Inr opts"
| "read_options (part # parts) opts =
    (case key_value part of
       None \<Rightarrow> Inl (InvalidOption part)
     | Some (k, v) \<Rightarrow>
         if opts k \<noteq> None then Inl (DuplicateKey k) else read_options parts (opts(k \<mapsto> v)))"

definition or_else :: "'a option \<Rightarrow> 'a option \<Rightarrow> 'a option" where
  "or_else x y = (case x of None \<Rightarrow> y | Some a \<Rightarrow> Some a)"

text \<open>\<open>MountConfig::from_str\<close>; \<open>canonicalize\<close> is \<open>std::fs::canonicalize\<close> on the host.\<close>

definition parse_mount :: "(string \<Rightarrow> string option) \<Rightarrow> string \<Rightarrow> mount_error + mount_config" where
  "parse_mount canonicalize s =
    (case read_options (split_at CHR '','' s) Map.empty of
       Inl e \<Rightarrow> Inl e
     | Inr options \<Rightarrow>
         (case options ''type'' of
            None \<Rightarrow> Inl MissingType
          | Some ty \<Rightarrow>
              if ty \<noteq> ''bind'' then Inl (UnsupportedType ty)
              else
                (case or_else (options ''src'') (options ''source'') of
                   None \<Rightarrow> Inl MissingSrc
                 | Some src_str \<Rightarrow>
                     (case or_else (options ''dst'') (options ''target'') of
                        None \<Rightarrow> Inl MissingDst
                      | Some dst_str \<Rightarrow>
                          if \<not> is_absolute dst_str then Inl (NotAbsolute dst_str)
                          else
                            (case canonicalize src_str of
                               None \<Rightarrow> Inl (CanonicalizeFailed src_str)
                             | Some src \<Rightarrow> Inr \<lparr>mount_type = Bind src, dst = dst_str\<rparr>)))))"

section \<open>Resolution takes the longest root\<close>

definition mount_all :: "(string \<times> string) list \<Rightarrow> ('o, 'w) mount_table" where
  "mount_all hs = fold (\<lambda>(h, s). add_mount s (bind_vfs h s)) hs []"

abbreviation matches :: "string \<Rightarrow> string \<Rightarrow> bool" where
  "matches s p \<equiv> utf8 s \<and> utf8 p \<and> (p = s \<or> prefix (s @ [slash]) p)"

lemma bind_matches: "(\<exists>q. bind_translate h s p = Inr q) \<longleftrightarrow> matches s p"
  by (auto simp: bind_translate_def Let_def)

lemma bind_vfs_translate [simp]: "translate_path (bind_vfs h s) = bind_translate h s"
  by (simp add: bind_vfs_def default_vfs_def)

lemma mount_all_snoc: "mount_all (hs @ [(h, s)]) = add_mount s (bind_vfs h s) (mount_all hs)"
  by (simp add: mount_all_def)

lemma mount_all_set:
  "set (mount_all hs) = (\<lambda>(h, s). \<lparr>sandbox_path = s, mount_vfs = bind_vfs h s\<rparr>) ` set hs"
proof (induction hs rule: rev_induct)
  case (snoc x hs)
  then show ?case by (cases x) (auto simp: mount_all_snoc add_mount_def)
qed (simp add: mount_all_def)

lemma mount_all_sorted: "sorted (map (\<lambda>m. - int (component_count (sandbox_path m))) (mount_all hs))"
proof (induction hs rule: rev_induct)
  case (snoc x hs)
  then show ?case by (cases x) (simp only: mount_all_snoc add_mount_def sorted_sort_key)
qed (simp add: mount_all_def)

lemma resolve_None: "resolve ms p = None \<longleftrightarrow> (\<forall>m \<in> set ms. \<forall>q. translate_path (mount_vfs m) p \<noteq> Inr q)"
  by (induction ms) (auto split: sum.splits)

lemma resolve_first:
  assumes "resolve ms p = Some (v, q)" and "sorted (map (\<lambda>m. - int (f m)) ms)"
  shows "\<exists>m \<in> set ms. v = mount_vfs m \<and> translate_path v p = Inr q \<and>
    (\<forall>m' \<in> set ms. \<forall>q'. translate_path (mount_vfs m') p = Inr q' \<longrightarrow> f m' \<le> f m)"
  using assms
proof (induction ms)
  case (Cons m ms)
  show ?case
  proof (cases "translate_path (mount_vfs m) p")
    case (Inl e)
    then show ?thesis using Cons by auto
  next
    case (Inr r)
    then show ?thesis using Cons.prems by auto
  qed
qed simp

text \<open>Of two canonical roots that match a path, the longer one has more components.\<close>

lemma canonical_words:
  assumes "\<forall>w \<in> set ws. plain_word w" and "ws \<noteq> []"
  shows "path_words (canonical ws) = ws" "component_count (canonical ws) = Suc (length ws)"
proof -
  have ok: "\<forall>w \<in> set ws. word_ok w" using assms(1) by (auto simp: plain_word_def)
  show w: "path_words (canonical ws) = ws" using ok assms(2) by (simp add: canonical_def path_words_join)
  have "filter (\<lambda>w. w \<noteq> ''.'') ws = ws" using assms(1) by (auto simp: filter_id_conv plain_word_def)
  then show "component_count (canonical ws) = Suc (length ws)"
    using assms(2) by (simp add: component_count_def w) (simp add: canonical_def is_absolute_def)
qed

definition canonical_root :: "string \<Rightarrow> bool" where
  "canonical_root s \<longleftrightarrow> (\<exists>ws. ws \<noteq> [] \<and> (\<forall>w \<in> set ws. plain_word w) \<and> s = canonical ws)"

lemma longer_root_deeper:
  assumes "canonical_root s" "canonical_root s'" and "matches s p" "matches s' p" and "length s < length s'"
  shows "component_count s < component_count s'"
proof -
  obtain ws vs where ws: "ws \<noteq> []" "\<forall>w \<in> set ws. plain_word w" "s = canonical ws"
    and vs: "vs \<noteq> []" "\<forall>w \<in> set vs. plain_word w" "s' = canonical vs"
    using assms(1,2) by (auto simp: canonical_root_def)
  have "prefix s' p" using assms(4) by (auto elim: append_prefixD)
  moreover have "prefix (s @ [slash]) p" using assms(3-5) calculation by (auto dest: prefix_length_le)
  ultimately have "prefix (s @ [slash]) s'" using assms(5) by (auto intro: prefix_length_prefix)
  then obtain y where "s' = s @ slash # y" by (auto elim: prefixE)
  then have "vs = ws @ path_words y"
    using canonical_words(1) [OF ws(2,1)] canonical_words(1) [OF vs(2,1)] path_words_append [of s y] ws(3) vs(3) by simp
  moreover have "vs \<noteq> ws" using assms(5) ws(3) vs(3) by auto
  ultimately show ?thesis using canonical_words(2) [OF ws(2,1)] canonical_words(2) [OF vs(2,1)] ws(3) vs(3) by auto
qed

text \<open>
  C19.  For any mounts, a path resolves through a bind mount exactly when some mount root, as it
  was written, is the path or is followed by a slash in it, and then through such a mount whose
  root has the most components, in whatever order the mounts were added.  When all roots are
  written canonically (at least one component, one slash before each component and none at the
  end, no \<open>.\<close> or \<open>..\<close>), which the parser of mount options does not ask for, that is the mount
  with the longest root.  Without this it need not be (\<open>unclean_root_loses\<close>), and the root
  directory as a mount root matches hardly anything (\<open>root_mount_matches_nothing\<close>).
\<close>

theorem resolve_longest_root:
  "case resolve (mount_all hs) p of
      None \<Rightarrow> (\<forall>(h, s) \<in> set hs. \<not> matches s p)
    | Some (v, q) \<Rightarrow> \<exists>(h, s) \<in> set hs. v = bind_vfs h s \<and> bind_translate h s p = Inr q \<and> matches s p \<and>
        (\<forall>(h', s') \<in> set hs. matches s' p \<longrightarrow> component_count s' \<le> component_count s) \<and>
        ((\<forall>(h', s') \<in> set hs. canonical_root s') \<longrightarrow>
          (\<forall>(h', s') \<in> set hs. matches s' p \<longrightarrow> length s' \<le> length s))"
proof (cases "resolve (mount_all hs :: ('a, 'b) mount_table) p")
  case None
  then have "\<forall>x \<in> set hs. \<forall>q. bind_translate (fst x) (snd x) p \<noteq> Inr q"
    by (auto simp: resolve_None mount_all_set)
  then have "\<not> matches s p" if "(h, s) \<in> set hs" for h s
    using that bspec [of "set hs" _ "(h, s)"] unfolding bind_matches [of h, symmetric] by auto
  then show ?thesis using None by auto
next
  case (Some r)
  obtain v q where r: "r = (v, q)" by (cases r)
  obtain m where m: "m \<in> set (mount_all hs)" "v = mount_vfs m" "translate_path v p = Inr q"
    and low: "\<And>m' q'. m' \<in> set (mount_all hs :: ('a, 'b) mount_table) \<Longrightarrow> translate_path (mount_vfs m') p = Inr q' \<Longrightarrow>
      component_count (sandbox_path m') \<le> component_count (sandbox_path m)"
    using resolve_first [OF Some [unfolded r] mount_all_sorted] by blast
  obtain h s where hs: "(h, s) \<in> set hs" "m = \<lparr>sandbox_path = s, mount_vfs = bind_vfs h s\<rparr>"
    "v = bind_vfs h s" "bind_translate h s p = Inr q"
    using m by (auto simp: mount_all_set)
  have deep: "component_count s' \<le> component_count s" if mem: "(h', s') \<in> set hs" and mt: "matches s' p" for h' s'
  proof -
    obtain q' where "bind_translate h' s' p = Inr q'" using mt bind_matches by blast
    then show ?thesis
      using low [of "\<lparr>sandbox_path = s', mount_vfs = bind_vfs h' s'\<rparr>" q'] mem hs(2) by (force simp: mount_all_set)
  qed
  have m: "matches s p" using hs(4) bind_matches by blast
  have "length s' \<le> length s"
    if "\<forall>(h', s') \<in> set hs. canonical_root s'" and mem: "(h', s') \<in> set hs" and mt: "matches s' p" for h' s'
  proof -
    have "canonical_root s" "canonical_root s'" using that(1) hs(1) mem by auto
    then show ?thesis using longer_root_deeper [OF _ _ m mt] deep [OF mem mt] by fastforce
  qed
  then have "\<exists>(h, s) \<in> set hs. v = bind_vfs h s \<and> bind_translate h s p = Inr q \<and> matches s p \<and>
      (\<forall>(h', s') \<in> set hs. matches s' p \<longrightarrow> component_count s' \<le> component_count s) \<and>
      ((\<forall>(h', s') \<in> set hs. canonical_root s') \<longrightarrow>
        (\<forall>(h', s') \<in> set hs. matches s' p \<longrightarrow> length s' \<le> length s))"
    using hs m deep by (intro bexI [of _ "(h, s)"]) auto
  then show ?thesis using Some r by simp
qed

theorem resolve_longest_root_witness:
  "\<exists>v :: (unit, unit) vfs. resolve (mount_all [(''/h'', ''/a''), (''/k'', ''/a/b'')]) ''/a/b/c'' = Some (v, ''/k/c'')"
proof -
  have c: "canonical [''a''] = ''/a''" "canonical [''a'', ''b''] = ''/a/b''" by (simp_all add: canonical_def)
  have "canonical_root ''/a''" "canonical_root ''/a/b''"
    unfolding canonical_root_def c [symmetric]
    by (intro exI [of _ "[''a'']"] exI [of _ "[''a'', ''b'']"], simp add: plain_word_def word_ok_def)+
  then have "\<forall>(h, s) \<in> set [(''/h'', ''/a''), (''/k'', ''/a/b'')]. canonical_root s" by simp
  moreover have "matches ''/a/b'' ''/a/b/c''" "bind_translate ''/k'' ''/a/b'' ''/a/b/c'' = Inr ''/k/c''"
    by (simp_all add: bind_translate_def path_join_def is_absolute_def)
  ultimately show ?thesis
    using resolve_longest_root [of "[(''/h'', ''/a''), (''/k'', ''/a/b'')]" "''/a/b/c''",
        where 'a = unit and 'b = unit]
    by (auto split: option.splits)
qed

text \<open>A root with a slash at the end is longer than the same root without, and loses against it.\<close>

theorem unclean_root_loses:
  "map_option snd (resolve (mount_all [(''/h'', ''/a''), (''/k'', ''/a/'')] :: (unit, unit) mount_table) ''/a//x'') = Some ''/h/x'' \<and>
   bind_translate ''/k'' ''/a/'' ''/a//x'' = Inr ''/k/x''"
  by (simp add: mount_all_def add_mount_def component_count_def path_words_def bind_translate_def path_join_def
      is_absolute_def)

section \<open>Confinement of bind mounts\<close>

lemma fold_dots_grows: "''..'' \<notin> set ws \<Longrightarrow> \<exists>vs. fold_dots ws acc = acc @ vs"
proof (induction ws arbitrary: acc)
  case (Cons w ws)
  show ?case
  proof (cases "w = ''.''")
    case False
    obtain vs where "fold_dots ws (acc @ [w]) = (acc @ [w]) @ vs" using Cons by fastforce
    then show ?thesis using Cons.prems False by auto
  qed (use Cons in auto)
qed simp

lemma path_words_drop_slashes: "path_words (dropWhile (\<lambda>c. c = slash) s) = path_words s"
  by (induction s) simp_all

lemma path_words_join': "path_words (path_join p q) = (if is_absolute q then path_words q else path_words p @ path_words q)"
proof (cases "is_absolute q \<or> p = []")
  case False
  then obtain p' where p: "p = p' @ [last p]" by (metis append_butlast_last_id)
  show ?thesis
  proof (cases "last p = slash")
    case True
    then have "path_words p = path_words p'" "path_words (p @ q) = path_words p' @ path_words q"
      using p path_words_snoc_slash [of p'] path_words_append [of p' q] by (metis, metis append.assoc append_Cons append_Nil)
    then show ?thesis using False True by (simp add: path_join_def)
  qed (use False in \<open>simp add: path_join_def path_words_append\<close>)
qed (auto simp: path_join_def)

text \<open>
  C20.  A bind mount confines paths without \<open>..\<close>: the translated path means a path below the
  host directory, with the same words below it as the sandbox path has below the mount root.
\<close>

theorem bind_confined:
  assumes "bind_translate h s p = Inr q" and "''..'' \<notin> set (path_words p)"
  shows "prefix (meaning h) (meaning q) \<and> (\<exists>ws. path_words p = path_words s @ ws \<and> path_words q = path_words h @ ws)"
proof -
  define r where "r = dropWhile (\<lambda>c. c = slash) (drop (length s) p)"
  have m: "p = s \<or> prefix (s @ [slash]) p" and q: "q = (if r = [] then h else path_join h r)"
    using assms(1) by (auto simp: bind_translate_def Let_def r_def split: if_splits)
  have w: "path_words p = path_words s @ path_words r"
    unfolding r_def path_words_drop_slashes
  proof (cases "p = s")
    case False
    then obtain y where "p = s @ slash # y" using m by (auto elim: prefixE)
    then show "path_words p = path_words s @ path_words (drop (length s) p)" by (simp add: path_words_append)
  qed simp
  have "\<not> is_absolute r" using hd_dropWhile [of "\<lambda>c. c = slash" "drop (length s) p"] by (auto simp: is_absolute_def r_def)
  then have qw: "path_words q = path_words h @ path_words r"
    by (cases "r = []") (simp_all add: q path_words_join')
  obtain vs where "fold_dots (path_words r) (meaning h) = meaning h @ vs"
    using fold_dots_grows assms(2) w by (metis Un_iff set_append)
  then have "prefix (meaning h) (meaning q)" by (simp add: meaning_def qw fold_dots_append)
  then show ?thesis using w qw by blast
qed

theorem bind_confined_witness:
  "\<exists>q. bind_translate ''/srv/d'' ''/a'' ''/a//x/./y'' = Inr q \<and> prefix (meaning ''/srv/d'') (meaning q)"
  using bind_confined [of "''/srv/d''" "''/a''" "''/a//x/./y''" "''/srv/d/x/./y''"]
  by (simp add: bind_translate_def path_join_def is_absolute_def path_words_def)

text \<open>With \<open>..\<close> a path leaves the host directory: the translation does not normalise.\<close>

theorem bind_escapes:
  "\<exists>q. bind_translate ''/srv/d'' ''/a'' ''/a/../../etc/passwd'' = Inr q \<and> meaning q = [''etc'', ''passwd'']"
  by (simp add: bind_translate_def path_join_def is_absolute_def meaning_def path_words_def)

text \<open>A mount at the root directory matches no path but the root itself.\<close>

theorem root_mount_matches_nothing:
  assumes "w \<noteq> []" and "hd w \<noteq> slash"
  shows "\<nexists>q. bind_translate h ''/'' (slash # w) = Inr q"
  using assms by (cases w) (auto simp: bind_translate_def)

section \<open>Reading mount options\<close>

text \<open>How a list of options is written.\<close>

definition show_option :: "string \<times> string \<Rightarrow> string" where
  "show_option kv = fst kv @ CHR ''='' # snd kv"

fun show_options :: "(string \<times> string) list \<Rightarrow> string" where
  "show_options [] = []"
| "show_options [kv] = show_option kv"
| "show_options (kv # kv' # kvs) = show_option kv @ CHR '','' # show_options (kv' # kvs)"

lemma split_at_word: "sep \<notin> set w \<Longrightarrow> split_at sep w = [w]"
  by (induction w) auto

lemma split_at_append: "sep \<notin> set w \<Longrightarrow> split_at sep (w @ sep # s) = w # split_at sep s"
  by (induction w) auto

lemma key_value_show: "CHR ''='' \<notin> set k \<Longrightarrow> key_value (show_option (k, v)) = Some (k, v)"
  unfolding show_option_def by (induction k) auto

lemma split_show:
  "kvs \<noteq> [] \<Longrightarrow> \<forall>kv \<in> set kvs. CHR '','' \<notin> set (show_option kv) \<Longrightarrow>
    split_at CHR '','' (show_options kvs) = map show_option kvs"
  by (induction kvs rule: show_options.induct) (simp_all add: split_at_word split_at_append)

lemma read_options_show:
  "\<forall>(k, v) \<in> set kvs. CHR ''='' \<notin> set k \<Longrightarrow> distinct (map fst kvs) \<Longrightarrow> \<forall>(k, v) \<in> set kvs. opts k = None \<Longrightarrow>
    read_options (map show_option kvs) opts = Inr (opts ++ map_of kvs)"
proof (induction kvs arbitrary: opts)
  case (Cons kv kvs)
  obtain k v where kv: "kv = (k, v)" by (cases kv)
  have "\<forall>(k', v') \<in> set kvs. (opts(k \<mapsto> v)) k' = None" using Cons.prems kv by force
  then have "read_options (map show_option kvs) (opts(k \<mapsto> v)) = Inr (opts(k \<mapsto> v) ++ map_of kvs)"
    using Cons by auto
  moreover have "opts(k \<mapsto> v) ++ map_of kvs = opts ++ map_of (kv # kvs)"
    using Cons.prems(2) kv by (simp add: map_add_upd_left dom_map_of_conv_image_fst)
  moreover have "read_options (map show_option (kv # kvs)) opts = read_options (map show_option kvs) (opts(k \<mapsto> v))"
    using Cons.prems kv by (simp add: key_value_show)
  ultimately show ?case by (simp only:)
qed simp

text \<open>
  A bind mount option is read back whatever the order of its fields and with either
  spelling of each: the destination as written, the source as the host resolves it.
\<close>

theorem parse_mount_roundtrip:
  assumes "k \<in> {''src'', ''source''}" and "k' \<in> {''dst'', ''target''}"
    and "mset kvs = mset [(''type'', ''bind''), (k, a), (k', b)]"
    and "CHR '','' \<notin> set a" and "CHR '','' \<notin> set b" and "is_absolute b" and "canonicalize a = Some c"
  shows "parse_mount canonicalize (show_options kvs) = Inr \<lparr>mount_type = Bind c, dst = b\<rparr>"
proof -
  have set: "set kvs = {(''type'', ''bind''), (k, a), (k', b)}" using mset_eq_setD [OF assms(3)] by simp
  have "mset (map fst kvs) = mset (map fst [(''type'', ''bind''), (k, a), (k', b)])"
    using assms(3) by (metis mset_map)
  then have d: "distinct (map fst kvs)"
    by (rule mset_eq_imp_distinct_iff [THEN iffD2]) (use assms(1,2) in auto)
  have "split_at CHR '','' (show_options kvs) = map show_option kvs"
  proof (rule split_show)
    show "kvs \<noteq> []" using set by auto
    show "\<forall>kv \<in> set kvs. CHR '','' \<notin> set (show_option kv)"
      unfolding set using assms(1,2,4,5) by (auto simp: show_option_def)
  qed
  moreover have "read_options (map show_option kvs) Map.empty = Inr (map_of kvs)"
  proof -
    have "\<forall>(k, v) \<in> set kvs. CHR ''='' \<notin> set k" unfolding set using assms(1,2) by auto
    then show ?thesis using read_options_show [of kvs Map.empty] d by simp
  qed
  moreover have "map_of kvs ''type'' = Some ''bind''" "map_of kvs k = Some a" "map_of kvs k' = Some b"
    unfolding map_of_eq_Some_iff [OF d] set by simp_all
  moreover have "map_of kvs ''src'' = None" if "k = ''source''"
    using that set assms(2) by (auto simp: map_of_eq_None_iff)
  moreover have "map_of kvs ''dst'' = None" if "k' = ''target''"
    using that set assms(1) by (auto simp: map_of_eq_None_iff)
  ultimately show ?thesis
    using assms(1,2,6,7) by (auto simp: parse_mount_def or_else_def)
qed

theorem parse_mount_roundtrip_witness:
  "parse_mount (\<lambda>p. Some p) ''target=/w,type=bind,src=/h'' = Inr \<lparr>mount_type = Bind ''/h'', dst = ''/w''\<rparr>"
  using parse_mount_roundtrip [of "''src''" "''target''" "[(''target'', ''/w''), (''type'', ''bind''), (''src'', ''/h'')]"
      "''/h''" "''/w''" "\<lambda>p. Some p" "''/h''"]
  by (simp add: is_absolute_def show_option_def)

end
