(* ===== verification/Sys_Calls.thy ===== *)
theory Sys_Calls
  imports Fd_Table Mounts
begin

text \<open>
  The system call handlers of the sandbox: \<open>sandbox/src/syscall/*.rs\<close> and \<open>sandbox/mod.rs\<close>.
  A handler rewrites a system call of the traced process: descriptors through the table of
  \<open>Fd_Table\<close>, paths through the mount table of \<open>Mounts\<close>.  It may run system calls of its own
  (\<open>guest.inject\<close>), read and write the memory of the process, and answer the call itself or
  leave a call for the kernel.
\<close>

section \<open>System calls\<close>

text \<open>
  A system call is its number and six argument words, as in the crate \<open>reverie\<close>; its builders
  start with all arguments zero, and its accessors read an argument by position.
\<close>

datatype sysno =
    SYS_openat | SYS_read | SYS_write | SYS_close | SYS_dup | SYS_dup2 | SYS_dup3 | SYS_ioctl | SYS_fcntl
  | SYS_pselect6 | SYS_poll | SYS_getdents64 | SYS_fstat | SYS_fstatat | SYS_pread64 | SYS_pwrite64
  | SYS_lseek | SYS_mmap | SYS_access | SYS_faccessat | SYS_faccessat2 | SYS_rename | SYS_unlink
  | SYS_unlinkat | SYS_rmdir | SYS_readv | SYS_writev | SYS_pipe2 | SYS_socket | SYS_sendto
  | SYS_connect | SYS_getpeername | SYS_chdir | SYS_fchmodat | SYS_fchownat | SYS_fork | SYS_vfork
  | SYS_clone | SYS_clone3 | SYS_statx | SYS_newfstatat | SYS_statfs | SYS_readlink | SYS_readlinkat
  | SYS_symlink | SYS_symlinkat | SYS_linkat | SYS_llistxattr | SYS_lgetxattr
  | Plain nat | Unsupported nat

record syscall =
  nr :: sysno
  a0 :: int
  a1 :: int
  a2 :: int
  a3 :: int
  a4 :: int
  a5 :: int

definition sys_new :: "sysno \<Rightarrow> syscall" where
  "sys_new n = \<lparr>nr = n, a0 = 0, a1 = 0, a2 = 0, a3 = 0, a4 = 0, a5 = 0\<rparr>"

text \<open>A pointer argument; the null pointer is \<open>None\<close>.\<close>

definition ptr :: "int \<Rightarrow> int option" where
  "ptr a = (if a = 0 then None else Some a)"

definition AT_FDCWD :: int where "AT_FDCWD = - 100"

text \<open>The two replies of a handler, \<open>SyscallResult\<close>.\<close>

datatype syscall_result = Value int | Inject syscall

section \<open>The traced process\<close>

text \<open>
  The state: the kernel's state, the memory of the process, the files of virtual filesystems,
  and the descriptor tables.  The sources share tables by reference counting; here tables live
  in a heap, \<open>fd_tables\<close> maps a process to its table, and handlers get the address of a table.
\<close>

record ('k, 'm, 'o, 'w) guest =
  kern :: 'k
  gmem :: 'm
  vfiles :: 'w
  heap :: "nat \<Rightarrow> 'o fd_table"
  next_table :: nat
  fd_tables :: "int \<Rightarrow> nat option"

record pollfd =
  pfd :: int
  events :: int
  revents :: int

text \<open>
  What is not code of the repository: the kernel (\<open>inject\<close>, which may also write memory), the
  memory access of \<open>reverie\<close> (one function per type the handlers read or write), the open files
  of virtual filesystems (\<open>FileOps\<close>), and \<open>String::from_utf8_lossy\<close>.
\<close>

record ('k, 'm, 'o, 'w) env =
  inject :: "syscall \<Rightarrow> 'k \<times> 'm \<Rightarrow> (int + int) \<times> ('k \<times> 'm)"
  open_mode :: "syscall \<Rightarrow> int option"
  read_path :: "'m \<Rightarrow> int \<Rightarrow> int + string"
  reserve :: "'m \<Rightarrow> (int + int) \<times> 'm"
  write_path :: "int \<Rightarrow> string \<Rightarrow> 'm \<Rightarrow> int + 'm"
  read_set :: "'m \<Rightarrow> int \<Rightarrow> int + int set"
  write_set :: "int \<Rightarrow> int set \<Rightarrow> 'm \<Rightarrow> int + 'm"
  read_pollfd :: "'m \<Rightarrow> int \<Rightarrow> int + pollfd"
  write_pollfd :: "int \<Rightarrow> pollfd \<Rightarrow> 'm \<Rightarrow> int + 'm"
  read_pair :: "'m \<Rightarrow> int \<Rightarrow> int + int \<times> int"
  write_i32 :: "int \<Rightarrow> int \<Rightarrow> 'm \<Rightarrow> int + 'm"
  read_bytes :: "'m \<Rightarrow> int \<Rightarrow> nat \<Rightarrow> int + bytes"
  write_bytes :: "int \<Rightarrow> bytes \<Rightarrow> 'm \<Rightarrow> int + 'm"
  ops_read :: "'o \<Rightarrow> nat \<Rightarrow> 'w \<Rightarrow> (vfs_error + bytes) \<times> 'w"
  ops_write :: "'o \<Rightarrow> bytes \<Rightarrow> 'w \<Rightarrow> (vfs_error + nat) \<times> 'w"
  ops_seek :: "'o \<Rightarrow> int \<Rightarrow> int \<Rightarrow> 'w \<Rightarrow> (vfs_error + int) \<times> 'w"
  ops_fstat :: "'o \<Rightarrow> 'w \<Rightarrow> (vfs_error + bytes) \<times> 'w"
  ops_getdents :: "'o \<Rightarrow> 'w \<Rightarrow> (vfs_error + (nat \<times> string \<times> byte) list) \<times> 'w"
  ops_close :: "'o \<Rightarrow> 'w \<Rightarrow> (vfs_error + unit) \<times> 'w"
  lossy :: "string \<Rightarrow> string"

section \<open>Handlers as state transformers\<close>

datatype fault = Errno int | Panic

type_synonym ('s, 'a) sys = "'s \<Rightarrow> (fault + 'a) \<times> 's"
type_synonym ('k, 'm, 'o, 'w, 'a) call = "(('k, 'm, 'o, 'w) guest, 'a) sys"

definition sret :: "'a \<Rightarrow> ('s, 'a) sys" where "sret x s = (Inr x, s)"
definition fail :: "fault \<Rightarrow> ('s, 'a) sys" where "fail e s = (Inl e, s)"

definition sbnd :: "('s, 'a) sys \<Rightarrow> ('a \<Rightarrow> ('s, 'b) sys) \<Rightarrow> ('s, 'b) sys" where
  "sbnd m f s = (case m s of (Inl e, s') \<Rightarrow> (Inl e, s') | (Inr x, s') \<Rightarrow> f x s')"

definition errno_of :: "(int + 'a) \<Rightarrow> fault + 'a" where
  "errno_of r = (case r of Inl e \<Rightarrow> Inl (Errno e) | Inr x \<Rightarrow> Inr x)"

definition s_inject :: "('k, 'm, 'o, 'w) env \<Rightarrow> syscall \<Rightarrow> ('k, 'm, 'o, 'w, int) call" where
  "s_inject G sc g =
    (case inject G sc (kern g, gmem g) of (r, k, m) \<Rightarrow> (errno_of r, g\<lparr>kern := k, gmem := m\<rparr>))"

definition s_load :: "('m \<Rightarrow> int + 'a) \<Rightarrow> ('k, 'm, 'o, 'w, 'a) call" where
  "s_load f g = (errno_of (f (gmem g)), g)"

definition s_store :: "('m \<Rightarrow> int + 'm) \<Rightarrow> ('k, 'm, 'o, 'w, unit) call" where
  "s_store f g = (case f (gmem g) of Inl e \<Rightarrow> (Inl (Errno e), g) | Inr m \<Rightarrow> (Inr (), g\<lparr>gmem := m\<rparr>))"

definition s_reserve :: "('k, 'm, 'o, 'w) env \<Rightarrow> ('k, 'm, 'o, 'w, int) call" where
  "s_reserve G g = (case reserve G (gmem g) of (r, m) \<Rightarrow> (errno_of r, g\<lparr>gmem := m\<rparr>))"

text \<open>A call of a virtual filesystem or of one of its files: the error is a value.\<close>

definition s_files :: "('w \<Rightarrow> (vfs_error + 'a) \<times> 'w) \<Rightarrow> ('k, 'm, 'o, 'w, vfs_error + 'a) call" where
  "s_files f g = (case f (vfiles g) of (r, w) \<Rightarrow> (Inr r, g\<lparr>vfiles := w\<rparr>))"

text \<open>The operations of the descriptor table at address \<open>h\<close>.\<close>

definition t_get :: "nat \<Rightarrow> int \<Rightarrow> ('k, 'm, 'o, 'w, 'o fd_entry option) call" where
  "t_get h vfd g = (Inr (fd_get (heap g h) vfd), g)"

definition t_translate :: "nat \<Rightarrow> int \<Rightarrow> ('k, 'm, 'o, 'w, int option) call" where
  "t_translate h vfd g = (Inr (translate (heap g h) vfd), g)"

definition t_allocate :: "nat \<Rightarrow> 'o fd_entry \<Rightarrow> ('k, 'm, 'o, 'w, int) call" where
  "t_allocate h e g =
    (case allocate e (heap g h) of
       None \<Rightarrow> (Inl Panic, g)
     | Some (fd, t) \<Rightarrow> (Inr fd, g\<lparr>heap := (heap g)(h := t)\<rparr>))"

definition t_allocate_min :: "nat \<Rightarrow> int \<Rightarrow> 'o fd_entry \<Rightarrow> ('k, 'm, 'o, 'w, int) call" where
  "t_allocate_min h m e g =
    (case allocate_min m e (heap g h) of
       None \<Rightarrow> (Inl Panic, g)
     | Some (fd, t) \<Rightarrow> (Inr fd, g\<lparr>heap := (heap g)(h := t)\<rparr>))"

definition t_allocate_at :: "nat \<Rightarrow> int \<Rightarrow> 'o fd_entry \<Rightarrow> ('k, 'm, 'o, 'w, 'o fd_entry option) call" where
  "t_allocate_at h vfd e g =
    (case allocate_at vfd e (heap g h) of (old, t) \<Rightarrow> (Inr old, g\<lparr>heap := (heap g)(h := t)\<rparr>))"

definition t_deallocate :: "nat \<Rightarrow> int \<Rightarrow> ('k, 'm, 'o, 'w, 'o fd_entry option) call" where
  "t_deallocate h vfd g =
    (case deallocate vfd (heap g h) of (old, t) \<Rightarrow> (Inr old, g\<lparr>heap := (heap g)(h := t)\<rparr>))"

definition t_duplicate :: "nat \<Rightarrow> int \<Rightarrow> ('k, 'm, 'o, 'w, int option) call" where
  "t_duplicate h vfd g =
    (case duplicate vfd (heap g h) of
       None \<Rightarrow> (Inl Panic, g)
     | Some (r, t) \<Rightarrow> (Inr r, g\<lparr>heap := (heap g)(h := t)\<rparr>))"

section \<open>Paths\<close>

text \<open>The address of a C string pushed on the stack of the process; it must not contain a zero byte.\<close>

definition push_path :: "('k, 'm, 'o, 'w) env \<Rightarrow> string \<Rightarrow> ('k, 'm, 'o, 'w, int) call" where
  "push_path G p =
    (let s = lossy G p in
     if CHR 0x00 \<in> set s then fail (Errno EINVAL)
     else sbnd (s_reserve G) (\<lambda>addr. sbnd (s_store (write_path G addr s)) (\<lambda>_. sret addr)))"

definition translate_addr ::
  "('k, 'm, 'o, 'w) env \<Rightarrow> ('o, 'w) mount_table \<Rightarrow> int \<Rightarrow> ('k, 'm, 'o, 'w, int option) call" where
  "translate_addr G mt path_addr =
    sbnd (s_load (\<lambda>m. read_path G m path_addr)) (\<lambda>path.
    if \<not> utf8 path then sret None
    else
      case resolve mt path of
        None \<Rightarrow> sret None
      | Some (vfs, translated_path) \<Rightarrow> sbnd (push_path G translated_path) (\<lambda>addr. sret (Some addr)))"

text \<open>The common tail of the handlers that only rewrite one path argument.\<close>

definition with_path ::
  "('k, 'm, 'o, 'w) env \<Rightarrow> ('o, 'w) mount_table \<Rightarrow> int \<Rightarrow> (int \<Rightarrow> syscall) \<Rightarrow> ('k, 'm, 'o, 'w, syscall option) call" where
  "with_path G mt addr rewrite =
    (case ptr addr of
       None \<Rightarrow> sret None
     | Some path_addr \<Rightarrow>
         sbnd (translate_addr G mt path_addr) (\<lambda>n. sret (map_option rewrite n)))"

definition vfs_errno :: "int \<Rightarrow> vfs_error \<Rightarrow> int" where
  "vfs_errno other e = (case e of VNotFound \<Rightarrow> - ENOENT | VPermissionDenied \<Rightarrow> - EACCES | _ \<Rightarrow> - other)"

definition vfs_errno_exists :: "int \<Rightarrow> vfs_error \<Rightarrow> int" where
  "vfs_errno_exists permission e =
    (case e of VNotFound \<Rightarrow> - ENOENT | VPermissionDenied \<Rightarrow> - permission | VAlreadyExists \<Rightarrow> - EEXIST | _ \<Rightarrow> - EIO)"

section \<open>Opening\<close>

text \<open>
  The directory descriptor for the kernel and the path to resolve: \<open>Inr\<close> both, or \<open>Inl\<close> when a
  virtual directory has no path.
\<close>

definition resolve_dirfd :: "nat \<Rightarrow> int \<Rightarrow> string \<Rightarrow> ('k, 'm, 'o, 'w, unit + int \<times> string) call" where
  "resolve_dirfd h dirfd path =
    (if dirfd = AT_FDCWD then sret (Inr (dirfd, path))
     else if \<not> is_absolute path then
       sbnd (t_get h dirfd) (\<lambda>d.
         case d of
           None \<Rightarrow> sret (Inr (dirfd, path))
         | Some dir_entry \<Rightarrow>
             (case kernel_fd dir_entry of
                Some kfd \<Rightarrow> sret (Inr (kfd, path))
              | None \<Rightarrow>
                  (case fd_path dir_entry of
                     Some dir_path \<Rightarrow> sret (Inr (AT_FDCWD, path_join dir_path path))
                   | None \<Rightarrow> sret (Inl ()))))
     else sret (Inr (AT_FDCWD, path)))"

text \<open>Run an opening system call and virtualise its result.\<close>

definition open_through ::
  "('k, 'm, 'o, 'w) env \<Rightarrow> nat \<Rightarrow> syscall \<Rightarrow> int \<Rightarrow> string option \<Rightarrow> ('k, 'm, 'o, 'w, int option) call" where
  "open_through G h sc flags path =
    sbnd (s_inject G sc) (\<lambda>kfd.
      if kfd \<ge> 0 then
        sbnd (t_allocate h (Passthrough (wrap_i32 kfd) flags path)) (\<lambda>vfd. sret (Some vfd))
      else sret (Some kfd))"

definition handle_openat ::
  "('k, 'm, 'o, 'w) env \<Rightarrow> syscall \<Rightarrow> ('o, 'w) mount_table \<Rightarrow> nat \<Rightarrow> ('k, 'm, 'o, 'w, int option) call" where
  "handle_openat G args mt h =
    (case ptr (a1 args) of
       None \<Rightarrow> sret None
     | Some path_addr \<Rightarrow>
         sbnd (s_load (\<lambda>m. read_path G m path_addr)) (\<lambda>path0.
         sbnd (resolve_dirfd h (a0 args) path0) (\<lambda>r.
         case r of
           Inl u \<Rightarrow> sret (Some (- EBADF))
         | Inr (kernel_dirfd, path) \<Rightarrow>
             let opened = (\<lambda>addr. (sys_new SYS_openat)\<lparr>a0 := kernel_dirfd, a1 := addr, a2 := a2 args,
                   a3 := (case open_mode G args of None \<Rightarrow> 0 | Some m \<Rightarrow> m)\<rparr>)
             in
             (case resolve mt path of
                None \<Rightarrow> open_through G h (opened path_addr) (a2 args) (Some path)
              | Some (vfs, translated) \<Rightarrow>
                  if is_virtual vfs then
                    sbnd (s_files (vfs_open vfs path (a2 args)
                            (case open_mode G args of None \<Rightarrow> 420 | Some m \<Rightarrow> m))) (\<lambda>f.
                      case f of
                        Inl e \<Rightarrow> sret (Some (vfs_errno EIO e))
                      | Inr ops \<Rightarrow>
                          sbnd (t_allocate h (Virtual ops (a2 args) (Some path))) (\<lambda>vfd. sret (Some vfd)))
                  else
                    sbnd (translate_addr G mt path_addr) (\<lambda>n.
                      open_through G h (opened (case n of None \<Rightarrow> path_addr | Some a \<Rightarrow> a))
                        (a2 args) (Some path))))))"

definition handle_socket ::
  "('k, 'm, 'o, 'w) env \<Rightarrow> syscall \<Rightarrow> nat \<Rightarrow> ('k, 'm, 'o, 'w, int option) call" where
  "handle_socket G args h = open_through G h args 0 None"

definition handle_pipe2 ::
  "('k, 'm, 'o, 'w) env \<Rightarrow> syscall \<Rightarrow> nat \<Rightarrow> ('k, 'm, 'o, 'w, int option) call" where
  "handle_pipe2 G args h =
    sbnd (s_inject G args) (\<lambda>result.
      if result = 0 then
        (case ptr (a0 args) of
           None \<Rightarrow> sret (Some result)
         | Some addr \<Rightarrow>
             sbnd (s_load (\<lambda>m. read_pair G m addr)) (\<lambda>(rfd, wfd).
             sbnd (t_allocate h (Passthrough rfd (a1 args) None)) (\<lambda>virtual_read_fd.
             sbnd (t_allocate h (Passthrough wfd (a1 args) None)) (\<lambda>virtual_write_fd.
             sbnd (s_store (write_i32 G addr virtual_read_fd)) (\<lambda>_.
             sbnd (s_store (write_i32 G (addr + 4) virtual_write_fd)) (\<lambda>_.
               sret (Some result)))))))
      else sret (Some result))"

section \<open>Reading, writing and closing\<close>

definition handle_read ::
  "('k, 'm, 'o, 'w) env \<Rightarrow> syscall \<Rightarrow> nat \<Rightarrow> ('k, 'm, 'o, 'w, syscall_result) call" where
  "handle_read G args h =
    sbnd (t_get h (a0 args)) (\<lambda>e.
      case e of
        None \<Rightarrow> sret (Inject args)
      | Some (Passthrough kfd fl p) \<Rightarrow> sret (Inject (args\<lparr>a0 := kfd\<rparr>))
      | Some (Virtual ops fl p) \<Rightarrow>
          (case ptr (a1 args) of
             None \<Rightarrow> sret (Value (- EFAULT))
           | Some buf_addr \<Rightarrow>
               sbnd (s_files (ops_read G ops (nat (a2 args)))) (\<lambda>r.
                 case r of
                   Inl err \<Rightarrow> sret (Value (vfs_errno EIO err))
                 | Inr data \<Rightarrow>
                     sbnd (if length data > 0 then s_store (write_bytes G buf_addr data) else sret ()) (\<lambda>_.
                       sret (Value (int (length data)))))))"

definition handle_write ::
  "('k, 'm, 'o, 'w) env \<Rightarrow> syscall \<Rightarrow> nat \<Rightarrow> ('k, 'm, 'o, 'w, syscall_result) call" where
  "handle_write G args h =
    sbnd (t_get h (a0 args)) (\<lambda>e.
      case e of
        None \<Rightarrow> sret (Inject args)
      | Some (Passthrough kfd fl p) \<Rightarrow> sret (Inject (args\<lparr>a0 := kfd\<rparr>))
      | Some (Virtual ops fl p) \<Rightarrow>
          (case ptr (a1 args) of
             None \<Rightarrow> sret (Value (- EFAULT))
           | Some buf_addr \<Rightarrow>
               sbnd (s_load (\<lambda>m. read_bytes G m buf_addr (nat (a2 args)))) (\<lambda>buf.
               sbnd (s_files (ops_write G ops buf)) (\<lambda>r.
                 sret (Value (case r of Inl err \<Rightarrow> vfs_errno EIO err | Inr n \<Rightarrow> int n))))))"

definition handle_close ::
  "('k, 'm, 'o, 'w) env \<Rightarrow> syscall \<Rightarrow> nat \<Rightarrow> ('k, 'm, 'o, 'w, syscall_result) call" where
  "handle_close G args h =
    sbnd (t_deallocate h (a0 args)) (\<lambda>e.
      case e of
        None \<Rightarrow> sret (Inject args)
      | Some (Passthrough kfd fl p) \<Rightarrow> sret (Inject (args\<lparr>a0 := kfd\<rparr>))
      | Some (Virtual ops fl p) \<Rightarrow> sbnd (s_files (ops_close G ops)) (\<lambda>_. sret (Value 0)))"

section \<open>Duplicating descriptors\<close>

definition sys_dup :: "int \<Rightarrow> syscall" where "sys_dup k = (sys_new SYS_dup)\<lparr>a0 := k\<rparr>"
definition sys_close :: "int \<Rightarrow> syscall" where "sys_close k = (sys_new SYS_close)\<lparr>a0 := k\<rparr>"

definition handle_dup ::
  "('k, 'm, 'o, 'w) env \<Rightarrow> syscall \<Rightarrow> nat \<Rightarrow> ('k, 'm, 'o, 'w, int option) call" where
  "handle_dup G args h =
    sbnd (t_get h (a0 args)) (\<lambda>e.
      case e of
        None \<Rightarrow> sret None
      | Some (Passthrough kfd flags path) \<Rightarrow>
          sbnd (s_inject G (sys_dup kfd)) (\<lambda>result.
            if result < 0 then sret (Some result)
            else
              sbnd (t_allocate h (Passthrough (wrap_i32 result) flags path)) (\<lambda>vfd. sret (Some vfd)))
      | Some (Virtual ops flags path) \<Rightarrow> t_duplicate h (a0 args))"

text \<open>What \<open>dup2\<close> and \<open>dup3\<close> do with the entry they replace.\<close>

definition close_entry ::
  "('k, 'm, 'o, 'w) env \<Rightarrow> 'o fd_entry option \<Rightarrow> ('k, 'm, 'o, 'w, unit) call" where
  "close_entry G e =
    (case e of
       None \<Rightarrow> sret ()
     | Some (Passthrough kfd fl p) \<Rightarrow> sbnd (s_inject G (sys_close kfd)) (\<lambda>_. sret ())
     | Some (Virtual ops fl p) \<Rightarrow> sbnd (s_files (ops_close G ops)) (\<lambda>_. sret ()))"

text \<open>
  The common body of \<open>dup2\<close> (with the flags 0 for a kernel file and the old ones for a virtual
  file) and of \<open>dup3\<close> (with its flag argument for both).
\<close>

definition dup_onto ::
  "('k, 'm, 'o, 'w) env \<Rightarrow> int \<Rightarrow> int \<Rightarrow> int option \<Rightarrow> nat \<Rightarrow> ('k, 'm, 'o, 'w, int option) call" where
  "dup_onto G old_vfd new_vfd flags3 h =
    sbnd (t_get h old_vfd) (\<lambda>e.
      case e of
        None \<Rightarrow> sret None
      | Some old_entry \<Rightarrow>
          sbnd (t_get h new_vfd) (\<lambda>old_new_entry.
          sbnd (case old_entry of
                  Passthrough old_kernel_fd fl path \<Rightarrow>
                    sbnd (s_inject G (sys_dup old_kernel_fd)) (\<lambda>kfd.
                      if kfd < 0 then sret (Some kfd)
                      else
                        sbnd (close_entry G old_new_entry) (\<lambda>_.
                        sbnd (t_allocate_at h new_vfd
                               (Passthrough (wrap_i32 kfd) (case flags3 of None \<Rightarrow> 0 | Some f \<Rightarrow> f) path)) (\<lambda>_.
                          sret None)))
                | Virtual ops fl path \<Rightarrow>
                    sbnd (close_entry G old_new_entry) (\<lambda>_.
                    sbnd (t_allocate_at h new_vfd
                           (Virtual ops (case flags3 of None \<Rightarrow> fl | Some f \<Rightarrow> f) path)) (\<lambda>_.
                      sret None))) (\<lambda>early.
            sret (Some (case early of None \<Rightarrow> new_vfd | Some r \<Rightarrow> r)))))"

definition handle_dup2 ::
  "('k, 'm, 'o, 'w) env \<Rightarrow> syscall \<Rightarrow> nat \<Rightarrow> ('k, 'm, 'o, 'w, int option) call" where
  "handle_dup2 G args h = dup_onto G (a0 args) (a1 args) None h"

definition handle_dup3 ::
  "('k, 'm, 'o, 'w) env \<Rightarrow> syscall \<Rightarrow> nat \<Rightarrow> ('k, 'm, 'o, 'w, int option) call" where
  "handle_dup3 G args h = dup_onto G (a0 args) (a1 args) (Some (a2 args)) h"

definition F_DUPFD :: int where "F_DUPFD = 0"
definition F_DUPFD_CLOEXEC :: int where "F_DUPFD_CLOEXEC = 1030"
definition O_CLOEXEC :: int where "O_CLOEXEC = 524288"

definition handle_fcntl ::
  "('k, 'm, 'o, 'w) env \<Rightarrow> syscall \<Rightarrow> nat \<Rightarrow> ('k, 'm, 'o, 'w, int option) call" where
  "handle_fcntl G args h =
    sbnd (t_translate h (a0 args)) (\<lambda>k.
      case k of
        None \<Rightarrow> sret None
      | Some kfd \<Rightarrow>
          if a1 args = F_DUPFD \<or> a1 args = F_DUPFD_CLOEXEC then
            let flags = (if a1 args = F_DUPFD_CLOEXEC then O_CLOEXEC else 0) in
            sbnd (s_inject G ((sys_new SYS_fcntl)\<lparr>a0 := kfd, a1 := a1 args, a2 := 0\<rparr>)) (\<lambda>new_kernel_fd.
              if new_kernel_fd \<ge> 0 then
                sbnd (t_get h (a0 args)) (\<lambda>old_entry.
                sbnd (t_allocate_min h (a2 args)
                       (Passthrough (wrap_i32 new_kernel_fd) flags (Option.bind old_entry fd_path))) (\<lambda>vfd.
                  sret (Some vfd)))
              else sret (Some new_kernel_fd))
          else
            sbnd (s_inject G ((sys_new SYS_fcntl)\<lparr>a0 := kfd, a1 := a1 args, a2 := a2 args\<rparr>)) (\<lambda>result.
              sret (Some result)))"

section \<open>Calls on a descriptor\<close>

text \<open>The handlers that run a rewritten call on the kernel's descriptor.\<close>

definition run_on_fd ::
  "('k, 'm, 'o, 'w) env \<Rightarrow> nat \<Rightarrow> int \<Rightarrow> (int \<Rightarrow> syscall) \<Rightarrow> ('k, 'm, 'o, 'w, int option) call" where
  "run_on_fd G h vfd rewrite =
    sbnd (t_translate h vfd) (\<lambda>k.
      case k of
        None \<Rightarrow> sret None
      | Some kfd \<Rightarrow> sbnd (s_inject G (rewrite kfd)) (\<lambda>result. sret (Some result)))"

definition handle_ioctl ::
  "('k, 'm, 'o, 'w) env \<Rightarrow> syscall \<Rightarrow> nat \<Rightarrow> ('k, 'm, 'o, 'w, int option) call" where
  "handle_ioctl G args h =
    sbnd (t_translate h (a0 args)) (\<lambda>k.
      case k of
        None \<Rightarrow> sret None
      | Some kfd \<Rightarrow>
          if a0 args = kfd then sret None
          else
            sbnd (s_inject G ((sys_new SYS_ioctl)\<lparr>a0 := kfd, a1 := a1 args, a2 := a2 args\<rparr>)) (\<lambda>result.
              sret (Some result)))"

definition handle_pread64 ::
  "('k, 'm, 'o, 'w) env \<Rightarrow> syscall \<Rightarrow> nat \<Rightarrow> ('k, 'm, 'o, 'w, int option) call" where
  "handle_pread64 G args h = run_on_fd G h (a0 args) (\<lambda>kfd.
    (sys_new SYS_pread64)\<lparr>a0 := kfd, a1 := a1 args, a2 := a2 args, a3 := a3 args\<rparr>)"

definition handle_pwrite64 ::
  "('k, 'm, 'o, 'w) env \<Rightarrow> syscall \<Rightarrow> nat \<Rightarrow> ('k, 'm, 'o, 'w, int option) call" where
  "handle_pwrite64 G args h = run_on_fd G h (a0 args) (\<lambda>kfd.
    (sys_new SYS_pwrite64)\<lparr>a0 := kfd, a1 := a1 args, a2 := a2 args, a3 := a3 args\<rparr>)"

definition handle_mmap ::
  "('k, 'm, 'o, 'w) env \<Rightarrow> syscall \<Rightarrow> nat \<Rightarrow> ('k, 'm, 'o, 'w, int option) call" where
  "handle_mmap G args h =
    (if a4 args = - 1 then sret None
     else run_on_fd G h (a4 args) (\<lambda>kfd.
       (sys_new SYS_mmap)\<lparr>a0 := a0 args, a1 := a1 args, a2 := a2 args, a3 := a3 args, a4 := kfd, a5 := a5 args\<rparr>))"

text \<open>
  The builders of the next four calls leave arguments at zero: the number of buffers of \<open>readv\<close>
  and \<open>writev\<close>, the two lengths of \<open>sendto\<close>, and the address of \<open>connect\<close>.
\<close>

definition handle_readv ::
  "('k, 'm, 'o, 'w) env \<Rightarrow> syscall \<Rightarrow> nat \<Rightarrow> ('k, 'm, 'o, 'w, int option) call" where
  "handle_readv G args h = run_on_fd G h (a0 args) (\<lambda>kfd. (sys_new SYS_readv)\<lparr>a0 := kfd, a1 := a1 args\<rparr>)"

definition handle_writev ::
  "('k, 'm, 'o, 'w) env \<Rightarrow> syscall \<Rightarrow> nat \<Rightarrow> ('k, 'm, 'o, 'w, int option) call" where
  "handle_writev G args h = run_on_fd G h (a0 args) (\<lambda>kfd. (sys_new SYS_writev)\<lparr>a0 := kfd, a1 := a1 args\<rparr>)"

definition handle_sendto ::
  "('k, 'm, 'o, 'w) env \<Rightarrow> syscall \<Rightarrow> nat \<Rightarrow> ('k, 'm, 'o, 'w, int option) call" where
  "handle_sendto G args h = run_on_fd G h (a0 args) (\<lambda>kfd.
    (sys_new SYS_sendto)\<lparr>a0 := kfd, a1 := a1 args, a3 := a3 args, a4 := a4 args\<rparr>)"

definition handle_connect ::
  "('k, 'm, 'o, 'w) env \<Rightarrow> syscall \<Rightarrow> nat \<Rightarrow> ('k, 'm, 'o, 'w, int option) call" where
  "handle_connect G args h = run_on_fd G h (a0 args) (\<lambda>kfd. (sys_new SYS_connect)\<lparr>a0 := kfd, a2 := a2 args\<rparr>)"

definition handle_getpeername ::
  "('k, 'm, 'o, 'w) env \<Rightarrow> syscall \<Rightarrow> nat \<Rightarrow> ('k, 'm, 'o, 'w, int option) call" where
  "handle_getpeername G args h = run_on_fd G h (a0 args) (\<lambda>kfd.
    (sys_new SYS_getpeername)\<lparr>a0 := kfd, a1 := a1 args, a2 := a2 args\<rparr>)"

definition handle_lseek ::
  "('k, 'm, 'o, 'w) env \<Rightarrow> syscall \<Rightarrow> nat \<Rightarrow> ('k, 'm, 'o, 'w, syscall_result) call" where
  "handle_lseek G args h =
    sbnd (t_get h (a0 args)) (\<lambda>e.
      case e of
        None \<Rightarrow> sret (Inject args)
      | Some (Passthrough kfd fl p) \<Rightarrow> sret (Inject (args\<lparr>a0 := kfd\<rparr>))
      | Some (Virtual ops fl p) \<Rightarrow>
          if a2 args \<notin> {0, 1, 2, 3, 4} then sret (Value (- EINVAL))
          else
            sbnd (s_files (ops_seek G ops (a1 args) (a2 args))) (\<lambda>r.
              sret (Value (case r of Inl err \<Rightarrow> vfs_errno EIO err | Inr offset \<Rightarrow> offset))))"

definition handle_fstat ::
  "('k, 'm, 'o, 'w) env \<Rightarrow> syscall \<Rightarrow> nat \<Rightarrow> ('k, 'm, 'o, 'w, syscall_result) call" where
  "handle_fstat G args h =
    sbnd (t_get h (a0 args)) (\<lambda>e.
      case e of
        None \<Rightarrow> sret (Inject args)
      | Some (Passthrough kfd fl p) \<Rightarrow> sret (Inject (args\<lparr>a0 := kfd\<rparr>))
      | Some (Virtual ops fl p) \<Rightarrow>
          sbnd (s_files (ops_fstat G ops)) (\<lambda>r.
            case r of
              Inl err \<Rightarrow> sret (Value (vfs_errno EIO err))
            | Inr stat \<Rightarrow>
                sbnd (case ptr (a1 args) of None \<Rightarrow> sret () | Some addr \<Rightarrow> s_store (write_bytes G addr stat)) (\<lambda>_.
                  sret (Value 0))))"

text \<open>The records of \<open>getdents64\<close>, little endian; each is padded to a multiple of eight bytes.\<close>

definition le_bytes :: "nat \<Rightarrow> int \<Rightarrow> bytes" where
  "le_bytes n x = map (\<lambda>i. word_of_int (x div 2 ^ (8 * i))) [0..<n]"

definition reclen :: "string \<Rightarrow> nat" where
  "reclen name = (19 + (length name + 1) + 7) div 8 * 8"

definition dirent :: "nat \<Rightarrow> int \<Rightarrow> string \<Rightarrow> byte \<Rightarrow> bytes" where
  "dirent ino offset name d_type =
    le_bytes 8 (int ino) @ le_bytes 8 offset @ le_bytes 2 (int (reclen name)) @ [d_type] @
    map (\<lambda>c. of_char c) name @ [0]"

definition pad8 :: "bytes \<Rightarrow> bytes" where
  "pad8 buf = buf @ replicate ((8 - length buf mod 8) mod 8) 0"

fun dirents :: "nat \<Rightarrow> int \<Rightarrow> (nat \<times> string \<times> byte) list \<Rightarrow> bytes \<Rightarrow> bytes" where
  "dirents cap offset [] buf = buf"
| "dirents cap offset ((ino, name, d_type) # es) buf =
    (if length buf + reclen name > cap then buf
     else dirents cap (offset + 1) es (pad8 (buf @ dirent ino offset name d_type)))"

definition handle_getdents64 ::
  "('k, 'm, 'o, 'w) env \<Rightarrow> syscall \<Rightarrow> nat \<Rightarrow> ('k, 'm, 'o, 'w, syscall_result) call" where
  "handle_getdents64 G args h =
    sbnd (t_get h (wrap_i32 (a0 args))) (\<lambda>e.
      case e of
        None \<Rightarrow> sret (Inject args)
      | Some (Passthrough kfd fl p) \<Rightarrow> sret (Inject (args\<lparr>a0 := kfd mod 2 ^ 32\<rparr>))
      | Some (Virtual ops fl p) \<Rightarrow>
          sbnd (s_files (ops_getdents G ops)) (\<lambda>r.
            case r of
              Inl err \<Rightarrow> sret (Value (- ENOTDIR))
            | Inr es \<Rightarrow>
                (case ptr (a1 args) of
                   None \<Rightarrow> sret (Value (- EFAULT))
                 | Some addr \<Rightarrow>
                     let buf = dirents (nat (a2 args)) 1 es [] in
                     sbnd (if buf \<noteq> [] then s_store (write_bytes G addr buf) else sret ()) (\<lambda>_.
                       sret (Value (int (length buf)))))))"

section \<open>Waiting on several descriptors\<close>

text \<open>
  \<open>fdset::translate_to_kernel\<close> and \<open>translate_to_virtual\<close>; an \<open>fd_set\<close> is a set of descriptors.  The sets
  of \<open>libc\<close> hold descriptors below \<open>FD_SETSIZE\<close> (1024) only, and the source does not check this: for a
  larger \<open>virt_nfds\<close> or kernel descriptor \<open>FD_ISSET\<close> and \<open>FD_SET\<close> are outside of what \<open>libc\<close> documents,
  and the model stands for the source on smaller ones.
\<close>

definition translate_to_kernel :: "'o fd_table \<Rightarrow> int set \<Rightarrow> int \<Rightarrow> int set \<times> int" where
  "translate_to_kernel t virt_set virt_nfds =
    fold (\<lambda>vfd (kset, m). if vfd \<in> virt_set then
              (case translate t vfd of None \<Rightarrow> (kset, m) | Some kfd \<Rightarrow> (insert kfd kset, if kfd + 1 > m then kfd + 1 else m))
            else (kset, m))
      [0..virt_nfds - 1] ({}, 1)"

definition translate_to_virtual :: "'o fd_table \<Rightarrow> int set \<Rightarrow> int \<Rightarrow> int \<Rightarrow> int set" where
  "translate_to_virtual t kernel_set kernel_nfds virt_nfds =
    set (filter (\<lambda>vfd. case translate t vfd of None \<Rightarrow> False | Some kfd \<Rightarrow> kfd < kernel_nfds \<and> kfd \<in> kernel_set)
      [0..virt_nfds - 1])"

definition load_opt :: "('m \<Rightarrow> int \<Rightarrow> int + 'a) \<Rightarrow> int option \<Rightarrow> ('k, 'm, 'o, 'w, 'a option) call" where
  "load_opt f a = (case a of None \<Rightarrow> sret None | Some addr \<Rightarrow> sbnd (s_load (\<lambda>m. f m addr)) (\<lambda>x. sret (Some x)))"

definition reserve_opt :: "('k, 'm, 'o, 'w) env \<Rightarrow> 'a option \<Rightarrow> ('k, 'm, 'o, 'w, int option) call" where
  "reserve_opt G x = (case x of None \<Rightarrow> sret None | Some s \<Rightarrow> sbnd (s_reserve G) (\<lambda>a. sret (Some a)))"

definition store_opt ::
  "('k, 'm, 'o, 'w) env \<Rightarrow> int option \<Rightarrow> int set option \<Rightarrow> ('k, 'm, 'o, 'w, unit) call" where
  "store_opt G a x = (case (a, x) of (Some addr, Some s) \<Rightarrow> s_store (write_set G addr s) | _ \<Rightarrow> sret ())"

definition nfds_of :: "(int set \<times> int) option \<Rightarrow> int" where
  "nfds_of x = (case x of None \<Rightarrow> 0 | Some (s, n) \<Rightarrow> n)"

definition table_of :: "nat \<Rightarrow> ('k, 'm, 'o, 'w, 'o fd_table) call" where
  "table_of h g = (Inr (heap g h), g)"

text \<open>Reading a result set back into the set of the process.\<close>

definition set_back ::
  "('k, 'm, 'o, 'w) env \<Rightarrow> nat \<Rightarrow> int option \<Rightarrow> int option \<Rightarrow> int \<Rightarrow> int \<Rightarrow> ('k, 'm, 'o, 'w, unit) call" where
  "set_back G h kaddr vaddr kernel_nfds virt_nfds =
    (case (kaddr, vaddr) of
       (Some ka, Some va) \<Rightarrow>
         sbnd (s_load (\<lambda>m. read_set G m ka)) (\<lambda>kset.
         sbnd (table_of h) (\<lambda>t.
           s_store (write_set G va (translate_to_virtual t kset kernel_nfds virt_nfds))))
     | _ \<Rightarrow> sret ())"

definition handle_pselect6 ::
  "('k, 'm, 'o, 'w) env \<Rightarrow> syscall \<Rightarrow> nat \<Rightarrow> ('k, 'm, 'o, 'w, int option) call" where
  "handle_pselect6 G args h =
    (let virt_nfds = a0 args; ra = ptr (a1 args); wa = ptr (a2 args); ea = ptr (a3 args) in
     sbnd (load_opt (read_set G) ra) (\<lambda>vr.
     sbnd (load_opt (read_set G) wa) (\<lambda>vw.
     sbnd (load_opt (read_set G) ea) (\<lambda>ve.
     sbnd (table_of h) (\<lambda>t.
     let kr = map_option (\<lambda>s. translate_to_kernel t s virt_nfds) vr;
         kw = map_option (\<lambda>s. translate_to_kernel t s virt_nfds) vw;
         ke = map_option (\<lambda>s. translate_to_kernel t s virt_nfds) ve;
         kernel_nfds = max (max (nfds_of kr) (nfds_of kw)) (nfds_of ke)
     in
     if kernel_nfds = 0 then sret None
     else
       sbnd (reserve_opt G kr) (\<lambda>kra. sbnd (reserve_opt G kw) (\<lambda>kwa. sbnd (reserve_opt G ke) (\<lambda>kea.
       sbnd (store_opt G kra (map_option fst kr)) (\<lambda>_. sbnd (store_opt G kwa (map_option fst kw)) (\<lambda>_.
       sbnd (store_opt G kea (map_option fst ke)) (\<lambda>_.
       sbnd (s_inject G ((sys_new SYS_pselect6)\<lparr>a0 := kernel_nfds,
              a1 := (case kra of None \<Rightarrow> 0 | Some a \<Rightarrow> a), a2 := (case kwa of None \<Rightarrow> 0 | Some a \<Rightarrow> a),
              a3 := (case kea of None \<Rightarrow> 0 | Some a \<Rightarrow> a), a4 := a4 args, a5 := a5 args\<rparr>)) (\<lambda>result.
       if result \<le> 0 then sret (Some result)
       else
         sbnd (set_back G h kra ra kernel_nfds virt_nfds) (\<lambda>_.
         sbnd (set_back G h kwa wa kernel_nfds virt_nfds) (\<lambda>_.
         sbnd (set_back G h kea ea kernel_nfds virt_nfds) (\<lambda>_.
           sret (Some result))))))))))))))))"

definition POLLFD_SIZE :: int where "POLLFD_SIZE = 8"

fun read_pollfds :: "('k, 'm, 'o, 'w) env \<Rightarrow> int \<Rightarrow> nat \<Rightarrow> ('k, 'm, 'o, 'w, pollfd list) call" where
  "read_pollfds G addr 0 = sret []"
| "read_pollfds G addr (Suc n) =
    sbnd (s_load (\<lambda>m. read_pollfd G m addr)) (\<lambda>p.
    sbnd (read_pollfds G (addr + POLLFD_SIZE) n) (\<lambda>ps. sret (p # ps)))"

fun reserve_more :: "('k, 'm, 'o, 'w) env \<Rightarrow> nat \<Rightarrow> ('k, 'm, 'o, 'w, unit) call" where
  "reserve_more G 0 = sret ()"
| "reserve_more G (Suc n) = sbnd (s_reserve G) (\<lambda>_. reserve_more G n)"

fun write_pollfds :: "('k, 'm, 'o, 'w) env \<Rightarrow> int \<Rightarrow> pollfd list \<Rightarrow> ('k, 'm, 'o, 'w, unit) call" where
  "write_pollfds G addr [] = sret ()"
| "write_pollfds G addr (p # ps) =
    sbnd (s_store (write_pollfd G addr p)) (\<lambda>_. write_pollfds G (addr + POLLFD_SIZE) ps)"

definition to_kernel_pollfd :: "'o fd_table \<Rightarrow> pollfd \<Rightarrow> pollfd" where
  "to_kernel_pollfd t p =
    p\<lparr>pfd := (case translate t (pfd p) of None \<Rightarrow> pfd p | Some kfd \<Rightarrow> kfd), revents := 0\<rparr>"

fun poll_back :: "('k, 'm, 'o, 'w) env \<Rightarrow> int \<Rightarrow> int \<Rightarrow> pollfd list \<Rightarrow> ('k, 'm, 'o, 'w, unit) call" where
  "poll_back G kaddr vaddr [] = sret ()"
| "poll_back G kaddr vaddr (p # ps) =
    sbnd (s_load (\<lambda>m. read_pollfd G m kaddr)) (\<lambda>k.
    sbnd (s_store (write_pollfd G vaddr (p\<lparr>revents := revents k\<rparr>))) (\<lambda>_.
      poll_back G (kaddr + POLLFD_SIZE) (vaddr + POLLFD_SIZE) ps))"

definition handle_poll ::
  "('k, 'm, 'o, 'w) env \<Rightarrow> syscall \<Rightarrow> nat \<Rightarrow> ('k, 'm, 'o, 'w, int option) call" where
  "handle_poll G args h =
    (let nfds = nat (a1 args) in
     if nfds = 0 then sret None
     else
       case ptr (a0 args) of
         None \<Rightarrow> sret None
       | Some fds_addr \<Rightarrow>
           sbnd (read_pollfds G fds_addr nfds) (\<lambda>pollfds.
           sbnd (s_reserve G) (\<lambda>kernel_fds_addr.
           sbnd (reserve_more G (nfds - 1)) (\<lambda>_.
           sbnd (table_of h) (\<lambda>t.
           sbnd (write_pollfds G kernel_fds_addr (map (to_kernel_pollfd t) pollfds)) (\<lambda>_.
           sbnd (s_inject G ((sys_new SYS_poll)\<lparr>a0 := kernel_fds_addr, a1 := a1 args, a2 := a2 args\<rparr>)) (\<lambda>result.
             if result \<le> 0 then sret (Some result)
             else
               sbnd (poll_back G kernel_fds_addr fds_addr pollfds) (\<lambda>_. sret (Some result)))))))))"

section \<open>Calls on paths\<close>

definition handle_access ::
  "('k, 'm, 'o, 'w) env \<Rightarrow> syscall \<Rightarrow> ('o, 'w) mount_table \<Rightarrow> ('k, 'm, 'o, 'w, syscall option) call" where
  "handle_access G args mt = with_path G mt (a0 args) (\<lambda>p. args\<lparr>a0 := p\<rparr>)"

definition handle_unlink ::
  "('k, 'm, 'o, 'w) env \<Rightarrow> syscall \<Rightarrow> ('o, 'w) mount_table \<Rightarrow> ('k, 'm, 'o, 'w, syscall option) call" where
  "handle_unlink G args mt = with_path G mt (a0 args) (\<lambda>p. args\<lparr>a0 := p\<rparr>)"

definition handle_chdir ::
  "('k, 'm, 'o, 'w) env \<Rightarrow> syscall \<Rightarrow> ('o, 'w) mount_table \<Rightarrow> ('k, 'm, 'o, 'w, syscall option) call" where
  "handle_chdir G args mt = with_path G mt (a0 args) (\<lambda>p. args\<lparr>a0 := p\<rparr>)"

definition handle_rmdir ::
  "('k, 'm, 'o, 'w) env \<Rightarrow> syscall \<Rightarrow> ('o, 'w) mount_table \<Rightarrow> ('k, 'm, 'o, 'w, syscall option) call" where
  "handle_rmdir G args mt = with_path G mt (a0 args) (\<lambda>p. args\<lparr>a0 := p\<rparr>)"

definition handle_statfs ::
  "('k, 'm, 'o, 'w) env \<Rightarrow> syscall \<Rightarrow> ('o, 'w) mount_table \<Rightarrow> ('k, 'm, 'o, 'w, syscall option) call" where
  "handle_statfs G args mt = with_path G mt (a0 args) (\<lambda>p. args\<lparr>a0 := p\<rparr>)"

definition handle_llistxattr ::
  "('k, 'm, 'o, 'w) env \<Rightarrow> syscall \<Rightarrow> ('o, 'w) mount_table \<Rightarrow> ('k, 'm, 'o, 'w, syscall option) call" where
  "handle_llistxattr G args mt = with_path G mt (a0 args) (\<lambda>p. args\<lparr>a0 := p\<rparr>)"

definition handle_lgetxattr ::
  "('k, 'm, 'o, 'w) env \<Rightarrow> syscall \<Rightarrow> ('o, 'w) mount_table \<Rightarrow> ('k, 'm, 'o, 'w, syscall option) call" where
  "handle_lgetxattr G args mt = with_path G mt (a0 args) (\<lambda>p. args\<lparr>a0 := p\<rparr>)"

definition handle_unlinkat ::
  "('k, 'm, 'o, 'w) env \<Rightarrow> syscall \<Rightarrow> ('o, 'w) mount_table \<Rightarrow> ('k, 'm, 'o, 'w, syscall option) call" where
  "handle_unlinkat G args mt =
    (if a0 args \<noteq> AT_FDCWD then sret None
     else with_path G mt (a1 args) (\<lambda>p. args\<lparr>a0 := AT_FDCWD, a1 := p\<rparr>))"

definition handle_chmod ::
  "('k, 'm, 'o, 'w) env \<Rightarrow> syscall \<Rightarrow> ('o, 'w) mount_table \<Rightarrow> ('k, 'm, 'o, 'w, int option) call" where
  "handle_chmod G args mt =
    (case ptr (a1 args) of
       None \<Rightarrow> sret None
     | Some addr \<Rightarrow>
         if wrap_i32 (a0 args) \<noteq> AT_FDCWD then sret None
         else
           sbnd (translate_addr G mt addr) (\<lambda>n.
             case n of
               None \<Rightarrow> sret None
             | Some p \<Rightarrow>
                 sbnd (s_inject G ((sys_new SYS_fchmodat)\<lparr>a0 := AT_FDCWD, a1 := p, a2 := a2 args, a3 := a3 args\<rparr>))
                   (\<lambda>r. sret (Some r))))"

definition handle_rename ::
  "('k, 'm, 'o, 'w) env \<Rightarrow> syscall \<Rightarrow> ('o, 'w) mount_table \<Rightarrow> ('k, 'm, 'o, 'w, syscall option) call" where
  "handle_rename G args mt =
    sbnd (case ptr (a0 args) of None \<Rightarrow> sret None | Some a \<Rightarrow> translate_addr G mt a) (\<lambda>old.
    sbnd (case ptr (a1 args) of None \<Rightarrow> sret None | Some a \<Rightarrow> translate_addr G mt a) (\<lambda>new.
      sret (if old = None \<and> new = None then None
            else Some (args\<lparr>a0 := (case old of None \<Rightarrow> a0 args | Some p \<Rightarrow> p),
                            a1 := (case new of None \<Rightarrow> a1 args | Some p \<Rightarrow> p)\<rparr>))))"

text \<open>
  \<open>faccessat\<close>, \<open>faccessat2\<close> and \<open>fchownat\<close>: a call with a directory descriptor and a path, each of
  which may need rewriting.
\<close>

definition at_call ::
  "('k, 'm, 'o, 'w) env \<Rightarrow> ('o, 'w) mount_table \<Rightarrow> nat \<Rightarrow> int \<Rightarrow> int \<Rightarrow> (int \<Rightarrow> int \<Rightarrow> syscall) \<Rightarrow>
   ('k, 'm, 'o, 'w, int option) call" where
  "at_call G mt h dirfd addr rewrite =
    sbnd (t_translate h dirfd) (\<lambda>k.
    sbnd (translate_addr G mt addr) (\<lambda>n.
      if \<not> (dirfd \<noteq> AT_FDCWD \<and> k \<noteq> None) \<and> n = None then sret None
      else
        let kernel_dirfd = (if dirfd = AT_FDCWD then dirfd else case k of None \<Rightarrow> dirfd | Some kfd \<Rightarrow> kfd) in
        sbnd (s_inject G (rewrite kernel_dirfd (case n of None \<Rightarrow> addr | Some p \<Rightarrow> p))) (\<lambda>r. sret (Some r))))"

definition handle_faccessat2 ::
  "('k, 'm, 'o, 'w) env \<Rightarrow> syscall \<Rightarrow> ('o, 'w) mount_table \<Rightarrow> nat \<Rightarrow> ('k, 'm, 'o, 'w, int option) call" where
  "handle_faccessat2 G args mt h =
    at_call G mt h (wrap_i32 (a0 args)) (a1 args) (\<lambda>d p.
      (sys_new SYS_faccessat2)\<lparr>a0 := d, a1 := p, a2 := wrap_i32 (a2 args), a3 := wrap_i32 (a3 args)\<rparr>)"

definition handle_faccessat ::
  "('k, 'm, 'o, 'w) env \<Rightarrow> syscall \<Rightarrow> ('o, 'w) mount_table \<Rightarrow> nat \<Rightarrow> ('k, 'm, 'o, 'w, int option) call" where
  "handle_faccessat G args mt h =
    (case ptr (a1 args) of
       None \<Rightarrow> sret None
     | Some addr \<Rightarrow> at_call G mt h (a0 args) addr (\<lambda>d p. args\<lparr>a0 := d, a1 := p\<rparr>))"

definition handle_fchownat ::
  "('k, 'm, 'o, 'w) env \<Rightarrow> syscall \<Rightarrow> ('o, 'w) mount_table \<Rightarrow> nat \<Rightarrow> ('k, 'm, 'o, 'w, int option) call" where
  "handle_fchownat G args mt h =
    (case ptr (a1 args) of
       None \<Rightarrow> sret None
     | Some addr \<Rightarrow> at_call G mt h (a0 args) addr (\<lambda>d p. args\<lparr>a0 := d, a1 := p\<rparr>))"

definition handle_fstatat ::
  "('k, 'm, 'o, 'w) env \<Rightarrow> syscall \<Rightarrow> nat \<Rightarrow> ('o, 'w) mount_table \<Rightarrow> ('k, 'm, 'o, 'w, syscall_result) call" where
  "handle_fstatat G args h mt =
    (case ptr (a1 args) of
       None \<Rightarrow> sret (Inject args)
     | Some path_addr \<Rightarrow>
         sbnd (s_load (\<lambda>m. read_path G m path_addr)) (\<lambda>path0.
         sbnd (resolve_dirfd h (a0 args) path0) (\<lambda>r.
         case r of
           Inl u \<Rightarrow> fail (Errno EBADFD)
         | Inr (kernel_dirfd, path) \<Rightarrow>
             let through = sret (Inject (args\<lparr>a0 := kernel_dirfd, a1 := path_addr\<rparr>)) in
             (case resolve mt path of
                None \<Rightarrow> through
              | Some (vfs, translated) \<Rightarrow>
                  if is_virtual vfs then
                    sbnd (s_files (vfs_stat vfs path)) (\<lambda>s.
                      case s of
                        Inl e \<Rightarrow> sret (Value (vfs_errno EIO e))
                      | Inr stat \<Rightarrow>
                          sbnd (case ptr (a2 args) of None \<Rightarrow> sret () | Some a \<Rightarrow> s_store (write_bytes G a stat)) (\<lambda>_.
                            sret (Value 0)))
                  else through))))"

text \<open>The directory descriptor of the calls of \<open>stat.rs\<close>.\<close>

definition kernel_dir :: "nat \<Rightarrow> int \<Rightarrow> ('k, 'm, 'o, 'w, int) call" where
  "kernel_dir h dirfd =
    (if dirfd = AT_FDCWD then sret dirfd
     else sbnd (t_translate h dirfd) (\<lambda>k. sret (case k of None \<Rightarrow> dirfd | Some kfd \<Rightarrow> kfd)))"

text \<open>
  The calls of \<open>stat.rs\<close> on one path: a virtual filesystem answers by \<open>virt\<close>; otherwise the
  rewritten call runs when the path lies below a mount, and the original call is left alone
  when it does not.
\<close>

definition path_call ::
  "('k, 'm, 'o, 'w) env \<Rightarrow> ('o, 'w) mount_table \<Rightarrow> int \<Rightarrow>
   (('o, 'w) vfs \<Rightarrow> string \<Rightarrow> ('k, 'm, 'o, 'w, int) call) \<Rightarrow> (int \<Rightarrow> syscall) \<Rightarrow> ('k, 'm, 'o, 'w, int option) call" where
  "path_call G mt addr virt rewrite =
    (case ptr addr of
       None \<Rightarrow> sret None
     | Some path_addr \<Rightarrow>
         sbnd (s_load (\<lambda>m. read_path G m path_addr)) (\<lambda>path.
         let through =
           sbnd (translate_addr G mt path_addr) (\<lambda>n.
             case n of
               None \<Rightarrow> sret None
             | Some p \<Rightarrow> sbnd (s_inject G (rewrite p)) (\<lambda>r. sret (Some r)))
         in
         (case resolve mt path of
            None \<Rightarrow> through
          | Some (vfs, translated) \<Rightarrow>
              if is_virtual vfs then sbnd (virt vfs path) (\<lambda>r. sret (Some r)) else through)))"

definition handle_statx ::
  "('k, 'm, 'o, 'w) env \<Rightarrow> syscall \<Rightarrow> ('o, 'w) mount_table \<Rightarrow> nat \<Rightarrow> ('k, 'm, 'o, 'w, int option) call" where
  "handle_statx G args mt h =
    sbnd (kernel_dir h (a0 args)) (\<lambda>d.
      path_call G mt (a1 args) (\<lambda>vfs path. sret (- ENOSYS))
        (\<lambda>p. (sys_new SYS_statx)\<lparr>a0 := d, a1 := p, a2 := a2 args, a3 := a3 args, a4 := a4 args\<rparr>))"

definition AT_SYMLINK_NOFOLLOW :: int where "AT_SYMLINK_NOFOLLOW = 256"

definition stat_reply ::
  "('k, 'm, 'o, 'w) env \<Rightarrow> int \<Rightarrow> vfs_error + bytes \<Rightarrow> ('k, 'm, 'o, 'w, int) call" where
  "stat_reply G addr s =
    (case s of
       Inl e \<Rightarrow> sret (vfs_errno EIO e)
     | Inr stat \<Rightarrow>
         sbnd (case ptr addr of None \<Rightarrow> sret () | Some a \<Rightarrow> s_store (write_bytes G a stat)) (\<lambda>_. sret 0))"

definition handle_newfstatat ::
  "('k, 'm, 'o, 'w) env \<Rightarrow> syscall \<Rightarrow> ('o, 'w) mount_table \<Rightarrow> nat \<Rightarrow> ('k, 'm, 'o, 'w, int option) call" where
  "handle_newfstatat G args mt h =
    sbnd (kernel_dir h (a0 args)) (\<lambda>d.
      path_call G mt (a1 args)
        (\<lambda>vfs path.
          sbnd (s_files (if a3 args AND AT_SYMLINK_NOFOLLOW \<noteq> AT_SYMLINK_NOFOLLOW then vfs_stat vfs path
                         else vfs_lstat vfs path))
            (stat_reply G (a2 args)))
        (\<lambda>p. (sys_new SYS_newfstatat)\<lparr>a0 := d, a1 := p, a2 := a2 args, a3 := a3 args\<rparr>))"

definition readlink_reply ::
  "('k, 'm, 'o, 'w) env \<Rightarrow> int \<Rightarrow> int \<Rightarrow> vfs_error + string \<Rightarrow> ('k, 'm, 'o, 'w, int) call" where
  "readlink_reply G addr bufsize r =
    (case r of
       Inl e \<Rightarrow> sret (vfs_errno EINVAL e)
     | Inr target \<Rightarrow>
         (case ptr addr of
            None \<Rightarrow> sret 0
          | Some buf \<Rightarrow>
              let bs = take (nat bufsize) (map (\<lambda>c. of_char c) (lossy G target)) in
              sbnd (s_store (write_bytes G buf bs)) (\<lambda>_. sret (int (length bs)))))"

definition handle_readlink ::
  "('k, 'm, 'o, 'w) env \<Rightarrow> syscall \<Rightarrow> ('o, 'w) mount_table \<Rightarrow> ('k, 'm, 'o, 'w, int option) call" where
  "handle_readlink G args mt =
    path_call G mt (a0 args)
      (\<lambda>vfs path. sbnd (s_files (vfs_readlink vfs path)) (readlink_reply G (a1 args) (a2 args)))
      (\<lambda>p. (sys_new SYS_readlink)\<lparr>a0 := p, a1 := a1 args, a2 := a2 args\<rparr>)"

definition handle_readlinkat ::
  "('k, 'm, 'o, 'w) env \<Rightarrow> syscall \<Rightarrow> ('o, 'w) mount_table \<Rightarrow> nat \<Rightarrow> ('k, 'm, 'o, 'w, int option) call" where
  "handle_readlinkat G args mt h =
    sbnd (kernel_dir h (a0 args)) (\<lambda>d.
      path_call G mt (a1 args)
        (\<lambda>vfs path. sbnd (s_files (vfs_readlink vfs path)) (readlink_reply G (a2 args) (a3 args)))
        (\<lambda>p. (sys_new SYS_readlinkat)\<lparr>a0 := d, a1 := p, a2 := a2 args, a3 := a3 args\<rparr>))"

text \<open>
  The calls of \<open>stat.rs\<close> that make a link: two paths are read, the second decides the filesystem.
\<close>

definition two_paths ::
  "('k, 'm, 'o, 'w) env \<Rightarrow> int \<Rightarrow> int \<Rightarrow> (int \<Rightarrow> string \<Rightarrow> int \<Rightarrow> string \<Rightarrow> ('k, 'm, 'o, 'w, int option) call) \<Rightarrow>
   ('k, 'm, 'o, 'w, int option) call" where
  "two_paths G x y f =
    (case ptr x of
       None \<Rightarrow> sret None
     | Some xa \<Rightarrow>
         sbnd (s_load (\<lambda>m. read_path G m xa)) (\<lambda>xp.
           case ptr y of
             None \<Rightarrow> sret None
           | Some ya \<Rightarrow> sbnd (s_load (\<lambda>m. read_path G m ya)) (\<lambda>yp. f xa xp ya yp)))"

definition link_reply :: "int \<Rightarrow> vfs_error + unit \<Rightarrow> ('k, 'm, 'o, 'w, int option) call" where
  "link_reply permission r =
    sret (Some (case r of Inl e \<Rightarrow> vfs_errno_exists permission e | Inr u \<Rightarrow> 0))"

definition symlink_call ::
  "('k, 'm, 'o, 'w) env \<Rightarrow> ('o, 'w) mount_table \<Rightarrow> int \<Rightarrow> int \<Rightarrow> (int \<Rightarrow> syscall) \<Rightarrow> ('k, 'm, 'o, 'w, int option) call" where
  "symlink_call G mt link_addr target_addr rewrite =
    two_paths G link_addr target_addr (\<lambda>la linkpath ta target.
      let through =
        sbnd (translate_addr G mt la) (\<lambda>n.
          case n of
            None \<Rightarrow> sret None
          | Some p \<Rightarrow> sbnd (s_inject G (rewrite p)) (\<lambda>r. sret (Some r)))
      in
      (case resolve mt linkpath of
         None \<Rightarrow> through
       | Some (vfs, translated) \<Rightarrow>
           if is_virtual vfs then sbnd (s_files (vfs_symlink vfs target linkpath)) (link_reply EACCES)
           else through))"

definition handle_symlink ::
  "('k, 'm, 'o, 'w) env \<Rightarrow> syscall \<Rightarrow> ('o, 'w) mount_table \<Rightarrow> ('k, 'm, 'o, 'w, int option) call" where
  "handle_symlink G args mt =
    symlink_call G mt (a1 args) (a0 args) (\<lambda>p. (sys_new SYS_symlink)\<lparr>a0 := a0 args, a1 := p\<rparr>)"

definition handle_symlinkat ::
  "('k, 'm, 'o, 'w) env \<Rightarrow> syscall \<Rightarrow> ('o, 'w) mount_table \<Rightarrow> nat \<Rightarrow> ('k, 'm, 'o, 'w, int option) call" where
  "handle_symlinkat G args mt h =
    sbnd (kernel_dir h (a1 args)) (\<lambda>d.
      symlink_call G mt (a2 args) (a0 args) (\<lambda>p. (sys_new SYS_symlinkat)\<lparr>a0 := a0 args, a1 := d, a2 := p\<rparr>))"

definition handle_linkat ::
  "('k, 'm, 'o, 'w) env \<Rightarrow> syscall \<Rightarrow> ('o, 'w) mount_table \<Rightarrow> nat \<Rightarrow> ('k, 'm, 'o, 'w, int option) call" where
  "handle_linkat G args mt h =
    sbnd (kernel_dir h (a0 args)) (\<lambda>kernel_olddirfd.
    sbnd (kernel_dir h (a2 args)) (\<lambda>kernel_newdirfd.
      two_paths G (a1 args) (a3 args) (\<lambda>oa oldpath na newpath.
        let run = (\<lambda>p q. sbnd (s_inject G ((sys_new SYS_linkat)\<lparr>a0 := kernel_olddirfd, a1 := p,
                    a2 := kernel_newdirfd, a3 := q, a4 := a4 args\<rparr>)) (\<lambda>r. sret (Some r)));
            through =
              (case (resolve mt oldpath, resolve mt newpath) of
                 (Some (v1, translated_old), Some (v2, translated_new)) \<Rightarrow>
                   let s = lossy G translated_old; t = lossy G translated_new in
                   if CHR 0x00 \<in> set s \<or> CHR 0x00 \<in> set t then fail (Errno EINVAL)
                   else
                     sbnd (s_reserve G) (\<lambda>p. sbnd (s_reserve G) (\<lambda>q.
                     sbnd (s_store (write_path G p s)) (\<lambda>_. sbnd (s_store (write_path G q t)) (\<lambda>_. run p q))))
               | (Some _, None) \<Rightarrow>
                   sbnd (translate_addr G mt oa) (\<lambda>n. case n of None \<Rightarrow> sret None | Some p \<Rightarrow> run p na)
               | (None, Some _) \<Rightarrow>
                   sbnd (translate_addr G mt na) (\<lambda>n. case n of None \<Rightarrow> sret None | Some q \<Rightarrow> run oa q)
               | (None, None) \<Rightarrow> sret None)
        in
        (case resolve mt newpath of
           None \<Rightarrow> through
         | Some (vfs, translated) \<Rightarrow>
             if is_virtual vfs then sbnd (s_files (vfs_link vfs oldpath newpath)) (link_reply EPERM)
             else through))))"

section \<open>Processes\<close>

text \<open>\<open>get_fd_table\<close>: a process without a table gets a new one.\<close>

definition get_fd_table :: "int \<Rightarrow> ('k, 'm, 'o, 'w, nat) call" where
  "get_fd_table pid g =
    (case fd_tables g pid of
       Some h \<Rightarrow> (Inr h, g)
     | None \<Rightarrow>
         (Inr (next_table g),
          g\<lparr>heap := (heap g)(next_table g := fd_new), fd_tables := (fd_tables g)(pid \<mapsto> next_table g),
            next_table := Suc (next_table g)\<rparr>))"

definition insert_fd_table :: "int \<Rightarrow> nat \<Rightarrow> ('k, 'm, 'o, 'w, unit) call" where
  "insert_fd_table pid h g = (Inr (), g\<lparr>fd_tables := (fd_tables g)(pid \<mapsto> h)\<rparr>)"

definition deep_clone :: "nat \<Rightarrow> ('k, 'm, 'o, 'w, nat) call" where
  "deep_clone h g =
    (Inr (next_table g), g\<lparr>heap := (heap g)(next_table g := heap g h), next_table := Suc (next_table g)\<rparr>)"

text \<open>The bodies of \<open>fork\<close>, \<open>vfork\<close>, \<open>clone\<close> and \<open>clone3\<close>.\<close>

definition spawn ::
  "('k, 'm, 'o, 'w) env \<Rightarrow> syscall \<Rightarrow> bool \<Rightarrow> nat \<Rightarrow> ('k, 'm, 'o, 'w, int option) call" where
  "spawn G sc share h =
    sbnd (s_inject G sc) (\<lambda>result.
      sbnd (if result > 0 then
              (if share then insert_fd_table (wrap_i32 result) h
               else sbnd (deep_clone h) (\<lambda>child. insert_fd_table (wrap_i32 result) child))
            else sret ()) (\<lambda>_.
        sret (Some result)))"

definition CLONE_FILES :: int where "CLONE_FILES = 1024"

definition handle_fork ::
  "('k, 'm, 'o, 'w) env \<Rightarrow> syscall \<Rightarrow> nat \<Rightarrow> ('k, 'm, 'o, 'w, int option) call" where
  "handle_fork G args h = spawn G (sys_new SYS_fork) False h"

definition handle_vfork ::
  "('k, 'm, 'o, 'w) env \<Rightarrow> syscall \<Rightarrow> nat \<Rightarrow> ('k, 'm, 'o, 'w, int option) call" where
  "handle_vfork G args h = spawn G (sys_new SYS_vfork) False h"

definition handle_clone ::
  "('k, 'm, 'o, 'w) env \<Rightarrow> syscall \<Rightarrow> nat \<Rightarrow> ('k, 'm, 'o, 'w, int option) call" where
  "handle_clone G args h = spawn G args (a0 args AND CLONE_FILES \<noteq> 0) h"

definition handle_clone3 ::
  "('k, 'm, 'o, 'w) env \<Rightarrow> syscall \<Rightarrow> nat \<Rightarrow> ('k, 'm, 'o, 'w, int option) call" where
  "handle_clone3 G args h = spawn G args False h"

section \<open>Dispatch\<close>

text \<open>The reply to a handler that returns a value, and to one that returns a call.\<close>

definition or_value :: "syscall \<Rightarrow> ('k, 'm, 'o, 'w, int option) call \<Rightarrow> ('k, 'm, 'o, 'w, syscall_result) call" where
  "or_value sc m = sbnd m (\<lambda>r. sret (case r of Some v \<Rightarrow> Value v | None \<Rightarrow> Inject sc))"

definition or_call :: "syscall \<Rightarrow> ('k, 'm, 'o, 'w, syscall option) call \<Rightarrow> ('k, 'm, 'o, 'w, syscall_result) call" where
  "or_call sc m = sbnd m (\<lambda>r. sret (Inject (case r of Some c \<Rightarrow> c | None \<Rightarrow> sc)))"

text \<open>
  \<open>dispatch_syscall\<close>; \<open>arm\<close> is the compile-time test for \<open>aarch64\<close>, whose numbering has some
  calls of its own and lacks others.  \<open>Plain\<close> numbers are passed through unchanged.
\<close>

definition dispatch_syscall ::
  "('k, 'm, 'o, 'w) env \<Rightarrow> bool \<Rightarrow> syscall \<Rightarrow> ('o, 'w) mount_table \<Rightarrow> nat \<Rightarrow> ('k, 'm, 'o, 'w, syscall_result) call" where
  "dispatch_syscall G arm sc mt h =
    (let unsupported = fail (Errno ENOSYS);
         x86 = (\<lambda>m. if arm then unsupported else m)
     in
     case nr sc of
       SYS_openat \<Rightarrow> or_value sc (handle_openat G sc mt h)
     | SYS_read \<Rightarrow> handle_read G sc h
     | SYS_write \<Rightarrow> handle_write G sc h
     | SYS_close \<Rightarrow> handle_close G sc h
     | SYS_dup \<Rightarrow> or_value sc (handle_dup G sc h)
     | SYS_dup2 \<Rightarrow> x86 (or_value sc (handle_dup2 G sc h))
     | SYS_dup3 \<Rightarrow> or_value sc (handle_dup3 G sc h)
     | SYS_rmdir \<Rightarrow> x86 (or_call sc (handle_rmdir G sc mt))
     | SYS_unlinkat \<Rightarrow> (if arm then or_call sc (handle_unlinkat G sc mt) else unsupported)
     | SYS_fork \<Rightarrow> x86 (or_value sc (handle_fork G sc h))
     | SYS_vfork \<Rightarrow> x86 (or_value sc (handle_vfork G sc h))
     | SYS_clone \<Rightarrow> or_value sc (handle_clone G sc h)
     | SYS_clone3 \<Rightarrow> or_value sc (handle_clone3 G sc h)
     | SYS_statx \<Rightarrow> or_value sc (handle_statx G sc mt h)
     | SYS_newfstatat \<Rightarrow> x86 (or_value sc (handle_newfstatat G sc mt h))
     | SYS_statfs \<Rightarrow> or_call sc (handle_statfs G sc mt)
     | SYS_readlink \<Rightarrow> x86 (or_value sc (handle_readlink G sc mt))
     | SYS_readlinkat \<Rightarrow> or_value sc (handle_readlinkat G sc mt h)
     | SYS_symlink \<Rightarrow> x86 (or_value sc (handle_symlink G sc mt))
     | SYS_symlinkat \<Rightarrow> or_value sc (handle_symlinkat G sc mt h)
     | SYS_linkat \<Rightarrow> or_value sc (handle_linkat G sc mt h)
     | SYS_llistxattr \<Rightarrow> or_call sc (handle_llistxattr G sc mt)
     | SYS_lgetxattr \<Rightarrow> or_call sc (handle_lgetxattr G sc mt)
     | SYS_ioctl \<Rightarrow> or_value sc (handle_ioctl G sc h)
     | SYS_fcntl \<Rightarrow> or_value sc (handle_fcntl G sc h)
     | SYS_pselect6 \<Rightarrow> or_value sc (handle_pselect6 G sc h)
     | SYS_poll \<Rightarrow> x86 (or_value sc (handle_poll G sc h))
     | SYS_getdents64 \<Rightarrow> handle_getdents64 G sc h
     | SYS_fstat \<Rightarrow> handle_fstat G sc h
     | SYS_fstatat \<Rightarrow> (if arm then handle_fstatat G sc h mt else unsupported)
     | SYS_pread64 \<Rightarrow> or_value sc (handle_pread64 G sc h)
     | SYS_pwrite64 \<Rightarrow> or_value sc (handle_pwrite64 G sc h)
     | SYS_lseek \<Rightarrow> (if arm then sret (Inject sc) else handle_lseek G sc h)
     | SYS_readv \<Rightarrow> or_value sc (handle_readv G sc h)
     | SYS_writev \<Rightarrow> or_value sc (handle_writev G sc h)
     | SYS_pipe2 \<Rightarrow> or_value sc (handle_pipe2 G sc h)
     | SYS_socket \<Rightarrow> or_value sc (handle_socket G sc h)
     | SYS_sendto \<Rightarrow> or_value sc (handle_sendto G sc h)
     | SYS_connect \<Rightarrow> or_value sc (handle_connect G sc h)
     | SYS_getpeername \<Rightarrow> or_value sc (handle_getpeername G sc h)
     | SYS_mmap \<Rightarrow> or_value sc (handle_mmap G sc h)
     | SYS_access \<Rightarrow> x86 (or_call sc (handle_access G sc mt))
     | SYS_faccessat \<Rightarrow> or_value sc (handle_faccessat G sc mt h)
     | SYS_faccessat2 \<Rightarrow> or_value sc (handle_faccessat2 G sc mt h)
     | SYS_rename \<Rightarrow> x86 (or_call sc (handle_rename G sc mt))
     | SYS_unlink \<Rightarrow> x86 (or_call sc (handle_unlink G sc mt))
     | SYS_chdir \<Rightarrow> or_call sc (handle_chdir G sc mt)
     | SYS_fchmodat \<Rightarrow> or_value sc (handle_chmod G sc mt)
     | SYS_fchownat \<Rightarrow> or_value sc (handle_fchownat G sc mt h)
     | Plain n \<Rightarrow> sret (Inject sc)
     | Unsupported n \<Rightarrow> unsupported)"

text \<open>\<open>Sandbox::handle_syscall_event\<close>; the call that is left for the kernel is run last.\<close>

definition handle_syscall_event ::
  "('k, 'm, 'o, 'w) env \<Rightarrow> bool \<Rightarrow> ('o, 'w) mount_table \<Rightarrow> int \<Rightarrow> syscall \<Rightarrow> ('k, 'm, 'o, 'w, int) call" where
  "handle_syscall_event G arm mt pid sc =
    sbnd (get_fd_table pid) (\<lambda>h.
    sbnd (dispatch_syscall G arm sc mt h) (\<lambda>r.
      case r of Value v \<Rightarrow> sret v | Inject sc' \<Rightarrow> s_inject G sc'))"

end
