(* ===== verification/Sandbox.thy ===== *)
theory Sandbox
  imports Sys_Calls
begin

text \<open>
  Properties of the system call sandbox.  A calculus for what a handler may change shows that a
  handler changes one descriptor table only and keeps it well formed; over a kernel with the
  documented behaviour of \<open>dup\<close> and \<open>close\<close>, the descriptors a process sees behave as POSIX says, under
  conditions that the handlers do not check and that the last sections take away one by one.
\<close>

named_theorems frame

section \<open>What a handler may change\<close>

text \<open>
  A relation between states that every step of a handler satisfies: the locale collects the rules
  for sequences, once for all such relations.
\<close>

locale change =
  fixes R :: "('k, 'm, 'o, 'w) guest \<Rightarrow> ('k, 'm, 'o, 'w) guest \<Rightarrow> bool"
  assumes R_refl: "R g g" and R_trans: "R g g' \<Longrightarrow> R g' g'' \<Longrightarrow> R g g''"
    and R_kern: "R g (g\<lparr>kern := k, gmem := m\<rparr>)" and R_mem: "R g (g\<lparr>gmem := m\<rparr>)" and R_files: "R g (g\<lparr>vfiles := w\<rparr>)"
begin

definition keeps :: "('k, 'm, 'o, 'w, 'a) call \<Rightarrow> bool" where
  "keeps f \<longleftrightarrow> (\<forall>g. R g (snd (f g)))"

lemma keeps_sret [frame]: "keeps (sret x)" and keeps_fail [frame]: "keeps (fail e)"
  by (simp_all add: keeps_def sret_def fail_def R_refl)

lemma keeps_sbnd [frame]:
  assumes "keeps m" and "\<And>x. keeps (f x)"
  shows "keeps (sbnd m f)"
  unfolding keeps_def
proof
  fix g
  obtain r g' where m: "m g = (r, g')" by (cases "m g")
  then have "R g g'" using assms(1) unfolding keeps_def by (metis snd_conv)
  moreover have "R g' (snd (f x g'))" for x using assms(2) unfolding keeps_def by blast
  ultimately show "R g (snd (sbnd m f g))" using m R_trans by (auto simp: sbnd_def split: sum.split)
qed

lemma keeps_step [frame]:
  "keeps (s_inject G sc)" "keeps (s_load ld)" "keeps (s_store st)" "keeps (s_reserve G)" "keeps (s_files fl)"
  by (auto simp: keeps_def s_inject_def s_load_def s_store_def s_reserve_def s_files_def R_refl R_kern R_mem R_files
      split: prod.split sum.split)

lemma keeps_get [frame]: "keeps (t_get h v)" "keeps (t_translate h v)" "keeps (table_of h)"
  by (simp_all add: keeps_def t_get_def t_translate_def table_of_def R_refl)

lemma keeps_if [frame]: "keeps m \<Longrightarrow> keeps n \<Longrightarrow> keeps (if b then m else n)"
  by simp

lemma keeps_option [frame]: "keeps m \<Longrightarrow> (\<And>x. keeps (f x)) \<Longrightarrow> keeps (case r of None \<Rightarrow> m | Some x \<Rightarrow> f x)"
  by (cases r) simp_all

lemma keeps_sum [frame]: "(\<And>x. keeps (f x)) \<Longrightarrow> (\<And>x. keeps (g x)) \<Longrightarrow> keeps (case r of Inl x \<Rightarrow> f x | Inr x \<Rightarrow> g x)"
  by (cases r) simp_all

lemma keeps_prod [frame]: "(\<And>x y. keeps (f x y)) \<Longrightarrow> keeps (case r of (x, y) \<Rightarrow> f x y)"
  by (cases r) simp

lemma keeps_entry [frame]:
  "(\<And>k fl p. keeps (f k fl p)) \<Longrightarrow> (\<And>x fl p. keeps (g x fl p)) \<Longrightarrow>
    keeps (case e of Passthrough k fl p \<Rightarrow> f k fl p | Virtual x fl p \<Rightarrow> g x fl p)"
  by (cases e) simp_all

end

text \<open>The operations of the table at address \<open>h\<close> satisfy the relation, too.\<close>

locale table_change = change R for R :: "('k, 'm, 'o, 'w) guest \<Rightarrow> ('k, 'm, 'o, 'w) guest \<Rightarrow> bool" +
  fixes h :: nat
  assumes table_allocate [frame]: "keeps (t_allocate h e)" and table_allocate_min [frame]: "keeps (t_allocate_min h v e)"
    and table_deallocate [frame]: "keeps (t_deallocate h v)" and table_duplicate [frame]: "keeps (t_duplicate h v)"
    and table_allocate_at: "v < i32_max \<Longrightarrow> keeps (t_allocate_at h v e)"
    and table_share [frame]: "keeps (insert_fd_table p h)"
    and table_copy [frame]: "keeps (sbnd (deep_clone h) (\<lambda>c. insert_fd_table p c))"
begin

lemma keeps_paths [frame]:
  "keeps (push_path G p)" "keeps (translate_addr G mt a)" "keeps (with_path G mt b rw)"
  "keeps (resolve_dirfd h d q)" "keeps (open_through G h sc fl r)" "keeps (kernel_dir h d)"
  "keeps (run_on_fd G h v rw')" "keeps (at_call G mt h d a rw'')"
  unfolding push_path_def translate_addr_def with_path_def resolve_dirfd_def open_through_def kernel_dir_def
    run_on_fd_def at_call_def Let_def
  by (intro frame)+

lemma keeps_path_call [frame]: "(\<And>v p. keeps (virt v p)) \<Longrightarrow> keeps (path_call G mt a virt rw)"
  unfolding path_call_def Let_def by (intro frame)

lemma keeps_two_paths [frame]: "(\<And>w x y z. keeps (f w x y z)) \<Longrightarrow> keeps (two_paths G a b f)"
  unfolding two_paths_def by (intro frame)

lemma keeps_replies [frame]:
  "keeps (stat_reply G a s)" "keeps (readlink_reply G a n t)" "keeps (link_reply e l)" "keeps (close_entry G en)"
  unfolding stat_reply_def readlink_reply_def link_reply_def close_entry_def Let_def by (intro frame)+

lemma keeps_sets [frame]:
  "keeps (load_opt ld a)" "keeps (reserve_opt G x)" "keeps (store_opt G a s)" "keeps (set_back G h ka va n m)"
  unfolding load_opt_def reserve_opt_def store_opt_def set_back_def by (intro frame)+

lemma keeps_polls [frame]:
  "keeps (read_pollfds G a n)" "keeps (reserve_more G n)" "keeps (write_pollfds G b ps)" "keeps (poll_back G c d ps)"
proof -
  show "keeps (read_pollfds G a n)" by (induction n arbitrary: a) (simp_all only: read_pollfds.simps, (intro frame | assumption)+)
  show "keeps (reserve_more G n)" by (induction n) (simp_all only: reserve_more.simps, (intro frame | assumption)+)
  show "keeps (write_pollfds G b ps)"
    by (induction ps arbitrary: b) (simp_all only: write_pollfds.simps, (intro frame | assumption)+)
  show "keeps (poll_back G c d ps)"
    by (induction ps arbitrary: c d) (simp_all only: poll_back.simps, (intro frame | assumption)+)
qed

lemma keeps_path_handlers [frame]:
  "keeps (handle_access G sc mt)" "keeps (handle_unlink G sc mt)" "keeps (handle_chdir G sc mt)"
  "keeps (handle_rmdir G sc mt)" "keeps (handle_statfs G sc mt)" "keeps (handle_llistxattr G sc mt)"
  "keeps (handle_lgetxattr G sc mt)" "keeps (handle_unlinkat G sc mt)" "keeps (handle_chmod G sc mt)"
  "keeps (handle_rename G sc mt)" "keeps (handle_faccessat G sc mt h)" "keeps (handle_faccessat2 G sc mt h)"
  "keeps (handle_fchownat G sc mt h)" "keeps (handle_fstatat G sc h mt)" "keeps (handle_statx G sc mt h)"
  "keeps (handle_newfstatat G sc mt h)" "keeps (handle_readlink G sc mt)" "keeps (handle_readlinkat G sc mt h)"
  "keeps (handle_symlink G sc mt)" "keeps (handle_symlinkat G sc mt h)" "keeps (handle_linkat G sc mt h)"
  unfolding handle_access_def handle_unlink_def handle_chdir_def handle_rmdir_def handle_statfs_def
    handle_llistxattr_def handle_lgetxattr_def handle_unlinkat_def handle_chmod_def handle_rename_def
    handle_faccessat_def handle_faccessat2_def handle_fchownat_def handle_fstatat_def handle_statx_def
    handle_newfstatat_def handle_readlink_def handle_readlinkat_def handle_symlink_def handle_symlinkat_def
    handle_linkat_def symlink_call_def Let_def
  by (intro frame)+

lemma keeps_fd_handlers [frame]:
  "keeps (handle_openat G sc mt h)" "keeps (handle_socket G sc h)" "keeps (handle_pipe2 G sc h)"
  "keeps (handle_read G sc h)" "keeps (handle_write G sc h)" "keeps (handle_close G sc h)" "keeps (handle_dup G sc h)"
  "keeps (handle_fcntl G sc h)" "keeps (handle_ioctl G sc h)" "keeps (handle_pread64 G sc h)"
  "keeps (handle_pwrite64 G sc h)" "keeps (handle_mmap G sc h)" "keeps (handle_readv G sc h)"
  "keeps (handle_writev G sc h)" "keeps (handle_sendto G sc h)" "keeps (handle_connect G sc h)"
  "keeps (handle_getpeername G sc h)" "keeps (handle_lseek G sc h)" "keeps (handle_fstat G sc h)"
  "keeps (handle_getdents64 G sc h)" "keeps (handle_pselect6 G sc h)" "keeps (handle_poll G sc h)"
  unfolding handle_openat_def handle_socket_def handle_pipe2_def handle_read_def handle_write_def handle_close_def
    handle_dup_def handle_fcntl_def handle_ioctl_def handle_pread64_def handle_pwrite64_def handle_mmap_def
    handle_readv_def handle_writev_def handle_sendto_def handle_connect_def handle_getpeername_def
    handle_lseek_def handle_fstat_def handle_getdents64_def handle_pselect6_def handle_poll_def Let_def
  by (intro frame)+

lemma keeps_dup_onto: "w < i32_max \<Longrightarrow> keeps (dup_onto G v w fl h)"
  unfolding dup_onto_def by (intro frame table_allocate_at)

lemma keeps_spawn [frame]: "keeps (spawn G sc b h)"
  unfolding spawn_def by (intro frame)

lemma keeps_dispatch:
  assumes "nr sc \<in> {SYS_dup2, SYS_dup3} \<Longrightarrow> a1 sc < i32_max"
  shows "keeps (dispatch_syscall G arm sc mt h)"
proof (cases "nr sc")
  case SYS_dup2
  then show ?thesis using assms keeps_dup_onto [of "a1 sc"]
    by (simp add: dispatch_syscall_def or_value_def handle_dup2_def) (intro frame impI conjI)
next
  case SYS_dup3
  then show ?thesis using assms keeps_dup_onto [of "a1 sc"]
    by (simp add: dispatch_syscall_def or_value_def handle_dup3_def) (intro frame impI conjI)
qed (simp_all add: dispatch_syscall_def or_value_def or_call_def handle_fork_def handle_vfork_def handle_clone_def
       handle_clone3_def, (intro frame impI conjI)+)

end

section \<open>Descriptor tables stay well formed and apart\<close>

definition tables_ok :: "('k, 'm, 'o, 'w) guest \<Rightarrow> bool" where
  "tables_ok g \<longleftrightarrow> (\<forall>x < next_table g. fd_ok (heap g x)) \<and> (\<forall>pid x. fd_tables g pid = Some x \<longrightarrow> x < next_table g)"

definition changes :: "nat \<Rightarrow> ('k, 'm, 'o, 'w) guest \<Rightarrow> ('k, 'm, 'o, 'w) guest \<Rightarrow> bool" where
  "changes h g g' \<longleftrightarrow>
    next_table g \<le> next_table g' \<and>
    (\<forall>x < next_table g. x \<noteq> h \<longrightarrow> heap g' x = heap g x) \<and>
    (tables_ok g \<and> h < next_table g \<longrightarrow> tables_ok g')"

lemma changes_table:
  assumes "fd_ok (heap g h) \<Longrightarrow> fd_ok t"
  shows "changes h g (g\<lparr>heap := (heap g)(h := t)\<rparr>)"
  using assms by (auto simp: changes_def tables_ok_def)

interpretation tab: change "changes h" for h
proof unfold_locales
  fix g g' g'' :: "('k, 'm, 'o, 'w) guest" and k m w
  show "changes h g g" by (simp add: changes_def)
  show "changes h g g' \<Longrightarrow> changes h g' g'' \<Longrightarrow> changes h g g''"
    unfolding changes_def by (metis (no_types, lifting) order.trans less_le_trans)
  show "changes h g (g\<lparr>kern := k, gmem := m\<rparr>)" "changes h g (g\<lparr>gmem := m\<rparr>)" "changes h g (g\<lparr>vfiles := w\<rparr>)"
    by (simp_all add: changes_def tables_ok_def)
qed

interpretation table: table_change "changes h" h for h
proof unfold_locales
  show "tab.keeps h (t_allocate h e)" for e
    by (auto simp: tab.keeps_def t_allocate_def tab.R_refl split: option.split intro!: changes_table dest: allocate_ok)
  show "tab.keeps h (t_allocate_min h v e)" for v e
    by (auto simp: tab.keeps_def t_allocate_min_def tab.R_refl split: option.split intro!: changes_table
        dest: allocate_min_ok(1))
  show "tab.keeps h (t_deallocate h v)" for v
    by (auto simp: tab.keeps_def t_deallocate_def split: prod.split intro!: changes_table dest: deallocate_ok(1))
  show "tab.keeps h (t_duplicate h v)" for v
    by (auto simp: tab.keeps_def t_duplicate_def duplicate_def tab.R_refl split: option.splits
        intro!: changes_table dest: allocate_ok)
  show "tab.keeps h (t_allocate_at h v e)" if "v < i32_max" for v e
    using that by (auto simp: tab.keeps_def t_allocate_at_def split: prod.split intro!: changes_table dest: allocate_at_ok(1))
  show "tab.keeps h (insert_fd_table p h)" for p
    by (auto simp: tab.keeps_def insert_fd_table_def changes_def tables_ok_def)
  show "tab.keeps h (sbnd (deep_clone h) (\<lambda>c. insert_fd_table p c))" for p
    by (auto simp: tab.keeps_def insert_fd_table_def deep_clone_def sbnd_def changes_def tables_ok_def less_Suc_eq)
qed

lemma get_fd_table_changes:
  assumes "tables_ok g" and "get_fd_table pid g = (Inr h, g')"
  shows "tables_ok g'" "h < next_table g'" "fd_tables g' pid = Some h" "next_table g \<le> next_table g'"
    "\<And>x. x < next_table g \<Longrightarrow> heap g' x = heap g x" "fd_tables g pid = Some h \<or> h = next_table g"
  using assms fd_new_ok by (auto simp: get_fd_table_def tables_ok_def less_Suc_eq split: option.splits if_splits)

lemma event_changes:
  assumes "tables_ok g" and "nr sc \<in> {SYS_dup2, SYS_dup3} \<Longrightarrow> a1 sc < i32_max"
  obtains h g1 where "get_fd_table pid g = (Inr h, g1)" "changes h g1 (snd (handle_syscall_event G arm mt pid sc g))"
proof -
  obtain h g1 where g1: "get_fd_table pid g = (Inr h, g1)"
    by (cases "fd_tables g pid") (simp_all add: get_fd_table_def)
  have "tab.keeps h (sbnd (dispatch_syscall G arm sc mt h) (\<lambda>r.
      case r of Value v \<Rightarrow> sret v | Inject sc' \<Rightarrow> s_inject G sc'))"
    using table.keeps_dispatch [OF assms(2)] by (intro tab.keeps_sbnd) (auto split: syscall_result.split intro: tab.keeps_sret tab.keeps_step)
  then show ?thesis using that [OF g1] g1 by (simp add: tab.keeps_def handle_syscall_event_def sbnd_def)
qed

lemma event_tables_ok:
  assumes "tables_ok g" and "nr sc \<in> {SYS_dup2, SYS_dup3} \<Longrightarrow> a1 sc < i32_max"
  shows "tables_ok (snd (handle_syscall_event G arm mt pid sc g))"
proof -
  obtain h g1 where g1: "get_fd_table pid g = (Inr h, g1)" "changes h g1 (snd (handle_syscall_event G arm mt pid sc g))"
    using event_changes [OF assms] by blast
  then show ?thesis using get_fd_table_changes(1,2) [OF assms(1) g1(1)] by (simp add: changes_def)
qed

text \<open>
  C16.  A system call keeps every descriptor table well formed, and changes the table of the
  calling process only: a process that does not share this table sees its descriptors unchanged.
  (A duplicate onto descriptor \<open>i32::MAX\<close> is excluded, where the upper end of the table wraps.)
\<close>

theorem tables_kept_apart:
  assumes "tables_ok g" and "nr sc \<in> {SYS_dup2, SYS_dup3} \<Longrightarrow> a1 sc < i32_max"
    and "g' = snd (handle_syscall_event G arm mt pid sc g)"
  shows "tables_ok g' \<and>
    (\<forall>q x. fd_tables g q = Some x \<longrightarrow> fd_tables g pid \<noteq> Some x \<longrightarrow> heap g' x = heap g x)"
proof -
  obtain h g1 where g1: "get_fd_table pid g = (Inr h, g1)" "changes h g1 g'"
    using event_changes [OF assms(1,2)] unfolding assms(3) by blast
  note ok = get_fd_table_changes [OF assms(1) g1(1)]
  have "tables_ok g'" using event_tables_ok [OF assms(1,2)] assms(3) by simp
  moreover have "heap g' x = heap g x" if x: "fd_tables g q = Some x" "fd_tables g pid \<noteq> Some x" for q x
  proof -
    have "x < next_table g" using assms(1) x(1) by (simp add: tables_ok_def)
    then show ?thesis using g1(2) ok(4-6) x(2) by (auto simp: changes_def)
  qed
  ultimately show ?thesis by blast
qed

text \<open>Which table a process has changes only for new processes, which get the table of the caller or a new one.\<close>

definition binds :: "nat \<Rightarrow> ('k, 'm, 'o, 'w) guest \<Rightarrow> ('k, 'm, 'o, 'w) guest \<Rightarrow> bool" where
  "binds h g g' \<longleftrightarrow>
    next_table g \<le> next_table g' \<and>
    (\<forall>q y. fd_tables g' q = Some y \<longrightarrow> fd_tables g q = Some y \<or> y = h \<or> next_table g \<le> y)"

interpretation bnd: change "binds h" for h
proof unfold_locales
  fix g g' g'' :: "('k, 'm, 'o, 'w) guest" and k m w
  show "binds h g g" by (simp add: binds_def)
  show "binds h g g' \<Longrightarrow> binds h g' g'' \<Longrightarrow> binds h g g''"
    unfolding binds_def by (meson order.trans)
  show "binds h g (g\<lparr>kern := k, gmem := m\<rparr>)" "binds h g (g\<lparr>gmem := m\<rparr>)" "binds h g (g\<lparr>vfiles := w\<rparr>)"
    by (simp_all add: binds_def)
qed

interpretation bind: table_change "binds h" h for h
  by unfold_locales
    (auto simp: bnd.keeps_def binds_def t_allocate_def t_allocate_min_def t_deallocate_def t_duplicate_def
      t_allocate_at_def insert_fd_table_def deep_clone_def sbnd_def split: option.splits prod.splits)








section \<open>Descriptors behave as POSIX says\<close>

text \<open>
  What a process sees behind a descriptor: the open file of the kernel (\<open>open_fd\<close> gives the open
  files of a kernel state) or the file of a virtual filesystem.
\<close>

definition behind :: "(int \<Rightarrow> 'd option) \<Rightarrow> 'o fd_entry \<Rightarrow> ('d + 'o) option" where
  "behind od e = (case e of Passthrough k fl p \<Rightarrow> map_option Inl (od k) | Virtual x fl p \<Rightarrow> Some (Inr x))"

definition view :: "('k \<Rightarrow> int \<Rightarrow> 'd option) \<Rightarrow> nat \<Rightarrow> ('k, 'm, 'o, 'w) guest \<Rightarrow> int \<Rightarrow> ('d + 'o) option" where
  "view open_fd h g v = Option.bind (entries (heap g h) v) (behind (open_fd (kern g)))"

text \<open>Entries lead to open kernel descriptors, different entries to different ones.\<close>

definition wired :: "(int \<Rightarrow> 'd option) \<Rightarrow> 'o fd_table \<Rightarrow> bool" where
  "wired od t \<longleftrightarrow>
    (\<forall>v k. translate t v = Some k \<longrightarrow> od k \<noteq> None) \<and>
    (\<forall>v w k. translate t v = Some k \<longrightarrow> translate t w = Some k \<longrightarrow> v = w)"

definition sound :: "('k \<Rightarrow> int \<Rightarrow> 'd option) \<Rightarrow> nat \<Rightarrow> ('k, 'm, 'o, 'w) guest \<Rightarrow> bool" where
  "sound open_fd h g \<longleftrightarrow> fd_ok (heap g h) \<and> wired (open_fd (kern g)) (heap g h)"

text \<open>
  The specification, from POSIX: the calls on a map from descriptors to open files.  A reply is a
  number or an error; \<open>dup\<close> takes the lowest unused descriptor of all; \<open>dup2\<close> and \<open>dup3\<close> have no
  negative target, \<open>dup3\<close> wants two different descriptors and no flag but \<open>O_CLOEXEC\<close>; \<open>close\<close> returns
  zero or an error and frees the descriptor in either case, as Linux does where POSIX leaves it
  open; and an error of the others changes nothing.  There is no limit on the number of open files
  but \<open>i32::MAX\<close>, and the close-on-exec flag is not part of the map.
\<close>

definition failed :: "fault + int \<Rightarrow> bool" where
  "failed out \<longleftrightarrow> (case out of Inl f \<Rightarrow> f \<noteq> Panic | Inr r \<Rightarrow> r < 0)"

inductive posix_step :: "(int \<Rightarrow> 'x option) \<Rightarrow> syscall \<Rightarrow> fault + int \<Rightarrow> (int \<Rightarrow> 'x option) \<Rightarrow> bool" where
  posix_dup: "nr sc = SYS_dup \<Longrightarrow> m (a0 sc) = Some x \<Longrightarrow> lowest m 0 fd \<Longrightarrow> posix_step m sc (Inr fd) (m(fd \<mapsto> x))"
| posix_dup2: "nr sc = SYS_dup2 \<Longrightarrow> m (a0 sc) = Some x \<Longrightarrow> 0 \<le> a1 sc \<Longrightarrow>
    posix_step m sc (Inr (a1 sc)) (m(a1 sc \<mapsto> x))"
| posix_dup3: "nr sc = SYS_dup3 \<Longrightarrow> m (a0 sc) = Some x \<Longrightarrow> 0 \<le> a1 sc \<Longrightarrow> a0 sc \<noteq> a1 sc \<Longrightarrow>
    a2 sc \<in> {0, O_CLOEXEC} \<Longrightarrow> posix_step m sc (Inr (a1 sc)) (m(a1 sc \<mapsto> x))"
| posix_close: "nr sc = SYS_close \<Longrightarrow> m (a0 sc) \<noteq> None \<Longrightarrow> out = Inr 0 \<or> failed out \<Longrightarrow>
    posix_step m sc out (m(a0 sc := None))"
| posix_error: "nr sc \<in> {SYS_dup, SYS_dup2, SYS_dup3} \<Longrightarrow> failed out \<Longrightarrow> posix_step m sc out m"

text \<open>
  What the documentation of the kernel promises of \<open>dup\<close> and \<open>close\<close>: a duplicate is a descriptor
  that was free and leads to the same open file, an error changes nothing, and \<open>close\<close> returns zero
  or an error and frees the descriptor in either case.
\<close>

definition posix_kernel ::
  "(syscall \<Rightarrow> 'k \<times> 'm \<Rightarrow> (int + int) \<times> ('k \<times> 'm)) \<Rightarrow> ('k \<Rightarrow> int \<Rightarrow> 'd option) \<Rightarrow> bool" where
  "posix_kernel kcall open_fd \<longleftrightarrow>
    (\<forall>k s m r s' m'. kcall (sys_dup k) (s, m) = (r, s', m') \<longrightarrow>
      (if failed (errno_of r) then open_fd s' = open_fd s
       else projr r \<le> i32_max \<and> open_fd s (projr r) = None \<and> open_fd s' = (open_fd s)(projr r := open_fd s k))) \<and>
    (\<forall>sc s m x s' m'. nr sc = SYS_close \<longrightarrow> kcall sc (s, m) = (x, s', m') \<longrightarrow>
      open_fd s' = (open_fd s)(a0 sc := None) \<and> (x = Inr 0 \<or> failed (errno_of x)))"

text \<open>The kernel closes an open descriptor without an error.\<close>

definition closes :: "(syscall \<Rightarrow> 'k \<times> 'm \<Rightarrow> (int + int) \<times> ('k \<times> 'm)) \<Rightarrow> ('k \<Rightarrow> int \<Rightarrow> 'd option) \<Rightarrow> bool" where
  "closes kcall open_fd \<longleftrightarrow> (\<forall>k s m. open_fd s k \<noteq> None \<longrightarrow> fst (kcall (sys_close k) (s, m)) = Inr 0)"

text \<open>The kernel reports an error of a call.\<close>

definition refuses :: "('k, 'm, 'o, 'w) env \<Rightarrow> syscall \<Rightarrow> ('k, 'm, 'o, 'w) guest \<Rightarrow> bool" where
  "refuses G sc g \<longleftrightarrow> failed (errno_of (fst (inject G sc (kern g, gmem g))))"

lemma failed_simps [simp]: "failed (Inl (Errno e))" "failed (Inr r) \<longleftrightarrow> r < 0" "\<not> failed (Inl Panic)"
  by (simp_all add: failed_def)

lemma errno_of_simps [simp]: "errno_of (Inl e) = Inl (Errno e)" "errno_of (Inr x) = Inr x"
  by (simp_all add: errno_of_def)

lemma dup_new: "posix_kernel kcall open_fd \<Longrightarrow> kcall (sys_dup k) (s, m) = (Inr r, s', m') \<Longrightarrow> 0 \<le> r \<Longrightarrow>
    r \<le> i32_max \<and> open_fd s r = None \<and> open_fd s' = (open_fd s)(r := open_fd s k)"
  unfolding posix_kernel_def by (metis errno_of_simps(2) failed_simps(2) linorder_not_less sum.sel(2))

lemma dup_fail: "posix_kernel kcall open_fd \<Longrightarrow> kcall (sys_dup k) (s, m) = (r, s', m') \<Longrightarrow> failed (errno_of r) \<Longrightarrow>
    open_fd s' = open_fd s"
  unfolding posix_kernel_def by meson

lemma close_frees: "posix_kernel kcall open_fd \<Longrightarrow> nr sc = SYS_close \<Longrightarrow> kcall sc (s, m) = (x, s', m') \<Longrightarrow>
    open_fd s' = (open_fd s)(a0 sc := None) \<and> (x = Inr 0 \<or> failed (errno_of x))"
  unfolding posix_kernel_def by blast

lemma wired_open: "wired od t \<Longrightarrow> translate t v = Some k \<Longrightarrow> od k \<noteq> None"
  unfolding wired_def by blast

lemma wired_fresh: "wired od t \<Longrightarrow> od q = None \<Longrightarrow> translate t v = Some k \<Longrightarrow> k \<noteq> q"
  using wired_open by metis

lemma wired_dom: "wired od t \<Longrightarrow> Option.bind (entries t v) (behind od) = None \<longleftrightarrow> entries t v = None"
  by (auto simp: wired_def translate_def behind_def split: fd_entry.splits Option.bind_splits)

text \<open>
  Placing an entry: the other entries lead where they led, so the view changes at one descriptor.
\<close>

lemma place_entry:
  assumes "wired od t" and "entries t' = (entries t)(fd \<mapsto> e)"
    and keep: "\<And>v k. v \<noteq> fd \<Longrightarrow> translate t v = Some k \<Longrightarrow> od' k = od k \<and> kernel_fd e \<noteq> Some k"
    and new: "\<And>k. kernel_fd e = Some k \<Longrightarrow> od' k \<noteq> None"
  shows "wired od' t'"
    and "(\<lambda>v. Option.bind (entries t' v) (behind od')) = (\<lambda>v. Option.bind (entries t v) (behind od))(fd := behind od' e)"
proof -
  have tr: "translate t' v = (if v = fd then kernel_fd e else translate t v)" for v
    using assms(2) by (simp add: translate_def)
  show "wired od' t'"
    using assms(1) keep new unfolding wired_def tr by (metis option.inject)
  have "behind od' x = behind od x" if "v \<noteq> fd" "entries t v = Some x" for v x
    using keep [OF that(1)] that(2) by (cases x) (auto simp: translate_def behind_def)
  then show "(\<lambda>v. Option.bind (entries t' v) (behind od')) = (\<lambda>v. Option.bind (entries t v) (behind od))(fd := behind od' e)"
    using assms(2) by (auto simp: fun_eq_iff split: Option.bind_split)
qed

lemma remove_entry:
  assumes "wired od t" and "entries t' = (entries t)(fd := None)"
    and keep: "\<And>v k. v \<noteq> fd \<Longrightarrow> translate t v = Some k \<Longrightarrow> od' k = od k"
  shows "wired od' t'"
    and "(\<lambda>v. Option.bind (entries t' v) (behind od')) = (\<lambda>v. Option.bind (entries t v) (behind od))(fd := None)"
proof -
  have tr: "translate t' v = (if v = fd then None else translate t v)" for v
    using assms(2) by (simp add: translate_def)
  show "wired od' t'" using assms(1) keep unfolding wired_def tr by (metis option.distinct(1))
  have "behind od' x = behind od x" if "v \<noteq> fd" "entries t v = Some x" for v x
    using keep [OF that(1)] that(2) by (cases x) (auto simp: translate_def behind_def)
  then show "(\<lambda>v. Option.bind (entries t' v) (behind od')) = (\<lambda>v. Option.bind (entries t v) (behind od))(fd := None)"
    using assms(2) by (auto simp: fun_eq_iff split: Option.bind_split)
qed

lemma view_eq: "view open_fd h g = (\<lambda>v. Option.bind (entries (heap g h) v) (behind (open_fd (kern g))))"
  by (simp add: view_def fun_eq_iff)

lemma sound_lowest:
  "sound open_fd h g \<Longrightarrow> lowest (view open_fd h g) a fd \<longleftrightarrow> lowest (entries (heap g h)) a fd"
  by (simp add: lowest_def view_def sound_def wired_dom)

lemma wrap_small: "0 \<le> r \<Longrightarrow> r \<le> i32_max \<Longrightarrow> wrap_i32 r = r"
  by (simp add: wrap_i32_def i32_max_def)

text \<open>An allocation in a sound table, with the file of a descriptor that was duplicated.\<close>

lemma allocate_refines:
  fixes g g' :: "('k, 'm, 'o, 'w) guest"
  assumes "sound open_fd h g" and "nr sc = SYS_dup" and "view open_fd h g (a0 sc) = behind (open_fd (kern g')) e"
    and "behind (open_fd (kern g')) e \<noteq> None"
    and "allocate e (heap g h) = Some (fd, t)" and "heap g' h = t" and std: "\<forall>v. 0 \<le> v \<and> v < 3 \<longrightarrow> entries (heap g h) v \<noteq> None"
    and keep: "\<And>v k. translate (heap g h) v = Some k \<Longrightarrow> open_fd (kern g') k = open_fd (kern g) k \<and> kernel_fd e \<noteq> Some k"
  shows "sound open_fd h g'" "posix_step (view open_fd h g) sc (Inr fd) (view open_fd h g')"
proof -
  have ok: "fd_ok (heap g h)" "wired (open_fd (kern g)) (heap g h)" using assms(1) by (simp_all add: sound_def)
  have t: "lowest (entries (heap g h)) FIRST_USER_FD fd" "entries t = (entries (heap g h))(fd \<mapsto> e)"
    using assms(5) allocate_spec [OF ok(1), of e fd t] by auto
  have new: "open_fd (kern g') k \<noteq> None" if "kernel_fd e = Some k" for k
    using assms(4) that by (cases e) (auto simp: behind_def)
  note pl = place_entry [of "open_fd (kern g)" "heap g h" t fd e "open_fd (kern g')", OF ok(2) t(2) keep new]
  show "sound open_fd h g'" using pl(1) allocate_ok [OF ok(1) assms(5)] assms(6) by (simp add: sound_def)
  obtain x where x: "behind (open_fd (kern g')) e = Some x" using assms(4) by blast
  have "view open_fd h g' = (view open_fd h g)(fd \<mapsto> x)" using pl(2) assms(6) x by (simp add: view_eq)
  moreover have "lowest (entries (heap g h)) 0 fd"
    using t(1) std unfolding lowest_def FIRST_USER_FD_def by (metis linorder_not_less order_trans zero_le_numeral)
  then have "lowest (view open_fd h g) 0 fd" using sound_lowest [OF assms(1)] by blast
  ultimately show "posix_step (view open_fd h g) sc (Inr fd) (view open_fd h g')"
    using posix_dup [of sc "view open_fd h g" x fd] assms(2,3) x by simp
qed

text \<open>A table with an unused descriptor has room.\<close>

lemma lowest_ex:
  assumes "a \<le> v" and "m v = None"
  shows "\<exists>fd. lowest m a fd \<and> fd \<le> v"
proof -
  let ?P = "\<lambda>n. m (a + int n) = None"
  have P: "?P (nat (v - a))" using assms by simp
  define n where "n = (LEAST n. ?P n)"
  have "?P n" "n \<le> nat (v - a)" unfolding n_def by (rule LeastI [of ?P, OF P], rule Least_le [of ?P, OF P])
  moreover have "m w \<noteq> None" if "a \<le> w" "w < a + int n" for w
    using not_less_Least [of "nat (w - a)" ?P] that by (simp add: n_def)
  ultimately show ?thesis using assms(1) by (intro exI [of _ "a + int n"]) (auto simp: lowest_def)
qed

lemma allocate_room:
  assumes "fd_ok t" and "FIRST_USER_FD \<le> v" and "v < i32_max" and "entries t v = None"
  obtains fd t' where "allocate e t = Some (fd, t')"
proof -
  obtain fd where "lowest (entries t) FIRST_USER_FD fd" "fd \<le> v" using lowest_ex assms(2,4) by blast
  then show ?thesis using that allocate_spec [OF assms(1)] assms(3) by fastforce
qed

lemma dup_refines:
  fixes g g' :: "('k, 'm, 'o, 'w) guest"
  assumes K: "posix_kernel (inject G) open_fd" and so: "sound open_fd h g" and nr: "nr sc = SYS_dup"
    and e: "entries (heap g h) (a0 sc) = Some e" and std: "\<forall>v. 0 \<le> v \<and> v < 3 \<longrightarrow> entries (heap g h) v \<noteq> None"
    and room: "FIRST_USER_FD \<le> v" "v < i32_max" "entries (heap g h) v = None"
    and run: "handle_dup G sc h g = (x, g')"
  shows "\<exists>out. x = map_sum id Some out \<and> sound open_fd h g' \<and> posix_step (view open_fd h g) sc out (view open_fd h g') \<and>
    (failed out \<longrightarrow> (\<exists>k. translate (heap g h) (a0 sc) = Some k \<and> refuses G (sys_dup k) g))"
proof (cases e)
  case (Passthrough k fl p)
  obtain y s m where i: "inject G (sys_dup k) (kern g, gmem g) = (y, s, m)" by (cases "inject G (sys_dup k) (kern g, gmem g)") auto
  let ?g1 = "g\<lparr>kern := s, gmem := m\<rparr>"
  have wired: "wired (open_fd (kern g)) (heap g h)" and ok: "fd_ok (heap g h)" using so by (simp_all add: sound_def)
  have tr: "translate (heap g h) (a0 sc) = Some k" using e Passthrough by (simp add: translate_def)
  show ?thesis
  proof (cases "failed (errno_of y)")
    case True
    then have "x = map_sum id Some (errno_of y)" "g' = ?g1"
      using run e Passthrough i
      by (cases y; auto simp: handle_dup_def sbnd_def t_get_def fd_get_def s_inject_def sret_def)+
    moreover have "refuses G (sys_dup k) g" using True i by (simp add: refuses_def)
    ultimately show ?thesis
      using dup_fail [OF K i True] so True nr tr
      by (intro exI [of _ "errno_of y"]) (auto simp: sound_def view_eq intro: posix_error)
  next
    case False
    then obtain q where y: "y = Inr q" "0 \<le> q" by (cases y) auto
    then have d: "q \<le> i32_max" "open_fd (kern g) q = None" "open_fd s = (open_fd (kern g))(q := open_fd (kern g) k)"
      using dup_new [OF K i [unfolded y(1)]] by auto
    have w: "wrap_i32 q = q" using y(2) d(1) by (simp add: wrap_small)
    obtain fd t where al: "allocate (Passthrough q fl p) (heap g h) = Some (fd, t)"
      using allocate_room [OF ok room] by blast
    then have fin: "x = Inr (Some fd)" "g' = ?g1\<lparr>heap := (heap g)(h := t)\<rparr>"
      using run e Passthrough i y w
      by (auto simp: handle_dup_def sbnd_def t_get_def fd_get_def s_inject_def sret_def t_allocate_def)
    have k: "open_fd (kern g) k \<noteq> None" by (rule wired_open [OF wired tr])
    have keep: "open_fd s kv = open_fd (kern g) kv \<and> kernel_fd (Passthrough q fl p) \<noteq> Some kv"
      if "translate (heap g h) v = Some kv" for v kv
      using wired_fresh [OF wired d(2) that] d(3) by simp
    have be: "view open_fd h g (a0 sc) = behind (open_fd s) (Passthrough q fl p)" "behind (open_fd s) (Passthrough q fl p) \<noteq> None"
      using e Passthrough d(3) k by (simp_all add: view_def behind_def)
    have "0 \<le> fd" using al allocate_spec [OF ok, of _ fd t] by (auto simp: lowest_def FIRST_USER_FD_def)
    then show ?thesis
      using allocate_refines [OF so nr _ _ al, of g'] be fin keep std by (intro exI [of _ "Inr fd"]) auto
  qed
next
  case (Virtual ops fl p)
  have ok: "fd_ok (heap g h)" using so by (simp add: sound_def)
  obtain fd t where al: "allocate e (heap g h) = Some (fd, t)"
    using allocate_room [OF ok room] by blast
  then have fin: "x = Inr (Some fd)" "g' = g\<lparr>heap := (heap g)(h := t)\<rparr>"
    using run e Virtual by (auto simp: handle_dup_def sbnd_def t_get_def fd_get_def t_duplicate_def duplicate_def)
  have be: "view open_fd h g (a0 sc) = behind (open_fd (kern g)) e" "behind (open_fd (kern g)) e \<noteq> None"
    using e Virtual by (simp_all add: view_def behind_def)
  have "0 \<le> fd" using al allocate_spec [OF ok, of _ fd t] by (auto simp: lowest_def FIRST_USER_FD_def)
  then show ?thesis
    using allocate_refines [OF so nr _ _ al, of g'] be fin Virtual std by (intro exI [of _ "Inr fd"]) auto
qed

text \<open>What closing the replaced entry does.\<close>

lemma close_entry_run:
  fixes g g' :: "('k, 'm, 'o, 'w) guest"
  assumes K: "posix_kernel (inject G) open_fd" and run: "close_entry G en g = (Inr u, g')"
  shows "heap g' = heap g" "open_fd (kern g') =
    (case Option.bind en kernel_fd of None \<Rightarrow> open_fd (kern g) | Some k \<Rightarrow> (open_fd (kern g))(k := None))"
proof -
  have "heap g' = heap g \<and> open_fd (kern g') =
    (case Option.bind en kernel_fd of None \<Rightarrow> open_fd (kern g) | Some k \<Rightarrow> (open_fd (kern g))(k := None))"
  proof (cases "Option.bind en kernel_fd")
    case None
    then show ?thesis using run
      by (auto simp: close_entry_def sret_def sbnd_def s_files_def split: option.splits fd_entry.splits prod.splits)
  next
    case (Some k)
    then obtain fl p where en: "en = Some (Passthrough k fl p)" by (cases en; cases "the en") auto
    obtain x s m where i: "inject G (sys_close k) (kern g, gmem g) = (x, s, m)" by (cases "inject G (sys_close k) (kern g, gmem g)") auto
    then have "g' = g\<lparr>kern := s, gmem := m\<rparr>"
      using run en i by (cases x) (auto simp: close_entry_def sbnd_def s_inject_def errno_of_def sret_def)
    then show ?thesis using close_frees [OF K _ i] Some by (simp add: sys_close_def sys_new_def)
  qed
  then show "heap g' = heap g" "open_fd (kern g') =
    (case Option.bind en kernel_fd of None \<Rightarrow> open_fd (kern g) | Some k \<Rightarrow> (open_fd (kern g))(k := None))" by simp_all
qed

lemma close_entry_done:
  fixes g :: "('k, 'm, 'o, 'w) guest"
  assumes "closes (inject G) open_fd" and "\<And>k. Option.bind en kernel_fd = Some k \<Longrightarrow> open_fd (kern g) k \<noteq> None"
  shows "fst (close_entry G en g) = Inr ()"
proof (cases "Option.bind en kernel_fd")
  case None
  then show ?thesis
    by (auto simp: close_entry_def sret_def sbnd_def s_files_def split: option.splits fd_entry.splits prod.splits)
next
  case (Some k)
  then obtain fl p where en: "en = Some (Passthrough k fl p)" by (cases en; cases "the en") auto
  have "fst (inject G (sys_close k) (kern g, gmem g)) = Inr 0" using assms Some unfolding closes_def by blast
  then show ?thesis using en by (auto simp: close_entry_def sbnd_def s_inject_def sret_def split: prod.split)
qed

text \<open>Replacing the entry at a descriptor, after its old file was closed.\<close>

lemma replace_refines:
  fixes g g1 g2 :: "('k, 'm, 'o, 'w) guest"
  assumes so: "sound open_fd h g" and nr: "nr sc \<in> {SYS_dup2, SYS_dup3}" "a1 sc < i32_max" "0 \<le> a1 sc"
    and d3: "nr sc = SYS_dup3 \<Longrightarrow> a0 sc \<noteq> a1 sc \<and> a2 sc \<in> {0, O_CLOEXEC}"
    and g1: "heap g1 = heap g" "\<And>v k. translate (heap g h) v = Some k \<Longrightarrow> open_fd (kern g1) k = open_fd (kern g) k"
    and cl: "heap g2 = heap g1" "open_fd (kern g2) =
      (case Option.bind (entries (heap g h) (a1 sc)) kernel_fd of
         None \<Rightarrow> open_fd (kern g1) | Some k \<Rightarrow> (open_fd (kern g1))(k := None))"
    and e: "view open_fd h g (a0 sc) = behind (open_fd (kern g1)) e" "behind (open_fd (kern g1)) e \<noteq> None"
    and fresh: "\<And>v k. translate (heap g h) v = Some k \<Longrightarrow> kernel_fd e \<noteq> Some k"
    and g': "allocate_at (a1 sc) e (heap g h) = (old, t)" "g' = g2\<lparr>heap := (heap g2)(h := t)\<rparr>"
  shows "sound open_fd h g'" "posix_step (view open_fd h g) sc (Inr (a1 sc)) (view open_fd h g')"
proof -
  let ?od = "open_fd (kern g)" and ?od' = "open_fd (kern g')"
  have ok: "fd_ok (heap g h)" "wired ?od (heap g h)" using so by (simp_all add: sound_def)
  note t = allocate_at_ok [OF g'(1)]
  have k': "kern g' = kern g2" "heap g' h = t" using g'(2) by simp_all
  have tr: "Option.bind (entries (heap g h) (a1 sc)) kernel_fd = translate (heap g h) (a1 sc)" by (simp add: translate_def)
  have keep: "?od' k = ?od k \<and> kernel_fd e \<noteq> Some k" if "v \<noteq> a1 sc" "translate (heap g h) v = Some k" for v k
  proof -
    have "translate (heap g h) (a1 sc) \<noteq> Some k" using ok(2) that unfolding wired_def by blast
    then have "?od' k = open_fd (kern g1) k" using cl(2) k'(1) tr by (auto split: option.split)
    then show ?thesis using g1(2) [OF that(2)] fresh [OF that(2)] by simp
  qed
  have at: "behind ?od' e = behind (open_fd (kern g1)) e"
  proof (cases "kernel_fd e")
    case (Some k)
    then have "translate (heap g h) (a1 sc) \<noteq> Some k" using fresh by blast
    then show ?thesis using cl(2) k'(1) tr Some by (cases e) (auto simp: behind_def split: option.split)
  qed (cases e; simp add: behind_def)
  have new: "?od' k \<noteq> None" if "kernel_fd e = Some k" for k
    using e(2) at that by (cases e) (auto simp: behind_def)
  note pl = place_entry [of ?od "heap g h" t "a1 sc" e ?od', OF ok(2) t(3) keep new]
  show "sound open_fd h g'" using pl(1) t(1) [OF ok(1) nr(2)] k' by (simp add: sound_def)
  obtain x where x: "behind ?od' e = Some x" using e(2) at by auto
  have "view open_fd h g' = (view open_fd h g)(a1 sc \<mapsto> x)" using pl(2) k' x by (simp add: view_eq)
  then show "posix_step (view open_fd h g) sc (Inr (a1 sc)) (view open_fd h g')"
    using posix_dup2 [of sc "view open_fd h g" x] posix_dup3 [of sc "view open_fd h g" x] nr(1,3) d3 e(1) at x by auto
qed

lemma dup_onto_refines:
  fixes g g' :: "('k, 'm, 'o, 'w) guest"
  assumes K: "posix_kernel (inject G) open_fd" and C: "closes (inject G) open_fd" and so: "sound open_fd h g"
    and nr: "nr sc \<in> {SYS_dup2, SYS_dup3}" "a1 sc < i32_max" "0 \<le> a1 sc"
    and d3: "nr sc = SYS_dup3 \<Longrightarrow> a0 sc \<noteq> a1 sc \<and> a2 sc \<in> {0, O_CLOEXEC}"
    and e: "entries (heap g h) (a0 sc) = Some e" and run: "dup_onto G (a0 sc) (a1 sc) fl3 h g = (x, g')"
  shows "\<exists>out. x = map_sum id Some out \<and> sound open_fd h g' \<and> posix_step (view open_fd h g) sc out (view open_fd h g') \<and>
    (failed out \<longrightarrow> (\<exists>k. translate (heap g h) (a0 sc) = Some k \<and> refuses G (sys_dup k) g))"
proof (cases e)
  case (Passthrough k fl p)
  obtain y s m where i: "inject G (sys_dup k) (kern g, gmem g) = (y, s, m)" by (cases "inject G (sys_dup k) (kern g, gmem g)") auto
  let ?g1 = "g\<lparr>kern := s, gmem := m\<rparr>"
  have wired: "wired (open_fd (kern g)) (heap g h)" using so by (simp add: sound_def)
  have tr: "translate (heap g h) (a0 sc) = Some k" using e Passthrough by (simp add: translate_def)
  show ?thesis
  proof (cases "failed (errno_of y)")
    case True
    then have "x = map_sum id Some (errno_of y)" "g' = ?g1"
      using run e Passthrough i
      by (cases y; auto simp: dup_onto_def sbnd_def t_get_def fd_get_def s_inject_def sret_def)+
    moreover have "refuses G (sys_dup k) g" using True i by (simp add: refuses_def)
    ultimately show ?thesis
      using dup_fail [OF K i True] so True nr(1) tr
      by (intro exI [of _ "errno_of y"]) (auto simp: sound_def view_eq intro: posix_error)
  next
    case False
    then obtain q where y: "y = Inr q" "0 \<le> q" by (cases y) auto
    then have d: "q \<le> i32_max" "open_fd (kern g) q = None" "open_fd s = (open_fd (kern g))(q := open_fd (kern g) k)"
      using dup_new [OF K i [unfolded y(1)]] by auto
    have w: "wrap_i32 q = q" using y(2) d(1) by (simp add: wrap_small)
    define e' where "e' = (Passthrough q (case fl3 of None \<Rightarrow> 0 | Some f \<Rightarrow> f) p :: 'o fd_entry)"
    have keep: "open_fd s kv = open_fd (kern g) kv" "kernel_fd e' \<noteq> Some kv" if "translate (heap g h) v = Some kv" for v kv
      using wired_fresh [OF wired d(2) that] d(3) by (simp_all add: e'_def)
    have old_open: "open_fd (kern ?g1) kv \<noteq> None" if "Option.bind (entries (heap g h) (a1 sc)) kernel_fd = Some kv" for kv
      using that keep(1) [of "a1 sc" kv] wired_open [OF wired, of "a1 sc" kv] by (simp add: translate_def)
    obtain u g2 where cl: "close_entry G (entries (heap g h) (a1 sc)) ?g1 = (u, g2)" by fastforce
    then have u: "u = Inr ()" using close_entry_done [OF C old_open] by (metis fst_conv)
    obtain old t where al: "allocate_at (a1 sc) e' (heap g2 h) = (old, t)" by fastforce
    have fin: "x = Inr (Some (a1 sc))" "g' = g2\<lparr>heap := (heap g2)(h := t)\<rparr>"
      using run e Passthrough i y w cl u al
      by (auto simp: dup_onto_def sbnd_def t_get_def fd_get_def s_inject_def sret_def t_allocate_at_def e'_def)
    note ce = close_entry_run [OF K cl [unfolded u]]
    have k: "open_fd (kern g) k \<noteq> None" by (rule wired_open [OF wired tr])
    have be: "view open_fd h g (a0 sc) = behind (open_fd s) e'" "behind (open_fd s) e' \<noteq> None"
      using e Passthrough d(3) k by (simp_all add: view_def behind_def e'_def)
    show ?thesis
      using replace_refines [OF so nr d3, of ?g1 g2 e' old t g'] ce keep be al fin nr(3)
      by (intro exI [of _ "Inr (a1 sc)"]) simp
  qed
next
  case (Virtual ops fl p)
  define e' where "e' = Virtual ops (case fl3 of None \<Rightarrow> fl | Some f \<Rightarrow> f) p"
  have wired: "wired (open_fd (kern g)) (heap g h)" using so by (simp add: sound_def)
  have old_open: "open_fd (kern g) kv \<noteq> None" if "Option.bind (entries (heap g h) (a1 sc)) kernel_fd = Some kv" for kv
    using that wired_open [OF wired, of "a1 sc" kv] by (simp add: translate_def)
  obtain u g2 where cl: "close_entry G (entries (heap g h) (a1 sc)) g = (u, g2)" by fastforce
  then have u: "u = Inr ()" using close_entry_done [OF C old_open] by (metis fst_conv)
  obtain old t where al: "allocate_at (a1 sc) e' (heap g2 h) = (old, t)" by fastforce
  have fin: "x = Inr (Some (a1 sc))" "g' = g2\<lparr>heap := (heap g2)(h := t)\<rparr>"
    using run e Virtual cl u al
    by (auto simp: dup_onto_def sbnd_def t_get_def fd_get_def sret_def t_allocate_at_def e'_def)
  note ce = close_entry_run [OF K cl [unfolded u]]
  have be: "view open_fd h g (a0 sc) = behind (open_fd (kern g)) e'" "behind (open_fd (kern g)) e' \<noteq> None"
    using e Virtual by (simp_all add: view_def behind_def e'_def)
  show ?thesis
    using replace_refines [OF so nr d3, of g g2 e' old t g'] ce be al fin nr(3)
    by (intro exI [of _ "Inr (a1 sc)"]) (simp add: e'_def)
qed

text \<open>Closing: the entry is gone, and its kernel descriptor closed.\<close>

lemma close_refines:
  fixes g g' :: "('k, 'm, 'o, 'w) guest"
  assumes K: "posix_kernel (inject G) open_fd" and so: "sound open_fd h g" and nr: "nr sc = SYS_close"
    and e: "entries (heap g h) (a0 sc) = Some e" and h: "fd_tables g pid = Some h"
    and run: "handle_syscall_event G arm mt pid sc g = (out, g')"
  shows "sound open_fd h g' \<and> posix_step (view open_fd h g) sc out (view open_fd h g') \<and>
    (failed out \<longrightarrow> (\<exists>k. translate (heap g h) (a0 sc) = Some k \<and> refuses G (sc\<lparr>a0 := k\<rparr>) g))"
proof -
  let ?od = "open_fd (kern g)" and ?od' = "open_fd (kern g')"
  have ok: "fd_ok (heap g h)" "wired ?od (heap g h)" using so by (simp_all add: sound_def)
  obtain old t where de: "deallocate (a0 sc) (heap g h) = (old, t)" by fastforce
  note t = deallocate_ok [OF de]
  let ?g1 = "g\<lparr>heap := (heap g)(h := t)\<rparr>"
  have g': "heap g' h = t \<and> ?od' = (case kernel_fd e of None \<Rightarrow> ?od | Some k \<Rightarrow> ?od(k := None)) \<and>
      (out = Inr 0 \<or> failed out \<and> (\<exists>k. kernel_fd e = Some k \<and> refuses G (sc\<lparr>a0 := k\<rparr>) g))"
  proof (cases e)
    case (Passthrough k fl p)
    obtain x s m where i: "inject G (sc\<lparr>a0 := k\<rparr>) (kern g, gmem g) = (x, s, m)" by (cases "inject G (sc\<lparr>a0 := k\<rparr>) (kern g, gmem g)") auto
    have fin: "out = errno_of x" "g' = ?g1\<lparr>kern := s, gmem := m\<rparr>"
      using run h nr de e t Passthrough i
      by (auto simp: handle_syscall_event_def get_fd_table_def sbnd_def dispatch_syscall_def handle_close_def
          t_deallocate_def sret_def s_inject_def)
    have "open_fd s = ?od(k := None)" "x = Inr 0 \<or> failed (errno_of x)" using close_frees [OF K _ i] nr by simp_all
    then show ?thesis using fin i Passthrough by (auto simp: refuses_def)
  next
    case (Virtual ops fl p)
    then show ?thesis
      using run h nr de e t
      by (auto simp: handle_syscall_event_def get_fd_table_def sbnd_def dispatch_syscall_def handle_close_def
          t_deallocate_def sret_def s_files_def split: prod.splits sum.splits)
  qed
  have keep: "?od' k = ?od k" if "v \<noteq> a0 sc" "translate (heap g h) v = Some k" for v k
  proof -
    have "translate (heap g h) (a0 sc) \<noteq> Some k" using ok(2) that unfolding wired_def by blast
    then show ?thesis using g' e by (auto simp: translate_def split: option.split)
  qed
  note rm = remove_entry [of ?od "heap g h" t "a0 sc" ?od', OF ok(2) t(3) keep]
  have "view open_fd h g (a0 sc) \<noteq> None" using wired_dom [OF ok(2), of "a0 sc"] e unfolding view_def by (metis option.distinct(1))
  moreover have "out = Inr 0 \<or> failed out" using g' by blast
  ultimately have "posix_step (view open_fd h g) sc out (view open_fd h g')"
    using rm(2) g' posix_close [OF nr, of "view open_fd h g" out] by (simp add: view_eq)
  moreover have "sound open_fd h g'" using rm(1) t(1) [OF ok(1)] g' by (simp add: sound_def)
  moreover have "failed out \<longrightarrow> (\<exists>k. translate (heap g h) (a0 sc) = Some k \<and> refuses G (sc\<lparr>a0 := k\<rparr>) g)"
    using g' e by (auto simp: translate_def)
  ultimately show ?thesis by blast
qed

text \<open>The reply of a handler that answers a call itself.\<close>

lemma event_reply:
  assumes "handle_syscall_event G arm mt pid sc g = (out, g')" and "fd_tables g pid = Some h"
    and "dispatch_syscall G arm sc mt h = or_value sc f"
    and "\<And>x g1. f g = (x, g1) \<Longrightarrow> \<exists>out. x = map_sum id Some out \<and> Q out g1"
  shows "Q out g'"
proof -
  obtain x g1 where f: "f g = (x, g1)" by fastforce
  then obtain r where r: "x = map_sum id Some r" "Q r g1" using assms(4) by blast
  have "out = r \<and> g' = g1"
    using assms(1-3) f r(1)
    by (cases r) (auto simp: handle_syscall_event_def get_fd_table_def sbnd_def or_value_def sret_def)
  then show ?thesis using r(2) by simp
qed

text \<open>
  A kernel with the promised behaviour: descriptors are handed out in order, from a counter;
  a new process has the number 42.  Memory is not used.
\<close>

type_synonym sample_kernel = "nat \<times> (int \<Rightarrow> nat option)"

definition sample_open :: "sample_kernel \<Rightarrow> int \<Rightarrow> nat option" where
  "sample_open s k = (if k < int (fst s) then snd s k else None)"

definition sample_inject :: "syscall \<Rightarrow> sample_kernel \<times> unit \<Rightarrow> (int + int) \<times> (sample_kernel \<times> unit)" where
  "sample_inject sc = (\<lambda>(s, m).
    case nr sc of
      SYS_dup \<Rightarrow>
        if sample_open s (a0 sc) = None \<or> i32_max < int (fst s) then (Inr (- EBADF), s, m)
        else (Inr (int (fst s)), (Suc (fst s), (snd s)(int (fst s) := sample_open s (a0 sc))), m)
    | SYS_close \<Rightarrow> (Inr 0, (fst s, (snd s)(a0 sc := None)), m)
    | SYS_fork \<Rightarrow> (Inr 42, s, m)
    | _ \<Rightarrow> (Inl ENOSYS, s, m))"

definition sample_env :: "(sample_kernel, unit, nat, unit) env" where
  "sample_env =
    \<lparr>inject = sample_inject, open_mode = (\<lambda>sc. None), read_path = (\<lambda>m a. Inl EFAULT),
     reserve = (\<lambda>m. (Inl EFAULT, m)), write_path = (\<lambda>a p m. Inl EFAULT), read_set = (\<lambda>m a. Inl EFAULT),
     write_set = (\<lambda>a x m. Inl EFAULT), read_pollfd = (\<lambda>m a. Inl EFAULT), write_pollfd = (\<lambda>a x m. Inl EFAULT),
     read_pair = (\<lambda>m a. Inl EFAULT), write_i32 = (\<lambda>a x m. Inl EFAULT), read_bytes = (\<lambda>m a n. Inl EFAULT),
     write_bytes = (\<lambda>a x m. Inl EFAULT), ops_read = (\<lambda>v n w. (Inr [], w)), ops_write = (\<lambda>v b w. (Inr 0, w)),
     ops_seek = (\<lambda>v a b w. (Inr 0, w)), ops_fstat = (\<lambda>v w. (Inr [], w)), ops_getdents = (\<lambda>v w. (Inr [], w)),
     ops_close = (\<lambda>v w. (Inr (), w)), lossy = (\<lambda>p. p)\<rparr>"

text \<open>Process 7 with the three standard descriptors.\<close>

definition sample_guest :: "(sample_kernel, unit, nat, unit) guest" where
  "sample_guest =
    \<lparr>kern = (3, [0 \<mapsto> 10, 1 \<mapsto> 11, 2 \<mapsto> 12]), gmem = (), vfiles = (), heap = (\<lambda>_. fd_new), next_table = 1,
     fd_tables = [7 \<mapsto> 0]\<rparr>"

lemma sample_kernel_ok: "posix_kernel sample_inject sample_open" "closes sample_inject sample_open"
proof -
  have dup: "if failed (errno_of r) then sample_open s' = sample_open s
      else projr r \<le> i32_max \<and> sample_open s (projr r) = None \<and> sample_open s' = (sample_open s)(projr r := sample_open s k)"
    if "sample_inject (sys_dup k) (s, m) = (r, s', m')" for k s m r s' m'
  proof (cases "sample_open s k = None \<or> i32_max < int (fst s)")
    case True
    then show ?thesis using that by (auto simp: sample_inject_def sys_dup_def sys_new_def EBADF_def)
  next
    case False
    then have "r = Inr (int (fst s))" "s' = (Suc (fst s), (snd s)(int (fst s) := sample_open s k))"
      using that by (auto simp: sample_inject_def sys_dup_def sys_new_def)
    then show ?thesis using False by (auto simp: sample_open_def fun_eq_iff)
  qed
  have "sample_open s' = (sample_open s)(a0 sc := None) \<and> (x = Inr 0 \<or> failed (errno_of x))"
    if "nr sc = SYS_close" "sample_inject sc (s, m) = (x, s', m')" for sc s m x s' m'
    using that by (auto simp: sample_inject_def sample_open_def fun_eq_iff)
  with dup show "posix_kernel sample_inject sample_open" unfolding posix_kernel_def by blast
  show "closes sample_inject sample_open"
    by (auto simp: closes_def sample_inject_def sys_close_def sys_new_def)
qed

lemma sample_guest_ok: "tables_ok sample_guest" "sound sample_open 0 sample_guest"
proof -
  show "tables_ok sample_guest" by (auto simp: tables_ok_def sample_guest_def fd_new_ok split: if_splits)
  have "wired (sample_open (kern sample_guest)) (heap sample_guest 0)"
    by (auto simp: wired_def sample_guest_def translate_def fd_new_def sample_open_def split: if_splits)
  then show "sound sample_open 0 sample_guest" by (simp add: sound_def fd_new_ok sample_guest_def)
qed

text \<open>
  C15.  On a kernel whose \<open>dup\<close> and \<open>close\<close> do what is documented, the calls that duplicate and
  close descriptors of the table refine POSIX, whatever they return: seen through the table, \<open>dup\<close>
  gives the lowest unused descriptor on the same open file, \<open>dup2\<close> and \<open>dup3\<close> make the given
  descriptor lead to it, \<open>close\<close> frees the descriptor, and an error of the others changes nothing; an
  error is returned only when the kernel reports one for the descriptor behind; and the table goes on
  leading to open kernel descriptors, no two entries to the same one.
  This holds under conditions that the code does not check: the descriptor is in the table; for \<open>dup\<close>
  the descriptors 0, 1 and 2 are in use (the table never hands them out again) and one below
  \<open>i32::MAX\<close> is not; for \<open>dup2\<close> and \<open>dup3\<close> the target is not negative and below \<open>i32::MAX\<close>, and the kernel
  closes the replaced descriptor without an error; and \<open>dup3\<close> has two different descriptors and no flag
  but \<open>O_CLOEXEC\<close>.  Theorems below show what happens in the cases left out.  An open file of a virtual
  filesystem is taken as one object, whether or not it was told to close.
\<close>

theorem descriptor_calls_refine:
  assumes "posix_kernel (inject G) open_fd" and "fd_tables g pid = Some h" and "sound open_fd h g"
    and "nr sc \<in> {SYS_dup, SYS_dup2, SYS_dup3, SYS_close}" and "entries (heap g h) (a0 sc) \<noteq> None"
    and "nr sc = SYS_dup \<Longrightarrow> (\<forall>v. 0 \<le> v \<and> v < 3 \<longrightarrow> entries (heap g h) v \<noteq> None) \<and>
      (\<exists>v. 0 \<le> v \<and> v < i32_max \<and> entries (heap g h) v = None)"
    and "nr sc \<in> {SYS_dup2, SYS_dup3} \<Longrightarrow> closes (inject G) open_fd \<and> 0 \<le> a1 sc \<and> a1 sc < i32_max"
    and "nr sc = SYS_dup3 \<Longrightarrow> a0 sc \<noteq> a1 sc \<and> a2 sc \<in> {0, O_CLOEXEC}"
    and "handle_syscall_event G False mt pid sc g = (out, g')"
  shows "sound open_fd h g' \<and> posix_step (view open_fd h g) sc out (view open_fd h g') \<and>
    (failed out \<longrightarrow> (\<exists>k. translate (heap g h) (a0 sc) = Some k \<and>
      refuses G (if nr sc = SYS_close then sc\<lparr>a0 := k\<rparr> else sys_dup k) g))"
proof -
  obtain e where e: "entries (heap g h) (a0 sc) = Some e" using assms(5) by blast
  consider "nr sc = SYS_dup" | "nr sc \<in> {SYS_dup2, SYS_dup3}" | "nr sc = SYS_close" using assms(4) by blast
  then show ?thesis
  proof cases
    case 1
    then have d: "dispatch_syscall G False sc mt h = or_value sc (handle_dup G sc h)" by (simp add: dispatch_syscall_def)
    have std: "\<forall>v. 0 \<le> v \<and> v < 3 \<longrightarrow> entries (heap g h) v \<noteq> None" using assms(6) [OF 1] by blast
    obtain v where v: "0 \<le> v" "v < i32_max" "entries (heap g h) v = None" using assms(6) [OF 1] by blast
    have r: "FIRST_USER_FD \<le> v" using std v(1,3) by (force simp: FIRST_USER_FD_def not_le [symmetric])
    have "sound open_fd h g' \<and> posix_step (view open_fd h g) sc out (view open_fd h g') \<and>
        (failed out \<longrightarrow> (\<exists>k. translate (heap g h) (a0 sc) = Some k \<and> refuses G (sys_dup k) g))"
      by (rule event_reply [OF assms(9,2) d]) (rule dup_refines [OF assms(1,3) 1 e std r v(2,3)])
    then show ?thesis using 1 by simp
  next
    case 2
    obtain fl where d: "dispatch_syscall G False sc mt h = or_value sc (dup_onto G (a0 sc) (a1 sc) fl h)"
      using 2 by (auto simp: dispatch_syscall_def handle_dup2_def handle_dup3_def)
    have c: "closes (inject G) open_fd" "a1 sc < i32_max" "0 \<le> a1 sc" using assms(7) [OF 2] by simp_all
    have "sound open_fd h g' \<and> posix_step (view open_fd h g) sc out (view open_fd h g') \<and>
        (failed out \<longrightarrow> (\<exists>k. translate (heap g h) (a0 sc) = Some k \<and> refuses G (sys_dup k) g))"
      by (rule event_reply [OF assms(9,2) d]) (rule dup_onto_refines [OF assms(1) c(1) assms(3) 2 c(2,3) assms(8) e])
    then show ?thesis using 2 by auto
  next
    case 3
    then show ?thesis using close_refines [OF assms(1,3) 3 e assms(2,9)] by simp
  qed
qed

text \<open>Standard output is duplicated to descriptor 3.\<close>

theorem descriptor_calls_refine_witness:
  "posix_step (view sample_open 0 sample_guest) (sys_dup 1) (Inr 3)
    (view sample_open 0 (snd (handle_syscall_event sample_env False [] 7 (sys_dup 1) sample_guest)))"
proof -
  let ?g' = "snd (handle_syscall_event sample_env False [] 7 (sys_dup 1) sample_guest)"
  have run: "handle_syscall_event sample_env False [] 7 (sys_dup 1) sample_guest = (Inr 3, ?g')"
    by (simp add: handle_syscall_event_def get_fd_table_def sbnd_def dispatch_syscall_def handle_dup_def or_value_def
        t_get_def fd_get_def s_inject_def errno_of_def sret_def t_allocate_def allocate_def sample_env_def sample_guest_def
        sample_inject_def sample_open_def fd_new_def sys_dup_def sys_new_def wrap_i32_def i32_max_def FIRST_USER_FD_def)
  have tab: "entries (heap sample_guest 0) v = None \<longleftrightarrow> \<not> (0 \<le> v \<and> v < 3)" for v
    by (auto simp: sample_guest_def fd_new_def)
  have room: "\<exists>v. 0 \<le> v \<and> v < i32_max \<and> entries (heap sample_guest 0) v = None"
    unfolding tab by (rule exI [of _ 3]) (simp add: i32_max_def)
  have nr: "nr (sys_dup 1) = SYS_dup" "a0 (sys_dup 1) = 1" by (simp_all add: sys_dup_def sys_new_def)
  have "posix_kernel (inject sample_env) sample_open" "fd_tables sample_guest 7 = Some 0"
    using sample_kernel_ok(1) by (simp_all add: sample_env_def sample_guest_def)
  from descriptor_calls_refine [OF this sample_guest_ok(2) _ _ _ _ _ run] show ?thesis
    using nr room by (simp add: tab)
qed

text \<open>Process 8, on its first call, gets a table of its own; that of process 7 stays.\<close>

theorem tables_kept_apart_witness:
  "let g' = snd (handle_syscall_event sample_env False [] 8 (sys_close 1) sample_guest)
   in tables_ok g' \<and> heap g' 0 = fd_new \<and> entries (heap g' 1) 1 = None"
proof -
  let ?g' = "snd (handle_syscall_event sample_env False [] 8 (sys_close 1) sample_guest)"
  have "tables_ok ?g' \<and> (\<forall>q x. fd_tables sample_guest q = Some x \<longrightarrow> fd_tables sample_guest 8 \<noteq> Some x \<longrightarrow>
      heap ?g' x = heap sample_guest x)"
    by (rule tables_kept_apart [OF sample_guest_ok(1) _ refl]) (simp add: sys_close_def sys_new_def)
  moreover have "fd_tables sample_guest 7 = Some 0" "fd_tables sample_guest 8 = None" "heap sample_guest 0 = fd_new"
    by (simp_all add: sample_guest_def)
  moreover have "entries (heap ?g' 1) 1 = None"
    by (simp add: handle_syscall_event_def get_fd_table_def sbnd_def dispatch_syscall_def handle_close_def sys_close_def
        t_deallocate_def deallocate_def s_inject_def errno_of_def sret_def sample_env_def sample_guest_def
        sample_inject_def fd_new_def sys_new_def)
  ultimately show ?thesis by (metis option.distinct(1))
qed


section \<open>Where the descriptor calls leave POSIX\<close>

lemmas sample_run = handle_syscall_event_def get_fd_table_def sbnd_def dispatch_syscall_def handle_dup_def handle_dup2_def
  handle_dup3_def handle_close_def dup_onto_def close_entry_def or_value_def t_get_def fd_get_def s_inject_def errno_of_def
  sret_def t_allocate_def allocate_def t_allocate_at_def allocate_at_def t_deallocate_def deallocate_def skip_to_def
  sample_env_def sample_guest_def sample_inject_def sample_open_def fd_new_def sys_dup_def sys_close_def sys_new_def
  wrap_i32_def i32_max_def FIRST_USER_FD_def

text \<open>After standard input was closed, \<open>dup\<close> gives 3 although descriptor 0 is not in use.\<close>

theorem dup_skips_standard_descriptors:
  "let g1 = snd (handle_syscall_event sample_env False [] 7 (sys_close 0) sample_guest)
   in entries (heap g1 0) 0 = None \<and> fst (handle_syscall_event sample_env False [] 7 (sys_dup 1) g1) = Inr 3"
  by (simp add: sample_run)

text \<open>
  \<open>dup3\<close> of a descriptor onto itself succeeds (POSIX: \<open>EINVAL\<close>), and \<open>dup2\<close> onto a negative descriptor
  makes an entry there (POSIX: \<open>EBADF\<close>).
\<close>

theorem dup3_onto_itself_succeeds:
  "fst (handle_syscall_event sample_env False [] 7 ((sys_new SYS_dup3)\<lparr>a0 := 1, a1 := 1\<rparr>) sample_guest) = Inr 1"
  by (simp add: sample_run)

theorem dup2_accepts_negative:
  "let g' = snd (handle_syscall_event sample_env False [] 7 ((sys_new SYS_dup2)\<lparr>a0 := 1, a1 := - 9\<rparr>) sample_guest)
   in entries (heap g' 0) (- 9) \<noteq> None"
  by (simp add: sample_run)

text \<open>
  A kernel whose \<open>close\<close> reports an error, having freed the descriptor as documented: \<open>dup2\<close> returns the
  error, and the entry of the target is left leading to a closed kernel descriptor.
\<close>

definition failing_env :: "(sample_kernel, unit, nat, unit) env" where
  "failing_env = sample_env\<lparr>inject := (\<lambda>sc st. case sample_inject sc st of (r, st') \<Rightarrow>
     (if nr sc = SYS_close then Inl 5 else r, st'))\<rparr>"

theorem dup2_failing_close_dangles:
  "let (r, g') = handle_syscall_event failing_env False [] 7 ((sys_new SYS_dup2)\<lparr>a0 := 1, a1 := 2\<rparr>) sample_guest
   in r = Inl (Errno 5) \<and> translate (heap g' 0) 2 = Some 2 \<and> sample_open (kern g') 2 = None"
  by (simp add: sample_run failing_env_def translate_def)

section \<open>Descriptor sets\<close>

lemma fold_to_kernel:
  "fst (fold (\<lambda>vfd (kset, m). if vfd \<in> vs then
        (case translate t vfd of None \<Rightarrow> (kset, m) | Some kfd \<Rightarrow> (insert kfd kset, if kfd + 1 > m then kfd + 1 else m))
      else (kset, m)) xs (ks, n)) = ks \<union> {k. \<exists>v \<in> set xs \<inter> vs. translate t v = Some k}"
  "(\<forall>k \<in> ks. k < n) \<Longrightarrow>
   (case fold (\<lambda>vfd (kset, m). if vfd \<in> vs then
        (case translate t vfd of None \<Rightarrow> (kset, m) | Some kfd \<Rightarrow> (insert kfd kset, if kfd + 1 > m then kfd + 1 else m))
      else (kset, m)) xs (ks, n) of (kset, m) \<Rightarrow> \<forall>k \<in> kset. k < m)"
proof (induction xs arbitrary: ks n)
  case (Cons x xs)
  {
    case 1
    show ?case by (cases "translate t x") (auto simp: Cons.IH(1))
  next
    case 2
    then show ?case by (cases "translate t x") (auto simp del: split_paired_All intro!: Cons.IH(2))
  }
qed simp_all

lemma to_kernel_set:
  assumes "translate_to_kernel t vs nfds = (ks, n)"
  shows "ks = {k. \<exists>v \<in> vs. 0 \<le> v \<and> v < nfds \<and> translate t v = Some k}" "\<And>k. k \<in> ks \<Longrightarrow> k < n"
proof -
  show "ks = {k. \<exists>v \<in> vs. 0 \<le> v \<and> v < nfds \<and> translate t v = Some k}"
    using fold_to_kernel(1) [of vs t "[0..nfds - 1]" "{}" 1] assms by (auto simp: translate_to_kernel_def)
  show "k < n" if "k \<in> ks" for k
    using fold_to_kernel(2) [of "{}" 1 vs t "[0..nfds - 1]"] assms that by (auto simp: translate_to_kernel_def)
qed

text \<open>
  What \<open>pselect6\<close> reports: when the kernel answers with some of the descriptors it was asked
  about, the process is told exactly those of its own descriptors, among the ones it asked about
  and that have a kernel descriptor, whose kernel descriptors are in the answer.
\<close>

theorem select_answer:
  assumes "wired od t" and "translate_to_kernel t asked nfds = (ks, n)" and "n \<le> kernel_nfds" and "answer \<subseteq> ks"
  shows "translate_to_virtual t answer kernel_nfds nfds =
    {v \<in> asked. 0 \<le> v \<and> v < nfds \<and> (\<exists>k \<in> answer. translate t v = Some k)}"
proof -
  have "v \<in> asked" if "translate t v = Some k" "k \<in> answer" for v k
    using to_kernel_set(1) [OF assms(2)] assms(1,4) that unfolding wired_def by blast
  moreover have "k < kernel_nfds" if "k \<in> answer" for k
    using to_kernel_set(2) [OF assms(2)] assms(3,4) that by fastforce
  ultimately show ?thesis by (auto simp: translate_to_virtual_def split: option.splits)
qed

text \<open>The process waits for 0 and 1; kernel descriptor 1 is ready.\<close>

theorem select_answer_witness:
  "translate_to_virtual (fd_new :: nat fd_table) {1} 3 3 = {1}"
proof -
  have w: "wired (\<lambda>k. Some ()) (fd_new :: nat fd_table)"
    by (auto simp: wired_def fd_new_def translate_def split: if_splits)
  have k: "translate_to_kernel (fd_new :: nat fd_table) {0, 1} 3 = ({0, 1}, 2)"
    by (auto simp: translate_to_kernel_def translate_def fd_new_def upto.simps)
  have "translate_to_virtual (fd_new :: nat fd_table) {1} 3 3 =
      {v \<in> {0, 1}. 0 \<le> v \<and> v < 3 \<and> (\<exists>k \<in> {1}. translate (fd_new :: nat fd_table) v = Some k)}"
    by (rule select_answer [OF w k]) simp_all
  also have "\<dots> = {1}"
  proof -
    have "translate (fd_new :: nat fd_table) 0 = Some 0" "translate (fd_new :: nat fd_table) 1 = Some 1"
      by (simp_all add: translate_def fd_new_def)
    then show ?thesis by force
  qed
  finally show ?thesis .
qed

section \<open>Calls on descriptors outside the table\<close>

text \<open>
  A descriptor that is not in the table is left to the kernel under its own number, and the kernel
  may have a file open there that another descriptor of the table leads to: the call reaches a
  file that the process has under a different descriptor.
\<close>

theorem unknown_descriptor_reaches_kernel:
  assumes "entries (heap g h) (a0 sc) = None" and "nr sc \<in> {SYS_read, SYS_write, SYS_close, SYS_dup, SYS_dup3}"
    and "fd_tables g pid = Some h"
  shows "handle_syscall_event G arm mt pid sc g = s_inject G sc g"
proof -
  note d = handle_syscall_event_def get_fd_table_def dispatch_syscall_def or_value_def sbnd_def sret_def t_get_def fd_get_def
  consider "nr sc = SYS_read" | "nr sc = SYS_write" | "nr sc = SYS_close" | "nr sc = SYS_dup" | "nr sc = SYS_dup3"
    using assms(2) by blast
  then show ?thesis
  proof cases
    case 1 then show ?thesis using assms(1,3) by (simp add: d handle_read_def)
  next
    case 2 then show ?thesis using assms(1,3) by (simp add: d handle_write_def)
  next
    case 3 then show ?thesis using assms(1,3) by (simp add: d handle_close_def t_deallocate_def deallocate_def)
  next
    case 4 then show ?thesis using assms(1,3) by (simp add: d handle_dup_def)
  next
    case 5 then show ?thesis using assms(1,3) by (simp add: d handle_dup3_def dup_onto_def)
  qed
qed

text \<open>\<open>connect\<close> passes no address to the kernel.\<close>

theorem connect_drops_address:
  assumes "translate (heap g h) (a0 sc) = Some k"
  shows "handle_connect G sc h g = handle_connect G (sc\<lparr>a1 := x\<rparr>) h g"
  using assms by (simp add: handle_connect_def run_on_fd_def sbnd_def t_translate_def)

end
