(* ===== verification/Dir_Records.thy ===== *)
theory Dir_Records
  imports Sys_Calls
begin

text \<open>
  The directory records that \<open>handle_getdents64\<close> writes into the buffer of the process, read
  back the way a C library walks \<open>linux_dirent64\<close> records.
\<close>

section \<open>Reading records\<close>

fun of_le :: "bytes \<Rightarrow> nat" where
  "of_le [] = 0"
| "of_le (b # bs) = unat b + 256 * of_le bs"

text \<open>One record after the other, each as long as its \<open>d_reclen\<close> says.\<close>

function read_dirents :: "bytes \<Rightarrow> (nat \<times> nat \<times> string \<times> byte) list" where
  "read_dirents bs =
    (let n = of_le (take 2 (drop 16 bs)) in
     if n < 19 \<or> length bs < n then []
     else (of_le (take 8 bs), of_le (take 8 (drop 8 bs)),
           map (\<lambda>b. char_of (unat b)) (takeWhile (\<lambda>b. b \<noteq> 0) (take (n - 19) (drop 19 bs))), bs ! 18) #
          read_dirents (drop n bs))"
  by pat_completeness auto
termination
  by (relation "measure length") (auto simp: Let_def)

declare read_dirents.simps [simp del]

lemma of_le_map:
  "of_le (map (\<lambda>i. word_of_int (x div 2 ^ (8 * i))) [0..<n]) = nat (x mod 2 ^ (8 * n))"
proof (induction n arbitrary: x)
  case (Suc n)
  have shift: "map (\<lambda>i. word_of_int (x div 2 ^ (8 * i)) :: byte) [1..<Suc n] =
      map (\<lambda>i. word_of_int (x div 256 div 2 ^ (8 * i))) [0..<n]"
    by (simp add: map_Suc_upt [symmetric] zdiv_zmult2_eq [symmetric] power_add mult.commute del: upt_Suc)
  have "x mod 2 ^ (8 * Suc n) = x mod 256 + 256 * (x div 256 mod 2 ^ (8 * n))"
    using zmod_zmult2_eq [of "2 ^ (8 * n)" x 256] by (simp add: power_add mult.commute)
  moreover have "unat (word_of_int x :: byte) = nat (x mod 256)" by (simp add: unat_eq_nat_uint uint_word_of_int)
  ultimately show ?case
    using Suc [of "x div 256"] shift by (simp add: upt_conv_Cons nat_add_distrib nat_mult_distrib del: upt_Suc)
qed simp

lemma of_le_le_bytes: "of_le (le_bytes n x) = nat (x mod 2 ^ (8 * n))"
  by (simp add: le_bytes_def of_le_map)

lemma length_le_bytes [simp]: "length (le_bytes n x) = n"
  by (simp add: le_bytes_def)

lemma unat_char: "unat (of_char c :: byte) = of_char c"
proof -
  have "unat (of_nat (of_char c) :: byte) = of_char c" by (simp add: unat_of_nat)
  then show ?thesis by (simp only: of_nat_of_char)
qed

lemma char_byte: "char_of (unat (of_char c :: byte)) = c" "(of_char c :: byte) = 0 \<longleftrightarrow> c = CHR 0x00"
proof -
  show "char_of (unat (of_char c :: byte)) = c" by (simp add: unat_char)
  have "(of_char c :: byte) = 0 \<longleftrightarrow> (of_char c :: nat) = 0" by (simp only: unat_char [symmetric] unat_0_iff)
  also have "\<dots> \<longleftrightarrow> (of_char c :: nat) = of_char CHR 0x00" by (simp del: of_char_eq_iff)
  finally show "(of_char c :: byte) = 0 \<longleftrightarrow> c = CHR 0x00" by (simp only: of_char_eq_iff)
qed

section \<open>The records written\<close>

lemma length_dirent: "length (dirent ino off name ty) = 20 + length name"
  by (simp add: dirent_def)

lemma length_pad8: "length (pad8 bs) = (length bs + 7) div 8 * 8"
proof -
  have "n + (8 - n mod 8) mod 8 = (n + 7) div 8 * 8" for n :: nat
  proof -
    obtain q r where n: "n = 8 * q + r" "r < 8" by (metis mod_less_divisor mult_div_mod_eq zero_less_numeral)
    then have "r \<in> {0, 1, 2, 3, 4, 5, 6, 7}" by auto
    then show ?thesis using n(1) by auto
  qed
  then show ?thesis by (simp add: pad8_def)
qed

lemma length_record: "length (pad8 (dirent ino off name ty)) = reclen name"
  by (simp add: length_pad8 length_dirent reclen_def)

lemma pad8_append: "length bs mod 8 = 0 \<Longrightarrow> pad8 (bs @ r) = bs @ pad8 r"
  by (simp add: pad8_def mod_add_eq [symmetric] mod_eq_0_iff_dvd)

fun records :: "int \<Rightarrow> (nat \<times> string \<times> byte) list \<Rightarrow> bytes" where
  "records off [] = []"
| "records off ((ino, name, ty) # es) = pad8 (dirent ino off name ty) @ records (off + 1) es"

lemma dirents_records:
  assumes "length buf mod 8 = 0" and "length buf \<le> cap"
  shows "\<exists>n \<le> length es. dirents cap off es buf = buf @ records off (take n es) \<and>
    length buf + length (records off (take n es)) \<le> cap \<and>
    (n < length es \<longrightarrow> cap < length buf + length (records off (take n es)) + reclen (fst (snd (es ! n))))"
  using assms
proof (induction es arbitrary: off buf)
  case (Cons e es)
  obtain ino name ty where e: "e = (ino, name, ty)" by (cases e)
  show ?case
  proof (cases "length buf + reclen name > cap")
    case True
    then show ?thesis using Cons.prems e by (intro exI [of _ 0]) simp
  next
    case False
    let ?b = "buf @ pad8 (dirent ino off name ty)"
    have "length ?b mod 8 = 0" using Cons.prems(1) by (simp add: length_pad8)
    moreover have "length ?b \<le> cap" using False by (simp add: length_record)
    ultimately obtain n where n: "n \<le> length es" "dirents cap (off + 1) es ?b = ?b @ records (off + 1) (take n es)"
      "length ?b + length (records (off + 1) (take n es)) \<le> cap"
      "n < length es \<longrightarrow> cap < length ?b + length (records (off + 1) (take n es)) + reclen (fst (snd (es ! n)))"
      using Cons.IH [of ?b "off + 1"] by metis
    then show ?thesis
      using e False pad8_append [OF Cons.prems(1)] by (intro exI [of _ "Suc n"]) (simp add: length_record add.assoc)
  qed
qed simp

section \<open>Reading back what was written\<close>

definition entry_ok :: "nat \<times> string \<times> byte \<Rightarrow> bool" where
  "entry_ok e = (case e of (ino, name, ty) \<Rightarrow> ino < 2 ^ 64 \<and> CHR 0x00 \<notin> set name \<and> length name \<le> 255)"

fun numbered :: "nat \<Rightarrow> (nat \<times> string \<times> byte) list \<Rightarrow> (nat \<times> nat \<times> string \<times> byte) list" where
  "numbered off [] = []"
| "numbered off ((ino, name, ty) # es) = (ino, off, name, ty) # numbered (Suc off) es"

lemma read_record:
  assumes "entry_ok (ino, name, ty)" and "off < 2 ^ 64"
  shows "read_dirents (pad8 (dirent ino (int off) name ty) @ bs) = (ino, off, name, ty) # read_dirents bs"
proof -
  let ?nm = "map of_char name :: bytes"
  obtain k where pad: "pad8 (dirent ino (int off) name ty) =
      le_bytes 8 (int ino) @ le_bytes 8 (int off) @ le_bytes 2 (int (reclen name)) @ [ty] @ ?nm @ 0 # replicate k 0"
    by (auto simp: pad8_def dirent_def)
  have len: "length ?nm + k + 20 = reclen name"
    using arg_cong [OF pad, of length] by (simp add: length_record)
  have rl: "reclen name < 2 ^ 16" using assms(1) unfolding entry_ok_def reclen_def by simp linarith
  have nm: "takeWhile (\<lambda>b. b \<noteq> 0) (?nm @ 0 # replicate k 0) = ?nm" "map (\<lambda>b. char_of (unat b)) ?nm = name"
  proof -
    have "\<forall>b \<in> set ?nm. b \<noteq> 0" using assms(1) by (auto simp: entry_ok_def char_byte)
    then show "takeWhile (\<lambda>b. b \<noteq> 0) (?nm @ 0 # replicate k 0) = ?nm" by (subst takeWhile_append2) auto
    show "map (\<lambda>b. char_of (unat b)) ?nm = name" by (simp add: char_byte map_idI)
  qed
  have d: "drop 19 (pad8 (dirent ino (int off) name ty) @ bs) = (?nm @ 0 # replicate k 0) @ bs"
    "drop 16 (pad8 (dirent ino (int off) name ty) @ bs) = le_bytes 2 (int (reclen name)) @ ty # ?nm @ 0 # replicate k 0 @ bs"
    "(pad8 (dirent ino (int off) name ty) @ bs) ! 18 = ty"
    using pad by (simp_all add: nth_append)
  have rest: "drop (reclen name) (pad8 (dirent ino (int off) name ty) @ bs) = bs" by (simp add: length_record)
  have t: "take (reclen name - 19) ((?nm @ 0 # replicate k 0) @ bs) = ?nm @ 0 # replicate k 0"
  proof -
    have "reclen name - 19 = length (?nm @ 0 # replicate k 0)" using len by simp
    moreover have "take (length xs) (xs @ bs) = xs" for xs by simp
    ultimately show ?thesis by (simp only:)
  qed
  show ?thesis
    apply (subst read_dirents.simps)
    using d rest t nm len rl assms pad
    by (simp add: of_le_le_bytes entry_ok_def length_record Let_def)
qed

lemma read_records:
  "\<forall>e \<in> set es. entry_ok e \<Longrightarrow> off + length es \<le> 2 ^ 64 \<Longrightarrow> read_dirents (records (int off) es) = numbered off es"
proof (induction es arbitrary: off)
  case Nil
  show ?case by (subst read_dirents.simps) simp
next
  case (Cons e es)
  obtain ino name ty where e: "e = (ino, name, ty)" by (cases e)
  have "read_dirents (records (int (Suc off)) es) = numbered (Suc off) es" by (rule Cons.IH) (use Cons.prems in auto)
  then show ?case using Cons.prems e read_record [of ino name ty off] by (simp add: add.commute)
qed

text \<open>
  C22.  What a process reads back from a \<open>getdents64\<close> buffer is a prefix of the entries of the
  directory, in order and numbered from 1: no entry is torn, the buffer is never overrun, and the
  first entry left out is one that has no room.
\<close>

theorem getdents_roundtrip:
  assumes "\<forall>e \<in> set es. entry_ok e" and "length es < 2 ^ 64 - 1"
  shows "\<exists>n \<le> length es. read_dirents (dirents cap 1 es []) = numbered 1 (take n es) \<and>
    length (dirents cap 1 es []) \<le> cap \<and>
    (n < length es \<longrightarrow> cap < length (dirents cap 1 es []) + reclen (fst (snd (es ! n))))"
proof -
  obtain n where n: "n \<le> length es" "dirents cap 1 es [] = records 1 (take n es)" "length (records 1 (take n es)) \<le> cap"
    "n < length es \<longrightarrow> cap < length (records 1 (take n es)) + reclen (fst (snd (es ! n)))"
    using dirents_records [of "[]" cap es 1] by auto
  have "read_dirents (records (int 1) (take n es)) = numbered 1 (take n es)"
    by (rule read_records) (use assms n(1) in \<open>auto dest: in_set_takeD\<close>)
  then show ?thesis using n by auto
qed

text \<open>A buffer of 96 bytes has room for three entries.\<close>

theorem getdents_roundtrip_witness:
  "read_dirents (dirents 96 1 [(1, ''.'', 4), (1, ''..'', 4), (7, ''a'', 8)] []) =
    [(1, 1, ''.'', 4), (1, 2, ''..'', 4), (7, 3, ''a'', 8)]"
proof -
  let ?es = "[(1, ''.'', 4), (1, ''..'', 4), (7, ''a'', 8)] :: (nat \<times> string \<times> byte) list"
  have len: "length (dirents 96 1 ?es []) = 72"
    by (simp add: reclen_def length_pad8 length_dirent)
  obtain n where n: "n \<le> length ?es" "read_dirents (dirents 96 1 ?es []) = numbered 1 (take n ?es)"
    "n < length ?es \<longrightarrow> 96 < length (dirents 96 1 ?es []) + reclen (fst (snd (?es ! n)))"
    using getdents_roundtrip [of ?es 96] by (auto simp: entry_ok_def)
  have small: "reclen (fst (snd e)) = 24" if "e \<in> set ?es" for e using that by (auto simp: reclen_def)
  have "n = 3"
  proof (rule ccontr)
    assume "n \<noteq> 3"
    then have "n < length ?es" using n(1) by simp
    then show False using n(3) small [OF nth_mem] len by fastforce
  qed
  then show ?thesis using n(2) by simp
qed

text \<open>
  A buffer too small for the first entry gives the answer 0, which tells the process that the
  directory has no more entries.
\<close>

theorem small_buffer_ends_directory:
  assumes "entries (heap g h) (wrap_i32 (a0 args)) = Some (Virtual ops fl p)" and "a1 args \<noteq> 0"
    and "ops_getdents G ops (vfiles g) = (Inr ((ino, name, ty) # es), w)" and "nat (a2 args) < reclen name"
  shows "handle_getdents64 G args h g = (Inr (Value 0), g\<lparr>vfiles := w\<rparr>)"
  using assms
  by (simp add: handle_getdents64_def sbnd_def t_get_def fd_get_def s_files_def ptr_def Let_def sret_def)

end
