(* ===== verification/Fuse.thy ===== *)
theory Fuse
  imports Fs_Machine Os_Names
begin

text \<open>
  The FUSE server (\<open>cli/src/fuse.rs\<close>): the requests of the kernel as calls of a \<open>FileSystem\<close>
  trait object, with the table of open files, the translation of inode numbers for the root of
  a volume and the conversion of attributes.  A request gives the reply that is sent and the next state
  of the server; a Rust panic is the reply \<open>Crashed\<close>.  Of the vendored \<open>fuser\<close> crate only the
  buffer of directory replies is modelled.
\<close>

section \<open>The trait object\<close>

text \<open>
  The methods of the traits \<open>FileSystem\<close> and \<open>File\<close> the servers call, on a state \<open>'s\<close> and with
  open files \<open>'f\<close>.
\<close>

record ('s, 'f) file_system =
  fs_lookup :: "i64 \<Rightarrow> string \<Rightarrow> ('s, stats option) oper"
  fs_getattr :: "i64 \<Rightarrow> ('s, stats option) oper"
  fs_readlink :: "i64 \<Rightarrow> ('s, string option) oper"
  fs_readdir_plus :: "i64 \<Rightarrow> ('s, dir_entry list option) oper"
  fs_chmod :: "i64 \<Rightarrow> u32 \<Rightarrow> ('s, unit) oper"
  fs_chown :: "i64 \<Rightarrow> u32 option \<Rightarrow> u32 option \<Rightarrow> ('s, unit) oper"
  fs_utimens :: "i64 \<Rightarrow> time_change \<Rightarrow> time_change \<Rightarrow> ('s, unit) oper"
  fs_open_file :: "i64 \<Rightarrow> int \<Rightarrow> ('s, 'f) oper"
  fs_mkdir :: "i64 \<Rightarrow> string \<Rightarrow> u32 \<Rightarrow> u32 \<Rightarrow> u32 \<Rightarrow> ('s, stats) oper"
  fs_create_file :: "i64 \<Rightarrow> string \<Rightarrow> u32 \<Rightarrow> u32 \<Rightarrow> u32 \<Rightarrow> ('s, stats \<times> 'f) oper"
  fs_mknod :: "i64 \<Rightarrow> string \<Rightarrow> u32 \<Rightarrow> u64 \<Rightarrow> u32 \<Rightarrow> u32 \<Rightarrow> ('s, stats) oper"
  fs_make_symlink :: "i64 \<Rightarrow> string \<Rightarrow> string \<Rightarrow> u32 \<Rightarrow> u32 \<Rightarrow> ('s, stats) oper"
  fs_unlink :: "i64 \<Rightarrow> string \<Rightarrow> ('s, unit) oper"
  fs_rmdir :: "i64 \<Rightarrow> string \<Rightarrow> ('s, unit) oper"
  fs_link :: "i64 \<Rightarrow> i64 \<Rightarrow> string \<Rightarrow> ('s, stats) oper"
  fs_rename :: "i64 \<Rightarrow> string \<Rightarrow> i64 \<Rightarrow> string \<Rightarrow> ('s, unit) oper"
  fs_statfs :: "('s, filesystem_stats) oper"
  fs_forget :: "i64 \<Rightarrow> u64 \<Rightarrow> 's \<Rightarrow> 's"
  file_pread :: "'f \<Rightarrow> u64 \<Rightarrow> u64 \<Rightarrow> ('s, bytes) oper"
  file_pwrite :: "'f \<Rightarrow> u64 \<Rightarrow> bytes \<Rightarrow> ('s, unit) oper"
  file_truncate :: "'f \<Rightarrow> u64 \<Rightarrow> ('s, unit) oper"
  file_fsync :: "'f \<Rightarrow> ('s, unit) oper"
  file_fstat :: "'f \<Rightarrow> ('s, stats) oper"

text \<open>
  A SecAFS as this trait object.  Each method has a clock reading of its own; a request calls a
  method that reads the clock at most once.
\<close>

definition secafs_fs ::
  "'l lru_ops \<Rightarrow> (string \<Rightarrow> 'k :: linorder) \<Rightarrow> pg_column driver \<Rightarrow> nat \<Rightarrow> (nat \<Rightarrow> clock) \<Rightarrow>
   ('l fs_state, file_handle) file_system" where
  "secafs_fs L coll D cs clk =
    \<lparr>fs_lookup = lookup L, fs_getattr = getattr, fs_readlink = readlink, fs_readdir_plus = readdir_plus coll,
     fs_chmod = chmod (clk 0), fs_chown = chown (clk 1), fs_utimens = utimens (clk 2) (clk 3) (clk 4),
     fs_open_file = (\<lambda>ino flags. fs_open cs ino), fs_mkdir = mkdir L (clk 5),
     fs_create_file = create_file L cs (clk 6), fs_mknod = mknod L (clk 7), fs_make_symlink = symlink L (clk 8),
     fs_unlink = unlink L (clk 9), fs_rmdir = rmdir L (clk 10), fs_link = link L (clk 11),
     fs_rename = rename L (clk 12) (clk 13), fs_statfs = statfs D, fs_forget = (\<lambda>ino n c. c),
     file_pread = pread, file_pwrite = pwrite (clk 14), file_truncate = File_Handle.truncate (clk 15), file_fsync = fsync,
     file_fstat = fstat\<rparr>"

section \<open>The server\<close>

record ('s, 'f) server =
  store :: 's
  open_files :: "u64 \<Rightarrow> 'f option"
  next_fh :: u64
  root_ino :: i64

definition fuse_new :: "'s \<Rightarrow> i64 \<Rightarrow> ('s, 'f) server" where
  "fuse_new s root = \<lparr>store = s, open_files = Map.empty, next_fh = 1, root_ino = root\<rparr>"

definition kernel_to_db :: "i64 \<Rightarrow> u64 \<Rightarrow> i64" where
  "kernel_to_db root kernel_ino = (if kernel_ino = 1 then root else as_i64 kernel_ino)"

definition db_to_kernel :: "i64 \<Rightarrow> i64 \<Rightarrow> u64" where
  "db_to_kernel root db_ino = (if db_ino = root then 1 else as_u64 db_ino)"

definition S_IFIFO :: u32 where "S_IFIFO = 0x1000"
definition S_IFCHR :: u32 where "S_IFCHR = 0x2000"
definition S_IFBLK :: u32 where "S_IFBLK = 0x6000"
definition S_IFSOCK :: u32 where "S_IFSOCK = 0xC000"

datatype file_type = NamedPipe | CharDevice | BlockDevice | Directory | RegularFile | Symlink | Socket

text \<open>The fields of \<open>FileAttr\<close> that depend on the file; times are seconds and nanoseconds.\<close>

record file_attr =
  at_ino :: u64
  at_size :: u64
  at_blocks :: u64
  at_atime :: "nat \<times> nat"
  at_mtime :: "nat \<times> nat"
  at_ctime :: "nat \<times> nat"
  at_kind :: file_type
  at_perm :: u32
  at_nlink :: u32
  at_uid :: u32
  at_gid :: u32
  at_rdev :: u32

text \<open>
  \<open>UNIX_EPOCH + Duration::new(secs as u64, nsec)\<close>: whole seconds among the nanoseconds are carried
  over, and the sum panics beyond the seconds an \<open>i64\<close> holds.
\<close>

definition system_time :: "i64 \<Rightarrow> u32 \<Rightarrow> (nat \<times> nat) option" where
  "system_time secs nsec =
    (let s = as_u64 secs + unat nsec div 10 ^ 9 in
     if s < 2 ^ 63 then Some (s, unat nsec mod 10 ^ 9) else None)"

definition kind_of_mode :: "u32 \<Rightarrow> file_type" where
  "kind_of_mode mode =
    (let file_type = mode AND S_IFMT in
     if file_type = S_IFDIR then Directory
     else if file_type = S_IFLNK then Symlink
     else if file_type = S_IFIFO then NamedPipe
     else if file_type = S_IFCHR then CharDevice
     else if file_type = S_IFBLK then BlockDevice
     else if file_type = S_IFSOCK then Socket
     else RegularFile)"

definition fillattr :: "stats \<Rightarrow> file_attr option" where
  "fillattr st =
    (let sz = (if st_mode st AND S_IFMT = S_IFDIR then 4096 else as_u64 (st_size st)) in
     case (system_time (st_atime st) (st_atime_nsec st), system_time (st_mtime st) (st_mtime_nsec st),
           system_time (st_ctime st) (st_ctime_nsec st)) of
       (Some a, Some m, Some c) \<Rightarrow>
         Some \<lparr>at_ino = as_u64 (st_ino st), at_size = sz, at_blocks = (sz + 511) div 512, at_atime = a, at_mtime = m,
               at_ctime = c, at_kind = kind_of_mode (st_mode st), at_perm = st_mode st AND PERM_BITS,
               at_nlink = st_nlink st, at_uid = st_uid st, at_gid = st_gid st, at_rdev = of_nat (st_rdev st)\<rparr>
     | _ \<Rightarrow> None)"

definition fillattr_kernel :: "i64 \<Rightarrow> stats \<Rightarrow> file_attr option" where
  "fillattr_kernel root st = map_option (\<lambda>a. a\<lparr>at_ino := db_to_kernel root (st_ino st)\<rparr>) (fillattr st)"

section \<open>Replies\<close>

datatype reply =
    ReplyError int
  | ReplyEntry file_attr
  | ReplyAttr file_attr
  | ReplyData bytes
  | ReplyOk
  | ReplyCreated file_attr u64
  | ReplyOpened u64
  | ReplyWritten u32
  | ReplyStatfs u64 u64 u64 u64 u64
  | ReplyDirectory "(u64 \<times> i64 \<times> file_type \<times> string) list"
  | ReplyDirectoryPlus "(u64 \<times> i64 \<times> string \<times> file_attr) list"
  | NoReply
  | Crashed

type_synonym ('s, 'f) request = "('s, 'f) server \<Rightarrow> reply \<times> ('s, 'f) server"

definition error_to_errno :: "error \<Rightarrow> int" where
  "error_to_errno e = (case e of Fs fs_err \<Rightarrow> to_errno fs_err | Postgres \<Rightarrow> EAGAIN | _ \<Rightarrow> EIO)"

definition answer :: "reply \<Rightarrow> ('s, 'f) request" where
  "answer r srv = (r, srv)"

text \<open>\<open>runtime.block_on\<close> of a call, and what is done with its result; a panic leaves the request.\<close>

definition block_on :: "('s, 'a) oper \<Rightarrow> (error + 'a \<Rightarrow> ('s, 'f) request) \<Rightarrow> ('s, 'f) request" where
  "block_on m k srv =
    (case m (store srv) of
       (r, s) \<Rightarrow> (case r of
           Inl e \<Rightarrow> if e = Panic then (Crashed, srv\<lparr>store := s\<rparr>) else k r (srv\<lparr>store := s\<rparr>)
         | Inr x \<Rightarrow> k r (srv\<lparr>store := s\<rparr>)))"

definition on_ok :: "('s, 'a) oper \<Rightarrow> ('a \<Rightarrow> ('s, 'f) request) \<Rightarrow> ('s, 'f) request" where
  "on_ok m k = block_on m (\<lambda>r. case r of Inl e \<Rightarrow> answer (ReplyError (error_to_errno e)) | Inr x \<Rightarrow> k x)"

definition with_attr :: "stats \<Rightarrow> (file_attr \<Rightarrow> ('s, 'f) request) \<Rightarrow> ('s, 'f) request" where
  "with_attr st k srv = (case fillattr_kernel (root_ino srv) st of None \<Rightarrow> (Crashed, srv) | Some a \<Rightarrow> k a srv)"

definition or_enoent :: "('a \<Rightarrow> ('s, 'f) request) \<Rightarrow> 'a option \<Rightarrow> ('s, 'f) request" where
  "or_enoent k r = (case r of None \<Rightarrow> answer (ReplyError ENOENT) | Some x \<Rightarrow> k x)"

definition text_name :: "string \<Rightarrow> ('s, 'f) request \<Rightarrow> ('s, 'f) request" where
  "text_name name k = (if utf8 name then k else answer (ReplyError EINVAL))"

text \<open>The DB number of an inode of the request.\<close>

definition at_db :: "u64 \<Rightarrow> (i64 \<Rightarrow> ('s, 'f) request) \<Rightarrow> ('s, 'f) request" where
  "at_db ino k srv = k (kernel_to_db (root_ino srv) ino) srv"

definition with_file :: "u64 \<Rightarrow> ('f \<Rightarrow> ('s, 'f) request) \<Rightarrow> ('s, 'f) request" where
  "with_file fh k srv = (case open_files srv fh of None \<Rightarrow> (ReplyError EBADF, srv) | Some f \<Rightarrow> k f srv)"

text \<open>\<open>alloc_fh\<close> and the insertion of the open file.\<close>

definition add_file :: "'f \<Rightarrow> (u64 \<Rightarrow> ('s, 'f) request) \<Rightarrow> ('s, 'f) request" where
  "add_file f k srv =
    (let fh = next_fh srv in
     k fh (srv\<lparr>next_fh := u64_add fh 1, open_files := (open_files srv)(fh \<mapsto> f)\<rparr>))"

section \<open>Names and attributes\<close>

definition fuse_lookup :: "('s, 'f) file_system \<Rightarrow> u64 \<Rightarrow> string \<Rightarrow> ('s, 'f) request" where
  "fuse_lookup F parent name =
    text_name name (at_db parent (\<lambda>db_parent.
      on_ok (fs_lookup F db_parent name) (or_enoent (\<lambda>st. with_attr st (\<lambda>attr. answer (ReplyEntry attr))))))"

definition fuse_getattr :: "('s, 'f) file_system \<Rightarrow> u64 \<Rightarrow> ('s, 'f) request" where
  "fuse_getattr F ino =
    at_db ino (\<lambda>db_ino.
      on_ok (fs_getattr F db_ino) (or_enoent (\<lambda>st. with_attr st (\<lambda>attr. answer (ReplyAttr attr)))))"

definition fuse_readlink :: "('s, 'f) file_system \<Rightarrow> u64 \<Rightarrow> ('s, 'f) request" where
  "fuse_readlink F ino =
    at_db ino (\<lambda>db_ino.
      on_ok (fs_readlink F db_ino) (or_enoent (\<lambda>target. answer (ReplyData (map (\<lambda>c. of_char c) target)))))"

text \<open>A \<open>TimeOrNow\<close> of the request; a \<open>SystemTime\<close> is seconds from the epoch and nanoseconds.\<close>

datatype time_or_now = SpecificTime int u32 | RightNow

definition time_change_of :: "time_or_now option \<Rightarrow> time_change" where
  "time_change_of t =
    (case t of
       Some (SpecificTime secs nsec) \<Rightarrow> if secs < 0 then SetTime 0 0 else SetTime secs nsec
     | Some RightNow \<Rightarrow> Now
     | None \<Rightarrow> Omit)"

definition O_RDWR :: int where "O_RDWR = 2"

definition fuse_setattr ::
  "('s, 'f) file_system \<Rightarrow> u64 \<Rightarrow> u32 option \<Rightarrow> u32 option \<Rightarrow> u32 option \<Rightarrow> u64 option \<Rightarrow>
   time_or_now option \<Rightarrow> time_or_now option \<Rightarrow> u64 option \<Rightarrow> ('s, 'f) request" where
  "fuse_setattr F ino mode uid gid sz atime mtime fh =
    at_db ino (\<lambda>db_ino.
    let reply_attr =
          on_ok (fs_getattr F db_ino) (or_enoent (\<lambda>st. with_attr st (\<lambda>attr. answer (ReplyAttr attr))));
        set_times =
          (if atime \<noteq> None \<or> mtime \<noteq> None then
             on_ok (fs_utimens F db_ino (time_change_of atime) (time_change_of mtime)) (\<lambda>_. reply_attr)
           else reply_attr);
        set_size =
          (case sz of
             None \<Rightarrow> set_times
           | Some new_size \<Rightarrow>
               (case fh of
                  Some h \<Rightarrow> with_file h (\<lambda>f. on_ok (file_truncate F f new_size) (\<lambda>_. set_times))
                | None \<Rightarrow>
                    on_ok (bnd (fs_open_file F db_ino O_RDWR) (\<lambda>f. file_truncate F f new_size)) (\<lambda>_. set_times)));
        set_owner =
          (if uid \<noteq> None \<or> gid \<noteq> None then on_ok (fs_chown F db_ino uid gid) (\<lambda>_. set_size) else set_size)
    in
    (case mode of None \<Rightarrow> set_owner | Some new_mode \<Rightarrow> on_ok (fs_chmod F db_ino new_mode) (\<lambda>_. set_owner)))"

section \<open>Directories\<close>

text \<open>\<open>EntListBuf::push\<close>: an entry is its header and its name, padded to eight bytes.\<close>

definition DIRENT_SIZE :: nat where "DIRENT_SIZE = 24"
definition DIRENTPLUS_SIZE :: nat where "DIRENTPLUS_SIZE = 152"

definition ent_size :: "nat \<Rightarrow> string \<Rightarrow> nat" where
  "ent_size header name = (header + length name + 7) div 8 * 8"

text \<open>The loop of \<open>readdir\<close>: entries are added until one has no room.\<close>

fun push_all :: "('a \<Rightarrow> nat) \<Rightarrow> nat \<Rightarrow> nat \<Rightarrow> 'a list \<Rightarrow> 'a list" where
  "push_all sz cap used [] = []"
| "push_all sz cap used (x # xs) =
    (if used + sz x > cap then [] else x # push_all sz cap (used + sz x) xs)"

definition dir_kind :: "stats \<Rightarrow> file_type" where
  "dir_kind st = (if is_directory st then Directory else if is_symlink st then Symlink else RegularFile)"

definition dir_items :: "i64 \<Rightarrow> u64 \<Rightarrow> dir_entry list \<Rightarrow> (u64 \<times> i64 \<times> file_type \<times> string) list" where
  "dir_items root ino entries =
    map (\<lambda>(i, ino, kind, name). (ino, int i + 1, kind, name))
      (enumerate 0 ((ino, Directory, ''.'') # (1, Directory, ''..'') #
        map (\<lambda>e. (db_to_kernel root (st_ino (de_stats e)), dir_kind (de_stats e), de_name e)) entries))"

definition fuse_readdir :: "('s, 'f) file_system \<Rightarrow> nat \<Rightarrow> u64 \<Rightarrow> i64 \<Rightarrow> ('s, 'f) request" where
  "fuse_readdir F cap ino offset =
    at_db ino (\<lambda>db_ino.
      on_ok (fs_readdir_plus F db_ino) (or_enoent (\<lambda>entries srv.
        (ReplyDirectory (push_all (\<lambda>(_, _, _, name). ent_size DIRENT_SIZE name) cap 0
           (drop (as_u64 offset) (dir_items (root_ino srv) ino entries))), srv))))"

text \<open>
  The entries of \<open>readdirplus\<close> from \<open>offset\<close> on; \<open>counter\<close> is \<open>offset_counter\<close>.  An entry without
  attributes (\<open>.\<close> or \<open>..\<close>) is left out.
\<close>

fun push_plus ::
  "i64 \<Rightarrow> nat \<Rightarrow> i64 \<Rightarrow> i64 \<Rightarrow> nat \<Rightarrow> (u64 \<times> string \<times> stats option) list \<Rightarrow>
   (u64 \<times> i64 \<times> string \<times> file_attr) list option" where
  "push_plus root cap offset counter used [] = Some []"
| "push_plus root cap offset counter used ((ino, name, st) # es) =
    (if offset \<le> counter then
       (case st of
          None \<Rightarrow> push_plus root cap offset (counter + 1) used es
        | Some stats \<Rightarrow>
            (case fillattr_kernel root stats of
               None \<Rightarrow> None
             | Some attr \<Rightarrow>
                 let sz = ent_size DIRENTPLUS_SIZE name in
                 if used + sz > cap then Some []
                 else map_option (\<lambda>xs. (ino, counter + 1, name, attr) # xs)
                        (push_plus root cap offset (counter + 1) (used + sz) es)))
     else push_plus root cap offset (counter + 1) used es)"

definition fuse_readdirplus :: "('s, 'f) file_system \<Rightarrow> nat \<Rightarrow> u64 \<Rightarrow> i64 \<Rightarrow> ('s, 'f) request" where
  "fuse_readdirplus F cap ino offset =
    at_db ino (\<lambda>db_ino.
      on_ok (fs_readdir_plus F db_ino) (or_enoent (\<lambda>entries.
      block_on (fs_getattr F db_ino) (\<lambda>r.
      let dir_stats = (case r of Inl e \<Rightarrow> None | Inr st \<Rightarrow> st);
          finish = (\<lambda>parent_stats srv.
            (case push_plus (root_ino srv) cap offset 0 0
                    ((ino, ''.'', dir_stats) # (1, ''..'', parent_stats) #
                     map (\<lambda>e. (db_to_kernel (root_ino srv) (st_ino (de_stats e)), de_name e, Some (de_stats e))) entries) of
               None \<Rightarrow> Crashed
             | Some items \<Rightarrow> ReplyDirectoryPlus items, srv))
      in
      (\<lambda>srv.
        if db_ino = root_ino srv then finish dir_stats srv
        else
          block_on (fs_getattr F (root_ino srv)) (\<lambda>p.
            finish (case p of Inl e \<Rightarrow> None | Inr st \<Rightarrow> st)) srv)))))"

section \<open>Creation and removal\<close>

definition fuse_mknod ::
  "('s, 'f) file_system \<Rightarrow> u32 \<Rightarrow> u32 \<Rightarrow> u64 \<Rightarrow> string \<Rightarrow> u32 \<Rightarrow> u32 \<Rightarrow> ('s, 'f) request" where
  "fuse_mknod F uid gid parent name mode rdev =
    text_name name (at_db parent (\<lambda>db_parent.
      on_ok (fs_mknod F db_parent name mode (unat rdev) uid gid) (\<lambda>st. with_attr st (\<lambda>attr. answer (ReplyEntry attr)))))"

definition fuse_mkdir ::
  "('s, 'f) file_system \<Rightarrow> u32 \<Rightarrow> u32 \<Rightarrow> u64 \<Rightarrow> string \<Rightarrow> u32 \<Rightarrow> ('s, 'f) request" where
  "fuse_mkdir F uid gid parent name mode =
    text_name name (at_db parent (\<lambda>db_parent.
      on_ok (fs_mkdir F db_parent name mode uid gid) (\<lambda>st. with_attr st (\<lambda>attr. answer (ReplyEntry attr)))))"

definition fuse_rmdir :: "('s, 'f) file_system \<Rightarrow> u64 \<Rightarrow> string \<Rightarrow> ('s, 'f) request" where
  "fuse_rmdir F parent name =
    text_name name (at_db parent (\<lambda>db_parent. on_ok (fs_rmdir F db_parent name) (\<lambda>_. answer ReplyOk)))"

definition fuse_create ::
  "('s, 'f) file_system \<Rightarrow> u32 \<Rightarrow> u32 \<Rightarrow> u64 \<Rightarrow> string \<Rightarrow> u32 \<Rightarrow> ('s, 'f) request" where
  "fuse_create F uid gid parent name mode =
    text_name name (at_db parent (\<lambda>db_parent.
      on_ok (fs_create_file F db_parent name mode uid gid) (\<lambda>(st, f).
        with_attr st (\<lambda>attr. add_file f (\<lambda>fh. answer (ReplyCreated attr fh))))))"

definition fuse_symlink ::
  "('s, 'f) file_system \<Rightarrow> u32 \<Rightarrow> u32 \<Rightarrow> u64 \<Rightarrow> string \<Rightarrow> string \<Rightarrow> ('s, 'f) request" where
  "fuse_symlink F uid gid parent link_name target =
    text_name link_name (text_name target (at_db parent (\<lambda>db_parent.
      on_ok (fs_make_symlink F db_parent link_name target uid gid) (\<lambda>st.
        with_attr st (\<lambda>attr. answer (ReplyEntry attr))))))"

definition fuse_link :: "('s, 'f) file_system \<Rightarrow> u64 \<Rightarrow> u64 \<Rightarrow> string \<Rightarrow> ('s, 'f) request" where
  "fuse_link F ino newparent newname =
    text_name newname (at_db ino (\<lambda>db_ino. at_db newparent (\<lambda>db_newparent.
      on_ok (fs_link F db_ino db_newparent newname) (\<lambda>st. with_attr st (\<lambda>attr. answer (ReplyEntry attr))))))"

definition fuse_unlink :: "('s, 'f) file_system \<Rightarrow> u64 \<Rightarrow> string \<Rightarrow> ('s, 'f) request" where
  "fuse_unlink F parent name =
    text_name name (at_db parent (\<lambda>db_parent. on_ok (fs_unlink F db_parent name) (\<lambda>_. answer ReplyOk)))"

text \<open>The flags of a rename are not used.\<close>

definition fuse_rename ::
  "('s, 'f) file_system \<Rightarrow> u64 \<Rightarrow> string \<Rightarrow> u64 \<Rightarrow> string \<Rightarrow> u32 \<Rightarrow> ('s, 'f) request" where
  "fuse_rename F parent name newparent newname flags =
    text_name name (text_name newname (at_db parent (\<lambda>db_parent. at_db newparent (\<lambda>db_newparent.
      on_ok (fs_rename F db_parent name db_newparent newname) (\<lambda>_. answer ReplyOk)))))"

section \<open>Open files\<close>

definition fuse_open :: "('s, 'f) file_system \<Rightarrow> u64 \<Rightarrow> int \<Rightarrow> ('s, 'f) request" where
  "fuse_open F ino flags =
    at_db ino (\<lambda>db_ino.
      on_ok (fs_open_file F db_ino flags) (\<lambda>f. add_file f (\<lambda>fh. answer (ReplyOpened fh))))"

definition fuse_read :: "('s, 'f) file_system \<Rightarrow> u64 \<Rightarrow> i64 \<Rightarrow> u32 \<Rightarrow> ('s, 'f) request" where
  "fuse_read F fh offset sz =
    with_file fh (\<lambda>f. on_ok (file_pread F f (as_u64 offset) (unat sz)) (\<lambda>data. answer (ReplyData data)))"

definition fuse_write :: "('s, 'f) file_system \<Rightarrow> u64 \<Rightarrow> i64 \<Rightarrow> bytes \<Rightarrow> ('s, 'f) request" where
  "fuse_write F fh offset data =
    with_file fh (\<lambda>f. on_ok (file_pwrite F f (as_u64 offset) data) (\<lambda>_.
      answer (ReplyWritten (of_nat (length data)))))"

definition fuse_flush :: "u64 \<Rightarrow> ('s, 'f) request" where
  "fuse_flush fh = with_file fh (\<lambda>_. answer ReplyOk)"

definition fuse_fsync :: "('s, 'f) file_system \<Rightarrow> u64 \<Rightarrow> ('s, 'f) request" where
  "fuse_fsync F fh = with_file fh (\<lambda>f. on_ok (file_fsync F f) (\<lambda>_. answer ReplyOk))"

definition fuse_release :: "u64 \<Rightarrow> ('s, 'f) request" where
  "fuse_release fh srv = (ReplyOk, srv\<lparr>open_files := (open_files srv)(fh := None)\<rparr>)"

definition BLOCK_SIZE :: nat where "BLOCK_SIZE = 4096"
definition TOTAL_INODES :: nat where "TOTAL_INODES = 1000000"
definition TOTAL_BLOCKS :: nat where "TOTAL_BLOCKS = 1024 * 1024 * 1024"

definition fuse_statfs :: "('s, 'f) file_system \<Rightarrow> ('s, 'f) request" where
  "fuse_statfs F =
    block_on (fs_statfs F) (\<lambda>r.
      let (used_blocks, used_inodes) =
            (case r of
               Inr st \<Rightarrow> ((bytes_used st + (BLOCK_SIZE - 1)) div BLOCK_SIZE, inodes st)
             | Inl e \<Rightarrow> (0, 1));
          free_blocks = TOTAL_BLOCKS - used_blocks
      in answer (ReplyStatfs TOTAL_BLOCKS free_blocks free_blocks TOTAL_INODES (TOTAL_INODES - used_inodes)))"

definition fuse_forget :: "('s, 'f) file_system \<Rightarrow> u64 \<Rightarrow> u64 \<Rightarrow> ('s, 'f) request" where
  "fuse_forget F ino nlookup =
    at_db ino (\<lambda>db_ino srv. (NoReply, srv\<lparr>store := fs_forget F db_ino nlookup (store srv)\<rparr>))"

definition fuse_batch_forget :: "('s, 'f) file_system \<Rightarrow> (u64 \<times> u64) list \<Rightarrow> ('s, 'f) request" where
  "fuse_batch_forget F nodes srv =
    (NoReply, srv\<lparr>store := fold (\<lambda>(ino, nlookup). fs_forget F (kernel_to_db (root_ino srv) ino) nlookup) nodes (store srv)\<rparr>)"

end
