(* ===== verification/Confined.thy ===== *)
theory Confined
  imports Fuse
begin

text \<open>
  Confinement of the SecAFS operations to a set of inodes.  When the numbers a caller passes lie
  in a set that is closed under directory entries and holds all future numbers, an operation
  changes nothing outside the set and returns numbers of the set only -- whatever it returns,
  and whichever statements fail.
\<close>

section \<open>The serial only grows\<close>

text \<open>The serial of \<open>fs_inode\<close> has not run out: its next number is a BIGINT.\<close>

definition alive :: "'z conn_scheme \<Rightarrow> bool" where
  "alive c \<longleftrightarrow> seq_inode c \<le> 2 ^ 63"

abbreviation grows :: "('z conn_scheme, 'a) oper \<Rightarrow> bool" where
  "grows m \<equiv> preserves (\<lambda>c. \<not> alive c) m"

named_theorems grow \<open>operations under which the serial grows\<close>

lemmas [grow] = preserves_ret preserves_throw preserves_bnd preserves_sq preserves_if preserves_case_option
  preserves_case_sum preserves_case_prod preserves_ok_or preserves_try

lemma grows_stmt: "(\<And>c. seq_inode c \<le> seq_inode (snd (f c))) \<Longrightarrow> grows (stmt f)"
proof (rule preservesI)
  fix c :: "'a conn_scheme"
  assume f: "\<And>c. seq_inode c \<le> seq_inode (snd (f c))" and c: "\<not> alive c"
  have "seq_inode (abort_txn x) = seq_inode x" for x :: "'a conn_scheme" by (simp add: abort_txn_def split: txn.split)
  then have "seq_inode c \<le> seq_inode (snd (stmt f c))"
    using f [of "c\<lparr>faults := tl (faults c)\<rparr>"] by (auto simp: stmt_def split: txn.split list.split bool.split prod.splits sum.split)
  then show "\<not> alive (snd (stmt f c))" using c by (simp add: alive_def)
qed

lemma grows_writes:
  "seq_inode (snd (t_insert get upd updu key ok r c)) = seq_inode c"
  "seq_inode (snd (t_update get upd updu key ok' p f c)) = seq_inode c"
  "seq_inode (snd (t_delete get upd updu key p c)) = seq_inode c"
  by (simp_all add: t_insert_def t_update_def t_delete_def Let_def journalled_write_def)

lemma grows_statements [grow]:
  "grows (query q)" "grows (insert_inode mk)" "grows (update_inode i f)" "grows (delete_inodes p)"
  "grows (insert_dentry n a b)" "grows (update_dentries q' g)" "grows (delete_dentries q')"
  "grows (update_data r h)" "grows (delete_data r)" "grows (upsert_data b')" "grows (insert_symlink l)"
  "grows (delete_symlinks s)" "grows begin_txn"
  unfolding query_def insert_inode_def update_inode_def delete_inodes_def insert_dentry_def update_dentries_def
    delete_dentries_def update_data_def delete_data_def upsert_data_def insert_symlink_def delete_symlinks_def begin_txn_def
  by (intro grows_stmt, auto simp: grows_writes Let_def split_beta split: txn.split sum.split)+

lemma grows_session [grow]:
  "grows get_connection" "grows commit_txn" "grows rollback_txn" "grows (clock_now now)"
  "grows (cache_insert L p n i)" "grows (cache_remove L p n)"
  by (auto simp: preserves_def alive_def get_connection_def commit_txn_def rollback_txn_def clock_now_def ok_or_def
      end_undone_def end_kept_def abort_txn_def cache_insert_def cache_remove_def Let_def
      split: list.split bool.split txn.split option.split)

lemma grows_transact [grow]: "grows m \<Longrightarrow> grows (transact m)"
  unfolding transact_def by (intro grow)

lemma grows_time [grow]: "grows (resolve_time now t)"
  by (cases t; cases now) (simp_all add: preserves_def)

lemma grows_reads [grow]:
  "grows (lookup_child p n)" "grows (get_link_count i)" "grows (getattr_with_conn i)" "grows (select_mode i)"
  "grows (select_ino i)" "grows (count_children i)" "grows (select_size i)"
  unfolding lookup_child_def get_link_count_def getattr_with_conn_def select_mode_def select_ino_def count_children_def
    select_size_def by (intro grow)+

lemma grows_release [grow]: "grows (release_inode i)"
  unfolding release_inode_def by (intro grow)

lemma grows_rename_parts [grow]:
  "grows (replace_target a st q k)" "grows (rename_tail b i st p q)" "grows (rename_body a b i st p n q k)"
  unfolding rename_body_def replace_target_def rename_tail_def by (intro grow)+

lemma grows_write_data [grow]: "grows (write_data_at_offset f off data w :: ('z conn_scheme, unit) oper)"
proof (induction f off data w rule: write_data_at_offset.induct)
  case (1 f off data w)
  show ?case
  proof (cases "w < length data \<and> f_chunk_size f \<noteq> 0")
    case True
    then have "grows (write_data_at_offset f off data
        (w + min (f_chunk_size f - u64_add off w mod f_chunk_size f) (length data - w)) :: ('z conn_scheme, unit) oper)"
      using 1 by auto
    then show ?thesis
      by (subst write_data_at_offset.simps) (unfold Let_def, intro grow)
  next
    case False
    then show ?thesis by (subst write_data_at_offset.simps) (auto intro: grow)
  qed
qed

lemma grows_file_parts [grow]: "grows (truncate_chunks f a b)" "grows (truncate_body now f a b)"
  unfolding truncate_body_def truncate_chunks_def Let_def by (intro grow)+

section \<open>What an operation keeps and returns\<close>

text \<open>
  \<open>yields I m Q\<close>: unless the serial runs out, \<open>m\<close> keeps \<open>I\<close>, and a value it returns satisfies \<open>Q\<close>.
  The rules of the collections \<open>walk\<close> and \<open>yield\<close> follow the structure of an operation.
\<close>

definition yields :: "('z conn_scheme \<Rightarrow> bool) \<Rightarrow> ('z conn_scheme, 'a) oper \<Rightarrow> ('a \<Rightarrow> bool) \<Rightarrow> bool" where
  "yields I m Q \<longleftrightarrow> (\<forall>s. I s \<longrightarrow> alive (snd (m s)) \<longrightarrow> I (snd (m s)) \<and> (\<forall>x. fst (m s) = Inr x \<longrightarrow> Q x))"

named_theorems yield \<open>rules for \<open>yields\<close>\<close>

lemma yieldsI: "(\<And>s. I s \<Longrightarrow> alive (snd (m s)) \<Longrightarrow> I (snd (m s)) \<and> (\<forall>x. fst (m s) = Inr x \<longrightarrow> Q x)) \<Longrightarrow> yields I m Q"
  by (simp add: yields_def)

lemma yieldsD: "yields I m Q \<Longrightarrow> I s \<Longrightarrow> m s = (r, s') \<Longrightarrow> alive s' \<Longrightarrow> I s' \<and> (\<forall>x. r = Inr x \<longrightarrow> Q x)"
  by (force simp: yields_def)

lemma yields_ret: "Q x \<Longrightarrow> yields I (ret x) Q"
  by (simp add: yields_def)

lemma yields_throw [yield]: "yields I (throw e) Q"
  by (simp add: yields_def)

lemma yields_bnd:
  assumes "yields I m R" and "\<And>x. R x \<Longrightarrow> yields I (f x) Q" and "\<And>x. grows (f x)"
  shows "yields I (bnd m f) Q"
proof (rule yieldsI)
  fix s
  assume "I s" and alive: "alive (snd (bnd m f s))"
  obtain r s' where m: "m s = (r, s')" by fastforce
  show "I (snd (bnd m f s)) \<and> (\<forall>x. fst (bnd m f s) = Inr x \<longrightarrow> Q x)"
  proof (cases r)
    case (Inl e)
    then show ?thesis using yieldsD [OF assms(1) \<open>I s\<close> m] alive m by simp
  next
    case (Inr x)
    then have "alive s'" using alive m preservesD [OF assms(3) [of x], of s'] by auto
    then have "I s'" "R x" using yieldsD [OF assms(1) \<open>I s\<close> m] Inr by auto
    then show ?thesis
      using alive m Inr yieldsD [OF assms(2) [OF \<open>R x\<close>] \<open>I s'\<close>, of "fst (f x s')" "snd (f x s')"] by simp
  qed
qed

lemma yields_sq: "yields I m (\<lambda>_. True) \<Longrightarrow> yields I n Q \<Longrightarrow> grows n \<Longrightarrow> yields I (sq m n) Q"
  unfolding sq_def by (rule yields_bnd)

lemma yields_if [yield]: "(b \<Longrightarrow> yields I m Q) \<Longrightarrow> (\<not> b \<Longrightarrow> yields I n Q) \<Longrightarrow> yields I (if b then m else n) Q"
  by simp

lemma yields_option [yield]:
  "(v = None \<Longrightarrow> yields I m Q) \<Longrightarrow> (\<And>x. v = Some x \<Longrightarrow> yields I (f x) Q) \<Longrightarrow>
    yields I (case v of None \<Rightarrow> m | Some x \<Rightarrow> f x) Q"
  by (cases v) auto

lemma yields_prod [yield]: "(\<And>x y. v = (x, y) \<Longrightarrow> yields I (f x y) Q) \<Longrightarrow> yields I (case v of (x, y) \<Rightarrow> f x y) Q"
  by (cases v) auto

lemma yields_ok_or: "(\<And>x. v = Some x \<Longrightarrow> Q x) \<Longrightarrow> yields I (ok_or e v) Q"
  by (cases v) (auto simp: ok_or_def yields_def)

lemma yields_clock [yield]: "yields I (clock_now now) (\<lambda>_. True)"
  unfolding clock_now_def by (rule yields_ok_or) simp

lemma yields_try: "yields I m Q \<Longrightarrow> yields I (try_op m) (\<lambda>r. \<forall>x. r = Inr x \<longrightarrow> Q x)"
  by (auto simp: yields_def try_op_def split: prod.split)

section \<open>The invariant\<close>

definition closed_in :: "i64 set \<Rightarrow> tables \<Rightarrow> bool" where
  "closed_in S t \<longleftrightarrow> (\<forall>d \<in> set (fs_dentry t). d_parent d \<in> S \<longrightarrow> d_ino d \<in> S)"

definition outside :: "i64 set \<Rightarrow> tables \<Rightarrow> inode_row list \<times> dentry_row list \<times> data_row list \<times> symlink_row list" where
  "outside S t =
    (filter (\<lambda>r. i_ino r \<notin> S) (fs_inode t), filter (\<lambda>d. d_parent d \<notin> S) (fs_dentry t),
     filter (\<lambda>b. b_ino b \<notin> S) (fs_data t), filter (\<lambda>l. l_ino l \<notin> S) (fs_symlink t))"

definition confined ::
  "i64 set \<Rightarrow> inode_row list \<times> dentry_row list \<times> data_row list \<times> symlink_row list \<Rightarrow> 'z conn_scheme \<Rightarrow> bool" where
  "confined S X c \<longleftrightarrow>
    closed_in S (tabs c) \<and> outside S (tabs c) = X \<and> closed_in S (committed c) \<and> outside S (committed c) = X \<and>
    {seq_inode c..<2 ^ 63} \<subseteq> S"

lemma confinedD:
  assumes "confined S X c"
  shows "closed_in S (tabs c)" "outside S (tabs c) = X" "closed_in S (committed c)" "outside S (committed c) = X"
    "{seq_inode c..<2 ^ 63} \<subseteq> S"
  using assms by (auto simp: confined_def)

text \<open>Only the tables, the committed tables and the serial matter.\<close>

lemma confined_sel:
  fixes c :: "'z conn_scheme" and c' :: "'y conn_scheme"
  assumes "confined S X c" and "tabs c' = tabs c" and "committed c' = committed c" and "seq_inode c \<le> seq_inode c'"
  shows "confined S X c'"
  using assms by (auto simp: confined_def)

lemma confined_faults: "confined S X c \<Longrightarrow> confined S X (c\<lparr>faults := fs\<rparr>)"
  by (erule confined_sel) (simp_all add: committed_def split: txn.split)

lemma confined_abort: "confined S X c \<Longrightarrow> confined S X (abort_txn c)"
  by (erule confined_sel) (auto simp: committed_def abort_txn_def split: txn.split)

lemma confined_stmt:
  assumes "\<And>c. confined S X c \<Longrightarrow> alive (snd (f c)) \<Longrightarrow> confined S X (snd (f c)) \<and> (\<forall>x. fst (f c) = Inr x \<longrightarrow> Q x)"
  shows "yields (confined S X) (stmt f) Q"
proof (rule yieldsI)
  fix c :: "'a conn_scheme"
  assume c: "confined S X c" and alive: "alive (snd (stmt f c))"
  have abort [simp]: "alive (abort_txn x) = alive x" for x :: "'a conn_scheme"
    by (simp add: alive_def abort_txn_def split: txn.split)
  show "confined S X (snd (stmt f c)) \<and> (\<forall>x. fst (stmt f c) = Inr x \<longrightarrow> Q x)"
  proof (cases "\<exists>s. txn_state c = Aborted s")
    case True
    then show ?thesis using c by (auto simp: stmt_def)
  next
    case False
    obtain r c1 where r: "f (c\<lparr>faults := tl (faults c)\<rparr>) = (r, c1)" by fastforce
    have run: "stmt f c = (if \<exists>fs. faults c = True # fs then (Inl Postgres, abort_txn (c\<lparr>faults := tl (faults c)\<rparr>))
        else case r of Inl e \<Rightarrow> (Inl e, abort_txn c1) | Inr x \<Rightarrow> (Inr x, c1))"
      using False r by (auto simp: stmt_def split: txn.split list.split bool.split sum.split)
    show ?thesis
    proof (cases "\<exists>fs. faults c = True # fs")
      case True
      then show ?thesis unfolding run using c by (auto intro: confined_abort confined_faults)
    next
      case no_fault: False
      then have "alive c1" using alive unfolding run by (auto split: sum.splits)
      then have "confined S X c1 \<and> (\<forall>x. r = Inr x \<longrightarrow> Q x)"
        using assms [OF confined_faults [OF c], of "tl (faults c)"] r by simp
      then show ?thesis unfolding run using no_fault by (auto intro: confined_abort split: sum.split)
    qed
  qed
qed

lemma confined_query: "(\<And>t. closed_in S t \<Longrightarrow> Q (q t)) \<Longrightarrow> yields (confined S X) (query q) Q"
  unfolding query_def by (rule confined_stmt) (auto dest: confinedD(1))

lemma confined_connection [yield]: "yields (confined S X) get_connection (\<lambda>_. True)"
  by (rule yieldsI) (auto simp: get_connection_def confined_faults split: list.split bool.split)

lemma confined_begin [yield]: "yields (confined S X) begin_txn (\<lambda>_. True)"
  unfolding begin_txn_def
  by (rule confined_stmt) (auto simp: confined_def committed_def split: txn.splits)

lemma confined_undone: "confined S X c \<Longrightarrow> confined S X (end_undone c)"
  by (auto simp: confined_def end_undone_def committed_def)

lemma confined_kept: "confined S X c \<Longrightarrow> confined S X (end_kept c)"
  by (auto simp: confined_def committed_def)

lemma confined_commit [yield]: "yields (confined S X) commit_txn (\<lambda>_. True)"
  by (rule yieldsI)
     (auto simp: commit_txn_def Let_def intro: confined_undone confined_kept confined_faults
       split: list.split bool.split txn.split)

lemma confined_rollback [yield]: "yields (confined S X) rollback_txn (\<lambda>_. True)"
  by (rule yieldsI)
     (auto simp: rollback_txn_def intro: confined_undone confined_abort confined_faults split: list.split bool.split)

lemma confined_transact [yield]:
  fixes body :: "('z conn_scheme, 'b) oper"
  assumes "yields (confined S X) body Q" and "grows body"
  shows "yields (confined S X) (transact body) Q"
  unfolding transact_def
proof (rule yields_sq [OF confined_begin], rule yields_bnd [OF yields_try [OF assms(1)]])
  fix r :: "error + 'b"
  assume r: "\<forall>x. r = Inr x \<longrightarrow> Q x"
  show "yields (confined S X) ((case r of
      Inl e \<Rightarrow> if e = Panic then throw e else bnd (try_op rollback_txn) (\<lambda>_. throw e)
    | Inr x \<Rightarrow> sq commit_txn (ret x)) :: ('z conn_scheme, 'b) oper) Q"
  proof (cases r)
    case (Inl e)
    have "yields (confined S X) (bnd (try_op rollback_txn) (\<lambda>_. throw e) :: ('z conn_scheme, 'b) oper) Q"
      by (rule yields_bnd [OF yields_try [OF confined_rollback]]) (rule yields_throw grow)+
    then show ?thesis using Inl by (simp add: yields_throw)
  next
    case (Inr x)
    then show ?thesis using r by (simp add: yields_sq confined_commit yields_ret preserves_ret)
  qed
qed (intro grow assms(2))+

section \<open>Statements\<close>

text \<open>
  A statement that replaces one table keeps the invariant when it does nothing to the rows
  outside and keeps entries inside.
\<close>

lemma confined_write:
  assumes "confined S X c" and "closed_in S t" and "outside S t = outside S (tabs c)"
  shows "confined S X (c\<lparr>tabs := t\<rparr>)"
  using assms by (auto simp: confined_def committed_def split: txn.splits)

lemma filter_map_same: "(\<And>x. x \<in> set xs \<Longrightarrow> q x \<Longrightarrow> \<not> p x \<and> \<not> p (f x)) \<Longrightarrow>
    filter p (map (\<lambda>x. if q x then f x else x) xs) = filter p xs"
  by (induction xs) auto

lemma filter_filter_same: "(\<And>x. x \<in> set xs \<Longrightarrow> q x \<Longrightarrow> \<not> p x) \<Longrightarrow>
    filter (\<lambda>x. \<not> q x \<and> p x) xs = filter p xs"
  by (induction xs) auto

lemma confined_update_inode [yield]:
  assumes "ino \<in> S" and "\<And>r. i_ino (f r) = i_ino r"
  shows "yields (confined S X) (update_inode ino f) (\<lambda>_. True)"
  unfolding update_inode_def
proof (rule confined_stmt, simp add: t_update_def Let_def journalled_write_def, intro impI)
  fix c :: "'a conn_scheme"
  assume c: "confined S X c"
  show "confined S X (c\<lparr>tabs := fs_inode_undo_update (\<lambda>u. u @ capture c i_ino (map Updated (filter (\<lambda>r. i_ino r = ino) (fs_inode (tabs c)))))
      (fs_inode_update (\<lambda>_. map (\<lambda>r. if i_ino r = ino then f r else r) (fs_inode (tabs c))) (tabs c))\<rparr>)"
    by (rule confined_write [OF c])
       (use confinedD(1) [OF c] assms in \<open>auto simp: closed_in_def outside_def intro!: filter_map_same\<close>)
qed

lemma confined_insert_inode [yield]:
  assumes "\<And>n. i_ino (mk n) = n"
  shows "yields (confined S X) (insert_inode mk) (\<lambda>n. n \<in> S)"
  unfolding insert_inode_def
proof (rule confined_stmt)
  fix c :: "'a conn_scheme"
  let ?n = "seq_inode c"
  let ?f = "\<lambda>c. let n = seq_inode c in
      case t_insert fs_inode fs_inode_update fs_inode_undo_update i_ino inode_ok (mk n) (c\<lparr>seq_inode := n + 1\<rparr>) of
        (Inl e, c') \<Rightarrow> (Inl e, c') | (Inr _, c') \<Rightarrow> (Inr n, c')"
  assume c: "confined S X c" and alive: "alive (snd (?f c))"
  have "seq_inode (snd (?f c)) = ?n + 1" by (simp add: t_insert_def Let_def journalled_write_def)
  then have n: "?n \<in> S" using alive confinedD(5) [OF c] by (auto simp: alive_def)
  have c1: "confined S X (c\<lparr>seq_inode := ?n + 1\<rparr>)"
    by (rule confined_sel [OF c]) (simp_all add: committed_def split: txn.split)
  have "confined S X (c\<lparr>seq_inode := ?n + 1, tabs := fs_inode_undo_update u (fs_inode_update (\<lambda>_. fs_inode (tabs c) @ [mk ?n]) (tabs c))\<rparr>)" for u
    using confined_write [OF c1, of "fs_inode_undo_update u (fs_inode_update (\<lambda>_. fs_inode (tabs c) @ [mk ?n]) (tabs c))"]
      confinedD(1) [OF c] n assms by (simp add: closed_in_def outside_def)
  then show "confined S X (snd (?f c)) \<and> (\<forall>x. fst (?f c) = Inr x \<longrightarrow> x \<in> S)"
    using c1 n by (auto simp: t_insert_def Let_def journalled_write_def)
qed

lemma confined_delete_inodes [yield]:
  assumes "\<And>r. p r \<Longrightarrow> i_ino r \<in> S"
  shows "yields (confined S X) (delete_inodes p) (\<lambda>_. True)"
  unfolding delete_inodes_def
proof (rule confined_stmt, simp add: t_delete_def Let_def journalled_write_def)
  fix c :: "'a conn_scheme"
  assume c: "confined S X c"
  show "confined S X (c\<lparr>tabs := cascade_inodes gone
      (fs_inode_undo_update u (fs_inode_update (\<lambda>_. filter (\<lambda>r. \<not> p r) (fs_inode (tabs c))) (tabs c)))\<rparr>)" for gone u
    by (rule confined_write [OF c])
       (use confinedD(1) [OF c] assms in \<open>auto simp: closed_in_def outside_def cascade_inodes_def Let_def intro!: filter_filter_same\<close>)
qed

lemma confined_insert_dentry [yield]:
  assumes "parent \<in> S" and "ino \<in> S"
  shows "yields (confined S X) (insert_dentry name parent ino) (\<lambda>_. True)"
  unfolding insert_dentry_def
proof (rule confined_stmt, simp add: t_insert_def Let_def journalled_write_def, intro conjI impI)
  fix c :: "'a conn_scheme"
  assume c: "confined S X c"
  have c1: "confined S X (c\<lparr>seq_dentry := n\<rparr>)" for n
    by (rule confined_sel [OF c]) (simp_all add: committed_def split: txn.split)
  then show "confined S X (c\<lparr>seq_dentry := seq_dentry c + 1\<rparr>)" .
  show "confined S X (c\<lparr>seq_dentry := n, tabs := fs_dentry_undo_update u
      (fs_dentry_update (\<lambda>_. fs_dentry (tabs c) @ [\<lparr>d_id = m, d_name = name, d_parent = parent, d_ino = ino\<rparr>]) (tabs c))\<rparr>)"
    for n m u
    using confined_write [OF c1 [of n], of "fs_dentry_undo_update u (fs_dentry_update
        (\<lambda>_. fs_dentry (tabs c) @ [\<lparr>d_id = m, d_name = name, d_parent = parent, d_ino = ino\<rparr>]) (tabs c))"]
      confinedD(1) [OF c] assms by (auto simp: closed_in_def outside_def)
qed

lemma confined_update_dentries:
  assumes "\<And>d. p d \<Longrightarrow> d_parent d \<in> S" and "\<And>d. d_parent (f d) \<in> S" and "\<And>d. d_ino (f d) = d_ino d"
  shows "yields (confined S X) (update_dentries p f) (\<lambda>_. True)"
  unfolding update_dentries_def
proof (rule confined_stmt, simp add: t_update_def Let_def journalled_write_def, intro impI)
  fix c :: "'a conn_scheme"
  assume c: "confined S X c"
  show "confined S X (c\<lparr>tabs := fs_dentry_undo_update u
      (fs_dentry_update (\<lambda>_. map (\<lambda>r. if p r then f r else r) (fs_dentry (tabs c))) (tabs c))\<rparr>)" for u
    by (rule confined_write [OF c])
       (use confinedD(1) [OF c] assms in \<open>auto simp: closed_in_def outside_def intro!: filter_map_same\<close>)
qed

lemma confined_delete_dentries [yield]:
  assumes "\<And>d. p d \<Longrightarrow> d_parent d \<in> S"
  shows "yields (confined S X) (delete_dentries p) (\<lambda>_. True)"
  unfolding delete_dentries_def
proof (rule confined_stmt, simp add: t_delete_def Let_def journalled_write_def)
  fix c :: "'a conn_scheme"
  assume c: "confined S X c"
  show "confined S X (c\<lparr>tabs := fs_dentry_undo_update u
      (fs_dentry_update (\<lambda>_. filter (\<lambda>r. \<not> p r) (fs_dentry (tabs c))) (tabs c))\<rparr>)" for u
    by (rule confined_write [OF c])
       (use confinedD(1) [OF c] assms in \<open>auto simp: closed_in_def outside_def intro!: filter_filter_same\<close>)
qed

lemma confined_data_write:
  assumes "confined S X c" and "filter (\<lambda>b. b_ino b \<notin> S) t = filter (\<lambda>b. b_ino b \<notin> S) (fs_data (tabs c))"
  shows "confined S X (c\<lparr>tabs := fs_data_undo_update u (fs_data_update (\<lambda>_. t) (tabs c))\<rparr>)"
  by (rule confined_write [OF assms(1)]) (use confinedD(1) [OF assms(1)] assms(2) in \<open>simp_all add: closed_in_def outside_def\<close>)

lemma confined_update_data [yield]:
  assumes "\<And>b. p b \<Longrightarrow> b_ino b \<in> S" and "\<And>b. b_ino (f b) = b_ino b"
  shows "yields (confined S X) (update_data p f) (\<lambda>_. True)"
  unfolding update_data_def
  by (rule confined_stmt)
     (use assms in \<open>auto simp: t_update_def Let_def journalled_write_def intro!: confined_data_write filter_map_same\<close>)

lemma confined_delete_data [yield]:
  assumes "\<And>b. p b \<Longrightarrow> b_ino b \<in> S"
  shows "yields (confined S X) (delete_data p) (\<lambda>_. True)"
  unfolding delete_data_def
  by (rule confined_stmt)
     (use assms in \<open>auto simp: t_delete_def Let_def journalled_write_def intro!: confined_data_write filter_filter_same\<close>)

lemma confined_upsert_data [yield]:
  assumes "b_ino b \<in> S"
  shows "yields (confined S X) (upsert_data b) (\<lambda>_. True)"
  unfolding upsert_data_def
  by (rule confined_stmt)
     (use assms in \<open>auto simp: t_update_def t_insert_def Let_def journalled_write_def
       intro!: confined_data_write filter_map_same\<close>)

lemma confined_symlink_write:
  assumes "confined S X c" and "filter (\<lambda>l. l_ino l \<notin> S) t = filter (\<lambda>l. l_ino l \<notin> S) (fs_symlink (tabs c))"
  shows "confined S X (c\<lparr>tabs := fs_symlink_undo_update u (fs_symlink_update (\<lambda>_. t) (tabs c))\<rparr>)"
  by (rule confined_write [OF assms(1)]) (use confinedD(1) [OF assms(1)] assms(2) in \<open>simp_all add: closed_in_def outside_def\<close>)

lemma confined_insert_symlink [yield]:
  assumes "l_ino l \<in> S"
  shows "yields (confined S X) (insert_symlink l) (\<lambda>_. True)"
  unfolding insert_symlink_def
  by (rule confined_stmt) (use assms in \<open>auto simp: t_insert_def Let_def journalled_write_def intro!: confined_symlink_write\<close>)

lemma confined_delete_symlinks [yield]:
  assumes "\<And>l. p l \<Longrightarrow> l_ino l \<in> S"
  shows "yields (confined S X) (delete_symlinks p) (\<lambda>_. True)"
  unfolding delete_symlinks_def
  by (rule confined_stmt)
     (use assms in \<open>auto simp: t_delete_def Let_def journalled_write_def intro!: confined_symlink_write filter_filter_same\<close>)

lemma confined_cache [yield]:
  fixes S :: "i64 set"
  shows "yields (confined S X) (cache_insert L p n i) (\<lambda>_. True)" "yields (confined S X) (cache_remove L p n) (\<lambda>_. True)"
  unfolding yields_def cache_insert_def cache_remove_def
  by (auto elim!: confined_sel simp: committed_def split: txn.split)

section \<open>Operations\<close>

lemma confined_lookup_child [yield]:
  "p \<in> S \<Longrightarrow> yields (confined S X) (lookup_child p n) (\<lambda>r. \<forall>i. r = Some i \<longrightarrow> i \<in> S)"
  unfolding lookup_child_def
proof (rule yields_bnd [where R = "\<lambda>rows. \<forall>d \<in> set rows. d_ino d \<in> S"])
  assume p: "p \<in> S"
  show "yields (confined S X) (query (\<lambda>t. filter (\<lambda>d. d_slot d = (p, n)) (fs_dentry t))) (\<lambda>rows. \<forall>d \<in> set rows. d_ino d \<in> S)"
    by (rule confined_query) (use p in \<open>auto simp: closed_in_def\<close>)
qed (auto intro!: yields_if yields_throw yields_ret grow)

lemma confined_getattr_with_conn [yield]:
  "i \<in> S \<Longrightarrow> yields (confined S X) (getattr_with_conn i) (\<lambda>r. \<forall>st. r = Some st \<longrightarrow> st_ino st \<in> S)"
  unfolding getattr_with_conn_def
  by (rule confined_query) (auto simp: build_stats_from_row_def)

lemma confined_reads [yield]:
  "yields (confined S X) (get_link_count i) (\<lambda>_. True)" "yields (confined S X) (select_mode i) (\<lambda>_. True)"
  "yields (confined S X) (select_ino i) (\<lambda>_. True)" "yields (confined S X) (count_children i) (\<lambda>_. True)"
  "yields (confined S X) (select_size i) (\<lambda>_. True)" "yields (confined S X) (query q) (\<lambda>_. True)"
  unfolding get_link_count_def select_mode_def select_ino_def count_children_def select_size_def
  by (rule confined_query, rule TrueI)+

lemma yields_bnd_ok_or: "(\<And>x. v = Some x \<Longrightarrow> yields I (f x) Q) \<Longrightarrow> yields I (bnd (ok_or e v) f) Q"
  by (cases v) (auto simp: yields_def)

text \<open>The rules that walk through an operation; a value nothing is said of satisfies \<open>True\<close>.\<close>

lemmas walk = yields_sq yields_bnd_ok_or yields_bnd yields_ok_or yields_ret

lemma confined_read_ops [yield]:
  "i \<in> S \<Longrightarrow> yields (confined S X) (getattr i) (\<lambda>r. \<forall>st. r = Some st \<longrightarrow> st_ino st \<in> S)"
  "i \<in> S \<Longrightarrow> n \<noteq> ''..'' \<Longrightarrow> yields (confined S X) (lookup L i n) (\<lambda>r. \<forall>st. r = Some st \<longrightarrow> st_ino st \<in> S)"
  "yields (confined S X) (readlink i) (\<lambda>_. True)" "yields (confined S X) (statfs D) (\<lambda>_. True)"
  "yields (confined S X) (pread f a b) (\<lambda>_. True)" "yields (confined S X) (fsync f) (\<lambda>_. True)"
  unfolding getattr_def lookup_def readlink_def statfs_def pread_def fsync_def Let_def
  by (rule walk yield grow | (auto; fail))+

lemma confined_readdir_plus [yield]:
  assumes "i \<in> S"
  shows "yields (confined S X) (readdir_plus coll i) (\<lambda>r. \<forall>es. r = Some es \<longrightarrow> (\<forall>e \<in> set es. st_ino (de_stats e) \<in> S))"
  unfolding readdir_plus_def
proof (rule yields_sq [OF confined_connection], rule yields_bnd [OF confined_reads(2)], rule yields_option, rule yields_ret, simp,
    rule yields_if, rule yields_throw, rule yields_bnd [where R = "\<lambda>es. \<forall>e \<in> set es. st_ino (de_stats e) \<in> S"])
  show "yields (confined S X) (query (\<lambda>t. sort_key (\<lambda>e. coll (de_name e))
        (concat (map (\<lambda>d. case look i_ino (fs_inode t) (d_ino d) of
             None \<Rightarrow> [] | Some r \<Rightarrow> [\<lparr>de_name = d_name d, de_stats = build_stats_from_row r\<rparr>])
          (filter (\<lambda>d. d_parent d = i) (fs_dentry t)))))) (\<lambda>es. \<forall>e \<in> set es. st_ino (de_stats e) \<in> S)"
    by (rule confined_query)
       (use assms in \<open>auto simp: closed_in_def build_stats_from_row_def dest!: look_Some_key [OF sym] split: option.splits\<close>)
qed ((rule yields_ret grow | (auto; fail))+)

text \<open>Changing attributes, creating, linking.\<close>

lemma confined_attr_ops [yield]:
  "i \<in> S \<Longrightarrow> yields (confined S X) (chmod now i m) (\<lambda>_. True)"
  "i \<in> S \<Longrightarrow> yields (confined S X) (chown now i u g) (\<lambda>_. True)"
  unfolding chmod_def chown_def Let_def
  by (rule walk yield grow | (auto simp: set_ctime_def; fail))+

lemma confined_resolve_time [yield]: "yields I (resolve_time now t) (\<lambda>_. True)"
  by (cases t; cases now) (simp_all add: yields_def)

lemma confined_utimens [yield]: "i \<in> S \<Longrightarrow> yields (confined S X) (utimens a m c i t u) (\<lambda>_. True)"
  unfolding utimens_def by (rule walk yield grow | (auto simp: set_ctime_def; fail))+

lemma confined_create_ops [yield]:
  "p \<in> S \<Longrightarrow> yields (confined S X) (mkdir L now p n m u g) (\<lambda>st. st_ino st \<in> S)"
  "p \<in> S \<Longrightarrow> yields (confined S X) (mknod L now p n m dev u g) (\<lambda>st. st_ino st \<in> S)"
  "p \<in> S \<Longrightarrow> yields (confined S X) (symlink L now p n t u g) (\<lambda>st. st_ino st \<in> S)"
  "p \<in> S \<Longrightarrow> yields (confined S X) (create_file L cs now p n m u g) (\<lambda>(st, f). st_ino st \<in> S \<and> f_ino f \<in> S)"
  "i \<in> S \<Longrightarrow> yields (confined S X) (fs_open cs i) (\<lambda>f. f_ino f \<in> S)"
  "i \<in> S \<Longrightarrow> p \<in> S \<Longrightarrow> yields (confined S X) (link L now i p n) (\<lambda>st. st_ino st \<in> S)"
  unfolding mkdir_def mknod_def symlink_def create_file_def fs_open_def link_def Let_def
  by (rule walk yield grow | (auto simp: set_ctime_def set_cmtime_def add_nlink_def new_inode_def new_stats_def; fail))+

lemma confined_release [yield]: "i \<in> S \<Longrightarrow> yields (confined S X) (release_inode i) (\<lambda>_. True)"
  unfolding release_inode_def by (rule walk yield grow | (auto; fail))+

lemma confined_remove_ops [yield]:
  "p \<in> S \<Longrightarrow> yields (confined S X) (unlink L now p n) (\<lambda>_. True)"
  "p \<in> S \<Longrightarrow> yields (confined S X) (rmdir L now p n) (\<lambda>_. True)"
  unfolding unlink_def rmdir_def
  by (rule walk yield grow | (auto simp: set_ctime_def set_cmtime_def add_nlink_def; fail))+

lemma confined_rename [yield]:
  assumes "p \<in> S" and "q \<in> S"
  shows "yields (confined S X) (rename L a b p n q k) (\<lambda>_. True)"
proof -
  have replace: "yields (confined S X) (replace_target a st q k) (\<lambda>_. True)" for st
    unfolding replace_target_def
    by (rule walk yield grow | (use assms in \<open>auto simp: set_ctime_def add_nlink_def\<close>; fail))+
  have tail: "yields (confined S X) (rename_tail b i st p q) (\<lambda>_. True)" if "i \<in> S" for i st
    unfolding rename_tail_def
    by (rule walk yield grow | (use assms that in \<open>auto simp: set_ctime_def set_cmtime_def add_nlink_def\<close>; fail))+
  have move: "yields (confined S X) (update_dentries (\<lambda>d. d_slot d = (p, n)) (\<lambda>d. d\<lparr>d_parent := q, d_name := k\<rparr>)) (\<lambda>_. True)"
    by (rule confined_update_dentries) (use assms in auto)
  have body: "yields (confined S X) (rename_body a b i st p n q k) (\<lambda>_. True)" if "i \<in> S" for i st
    unfolding rename_body_def by (intro yields_sq replace move tail that grow)
  show ?thesis
    unfolding rename_def
    by (rule walk yield grow body | (use assms in auto; fail))+
qed

text \<open>Open files.\<close>

lemma confined_write_data: "f_ino f \<in> S \<Longrightarrow> yields (confined S X) (write_data_at_offset f off data w :: ('z conn_scheme, unit) oper) (\<lambda>_. True)"
proof (induction f off data w rule: write_data_at_offset.induct)
  case (1 f off data w)
  show ?case
  proof (cases "w < length data \<and> f_chunk_size f \<noteq> 0")
    case True
    then have IH: "yields (confined S X) (write_data_at_offset f off data
        (w + min (f_chunk_size f - u64_add off w mod f_chunk_size f) (length data - w)) :: ('z conn_scheme, unit) oper) (\<lambda>_. True)"
      using 1 by auto
    show ?thesis
      apply (subst write_data_at_offset.simps)
      unfolding Let_def
      by (rule yields_sq yields_bnd [where R = "\<lambda>_. True"] yields_if yields_ret yield grow IH TrueI | (simp add: 1(2)))+
  next
    case False
    then show ?thesis
      by (subst write_data_at_offset.simps) (auto intro: yields_throw yields_ret)
  qed
qed

lemma confined_file_ops [yield]:
  "f_ino f \<in> S \<Longrightarrow> yields (confined S X) (pwrite now f off data) (\<lambda>_. True)"
  "f_ino f \<in> S \<Longrightarrow> yields (confined S X) (File_Handle.truncate now f n) (\<lambda>_. True)"
  unfolding pwrite_def File_Handle.truncate_def truncate_body_def truncate_chunks_def Let_def
  by (rule walk yield grow confined_write_data | (auto; fail))+

section \<open>Confined trait objects\<close>

lemma grows_ops [grow]:
  "grows (lookup L i n)" "grows (getattr i)" "grows (readlink i)" "grows (readdir_plus coll i)" "grows (chmod now i m)"
  "grows (chown now i a b)" "grows (utimens c1 c2 c3 i t t')" "grows (fs_open cs i)" "grows (mkdir L now i n m u g)"
  "grows (create_file L cs now i n m u g)" "grows (mknod L now i n m d u g)" "grows (symlink L now i n k u g)"
  "grows (unlink L now i n)" "grows (rmdir L now i n)" "grows (link L now i j n)" "grows (rename L c1 c2 i n j k)"
  "grows (statfs D)" "grows (pread f x y)" "grows (pwrite now f x bs)" "grows (File_Handle.truncate now f x)" "grows (fsync f)"
  unfolding lookup_def getattr_def readlink_def readdir_plus_def chmod_def chown_def utimens_def fs_open_def mkdir_def
    create_file_def mknod_def symlink_def unlink_def rmdir_def link_def rename_def statfs_def pread_def pwrite_def
    File_Handle.truncate_def fsync_def Let_def
  by (intro grow)+

text \<open>
  The contract of a trait object towards a client that holds numbers of \<open>S\<close> and open files of
  \<open>H\<close> only, in two steps: the serial grows under every method, and a method keeps \<open>I\<close> and returns
  numbers of \<open>S\<close> and files of \<open>H\<close>.
\<close>

locale growing_fs =
  fixes F :: "('z conn_scheme, 'f) file_system"
  assumes g_lookup: "grows (fs_lookup F i n)"
    and g_getattr: "grows (fs_getattr F i)"
    and g_readlink: "grows (fs_readlink F i)"
    and g_readdir: "grows (fs_readdir_plus F i)"
    and g_chmod: "grows (fs_chmod F i m)"
    and g_chown: "grows (fs_chown F i u g)"
    and g_utimens: "grows (fs_utimens F i t t')"
    and g_open: "grows (fs_open_file F i fl)"
    and g_mkdir: "grows (fs_mkdir F i n m u' g')"
    and g_create: "grows (fs_create_file F i n m u' g')"
    and g_mknod: "grows (fs_mknod F i n m d u' g')"
    and g_symlink: "grows (fs_make_symlink F i n n' u' g')"
    and g_unlink: "grows (fs_unlink F i n)"
    and g_rmdir: "grows (fs_rmdir F i n)"
    and g_link: "grows (fs_link F i j n)"
    and g_rename: "grows (fs_rename F i n j n')"
    and g_statfs: "grows (fs_statfs F)"
    and g_forget: "fs_forget F i k s = s"
    and g_pread: "grows (file_pread F f a b)"
    and g_pwrite: "grows (file_pwrite F f a bs)"
    and g_truncate: "grows (file_truncate F f a)"
    and g_fsync: "grows (file_fsync F f)"

locale confined_fs = growing_fs F
  for F :: "('z conn_scheme, 'f) file_system" +
  fixes I :: "'z conn_scheme \<Rightarrow> bool" and S :: "i64 set" and H :: "'f \<Rightarrow> bool"
  assumes c_lookup: "i \<in> S \<Longrightarrow> n \<noteq> ''..'' \<Longrightarrow> yields I (fs_lookup F i n) (\<lambda>r. \<forall>st. r = Some st \<longrightarrow> st_ino st \<in> S)"
    and c_getattr: "i \<in> S \<Longrightarrow> yields I (fs_getattr F i) (\<lambda>r. \<forall>st. r = Some st \<longrightarrow> st_ino st \<in> S)"
    and c_readlink: "yields I (fs_readlink F i) (\<lambda>_. True)"
    and c_readdir: "i \<in> S \<Longrightarrow> yields I (fs_readdir_plus F i) (\<lambda>r. \<forall>es. r = Some es \<longrightarrow> (\<forall>e \<in> set es. st_ino (de_stats e) \<in> S))"
    and c_chmod: "i \<in> S \<Longrightarrow> yields I (fs_chmod F i m) (\<lambda>_. True)"
    and c_chown: "i \<in> S \<Longrightarrow> yields I (fs_chown F i u g) (\<lambda>_. True)"
    and c_utimens: "i \<in> S \<Longrightarrow> yields I (fs_utimens F i t t') (\<lambda>_. True)"
    and c_open: "i \<in> S \<Longrightarrow> yields I (fs_open_file F i fl) H"
    and c_mkdir: "i \<in> S \<Longrightarrow> yields I (fs_mkdir F i n m u' g') (\<lambda>st. st_ino st \<in> S)"
    and c_create: "i \<in> S \<Longrightarrow> yields I (fs_create_file F i n m u' g') (\<lambda>(st, f). st_ino st \<in> S \<and> H f)"
    and c_mknod: "i \<in> S \<Longrightarrow> yields I (fs_mknod F i n m d u' g') (\<lambda>st. st_ino st \<in> S)"
    and c_symlink: "i \<in> S \<Longrightarrow> yields I (fs_make_symlink F i n n' u' g') (\<lambda>st. st_ino st \<in> S)"
    and c_unlink: "i \<in> S \<Longrightarrow> yields I (fs_unlink F i n) (\<lambda>_. True)"
    and c_rmdir: "i \<in> S \<Longrightarrow> yields I (fs_rmdir F i n) (\<lambda>_. True)"
    and c_link: "i \<in> S \<Longrightarrow> j \<in> S \<Longrightarrow> yields I (fs_link F i j n) (\<lambda>st. st_ino st \<in> S)"
    and c_rename: "i \<in> S \<Longrightarrow> j \<in> S \<Longrightarrow> yields I (fs_rename F i n j n') (\<lambda>_. True)"
    and c_statfs: "yields I (fs_statfs F) (\<lambda>_. True)"
    and c_pread: "H f \<Longrightarrow> yields I (file_pread F f a b) (\<lambda>_. True)"
    and c_pwrite: "H f \<Longrightarrow> yields I (file_pwrite F f a bs) (\<lambda>_. True)"
    and c_truncate: "H f \<Longrightarrow> yields I (file_truncate F f a) (\<lambda>_. True)"
    and c_fsync: "H f \<Longrightarrow> yields I (file_fsync F f) (\<lambda>_. True)"

interpretation secafs_confined: confined_fs "secafs_fs L coll D cs clk" "confined S X" S "\<lambda>f. f_ino f \<in> S"
  for L :: "'l lru_ops" and coll :: "string \<Rightarrow> 'k :: linorder" and D cs clk S X
  by unfold_locales (simp_all add: secafs_fs_def, (rule yield grow | assumption | simp)+)

end
