(* ===== verification/Fuse_Session.thy ===== *)
theory Fuse_Session
  imports Confined
begin

text \<open>
  A mounted filesystem as a state machine: the kernel sends requests that name inode numbers it
  has got in earlier replies, the server of \<open>Fuse\<close> answers.  The main result is that a mount of
  a volume is confined to the volume.
\<close>

section \<open>Requests\<close>

datatype fuse_req =
    ReqLookup u64 string
  | ReqGetattr u64
  | ReqReadlink u64
  | ReqSetattr u64 "u32 option" "u32 option" "u32 option" "u64 option" "time_or_now option" "time_or_now option" "u64 option"
  | ReqReaddir nat u64 i64
  | ReqReaddirplus nat u64 i64
  | ReqMknod u64 string u32 u32
  | ReqMkdir u64 string u32
  | ReqRmdir u64 string
  | ReqCreate u64 string u32
  | ReqSymlink u64 string string
  | ReqLink u64 u64 string
  | ReqUnlink u64 string
  | ReqRename u64 string u64 string u32
  | ReqOpen u64 int
  | ReqRead u64 i64 u32
  | ReqWrite u64 i64 bytes
  | ReqFlush u64
  | ReqFsync u64
  | ReqRelease u64
  | ReqStatfs
  | ReqForget u64 u64
  | ReqBatchForget "(u64 \<times> u64) list"

fun serve :: "('s, 'f) file_system \<Rightarrow> u32 \<Rightarrow> u32 \<Rightarrow> fuse_req \<Rightarrow> ('s, 'f) request" where
  "serve F uid gid (ReqLookup p n) = fuse_lookup F p n"
| "serve F uid gid (ReqGetattr i) = fuse_getattr F i"
| "serve F uid gid (ReqReadlink i) = fuse_readlink F i"
| "serve F uid gid (ReqSetattr i m u g sz a t fh) = fuse_setattr F i m u g sz a t fh"
| "serve F uid gid (ReqReaddir cap i off) = fuse_readdir F cap i off"
| "serve F uid gid (ReqReaddirplus cap i off) = fuse_readdirplus F cap i off"
| "serve F uid gid (ReqMknod p n m rdev) = fuse_mknod F uid gid p n m rdev"
| "serve F uid gid (ReqMkdir p n m) = fuse_mkdir F uid gid p n m"
| "serve F uid gid (ReqRmdir p n) = fuse_rmdir F p n"
| "serve F uid gid (ReqCreate p n m) = fuse_create F uid gid p n m"
| "serve F uid gid (ReqSymlink p n target) = fuse_symlink F uid gid p n target"
| "serve F uid gid (ReqLink i p n) = fuse_link F i p n"
| "serve F uid gid (ReqUnlink p n) = fuse_unlink F p n"
| "serve F uid gid (ReqRename p n q k fl) = fuse_rename F p n q k fl"
| "serve F uid gid (ReqOpen i fl) = fuse_open F i fl"
| "serve F uid gid (ReqRead fh off sz) = fuse_read F fh off sz"
| "serve F uid gid (ReqWrite fh off data) = fuse_write F fh off data"
| "serve F uid gid (ReqFlush fh) = fuse_flush fh"
| "serve F uid gid (ReqFsync fh) = fuse_fsync F fh"
| "serve F uid gid (ReqRelease fh) = fuse_release fh"
| "serve F uid gid ReqStatfs = fuse_statfs F"
| "serve F uid gid (ReqForget i k) = fuse_forget F i k"
| "serve F uid gid (ReqBatchForget is) = fuse_batch_forget F is"

text \<open>The inode numbers of a request, and of a reply.\<close>

fun req_inos :: "fuse_req \<Rightarrow> u64 set" where
  "req_inos (ReqLookup p n) = {p}"
| "req_inos (ReqGetattr i) = {i}"
| "req_inos (ReqReadlink i) = {i}"
| "req_inos (ReqSetattr i m u g sz a t fh) = {i}"
| "req_inos (ReqReaddir cap i off) = {i}"
| "req_inos (ReqReaddirplus cap i off) = {i}"
| "req_inos (ReqMknod p n m rdev) = {p}"
| "req_inos (ReqMkdir p n m) = {p}"
| "req_inos (ReqRmdir p n) = {p}"
| "req_inos (ReqCreate p n m) = {p}"
| "req_inos (ReqSymlink p n target) = {p}"
| "req_inos (ReqLink i p n) = {i, p}"
| "req_inos (ReqUnlink p n) = {p}"
| "req_inos (ReqRename p n q k fl) = {p, q}"
| "req_inos (ReqOpen i fl) = {i}"
| "req_inos _ = {}"

fun reply_inos :: "reply \<Rightarrow> u64 set" where
  "reply_inos (ReplyEntry a) = {at_ino a}"
| "reply_inos (ReplyAttr a) = {at_ino a}"
| "reply_inos (ReplyCreated a fh) = {at_ino a}"
| "reply_inos (ReplyDirectory xs) = fst ` set xs"
| "reply_inos (ReplyDirectoryPlus xs) = fst ` set xs \<union> (\<lambda>(_, _, _, a). at_ino a) ` set xs"
| "reply_inos _ = {}"

text \<open>
  The kernel resolves \<open>..\<close> by itself: it does not ask for it.
\<close>

fun asks_parent :: "fuse_req \<Rightarrow> bool" where
  "asks_parent (ReqLookup p n) = (n = ''..'')"
| "asks_parent _ = False"

text \<open>
  A session: the server's state and the numbers the kernel knows.  The trait object may differ
  from request to request in the readings of its clock.
\<close>

inductive fuse_reach ::
  "(('s, 'f) file_system \<Rightarrow> bool) \<Rightarrow> ('s, 'f) server \<Rightarrow> ('s, 'f) server \<Rightarrow> u64 set \<Rightarrow> bool" for objs srv0 where
  reach_mount: "fuse_reach objs srv0 srv0 {1}"
| reach_request: "fuse_reach objs srv0 srv K \<Longrightarrow> objs F \<Longrightarrow> req_inos req \<subseteq> K \<Longrightarrow> \<not> asks_parent req \<Longrightarrow>
    serve F uid gid req srv = (r, srv') \<Longrightarrow> fuse_reach objs srv0 srv' (K \<union> reply_inos r)"

section \<open>Inode numbers\<close>

lemma kernel_db:
  assumes "root \<in> S" and "i \<in> S" and "S \<subseteq> {- (2 ^ 63)..<2 ^ 63}"
  shows "kernel_to_db root (db_to_kernel root i) \<in> S"
  using assms as_i64_as_u64 [of i] by (auto simp: kernel_to_db_def db_to_kernel_def)

section \<open>Requests that stay inside\<close>

text \<open>
  The state of a server whose store keeps \<open>I\<close> and whose open files satisfy \<open>H\<close>, and the numbers
  that stand for an inode of \<open>S\<close>.
\<close>

definition holds :: "('z conn_scheme \<Rightarrow> bool) \<Rightarrow> ('f \<Rightarrow> bool) \<Rightarrow> i64 \<Rightarrow> ('z conn_scheme, 'f) server \<Rightarrow> bool" where
  "holds I H root srv \<longleftrightarrow> I (store srv) \<and> (\<forall>fh f. open_files srv fh = Some f \<longrightarrow> H f) \<and> root_ino srv = root"

definition inner :: "i64 \<Rightarrow> i64 set \<Rightarrow> u64 set \<Rightarrow> bool" where
  "inner root S K \<longleftrightarrow> (\<forall>k \<in> K. kernel_to_db root k \<in> S)"

text \<open>\<open>serves\<close> is \<open>yields\<close> for requests: unless the serial runs out, the state is kept and the reply lists inodes of \<open>S\<close>.\<close>

definition serves ::
  "('z conn_scheme \<Rightarrow> bool) \<Rightarrow> ('f \<Rightarrow> bool) \<Rightarrow> i64 \<Rightarrow> i64 set \<Rightarrow> ('z conn_scheme, 'f) request \<Rightarrow> bool" where
  "serves I H root S m \<longleftrightarrow>
    (\<forall>srv. holds I H root srv \<longrightarrow> alive (store (snd (m srv))) \<longrightarrow>
       holds I H root (snd (m srv)) \<and> inner root S (reply_inos (fst (m srv))))"

definition swells :: "('z conn_scheme, 'f) request \<Rightarrow> bool" where
  "swells m \<longleftrightarrow> (\<forall>srv. \<not> alive (store srv) \<longrightarrow> \<not> alive (store (snd (m srv))))"

named_theorems serving \<open>rules for \<open>serves\<close>\<close>
named_theorems swell \<open>requests under which the serial grows\<close>

lemma servesI:
  "(\<And>srv. holds I H root srv \<Longrightarrow> alive (store (snd (m srv))) \<Longrightarrow>
     holds I H root (snd (m srv)) \<and> inner root S (reply_inos (fst (m srv)))) \<Longrightarrow> serves I H root S m"
  by (simp add: serves_def)

lemma servesD:
  "serves I H root S m \<Longrightarrow> holds I H root srv \<Longrightarrow> m srv = (r, srv') \<Longrightarrow> alive (store srv') \<Longrightarrow>
    holds I H root srv' \<and> inner root S (reply_inos r)"
  by (force simp: serves_def)

lemma swellsD: "swells m \<Longrightarrow> alive (store (snd (m srv))) \<Longrightarrow> alive (store srv)"
  by (auto simp: swells_def)

lemma swells_rules [swell]:
  "swells (answer r)"
  "(\<And>x. swells (k1 x)) \<Longrightarrow> swells (with_attr st k1)"
  "(\<And>x. swells (k2 x)) \<Longrightarrow> swells (or_enoent k2 v)"
  "swells k3 \<Longrightarrow> swells (text_name n k3)"
  "(\<And>x. swells (k4 x)) \<Longrightarrow> swells (at_db i k4)"
  "(\<And>x. swells (k5 x)) \<Longrightarrow> swells (with_file fh k5)"
  "(\<And>x. swells (k6 x)) \<Longrightarrow> swells (add_file f k6)"
  "swells m1 \<Longrightarrow> swells m2 \<Longrightarrow> swells (if b then m1 else m2)"
  "swells m3 \<Longrightarrow> (\<And>x. swells (k7 x)) \<Longrightarrow> swells (case v' of None \<Rightarrow> m3 | Some x \<Rightarrow> k7 x)"
  "(\<And>x y. swells (k8 x y)) \<Longrightarrow> swells (case z of (x, y) \<Rightarrow> k8 x y)"
  by (auto simp: swells_def answer_def with_attr_def or_enoent_def text_name_def at_db_def with_file_def add_file_def Let_def
      split: option.split prod.split)

lemma swells_block_on [swell]: "grows m \<Longrightarrow> (\<And>r. swells (k r)) \<Longrightarrow> swells (block_on m k)"
  by (auto simp: swells_def block_on_def preserves_def split: prod.split sum.split)

lemma swells_on_ok [swell]: "grows m \<Longrightarrow> (\<And>x. swells (k x)) \<Longrightarrow> swells (on_ok m k)"
  unfolding on_ok_def by (intro swells_block_on) (auto intro: swell split: sum.split)

lemma serves_answer: "inner root S (reply_inos r) \<Longrightarrow> serves I H root S (answer r)"
  by (simp add: serves_def answer_def)

lemma serves_block_on:
  assumes "yields I m Q" and "grows m" and "\<And>r. (\<And>x. r = Inr x \<Longrightarrow> Q x) \<Longrightarrow> serves I H root S (k r)" and "\<And>r. swells (k r)"
  shows "serves I H root S (block_on m k)"
proof (rule servesI)
  fix srv
  assume srv: "holds I H root srv" and alive: "alive (store (snd (block_on m k srv)))"
  obtain r s where m: "m (store srv) = (r, s)" by fastforce
  have "alive s"
    using alive m swellsD [OF assms(4), of r "srv\<lparr>store := s\<rparr>"] by (auto simp: block_on_def split: sum.splits if_splits)
  then have s: "I s" and r: "\<And>x. r = Inr x \<Longrightarrow> Q x"
    using yieldsD [OF assms(1) _ m] srv by (auto simp: holds_def)
  then have "holds I H root (srv\<lparr>store := s\<rparr>)" using srv by (simp add: holds_def)
  moreover note servesD [OF assms(3) [OF r] this prod.collapse [symmetric]]
  ultimately show "holds I H root (snd (block_on m k srv)) \<and> inner root S (reply_inos (fst (block_on m k srv)))"
    using alive m by (auto simp: block_on_def inner_def split: sum.splits if_splits)
qed

lemma serves_on_ok:
  assumes "yields I m Q" and "grows m" and "\<And>x. Q x \<Longrightarrow> serves I H root S (k x)" and "\<And>x. swells (k x)"
  shows "serves I H root S (on_ok m k)"
  unfolding on_ok_def
  by (rule serves_block_on [OF assms(1,2)])
     (use assms(3,4) in \<open>auto intro: serves_answer swell simp: inner_def split: sum.split\<close>)

lemma serves_enoent [serving]:
  "(\<And>x. v = Some x \<Longrightarrow> serves I H root S (k x)) \<Longrightarrow> serves I H root S (or_enoent k v)"
  by (cases v) (auto simp: or_enoent_def inner_def intro: serves_answer)

lemma serves_name [serving]: "serves I H root S k \<Longrightarrow> serves I H root S (text_name n k)"
  by (auto simp: text_name_def inner_def intro: serves_answer)

lemma serves_at_db [serving]:
  "kernel_to_db root i \<in> S \<Longrightarrow> (\<And>j. j \<in> S \<Longrightarrow> serves I H root S (k j)) \<Longrightarrow> serves I H root S (at_db i k)"
  unfolding serves_def at_db_def by (simp add: holds_def)

lemma serves_with_file [serving]:
  assumes "\<And>f. H f \<Longrightarrow> serves I H root S (k f)"
  shows "serves I H root S (with_file fh k)"
proof (rule servesI)
  fix srv
  assume srv: "holds I H root srv" and alive: "alive (store (snd (with_file fh k srv)))"
  show "holds I H root (snd (with_file fh k srv)) \<and> inner root S (reply_inos (fst (with_file fh k srv)))"
  proof (cases "open_files srv fh")
    case (Some f)
    then have "H f" using srv by (simp add: holds_def)
    then show ?thesis using assms [OF \<open>H f\<close>, unfolded serves_def] srv alive Some by (simp add: with_file_def)
  qed (use srv in \<open>simp add: with_file_def inner_def\<close>)
qed

lemma serves_add_file [serving]:
  fixes f :: 'f and k :: "u64 \<Rightarrow> ('z conn_scheme, 'f) request"
  assumes "H f" and "\<And>h. serves I H root S (k h)"
  shows "serves I H root S (add_file f k)"
proof (rule servesI)
  fix srv :: "('z conn_scheme, 'f) server"
  let ?h = "next_fh srv"
  let ?srv = "srv\<lparr>next_fh := u64_add ?h 1, open_files := (open_files srv)(?h \<mapsto> f)\<rparr>"
  assume srv: "holds I H root srv" and alive: "alive (store (snd (add_file f k srv)))"
  have "holds I H root ?srv" using srv assms(1) by (auto simp: holds_def)
  then show "holds I H root (snd (add_file f k srv)) \<and> inner root S (reply_inos (fst (add_file f k srv)))"
    using assms(2) [of ?h, unfolded serves_def] alive by (simp add: add_file_def Let_def)
qed

lemma serves_split [serving]:
  "serves I H root S m1 \<Longrightarrow> serves I H root S m2 \<Longrightarrow> serves I H root S (if b then m1 else m2)"
  "serves I H root S m1 \<Longrightarrow> (\<And>x. v = Some x \<Longrightarrow> serves I H root S (k x)) \<Longrightarrow>
    serves I H root S (case v of None \<Rightarrow> m1 | Some x \<Rightarrow> k x)"
  "(\<And>x y. z = (x, y) \<Longrightarrow> serves I H root S (k' x y)) \<Longrightarrow> serves I H root S (case z of (x, y) \<Rightarrow> k' x y)"
  by (cases b; cases v; cases z; simp)+

lemma serves_attr:
  assumes "st_ino st \<in> S" and "root \<in> S" and "S \<subseteq> {- (2 ^ 63)..<2 ^ 63}"
    and "\<And>a. at_ino a = db_to_kernel root (st_ino st) \<Longrightarrow> serves I H root S (k a)"
  shows "serves I H root S (with_attr st k)"
proof (rule servesI)
  fix srv
  assume srv: "holds I H root srv" and alive: "alive (store (snd (with_attr st k srv)))"
  then have "root_ino srv = root" by (simp add: holds_def)
  show "holds I H root (snd (with_attr st k srv)) \<and> inner root S (reply_inos (fst (with_attr st k srv)))"
  proof (cases "fillattr_kernel root st")
    case None
    then show ?thesis using srv \<open>root_ino srv = root\<close> by (simp add: with_attr_def inner_def)
  next
    case (Some a)
    then have "at_ino a = db_to_kernel root (st_ino st)" by (auto simp: fillattr_kernel_def)
    then show ?thesis
      using Some srv alive assms(4) [unfolded serves_def] \<open>root_ino srv = root\<close> by (simp add: with_attr_def)
  qed
qed

section \<open>The numbers of a listing\<close>

lemma inner_mono: "inner root S K \<Longrightarrow> K' \<subseteq> K \<Longrightarrow> inner root S K'"
  by (auto simp: inner_def)

lemma kernel_root [simp]: "kernel_to_db root (Suc 0) = root"
  by (simp add: kernel_to_db_def)

lemma set_push_all: "set (push_all sz cap used xs) \<subseteq> set xs"
  by (induction sz cap used xs rule: push_all.induct) auto

lemma inner_dir_items:
  assumes "root \<in> S" and "S \<subseteq> {- (2 ^ 63)..<2 ^ 63}" and "kernel_to_db root i \<in> S"
    and "\<forall>e \<in> set es. st_ino (de_stats e) \<in> S"
  shows "inner root S (fst ` set (dir_items root i es))"
proof -
  have "fst ` set (dir_items root i es) \<subseteq> {i, 1} \<union> (\<lambda>e. db_to_kernel root (st_ino (de_stats e))) ` set es"
    by (auto simp: dir_items_def in_set_enumerate_eq nth_Cons' split: if_splits)
  moreover have "inner root S \<dots>" using assms by (simp add: inner_def kernel_db)
  ultimately show ?thesis by (rule inner_mono [rotated])
qed

lemma inner_push_plus:
  assumes "root \<in> S" and "S \<subseteq> {- (2 ^ 63)..<2 ^ 63}"
    and "\<forall>(k, n, st) \<in> set es. kernel_to_db root k \<in> S \<and> (\<forall>x. st = Some x \<longrightarrow> st_ino x \<in> S)"
    and "push_plus root cap off counter used es = Some xs"
  shows "\<forall>(k, _, _, a) \<in> set xs. kernel_to_db root k \<in> S \<and> kernel_to_db root (at_ino a) \<in> S"
  using assms(3,4)
proof (induction es arbitrary: counter used xs)
  case (Cons e es)
  obtain ino name st where e: "e = (ino, name, st)" by (cases e)
  have IH: "\<forall>(k, _, _, a) \<in> set ys. kernel_to_db root k \<in> S \<and> kernel_to_db root (at_ino a) \<in> S"
    if "push_plus root cap off c u es = Some ys" for c u ys
    using Cons that by simp
  have "kernel_to_db root ino \<in> S" "\<And>x. st = Some x \<Longrightarrow> kernel_to_db root (db_to_kernel root (st_ino x)) \<in> S"
    using Cons.prems(1) kernel_db [OF assms(1) _ assms(2)] by (auto simp: e)
  then show ?case
    using Cons.prems(2) by (auto simp: e fillattr_kernel_def Let_def dest!: IH split: if_splits option.splits)
qed simp

section \<open>Every request stays inside\<close>

lemmas requests = fuse_lookup_def fuse_getattr_def fuse_readlink_def fuse_mknod_def fuse_mkdir_def fuse_rmdir_def fuse_create_def
  fuse_symlink_def fuse_link_def fuse_unlink_def fuse_rename_def fuse_open_def fuse_read_def fuse_write_def fuse_flush_def fuse_fsync_def

context growing_fs
begin

lemmas methods_grow = g_lookup g_getattr g_readlink g_readdir g_chmod g_chown g_utimens g_open g_mkdir g_create g_mknod
  g_symlink g_unlink g_rmdir g_link g_rename g_statfs g_pread g_pwrite g_truncate g_fsync

lemma swells_readdir: "swells (fuse_readdir F cap i off)"
  unfolding fuse_readdir_def by (intro swell g_readdir) (simp add: swells_def)

lemma swells_readdirplus: "swells (fuse_readdirplus F cap i off)"
  unfolding fuse_readdirplus_def Let_def
proof (intro swell g_readdir g_getattr)
  have "swells (\<lambda>srv. (r srv, srv))" for r :: "('z conn_scheme, 'f) server \<Rightarrow> reply" by (simp add: swells_def)
  then have other: "swells (block_on (fs_getattr F j) (\<lambda>p srv. (r p srv, srv)))" for j and r :: "_ \<Rightarrow> ('z conn_scheme, 'f) server \<Rightarrow> reply"
    by (intro swells_block_on g_getattr)
  show "swells (\<lambda>srv. if j = root_ino srv then (r srv, srv) else block_on (fs_getattr F (root_ino srv)) (\<lambda>p srv. (q p srv, srv)) srv)"
    for j and r :: "('z conn_scheme, 'f) server \<Rightarrow> reply" and q
    using other by (simp add: swells_def)
qed

lemma swells_serve: "swells (serve F uid gid req)"
proof -
  have "fold (\<lambda>(ino, n). fs_forget F (kernel_to_db r ino) n) ks s = s" for r s ks
    by (induction ks) (auto simp: g_forget)
  then have state: "swells (fuse_release fh)" "swells (fuse_forget F i k)" "swells (fuse_batch_forget F ks)" for fh i k ks
    by (simp_all add: swells_def fuse_release_def fuse_forget_def fuse_batch_forget_def at_db_def g_forget)
  have "swells (fuse_statfs F)"
    unfolding fuse_statfs_def Let_def split_beta by (intro swell g_statfs)
  moreover have "swells (fuse_setattr F i m u g sz a t fh)" for i m u g sz a t fh
    unfolding fuse_setattr_def Let_def by (intro swell methods_grow preserves_bnd)
  ultimately show ?thesis
    by (cases req) (auto simp: state requests swells_readdir swells_readdirplus intro!: swell methods_grow)
qed

end

context confined_fs
begin

lemmas methods_yield = c_lookup c_getattr c_readlink c_readdir c_chmod c_chown c_utimens c_open c_mkdir c_create c_mknod
  c_symlink c_unlink c_rmdir c_link c_rename c_statfs c_pread c_pwrite c_truncate c_fsync

lemma open_truncate:
  "i \<in> S \<Longrightarrow> yields I (bnd (fs_open_file F i fl) (\<lambda>f. file_truncate F f n)) (\<lambda>_. True)"
  "grows (bnd (fs_open_file F i fl) (\<lambda>f. file_truncate F f n))"
  by (rule yields_bnd methods_yield methods_grow preserves_bnd | assumption)+

lemma entry_inner:
  "root \<in> S \<Longrightarrow> S \<subseteq> {- (2 ^ 63)..<2 ^ 63} \<Longrightarrow> i \<in> S \<Longrightarrow> at_ino a = db_to_kernel root i \<Longrightarrow>
    inner root S (reply_inos (ReplyEntry a)) \<and> inner root S (reply_inos (ReplyAttr a)) \<and> inner root S (reply_inos (ReplyCreated a fh))"
  by (simp add: inner_def kernel_db)

lemma serves_setattr:
  assumes "root \<in> S" and "S \<subseteq> {- (2 ^ 63)..<2 ^ 63}" and "kernel_to_db root i \<in> S"
  shows "serves I H root S (fuse_setattr F i m u g sz a t fh)"
  unfolding fuse_setattr_def Let_def
  by (rule serving serves_on_ok serves_attr serves_answer swell methods_yield methods_grow open_truncate
      | (use assms in \<open>auto simp: inner_def kernel_db\<close>; fail))+

lemma serves_readdir:
  assumes "root \<in> S" and "S \<subseteq> {- (2 ^ 63)..<2 ^ 63}" and "kernel_to_db root i \<in> S"
  shows "serves I H root S (fuse_readdir F cap i off)"
proof -
  have "inner root S (fst ` set (push_all z cap 0 (drop n (dir_items root i es))))"
    if "\<forall>e \<in> set es. st_ino (de_stats e) \<in> S" for es n z
    by (rule inner_mono [OF inner_dir_items [OF assms that]], rule image_mono,
        rule subset_trans [OF set_push_all set_drop_subset])
  then have "serves I H root S (\<lambda>srv. (ReplyDirectory (push_all z cap 0 (drop n (dir_items (root_ino srv) i es))), srv))"
    if "\<forall>e \<in> set es. st_ino (de_stats e) \<in> S" for es n z
    using that by (simp add: serves_def holds_def)
  then show ?thesis
    unfolding fuse_readdir_def
    by (intro serves_at_db serves_on_ok [OF c_readdir g_readdir] serves_enoent assms swell) (auto simp: swells_def)
qed

lemma serves_readdirplus:
  assumes "root \<in> S" and "S \<subseteq> {- (2 ^ 63)..<2 ^ 63}" and "kernel_to_db root i \<in> S"
  shows "serves I H root S (fuse_readdirplus F cap i off)"
proof -
  define items where "items = (\<lambda>r dir parent (es :: dir_entry list). ((i, ''.'', dir) # (1, ''..'', parent) #
      map (\<lambda>e. (db_to_kernel r (st_ino (de_stats e)), de_name e, Some (de_stats e))) es))"
  define finish :: "stats option \<Rightarrow> dir_entry list \<Rightarrow> stats option \<Rightarrow> ('z conn_scheme, 'f) request" where
    "finish = (\<lambda>dir es parent srv. (case push_plus (root_ino srv) cap off 0 0 (items (root_ino srv) dir parent es) of
               None \<Rightarrow> Crashed | Some items \<Rightarrow> ReplyDirectoryPlus items, srv))"
  have fin: "serves I H root S (finish dir es parent)" if "\<forall>e \<in> set es. st_ino (de_stats e) \<in> S"
    and "\<forall>x. dir = Some x \<longrightarrow> st_ino x \<in> S" and "\<forall>x. parent = Some x \<longrightarrow> st_ino x \<in> S" for dir es parent
  proof -
    have "\<forall>(k, n, st) \<in> set (items root dir parent es). kernel_to_db root k \<in> S \<and> (\<forall>x. st = Some x \<longrightarrow> st_ino x \<in> S)"
      using that assms kernel_db by (auto simp: items_def kernel_to_db_def)
    from inner_push_plus [OF assms(1,2) this] show ?thesis
      by (fastforce simp: serves_def finish_def holds_def inner_def split: option.split)
  qed
  define got :: "error + stats option \<Rightarrow> stats option" where "got = (\<lambda>r. case r of Inl e \<Rightarrow> None | Inr st \<Rightarrow> st)"
  define rest :: "i64 \<Rightarrow> dir_entry list \<Rightarrow> error + stats option \<Rightarrow> i64 \<Rightarrow> ('z conn_scheme, 'f) request" where
    "rest = (\<lambda>j es r root. if j = root then finish (got r) es (got r)
       else block_on (fs_getattr F root) (\<lambda>p. finish (got r) es (got p)))"
  have grow: "swells (finish dir es parent)" for dir es parent by (simp add: swells_def finish_def)
  have rest: "swells (rest j es r q)" for j es r q unfolding rest_def by (intro swell g_getattr grow)
  have "swells (\<lambda>srv. rest j es r (root_ino srv) srv)" for j es r using rest unfolding swells_def by blast
  note grow = grow this
  have got: "\<forall>x. got r = Some x \<longrightarrow> st_ino x \<in> S" if "\<And>v. r = Inr v \<Longrightarrow> \<forall>st. v = Some st \<longrightarrow> st_ino st \<in> S" for r
    using that by (auto simp: got_def split: sum.splits)
  have "serves I H root S (rest j es r root)"
    if "\<forall>e \<in> set es. st_ino (de_stats e) \<in> S" and "\<forall>x. got r = Some x \<longrightarrow> st_ino x \<in> S" for j es r
    unfolding rest_def using that by (intro serves_split serves_block_on [OF c_getattr g_getattr] fin got assms(1) grow) (auto simp: got_def)
  then have inside: "serves I H root S (\<lambda>srv. rest j es r (root_ino srv) srv)"
    if "\<forall>e \<in> set es. st_ino (de_stats e) \<in> S" and "\<forall>x. got r = Some x \<longrightarrow> st_ino x \<in> S" for j es r
    using that unfolding serves_def holds_def by simp
  have "serves I H root S (at_db i (\<lambda>j. on_ok (fs_readdir_plus F j) (or_enoent (\<lambda>es.
      block_on (fs_getattr F j) (\<lambda>r srv. rest j es r (root_ino srv) srv)))))"
    by (intro serves_at_db serves_on_ok [OF c_readdir g_readdir] serves_block_on [OF c_getattr g_getattr] serves_enoent
        assms(3) inside got swells_rules swells_block_on g_getattr grow) auto
  then show ?thesis
    unfolding fuse_readdirplus_def rest_def finish_def items_def got_def Let_def if_distrib [of "\<lambda>m. m _"] .
qed

lemma serves_state:
  "serves I H root S (fuse_release fh)" "serves I H root S (fuse_statfs F)"
  "serves I H root S (fuse_forget F i k)" "serves I H root S (fuse_batch_forget F ks)"
proof -
  have "fold (\<lambda>(ino, n). fs_forget F (kernel_to_db r ino) n) ks s = s" for r s
    by (induction ks) (auto simp: g_forget)
  then show "serves I H root S (fuse_forget F i k)" "serves I H root S (fuse_batch_forget F ks)"
    by (simp_all add: serves_def fuse_forget_def fuse_batch_forget_def at_db_def g_forget inner_def)
  show "serves I H root S (fuse_release fh)"
    by (auto simp: serves_def fuse_release_def holds_def inner_def split: if_splits)
  show "serves I H root S (fuse_statfs F)"
    unfolding fuse_statfs_def Let_def split_beta
    by (intro serves_block_on [OF c_statfs g_statfs] serves_answer swell) (simp add: inner_def)
qed

theorem serves_request:
  assumes "root \<in> S" and "S \<subseteq> {- (2 ^ 63)..<2 ^ 63}" and "inner root S (req_inos req)" and "\<not> asks_parent req"
  shows "serves I H root S (serve F uid gid req)"
  using assms(3,4)
  apply (cases req; simp add: serves_state requests inner_def)
  apply (rule serves_setattr serves_readdir serves_readdirplus serving serves_on_ok serves_attr serves_answer swell methods_yield methods_grow
       | (use assms(1,2) in \<open>auto simp: inner_def kernel_db\<close>; fail))+
  done

end

section \<open>Sessions\<close>

context confined_fs
begin

lemma step_holds:
  assumes "root \<in> S" and "S \<subseteq> {- (2 ^ 63)..<2 ^ 63}" and "inner root S K" and "req_inos req \<subseteq> K" and "\<not> asks_parent req"
    and "holds I H root srv" and "serve F uid gid req srv = (r, srv')" and "alive (store srv')"
  shows "holds I H root srv' \<and> inner root S (K \<union> reply_inos r)"
  using servesD [OF serves_request [OF assms(1,2) inner_mono [OF assms(3,4)] assms(5)] assms(6-8)] assms(3)
  by (auto simp: inner_def)

end

lemma reach_alive:
  assumes "fuse_reach objs srv0 srv K" and "\<And>F. objs F \<Longrightarrow> growing_fs F" and "alive (store srv)"
  shows "alive (store srv0)"
  using assms(1,3)
proof (induction rule: fuse_reach.induct)
  case (reach_request srv K F req uid gid r srv')
  then show ?case
    using swellsD [OF growing_fs.swells_serve [OF assms(2)], of F uid gid req srv] by simp
qed

lemma reach_holds:
  assumes "fuse_reach objs srv0 srv K" and "\<And>F. objs F \<Longrightarrow> confined_fs F I S H"
    and "root \<in> S" and "S \<subseteq> {- (2 ^ 63)..<2 ^ 63}" and "holds I H root srv0" and "alive (store srv)"
  shows "holds I H root srv \<and> inner root S K"
  using assms(1,6)
proof (induction rule: fuse_reach.induct)
  case reach_mount
  then show ?case using assms(3,5) by (simp add: inner_def)
next
  case (reach_request srv K F req uid gid r srv')
  note F = assms(2) [OF reach_request.hyps(2)]
  have "alive (store srv)"
    using swellsD [OF growing_fs.swells_serve [OF confined_fs.axioms(1) [OF F]], of uid gid req srv] reach_request by simp
  then show ?case
    using confined_fs.step_holds [OF F assms(3,4)] reach_request by blast
qed

text \<open>
  The inodes below the root of a volume, and with them the numbers the serial has yet to give.
\<close>

definition volume_inos :: "i64 \<Rightarrow> tables \<Rightarrow> i64 set" where
  "volume_inos root t = {i. (root, i) \<in> {(d_parent d, d_ino d) | d. d \<in> set (fs_dentry t)}\<^sup>*}"

definition volume_space :: "i64 \<Rightarrow> 'z conn_scheme \<Rightarrow> i64 set" where
  "volume_space root c = volume_inos root (tabs c) \<union> {seq_inode c..<2 ^ 63}"

lemma volume_closed:
  assumes "ns_inv c"
  shows "closed_in (volume_space root c) (tabs c)"
proof -
  have "d_ino d \<in> volume_inos root (tabs c)" if "d \<in> set (fs_dentry (tabs c))" and "d_parent d \<in> volume_inos root (tabs c)" for d
    using that by (auto simp: volume_inos_def intro: rtrancl_into_rtrancl)
  moreover have "d_parent d < seq_inode c" if "d \<in> set (fs_dentry (tabs c))" for d
    using that ns_invD(5,6) [OF assms] by (force simp: below_serials_def entries_ok_def)
  ultimately show ?thesis by (force simp: closed_in_def volume_space_def)
qed

lemma volume_range:
  assumes "ns_inv c" and "ino_map (tabs c) root \<noteq> None" and "\<forall>i. ino_map (tabs c) i \<noteq> None \<longrightarrow> 0 < i" and "alive c"
  shows "volume_space root c \<subseteq> {- (2 ^ 63)..<2 ^ 63}"
proof -
  have "ino_map (tabs c) i \<noteq> None" if "i \<in> volume_inos root (tabs c)" for i
    using that unfolding volume_inos_def mem_Collect_eq
    by (induction rule: rtrancl_induct) (use assms(2) ns_invD(6) [OF assms(1)] in \<open>auto simp: entries_ok_def\<close>)
  then have "0 < i \<and> i < seq_inode c" if "i \<in> volume_inos root (tabs c)" for i
    using that assms(3) ns_invD(5) [OF assms(1)] by (auto simp: below_serials_def)
  moreover have "0 < seq_inode c"
    using assms(2,3) ns_invD(5) [OF assms(1)] by (metis below_serials_def order.strict_trans)
  ultimately show ?thesis using assms(4) by (force simp: volume_space_def alive_def)
qed

lemma volume_start:
  assumes "ns_inv c" and "txn_state c = NoTxn" and "S = volume_space root c"
  shows "holds (confined S (outside S (tabs c))) H root (fuse_new c root)"
  using volume_closed [OF assms(1), of root] assms(2,3)
  by (auto simp: holds_def fuse_new_def confined_def committed_def volume_space_def)

text \<open>
  C3.  A mount of a volume does not leave the volume.  Start from a filesystem that satisfies the
  name space invariant, mount one of its directories as a volume, and let the kernel send any
  requests on inode numbers it has been given before -- with statements, commits and clocks
  failing as they may.  Unless the serial of inodes runs out of BIGINT, the inodes, entries,
  chunks and link targets outside the volume are the rows they were, and every number the
  kernel has been given stands for an inode below the volume's root or a new one.
\<close>

theorem volume_confined:
  assumes "ns_inv c0" and "txn_state c0 = NoTxn" and "ino_map (tabs c0) root \<noteq> None"
    and "\<forall>i. ino_map (tabs c0) i \<noteq> None \<longrightarrow> 0 < i"
    and "fuse_reach (\<lambda>F. \<exists>clk. F = secafs_fs L coll D cs clk) (fuse_new c0 root) srv K"
    and "seq_inode (store srv) \<le> 2 ^ 63"
  shows "outside (volume_space root c0) (tabs (store srv)) = outside (volume_space root c0) (tabs c0) \<and>
    (\<forall>k \<in> K. kernel_to_db root k \<in> volume_space root c0)"
proof -
  let ?S = "volume_space root c0"
  have F: "confined_fs F (confined ?S (outside ?S (tabs c0))) ?S (\<lambda>f. f_ino f \<in> ?S)"
    if "\<exists>clk. F = secafs_fs L coll D cs clk" for F
    using that by (elim exE) (simp only: secafs_confined.confined_fs_axioms)
  have alive: "alive (store srv)" using assms(6) by (simp add: alive_def)
  moreover have "alive c0"
    using reach_alive [OF assms(5) confined_fs.axioms(1) [OF F] alive] by (simp add: fuse_new_def)
  note range = volume_range [OF assms(1,3,4) this]
  have "root \<in> ?S" by (simp add: volume_space_def volume_inos_def)
  from reach_holds [OF assms(5) F this range volume_start [OF assms(1,2) refl] alive]
  show ?thesis by (auto simp: holds_def inner_def dest: confinedD(2))
qed

theorem volume_confined_witness:
  "let srv = snd (serve (secafs_fs (list_lru 8) length pg_types 4096 (\<lambda>_. Some (7, 8))) 0 0 (ReqMkdir 1 ''f'' 0x1ED) (fuse_new sample_fs 3))
   in seq_inode (store srv) = 6 \<and>
     outside (volume_space 3 sample_fs) (tabs (store srv)) = outside (volume_space 3 sample_fs) (tabs sample_fs)"
proof -
  let ?F = "secafs_fs (list_lru 8) length pg_types 4096 (\<lambda>_. Some (7, 8))"
  define step where "step = serve ?F 0 0 (ReqMkdir 1 ''f'' 0x1ED) (fuse_new sample_fs 3)"
  obtain c' where c': "fs_mkdir ?F 3 ''f'' 0x1ED 0 0 sample_fs = (Inr (build_stats_from_row
      (new_inode (S_IFDIR OR (0x1ED AND PERM_BITS)) 2 0 0 0 0 7 8 (seq_inode sample_fs))), c')"
      "created sample_fs c' 3 ''f'' (new_inode (S_IFDIR OR (0x1ED AND PERM_BITS)) 2 0 0 0 0 7 8 (seq_inode sample_fs))
        (\<lambda>r. set_cmtime 7 8 (add_nlink 1 r))"
    by (rule mkdir_ready [OF sample_fs_sel(3) sample_ns_inv sample_hyps(7,1,2) refl, of "list_lru 8" 7 8 "0x1ED" 0 0])
       (simp add: secafs_fs_def)
  have "store (snd step) = c'"
    by (simp add: step_def fuse_mkdir_def text_name_def at_db_def on_ok_def block_on_def fuse_new_def kernel_to_db_def c'(1)
        with_attr_def answer_def split: option.split)
  then have seq: "seq_inode (store (snd step)) = 6" using c'(2) by (simp add: created_def)
  have "fuse_reach (\<lambda>F. \<exists>clk. F = secafs_fs (list_lru 8) length pg_types 4096 clk) (fuse_new sample_fs 3) (snd step)
      ({1} \<union> reply_inos (fst step))"
    by (rule reach_request [OF reach_mount, where req = "ReqMkdir 1 ''f'' 0x1ED" and uid = 0 and gid = 0])
       (auto simp: step_def)
  from volume_confined [OF sample_ns_inv sample_fs_sel(2) _ _ this] seq
  show ?thesis by (simp add: step_def sample_ino_map split: if_splits)
qed

end
