(* ===== verification/Fuse_Replies.thy ===== *)
theory Fuse_Replies
  imports Fuse_Session
begin

text \<open>
  What a client of the FUSE server of \<open>Fuse\<close> can rely on: a listing read page by page is
  complete, and file handles are not handed out twice.
\<close>

section \<open>Pages of a listing\<close>

text \<open>
  A client reads a directory: it asks from the offset of the last entry it has got until a
  reply is empty, in at most \<open>n\<close> requests.
\<close>

fun read_pages ::
  "('s, 'f) file_system \<Rightarrow> nat \<Rightarrow> u64 \<Rightarrow> nat \<Rightarrow> i64 \<Rightarrow> ('s, 'f) server \<Rightarrow> (u64 \<times> i64 \<times> file_type \<times> string) list" where
  "read_pages F cap ino 0 offset srv = []"
| "read_pages F cap ino (Suc n) offset srv =
    (case fuse_readdir F cap ino offset srv of
       (ReplyDirectory items, srv') \<Rightarrow>
         if items = [] then [] else items @ read_pages F cap ino n (fst (snd (last items))) srv'
     | _ \<Rightarrow> [])"

lemma push_all_prefix: "\<exists>k. push_all sz cap used xs = take k xs"
proof (induction sz cap used xs rule: push_all.induct)
  case (2 sz cap used x xs)
  show ?case
  proof (cases "used + sz x > cap")
    case False
    then obtain k where "push_all sz cap (used + sz x) xs = take k xs" using 2 by auto
    then show ?thesis using False by (intro exI [of _ "Suc k"]) simp
  qed (auto intro: exI [of _ 0])
qed simp

lemma push_all_Cons: "sz x \<le> cap \<Longrightarrow> push_all sz cap 0 (x # xs) \<noteq> []"
  by simp

lemma page_progress:
  assumes "\<forall>x \<in> set xs. sz x \<le> cap" and "o' < length xs"
  obtains k where "push_all sz cap 0 (drop o' xs) = take k (drop o' xs)" and "0 < k" and "o' + k \<le> length xs"
proof -
  obtain k where k: "push_all sz cap 0 (drop o' xs) = take k (drop o' xs)" using push_all_prefix by blast
  obtain y ys where y: "drop o' xs = y # ys" using assms(2) by (cases "drop o' xs") auto
  then have "y \<in> set xs" using set_drop_subset [of o' xs] by auto
  then have "0 < k" using k y push_all_Cons [of sz y cap ys] assms(1) by (cases k) auto
  moreover have "take k (drop o' xs) = take (min k (length xs - o')) (drop o' xs)" by (simp add: min_def)
  ultimately show thesis using k assms(2) by (intro that [of "min k (length xs - o')"]) auto
qed

lemma length_dir_items [simp]: "length (dir_items root i es) = length es + 2"
  by (simp add: dir_items_def)

lemma numbered_nth:
  "k < length xs \<Longrightarrow> fst (snd (map (\<lambda>(i, ino, kind, name). (ino, int i + 1, kind, name)) (enumerate 0 xs) ! k)) = int k + 1"
  by (simp add: nth_enumerate_eq split_beta)

lemma numbered_map:
  "map (\<lambda>(k, _, t, n). g k t n) (map (\<lambda>(i, ino, kind, name). (ino, int i + 1, kind, name)) (enumerate m xs)) =
    map (\<lambda>(k, t, n). g k t n) xs"
  by (induction xs arbitrary: m) (auto simp: split_beta)

lemma dir_items_offset: "k < length es + 2 \<Longrightarrow> fst (snd (dir_items root i es ! k)) = int k + 1"
  unfolding dir_items_def by (rule numbered_nth) simp

lemma dir_items_map:
  "map (\<lambda>(k, _, t, n). g k t n) (dir_items root i es) = g i Directory ''.'' # g 1 Directory ''..'' #
    map (\<lambda>e. g (db_to_kernel root (st_ino (de_stats e))) (dir_kind (de_stats e)) (de_name e)) es"
  unfolding dir_items_def numbered_map by simp

lemma fuse_readdir_page:
  assumes "fs_readdir_plus F (kernel_to_db (root_ino srv) ino) (store srv) = (Inr (Some es), store srv)"
  shows "fuse_readdir F cap ino off srv =
    (ReplyDirectory (push_all (\<lambda>(_, _, _, n). ent_size DIRENT_SIZE n) cap 0 (drop (as_u64 off) (dir_items (root_ino srv) ino es))), srv)"
  using assms by (simp add: fuse_readdir_def at_db_def on_ok_def block_on_def or_enoent_def)

lemma read_pages_from:
  assumes "fs_readdir_plus F (kernel_to_db (root_ino srv) ino) (store srv) = (Inr (Some es), store srv)"
    and "length es + 2 < 2 ^ 63" and "32 \<le> cap" and "\<forall>e \<in> set es. ent_size DIRENT_SIZE (de_name e) \<le> cap"
    and "k \<le> length es + 2" and "length es + 2 - k < n"
  shows "read_pages F cap ino n (int k) srv = drop k (dir_items (root_ino srv) ino es)"
  using assms(5,6)
proof (induction n arbitrary: k)
  case (Suc n)
  let ?xs = "dir_items (root_ino srv) ino es" and ?sz = "\<lambda>(_ :: u64, _ :: i64, _ :: file_type, n). ent_size DIRENT_SIZE n"
  have k: "as_u64 (int k) = k" using Suc.prems(1) assms(2) by simp
  show ?case
  proof (cases "k = length es + 2")
    case True
    then have "drop k ?xs = []" by simp
    then show ?thesis by (simp add: fuse_readdir_page [OF assms(1)] k)
  next
    case False
    have "n = ''.'' \<or> n = ''..'' \<or> n \<in> de_name ` set es" if "(a, b, c, n) \<in> set ?xs" for a b c n
    proof -
      have "n \<in> set (map (\<lambda>(_, _, _, n). n) ?xs)" using that by force
      then show ?thesis unfolding dir_items_map by auto
    qed
    then have fits: "\<forall>x \<in> set ?xs. ?sz x \<le> cap"
      using assms(3,4) by (fastforce simp: ent_size_def DIRENT_SIZE_def)
    have "k < length ?xs" using False Suc.prems(1) by simp
    from page_progress [OF fits this] obtain j
      where j: "push_all ?sz cap 0 (drop k ?xs) = take j (drop k ?xs)" "0 < j" "k + j \<le> length ?xs" .
    have "last (take j (drop k ?xs)) = ?xs ! (k + j - 1)"
      using j(2,3) by (subst last_conv_nth) (auto simp: min_absorb2)
    then have off: "fst (snd (last (take j (drop k ?xs)))) = int (k + j)"
      using j(2,3) by (simp add: dir_items_offset)
    have "read_pages F cap ino n (int (k + j)) srv = drop (k + j) ?xs"
      using j(2,3) Suc.prems by (intro Suc.IH) auto
    then show ?thesis
      using j off by (simp add: fuse_readdir_page [OF assms(1)] k) (metis append_take_drop_id drop_drop add.commute)
  qed
qed simp

text \<open>
  C23.  A directory read in pages is listed completely: when every entry fits a reply on its own
  and the directory does not change, reading on from the offset of the last entry of each
  reply gives \<open>.\<close>, \<open>..\<close> and every entry of the directory exactly once and in order, however small
  the replies, and ends after at most one more request than there are entries.
\<close>

theorem readdir_pages_complete:
  assumes "fs_readdir_plus F (kernel_to_db (root_ino srv) ino) (store srv) = (Inr (Some es), store srv)"
    and "length es + 2 < 2 ^ 63" and "32 \<le> cap" and "\<forall>e \<in> set es. ent_size DIRENT_SIZE (de_name e) \<le> cap"
    and "length es + 2 < n"
  shows "map (\<lambda>(k, _, _, name). (k, name)) (read_pages F cap ino n 0 srv) =
    (ino, ''.'') # (1, ''..'') # map (\<lambda>e. (db_to_kernel (root_ino srv) (st_ino (de_stats e)), de_name e)) es"
proof -
  have "read_pages F cap ino n 0 srv = dir_items (root_ino srv) ino es"
    using read_pages_from [OF assms(1-4), of 0 n] assms(5) by simp
  then show ?thesis by (simp only: dir_items_map)
qed

theorem readdir_pages_complete_witness:
  "map (\<lambda>(k, _, _, name). (k, name))
     (read_pages (secafs_fs (list_lru 8) length pg_types 4096 (\<lambda>_. Some (7, 8))) 40 1 6 0 (fuse_new sample_fs 1)) =
   [(1, ''.''), (1, ''..''), (2, ''a''), (3, ''d''), (4, ''l'')]"
proof -
  let ?F = "secafs_fs (list_lru 8) length pg_types 4096 (\<lambda>_. Some (7, 8))"
  let ?e = "\<lambda>n i. \<lparr>de_name = n, de_stats = build_stats_from_row (the (ino_map sample_tables i))\<rparr>"
  have "fs_readdir_plus ?F 1 sample_fs = (Inr (Some [?e ''a'' 2, ?e ''d'' 3, ?e ''l'' 4]), sample_fs)"
    by (simp add: secafs_fs_def readdir_plus_def run sample_fs_sel(3) select_mode_def sample_tables_def sample_inode_def
        ino_map_def mode_defs u32_of_i64_def)
  then show ?thesis
    using readdir_pages_complete [of ?F "fuse_new sample_fs 1" 1 "[?e ''a'' 2, ?e ''d'' 3, ?e ''l'' 4]" 40 6]
    by (simp add: fuse_new_def kernel_to_db_def db_to_kernel_def ent_size_def DIRENT_SIZE_def build_stats_from_row_def sample_ino_map)
qed

section \<open>File handles\<close>

fun reply_fh :: "reply \<Rightarrow> u64 option" where
  "reply_fh (ReplyOpened fh) = Some fh"
| "reply_fh (ReplyCreated a fh) = Some fh"
| "reply_fh _ = None"

text \<open>What a request does to the table of open files: nothing, one insertion under the next handle, or one removal.\<close>

definition handle_step :: "('s, 'f) server \<Rightarrow> reply \<Rightarrow> ('s, 'f) server \<Rightarrow> bool" where
  "handle_step srv r srv' \<longleftrightarrow>
    (case reply_fh r of
       None \<Rightarrow> next_fh srv' = next_fh srv \<and> open_files srv' \<subseteq>\<^sub>m open_files srv
     | Some fh \<Rightarrow> fh = next_fh srv \<and> next_fh srv' = u64_add fh 1 \<and> (\<exists>f. open_files srv' = (open_files srv)(fh \<mapsto> f)))"

definition tracks :: "('s, 'f) request \<Rightarrow> bool" where
  "tracks m \<longleftrightarrow> (\<forall>srv. handle_step srv (fst (m srv)) (snd (m srv)))"

named_theorems track \<open>requests that treat the table of open files properly\<close>

lemma handle_store [simp]: "handle_step (srv\<lparr>store := s\<rparr>) r srv' = handle_step srv r srv'"
  by (simp add: handle_step_def split: option.split)

lemma handle_refl [simp]: "reply_fh r = None \<Longrightarrow> handle_step srv r srv" "reply_fh r = None \<Longrightarrow> handle_step srv r (srv\<lparr>store := s\<rparr>)"
  by (simp_all add: handle_step_def)

lemma tracks_rules [track]:
  "reply_fh r = None \<Longrightarrow> tracks (answer r)"
  "(\<And>x. tracks (k1 x)) \<Longrightarrow> tracks (with_attr st k1)"
  "(\<And>x. tracks (k2 x)) \<Longrightarrow> tracks (or_enoent k2 v)"
  "tracks k3 \<Longrightarrow> tracks (text_name n k3)"
  "(\<And>x. tracks (k4 x)) \<Longrightarrow> tracks (at_db i k4)"
  "(\<And>x. tracks (k5 x)) \<Longrightarrow> tracks (with_file fh k5)"
  "tracks m1 \<Longrightarrow> tracks m2 \<Longrightarrow> tracks (if b then m1 else m2)"
  "tracks m3 \<Longrightarrow> (\<And>x. tracks (k7 x)) \<Longrightarrow> tracks (case v' of None \<Rightarrow> m3 | Some x \<Rightarrow> k7 x)"
  "(\<And>x y. tracks (k8 x y)) \<Longrightarrow> tracks (case z of (x, y) \<Rightarrow> k8 x y)"
  by (auto simp: tracks_def answer_def with_attr_def or_enoent_def text_name_def at_db_def with_file_def
      split: option.split prod.split)

lemma tracks_add_file [track]: "(\<And>h. reply_fh (g h) = Some h) \<Longrightarrow> tracks (add_file f (\<lambda>h. answer (g h)))"
  by (auto simp: tracks_def answer_def add_file_def handle_step_def Let_def)

lemma tracks_block_on [track]:
  assumes "\<And>r. tracks (k r)"
  shows "tracks (block_on m k)"
proof -
  have "handle_step srv (fst (k r (srv\<lparr>store := s\<rparr>))) (snd (k r (srv\<lparr>store := s\<rparr>)))" for r srv s
    using assms [of r, unfolded tracks_def, rule_format, of "srv\<lparr>store := s\<rparr>"] by simp
  then show ?thesis by (simp add: tracks_def block_on_def split_beta split: sum.split)
qed

lemma tracks_on_ok [track]: "(\<And>x. tracks (k x)) \<Longrightarrow> tracks (on_ok m k)"
  unfolding on_ok_def by (intro tracks_block_on) (auto intro: track split: sum.split)

lemma tracks_release: "tracks (fuse_release fh)"
  by (auto simp: tracks_def fuse_release_def handle_step_def map_le_def)

lemma tracks_pure: "(\<And>srv. reply_fh (r srv) = None) \<Longrightarrow> tracks (\<lambda>srv. (r srv, srv))"
  by (simp add: tracks_def)

lemma tracks_root:
  assumes "\<And>srv. reply_fh (r srv) = None" and "\<And>p srv. reply_fh (q p srv) = None"
  shows "tracks (\<lambda>srv. if j = root_ino srv then (r srv, srv) else block_on (fs_getattr F (root_ino srv)) (\<lambda>p srv. (q p srv, srv)) srv)"
  using assms tracks_block_on [of "\<lambda>p srv. (q p srv, srv)"] by (simp add: tracks_def)

lemma tracks_readdirplus: "tracks (fuse_readdirplus F cap i off)"
  unfolding fuse_readdirplus_def Let_def by (intro track tracks_root) (simp_all split: option.split)

lemma tracks_serve: "tracks (serve F uid gid req)"
proof -
  have state: "tracks (fuse_forget F i k)" "tracks (fuse_batch_forget F ks)" "tracks (fuse_statfs F)" for i k ks
    by (simp_all add: tracks_def fuse_forget_def fuse_batch_forget_def at_db_def fuse_statfs_def block_on_def answer_def
        Let_def split_beta split: sum.split)
  have "tracks (fuse_readdir F cap i off)" for cap i off
    unfolding fuse_readdir_def by (intro track) (simp add: tracks_def)
  moreover have "tracks (fuse_setattr F i m u g sz a t fh)" for i m u g sz a t fh
    unfolding fuse_setattr_def Let_def by (intro track) simp_all
  ultimately show ?thesis
    by (cases req) (auto simp: state tracks_release tracks_readdirplus requests intro!: track)
qed

text \<open>A sequence of requests, each with the trait object it finds and the credentials of its caller.\<close>

definition serve_all :: "(('s, 'f) file_system \<times> u32 \<times> u32 \<times> fuse_req) list \<Rightarrow> ('s, 'f) server \<Rightarrow> ('s, 'f) server" where
  "serve_all reqs = fold (\<lambda>(F, uid, gid, req) srv. snd (serve F uid gid req srv)) reqs"

definition handles_below :: "nat \<Rightarrow> ('s, 'f) server \<Rightarrow> bool" where
  "handles_below n srv \<longleftrightarrow> next_fh srv \<le> n \<and> (\<forall>fh. open_files srv fh \<noteq> None \<longrightarrow> fh < next_fh srv)"

lemma handle_step_below:
  assumes "handles_below n srv" and "handle_step srv r srv'" and "n < 2 ^ 64 - 1"
  shows "handles_below (Suc n) srv'"
proof (cases "reply_fh r")
  case None
  then have "open_files srv' \<subseteq>\<^sub>m open_files srv" "next_fh srv' = next_fh srv" using assms(2) by (simp_all add: handle_step_def)
  then have "open_files srv fh \<noteq> None" if "open_files srv' fh \<noteq> None" for fh
    using that by (metis domI map_le_def not_None_eq)
  then show ?thesis using assms(1) \<open>next_fh srv' = next_fh srv\<close> by (auto simp: handles_below_def)
next
  case (Some fh)
  then show ?thesis using assms by (fastforce simp: handle_step_def handles_below_def u64_add_def)
qed

lemma serve_all_below:
  assumes "n + length reqs < 2 ^ 64" and "handles_below n srv"
  shows "handles_below (n + length reqs) (serve_all reqs srv)"
  using assms
proof (induction reqs arbitrary: n srv)
  case (Cons q reqs)
  obtain F uid gid req where q: "q = (F, uid, gid, req)" by (cases q)
  have "handles_below (Suc n) (snd (serve F uid gid req srv))"
    by (rule handle_step_below [OF Cons.prems(2) tracks_serve [unfolded tracks_def, rule_format]]) (use Cons.prems(1) in simp)
  then show ?case using Cons.IH [of "Suc n"] Cons.prems(1) by (simp add: serve_all_def q)
qed (simp add: serve_all_def)

text \<open>
  C24.  File handles are not handed out twice: after fewer than \<open>2 ^ 64 - 1\<close> requests of any kind
  on a new mount, on whatever trait object, a handle that is returned by an open or a create
  is not the handle of a file that is still open, the file is found under it from then on,
  and every other open file stays.
\<close>

theorem handles_fresh:
  assumes "length reqs < 2 ^ 64 - 1" and "srv = serve_all reqs (fuse_new s root)"
    and "serve F uid gid req srv = (r, srv')" and "reply_fh r = Some fh"
  shows "open_files srv fh = None \<and> (\<exists>f. open_files srv' = (open_files srv)(fh \<mapsto> f))"
proof -
  have "handles_below (1 + length reqs) srv"
    unfolding assms(2) by (rule serve_all_below) (use assms(1) in \<open>auto simp: handles_below_def fuse_new_def\<close>)
  moreover have "handle_step srv r srv'"
    using tracks_serve [of F uid gid req] assms(3) unfolding tracks_def by (metis fst_conv snd_conv)
  ultimately show ?thesis using assms(4) by (auto simp: handles_below_def handle_step_def)
qed

theorem handles_fresh_witness:
  "let F = secafs_fs (list_lru 8) length pg_types 4096 (\<lambda>_. Some (7, 8));
       srv = serve_all [(F, 0, 0, ReqOpen 2 0)] (fuse_new sample_fs 1)
   in fst (serve F 0 0 (ReqOpen 2 0) srv) = ReplyOpened 2 \<and> open_files srv 1 \<noteq> None \<and> open_files srv 2 = None"
proof -
  let ?F = "secafs_fs (list_lru 8) length pg_types 4096 (\<lambda>_. Some (7, 8))"
  have "fs_open_file ?F 2 0 sample_fs = (Inr \<lparr>f_ino = 2, f_chunk_size = 4096\<rparr>, sample_fs)"
    by (simp add: secafs_fs_def fs_open_def run sample_fs_sel(3) select_ino_def sample_tables_def sample_inode_def)
  then have run: "serve_all [(?F, 0, 0, ReqOpen 2 0)] (fuse_new sample_fs 1) =
        \<lparr>store = sample_fs, open_files = [1 \<mapsto> \<lparr>f_ino = 2, f_chunk_size = 4096\<rparr>], next_fh = 2, root_ino = 1\<rparr>"
    "fst (serve ?F 0 0 (ReqOpen 2 0) (serve_all [(?F, 0, 0, ReqOpen 2 0)] (fuse_new sample_fs 1))) = ReplyOpened 2"
    by (simp_all add: serve_all_def fuse_open_def at_db_def kernel_to_db_def on_ok_def block_on_def add_file_def answer_def
        fuse_new_def u64_add_def Let_def)
  show ?thesis
    using handles_fresh [of "[(?F, 0, 0, ReqOpen 2 0)]", OF _ refl prod.collapse [symmetric], of ?F 0 0 "ReqOpen 2 0" sample_fs 1 2] run
    by simp
qed

end
