(* ===== verification/Nfs_Vfs.thy ===== *)
theory Nfs_Vfs
  imports Fuse
begin

text \<open>
  The file system of the NFS server: \<open>AgentNFS\<close> of \<open>cli/src/nfs.rs\<close>, which serves the trait
  \<open>NFSFileSystem\<close> from a \<open>FileSystem\<close> trait object, the default methods of that trait
  (\<open>nfsserve/vfs.rs\<close>) and the permission checks of \<open>nfsserve/permissions.rs\<close>.
\<close>

section \<open>Protocol types\<close>

datatype nfsstat3 =
    NFS3_OK | NFS3ERR_PERM | NFS3ERR_NOENT | NFS3ERR_IO | NFS3ERR_NXIO | NFS3ERR_ACCES | NFS3ERR_EXIST
  | NFS3ERR_XDEV | NFS3ERR_NODEV | NFS3ERR_NOTDIR | NFS3ERR_ISDIR | NFS3ERR_INVAL | NFS3ERR_FBIG
  | NFS3ERR_NOSPC | NFS3ERR_ROFS | NFS3ERR_MLINK | NFS3ERR_NAMETOOLONG | NFS3ERR_NOTEMPTY | NFS3ERR_DQUOT
  | NFS3ERR_STALE | NFS3ERR_REMOTE | NFS3ERR_BADHANDLE | NFS3ERR_NOT_SYNC | NFS3ERR_BAD_COOKIE
  | NFS3ERR_NOTSUPP | NFS3ERR_TOOSMALL | NFS3ERR_SERVERFAULT | NFS3ERR_BADTYPE | NFS3ERR_JUKEBOX

datatype ftype3 = NF3REG | NF3DIR | NF3BLK | NF3CHR | NF3LNK | NF3SOCK | NF3FIFO

text \<open>A time is seconds and nanoseconds; \<open>specdata3\<close> is the major and the minor number of a device.\<close>

type_synonym nfstime3 = "u32 \<times> u32"
type_synonym specdata3 = "u32 \<times> u32"
type_synonym nfs_fh3 = bytes

record fattr3 =
  fa_ftype :: ftype3
  fa_mode :: u32
  fa_nlink :: u32
  fa_uid :: u32
  fa_gid :: u32
  fa_size :: u64
  fa_used :: u64
  fa_rdev :: specdata3
  fa_fsid :: u64
  fa_fileid :: u64
  fa_atime :: nfstime3
  fa_mtime :: nfstime3
  fa_ctime :: nfstime3

datatype set_time3 = DONT_CHANGE | SET_TO_SERVER_TIME | SET_TO_CLIENT_TIME nfstime3

record sattr3 =
  sa_mode :: "u32 option"
  sa_uid :: "u32 option"
  sa_gid :: "u32 option"
  sa_size :: "u64 option"
  sa_atime :: set_time3
  sa_mtime :: set_time3

definition sattr3_default :: sattr3 where
  "sattr3_default = \<lparr>sa_mode = None, sa_uid = None, sa_gid = None, sa_size = None, sa_atime = DONT_CHANGE, sa_mtime = DONT_CHANGE\<rparr>"

text \<open>The credentials of a caller.\<close>

record auth_unix =
  au_stamp :: u32
  au_machinename :: bytes
  au_uid :: u32
  au_gid :: u32
  au_gids :: "u32 list"

section \<open>Results\<close>

text \<open>A method of \<open>NFSFileSystem\<close> ends with a status, with a value, or with a panic.\<close>

datatype nfs_stop = Status nfsstat3 | Aborted

type_synonym ('s, 'a) nfs = "'s \<Rightarrow> (nfs_stop + 'a) \<times> 's"

definition nret :: "'a \<Rightarrow> ('s, 'a) nfs" where
  "nret x s = (Inr x, s)"

definition nstop :: "nfsstat3 \<Rightarrow> ('s, 'a) nfs" where
  "nstop e s = (Inl (Status e), s)"

definition nbnd :: "('s, 'a) nfs \<Rightarrow> ('a \<Rightarrow> ('s, 'b) nfs) \<Rightarrow> ('s, 'b) nfs" where
  "nbnd m k s = (case m s of (Inl e, s') \<Rightarrow> (Inl e, s') | (Inr x, s') \<Rightarrow> k x s')"

definition error_to_nfsstat :: "error \<Rightarrow> nfsstat3" where
  "error_to_nfsstat e =
    (case e of
       Fs fs_err \<Rightarrow>
         (case fs_err of
            NotFound \<Rightarrow> NFS3ERR_NOENT
          | AlreadyExists \<Rightarrow> NFS3ERR_EXIST
          | NotEmpty \<Rightarrow> NFS3ERR_NOTEMPTY
          | NotADirectory \<Rightarrow> NFS3ERR_NOTDIR
          | IsADirectory \<Rightarrow> NFS3ERR_ISDIR
          | NameTooLong \<Rightarrow> NFS3ERR_NAMETOOLONG
          | RootOperation \<Rightarrow> NFS3ERR_ACCES
          | _ \<Rightarrow> NFS3ERR_IO)
     | _ \<Rightarrow> NFS3ERR_IO)"

text \<open>A call of the \<open>FileSystem\<close>, with \<open>map_err\<close> and \<open>?\<close>.\<close>

definition ask_as :: "(error \<Rightarrow> nfsstat3) \<Rightarrow> ('s, 'a) oper \<Rightarrow> ('a \<Rightarrow> ('s, 'b) nfs) \<Rightarrow> ('s, 'b) nfs" where
  "ask_as f m k s =
    (case m s of
       (Inl e, s') \<Rightarrow> (Inl (if e = Panic then Aborted else Status (f e)), s')
     | (Inr x, s') \<Rightarrow> k x s')"

abbreviation ask :: "('s, 'a) oper \<Rightarrow> ('a \<Rightarrow> ('s, 'b) nfs) \<Rightarrow> ('s, 'b) nfs" where
  "ask \<equiv> ask_as error_to_nfsstat"

definition or_noent :: "'a option \<Rightarrow> ('a \<Rightarrow> ('s, 'b) nfs) \<Rightarrow> ('s, 'b) nfs" where
  "or_noent v k = (case v of None \<Rightarrow> nstop NFS3ERR_NOENT | Some x \<Rightarrow> k x)"

definition named :: "string \<Rightarrow> ('s, 'b) nfs \<Rightarrow> ('s, 'b) nfs" where
  "named name m = (if utf8 name then m else nstop NFS3ERR_INVAL)"

section \<open>The adapter\<close>

text \<open>The device numbers of the crate \<open>libc\<close>.\<close>

record dev_lib =
  dev_major :: "u64 \<Rightarrow> u32"
  dev_minor :: "u64 \<Rightarrow> u32"
  makedev :: "u32 \<Rightarrow> u32 \<Rightarrow> u64"

definition NFS_ROOT_INO :: u64 where "NFS_ROOT_INO = 1"

definition id_to_fs_ino :: "u64 \<Rightarrow> i64" where
  "id_to_fs_ino = as_i64"

definition ftype_of_mode :: "u32 \<Rightarrow> ftype3" where
  "ftype_of_mode mode =
    (let t = mode AND S_IFMT in
     if t = S_IFREG then NF3REG
     else if t = S_IFDIR then NF3DIR
     else if t = S_IFLNK then NF3LNK
     else if t = S_IFIFO then NF3FIFO
     else if t = S_IFCHR then NF3CHR
     else if t = S_IFBLK then NF3BLK
     else if t = S_IFSOCK then NF3SOCK
     else NF3REG)"

definition stats_to_fattr :: "dev_lib \<Rightarrow> stats \<Rightarrow> fattr3" where
  "stats_to_fattr V st =
    \<lparr>fa_ftype = ftype_of_mode (st_mode st), fa_mode = st_mode st AND PERM_BITS, fa_nlink = st_nlink st,
     fa_uid = st_uid st, fa_gid = st_gid st, fa_size = as_u64 (st_size st), fa_used = as_u64 (st_size st),
     fa_rdev = (dev_major V (st_rdev st), dev_minor V (st_rdev st)), fa_fsid = 0, fa_fileid = as_u64 (st_ino st),
     fa_atime = (u32_of_i64 (st_atime st), st_atime_nsec st), fa_mtime = (u32_of_i64 (st_mtime st), st_mtime_nsec st),
     fa_ctime = (u32_of_i64 (st_ctime st), st_ctime_nsec st)\<rparr>"

datatype vfs_capabilities = ReadOnly | ReadWrite

definition nfs_capabilities :: vfs_capabilities where
  "nfs_capabilities = ReadWrite"

definition nfs_lookup :: "('s, 'f) file_system \<Rightarrow> u64 \<Rightarrow> string \<Rightarrow> ('s, u64) nfs" where
  "nfs_lookup F dirid name =
    named name
     (if name = ''.'' then nret dirid
      else if name = ''..'' then
        ask (fs_lookup F (id_to_fs_ino dirid) ''..'') (\<lambda>r. or_noent r (\<lambda>st. nret (as_u64 (st_ino st))))
      else
        ask (fs_getattr F (id_to_fs_ino dirid)) (\<lambda>d. or_noent d (\<lambda>dir_stats.
          if \<not> is_directory dir_stats then nstop NFS3ERR_NOTDIR
          else ask (fs_lookup F (id_to_fs_ino dirid) name) (\<lambda>r. or_noent r (\<lambda>st. nret (as_u64 (st_ino st)))))))"

definition nfs_getattr :: "('s, 'f) file_system \<Rightarrow> dev_lib \<Rightarrow> u64 \<Rightarrow> ('s, fattr3) nfs" where
  "nfs_getattr F V i =
    ask (fs_getattr F (id_to_fs_ino i)) (\<lambda>r. or_noent r (\<lambda>st. nret (stats_to_fattr V st)))"

definition nfs_time_change :: "set_time3 \<Rightarrow> time_change" where
  "nfs_time_change t =
    (case t of
       SET_TO_CLIENT_TIME (secs, nsecs) \<Rightarrow> SetTime (uint secs) nsecs
     | SET_TO_SERVER_TIME \<Rightarrow> Now
     | DONT_CHANGE \<Rightarrow> Omit)"

definition nfs_setattr :: "('s, 'f) file_system \<Rightarrow> dev_lib \<Rightarrow> u64 \<Rightarrow> sattr3 \<Rightarrow> ('s, fattr3) nfs" where
  "nfs_setattr F V i a =
    (let fs_ino = id_to_fs_ino i;
         attrs = ask (fs_getattr F fs_ino) (\<lambda>r. or_noent r (\<lambda>st. nret (stats_to_fattr V st)));
         new_atime = nfs_time_change (sa_atime a);
         new_mtime = nfs_time_change (sa_mtime a);
         set_times = (if new_atime \<noteq> Omit \<or> new_mtime \<noteq> Omit then ask (fs_utimens F fs_ino new_atime new_mtime) (\<lambda>_. attrs) else attrs);
         set_size = (case sa_size a of
                       None \<Rightarrow> set_times
                     | Some sz \<Rightarrow> ask (fs_open_file F fs_ino O_RDWR) (\<lambda>f. ask (file_truncate F f sz) (\<lambda>_. set_times)));
         set_owner = (if sa_uid a \<noteq> None \<or> sa_gid a \<noteq> None
                      then ask (fs_chown F fs_ino (sa_uid a) (sa_gid a)) (\<lambda>_. set_size) else set_size)
     in case sa_mode a of None \<Rightarrow> set_owner | Some mode \<Rightarrow> ask (fs_chmod F fs_ino mode) (\<lambda>_. set_owner))"

definition O_RDONLY :: int where "O_RDONLY = 0"

definition nfs_read :: "('s, 'f) file_system \<Rightarrow> u64 \<Rightarrow> u64 \<Rightarrow> u32 \<Rightarrow> ('s, bytes \<times> bool) nfs" where
  "nfs_read F i off cnt =
    ask_as (\<lambda>_. NFS3ERR_NOENT) (fs_open_file F (id_to_fs_ino i) O_RDONLY) (\<lambda>f.
    ask (file_pread F f off (unat cnt)) (\<lambda>data.
    ask (file_fstat F f) (\<lambda>st.
      nret (data, u64_add off (length data) \<ge> as_u64 (st_size st)))))"

definition nfs_write :: "('s, 'f) file_system \<Rightarrow> dev_lib \<Rightarrow> u64 \<Rightarrow> u64 \<Rightarrow> bytes \<Rightarrow> ('s, fattr3) nfs" where
  "nfs_write F V i off data =
    ask (fs_open_file F (id_to_fs_ino i) O_RDWR) (\<lambda>f.
    ask (file_pwrite F f off data) (\<lambda>_.
    ask (fs_getattr F (id_to_fs_ino i)) (\<lambda>r. or_noent r (\<lambda>st. nret (stats_to_fattr V st)))))"

text \<open>The permissions of a new file: those asked for, or a default.\<close>

definition new_mode :: "u32 \<Rightarrow> sattr3 \<Rightarrow> u32" where
  "new_mode dflt a = (case sa_mode a of Some m \<Rightarrow> m AND PERM_BITS | None \<Rightarrow> dflt)"

definition nfs_create ::
  "('s, 'f) file_system \<Rightarrow> dev_lib \<Rightarrow> u64 \<Rightarrow> string \<Rightarrow> sattr3 \<Rightarrow> auth_unix \<Rightarrow> ('s, u64 \<times> fattr3) nfs" where
  "nfs_create F V dirid name a auth =
    named name
     (ask (fs_create_file F (id_to_fs_ino dirid) name (S_IFREG OR new_mode 0x1A4 a) (au_uid auth) (au_gid auth)) (\<lambda>(st, _).
        nret (as_u64 (st_ino st), stats_to_fattr V st)))"

definition nfs_create_exclusive :: "('s, 'f) file_system \<Rightarrow> u64 \<Rightarrow> string \<Rightarrow> auth_unix \<Rightarrow> ('s, u64) nfs" where
  "nfs_create_exclusive F dirid name auth =
    named name
     (ask (fs_lookup F (id_to_fs_ino dirid) name) (\<lambda>r.
        if r \<noteq> None then nstop NFS3ERR_EXIST
        else ask (fs_create_file F (id_to_fs_ino dirid) name (S_IFREG OR 0x1A4) (au_uid auth) (au_gid auth)) (\<lambda>(st, _).
               nret (as_u64 (st_ino st)))))"

definition nfs_mkdir ::
  "('s, 'f) file_system \<Rightarrow> dev_lib \<Rightarrow> u64 \<Rightarrow> string \<Rightarrow> sattr3 \<Rightarrow> auth_unix \<Rightarrow> ('s, u64 \<times> fattr3) nfs" where
  "nfs_mkdir F V dirid name a auth =
    named name
     (ask (fs_mkdir F (id_to_fs_ino dirid) name (new_mode 0x1ED a) (au_uid auth) (au_gid auth)) (\<lambda>st.
        nret (as_u64 (st_ino st), stats_to_fattr V st)))"

definition special_type :: "ftype3 \<Rightarrow> u32 option" where
  "special_type t =
    (case t of
       NF3CHR \<Rightarrow> Some S_IFCHR | NF3BLK \<Rightarrow> Some S_IFBLK | NF3SOCK \<Rightarrow> Some S_IFSOCK | NF3FIFO \<Rightarrow> Some S_IFIFO | _ \<Rightarrow> None)"

definition nfs_mknod ::
  "('s, 'f) file_system \<Rightarrow> dev_lib \<Rightarrow> u64 \<Rightarrow> string \<Rightarrow> ftype3 \<Rightarrow> sattr3 \<Rightarrow> specdata3 \<Rightarrow> auth_unix \<Rightarrow>
   ('s, u64 \<times> fattr3) nfs" where
  "nfs_mknod F V dirid name t a rdev auth =
    named name
     (case special_type t of
        None \<Rightarrow> nstop NFS3ERR_BADTYPE
      | Some type_mode \<Rightarrow>
          ask (fs_mknod F (id_to_fs_ino dirid) name (type_mode OR new_mode 0x1A4 a) (makedev V (fst rdev) (snd rdev))
                 (au_uid auth) (au_gid auth)) (\<lambda>st.
            nret (as_u64 (st_ino st), stats_to_fattr V st)))"

definition nfs_remove :: "('s, 'f) file_system \<Rightarrow> u64 \<Rightarrow> string \<Rightarrow> ('s, unit) nfs" where
  "nfs_remove F dirid name =
    named name
     (ask (fs_lookup F (id_to_fs_ino dirid) name) (\<lambda>r. or_noent r (\<lambda>st.
        if is_directory st then ask (fs_rmdir F (id_to_fs_ino dirid) name) nret
        else ask (fs_unlink F (id_to_fs_ino dirid) name) nret)))"

definition nfs_rename :: "('s, 'f) file_system \<Rightarrow> u64 \<Rightarrow> string \<Rightarrow> u64 \<Rightarrow> string \<Rightarrow> ('s, unit) nfs" where
  "nfs_rename F from_dirid from_name to_dirid to_name =
    named from_name (named to_name
     (ask (fs_rename F (id_to_fs_ino from_dirid) from_name (id_to_fs_ino to_dirid) to_name) nret))"

definition nfs_link :: "('s, 'f) file_system \<Rightarrow> dev_lib \<Rightarrow> u64 \<Rightarrow> u64 \<Rightarrow> string \<Rightarrow> ('s, fattr3) nfs" where
  "nfs_link F V i dirid name =
    named name (ask (fs_link F (id_to_fs_ino i) (id_to_fs_ino dirid) name) (\<lambda>st. nret (stats_to_fattr V st)))"

record nfs_entry =
  ne_fileid :: u64
  ne_name :: string
  ne_attr :: fattr3

definition nfs_entry_of :: "dev_lib \<Rightarrow> dir_entry \<Rightarrow> nfs_entry" where
  "nfs_entry_of V e =
    \<lparr>ne_fileid = as_u64 (st_ino (de_stats e)), ne_name = de_name e, ne_attr = stats_to_fattr V (de_stats e)\<rparr>"

text \<open>The loop of \<open>readdir\<close>: entries up to the one numbered \<open>start_after\<close> are skipped and counted.\<close>

fun readdir_loop ::
  "dev_lib \<Rightarrow> u64 \<Rightarrow> nat \<Rightarrow> bool \<Rightarrow> nat \<Rightarrow> nfs_entry list \<Rightarrow> dir_entry list \<Rightarrow> nfs_entry list \<times> nat" where
  "readdir_loop V start_after max_entries skip skipped res [] = (res, skipped)"
| "readdir_loop V start_after max_entries skip skipped res (e # es) =
    (if skip then
       readdir_loop V start_after max_entries (as_u64 (st_ino (de_stats e)) \<noteq> start_after) (skipped + 1) res es
     else if length res \<ge> max_entries then (res, skipped)
     else readdir_loop V start_after max_entries skip skipped (res @ [nfs_entry_of V e]) es)"

definition nfs_readdir ::
  "('s, 'f) file_system \<Rightarrow> dev_lib \<Rightarrow> u64 \<Rightarrow> u64 \<Rightarrow> nat \<Rightarrow> ('s, nfs_entry list \<times> bool) nfs" where
  "nfs_readdir F V dirid start_after max_entries =
    ask (fs_readdir_plus F (id_to_fs_ino dirid)) (\<lambda>r. or_noent r (\<lambda>entries.
      let (res, skipped) = readdir_loop V start_after max_entries (start_after > 0) 0 [] entries
      in nret (res, length res + skipped \<ge> length entries)))"

definition nfs_symlink ::
  "('s, 'f) file_system \<Rightarrow> dev_lib \<Rightarrow> u64 \<Rightarrow> string \<Rightarrow> string \<Rightarrow> auth_unix \<Rightarrow> ('s, u64 \<times> fattr3) nfs" where
  "nfs_symlink F V dirid name target auth =
    named name (named target
     (ask (fs_make_symlink F (id_to_fs_ino dirid) name target (au_uid auth) (au_gid auth)) (\<lambda>st.
        nret (as_u64 (st_ino st), stats_to_fattr V st))))"

definition nfs_readlink :: "('s, 'f) file_system \<Rightarrow> u64 \<Rightarrow> ('s, string) nfs" where
  "nfs_readlink F i = ask (fs_readlink F (id_to_fs_ino i)) (\<lambda>r. or_noent r nret)"

section \<open>Default methods\<close>

definition readdir_simple ::
  "('s, 'f) file_system \<Rightarrow> dev_lib \<Rightarrow> u64 \<Rightarrow> nat \<Rightarrow> ('s, (u64 \<times> string) list \<times> bool) nfs" where
  "readdir_simple F V dirid cnt =
    nbnd (nfs_readdir F V dirid 0 cnt) (\<lambda>(es, end). nret (map (\<lambda>e. (ne_fileid e, ne_name e)) es, end))"

text \<open>The handle of a file: the generation number of the server and the file's number, little-endian.\<close>

definition to_le_bytes :: "nat \<Rightarrow> u64 \<Rightarrow> bytes" where
  "to_le_bytes k n = map (\<lambda>i. of_nat (n div 256 ^ i)) [0..<k]"

definition from_le_bytes :: "bytes \<Rightarrow> u64" where
  "from_le_bytes bs = foldr (\<lambda>b n. unat b + 256 * n) bs 0"

definition id_to_fh :: "u64 \<Rightarrow> u64 \<Rightarrow> nfs_fh3" where
  "id_to_fh gennum i = to_le_bytes 8 gennum @ to_le_bytes 8 i"

definition fh_to_id :: "u64 \<Rightarrow> nfs_fh3 \<Rightarrow> nfsstat3 + u64" where
  "fh_to_id gennum fh =
    (if length fh \<noteq> 16 then Inl NFS3ERR_BADHANDLE
     else
       let gen = from_le_bytes (take 8 fh); i = from_le_bytes (drop 8 fh)
       in if gen < gennum then Inl NFS3ERR_STALE else if gen > gennum then Inl NFS3ERR_BADHANDLE else Inr i)"

text \<open>\<open>path_to_id\<close>: the components between slashes, looked up from the root.\<close>

fun walk_ids :: "('s, 'f) file_system \<Rightarrow> u64 \<Rightarrow> string list \<Rightarrow> ('s, u64) nfs" where
  "walk_ids F fid [] = nret fid"
| "walk_ids F fid (c # cs) =
    (if c = '''' then walk_ids F fid cs else nbnd (nfs_lookup F fid c) (\<lambda>fid. walk_ids F fid cs))"

definition path_to_id :: "('s, 'f) file_system \<Rightarrow> string \<Rightarrow> ('s, u64) nfs" where
  "path_to_id F path = walk_ids F NFS_ROOT_INO (split_slash path)"

section \<open>Permissions\<close>

definition S_IRUSR :: u32 where "S_IRUSR = 0x100"
definition S_IWUSR :: u32 where "S_IWUSR = 0x080"
definition S_IXUSR :: u32 where "S_IXUSR = 0x040"
definition S_IRGRP :: u32 where "S_IRGRP = 0x020"
definition S_IWGRP :: u32 where "S_IWGRP = 0x010"
definition S_IXGRP :: u32 where "S_IXGRP = 0x008"
definition S_IROTH :: u32 where "S_IROTH = 0x004"
definition S_IWOTH :: u32 where "S_IWOTH = 0x002"
definition S_IXOTH :: u32 where "S_IXOTH = 0x001"
definition S_ISVTX :: u32 where "S_ISVTX = 0x200"

definition ACCESS3_READ :: u32 where "ACCESS3_READ = 0x0001"
definition ACCESS3_LOOKUP :: u32 where "ACCESS3_LOOKUP = 0x0002"
definition ACCESS3_MODIFY :: u32 where "ACCESS3_MODIFY = 0x0004"
definition ACCESS3_EXTEND :: u32 where "ACCESS3_EXTEND = 0x0008"
definition ACCESS3_DELETE :: u32 where "ACCESS3_DELETE = 0x0010"
definition ACCESS3_EXECUTE :: u32 where "ACCESS3_EXECUTE = 0x0020"

datatype permission = PermRead | PermWrite | PermExecute

definition is_in_group :: "auth_unix \<Rightarrow> u32 \<Rightarrow> bool" where
  "is_in_group auth gid \<longleftrightarrow> au_gid auth = gid \<or> gid \<in> set (au_gids auth)"

definition check_permission :: "auth_unix \<Rightarrow> fattr3 \<Rightarrow> permission \<Rightarrow> bool" where
  "check_permission auth attr perm =
    (if au_uid auth = 0 then True
     else
       let (read_bit, write_bit, exec_bit) =
             (if au_uid auth = fa_uid attr then (S_IRUSR, S_IWUSR, S_IXUSR)
              else if is_in_group auth (fa_gid attr) then (S_IRGRP, S_IWGRP, S_IXGRP)
              else (S_IROTH, S_IWOTH, S_IXOTH))
       in case perm of
            PermRead \<Rightarrow> fa_mode attr AND read_bit \<noteq> 0
          | PermWrite \<Rightarrow> fa_mode attr AND write_bit \<noteq> 0
          | PermExecute \<Rightarrow> fa_mode attr AND exec_bit \<noteq> 0)"

definition can_read :: "auth_unix \<Rightarrow> fattr3 \<Rightarrow> bool" where
  "can_read auth attr = check_permission auth attr PermRead"

definition can_write :: "auth_unix \<Rightarrow> fattr3 \<Rightarrow> bool" where
  "can_write auth attr = check_permission auth attr PermWrite"

definition can_execute :: "auth_unix \<Rightarrow> fattr3 \<Rightarrow> bool" where
  "can_execute auth attr = check_permission auth attr PermExecute"

definition compute_access :: "auth_unix \<Rightarrow> fattr3 \<Rightarrow> u32 \<Rightarrow> u32" where
  "compute_access auth attr requested =
    (let is_dir = (fa_ftype attr = NF3DIR);
         grant = (\<lambda>bit allowed result. if requested AND bit \<noteq> 0 \<and> allowed then result OR bit else result)
     in grant ACCESS3_EXECUTE (\<not> is_dir \<and> can_execute auth attr)
       (grant ACCESS3_DELETE (is_dir \<and> can_write auth attr)
       (grant ACCESS3_EXTEND (can_write auth attr)
       (grant ACCESS3_MODIFY (can_write auth attr)
       (grant ACCESS3_LOOKUP (is_dir \<and> can_execute auth attr)
       (grant ACCESS3_READ (can_read auth attr) 0))))))"

definition can_modify_directory :: "auth_unix \<Rightarrow> fattr3 \<Rightarrow> bool" where
  "can_modify_directory auth dir_attr \<longleftrightarrow> can_write auth dir_attr \<and> can_execute auth dir_attr"

definition can_delete_entry :: "auth_unix \<Rightarrow> fattr3 \<Rightarrow> fattr3 \<Rightarrow> bool" where
  "can_delete_entry auth dir_attr entry_attr =
    (if \<not> can_modify_directory auth dir_attr then False
     else if fa_mode dir_attr AND S_ISVTX = 0 then True
     else au_uid auth = 0 \<or> au_uid auth = fa_uid dir_attr \<or> au_uid auth = fa_uid entry_attr)"

definition is_owner :: "auth_unix \<Rightarrow> fattr3 \<Rightarrow> bool" where
  "is_owner auth attr \<longleftrightarrow> au_uid auth = 0 \<or> au_uid auth = fa_uid attr"

end
