(* ===== verification/Nfs_Handlers.thy ===== *)
theory Nfs_Handlers
  imports Nfs_Vfs
begin

text \<open>
  The procedures of NFS version 3 (\<open>nfsserve/nfs_handlers.rs\<close>) over the file system of
  \<open>Nfs_Vfs\<close>.  A procedure takes its decoded arguments and gives the messages it writes to the
  output, in order, and the next state; a panic loses the output.  The coding of arguments and
  results is in the theories \<open>Xdr\<close> and \<open>Nfs_Wire\<close>.
\<close>

section \<open>Messages\<close>

type_synonym wcc_attr = "u64 \<times> nfstime3 \<times> nfstime3"
type_synonym wcc_data = "wcc_attr option \<times> fattr3 option"

datatype nfs_body =
    Nothing
  | AttrBody "fattr3 option"
  | WccBody wcc_data
  | RenameBody wcc_data wcc_data
  | LinkBody "fattr3 option" wcc_data
  | GetattrOk fattr3
  | LookupOk nfs_fh3 "fattr3 option" "fattr3 option"
  | ReadOk "fattr3 option" u32 bool bytes
  | FsinfoOk "fattr3 option"
  | AccessOk "fattr3 option" u32
  | PathconfOk "fattr3 option"
  | FsstatOk "fattr3 option"
  | ReaddirOk "fattr3 option" "(u64 \<times> string \<times> u64) list" bool
  | ReaddirplusOk "fattr3 option" "(u64 \<times> string \<times> u64 \<times> fattr3 \<times> nfs_fh3) list" bool
  | WriteOk wcc_data u32 u64
  | CreateOk nfs_fh3 "fattr3 option" wcc_data
  | ReadlinkOk "fattr3 option" string

text \<open>\<open>Undecoded\<close> is the error of a procedure whose arguments cannot be read; it writes nothing.\<close>

datatype nfs_msg = Msg nfsstat3 nfs_body | NullReply | GarbageArgs | ProcUnavail | ProgMismatch u32 | Undecoded

type_synonym 's handler = "'s \<Rightarrow> nfs_msg list \<times> 's"

text \<open>\<open>mount_signal\<close> tells whether a listener for mounts is set.\<close>

record ('s, 'f) rpc_context =
  cx_fs :: "('s, 'f) file_system"
  cx_dev :: dev_lib
  cx_gen :: u64
  cx_auth :: auth_unix
  local_port :: "16 word"
  client_addr :: string
  mount_signal :: bool
  export_name :: string

definition reply_with :: "nfsstat3 \<Rightarrow> nfs_body \<Rightarrow> 's handler" where
  "reply_with st b s = ([Msg st b], s)"

definition on_vfs :: "('s, 'a) nfs \<Rightarrow> (nfsstat3 + 'a \<Rightarrow> 's handler) \<Rightarrow> 's handler" where
  "on_vfs m k s =
    (case m s of
       (Inl e, s') \<Rightarrow> (case e of Aborted \<Rightarrow> ([], s') | Status st \<Rightarrow> k (Inl st) s')
     | (Inr x, s') \<Rightarrow> k (Inr x) s')"

definition with_id :: "('s, 'f) rpc_context \<Rightarrow> nfs_fh3 \<Rightarrow> nfs_body \<Rightarrow> (u64 \<Rightarrow> 's handler) \<Rightarrow> 's handler" where
  "with_id C fh b k = (case fh_to_id (cx_gen C) fh of Inl st \<Rightarrow> reply_with st b | Inr i \<Rightarrow> k i)"

definition getattr_or :: "('s, 'f) rpc_context \<Rightarrow> u64 \<Rightarrow> nfs_body \<Rightarrow> (fattr3 \<Rightarrow> 's handler) \<Rightarrow> 's handler" where
  "getattr_or C i b k =
    on_vfs (nfs_getattr (cx_fs C) (cx_dev C) i) (\<lambda>r. case r of Inl st \<Rightarrow> reply_with st b | Inr a \<Rightarrow> k a)"

definition post_attr :: "('s, 'f) rpc_context \<Rightarrow> u64 \<Rightarrow> (fattr3 option \<Rightarrow> 's handler) \<Rightarrow> 's handler" where
  "post_attr C i k =
    on_vfs (nfs_getattr (cx_fs C) (cx_dev C) i) (\<lambda>r. k (case r of Inl st \<Rightarrow> None | Inr a \<Rightarrow> Some a))"

definition pre_attr :: "fattr3 \<Rightarrow> wcc_attr option" where
  "pre_attr a = Some (fa_size a, fa_mtime a, fa_ctime a)"

definition writable :: "nfs_body \<Rightarrow> 's handler \<Rightarrow> 's handler" where
  "writable b k = (if nfs_capabilities \<noteq> ReadWrite then reply_with NFS3ERR_ROFS b else k)"

section \<open>Reading\<close>

definition nfsproc3_getattr :: "('s, 'f) rpc_context \<Rightarrow> nfs_fh3 \<Rightarrow> 's handler" where
  "nfsproc3_getattr C fh =
    with_id C fh Nothing (\<lambda>i. getattr_or C i Nothing (\<lambda>a. reply_with NFS3_OK (GetattrOk a)))"

definition nfsproc3_lookup :: "('s, 'f) rpc_context \<Rightarrow> nfs_fh3 \<Rightarrow> string \<Rightarrow> 's handler" where
  "nfsproc3_lookup C dir name =
    with_id C dir (AttrBody None) (\<lambda>dirid.
    getattr_or C dirid (AttrBody None) (\<lambda>dir_attr.
      if \<not> can_execute (cx_auth C) dir_attr then reply_with NFS3ERR_ACCES (AttrBody (Some dir_attr))
      else
        on_vfs (nfs_lookup (cx_fs C) dirid name) (\<lambda>r.
          case r of
            Inr fid \<Rightarrow> post_attr C fid (\<lambda>obj_attr. reply_with NFS3_OK (LookupOk (id_to_fh (cx_gen C) fid) obj_attr (Some dir_attr)))
          | Inl st \<Rightarrow> reply_with st (AttrBody (Some dir_attr)))))"

definition nfsproc3_read :: "('s, 'f) rpc_context \<Rightarrow> nfs_fh3 \<Rightarrow> u64 \<Rightarrow> u32 \<Rightarrow> 's handler" where
  "nfsproc3_read C fh off cnt =
    with_id C fh (AttrBody None) (\<lambda>i.
    getattr_or C i (AttrBody None) (\<lambda>attr.
      if \<not> can_read (cx_auth C) attr then reply_with NFS3ERR_ACCES (AttrBody (Some attr))
      else
        on_vfs (nfs_read (cx_fs C) i off cnt) (\<lambda>r.
          case r of
            Inr (data, eof) \<Rightarrow> reply_with NFS3_OK (ReadOk (Some attr) (of_nat (length data)) eof data)
          | Inl st \<Rightarrow> reply_with st (AttrBody (Some attr)))))"

definition nfsproc3_fsinfo :: "('s, 'f) rpc_context \<Rightarrow> nfs_fh3 \<Rightarrow> 's handler" where
  "nfsproc3_fsinfo C fh =
    with_id C fh (AttrBody None) (\<lambda>i. post_attr C i (\<lambda>a. reply_with NFS3_OK (FsinfoOk a)))"

definition nfsproc3_access :: "('s, 'f) rpc_context \<Rightarrow> nfs_fh3 \<Rightarrow> u32 \<Rightarrow> 's handler" where
  "nfsproc3_access C fh requested =
    with_id C fh (AttrBody None) (\<lambda>i.
    getattr_or C i (AttrBody None) (\<lambda>attr.
      let granted = compute_access (cx_auth C) attr requested;
          granted = (if nfs_capabilities \<noteq> ReadWrite
                     then granted AND (ACCESS3_READ OR ACCESS3_LOOKUP OR ACCESS3_EXECUTE) else granted)
      in reply_with NFS3_OK (AccessOk (Some attr) granted)))"

definition nfsproc3_pathconf :: "('s, 'f) rpc_context \<Rightarrow> nfs_fh3 \<Rightarrow> 's handler" where
  "nfsproc3_pathconf C fh =
    with_id C fh (AttrBody None) (\<lambda>i. post_attr C i (\<lambda>a. reply_with NFS3_OK (PathconfOk a)))"

definition nfsproc3_fsstat :: "('s, 'f) rpc_context \<Rightarrow> nfs_fh3 \<Rightarrow> 's handler" where
  "nfsproc3_fsstat C fh =
    with_id C fh (AttrBody None) (\<lambda>i. post_attr C i (\<lambda>a. reply_with NFS3_OK (FsstatOk a)))"

definition nfsproc3_readlink :: "('s, 'f) rpc_context \<Rightarrow> nfs_fh3 \<Rightarrow> 's handler" where
  "nfsproc3_readlink C fh =
    with_id C fh Nothing (\<lambda>i.
    getattr_or C i (AttrBody None) (\<lambda>attr.
      on_vfs (nfs_readlink (cx_fs C) i) (\<lambda>r.
        case r of
          Inr path \<Rightarrow> reply_with NFS3_OK (ReadlinkOk (Some attr) path)
        | Inl st \<Rightarrow> reply_with st (AttrBody (Some attr)))))"

section \<open>Directories\<close>

text \<open>
  Sizes in bytes: the reply header with the status, the attributes of the directory and its
  version, and an entry with its leading flag.  A string is padded to a multiple of four.
\<close>

definition DIR_HEADER :: nat where "DIR_HEADER = 124"

definition pad4 :: "string \<Rightarrow> nat" where
  "pad4 name = (length name + 3) div 4 * 4"

definition entry3_size :: "string \<Rightarrow> nat" where
  "entry3_size name = 24 + pad4 name"

definition entryplus3_size :: "string \<Rightarrow> nat" where
  "entryplus3_size name = 136 + pad4 name"

text \<open>\<open>x as usize - 128\<close>, with the wrap-around of release builds.\<close>

definition less_128 :: "u32 \<Rightarrow> nat" where
  "less_128 x = (unat x + 2 ^ 64 - 128) mod 2 ^ 64"

text \<open>
  The reply loop: an entry is written while the bytes stay below \<open>max_bytes\<close> and the directory
  bytes below \<open>max_dircount\<close>, if that is limited.  The flag says that all entries were written.
\<close>

fun write_entries ::
  "(string \<Rightarrow> nat) \<Rightarrow> nat \<Rightarrow> nat option \<Rightarrow> nat \<Rightarrow> nat \<Rightarrow> (u64 \<times> string \<times> 'a) list \<Rightarrow> (u64 \<times> string \<times> 'a) list \<times> bool" where
  "write_entries sz max_bytes max_dircount written dircount [] = ([], True)"
| "write_entries sz max_bytes max_dircount written dircount ((i, name, x) # es) =
    (let added_dircount = 8 + 4 + length name + 8 in
     if sz name + written < max_bytes \<and> (\<forall>m \<in> set_option max_dircount. added_dircount + dircount < m) then
       (case write_entries sz max_bytes max_dircount (written + sz name) (dircount + added_dircount) es of
          (out, all) \<Rightarrow> ((i, name, x) # out, all))
     else ([], False))"

definition nfsproc3_readdirplus ::
  "('s, 'f) rpc_context \<Rightarrow> nfs_fh3 \<Rightarrow> u64 \<Rightarrow> u32 \<Rightarrow> u32 \<Rightarrow> 's handler" where
  "nfsproc3_readdirplus C dir cookie dircount maxcount =
    with_id C dir (AttrBody None) (\<lambda>dirid.
    getattr_or C dirid (AttrBody None) (\<lambda>dir_attr.
      if \<not> can_read (cx_auth C) dir_attr then reply_with NFS3ERR_ACCES (AttrBody (Some dir_attr))
      else
        on_vfs (nfs_readdir (cx_fs C) (cx_dev C) dirid cookie (unat dircount div 16)) (\<lambda>r.
          case r of
            Inr (entries, end) \<Rightarrow>
              (case write_entries entryplus3_size (less_128 maxcount) (Some (unat dircount)) DIR_HEADER 0
                      (map (\<lambda>e. (ne_fileid e, ne_name e, ne_fileid e, ne_attr e, id_to_fh (cx_gen C) (ne_fileid e))) entries) of
                 (out, all) \<Rightarrow> reply_with NFS3_OK (ReaddirplusOk (Some dir_attr) out (all \<and> end)))
          | Inl st \<Rightarrow> reply_with st (AttrBody (Some dir_attr)))))"

definition nfsproc3_readdir :: "('s, 'f) rpc_context \<Rightarrow> nfs_fh3 \<Rightarrow> u64 \<Rightarrow> u32 \<Rightarrow> 's handler" where
  "nfsproc3_readdir C dir cookie dircount =
    with_id C dir (AttrBody None) (\<lambda>dirid.
    getattr_or C dirid (AttrBody None) (\<lambda>dir_attr.
      if \<not> can_read (cx_auth C) dir_attr then reply_with NFS3ERR_ACCES (AttrBody (Some dir_attr))
      else
        on_vfs (readdir_simple (cx_fs C) (cx_dev C) dirid (unat dircount div 16)) (\<lambda>r.
          case r of
            Inr (entries, end) \<Rightarrow>
              (case write_entries entry3_size (less_128 dircount) None DIR_HEADER 0
                      (map (\<lambda>(i, name). (i, name, i)) entries) of
                 (out, all) \<Rightarrow> reply_with NFS3_OK (ReaddirOk (Some dir_attr) out (all \<and> end)))
          | Inl st \<Rightarrow> reply_with st (AttrBody (Some dir_attr)))))"

section \<open>Writing\<close>

definition nfsproc3_write ::
  "('s, 'f) rpc_context \<Rightarrow> nfs_fh3 \<Rightarrow> u64 \<Rightarrow> u32 \<Rightarrow> bytes \<Rightarrow> 's handler" where
  "nfsproc3_write C fh off cnt data =
    writable (WccBody (None, None))
     (if length data \<noteq> unat cnt then (\<lambda>s. ([GarbageArgs], s))
      else
        with_id C fh (WccBody (None, None)) (\<lambda>i.
        getattr_or C i (WccBody (None, None)) (\<lambda>attr.
          if \<not> can_write (cx_auth C) attr then reply_with NFS3ERR_ACCES (WccBody (pre_attr attr, Some attr))
          else
            let success = (\<lambda>fattr. reply_with NFS3_OK (WriteOk (pre_attr attr, Some fattr) cnt (cx_gen C))) in
            on_vfs (nfs_write (cx_fs C) (cx_dev C) i off data) (\<lambda>r.
              case r of
                Inr fattr \<Rightarrow>
                  if au_uid (cx_auth C) \<noteq> 0 \<and> fa_mode fattr AND 0xC00 \<noteq> 0 then
                    on_vfs (nfs_setattr (cx_fs C) (cx_dev C) i
                              (sattr3_default\<lparr>sa_mode := Some (fa_mode fattr AND NOT 0xC00)\<rparr>)) (\<lambda>u.
                      case u of Inr updated \<Rightarrow> success updated | Inl _ \<Rightarrow> success fattr)
                  else success fattr
              | Inl st \<Rightarrow> reply_with st (WccBody (None, None))))))"

text \<open>
  What the procedures that change a directory begin with: its number, its attributes, the
  check whether the caller may change it.
\<close>

definition refuse :: "('s, 'f) rpc_context \<Rightarrow> u64 \<Rightarrow> fattr3 \<Rightarrow> 's handler" where
  "refuse C dirid dir_attr = post_attr C dirid (\<lambda>post. reply_with NFS3ERR_ACCES (WccBody (pre_attr dir_attr, post)))"

definition in_directory :: "('s, 'f) rpc_context \<Rightarrow> nfs_fh3 \<Rightarrow> (u64 \<Rightarrow> wcc_attr option \<Rightarrow> 's handler) \<Rightarrow> 's handler" where
  "in_directory C dir k =
    with_id C dir (WccBody (None, None)) (\<lambda>dirid.
    getattr_or C dirid (WccBody (None, None)) (\<lambda>dir_attr.
      if \<not> can_modify_directory (cx_auth C) dir_attr then refuse C dirid dir_attr
      else k dirid (pre_attr dir_attr)))"

definition made :: "('s, 'f) rpc_context \<Rightarrow> u64 \<Rightarrow> wcc_attr option \<Rightarrow> nfsstat3 + u64 \<times> fattr3 option \<Rightarrow> 's handler" where
  "made C dirid pre res =
    post_attr C dirid (\<lambda>post.
      case res of
        Inr (fid, fattr) \<Rightarrow> reply_with NFS3_OK (CreateOk (id_to_fh (cx_gen C) fid) fattr (pre, post))
      | Inl e \<Rightarrow> reply_with e (WccBody (pre, post)))"

text \<open>The attributes are read once the directory is known to be writable; \<open>Unreadable\<close> says that they cannot be.\<close>

datatype createmode3 = UNCHECKED sattr3 | GUARDED sattr3 | EXCLUSIVE | Unreadable

definition nfsproc3_create :: "('s, 'f) rpc_context \<Rightarrow> nfs_fh3 \<Rightarrow> string \<Rightarrow> createmode3 \<Rightarrow> 's handler" where
  "nfsproc3_create C dir name how =
    writable (WccBody (None, None))
     (in_directory C dir (\<lambda>dirid pre.
        let create = (\<lambda>a. on_vfs (nfs_create (cx_fs C) (cx_dev C) dirid name a (cx_auth C)) (\<lambda>r.
              made C dirid pre (case r of Inl e \<Rightarrow> Inl e | Inr (fid, fattr) \<Rightarrow> Inr (fid, Some fattr))))
        in case how of
             UNCHECKED a \<Rightarrow> create a
           | GUARDED a \<Rightarrow>
               on_vfs (nfs_lookup (cx_fs C) dirid name) (\<lambda>r.
                 case r of
                   Inr _ \<Rightarrow> post_attr C dirid (\<lambda>post. reply_with NFS3ERR_EXIST (WccBody (pre, post)))
                 | Inl _ \<Rightarrow> create a)
           | EXCLUSIVE \<Rightarrow>
               on_vfs (nfs_create_exclusive (cx_fs C) dirid name (cx_auth C)) (\<lambda>r.
                 made C dirid pre (case r of Inl e \<Rightarrow> Inl e | Inr fid \<Rightarrow> Inr (fid, None)))
           | Unreadable \<Rightarrow> (\<lambda>s. ([Undecoded], s))))"

definition nfsproc3_mkdir :: "('s, 'f) rpc_context \<Rightarrow> nfs_fh3 \<Rightarrow> string \<Rightarrow> sattr3 \<Rightarrow> 's handler" where
  "nfsproc3_mkdir C dir name a =
    writable (WccBody (None, None))
     (in_directory C dir (\<lambda>dirid pre.
        on_vfs (nfs_mkdir (cx_fs C) (cx_dev C) dirid name a (cx_auth C)) (\<lambda>r.
          made C dirid pre (case r of Inl e \<Rightarrow> Inl e | Inr (fid, fattr) \<Rightarrow> Inr (fid, Some fattr)))))"

definition nfsproc3_symlink :: "('s, 'f) rpc_context \<Rightarrow> nfs_fh3 \<Rightarrow> string \<Rightarrow> string \<Rightarrow> 's handler" where
  "nfsproc3_symlink C dir name target =
    writable (WccBody (None, None))
     (in_directory C dir (\<lambda>dirid pre.
        on_vfs (nfs_symlink (cx_fs C) (cx_dev C) dirid name target (cx_auth C)) (\<lambda>r.
          made C dirid pre (case r of Inl e \<Rightarrow> Inl e | Inr (fid, fattr) \<Rightarrow> Inr (fid, Some fattr)))))"

text \<open>A type that is no special file is refused before the arguments that follow it are read.\<close>

definition nfsproc3_mknod ::
  "('s, 'f) rpc_context \<Rightarrow> nfs_fh3 \<Rightarrow> string \<Rightarrow> ftype3 \<Rightarrow> sattr3 \<Rightarrow> specdata3 \<Rightarrow> 's handler" where
  "nfsproc3_mknod C dir name t a rdev =
    writable (WccBody (None, None))
     (if t \<notin> {NF3CHR, NF3BLK, NF3SOCK, NF3FIFO} then reply_with NFS3ERR_BADTYPE (WccBody (None, None))
      else
        in_directory C dir (\<lambda>dirid pre.
          on_vfs (nfs_mknod (cx_fs C) (cx_dev C) dirid name t a (if t \<in> {NF3CHR, NF3BLK} then rdev else (0, 0)) (cx_auth C)) (\<lambda>r.
            made C dirid pre (case r of Inl e \<Rightarrow> Inl e | Inr (fid, fattr) \<Rightarrow> Inr (fid, Some fattr)))))"

text \<open>
  The checks of \<open>setattr\<close>, in their order.  \<open>sattrguard3\<close> is the change time the caller expects, if any; when
  it does not hold, a message says so and the procedure goes on.
\<close>

definition explicit_time :: "set_time3 \<Rightarrow> bool" where
  "explicit_time t = (case t of SET_TO_CLIENT_TIME _ \<Rightarrow> True | _ \<Rightarrow> False)"

definition setattr_denied :: "auth_unix \<Rightarrow> fattr3 \<Rightarrow> sattr3 \<Rightarrow> nfsstat3 option" where
  "setattr_denied auth attr a =
    (if sa_size a \<noteq> None \<and> \<not> can_write auth attr then Some NFS3ERR_ACCES
     else if sa_mode a \<noteq> None \<and> \<not> is_owner auth attr then Some NFS3ERR_PERM
     else if (case sa_uid a of Some u \<Rightarrow> au_uid auth \<noteq> 0 \<and> u \<noteq> fa_uid attr | None \<Rightarrow> False) then Some NFS3ERR_PERM
     else if (case sa_gid a of
                Some g \<Rightarrow> au_uid auth \<noteq> 0 \<and> (\<not> is_owner auth attr \<or> \<not> is_in_group auth g)
              | None \<Rightarrow> False) then Some NFS3ERR_PERM
     else if (explicit_time (sa_atime a) \<or> explicit_time (sa_mtime a)) \<and> \<not> is_owner auth attr then Some NFS3ERR_PERM
     else None)"

text \<open>The group bit of a new mode is cleared for a caller outside the group, and the set-id bits on a change of owner.\<close>

definition adjust_mode :: "auth_unix \<Rightarrow> fattr3 \<Rightarrow> sattr3 \<Rightarrow> sattr3" where
  "adjust_mode auth attr a =
    (case sa_mode a of
       Some mode \<Rightarrow>
         if au_uid auth \<noteq> 0 \<and> mode AND 0x400 \<noteq> 0 \<and>
            \<not> is_in_group auth (case sa_gid a of Some g \<Rightarrow> g | None \<Rightarrow> fa_gid attr)
         then a\<lparr>sa_mode := Some (mode AND NOT 0x400)\<rparr> else a
     | None \<Rightarrow>
         if au_uid auth \<noteq> 0 \<and> (sa_uid a \<noteq> None \<or> sa_gid a \<noteq> None) \<and> fa_mode attr AND 0xC00 \<noteq> 0
         then a\<lparr>sa_mode := Some (fa_mode attr AND NOT 0xC00)\<rparr> else a)"

definition nfsproc3_setattr ::
  "('s, 'f) rpc_context \<Rightarrow> nfs_fh3 \<Rightarrow> sattr3 \<Rightarrow> nfstime3 option \<Rightarrow> 's handler" where
  "nfsproc3_setattr C fh a guard =
    writable (WccBody (None, None))
     (with_id C fh Nothing (\<lambda>i.
      getattr_or C i (WccBody (None, None)) (\<lambda>attr.
        case setattr_denied (cx_auth C) attr a of
          Some st \<Rightarrow> reply_with st (WccBody (pre_attr attr, Some attr))
        | None \<Rightarrow>
            let first = (if guard \<noteq> None \<and> guard \<noteq> Some (fa_ctime attr)
                         then [Msg NFS3ERR_NOT_SYNC (WccBody (None, None))] else [])
            in on_vfs (nfs_setattr (cx_fs C) (cx_dev C) i (adjust_mode (cx_auth C) attr a)) (\<lambda>r s.
                 (first @ [case r of
                             Inr post \<Rightarrow> Msg NFS3_OK (WccBody (pre_attr attr, Some post))
                           | Inl st \<Rightarrow> Msg st (WccBody (None, None))], s)))))"

text \<open>
  Whether an entry may be taken out of a directory: in a sticky directory it depends on the entry,
  as far as that can be found.
\<close>

definition entry_allowed ::
  "('s, 'f) rpc_context \<Rightarrow> u64 \<Rightarrow> fattr3 \<Rightarrow> string \<Rightarrow> (fattr3 \<Rightarrow> bool) \<Rightarrow> (bool \<Rightarrow> 's handler) \<Rightarrow> 's handler" where
  "entry_allowed C dirid dir_attr name extra k =
    (let basic = can_modify_directory (cx_auth C) dir_attr in
     if fa_mode dir_attr AND S_ISVTX \<noteq> 0 then
       on_vfs (nfs_lookup (cx_fs C) dirid name) (\<lambda>r.
         case r of
           Inr entry_id \<Rightarrow>
             on_vfs (nfs_getattr (cx_fs C) (cx_dev C) entry_id) (\<lambda>e.
               k (case e of
                    Inr entry_attr \<Rightarrow> can_delete_entry (cx_auth C) dir_attr entry_attr \<and> extra entry_attr
                  | Inl _ \<Rightarrow> basic))
         | Inl _ \<Rightarrow> k basic)
     else k basic)"

definition nfsproc3_remove :: "('s, 'f) rpc_context \<Rightarrow> nfs_fh3 \<Rightarrow> string \<Rightarrow> 's handler" where
  "nfsproc3_remove C dir name =
    writable (WccBody (None, None))
     (with_id C dir (WccBody (None, None)) (\<lambda>dirid.
      getattr_or C dirid (WccBody (None, None)) (\<lambda>dir_attr.
      entry_allowed C dirid dir_attr name (\<lambda>_. True) (\<lambda>allowed.
        if \<not> allowed then refuse C dirid dir_attr
        else
          on_vfs (nfs_remove (cx_fs C) dirid name) (\<lambda>res.
          post_attr C dirid (\<lambda>post.
            reply_with (case res of Inr () \<Rightarrow> NFS3_OK | Inl e \<Rightarrow> e) (WccBody (pre_attr dir_attr, post))))))))"

definition rename_reply ::
  "('s, 'f) rpc_context \<Rightarrow> u64 \<Rightarrow> fattr3 \<Rightarrow> u64 \<Rightarrow> fattr3 \<Rightarrow> nfsstat3 \<Rightarrow> 's handler" where
  "rename_reply C from_dirid from_attr to_dirid to_attr st =
    post_attr C from_dirid (\<lambda>post_from. post_attr C to_dirid (\<lambda>post_to.
      reply_with st (RenameBody (pre_attr from_attr, post_from) (pre_attr to_attr, post_to))))"

definition nfsproc3_rename :: "('s, 'f) rpc_context \<Rightarrow> nfs_fh3 \<Rightarrow> string \<Rightarrow> nfs_fh3 \<Rightarrow> string \<Rightarrow> 's handler" where
  "nfsproc3_rename C from_dir from_name to_dir to_name =
    writable (WccBody (None, None))
     (with_id C from_dir (WccBody (None, None)) (\<lambda>from_dirid.
      with_id C to_dir (WccBody (None, None)) (\<lambda>to_dirid.
      getattr_or C from_dirid (WccBody (None, None)) (\<lambda>from_attr.
      getattr_or C to_dirid (WccBody (None, None)) (\<lambda>to_attr.
      let answer = rename_reply C from_dirid from_attr to_dirid to_attr in
      entry_allowed C from_dirid from_attr from_name
        (\<lambda>entry. \<not> (fa_ftype entry = NF3DIR \<and> from_dirid \<noteq> to_dirid \<and> au_uid (cx_auth C) \<noteq> 0 \<and>
                    au_uid (cx_auth C) \<noteq> fa_uid entry)) (\<lambda>from_allowed.
        if \<not> from_allowed then answer NFS3ERR_ACCES
        else
          entry_allowed C to_dirid to_attr to_name (\<lambda>_. True) (\<lambda>to_allowed.
            if \<not> to_allowed then answer NFS3ERR_ACCES
            else
              on_vfs (nfs_rename (cx_fs C) from_dirid from_name to_dirid to_name) (\<lambda>res.
                answer (case res of Inr () \<Rightarrow> NFS3_OK | Inl e \<Rightarrow> e)))))))))"

definition nfsproc3_link :: "('s, 'f) rpc_context \<Rightarrow> nfs_fh3 \<Rightarrow> nfs_fh3 \<Rightarrow> string \<Rightarrow> 's handler" where
  "nfsproc3_link C fh dir name =
    writable (LinkBody None (None, None))
     (with_id C fh (LinkBody None (None, None)) (\<lambda>fileid.
      getattr_or C fileid (LinkBody None (None, None)) (\<lambda>file_attr.
        if fa_ftype file_attr = NF3DIR then reply_with NFS3ERR_ISDIR (LinkBody (Some file_attr) (None, None))
        else
          with_id C dir (LinkBody (Some file_attr) (None, None)) (\<lambda>dirid.
          getattr_or C dirid (LinkBody (Some file_attr) (None, None)) (\<lambda>dir_attr.
            if \<not> can_modify_directory (cx_auth C) dir_attr then
              post_attr C dirid (\<lambda>post. reply_with NFS3ERR_ACCES (LinkBody (Some file_attr) (pre_attr dir_attr, post)))
            else
              on_vfs (nfs_link (cx_fs C) (cx_dev C) fileid dirid name) (\<lambda>res.
              post_attr C dirid (\<lambda>post.
                case res of
                  Inr new_attr \<Rightarrow> reply_with NFS3_OK (LinkBody (Some new_attr) (pre_attr dir_attr, post))
                | Inl e \<Rightarrow> post_attr C fileid (\<lambda>post_file. reply_with e (LinkBody post_file (pre_attr dir_attr, post))))))))))"

section \<open>The dispatcher\<close>

datatype nfs_call =
    NFSPROC3_NULL
  | NFSPROC3_GETATTR nfs_fh3
  | NFSPROC3_SETATTR nfs_fh3 sattr3 "nfstime3 option"
  | NFSPROC3_LOOKUP nfs_fh3 string
  | NFSPROC3_ACCESS nfs_fh3 u32
  | NFSPROC3_READLINK nfs_fh3
  | NFSPROC3_READ nfs_fh3 u64 u32
  | NFSPROC3_WRITE nfs_fh3 u64 u32 bytes
  | NFSPROC3_CREATE nfs_fh3 string createmode3
  | NFSPROC3_MKDIR nfs_fh3 string sattr3
  | NFSPROC3_SYMLINK nfs_fh3 string string
  | NFSPROC3_MKNOD nfs_fh3 string ftype3 sattr3 specdata3
  | NFSPROC3_REMOVE nfs_fh3 string
  | NFSPROC3_RMDIR nfs_fh3 string
  | NFSPROC3_RENAME nfs_fh3 string nfs_fh3 string
  | NFSPROC3_LINK nfs_fh3 nfs_fh3 string
  | NFSPROC3_READDIR nfs_fh3 u64 u32
  | NFSPROC3_READDIRPLUS nfs_fh3 u64 u32 u32
  | NFSPROC3_FSSTAT nfs_fh3
  | NFSPROC3_FSINFO nfs_fh3
  | NFSPROC3_PATHCONF nfs_fh3
  | NFSPROC3_COMMIT
  | INVALID

definition NFS_VERSION :: u32 where "NFS_VERSION = 3"

definition handle_nfs :: "('s, 'f) rpc_context \<Rightarrow> u32 \<Rightarrow> nfs_call \<Rightarrow> 's handler" where
  "handle_nfs C vers call =
    (if vers \<noteq> NFS_VERSION then (\<lambda>s. ([ProgMismatch NFS_VERSION], s))
     else
       case call of
         NFSPROC3_NULL \<Rightarrow> (\<lambda>s. ([NullReply], s))
       | NFSPROC3_GETATTR fh \<Rightarrow> nfsproc3_getattr C fh
       | NFSPROC3_SETATTR fh a guard \<Rightarrow> nfsproc3_setattr C fh a guard
       | NFSPROC3_LOOKUP dir name \<Rightarrow> nfsproc3_lookup C dir name
       | NFSPROC3_ACCESS fh requested \<Rightarrow> nfsproc3_access C fh requested
       | NFSPROC3_READLINK fh \<Rightarrow> nfsproc3_readlink C fh
       | NFSPROC3_READ fh off cnt \<Rightarrow> nfsproc3_read C fh off cnt
       | NFSPROC3_WRITE fh off cnt data \<Rightarrow> nfsproc3_write C fh off cnt data
       | NFSPROC3_CREATE dir name how \<Rightarrow> nfsproc3_create C dir name how
       | NFSPROC3_MKDIR dir name a \<Rightarrow> nfsproc3_mkdir C dir name a
       | NFSPROC3_SYMLINK dir name target \<Rightarrow> nfsproc3_symlink C dir name target
       | NFSPROC3_MKNOD dir name t a rdev \<Rightarrow> nfsproc3_mknod C dir name t a rdev
       | NFSPROC3_REMOVE dir name \<Rightarrow> nfsproc3_remove C dir name
       | NFSPROC3_RMDIR dir name \<Rightarrow> nfsproc3_remove C dir name
       | NFSPROC3_RENAME d n d' n' \<Rightarrow> nfsproc3_rename C d n d' n'
       | NFSPROC3_LINK fh dir name \<Rightarrow> nfsproc3_link C fh dir name
       | NFSPROC3_READDIR dir cookie dircount \<Rightarrow> nfsproc3_readdir C dir cookie dircount
       | NFSPROC3_READDIRPLUS dir cookie dircount maxcount \<Rightarrow> nfsproc3_readdirplus C dir cookie dircount maxcount
       | NFSPROC3_FSSTAT fh \<Rightarrow> nfsproc3_fsstat C fh
       | NFSPROC3_FSINFO fh \<Rightarrow> nfsproc3_fsinfo C fh
       | NFSPROC3_PATHCONF fh \<Rightarrow> nfsproc3_pathconf C fh
       | _ \<Rightarrow> (\<lambda>s. ([ProcUnavail], s)))"

end
