(* ===== verification/Nfs_Theorems.thy ===== *)
theory Nfs_Theorems
  imports Nfs_Handlers
begin

text \<open>
  The NFS server: who may change what, handles, and directories read in pages.
\<close>

section \<open>File handles\<close>

lemma to_le_bytes_Suc: "to_le_bytes (Suc k) n = of_nat n # to_le_bytes k (n div 256)"
  unfolding to_le_bytes_def by (simp add: upt_conv_Cons div_mult2_eq map_Suc_upt [symmetric] comp_def del: upt_Suc)

lemma from_to_le_bytes: "from_le_bytes (to_le_bytes k n) = n mod 256 ^ k"
proof (induction k arbitrary: n)
  case (Suc k)
  have "from_le_bytes (to_le_bytes (Suc k) n) = n mod 256 + 256 * (n div 256 mod 256 ^ k)"
    using Suc [of "n div 256"] by (simp add: to_le_bytes_Suc from_le_bytes_def unat_of_nat)
  then show ?case by (simp add: mod_mult2_eq)
qed (simp add: to_le_bytes_def from_le_bytes_def)

lemma length_to_le_bytes [simp]: "length (to_le_bytes k n) = k"
  by (simp add: to_le_bytes_def)

lemma fh_back: "g < 2 ^ 64 \<Longrightarrow> i < 2 ^ 64 \<Longrightarrow> fh_to_id g (id_to_fh g i) = Inr i"
  by (simp add: fh_to_id_def id_to_fh_def from_to_le_bytes)

text \<open>
  C28.  A file handle names its file until the server restarts: the server that gave a handle reads
  back the number of the file, a later one answers that the handle is stale, and an
  earlier one that it is bad.
\<close>

theorem fh_roundtrip:
  assumes "g < 2 ^ 64" and "i < 2 ^ 64"
  shows "fh_to_id g' (id_to_fh g i) =
    (if g < g' then Inl NFS3ERR_STALE else if g' < g then Inl NFS3ERR_BADHANDLE else Inr i)"
proof -
  have "from_le_bytes (to_le_bytes 8 n) = n" if "n < 2 ^ 64" for n using that by (simp add: from_to_le_bytes)
  then show ?thesis using assms by (simp add: fh_to_id_def id_to_fh_def)
qed

theorem fh_roundtrip_witness:
  "fh_to_id 5 (id_to_fh 5 258) = Inr 258 \<and> fh_to_id 6 (id_to_fh 5 258) = Inl NFS3ERR_STALE"
  using fh_roundtrip [of 5 258 5] fh_roundtrip [of 5 258 6] by simp

section \<open>Permissions\<close>

text \<open>
  The rule of POSIX: bit \<open>k\<close> of the permissions of the caller's class, 2 to read, 1 to write, 0 to
  execute or search; the superuser may do everything.
\<close>

definition posix_may :: "auth_unix \<Rightarrow> fattr3 \<Rightarrow> nat \<Rightarrow> bool" where
  "posix_may auth a k \<longleftrightarrow>
    au_uid auth = 0 \<or>
    bit (fa_mode a) (k + (if au_uid auth = fa_uid a then 6 else if au_gid auth = fa_gid a \<or> fa_gid a \<in> set (au_gids auth) then 3 else 0))"

lemma and_power_bit: "(w AND 0x100 \<noteq> 0) = bit w 8" "(w AND 0x80 \<noteq> 0) = bit w 7" "(w AND 0x40 \<noteq> 0) = bit w 6"
  "(w AND 0x20 \<noteq> 0) = bit w 5" "(w AND 0x10 \<noteq> 0) = bit w 4" "(w AND 8 \<noteq> 0) = bit w 3"
  "(w AND 4 \<noteq> 0) = bit w 2" "(w AND 2 \<noteq> 0) = bit w (Suc 0)" "(w AND 1 \<noteq> 0) = bit w 0" for w :: u32
  using and_exp_eq_0_iff_not_bit [of w 8] and_exp_eq_0_iff_not_bit [of w 7] and_exp_eq_0_iff_not_bit [of w 6]
    and_exp_eq_0_iff_not_bit [of w 5] and_exp_eq_0_iff_not_bit [of w 4] and_exp_eq_0_iff_not_bit [of w 3]
    and_exp_eq_0_iff_not_bit [of w 2] and_exp_eq_0_iff_not_bit [of w 1] and_exp_eq_0_iff_not_bit [of w 0] by auto

lemma check_permission_posix:
  "check_permission auth a PermRead = posix_may auth a 2" "check_permission auth a PermWrite = posix_may auth a 1"
  "check_permission auth a PermExecute = posix_may auth a 0"
  by (simp_all add: check_permission_def posix_may_def is_in_group_def S_IRUSR_def S_IWUSR_def S_IXUSR_def S_IRGRP_def
      S_IWGRP_def S_IXGRP_def S_IROTH_def S_IWOTH_def S_IXOTH_def and_power_bit numeral_2_eq_2)

lemmas may_defs = can_modify_directory_def can_write_def can_execute_def can_read_def check_permission_posix

text \<open>What a caller needs for a procedure, given the attributes of the files.\<close>

definition on_file :: "u64 \<Rightarrow> (u64 \<Rightarrow> fattr3 option) \<Rightarrow> nfs_fh3 \<Rightarrow> (fattr3 \<Rightarrow> bool) \<Rightarrow> bool" where
  "on_file gen A fh P \<longleftrightarrow> (\<exists>i a. fh_to_id gen fh = Inr i \<and> A i = Some a \<and> P a)"

definition owns :: "auth_unix \<Rightarrow> fattr3 \<Rightarrow> bool" where
  "owns auth a \<longleftrightarrow> au_uid auth = 0 \<or> au_uid auth = fa_uid a"

text \<open>
  The attributes: the mode and a change of the times are for the owner, except that whoever may write the file may set
  both times to the present; the size is for those who may write; the owner is for the superuser, and naming the present
  owner for the owner; the group is for the superuser and, among the groups of the caller, for the owner.
\<close>

definition posix_times :: "auth_unix \<Rightarrow> fattr3 \<Rightarrow> set_time3 \<Rightarrow> set_time3 \<Rightarrow> bool" where
  "posix_times auth a t t' \<longleftrightarrow>
    (if t = DONT_CHANGE \<and> t' = DONT_CHANGE then True
     else if t = SET_TO_SERVER_TIME \<and> t' = SET_TO_SERVER_TIME then owns auth a \<or> posix_may auth a 1
     else owns auth a)"

definition posix_setattr :: "auth_unix \<Rightarrow> fattr3 \<Rightarrow> sattr3 \<Rightarrow> bool" where
  "posix_setattr auth a sa \<longleftrightarrow>
    (sa_size sa \<noteq> None \<longrightarrow> posix_may auth a 1) \<and> (sa_mode sa \<noteq> None \<longrightarrow> owns auth a) \<and>
    (\<forall>u. sa_uid sa = Some u \<longrightarrow> au_uid auth = 0 \<or> au_uid auth = fa_uid a \<and> u = fa_uid a) \<and>
    (\<forall>g. sa_gid sa = Some g \<longrightarrow> au_uid auth = 0 \<or> au_uid auth = fa_uid a \<and> (au_gid auth = g \<or> g \<in> set (au_gids auth))) \<and>
    posix_times auth a (sa_atime sa) (sa_mtime sa)"

text \<open>
  Directories: to add an entry the caller needs write and search permission; to take one out, in a directory with the
  sticky bit, also to be the superuser, the owner of the directory or the owner of the file.  \<open>E\<close> gives the attributes
  of the file an entry names.
\<close>

definition posix_enter :: "auth_unix \<Rightarrow> fattr3 \<Rightarrow> bool" where
  "posix_enter auth a \<longleftrightarrow> posix_may auth a 1 \<and> posix_may auth a 0"

definition sticky_allows :: "auth_unix \<Rightarrow> fattr3 \<Rightarrow> fattr3 option \<Rightarrow> bool" where
  "sticky_allows auth d e \<longleftrightarrow>
    bit (fa_mode d) 9 \<longrightarrow> (\<forall>x. e = Some x \<longrightarrow> au_uid auth = 0 \<or> au_uid auth = fa_uid d \<or> au_uid auth = fa_uid x)"

definition posix_take ::
  "auth_unix \<Rightarrow> u64 \<Rightarrow> (u64 \<Rightarrow> fattr3 option) \<Rightarrow> (u64 \<Rightarrow> string \<Rightarrow> fattr3 option) \<Rightarrow> nfs_fh3 \<Rightarrow> string \<Rightarrow> bool" where
  "posix_take auth gen A E dir n \<longleftrightarrow>
    (\<exists>i a. fh_to_id gen dir = Inr i \<and> A i = Some a \<and> posix_enter auth a \<and> sticky_allows auth a (E i n))"

fun permits ::
  "auth_unix \<Rightarrow> u64 \<Rightarrow> (u64 \<Rightarrow> fattr3 option) \<Rightarrow> (u64 \<Rightarrow> string \<Rightarrow> fattr3 option) \<Rightarrow> nfs_call \<Rightarrow> bool" where
  "permits auth gen A E (NFSPROC3_WRITE fh off cnt data) = on_file gen A fh (\<lambda>a. posix_may auth a 1)"
| "permits auth gen A E (NFSPROC3_CREATE dir name how) = on_file gen A dir (posix_enter auth)"
| "permits auth gen A E (NFSPROC3_MKDIR dir name sa) = on_file gen A dir (posix_enter auth)"
| "permits auth gen A E (NFSPROC3_SYMLINK dir name target) = on_file gen A dir (posix_enter auth)"
| "permits auth gen A E (NFSPROC3_MKNOD dir name t sa rdev) =
    (on_file gen A dir (posix_enter auth) \<and> (t \<in> {NF3CHR, NF3BLK} \<longrightarrow> au_uid auth = 0))"
| "permits auth gen A E (NFSPROC3_REMOVE dir name) = posix_take auth gen A E dir name"
| "permits auth gen A E (NFSPROC3_RMDIR dir name) = posix_take auth gen A E dir name"
| "permits auth gen A E (NFSPROC3_RENAME dir name dir' name') =
    (posix_take auth gen A E dir name \<and> posix_take auth gen A E dir' name')"
| "permits auth gen A E (NFSPROC3_LINK fh dir name) =
    (on_file gen A fh (\<lambda>a. fa_ftype a \<noteq> NF3DIR) \<and> on_file gen A dir (posix_enter auth))"
| "permits auth gen A E (NFSPROC3_SETATTR fh sa guard) = on_file gen A fh (\<lambda>a. posix_setattr auth a sa)"
| "permits auth gen A E _ = False"

text \<open>
  A call without the three things the server does not check: setting a time to that of the server, naming the present
  owner as the new one, and making a device.
\<close>

definition checked_time :: "set_time3 \<Rightarrow> set_time3" where
  "checked_time t = (if t = SET_TO_SERVER_TIME then DONT_CHANGE else t)"

definition checked_sattr :: "fattr3 option \<Rightarrow> sattr3 \<Rightarrow> sattr3" where
  "checked_sattr a sa =
    sa\<lparr>sa_uid := (if sa_uid sa = map_option fa_uid a then None else sa_uid sa),
       sa_atime := checked_time (sa_atime sa), sa_mtime := checked_time (sa_mtime sa)\<rparr>"

fun checked :: "u64 \<Rightarrow> (u64 \<Rightarrow> fattr3 option) \<Rightarrow> nfs_call \<Rightarrow> nfs_call" where
  "checked gen A (NFSPROC3_SETATTR fh sa guard) =
    NFSPROC3_SETATTR fh (checked_sattr (case fh_to_id gen fh of Inr i \<Rightarrow> A i | Inl e \<Rightarrow> None) sa) guard"
| "checked gen A (NFSPROC3_MKNOD dir name t sa rdev) =
    NFSPROC3_MKNOD dir name (if t \<in> {NF3CHR, NF3BLK} then NF3FIFO else t) sa rdev"
| "checked gen A call = call"

lemma setattr_granted:
  assumes "setattr_denied auth a sa = None"
  shows "posix_setattr auth a (checked_sattr (Some a) sa)"
proof -
  have "posix_times auth a (checked_time (sa_atime sa)) (checked_time (sa_mtime sa))"
    using assms
    by (cases "sa_atime sa"; cases "sa_mtime sa")
       (auto simp: posix_times_def checked_time_def explicit_time_def setattr_denied_def is_owner_def owns_def split: if_splits)
  then show ?thesis
    using assms
    by (auto simp: posix_setattr_def checked_sattr_def setattr_denied_def is_owner_def owns_def is_in_group_def may_defs
        split: if_splits option.splits)
qed

abbreviation no_entry :: "u64 \<Rightarrow> string \<Rightarrow> fattr3 option" where
  "no_entry \<equiv> \<lambda>_ _. None"

lemma take_no_entry: "posix_take auth gen A no_entry dir n \<longleftrightarrow> on_file gen A dir (posix_enter auth)"
  by (simp add: posix_take_def on_file_def sticky_allows_def)

lemma modify_enter: "can_modify_directory auth d \<longleftrightarrow> posix_enter auth d"
  by (simp add: posix_enter_def may_defs)

section \<open>Procedures that change nothing\<close>

definition keeps :: "('s \<Rightarrow> 'v) \<Rightarrow> 'v \<Rightarrow> ('s \<Rightarrow> 'x \<times> 's) \<Rightarrow> bool" where
  "keeps view v m \<longleftrightarrow> (\<forall>s. view s = v \<longrightarrow> view (snd (m s)) = v)"

named_theorems keep \<open>procedures that keep the view of the state\<close>

lemma keeps_vfs [keep]:
  "keeps view v (nret x)" "keeps view v (nstop e)"
  "keeps view v m \<Longrightarrow> (\<And>x. keeps view v (k x)) \<Longrightarrow> keeps view v (nbnd m k)"
  "keeps view v m' \<Longrightarrow> (\<And>x. keeps view v (k' x)) \<Longrightarrow> keeps view v (ask_as f m' k')"
  "(\<And>x. keeps view v (k2 x)) \<Longrightarrow> keeps view v (or_noent r k2)"
  "keeps view v k3 \<Longrightarrow> keeps view v (named n k3)"
  by (fastforce simp: keeps_def nret_def nstop_def nbnd_def ask_as_def or_noent_def named_def
      split: prod.split sum.split option.split)+

lemma keeps_handlers [keep]:
  "keeps view v (reply_with st b)" "keeps view v (\<lambda>s. (out, s))"
  "keeps view v m \<Longrightarrow> (\<And>x. keeps view v (k x)) \<Longrightarrow> keeps view v (on_vfs m k)"
  "(\<And>i. fh_to_id (cx_gen C) fh = Inr i \<Longrightarrow> keeps view v (k2 i)) \<Longrightarrow> keeps view v (with_id C fh b' k2)"
  "keeps view v k3 \<Longrightarrow> keeps view v (writable b'' k3)"
  by (fastforce simp: keeps_def reply_with_def on_vfs_def with_id_def writable_def
      split: prod.split sum.split nfs_stop.split)+

lemma keeps_split [keep]:
  "(b \<Longrightarrow> keeps view v m) \<Longrightarrow> (\<not> b \<Longrightarrow> keeps view v n) \<Longrightarrow> keeps view v (if b then m else n)"
  "(w = None \<Longrightarrow> keeps view v m) \<Longrightarrow> (\<And>x. w = Some x \<Longrightarrow> keeps view v (k x)) \<Longrightarrow> keeps view v (case w of None \<Rightarrow> m | Some x \<Rightarrow> k x)"
  "(\<And>x y. z = (x, y) \<Longrightarrow> keeps view v (k' x y)) \<Longrightarrow> keeps view v (case z of (x, y) \<Rightarrow> k' x y)"
  "(\<And>e. r = Inl e \<Longrightarrow> keeps view v (f e)) \<Longrightarrow> (\<And>x. r = Inr x \<Longrightarrow> keeps view v (g x)) \<Longrightarrow>
    keeps view v (case r of Inl e \<Rightarrow> f e | Inr x \<Rightarrow> g x)"
  by (cases b; cases w; cases z; cases r; simp)+

section \<open>Reading the store\<close>

text \<open>
  What the server relies on: the reading methods of the trait object keep the view, and \<open>getattr\<close>
  answers with the attributes in the view, if it answers.
\<close>

locale reading_fs =
  fixes F :: "('s, 'f) file_system" and view :: "'s \<Rightarrow> 'v" and attrs :: "'v \<Rightarrow> i64 \<Rightarrow> stats option"
  assumes r_getattr: "fs_getattr F i s = (r, s') \<Longrightarrow> view s' = view s \<and> (\<forall>x. r = Inr x \<longrightarrow> x = attrs (view s) i)"
    and r_lookup: "keeps view v (fs_lookup F i n)"
    and r_readlink: "keeps view v (fs_readlink F i)"
    and r_readdir: "keeps view v (fs_readdir_plus F i)"
    and r_open: "keeps view v (fs_open_file F i fl)"
    and r_pread: "keeps view v (file_pread F f a b)"
    and r_fstat: "keeps view v (file_fstat F f)"
begin

lemma keeps_getattr: "keeps view v (fs_getattr F i)"
  using r_getattr unfolding keeps_def by (metis prod.collapse)

lemmas reads = keeps_getattr r_lookup r_readlink r_readdir r_open r_pread r_fstat

lemma keeps_methods:
  "keeps view v (nfs_getattr F V i)" "keeps view v (nfs_lookup F i n)" "keeps view v (nfs_readlink F i)"
  "keeps view v (nfs_read F i off cnt)" "keeps view v (nfs_readdir F V i j k)" "keeps view v (readdir_simple F V i k)"
  unfolding nfs_getattr_def nfs_lookup_def nfs_readlink_def nfs_read_def nfs_readdir_def readdir_simple_def Let_def
  by (rule keep reads)+

lemma keeps_getattr_or:
  assumes "cx_fs C = F" and "\<And>a. map_option (stats_to_fattr (cx_dev C)) (attrs v (as_i64 i)) = Some a \<Longrightarrow> keeps view v (k a)"
  shows "keeps view v (getattr_or C i b k)"
  unfolding keeps_def
proof (intro allI impI)
  fix s
  assume s: "view s = v"
  obtain r s' where g: "fs_getattr F (as_i64 i) s = (r, s')" by fastforce
  note law = r_getattr [OF g, unfolded s]
  show "view (snd (getattr_or C i b k s)) = v"
  proof (cases "\<exists>st. r = Inr (Some st)")
    case True
    then obtain st where r: "r = Inr (Some st)" by blast
    then have "attrs v (as_i64 i) = Some st" using law by auto
    then have "keeps view v (k (stats_to_fattr (cx_dev C) st))" using assms(2) by simp
    moreover have "view s' = v" using law by simp
    ultimately show ?thesis
      using g r assms(1)
      by (simp add: getattr_or_def on_vfs_def nfs_getattr_def ask_as_def or_noent_def nret_def id_to_fs_ino_def keeps_def)
  next
    case False
    then show ?thesis
      using g law assms(1)
      by (auto simp: getattr_or_def on_vfs_def nfs_getattr_def ask_as_def or_noent_def nstop_def id_to_fs_ino_def reply_with_def
          split: sum.splits option.splits)
  qed
qed

lemma keeps_post_attr: "cx_fs C = F \<Longrightarrow> (\<And>a. keeps view v (k a)) \<Longrightarrow> keeps view v (post_attr C i k)"
  unfolding post_attr_def by (simp add: keeps_handlers(3) keeps_methods(1))

lemma keeps_entry_allowed:
  assumes "cx_fs C = F" and "\<And>allowed. (allowed \<Longrightarrow> can_modify_directory (cx_auth C) d) \<Longrightarrow> keeps view v (k allowed)"
  shows "keeps view v (entry_allowed C i d n P k)"
  unfolding entry_allowed_def Let_def
  by (intro keep keeps_methods [folded assms(1)] assms(2)) (auto simp: can_delete_entry_def split: if_splits sum.splits)

lemma keeps_in_directory:
  assumes "cx_fs C = F"
    and "\<not> on_file (cx_gen C) (\<lambda>i. map_option (stats_to_fattr (cx_dev C)) (attrs v (as_i64 i))) dir
      (posix_enter (cx_auth C))"
  shows "keeps view v (in_directory C dir k)"
  unfolding in_directory_def refuse_def
  by (rule keep keeps_getattr_or [OF assms(1)] keeps_post_attr [OF assms(1)])+
     (use assms(2) in \<open>auto simp: on_file_def modify_enter\<close>)

lemmas readers = nfsproc3_getattr_def nfsproc3_lookup_def nfsproc3_read_def nfsproc3_fsinfo_def nfsproc3_access_def
  nfsproc3_pathconf_def nfsproc3_fsstat_def nfsproc3_readlink_def nfsproc3_readdirplus_def nfsproc3_readdir_def

lemma keeps_readers:
  assumes "cx_fs C = F"
  shows "keeps view v (nfsproc3_getattr C fh)" "keeps view v (nfsproc3_lookup C fh n)" "keeps view v (nfsproc3_read C fh off cnt)"
    "keeps view v (nfsproc3_fsinfo C fh)" "keeps view v (nfsproc3_access C fh w)" "keeps view v (nfsproc3_pathconf C fh)"
    "keeps view v (nfsproc3_fsstat C fh)" "keeps view v (nfsproc3_readlink C fh)"
    "keeps view v (nfsproc3_readdirplus C fh i w w')" "keeps view v (nfsproc3_readdir C fh i w)"
  unfolding readers Let_def
  by (rule keep keeps_methods [folded assms] keeps_getattr_or [OF assms] keeps_post_attr [OF assms])+

lemma keeps_writers:
  assumes "cx_fs C = F" and "A = (\<lambda>i. map_option (stats_to_fattr (cx_dev C)) (attrs v (as_i64 i)))"
  shows "\<not> permits (cx_auth C) (cx_gen C) A no_entry (NFSPROC3_WRITE fh off cnt data) \<Longrightarrow> keeps view v (nfsproc3_write C fh off cnt data)"
    and "\<not> permits (cx_auth C) (cx_gen C) A no_entry (checked (cx_gen C) A (NFSPROC3_SETATTR fh sa guard)) \<Longrightarrow> keeps view v (nfsproc3_setattr C fh sa guard)"
    and "\<not> permits (cx_auth C) (cx_gen C) A no_entry (NFSPROC3_REMOVE fh n) \<Longrightarrow> keeps view v (nfsproc3_remove C fh n)"
    and "\<not> permits (cx_auth C) (cx_gen C) A no_entry (NFSPROC3_RENAME fh n fh' n') \<Longrightarrow> keeps view v (nfsproc3_rename C fh n fh' n')"
    and "\<not> permits (cx_auth C) (cx_gen C) A no_entry (NFSPROC3_LINK fh fh' n) \<Longrightarrow> keeps view v (nfsproc3_link C fh fh' n)"
proof -
  note steps = keep keeps_getattr_or [OF assms(1)] keeps_post_attr [OF assms(1)] keeps_entry_allowed [OF assms(1)]
  show "keeps view v (nfsproc3_write C fh off cnt data)" if "\<not> permits (cx_auth C) (cx_gen C) A no_entry (NFSPROC3_WRITE fh off cnt data)"
    unfolding nfsproc3_write_def Let_def
    by (rule steps)+ (use that in \<open>auto simp: on_file_def may_defs posix_enter_def take_no_entry assms(2)\<close>)
  show "keeps view v (nfsproc3_setattr C fh sa guard)" if "\<not> permits (cx_auth C) (cx_gen C) A no_entry (checked (cx_gen C) A (NFSPROC3_SETATTR fh sa guard))"
    unfolding nfsproc3_setattr_def Let_def
    by (rule steps | (use that setattr_granted in \<open>fastforce simp: on_file_def assms(2)\<close>))+
  show "keeps view v (nfsproc3_remove C fh n)" if "\<not> permits (cx_auth C) (cx_gen C) A no_entry (NFSPROC3_REMOVE fh n)"
    unfolding nfsproc3_remove_def refuse_def
    by (rule steps)+ (use that in \<open>auto simp: on_file_def may_defs posix_enter_def take_no_entry assms(2)\<close>)
  show "keeps view v (nfsproc3_rename C fh n fh' n')" if "\<not> permits (cx_auth C) (cx_gen C) A no_entry (NFSPROC3_RENAME fh n fh' n')"
    unfolding nfsproc3_rename_def rename_reply_def Let_def
    by (rule steps)+ (use that in \<open>auto simp: on_file_def may_defs posix_enter_def take_no_entry assms(2)\<close>)
  show "keeps view v (nfsproc3_link C fh fh' n)" if "\<not> permits (cx_auth C) (cx_gen C) A no_entry (NFSPROC3_LINK fh fh' n)"
    unfolding nfsproc3_link_def
    by (rule steps)+ (use that in \<open>auto simp: on_file_def may_defs posix_enter_def take_no_entry assms(2)\<close>)
qed

lemma keeps_makers:
  assumes "cx_fs C = F" and "A = (\<lambda>i. map_option (stats_to_fattr (cx_dev C)) (attrs v (as_i64 i)))"
  shows "\<not> permits (cx_auth C) (cx_gen C) A no_entry (NFSPROC3_CREATE fh n how) \<Longrightarrow> keeps view v (nfsproc3_create C fh n how)"
    and "\<not> permits (cx_auth C) (cx_gen C) A no_entry (NFSPROC3_MKDIR fh n sa) \<Longrightarrow> keeps view v (nfsproc3_mkdir C fh n sa)"
    and "\<not> permits (cx_auth C) (cx_gen C) A no_entry (NFSPROC3_SYMLINK fh n n') \<Longrightarrow> keeps view v (nfsproc3_symlink C fh n n')"
    and "\<not> permits (cx_auth C) (cx_gen C) A no_entry (checked (cx_gen C) A (NFSPROC3_MKNOD fh n t sa rdev)) \<Longrightarrow> keeps view v (nfsproc3_mknod C fh n t sa rdev)"
  unfolding nfsproc3_create_def nfsproc3_mkdir_def nfsproc3_symlink_def nfsproc3_mknod_def
  by (rule keep keeps_in_directory [OF assms(1)] | fastforce simp: assms(2) split: if_splits)+

lemma denied_keeps:
  assumes "cx_fs C = F"
    and "A = (\<lambda>i. map_option (stats_to_fattr (cx_dev C)) (attrs v (as_i64 i)))"
    and "\<not> permits (cx_auth C) (cx_gen C) A no_entry (checked (cx_gen C) A call)"
  shows "keeps view v (handle_nfs C vers call)"
  using assms(3) keeps_writers [OF assms(1,2)] keeps_makers [OF assms(1,2)]
  by (cases "vers = NFS_VERSION"; cases call) (auto simp: handle_nfs_def keeps_readers [OF assms(1)] keeps_handlers(2))

end

section \<open>A SecAFS behind the server\<close>

text \<open>The rows a client can see: those of the session and those of the others.\<close>

definition both :: "'z conn_scheme \<Rightarrow> tables \<times> tables" where
  "both c = (tabs c, committed c)"

definition stored_attrs :: "tables \<times> tables \<Rightarrow> i64 \<Rightarrow> stats option" where
  "stored_attrs v i = map_option build_stats_from_row (look i_ino (fs_inode (fst v)) i)"

lemma both_sel [simp]:
  "both (c\<lparr>faults := fs\<rparr>) = both c" "both (abort_txn c) = both c" "both (c'\<lparr>dcache := l\<rparr>) = both (c' :: 'l fs_state)"
  by (auto simp: both_def committed_def abort_txn_def split: txn.split)

interpretation both_reads: reader_invariant "\<lambda>c. both c = v" for v
  by unfold_locales simp_all

lemma keeps_preserves: "keeps view v m \<longleftrightarrow> preserves (\<lambda>c. view c = v) m"
  by (simp add: keeps_def preserves_def)

lemma both_connection [pres]: "preserves (\<lambda>c. both c = v) get_connection"
  by (auto simp: preserves_def get_connection_def split: list.split bool.split)

lemma both_query: "query q c = (r, c') \<Longrightarrow> both c' = both c \<and> (\<forall>x. r = Inr x \<longrightarrow> x = q (fst (both c)))"
  by (auto simp: query_def stmt_def both_def committed_def abort_txn_def split: txn.splits list.splits bool.splits)

lemma both_getattr:
  assumes "getattr i c = (r, c')"
  shows "both c' = both c \<and> (\<forall>x. r = Inr x \<longrightarrow> x = stored_attrs (both c) i)"
proof -
  obtain u c1 where g: "get_connection c = (u, c1)" by fastforce
  have b: "both c1 = both c" using both_connection [of "both c"] g unfolding preserves_def by (metis snd_conv)
  show ?thesis
  proof (cases u)
    case (Inl e)
    then show ?thesis using assms g b by (auto simp: getattr_def sq_def bnd_def)
  next
    case (Inr x)
    then have "getattr_with_conn i c1 = (r, c')" using assms g by (simp add: getattr_def sq_def bnd_def)
    then show ?thesis
      using both_query [of _ c1 r c'] b by (auto simp: getattr_with_conn_def stored_attrs_def)
  qed
qed

lemma both_reading:
  "preserves (\<lambda>c :: 'l fs_state. both c = v) (lookup L i n)" "preserves (\<lambda>c :: 'l fs_state. both c = v) (readlink i)"
  "preserves (\<lambda>c :: 'l fs_state. both c = v) (readdir_plus coll i)" "preserves (\<lambda>c :: 'l fs_state. both c = v) (fs_open cs i)"
  "preserves (\<lambda>c :: 'l fs_state. both c = v) (pread f x y)" "preserves (\<lambda>c :: 'l fs_state. both c = v) (fstat f)"
  unfolding lookup_def readlink_def readdir_plus_def fs_open_def pread_def fstat_def select_ino_def Let_def
  by (intro pres both_connection both_reads.reads both_reads.reads_query)+

interpretation secafs_reading: reading_fs "secafs_fs L coll D cs clk" both stored_attrs
  for L :: "'l lru_ops" and coll :: "string \<Rightarrow> 'k :: linorder" and D cs clk
proof unfold_locales
  show "both s' = both s \<and> (\<forall>x. r = Inr x \<longrightarrow> x = stored_attrs (both s) i)"
    if "fs_getattr (secafs_fs L coll D cs clk) i s = (r, s')" for i r and s s' :: "'l fs_state"
    using that both_getattr by (simp add: secafs_fs_def)
qed (simp_all add: secafs_fs_def keeps_preserves both_reading)

section \<open>Sticky directories\<close>

text \<open>
  The check of an entry in a sticky directory looks the entry up.  It is effective when the look-up works: no statement
  fails, the name space is consistent, numbers of inodes are of 64 bits, no entry is named \<open>..\<close> (a name
  that is looked up as the parent) and none has a name that the look-up refuses as too long.
\<close>

definition steady :: "'l fs_state \<Rightarrow> bool" where
  "steady c \<longleftrightarrow> ready c \<and> ns_inv c \<and>
    (\<forall>r \<in> set (fs_inode (tabs c)). - (2 ^ 63) \<le> i_ino r \<and> i_ino r < 2 ^ 63) \<and>
    (\<forall>d \<in> set (fs_dentry (tabs c)). d_name d \<noteq> ''..'' \<and> length (d_name d) \<le> MAX_NAME_LEN)"

lemma steady_dcache [simp]: "steady (c\<lparr>dcache := l\<rparr>) \<longleftrightarrow> steady c"
  by (simp add: steady_def ns_inv_def below_serials_def)

lemma steady_entry:
  assumes "steady c" and "dir_map (tabs c) (p, n) = Some j"
  obtains r pr where "ino_map (tabs c) j = Some r" and "ino_map (tabs c) p = Some pr" and "is_dir pr"
    and "as_i64 (as_u64 j) = j" and "n \<noteq> ''..''" and "length n \<le> MAX_NAME_LEN"
proof -
  have inv: "ns_inv c" using assms(1) by (simp add: steady_def)
  obtain r pr where r: "ino_map (tabs c) j = Some r" "ino_map (tabs c) p = Some pr" "is_dir pr"
    using named_inode [OF inv assms(2)] by auto
  have "r \<in> set (fs_inode (tabs c))" "i_ino r = j" using r(1) by (auto simp: ino_map_def)
  then have "as_i64 (as_u64 j) = j" using assms(1) as_i64_as_u64 by (auto simp: steady_def)
  moreover have "n \<noteq> ''..'' \<and> length n \<le> MAX_NAME_LEN"
    using assms by (auto simp: steady_def dir_map_def)
  ultimately show ?thesis using that r by blast
qed

lemma dcache_refl: "\<exists>l. c = c\<lparr>dcache := l\<rparr>" for c :: "'l fs_state"
  by (rule exI [of _ "dcache c"]) simp

lemma lookup_state:
  fixes c :: "'l fs_state"
  assumes "steady c"
  shows "\<exists>l. snd (lookup L p n c) = c\<lparr>dcache := l\<rparr>"
proof (cases "MAX_NAME_LEN < length n \<or> n = ''..'' \<or> dir_map (tabs c) (p, n) = None")
  case True
  then have "snd (lookup L p n c) = c"
    using assms ns_invD(2) [of c] by (auto simp: steady_def lookup_def run ROOT_INO_def split: option.splits)
  then show ?thesis using dcache_refl [of c] by simp
next
  case False
  then obtain i where i: "dir_map (tabs c) (p, n) = Some i" by auto
  obtain r where r: "ino_map (tabs c) i = Some r" using steady_entry [OF assms i] by metis
  have "snd (lookup L p n c) = c\<lparr>dcache := lru_put L (p, n) i (dcache c)\<rparr>"
    using False i r assms ns_invD(2) [of c] by (simp add: steady_def lookup_def run)
  then show ?thesis by blast
qed

lemma nfs_getattr_run:
  fixes c :: "'l fs_state"
  assumes "cx_fs C = secafs_fs L coll D cs clk" and "steady c"
  shows "nfs_getattr (cx_fs C) V i c =
    (case ino_map (tabs c) (as_i64 i) of
       None \<Rightarrow> (Inl (Status NFS3ERR_NOENT), c)
     | Some r \<Rightarrow> (Inr (stats_to_fattr V (build_stats_from_row r)), c))"
  using assms
  by (auto simp: nfs_getattr_def secafs_fs_def ask_as_def getattr_def run steady_def or_noent_def nstop_def nret_def
      id_to_fs_ino_def split: option.split)

lemma nfs_lookup_state:
  fixes c :: "'l fs_state"
  assumes "cx_fs C = secafs_fs L coll D cs clk" and "steady c"
  shows "\<exists>r l. nfs_lookup (cx_fs C) i n c = (r, c\<lparr>dcache := l\<rparr>)"
proof -
  obtain r l where l: "lookup L (as_i64 i) n c = (r, c\<lparr>dcache := l\<rparr>)"
    using lookup_state [OF assms(2), of L "as_i64 i" n] by (metis prod.collapse)
  have g: "getattr (as_i64 i) c = (Inr (map_option build_stats_from_row (ino_map (tabs c) (as_i64 i))), c)"
    using assms(2) by (simp add: getattr_def run steady_def)
  show ?thesis
    using l g dcache_refl [of c] unfolding assms(1)
    by (auto simp: nfs_lookup_def named_def secafs_fs_def ask_as_def or_noent_def nstop_def nret_def id_to_fs_ino_def
        split: option.splits sum.splits)
qed

lemma nfs_lookup_finds:
  fixes c :: "'l fs_state"
  assumes "cx_fs C = secafs_fs L coll D cs clk" and "steady c" and "dir_map (tabs c) (as_i64 i, n) = Some j"
    and "utf8 n" and "n \<noteq> ''.''"
  shows "\<exists>l. nfs_lookup (cx_fs C) i n c = (Inr (as_u64 j), c\<lparr>dcache := l\<rparr>)"
proof -
  obtain r pr where e: "ino_map (tabs c) j = Some r" "ino_map (tabs c) (as_i64 i) = Some pr" "is_dir pr" "n \<noteq> ''..''"
    "length n \<le> MAX_NAME_LEN" by (rule steady_entry [OF assms(2,3)])
  have j: "st_ino (build_stats_from_row r) = j" using e(1) by (auto simp: ino_map_def build_stats_from_row_def)
  have "lookup L (as_i64 i) n c = (Inr (Some (build_stats_from_row r)), c\<lparr>dcache := lru_put L (as_i64 i, n) j (dcache c)\<rparr>)"
    using assms(2,3) e ns_invD(2) [of c] by (simp add: steady_def lookup_def run)
  moreover have "getattr (as_i64 i) c = (Inr (Some (build_stats_from_row pr)), c)"
    using assms(2) e(2) by (simp add: getattr_def run steady_def)
  ultimately have "nfs_lookup (cx_fs C) i n c = (Inr (as_u64 j), c\<lparr>dcache := lru_put L (as_i64 i, n) j (dcache c)\<rparr>)"
    using assms(4,5) e(3,4) j unfolding assms(1)
    by (simp add: nfs_lookup_def named_def secafs_fs_def ask_as_def or_noent_def nret_def id_to_fs_ino_def)
  then show ?thesis by blast
qed

lemma entry_allowed_state:
  fixes c :: "'l fs_state"
  assumes "cx_fs C = secafs_fs L coll D cs clk" and "steady c"
  shows "\<exists>l. (\<exists>b. entry_allowed C i d n P k c = k b (c\<lparr>dcache := l\<rparr>)) \<or>
    (\<exists>out. entry_allowed C i d n P k c = (out, c\<lparr>dcache := l\<rparr>))"
proof -
  obtain r l where l: "nfs_lookup (cx_fs C) i n c = (r, c\<lparr>dcache := l\<rparr>)" using nfs_lookup_state [OF assms] by blast
  have "steady (c\<lparr>dcache := l\<rparr>)" using assms(2) by simp
  note g = nfs_getattr_run [OF assms(1) this]
  show ?thesis
  proof (cases "fa_mode d AND S_ISVTX \<noteq> 0")
    case True
    let ?basic = "can_modify_directory (cx_auth C) d" and ?c = "c\<lparr>dcache := l\<rparr>"
    consider "r = Inl Aborted" | st where "r = Inl (Status st)" | j where "r = Inr j" by (metis nfs_stop.exhaust sum.exhaust)
    then have "(\<exists>b. entry_allowed C i d n P k c = k b ?c) \<or> (\<exists>out. entry_allowed C i d n P k c = (out, ?c))"
    proof cases
      case 1
      then have "entry_allowed C i d n P k c = ([], ?c)" using True l by (simp add: entry_allowed_def Let_def on_vfs_def)
      then show ?thesis by blast
    next
      case 2
      then have "entry_allowed C i d n P k c = k ?basic ?c" using True l by (simp add: entry_allowed_def Let_def on_vfs_def)
      then show ?thesis by blast
    next
      case (3 j)
      have "entry_allowed C i d n P k c = k (case ino_map (tabs c) (as_i64 j) of None \<Rightarrow> ?basic
          | Some q \<Rightarrow> can_delete_entry (cx_auth C) d (stats_to_fattr (cx_dev C) (build_stats_from_row q)) \<and>
              P (stats_to_fattr (cx_dev C) (build_stats_from_row q))) ?c"
        using True l 3 by (simp add: entry_allowed_def Let_def on_vfs_def g split: option.split)
      then show ?thesis by blast
    qed
    then show ?thesis by blast
  next
    case False
    then have "entry_allowed C i d n P k c = k (can_modify_directory (cx_auth C) d) c" by (simp add: entry_allowed_def Let_def)
    then show ?thesis using dcache_refl [of c] by metis
  qed
qed

text \<open>An entry that the sticky bit protects from the caller is refused.\<close>

lemma protected_refused:
  fixes c :: "'l fs_state"
  assumes fs: "cx_fs C = secafs_fs L coll D cs clk" and st: "steady c"
    and d: "ino_map (tabs c) (as_i64 i) = Some pr" "d = stats_to_fattr (cx_dev C) (build_stats_from_row pr)"
    and e: "dir_map (tabs c) (as_i64 i, n) = Some j" "ino_map (tabs c) j = Some r" "utf8 n"
    and no: "\<not> sticky_allows (cx_auth C) d (Some (stats_to_fattr (cx_dev C) (build_stats_from_row r)))"
  shows "\<exists>l. entry_allowed C i d n P k c = k False (c\<lparr>dcache := l\<rparr>)"
proof -
  have sticky: "fa_mode d AND S_ISVTX \<noteq> 0"
    using no and_exp_eq_0_iff_not_bit [of "fa_mode d" 9] by (auto simp: sticky_allows_def S_ISVTX_def)
  have nope: "\<not> can_delete_entry (cx_auth C) d d" "\<not> can_delete_entry (cx_auth C) d (stats_to_fattr (cx_dev C) (build_stats_from_row r))"
    using no sticky by (auto simp: sticky_allows_def can_delete_entry_def)
  have j: "as_i64 (as_u64 j) = j" using steady_entry [OF st e(1)] by metis
  show ?thesis
  proof (cases "n = ''.''")
    case True
    have "nfs_lookup (cx_fs C) i n c = (Inr i, c)" using True e(3) by (simp add: nfs_lookup_def named_def nret_def)
    then have "entry_allowed C i d n P k c = k False c"
      using sticky nope(1) d by (simp add: entry_allowed_def Let_def on_vfs_def nfs_getattr_run [OF fs st])
    then show ?thesis using dcache_refl [of c] by metis
  next
    case False
    obtain l where l: "nfs_lookup (cx_fs C) i n c = (Inr (as_u64 j), c\<lparr>dcache := l\<rparr>)"
      using nfs_lookup_finds [OF fs st e(1,3) False] by blast
    have "steady (c\<lparr>dcache := l\<rparr>)" using st by simp
    then have "entry_allowed C i d n P k c = k False (c\<lparr>dcache := l\<rparr>)"
      using sticky nope(2) l e(2) j by (simp add: entry_allowed_def Let_def on_vfs_def nfs_getattr_run [OF fs])
    then show ?thesis by blast
  qed
qed

text \<open>The attributes stored for a file, and for the file that an entry names.\<close>

definition file_attrs :: "('s, 'f) rpc_context \<Rightarrow> tables \<Rightarrow> u64 \<Rightarrow> fattr3 option" where
  "file_attrs C t i = map_option (\<lambda>r. stats_to_fattr (cx_dev C) (build_stats_from_row r)) (ino_map t (as_i64 i))"

definition entry_attrs :: "('s, 'f) rpc_context \<Rightarrow> tables \<Rightarrow> u64 \<Rightarrow> string \<Rightarrow> fattr3 option" where
  "entry_attrs C t i n =
    (case dir_map t (as_i64 i, n) of
       None \<Rightarrow> None
     | Some j \<Rightarrow> map_option (\<lambda>r. stats_to_fattr (cx_dev C) (build_stats_from_row r)) (ino_map t j))"

lemma getattr_or_run:
  fixes c :: "'l fs_state"
  assumes "cx_fs C = secafs_fs L coll D cs clk" and "steady c" and "file_attrs C (tabs c) i = Some a"
  shows "getattr_or C i b k c = k a c"
  using assms(3) by (auto simp: getattr_or_def on_vfs_def nfs_getattr_run [OF assms(1,2)] file_attrs_def)

lemma protected_entry:
  fixes c :: "'l fs_state"
  assumes "cx_fs C = secafs_fs L coll D cs clk" and "steady c" and "file_attrs C (tabs c) i = Some a" and "utf8 n"
    and "\<not> sticky_allows (cx_auth C) a (entry_attrs C (tabs c) i n)"
  shows "\<exists>l. entry_allowed C i a n P k c = k False (c\<lparr>dcache := l\<rparr>)"
proof -
  obtain pr where pr: "ino_map (tabs c) (as_i64 i) = Some pr" "a = stats_to_fattr (cx_dev C) (build_stats_from_row pr)"
    using assms(3) by (auto simp: file_attrs_def)
  obtain j r where r: "dir_map (tabs c) (as_i64 i, n) = Some j" "ino_map (tabs c) j = Some r"
    and e: "entry_attrs C (tabs c) i n = Some (stats_to_fattr (cx_dev C) (build_stats_from_row r))"
    using assms(5) by (auto simp: sticky_allows_def entry_attrs_def split: option.splits)
  show ?thesis by (rule protected_refused [OF assms(1,2) pr r assms(4) assms(5) [unfolded e]])
qed

lemma keeps_badly_named:
  assumes "cx_fs C = secafs_fs L coll D cs clk"
  shows "\<not> utf8 n \<Longrightarrow> keeps both v (nfsproc3_remove C fh n)"
    and "\<not> utf8 n \<or> \<not> utf8 n' \<Longrightarrow> keeps both v (nfsproc3_rename C fh n fh' n')"
proof -
  note steps = keep secafs_reading.keeps_getattr_or [OF assms] secafs_reading.keeps_post_attr [OF assms]
    secafs_reading.keeps_entry_allowed [OF assms]
  have "keeps both v (nfs_remove (cx_fs C) i n)" if "\<not> utf8 n" for i
    using that by (simp add: nfs_remove_def named_def keep)
  then show "keeps both v (nfsproc3_remove C fh n)" if "\<not> utf8 n"
    using that unfolding nfsproc3_remove_def refuse_def by (intro steps) auto
  have "keeps both v (nfs_rename (cx_fs C) i n j n')" if "\<not> utf8 n \<or> \<not> utf8 n'" for i j
    using that by (auto simp: nfs_rename_def named_def keep)
  then show "keeps both v (nfsproc3_rename C fh n fh' n')" if "\<not> utf8 n \<or> \<not> utf8 n'"
    using that unfolding nfsproc3_rename_def rename_reply_def Let_def by (intro steps) auto
qed

lemma keeps_answers:
  assumes "cx_fs C = secafs_fs L coll D cs clk"
  shows "keeps both v (refuse C i d)" "keeps both v (rename_reply C i d j d' st)"
  unfolding refuse_def rename_reply_def by (rule keep secafs_reading.keeps_post_attr [OF assms])+

lemma sticky_remove:
  fixes c :: "'l fs_state"
  assumes fs: "cx_fs C = secafs_fs L coll D cs clk" and st: "steady c"
    and i: "fh_to_id (cx_gen C) dir = Inr i" "file_attrs C (tabs c) i = Some a"
    and no: "\<not> sticky_allows (cx_auth C) a (entry_attrs C (tabs c) i n)"
  shows "both (snd (nfsproc3_remove C dir n c)) = both c"
proof (cases "utf8 n")
  case True
  define go where "go = (\<lambda>b. if \<not> b then refuse C i a else on_vfs (nfs_remove (cx_fs C) i n) (\<lambda>res. post_attr C i (\<lambda>post.
      reply_with (case res of Inr () \<Rightarrow> NFS3_OK | Inl e \<Rightarrow> e) (WccBody (pre_attr a, post)))))"
  have "nfsproc3_remove C dir n c = entry_allowed C i a n (\<lambda>_. True) go c"
    using i(1) unfolding go_def
    by (simp add: nfsproc3_remove_def writable_def nfs_capabilities_def with_id_def getattr_or_run [OF fs st i(2)])
  moreover obtain l where "entry_allowed C i a n (\<lambda>_. True) go c = go False (c\<lparr>dcache := l\<rparr>)"
    using protected_entry [OF fs st i(2) True no, of "\<lambda>_. True" go] by blast
  ultimately have "nfsproc3_remove C dir n c = refuse C i a (c\<lparr>dcache := l\<rparr>)" by (simp add: go_def)
  then show ?thesis using keeps_answers(1) [OF fs, of "both c" i a] by (simp add: keeps_def)
next
  case False
  then show ?thesis using keeps_badly_named(1) [OF fs] by (simp add: keeps_def)
qed

lemma sticky_rename:
  fixes c :: "'l fs_state"
  assumes fs: "cx_fs C = secafs_fs L coll D cs clk" and st: "steady c"
    and i: "fh_to_id (cx_gen C) dir = Inr i" "file_attrs C (tabs c) i = Some a"
    and j: "fh_to_id (cx_gen C) dir' = Inr j" "file_attrs C (tabs c) j = Some a'"
    and no: "\<not> (sticky_allows (cx_auth C) a (entry_attrs C (tabs c) i n) \<and> sticky_allows (cx_auth C) a' (entry_attrs C (tabs c) j n'))"
  shows "both (snd (nfsproc3_rename C dir n dir' n' c)) = both c"
proof (cases "utf8 n \<and> utf8 n'")
  case True
  let ?answer = "rename_reply C i a j a'" and ?F = "cx_fs C"
  let ?P = "\<lambda>e. \<not> (fa_ftype e = NF3DIR \<and> i \<noteq> j \<and> au_uid (cx_auth C) \<noteq> 0 \<and> au_uid (cx_auth C) \<noteq> fa_uid e)"
  define go where "go = (\<lambda>b. if \<not> b then ?answer NFS3ERR_ACCES else
      on_vfs (nfs_rename ?F i n j n') (\<lambda>res. ?answer (case res of Inr () \<Rightarrow> NFS3_OK | Inl e \<Rightarrow> e)))"
  define tgt where "tgt = (\<lambda>b. if \<not> b then ?answer NFS3ERR_ACCES else entry_allowed C j a' n' (\<lambda>_. True) go)"
  have run: "nfsproc3_rename C dir n dir' n' c = entry_allowed C i a n ?P tgt c"
    using i(1) j(1) unfolding tgt_def go_def
    by (simp add: nfsproc3_rename_def writable_def nfs_capabilities_def with_id_def getattr_or_run [OF fs st i(2)]
        getattr_or_run [OF fs st j(2)] Let_def)
  have ans: "both (snd (?answer x (c\<lparr>dcache := l\<rparr>))) = both c" for x l
    using keeps_answers(2) [OF fs, of "both c" i a j a' x] by (simp add: keeps_def)
  have tgt: "both (snd (tgt b (c\<lparr>dcache := l\<rparr>))) = both c" if bad: "\<not> b \<or> \<not> sticky_allows (cx_auth C) a' (entry_attrs C (tabs c) j n')" for b l
  proof (cases b)
    case True
    have "steady (c\<lparr>dcache := l\<rparr>)" "file_attrs C (tabs (c\<lparr>dcache := l\<rparr>)) j = Some a'" using st j(2) by simp_all
    from protected_entry [OF fs this, of n' "\<lambda>_. True" go] obtain l' where
      "entry_allowed C j a' n' (\<lambda>_. True) go (c\<lparr>dcache := l\<rparr>) = go False (c\<lparr>dcache := l'\<rparr>)"
      using bad True \<open>utf8 n \<and> utf8 n'\<close> by auto
    then show ?thesis using True ans by (simp add: tgt_def go_def)
  qed (simp add: tgt_def ans)
  show ?thesis
  proof (cases "sticky_allows (cx_auth C) a (entry_attrs C (tabs c) i n)")
    case False
    then obtain l where "entry_allowed C i a n ?P tgt c = tgt False (c\<lparr>dcache := l\<rparr>)"
      using protected_entry [OF fs st i(2) _ False, of ?P tgt] True by blast
    then show ?thesis using run tgt [of False l] by simp
  next
    case sa: True
    then show ?thesis
      using entry_allowed_state [OF fs st, of i a n ?P tgt] tgt no run by force
  qed
next
  case False
  then show ?thesis using keeps_badly_named(2) [OF fs] unfolding keeps_def by blast
qed

section \<open>Who may change what\<close>

lemma sticky_keeps:
  fixes c :: "'l fs_state"
  assumes fs: "cx_fs C = secafs_fs L coll D cs clk" and st: "steady c" and A: "A = file_attrs C (tabs c)"
    and yes: "permits (cx_auth C) (cx_gen C) A no_entry (checked (cx_gen C) A call)"
    and no: "\<not> permits (cx_auth C) (cx_gen C) A (entry_attrs C (tabs c)) (checked (cx_gen C) A call)"
  shows "both (snd (handle_nfs C NFS_VERSION call c)) = both c"
proof (cases "\<exists>d n. call \<in> {NFSPROC3_REMOVE d n, NFSPROC3_RMDIR d n}")
  case True
  then obtain d n where call: "call \<in> {NFSPROC3_REMOVE d n, NFSPROC3_RMDIR d n}" by blast
  then obtain i a where i: "fh_to_id (cx_gen C) d = Inr i" "A i = Some a" "posix_enter (cx_auth C) a"
    using yes by (auto simp: posix_take_def)
  then have "\<not> sticky_allows (cx_auth C) a (entry_attrs C (tabs c) i n)" using no call by (auto simp: posix_take_def)
  then show ?thesis
    using sticky_remove [OF fs st i(1)] i(2) A call by (auto simp: handle_nfs_def)
next
  case False
  then obtain d n d' n' where call: "call = NFSPROC3_RENAME d n d' n'" using yes no by (cases call) auto
  obtain i a where i: "fh_to_id (cx_gen C) d = Inr i" "A i = Some a" "posix_enter (cx_auth C) a"
    using yes call by (auto simp: posix_take_def)
  obtain j a' where j: "fh_to_id (cx_gen C) d' = Inr j" "A j = Some a'" "posix_enter (cx_auth C) a'"
    using yes call by (auto simp: posix_take_def)
  have "\<not> (sticky_allows (cx_auth C) a (entry_attrs C (tabs c) i n) \<and> sticky_allows (cx_auth C) a' (entry_attrs C (tabs c) j n'))"
    using no call i j by (auto simp: posix_take_def)
  then show ?thesis
    using sticky_rename [OF fs st i(1) _ j(1)] i(2) j(2) A call by (simp add: handle_nfs_def)
qed

text \<open>
  C4.  The NFS server changes nothing for a caller who has not the permission POSIX asks for, three things apart.
  Whatever procedure is called with whatever arguments, and whichever statements of the database fail: when a row of the
  session or a committed row is different afterwards, then the handle is one of this server, and the attributes stored for
  its file before the call give the caller what POSIX asks for the call without the three things the server does
  not check (\<open>checked\<close>): write permission to write or resize a file, write and search permission on every directory
  whose entries change, ownership to change the mode or to set times, and the superuser, or the owner and a member
  of the group, to change owner or group.  The three things are setting times to that of the server, naming the
  present owner as the owner to set, and making a device, which the server allows to callers POSIX refuses (\<open>server_times_unprotected\<close>,
  \<open>set_id_bits_unprotected\<close> and \<open>devices_unprotected\<close> below).
  The sticky bit (to remove, rename or replace an entry of a sticky directory: the superuser, the owner of the
  directory or that of the file) is respected where the look-up of the entry works: no statement fails,
  the name space is consistent, and no entry is named \<open>..\<close> or has a name that is too long (\<open>steady\<close>); when the look-up
  fails the server goes on without this check.
\<close>

theorem nfs_permission_safe:
  fixes c c' :: "'l fs_state"
  assumes "cx_fs C = secafs_fs L coll D cs clk" and "handle_nfs C vers call c = (out, c')"
    and "tabs c' \<noteq> tabs c \<or> committed c' \<noteq> committed c" and "A = file_attrs C (tabs c)"
  shows "permits (cx_auth C) (cx_gen C) A no_entry (checked (cx_gen C) A call) \<and>
    (steady c \<longrightarrow> permits (cx_auth C) (cx_gen C) A (entry_attrs C (tabs c)) (checked (cx_gen C) A call))"
proof -
  have moved: "both c' \<noteq> both c" using assms(3) by (simp add: both_def)
  have A: "A = (\<lambda>i. map_option (stats_to_fattr (cx_dev C)) (stored_attrs (both c) (as_i64 i)))"
    by (simp add: assms(4) file_attrs_def ino_map_def stored_attrs_def both_def option.map_comp comp_def fun_eq_iff)
  have base: "permits (cx_auth C) (cx_gen C) A no_entry (checked (cx_gen C) A call)"
  proof (rule ccontr)
    assume "\<not> ?thesis"
    from secafs_reading.denied_keeps [OF assms(1) A this, of vers] have "both c' = both c"
      using assms(2) unfolding keeps_def by (metis snd_conv)
    then show False using moved by simp
  qed
  have "vers = NFS_VERSION" using assms(2) moved by (auto simp: handle_nfs_def split: if_splits)
  then have "permits (cx_auth C) (cx_gen C) A (entry_attrs C (tabs c)) (checked (cx_gen C) A call)" if "steady c"
    using sticky_keeps [OF assms(1) that assms(4) base] assms(2) moved by (metis snd_conv)
  with base show ?thesis by blast
qed

text \<open>A context for examples: the sample filesystem, served to the superuser.\<close>

definition sample_context :: "(lru_list fs_state, file_handle) rpc_context" where
  "sample_context =
    \<lparr>cx_fs = secafs_fs (list_lru 8) length pg_types 4096 (\<lambda>_. Some (7, 8)),
     cx_dev = \<lparr>dev_major = (\<lambda>_. 0), dev_minor = (\<lambda>_. 0), makedev = (\<lambda>_ _. 0)\<rparr>, cx_gen = 5,
     cx_auth = \<lparr>au_stamp = 0, au_machinename = [], au_uid = 0, au_gid = 0, au_gids = []\<rparr>,
     local_port = 2049, client_addr = ''10.0.0.2:700'', mount_signal = False, export_name = ''/''\<rparr>"

lemma sample_context_sel [simp]:
  "cx_fs sample_context = secafs_fs (list_lru 8) length pg_types 4096 (\<lambda>_. Some (7, 8))" "cx_gen sample_context = 5"
  "cx_auth sample_context = \<lparr>au_stamp = 0, au_machinename = [], au_uid = 0, au_gid = 0, au_gids = []\<rparr>"
  by (simp_all add: sample_context_def)

lemma sample_getattr:
  "getattr 3 sample_fs = (Inr (Some (build_stats_from_row (sample_inode 3 0x41ED 2 0))), sample_fs)"
  by (simp add: getattr_def run sample_fs_sel(3) getattr_with_conn_def sample_tables_def sample_inode_def)

theorem nfs_permission_safe_witness:
  "\<exists>out c'. handle_nfs sample_context 3 (NFSPROC3_MKDIR (id_to_fh 5 3) ''f'' sattr3_default) sample_fs = (out, c') \<and>
    tabs c' \<noteq> tabs sample_fs \<and>
    permits (cx_auth sample_context) 5 (file_attrs sample_context sample_tables) no_entry
      (NFSPROC3_MKDIR (id_to_fh 5 3) ''f'' sattr3_default)"
proof -
  let ?call = "NFSPROC3_MKDIR (id_to_fh 5 3) ''f'' sattr3_default"
  let ?r = "new_inode (S_IFDIR OR (0x1ED AND PERM_BITS)) 2 0 0 0 0 7 8 (seq_inode sample_fs)"
  obtain c1 where c1: "mkdir (list_lru 8) (Some (7, 8)) 3 ''f'' 0x1ED 0 0 sample_fs = (Inr (build_stats_from_row ?r), c1)"
      "created sample_fs c1 3 ''f'' ?r (\<lambda>r. set_cmtime 7 8 (add_nlink 1 r))"
    by (rule mkdir_ready [OF sample_fs_sel(3) sample_ns_inv sample_hyps(7,1,2) refl, of "list_lru 8" 7 8 "0x1ED" 0 0]) (rule that)
  obtain res where run: "handle_nfs sample_context 3 ?call sample_fs = made sample_context 3
      (pre_attr (stats_to_fattr (cx_dev sample_context) (build_stats_from_row (sample_inode 3 0x41ED 2 0)))) res c1"
    using c1(1) sample_getattr
    by (simp add: handle_nfs_def NFS_VERSION_def nfsproc3_mkdir_def writable_def nfs_capabilities_def in_directory_def with_id_def
        fh_back getattr_or_def on_vfs_def nfs_getattr_def ask_as_def or_noent_def nret_def id_to_fs_ino_def secafs_fs_def
        can_modify_directory_def can_write_def can_execute_def check_permission_def nfs_mkdir_def named_def new_mode_def
        sattr3_default_def)
  have "keeps both (both c1) (made sample_context 3 p r)" for p r
    unfolding made_def by (rule secafs_reading.keeps_post_attr [OF sample_context_sel(1)] keep)+
  then have "both (snd (handle_nfs sample_context 3 ?call sample_fs)) = both c1" unfolding run keeps_def by blast
  then have "tabs (snd (handle_nfs sample_context 3 ?call sample_fs)) = tabs c1" by (simp add: both_def)
  moreover have "tabs c1 \<noteq> tabs sample_fs" using c1(2) by (auto simp: created_def)
  ultimately show ?thesis
    using nfs_permission_safe [OF sample_context_sel(1) prod.collapse [symmetric], of 3 ?call sample_fs]
    by (intro exI [of _ "fst (handle_nfs sample_context 3 ?call sample_fs)"]
        exI [of _ "snd (handle_nfs sample_context 3 ?call sample_fs)"]) simp
qed

section \<open>Gaps of the checks\<close>

text \<open>
  A guard that does not hold does not stop \<open>setattr\<close>: the same change is made as without a guard, and two
  messages are written.
\<close>

lemma setattr_guard_ignored:
  "snd (nfsproc3_setattr C fh a guard s) = snd (nfsproc3_setattr C fh a None s)"
  unfolding nfsproc3_setattr_def getattr_or_def with_id_def writable_def Let_def
  by (auto simp: on_vfs_def split: prod.split sum.split nfs_stop.split option.split)

text \<open>
  Any caller can take the set-id bits from any file by naming the owner it has: the change of owner to the
  same owner is not refused, and the mode without these bits is set along with it.
\<close>

lemma set_id_bits_unprotected:
  assumes "au_uid auth \<noteq> 0" and "fa_mode a AND 0xC00 \<noteq> 0" and "sa = sattr3_default\<lparr>sa_uid := Some (fa_uid a)\<rparr>"
  shows "setattr_denied auth a sa = None \<and> sa_mode (adjust_mode auth a sa) = Some (fa_mode a AND NOT 0xC00)"
  using assms by (simp add: setattr_denied_def adjust_mode_def sattr3_default_def explicit_time_def)

text \<open>Any caller can set the times of any file to the time of the server.\<close>

lemma server_times_unprotected:
  "setattr_denied auth a (sattr3_default\<lparr>sa_atime := SET_TO_SERVER_TIME, sa_mtime := SET_TO_SERVER_TIME\<rparr>) = None"
  by (simp add: setattr_denied_def sattr3_default_def explicit_time_def)

text \<open>Any caller who may change a directory can make a device in it: the type is not looked at.\<close>

lemma devices_unprotected:
  assumes "au_uid (cx_auth C) \<noteq> 0" and "fh_to_id (cx_gen C) dir = Inr i" and "posix_enter (cx_auth C) d"
    and "nfs_getattr (cx_fs C) (cx_dev C) i s = (Inr d, s1)"
    and "nfs_mknod (cx_fs C) (cx_dev C) i n NF3BLK a rdev (cx_auth C) s1 = (Inr r, s2)"
  shows "nfsproc3_mknod C dir n NF3BLK a rdev s = made C i (pre_attr d) (Inr (fst r, Some (snd r))) s2"
  using assms(2-5)
  by (cases r) (simp add: nfsproc3_mknod_def writable_def nfs_capabilities_def in_directory_def with_id_def getattr_or_def
      on_vfs_def modify_enter)

text \<open>\<open>readdir\<close> does not look at the cookie: every page is the first one.\<close>

lemma readdir_ignores_cookie: "nfsproc3_readdir C dir cookie dircount = nfsproc3_readdir C dir 0 dircount"
  by (simp add: nfsproc3_readdir_def)

end
