(* ===== verification/Nfs_Pages.thy ===== *)
theory Nfs_Pages
  imports Nfs_Theorems
begin

text \<open>
  Directories read through NFS: \<open>READDIRPLUS\<close> continues after the entry whose number is the cookie.
\<close>

section \<open>One page\<close>

abbreviation entry_no :: "dir_entry \<Rightarrow> u64" where
  "entry_no e \<equiv> as_u64 (st_ino (de_stats e))"

lemma readdir_loop_take:
  "readdir_loop V after mx False skipped res es = (res @ map (nfs_entry_of V) (take (mx - length res) es), skipped)"
  by (induction es arbitrary: res) (auto simp: take_Cons' Suc_diff_Suc)

lemma readdir_loop_skip:
  "i \<notin> entry_no ` set pre \<Longrightarrow> entry_no e = i \<Longrightarrow>
    readdir_loop V i mx True skipped res (pre @ e # post) = readdir_loop V i mx False (skipped + length pre + 1) res post"
  by (induction pre arbitrary: skipped) auto

text \<open>The cookie after the first \<open>k\<close> entries.\<close>

definition cookie_at :: "dir_entry list \<Rightarrow> nat \<Rightarrow> u64" where
  "cookie_at es k = (if k = 0 then 0 else entry_no (es ! (k - 1)))"

lemma readdir_loop_page:
  assumes "distinct (map entry_no es)" and "\<forall>e \<in> set es. 0 < entry_no e" and "k \<le> length es"
  shows "readdir_loop V (cookie_at es k) mx (cookie_at es k > 0) 0 [] es = (map (nfs_entry_of V) (take mx (drop k es)), k)"
proof (cases k)
  case 0
  then show ?thesis by (simp add: cookie_at_def readdir_loop_take)
next
  case (Suc j)
  then have j: "j < length es" using assms(3) by simp
  have split: "es = take j es @ es ! j # drop k es" using j Suc by (metis id_take_nth_drop)
  have "entry_no (es ! j) \<notin> entry_no ` set (take j es)"
    using assms(1) split by (metis (no_types, lifting) distinct_append list.map(2) list.set_intros(1) list.set_map map_append disjoint_iff)
  moreover have "cookie_at es k = entry_no (es ! j)" "0 < cookie_at es k" using Suc assms(2) j by (auto simp: cookie_at_def)
  ultimately have "readdir_loop V (cookie_at es k) mx True 0 [] (take j es @ es ! j # drop k es) =
      (map (nfs_entry_of V) (take mx (drop k es)), k)"
    using Suc j by (subst readdir_loop_skip) (auto simp: readdir_loop_take)
  then show ?thesis using split \<open>0 < cookie_at es k\<close> by simp
qed

lemma write_entries_prefix:
  "\<exists>j \<le> length xs. fst (write_entries sz mb md w d xs) = take j xs \<and> snd (write_entries sz mb md w d xs) = (j = length xs)"
proof (induction sz mb md w d xs rule: write_entries.induct)
  case (2 sz mb md w d i name x es)
  let ?fits = "sz name + w < mb \<and> (\<forall>m \<in> set_option md. 8 + 4 + length name + 8 + d < m)"
  show ?case
  proof (cases ?fits)
    case True
    have "\<exists>j \<le> length es. fst (write_entries sz mb md (w + sz name) (d + (8 + 4 + length name + 8)) es) = take j es \<and>
        snd (write_entries sz mb md (w + sz name) (d + (8 + 4 + length name + 8)) es) = (j = length es)"
      using 2 [OF refl True] by (simp add: add_ac)
    then obtain j where "j \<le> length es" "fst (write_entries sz mb md (w + sz name) (d + (8 + 4 + length name + 8)) es) = take j es"
        "snd (write_entries sz mb md (w + sz name) (d + (8 + 4 + length name + 8)) es) = (j = length es)"
      by blast
    then show ?thesis using True by (intro exI [of _ "Suc j"]) (simp add: Let_def split_beta)
  next
    case False
    then show ?thesis by (intro exI [of _ 0]) (auto simp: Let_def)
  qed
qed simp

lemma write_entries_Cons:
  "sz name + w < mb \<Longrightarrow> \<forall>m \<in> set_option md. 8 + 4 + length name + 8 + d < m \<Longrightarrow>
    fst (write_entries sz mb md w d ((i, name, x) # es)) \<noteq> []"
  by (simp add: Let_def split_beta)

section \<open>The whole directory\<close>

text \<open>
  A client that reads a directory with \<open>READDIRPLUS\<close>: it goes on from the cookie of the last
  entry until the server says that the directory has ended.
\<close>

fun plus_pages ::
  "('s, 'f) rpc_context \<Rightarrow> nfs_fh3 \<Rightarrow> u32 \<Rightarrow> u32 \<Rightarrow> nat \<Rightarrow> u64 \<Rightarrow> 's \<Rightarrow> (u64 \<times> string) list option" where
  "plus_pages C dir dircount maxcount 0 cookie s = None"
| "plus_pages C dir dircount maxcount (Suc n) cookie s =
    (case nfsproc3_readdirplus C dir cookie dircount maxcount s of
       ([Msg st (ReaddirplusOk a out end)], s') \<Rightarrow>
         if end then Some (map (\<lambda>(i, name, _). (i, name)) out)
         else if out = [] then None
         else map_option ((@) (map (\<lambda>(i, name, _). (i, name)) out))
                (plus_pages C dir dircount maxcount n (fst (snd (snd (last out)))) s')
     | _ \<Rightarrow> None)"

lemma readdirplus_page:
  assumes dir: "fh_to_id (cx_gen C) dir = Inr d"
    and attr: "fs_getattr (cx_fs C) (as_i64 d) s = (Inr (Some st), s)" "can_read (cx_auth C) (stats_to_fattr (cx_dev C) st)"
    and es: "fs_readdir_plus (cx_fs C) (as_i64 d) s = (Inr (Some es), s)"
    and numbers: "distinct (map entry_no es)" "\<forall>e \<in> set es. 0 < entry_no e"
    and fits: "\<forall>e \<in> set es. 260 + pad4 (de_name e) < less_128 maxcount \<and> 20 + length (de_name e) < unat dircount"
    and k: "k \<le> length es"
  obtains j a out where
    "nfsproc3_readdirplus C dir (cookie_at es k) dircount maxcount s = ([Msg NFS3_OK (ReaddirplusOk a out (k + j = length es))], s)"
    and "map (\<lambda>(i, name, _). (i, name)) out = map (\<lambda>e. (entry_no e, de_name e)) (take j (drop k es))"
    and "k + j \<le> length es" and "k < length es \<longrightarrow> 0 < j"
    and "0 < j \<longrightarrow> fst (snd (snd (last out))) = cookie_at es (k + j)"
proof -
  let ?mx = "unat dircount div 16"
  let ?f = "\<lambda>e. (ne_fileid e, ne_name e, ne_fileid e, ne_attr e, id_to_fh (cx_gen C) (ne_fileid e))"
  let ?xs = "map ?f (map (nfs_entry_of (cx_dev C)) (take ?mx (drop k es)))"
  let ?w = "write_entries entryplus3_size (less_128 maxcount) (Some (unat dircount)) DIR_HEADER 0 ?xs"
  obtain j where j: "j \<le> length ?xs" "fst ?w = take j ?xs" "snd ?w = (j = length ?xs)"
    using write_entries_prefix by blast
  have out: "take j ?xs = map (\<lambda>e. ?f (nfs_entry_of (cx_dev C) e)) (take j (drop k es))"
    using j(1) by (simp add: take_map min_absorb1 comp_def)
  show thesis
  proof
    show "nfsproc3_readdirplus C dir (cookie_at es k) dircount maxcount s =
        ([Msg NFS3_OK (ReaddirplusOk (Some (stats_to_fattr (cx_dev C) st)) (take j ?xs) (k + j = length es))], s)"
    proof -
      have "nfs_readdir (cx_fs C) (cx_dev C) d (cookie_at es k) ?mx s =
          (Inr (map (nfs_entry_of (cx_dev C)) (take ?mx (drop k es)), length ?xs + k \<ge> length es), s)"
        using es readdir_loop_page [OF numbers k]
        by (simp add: nfs_readdir_def ask_as_def or_noent_def nret_def id_to_fs_ino_def)
      moreover have "?w = (take j ?xs, j = length ?xs)" by (simp only: prod_eq_iff fst_conv snd_conv j(2,3))
      moreover have "(j = length ?xs \<and> length ?xs + k \<ge> length es) = (k + j = length es)" using j(1) k by auto
      ultimately show ?thesis
        using dir attr
        by (simp add: nfsproc3_readdirplus_def with_id_def getattr_or_def on_vfs_def nfs_getattr_def ask_as_def or_noent_def
            nret_def id_to_fs_ino_def reply_with_def del: write_entries.simps)
    qed
    show "map (\<lambda>(i, name, _). (i, name)) (take j ?xs) = map (\<lambda>e. (entry_no e, de_name e)) (take j (drop k es))"
      unfolding out by (simp add: nfs_entry_of_def)
    show "k + j \<le> length es" using j(1) k by auto
    show "k < length es \<longrightarrow> 0 < j"
    proof
      assume that: "k < length es"
      then have "es ! k \<in> set es" using that by simp
      then have "20 + length (de_name (es ! k)) < unat dircount" "260 + pad4 (de_name (es ! k)) < less_128 maxcount"
        using fits by auto
      then have "0 < ?mx" by (simp add: div_greater_zero_iff)
      then obtain m where m: "?mx = Suc m" using gr0_implies_Suc by blast
      have "?xs = ?f (nfs_entry_of (cx_dev C) (es ! k)) # map ?f (map (nfs_entry_of (cx_dev C)) (take m (drop (Suc k) es)))"
        using that by (simp add: m Cons_nth_drop_Suc [symmetric])
      then have "fst ?w \<noteq> []"
        using write_entries_Cons [of entryplus3_size "de_name (es ! k)" DIR_HEADER "less_128 maxcount" "Some (unat dircount)" 0]
          \<open>20 + _ < _\<close> \<open>260 + _ < _\<close>
        by (simp add: nfs_entry_of_def entryplus3_size_def DIR_HEADER_def del: write_entries.simps)
      then show "0 < j" using j(2) by auto
    qed
    show "0 < j \<longrightarrow> fst (snd (snd (last (take j ?xs)))) = cookie_at es (k + j)"
    proof
      assume "0 < j"
      moreover have "length (take j (drop k es)) = j" "k + (j - 1) < length es" using j(1) \<open>0 < j\<close> by auto
      ultimately have "last (take j (drop k es)) = es ! (k + j - 1)"
        by (subst last_conv_nth) auto
      then show "fst (snd (snd (last (take j ?xs)))) = cookie_at es (k + j)"
        unfolding out using \<open>0 < j\<close> \<open>length (take j (drop k es)) = j\<close>
        by (subst last_map) (auto simp: cookie_at_def nfs_entry_of_def)
    qed
  qed
qed

lemma plus_pages_from:
  assumes dir: "fh_to_id (cx_gen C) dir = Inr d"
    and attr: "fs_getattr (cx_fs C) (as_i64 d) s = (Inr (Some st), s)" "can_read (cx_auth C) (stats_to_fattr (cx_dev C) st)"
    and es: "fs_readdir_plus (cx_fs C) (as_i64 d) s = (Inr (Some es), s)"
    and numbers: "distinct (map entry_no es)" "\<forall>e \<in> set es. 0 < entry_no e"
    and fits: "\<forall>e \<in> set es. 260 + pad4 (de_name e) < less_128 maxcount \<and> 20 + length (de_name e) < unat dircount"
    and k: "k \<le> length es" and n: "length es - k < n"
  shows "plus_pages C dir dircount maxcount n (cookie_at es k) s = Some (map (\<lambda>e. (entry_no e, de_name e)) (drop k es))"
  using k n
proof (induction n arbitrary: k)
  case (Suc n)
  obtain j a out where page:
    "nfsproc3_readdirplus C dir (cookie_at es k) dircount maxcount s = ([Msg NFS3_OK (ReaddirplusOk a out (k + j = length es))], s)"
    "map (\<lambda>(i, name, _). (i, name)) out = map (\<lambda>e. (entry_no e, de_name e)) (take j (drop k es))"
    "k + j \<le> length es" "k < length es \<longrightarrow> 0 < j" "0 < j \<longrightarrow> fst (snd (snd (last out))) = cookie_at es (k + j)"
    by (rule readdirplus_page [OF dir attr es numbers fits Suc.prems(1)]) (rule that)
  show ?case
  proof (cases "k + j = length es")
    case True
    then show ?thesis using page(1,2) by simp
  next
    case False
    then have j: "0 < j" using page(3,4) by auto
    then have "out \<noteq> []" using page(2) page(3) by (auto dest: arg_cong [of _ _ length])
    moreover have "plus_pages C dir dircount maxcount n (cookie_at es (k + j)) s = Some (map (\<lambda>e. (entry_no e, de_name e)) (drop (k + j) es))"
      using j page(3) Suc.prems by (intro Suc.IH) auto
    moreover have "drop k es = take j (drop k es) @ drop (k + j) es"
      by (metis append_take_drop_id drop_drop add.commute)
    ultimately show ?thesis
      using False page(1,2) page(5) j by (simp flip: map_append)
  qed
qed simp

text \<open>
  C25.  A directory without two links to one file is listed completely through \<open>READDIRPLUS\<close>: when the caller may read
  it, every entry fits a reply on its own and nobody changes it meanwhile, the client that goes on from the last
  cookie gets every entry exactly once and in order, after at most one more call than there are entries.
\<close>

theorem readdirplus_complete:
  assumes "fh_to_id (cx_gen C) dir = Inr d"
    and "fs_getattr (cx_fs C) (as_i64 d) s = (Inr (Some st), s)" and "can_read (cx_auth C) (stats_to_fattr (cx_dev C) st)"
    and "fs_readdir_plus (cx_fs C) (as_i64 d) s = (Inr (Some es), s)"
    and "distinct (map (\<lambda>e. st_ino (de_stats e)) es)" and "\<forall>e \<in> set es. 0 < st_ino (de_stats e) \<and> st_ino (de_stats e) < 2 ^ 63"
    and "\<forall>e \<in> set es. 260 + pad4 (de_name e) < less_128 maxcount \<and> 20 + length (de_name e) < unat dircount"
  shows "plus_pages C dir dircount maxcount (length es + 1) 0 s =
    Some (map (\<lambda>e. (as_u64 (st_ino (de_stats e)), de_name e)) es)"
proof -
  have inj: "inj_on as_u64 {i. 0 < i \<and> i < 2 ^ 63}" by (auto simp: inj_on_def)
  have "distinct (map as_u64 (map (\<lambda>e. st_ino (de_stats e)) es))"
    using assms(5,6) inj by (subst distinct_map) (auto intro: inj_on_subset)
  then have "distinct (map entry_no es)" by (simp add: comp_def)
  moreover have "\<forall>e \<in> set es. 0 < entry_no e" using assms(6) by auto
  ultimately show ?thesis
    using plus_pages_from [OF assms(1-4) _ _ assms(7), of 0 "length es + 1"] by (simp add: cookie_at_def)
qed

lemma st_ino_sample [simp]: "st_ino (build_stats_from_row r) = i_ino r"
  by (simp add: build_stats_from_row_def)

theorem readdirplus_complete_witness:
  "plus_pages sample_context (id_to_fh 5 1) 48 700 4 0 sample_fs = Some [(2, ''a''), (3, ''d''), (4, ''l'')]"
proof -
  let ?e = "\<lambda>n i. \<lparr>de_name = n, de_stats = build_stats_from_row (the (ino_map sample_tables i))\<rparr>"
  let ?es = "[?e ''a'' 2, ?e ''d'' 3, ?e ''l'' 4]"
  let ?st = "build_stats_from_row (sample_inode 1 0x41ED 3 0)"
  have "fs_readdir_plus (cx_fs sample_context) 1 sample_fs = (Inr (Some ?es), sample_fs)"
    by (simp add: secafs_fs_def readdir_plus_def run sample_fs_sel(3) select_mode_def sample_tables_def sample_inode_def
        ino_map_def mode_defs u32_of_i64_def)
  moreover have "fs_getattr (cx_fs sample_context) 1 sample_fs = (Inr (Some ?st), sample_fs)"
    by (simp add: secafs_fs_def getattr_def run sample_fs_sel(3) getattr_with_conn_def sample_tables_def sample_inode_def)
  moreover have "can_read (cx_auth sample_context) (stats_to_fattr (cx_dev sample_context) ?st)"
    by (simp add: can_read_def check_permission_def)
  moreover have "fh_to_id (cx_gen sample_context) (id_to_fh 5 1) = Inr 1" by (simp add: fh_back)
  ultimately have pages: "plus_pages sample_context (id_to_fh 5 1) 48 700 (length ?es + 1) 0 sample_fs =
      Some (map (\<lambda>e. (as_u64 (st_ino (de_stats e)), de_name e)) ?es)"
    by (intro readdirplus_complete [where st = ?st and d = 1]) (simp_all add: sample_ino_map pad4_def less_128_def)
  have "length ?es + 1 = 4" by simp
  then have "plus_pages sample_context (id_to_fh 5 1) 48 700 4 0 sample_fs = Some (map (\<lambda>e. (as_u64 (st_ino (de_stats e)), de_name e)) ?es)"
    using pages by (simp only:)
  then show ?thesis by (simp add: sample_ino_map del: plus_pages.simps)
qed

text \<open>
  With two links to one file in a directory the cookie does not say where to go on: in a directory of three entries whose
  first two have one number, the page after the second entry is the page after the first, so that a client whose
  replies hold one entry never gets to the third.
\<close>

lemma hard_link_stalls_listing:
  assumes "entry_no e1 = i" and "entry_no e2 = i" and "0 < i"
  shows "readdir_loop V (cookie_at [e1, e2, e3] 2) 1 True 0 [] [e1, e2, e3] = ([nfs_entry_of V e2], 1) \<and>
    cookie_at [e1, e2, e3] 1 = cookie_at [e1, e2, e3] 2"
  using assms by (simp add: cookie_at_def)

end
