(* ===== verification/Xdr.thy ===== *)
theory Xdr
  imports Nfs_Theorems
begin

text \<open>
  The external data representation (\<open>nfsserve/xdr.rs\<close>) and the coding of the protocol types of
  \<open>nfsserve/nfs.rs\<close>.  The locale \<open>xdr_codec\<close> is the contract of the trait \<open>XDR\<close>: what \<open>serialize\<close> writes,
  \<open>deserialize\<close> reads back, whatever follows, and it takes a multiple of four bytes.  Every type
  of the protocol interprets it.
\<close>

named_theorems coding

section \<open>Readers\<close>

text \<open>A reader consumes a prefix of its input; the errors are those of \<open>std::io\<close>.\<close>

datatype io_error = UnexpectedEof | InvalidData

type_synonym 'a reader = "bytes \<Rightarrow> io_error + 'a \<times> bytes"

definition rret :: "'a \<Rightarrow> 'a reader" where
  "rret x bs = Inr (x, bs)"

definition rfail :: "'a reader" where
  "rfail bs = Inl InvalidData"

definition rbnd :: "'a reader \<Rightarrow> ('a \<Rightarrow> 'b reader) \<Rightarrow> 'b reader" where
  "rbnd m k bs = (case m bs of Inl e \<Rightarrow> Inl e | Inr (x, rest) \<Rightarrow> k x rest)"

definition read_exact :: "nat \<Rightarrow> bytes reader" where
  "read_exact n bs = (if n \<le> length bs then Inr (take n bs, drop n bs) else Inl UnexpectedEof)"

section \<open>Basic types\<close>

definition to_be_bytes :: "nat \<Rightarrow> u64 \<Rightarrow> bytes" where
  "to_be_bytes k n = rev (to_le_bytes k n)"

definition from_be_bytes :: "bytes \<Rightarrow> u64" where
  "from_be_bytes bs = from_le_bytes (rev bs)"

definition ser_u32 :: "u32 \<Rightarrow> bytes" where
  "ser_u32 w = to_be_bytes 4 (unat w)"

definition de_u32 :: "u32 reader" where
  "de_u32 = rbnd (read_exact 4) (\<lambda>bs. rret (of_nat (from_be_bytes bs)))"

definition ser_u64 :: "u64 \<Rightarrow> bytes" where
  "ser_u64 n = to_be_bytes 8 n"

definition de_u64 :: "u64 reader" where
  "de_u64 = rbnd (read_exact 8) (\<lambda>bs. rret (from_be_bytes bs))"

definition ser_bool :: "bool \<Rightarrow> bytes" where
  "ser_bool b = ser_u32 (if b then 1 else 0)"

definition de_bool :: "bool reader" where
  "de_bool = rbnd de_u32 (\<lambda>val. rret (val > 0))"

definition xdr_pad :: "nat \<Rightarrow> nat" where
  "xdr_pad n = (4 - n mod 4) mod 4"

definition ser_bytes :: "bytes \<Rightarrow> bytes" where
  "ser_bytes bs = ser_u32 (of_nat (length bs)) @ bs @ replicate (xdr_pad (length bs)) 0"

definition de_bytes :: "bytes reader" where
  "de_bytes = rbnd de_u32 (\<lambda>n. rbnd (read_exact (unat n)) (\<lambda>bs. rbnd (read_exact (xdr_pad (unat n))) (\<lambda>_. rret bs)))"

definition bytes_of :: "string \<Rightarrow> bytes" where
  "bytes_of s = map (\<lambda>c. of_char c) s"

definition text_of :: "bytes \<Rightarrow> string" where
  "text_of bs = map (\<lambda>b. char_of (unat b)) bs"

definition ser_nfsstring :: "string \<Rightarrow> bytes" where
  "ser_nfsstring s = ser_bytes (bytes_of s)"

definition de_nfsstring :: "string reader" where
  "de_nfsstring = rbnd de_bytes (\<lambda>bs. rret (text_of bs))"

definition ser_u32s :: "u32 list \<Rightarrow> bytes" where
  "ser_u32s ws = ser_u32 (of_nat (length ws)) @ concat (map ser_u32 ws)"

fun de_times :: "nat \<Rightarrow> u32 list reader" where
  "de_times 0 = rret []"
| "de_times (Suc n) = rbnd de_u32 (\<lambda>w. rbnd (de_times n) (\<lambda>ws. rret (w # ws)))"

definition de_u32s :: "u32 list reader" where
  "de_u32s = rbnd de_u32 (\<lambda>n. de_times (unat n))"

text \<open>\<open>serialize\<close> asserts that the length of a vector is below \<open>u32::MAX\<close>.\<close>

definition fits :: "'a list \<Rightarrow> bool" where
  "fits xs \<longleftrightarrow> length xs < 2 ^ 32 - 1"

text \<open>The macros \<open>XDREnumSerde\<close>, over the variants of an enumeration, and \<open>XDRBoolUnion\<close>.\<close>

definition ser_enum :: "('a \<Rightarrow> u32) \<Rightarrow> 'a \<Rightarrow> bytes" where
  "ser_enum code x = ser_u32 (code x)"

definition from_u32 :: "('a \<Rightarrow> u32) \<Rightarrow> 'a list \<Rightarrow> u32 \<Rightarrow> 'a option" where
  "from_u32 code variants r = find (\<lambda>x. code x = r) variants"

definition de_enum :: "('a \<Rightarrow> u32) \<Rightarrow> 'a list \<Rightarrow> 'a reader" where
  "de_enum code variants = rbnd de_u32 (\<lambda>r. case from_u32 code variants r of Some p \<Rightarrow> rret p | None \<Rightarrow> rfail)"

definition ser_union :: "('a \<Rightarrow> bytes) \<Rightarrow> 'a option \<Rightarrow> bytes" where
  "ser_union ser x = (case x of None \<Rightarrow> ser_bool False | Some v \<Rightarrow> ser_bool True @ ser v)"

definition de_union :: "'a reader \<Rightarrow> 'a option reader" where
  "de_union de = rbnd de_bool (\<lambda>c. if c then rbnd de (\<lambda>r. rret (Some r)) else rret None)"

section \<open>The contract\<close>

locale xdr_codec =
  fixes ser :: "'a \<Rightarrow> bytes" and de :: "'a reader" and ok :: "'a \<Rightarrow> bool"
  assumes de_ser: "ok x \<Longrightarrow> de (ser x @ rest) = Inr (x, rest)"
    and aligned: "ok x \<Longrightarrow> 4 dvd length (ser x)"
begin

lemma de_then: "ok x \<Longrightarrow> rbnd de k (ser x @ rest) = k x rest"
  by (simp add: rbnd_def de_ser)

lemma unambiguous:
  assumes "ok x" "ok y" "ser x @ r = ser y @ r'" shows "x = y \<and> r = r'"
proof -
  have "Inr (x, r) = (Inr (y, r') :: io_error + 'a \<times> bytes)"
    using de_ser [OF assms(1), of r] de_ser [OF assms(2), of r'] unfolding assms(3) by (rule trans [OF sym])
  then show ?thesis by simp
qed

end

lemma rbnd_assoc [coding]: "rbnd (rbnd m k) k' = rbnd m (\<lambda>x. rbnd (k x) k')"
  by (auto simp: rbnd_def fun_eq_iff split: sum.splits)

lemma rbnd_rret [coding]: "rbnd (rret x) k = k x"
  by (simp add: rbnd_def rret_def fun_eq_iff)

lemma rbnd_exact: "n = length bs \<Longrightarrow> rbnd (read_exact n) k (bs @ rest) = k bs rest"
  by (simp add: rbnd_def read_exact_def)

lemma from_to_be_bytes: "from_be_bytes (to_be_bytes k n) = n mod 256 ^ k"
  by (simp add: from_be_bytes_def to_be_bytes_def from_to_le_bytes)

lemma length_to_be_bytes [simp]: "length (to_be_bytes k n) = k"
  by (simp add: to_be_bytes_def)

interpretation xdr_u32: xdr_codec ser_u32 de_u32 "\<lambda>_. True"
proof
  fix x :: u32 and rest
  have "unat x mod 256 ^ 4 = unat x" using unsigned_less [of x, where ?'a = nat] by simp
  then show "de_u32 (ser_u32 x @ rest) = Inr (x, rest)"
    by (simp add: de_u32_def ser_u32_def rbnd_exact from_to_be_bytes rret_def)
qed (simp add: ser_u32_def)

declare xdr_u32.de_then [coding]

lemma length_ser_u32 [simp]: "length (ser_u32 w) = 4"
  by (simp add: ser_u32_def)

interpretation xdr_u64: xdr_codec ser_u64 de_u64 "\<lambda>n. n < 2 ^ 64"
  by unfold_locales (simp_all add: de_u64_def ser_u64_def rbnd_exact from_to_be_bytes rret_def)

declare xdr_u64.de_then [coding]

lemma length_ser_u64 [simp]: "length (ser_u64 n) = 8"
  by (simp add: ser_u64_def)

interpretation xdr_bool: xdr_codec ser_bool de_bool "\<lambda>_. True"
  by unfold_locales (simp_all add: de_bool_def ser_bool_def coding rret_def)

declare xdr_bool.de_then [coding]

lemma length_ser_bool [simp]: "length (ser_bool b) = 4"
  by (simp add: ser_bool_def)

lemma fits_unat: "fits xs \<Longrightarrow> unat (of_nat (length xs) :: u32) = length xs"
  by (simp add: fits_def unat_of_nat)

lemma xdr_pad_eq: "n + xdr_pad n = (n + 3) div 4 * 4"
proof -
  obtain q r where n: "n = 4 * q + r" "r < 4" using mod_less_divisor [of 4 n] div_mult_mod_eq [of n 4] by (metis mult.commute zero_less_numeral)
  then have pad: "xdr_pad n = (4 - r) mod 4" by (simp add: xdr_pad_def)
  from n(2) consider "r = 0" | "r = 1" | "r = 2" | "r = 3" by linarith
  then show ?thesis unfolding pad unfolding n(1) by cases simp_all
qed

interpretation xdr_bytes: xdr_codec ser_bytes de_bytes fits
proof
  fix bs rest assume ok: "fits (bs :: bytes)"
  then show "de_bytes (ser_bytes bs @ rest) = Inr (bs, rest)"
    by (simp add: de_bytes_def ser_bytes_def coding fits_unat rbnd_exact rret_def)
  show "4 dvd length (ser_bytes bs)" by (simp add: ser_bytes_def xdr_pad_eq)
qed

declare xdr_bytes.de_then [coding]

lemma text_of_bytes_of [simp]: "text_of (bytes_of s) = s"
proof -
  have "unat (of_char c :: byte) = of_char c" for c
  proof -
    have "unat (of_nat (of_char c) :: byte) = of_char c" by (simp add: unat_of_nat)
    then show ?thesis by (simp only: of_nat_of_char)
  qed
  then show ?thesis by (simp add: text_of_def bytes_of_def map_idI)
qed

lemma fits_bytes_of [simp]: "fits (bytes_of s) = fits s"
  by (simp add: fits_def bytes_of_def)

interpretation xdr_nfsstring: xdr_codec ser_nfsstring de_nfsstring fits
  by unfold_locales (simp_all add: de_nfsstring_def ser_nfsstring_def coding rret_def xdr_bytes.aligned)

declare xdr_nfsstring.de_then [coding]

text \<open>The size of a coded string, as the directory procedures count it.\<close>

lemma length_ser_nfsstring: "length (ser_nfsstring s) = 4 + pad4 s"
  by (simp add: ser_nfsstring_def ser_bytes_def pad4_def bytes_of_def xdr_pad_eq)

lemma de_times_ser: "de_times (length ws) (concat (map ser_u32 ws) @ rest) = Inr (ws, rest)"
  by (induction ws) (simp_all add: rret_def coding, simp add: rbnd_def rret_def)

interpretation xdr_u32s: xdr_codec ser_u32s de_u32s fits
proof
  fix ws rest assume ok: "fits (ws :: u32 list)"
  then show "de_u32s (ser_u32s ws @ rest) = Inr (ws, rest)"
    by (simp add: de_u32s_def ser_u32s_def coding fits_unat de_times_ser)
  have "length (concat (map ser_u32 ws)) = 4 * length ws" by (induction ws) simp_all
  then show "4 dvd length (ser_u32s ws)" by (simp add: ser_u32s_def)
qed

declare xdr_u32s.de_then [coding]

text \<open>An enumeration is read back when its numbers are distinct and its variants are all there.\<close>

lemma from_u32_code: "inj code \<Longrightarrow> x \<in> set variants \<Longrightarrow> from_u32 code variants (code x) = Some x"
  unfolding from_u32_def by (induction variants) (auto dest: injD)

lemma xdr_enum:
  assumes "\<And>x. x \<in> set variants" "distinct (map code variants)"
  shows "xdr_codec (ser_enum code) (de_enum code variants) (\<lambda>_. True)"
proof
  have "inj code" using assms by (auto simp: distinct_map intro: inj_onI dest: inj_onD)
  then show "de_enum code variants (ser_enum code x @ rest) = Inr (x, rest)" for x rest
    by (simp add: de_enum_def ser_enum_def coding from_u32_code assms(1) rret_def)
qed (simp add: ser_enum_def)

lemma xdr_union:
  assumes "xdr_codec ser de ok" shows "xdr_codec (ser_union ser) (de_union de) (pred_option ok)"
proof
  fix x rest assume "pred_option ok x"
  then show "de_union de (ser_union ser x @ rest) = Inr (x, rest)" "4 dvd length (ser_union ser x)"
    by (cases x; simp add: de_union_def ser_union_def coding rret_def xdr_codec.de_then [OF assms] xdr_codec.aligned [OF assms])+
qed

section \<open>The types of the protocol\<close>

definition nfsstat3_code :: "nfsstat3 \<Rightarrow> u32" where
  "nfsstat3_code st =
    (case st of
       NFS3_OK \<Rightarrow> 0 | NFS3ERR_PERM \<Rightarrow> 1 | NFS3ERR_NOENT \<Rightarrow> 2 | NFS3ERR_IO \<Rightarrow> 5 | NFS3ERR_NXIO \<Rightarrow> 6 | NFS3ERR_ACCES \<Rightarrow> 13
     | NFS3ERR_EXIST \<Rightarrow> 17 | NFS3ERR_XDEV \<Rightarrow> 18 | NFS3ERR_NODEV \<Rightarrow> 19 | NFS3ERR_NOTDIR \<Rightarrow> 20 | NFS3ERR_ISDIR \<Rightarrow> 21
     | NFS3ERR_INVAL \<Rightarrow> 22 | NFS3ERR_FBIG \<Rightarrow> 27 | NFS3ERR_NOSPC \<Rightarrow> 28 | NFS3ERR_ROFS \<Rightarrow> 30 | NFS3ERR_MLINK \<Rightarrow> 31
     | NFS3ERR_NAMETOOLONG \<Rightarrow> 63 | NFS3ERR_NOTEMPTY \<Rightarrow> 66 | NFS3ERR_DQUOT \<Rightarrow> 69 | NFS3ERR_STALE \<Rightarrow> 70 | NFS3ERR_REMOTE \<Rightarrow> 71
     | NFS3ERR_BADHANDLE \<Rightarrow> 10001 | NFS3ERR_NOT_SYNC \<Rightarrow> 10002 | NFS3ERR_BAD_COOKIE \<Rightarrow> 10003 | NFS3ERR_NOTSUPP \<Rightarrow> 10004
     | NFS3ERR_TOOSMALL \<Rightarrow> 10005 | NFS3ERR_SERVERFAULT \<Rightarrow> 10006 | NFS3ERR_BADTYPE \<Rightarrow> 10007 | NFS3ERR_JUKEBOX \<Rightarrow> 10008)"

definition nfsstat3_variants :: "nfsstat3 list" where
  "nfsstat3_variants =
    [NFS3_OK, NFS3ERR_PERM, NFS3ERR_NOENT, NFS3ERR_IO, NFS3ERR_NXIO, NFS3ERR_ACCES, NFS3ERR_EXIST, NFS3ERR_XDEV, NFS3ERR_NODEV,
     NFS3ERR_NOTDIR, NFS3ERR_ISDIR, NFS3ERR_INVAL, NFS3ERR_FBIG, NFS3ERR_NOSPC, NFS3ERR_ROFS, NFS3ERR_MLINK, NFS3ERR_NAMETOOLONG,
     NFS3ERR_NOTEMPTY, NFS3ERR_DQUOT, NFS3ERR_STALE, NFS3ERR_REMOTE, NFS3ERR_BADHANDLE, NFS3ERR_NOT_SYNC, NFS3ERR_BAD_COOKIE,
     NFS3ERR_NOTSUPP, NFS3ERR_TOOSMALL, NFS3ERR_SERVERFAULT, NFS3ERR_BADTYPE, NFS3ERR_JUKEBOX]"

abbreviation ser_nfsstat3 :: "nfsstat3 \<Rightarrow> bytes" where "ser_nfsstat3 \<equiv> ser_enum nfsstat3_code"
abbreviation de_nfsstat3 :: "nfsstat3 reader" where "de_nfsstat3 \<equiv> de_enum nfsstat3_code nfsstat3_variants"

definition ftype3_code :: "ftype3 \<Rightarrow> u32" where
  "ftype3_code t =
    (case t of NF3REG \<Rightarrow> 1 | NF3DIR \<Rightarrow> 2 | NF3BLK \<Rightarrow> 3 | NF3CHR \<Rightarrow> 4 | NF3LNK \<Rightarrow> 5 | NF3SOCK \<Rightarrow> 6 | NF3FIFO \<Rightarrow> 7)"

definition ftype3_variants :: "ftype3 list" where
  "ftype3_variants = [NF3REG, NF3DIR, NF3BLK, NF3CHR, NF3LNK, NF3SOCK, NF3FIFO]"

abbreviation ser_ftype3 :: "ftype3 \<Rightarrow> bytes" where "ser_ftype3 \<equiv> ser_enum ftype3_code"
abbreviation de_ftype3 :: "ftype3 reader" where "de_ftype3 \<equiv> de_enum ftype3_code ftype3_variants"

definition ser_nfstime3 :: "nfstime3 \<Rightarrow> bytes" where
  "ser_nfstime3 t = ser_u32 (fst t) @ ser_u32 (snd t)"

definition de_nfstime3 :: "nfstime3 reader" where
  "de_nfstime3 = rbnd de_u32 (\<lambda>seconds. rbnd de_u32 (\<lambda>nseconds. rret (seconds, nseconds)))"

definition ser_specdata3 :: "specdata3 \<Rightarrow> bytes" where
  "ser_specdata3 d = ser_u32 (fst d) @ ser_u32 (snd d)"

definition de_specdata3 :: "specdata3 reader" where
  "de_specdata3 = rbnd de_u32 (\<lambda>specdata1. rbnd de_u32 (\<lambda>specdata2. rret (specdata1, specdata2)))"

definition ser_fattr3 :: "fattr3 \<Rightarrow> bytes" where
  "ser_fattr3 a =
    ser_ftype3 (fa_ftype a) @ ser_u32 (fa_mode a) @ ser_u32 (fa_nlink a) @ ser_u32 (fa_uid a) @ ser_u32 (fa_gid a) @
    ser_u64 (fa_size a) @ ser_u64 (fa_used a) @ ser_specdata3 (fa_rdev a) @ ser_u64 (fa_fsid a) @ ser_u64 (fa_fileid a) @
    ser_nfstime3 (fa_atime a) @ ser_nfstime3 (fa_mtime a) @ ser_nfstime3 (fa_ctime a)"

definition de_fattr3 :: "fattr3 reader" where
  "de_fattr3 =
    rbnd de_ftype3 (\<lambda>ftype. rbnd de_u32 (\<lambda>mode. rbnd de_u32 (\<lambda>nlink. rbnd de_u32 (\<lambda>uid. rbnd de_u32 (\<lambda>gid.
    rbnd de_u64 (\<lambda>size. rbnd de_u64 (\<lambda>used. rbnd de_specdata3 (\<lambda>rdev. rbnd de_u64 (\<lambda>fsid. rbnd de_u64 (\<lambda>fileid.
    rbnd de_nfstime3 (\<lambda>atime. rbnd de_nfstime3 (\<lambda>mtime. rbnd de_nfstime3 (\<lambda>ctime.
      rret \<lparr>fa_ftype = ftype, fa_mode = mode, fa_nlink = nlink, fa_uid = uid, fa_gid = gid, fa_size = size, fa_used = used,
            fa_rdev = rdev, fa_fsid = fsid, fa_fileid = fileid, fa_atime = atime, fa_mtime = mtime, fa_ctime = ctime\<rparr>)))))))))))))"

definition ok_fattr3 :: "fattr3 \<Rightarrow> bool" where
  "ok_fattr3 a \<longleftrightarrow> fa_size a < 2 ^ 64 \<and> fa_used a < 2 ^ 64 \<and> fa_fsid a < 2 ^ 64 \<and> fa_fileid a < 2 ^ 64"

abbreviation ser_post_op_attr :: "fattr3 option \<Rightarrow> bytes" where "ser_post_op_attr \<equiv> ser_union ser_fattr3"
abbreviation ser_post_op_fh3 :: "nfs_fh3 option \<Rightarrow> bytes" where "ser_post_op_fh3 \<equiv> ser_union ser_bytes"

definition ser_wcc_attr :: "wcc_attr \<Rightarrow> bytes" where
  "ser_wcc_attr a = (case a of (sz, mtime, ctime) \<Rightarrow> ser_u64 sz @ ser_nfstime3 mtime @ ser_nfstime3 ctime)"

definition de_wcc_attr :: "wcc_attr reader" where
  "de_wcc_attr = rbnd de_u64 (\<lambda>size. rbnd de_nfstime3 (\<lambda>mtime. rbnd de_nfstime3 (\<lambda>ctime. rret (size, mtime, ctime))))"

definition ser_wcc_data :: "wcc_data \<Rightarrow> bytes" where
  "ser_wcc_data w = ser_union ser_wcc_attr (fst w) @ ser_post_op_attr (snd w)"

definition de_wcc_data :: "wcc_data reader" where
  "de_wcc_data = rbnd (de_union de_wcc_attr) (\<lambda>before. rbnd (de_union de_fattr3) (\<lambda>after. rret (before, after)))"

definition ser_set_time :: "set_time3 \<Rightarrow> bytes" where
  "ser_set_time t =
    (case t of DONT_CHANGE \<Rightarrow> ser_u32 0 | SET_TO_SERVER_TIME \<Rightarrow> ser_u32 1 | SET_TO_CLIENT_TIME v \<Rightarrow> ser_u32 2 @ ser_nfstime3 v)"

definition de_set_time :: "set_time3 reader" where
  "de_set_time =
    rbnd de_u32 (\<lambda>c.
      if c = 0 then rret DONT_CHANGE
      else if c = 1 then rret SET_TO_SERVER_TIME
      else if c = 2 then rbnd de_nfstime3 (\<lambda>r. rret (SET_TO_CLIENT_TIME r))
      else rfail)"

definition ser_sattr3 :: "sattr3 \<Rightarrow> bytes" where
  "ser_sattr3 a =
    ser_union ser_u32 (sa_mode a) @ ser_union ser_u32 (sa_uid a) @ ser_union ser_u32 (sa_gid a) @ ser_union ser_u64 (sa_size a) @
    ser_set_time (sa_atime a) @ ser_set_time (sa_mtime a)"

definition de_sattr3 :: "sattr3 reader" where
  "de_sattr3 =
    rbnd (de_union de_u32) (\<lambda>mode. rbnd (de_union de_u32) (\<lambda>uid. rbnd (de_union de_u32) (\<lambda>gid. rbnd (de_union de_u64) (\<lambda>size.
    rbnd de_set_time (\<lambda>atime. rbnd de_set_time (\<lambda>mtime.
      rret \<lparr>sa_mode = mode, sa_uid = uid, sa_gid = gid, sa_size = size, sa_atime = atime, sa_mtime = mtime\<rparr>))))))"

definition ok_sattr3 :: "sattr3 \<Rightarrow> bool" where
  "ok_sattr3 a \<longleftrightarrow> pred_option (\<lambda>n. n < 2 ^ 64) (sa_size a)"

text \<open>\<open>diropargs3\<close>: a directory and a name.\<close>

definition ser_diropargs3 :: "nfs_fh3 \<times> string \<Rightarrow> bytes" where
  "ser_diropargs3 d = ser_bytes (fst d) @ ser_nfsstring (snd d)"

definition de_diropargs3 :: "(nfs_fh3 \<times> string) reader" where
  "de_diropargs3 = rbnd de_bytes (\<lambda>dir. rbnd de_nfsstring (\<lambda>name. rret (dir, name)))"

section \<open>They meet the contract\<close>

interpretation xdr_nfsstat3: xdr_codec ser_nfsstat3 de_nfsstat3 "\<lambda>_. True"
proof (rule xdr_enum)
  show "x \<in> set nfsstat3_variants" for x by (cases x) (simp_all add: nfsstat3_variants_def)
qed (simp add: nfsstat3_variants_def nfsstat3_code_def)

interpretation xdr_ftype3: xdr_codec ser_ftype3 de_ftype3 "\<lambda>_. True"
proof (rule xdr_enum)
  show "x \<in> set ftype3_variants" for x by (cases x) (simp_all add: ftype3_variants_def)
qed (simp add: ftype3_variants_def ftype3_code_def)

interpretation xdr_nfstime3: xdr_codec ser_nfstime3 de_nfstime3 "\<lambda>_. True"
  by unfold_locales (simp_all add: ser_nfstime3_def de_nfstime3_def coding rret_def)

interpretation xdr_specdata3: xdr_codec ser_specdata3 de_specdata3 "\<lambda>_. True"
  by unfold_locales (simp_all add: ser_specdata3_def de_specdata3_def coding rret_def)

declare xdr_nfsstat3.de_then [coding] xdr_ftype3.de_then [coding] xdr_nfstime3.de_then [coding] xdr_specdata3.de_then [coding]

lemma length_ser_fattr3 [simp]: "length (ser_fattr3 a) = 84"
  by (simp add: ser_fattr3_def ser_enum_def ser_specdata3_def ser_nfstime3_def)

interpretation xdr_fattr3: xdr_codec ser_fattr3 de_fattr3 ok_fattr3
proof
  fix a rest assume "ok_fattr3 a"
  then show "de_fattr3 (ser_fattr3 a @ rest) = Inr (a, rest)"
    by (simp add: ser_fattr3_def de_fattr3_def ok_fattr3_def coding rret_def)
qed simp

interpretation xdr_post_op_attr: xdr_codec ser_post_op_attr "de_union de_fattr3" "pred_option ok_fattr3"
  by (rule xdr_union) unfold_locales

interpretation xdr_post_op_fh3: xdr_codec ser_post_op_fh3 "de_union de_bytes" "pred_option fits"
  by (rule xdr_union) unfold_locales

interpretation xdr_wcc_attr: xdr_codec ser_wcc_attr de_wcc_attr "\<lambda>a. fst a < 2 ^ 64"
proof
  fix a :: wcc_attr and rest assume "fst a < 2 ^ 64"
  then show "de_wcc_attr (ser_wcc_attr a @ rest) = Inr (a, rest)" "4 dvd length (ser_wcc_attr a)"
    by (cases a; simp add: ser_wcc_attr_def de_wcc_attr_def coding rret_def xdr_nfstime3.aligned)+
qed

interpretation xdr_pre_op_attr: xdr_codec "ser_union ser_wcc_attr" "de_union de_wcc_attr" "pred_option (\<lambda>a. fst a < 2 ^ 64)"
  by (rule xdr_union) unfold_locales

declare xdr_post_op_attr.de_then [coding] xdr_post_op_fh3.de_then [coding] xdr_pre_op_attr.de_then [coding]

interpretation xdr_wcc_data: xdr_codec ser_wcc_data de_wcc_data
    "\<lambda>w. pred_option (\<lambda>a. fst a < 2 ^ 64) (fst w) \<and> pred_option ok_fattr3 (snd w)"
  by unfold_locales (simp_all add: ser_wcc_data_def de_wcc_data_def coding rret_def xdr_pre_op_attr.aligned xdr_post_op_attr.aligned)

interpretation xdr_set_time: xdr_codec ser_set_time de_set_time "\<lambda>_. True"
proof
  fix t rest
  show "de_set_time (ser_set_time t @ rest) = Inr (t, rest)"
    by (cases t) (simp_all add: ser_set_time_def de_set_time_def coding rret_def)
  show "4 dvd length (ser_set_time t)" by (cases t) (simp_all add: ser_set_time_def ser_nfstime3_def)
qed

interpretation xdr_option_u32: xdr_codec "ser_union ser_u32" "de_union de_u32" "pred_option (\<lambda>_. True)"
  by (rule xdr_union) unfold_locales

interpretation xdr_option_u64: xdr_codec "ser_union ser_u64" "de_union de_u64" "pred_option (\<lambda>n. n < 2 ^ 64)"
  by (rule xdr_union) unfold_locales

interpretation xdr_option_time: xdr_codec "ser_union ser_nfstime3" "de_union de_nfstime3" "pred_option (\<lambda>_. True)"
  by (rule xdr_union) unfold_locales

declare xdr_set_time.de_then [coding] xdr_option_u32.de_then [coding] xdr_option_u64.de_then [coding] xdr_option_time.de_then [coding]

lemma pred_option_True [simp]: "pred_option (\<lambda>_. True) x"
  by (cases x) simp_all

interpretation xdr_sattr3: xdr_codec ser_sattr3 de_sattr3 ok_sattr3
  by unfold_locales (simp_all add: ser_sattr3_def de_sattr3_def ok_sattr3_def coding rret_def
      xdr_option_u32.aligned xdr_option_u64.aligned xdr_set_time.aligned)

interpretation xdr_diropargs3: xdr_codec ser_diropargs3 de_diropargs3 "\<lambda>d. fits (fst d) \<and> fits (snd d)"
  by unfold_locales (simp_all add: ser_diropargs3_def de_diropargs3_def coding rret_def xdr_bytes.aligned xdr_nfsstring.aligned)

declare xdr_sattr3.de_then [coding] xdr_diropargs3.de_then [coding] xdr_wcc_data.de_then [coding]

end
