(* ===== verification/Rpc.thy ===== *)
theory Rpc
  imports Xdr
begin

text \<open>
  Remote procedure calls: the messages of \<open>nfsserve/rpc.rs\<close> with their coding, the record marking
  of \<open>nfsserve/rpcwire.rs\<close> and the table of transactions (\<open>transaction_tracker.rs\<close>).  The theorems say
  that a stream of records is cut into the messages that were sent, however it is split into
  fragments and reads, and that a call is not executed twice within the retention period.
\<close>

section \<open>Messages\<close>

datatype auth_flavor = AUTH_NULL | AUTH_UNIX | AUTH_SHORT | AUTH_DES

definition auth_flavor_code :: "auth_flavor \<Rightarrow> u32" where
  "auth_flavor_code f = (case f of AUTH_NULL \<Rightarrow> 0 | AUTH_UNIX \<Rightarrow> 1 | AUTH_SHORT \<Rightarrow> 2 | AUTH_DES \<Rightarrow> 3)"

definition auth_flavor_variants :: "auth_flavor list" where
  "auth_flavor_variants = [AUTH_NULL, AUTH_UNIX, AUTH_SHORT, AUTH_DES]"

datatype auth_stat = AUTH_BADCRED | AUTH_REJECTEDCRED | AUTH_BADVERF | AUTH_REJECTEDVERF | AUTH_TOOWEAK

definition auth_stat_code :: "auth_stat \<Rightarrow> u32" where
  "auth_stat_code s =
    (case s of AUTH_BADCRED \<Rightarrow> 1 | AUTH_REJECTEDCRED \<Rightarrow> 2 | AUTH_BADVERF \<Rightarrow> 3 | AUTH_REJECTEDVERF \<Rightarrow> 4 | AUTH_TOOWEAK \<Rightarrow> 5)"

definition auth_stat_variants :: "auth_stat list" where
  "auth_stat_variants = [AUTH_BADCRED, AUTH_REJECTEDCRED, AUTH_BADVERF, AUTH_REJECTEDVERF, AUTH_TOOWEAK]"

record opaque_auth =
  oa_flavor :: auth_flavor
  oa_body :: bytes

definition opaque_auth_default :: opaque_auth where
  "opaque_auth_default = \<lparr>oa_flavor = AUTH_NULL, oa_body = []\<rparr>"

record call_body =
  rpcvers :: u32
  rpcprog :: u32
  rpcvers_prog :: u32
  rpcproc :: u32
  cred :: opaque_auth
  verf :: opaque_auth

definition call_body_default :: call_body where
  "call_body_default = \<lparr>rpcvers = 0, rpcprog = 0, rpcvers_prog = 0, rpcproc = 0, cred = opaque_auth_default, verf = opaque_auth_default\<rparr>"

text \<open>\<open>mismatch_info\<close>: the lowest and the highest version.\<close>

type_synonym mismatch_info = "u32 \<times> u32"

datatype accept_body = SUCCESS | PROG_UNAVAIL | PROG_MISMATCH mismatch_info | PROC_UNAVAIL | GARBAGE_ARGS

record accepted_reply =
  ar_verf :: opaque_auth
  reply_data :: accept_body

datatype rejected_reply = RPC_MISMATCH mismatch_info | AUTH_ERROR auth_stat

datatype reply_body = MSG_ACCEPTED accepted_reply | MSG_DENIED rejected_reply

datatype rpc_body = CALL call_body | REPLY reply_body

record rpc_msg =
  xid :: u32
  rpc_content :: rpc_body

section \<open>Their coding\<close>

text \<open>
  A union with an unknown discriminant is left as it was, which is its default value: the
  readers of \<open>rpc_body\<close>, \<open>reply_body\<close> and \<open>rejected_reply\<close> are only applied to defaults.
\<close>

definition ser_auth_unix :: "auth_unix \<Rightarrow> bytes" where
  "ser_auth_unix a =
    ser_u32 (au_stamp a) @ ser_bytes (au_machinename a) @ ser_u32 (au_uid a) @ ser_u32 (au_gid a) @ ser_u32s (au_gids a)"

definition de_auth_unix :: "auth_unix reader" where
  "de_auth_unix =
    rbnd de_u32 (\<lambda>stamp. rbnd de_bytes (\<lambda>machinename. rbnd de_u32 (\<lambda>uid. rbnd de_u32 (\<lambda>gid. rbnd de_u32s (\<lambda>gids.
      rret \<lparr>au_stamp = stamp, au_machinename = machinename, au_uid = uid, au_gid = gid, au_gids = gids\<rparr>)))))"

definition auth_unix_default :: auth_unix where
  "auth_unix_default = \<lparr>au_stamp = 0, au_machinename = [], au_uid = 0, au_gid = 0, au_gids = []\<rparr>"

definition ser_opaque_auth :: "opaque_auth \<Rightarrow> bytes" where
  "ser_opaque_auth a = ser_enum auth_flavor_code (oa_flavor a) @ ser_bytes (oa_body a)"

definition de_opaque_auth :: "opaque_auth reader" where
  "de_opaque_auth =
    rbnd (de_enum auth_flavor_code auth_flavor_variants) (\<lambda>flavor. rbnd de_bytes (\<lambda>body. rret \<lparr>oa_flavor = flavor, oa_body = body\<rparr>))"

definition ser_call_body :: "call_body \<Rightarrow> bytes" where
  "ser_call_body c =
    ser_u32 (rpcvers c) @ ser_u32 (rpcprog c) @ ser_u32 (rpcvers_prog c) @ ser_u32 (rpcproc c) @
    ser_opaque_auth (cred c) @ ser_opaque_auth (verf c)"

definition de_call_body :: "call_body reader" where
  "de_call_body =
    rbnd de_u32 (\<lambda>rpcvers. rbnd de_u32 (\<lambda>prog. rbnd de_u32 (\<lambda>vers. rbnd de_u32 (\<lambda>proc.
    rbnd de_opaque_auth (\<lambda>cred. rbnd de_opaque_auth (\<lambda>verf.
      rret \<lparr>rpcvers = rpcvers, rpcprog = prog, rpcvers_prog = vers, rpcproc = proc, cred = cred, verf = verf\<rparr>))))))"

definition ser_mismatch_info :: "mismatch_info \<Rightarrow> bytes" where
  "ser_mismatch_info m = ser_u32 (fst m) @ ser_u32 (snd m)"

definition de_mismatch_info :: "mismatch_info reader" where
  "de_mismatch_info = rbnd de_u32 (\<lambda>low. rbnd de_u32 (\<lambda>high. rret (low, high)))"

definition ser_accept_body :: "accept_body \<Rightarrow> bytes" where
  "ser_accept_body b =
    (case b of
       SUCCESS \<Rightarrow> ser_u32 0
     | PROG_UNAVAIL \<Rightarrow> ser_u32 1
     | PROG_MISMATCH v \<Rightarrow> ser_u32 2 @ ser_mismatch_info v
     | PROC_UNAVAIL \<Rightarrow> ser_u32 3
     | GARBAGE_ARGS \<Rightarrow> ser_u32 4)"

definition de_accept_body :: "accept_body reader" where
  "de_accept_body =
    rbnd de_u32 (\<lambda>c.
      if c = 0 then rret SUCCESS
      else if c = 1 then rret PROG_UNAVAIL
      else if c = 2 then rbnd de_mismatch_info (\<lambda>r. rret (PROG_MISMATCH r))
      else if c = 3 then rret PROC_UNAVAIL
      else rret GARBAGE_ARGS)"

definition ser_accepted_reply :: "accepted_reply \<Rightarrow> bytes" where
  "ser_accepted_reply r = ser_opaque_auth (ar_verf r) @ ser_accept_body (reply_data r)"

definition de_accepted_reply :: "accepted_reply reader" where
  "de_accepted_reply =
    rbnd de_opaque_auth (\<lambda>verf. rbnd de_accept_body (\<lambda>reply_data. rret \<lparr>ar_verf = verf, reply_data = reply_data\<rparr>))"

definition ser_rejected_reply :: "rejected_reply \<Rightarrow> bytes" where
  "ser_rejected_reply r =
    (case r of
       RPC_MISMATCH v \<Rightarrow> ser_u32 0 @ ser_mismatch_info v
     | AUTH_ERROR v \<Rightarrow> ser_u32 1 @ ser_enum auth_stat_code v)"

definition de_rejected_reply :: "rejected_reply reader" where
  "de_rejected_reply =
    rbnd de_u32 (\<lambda>c.
      if c = 0 then rbnd de_mismatch_info (\<lambda>r. rret (RPC_MISMATCH r))
      else if c = 1 then rbnd (de_enum auth_stat_code auth_stat_variants) (\<lambda>r. rret (AUTH_ERROR r))
      else rret (RPC_MISMATCH (0, 0)))"

definition ser_reply_body :: "reply_body \<Rightarrow> bytes" where
  "ser_reply_body b =
    (case b of
       MSG_ACCEPTED v \<Rightarrow> ser_u32 0 @ ser_accepted_reply v
     | MSG_DENIED v \<Rightarrow> ser_u32 1 @ ser_rejected_reply v)"

definition de_reply_body :: "reply_body reader" where
  "de_reply_body =
    rbnd de_u32 (\<lambda>c.
      if c = 0 then rbnd de_accepted_reply (\<lambda>r. rret (MSG_ACCEPTED r))
      else if c = 1 then rbnd de_rejected_reply (\<lambda>r. rret (MSG_DENIED r))
      else rret (MSG_ACCEPTED \<lparr>ar_verf = opaque_auth_default, reply_data = SUCCESS\<rparr>))"

definition ser_rpc_body :: "rpc_body \<Rightarrow> bytes" where
  "ser_rpc_body b =
    (case b of
       CALL v \<Rightarrow> ser_u32 0 @ ser_call_body v
     | REPLY v \<Rightarrow> ser_u32 1 @ ser_reply_body v)"

definition de_rpc_body :: "rpc_body reader" where
  "de_rpc_body =
    rbnd de_u32 (\<lambda>c.
      if c = 0 then rbnd de_call_body (\<lambda>r. rret (CALL r))
      else if c = 1 then rbnd de_reply_body (\<lambda>r. rret (REPLY r))
      else rret (CALL call_body_default))"

definition ser_rpc_msg :: "rpc_msg \<Rightarrow> bytes" where
  "ser_rpc_msg m = ser_u32 (xid m) @ ser_rpc_body (rpc_content m)"

definition de_rpc_msg :: "rpc_msg reader" where
  "de_rpc_msg = rbnd de_u32 (\<lambda>xid. rbnd de_rpc_body (\<lambda>body. rret \<lparr>xid = xid, rpc_content = body\<rparr>))"

text \<open>The replies of the server.\<close>

definition accepted :: "u32 \<Rightarrow> accept_body \<Rightarrow> rpc_msg" where
  "accepted x b = \<lparr>xid = x, rpc_content = REPLY (MSG_ACCEPTED \<lparr>ar_verf = opaque_auth_default, reply_data = b\<rparr>)\<rparr>"

definition proc_unavail_reply_message :: "u32 \<Rightarrow> rpc_msg" where
  "proc_unavail_reply_message x = accepted x PROC_UNAVAIL"

definition prog_unavail_reply_message :: "u32 \<Rightarrow> rpc_msg" where
  "prog_unavail_reply_message x = accepted x PROG_UNAVAIL"

definition prog_mismatch_reply_message :: "u32 \<Rightarrow> u32 \<Rightarrow> rpc_msg" where
  "prog_mismatch_reply_message x accepted_ver = accepted x (PROG_MISMATCH (accepted_ver, accepted_ver))"

definition garbage_args_reply_message :: "u32 \<Rightarrow> rpc_msg" where
  "garbage_args_reply_message x = accepted x GARBAGE_ARGS"

definition rpc_vers_mismatch :: "u32 \<Rightarrow> rpc_msg" where
  "rpc_vers_mismatch x = \<lparr>xid = x, rpc_content = REPLY (MSG_DENIED (RPC_MISMATCH (0, 0)))\<rparr>"

definition make_success_reply :: "u32 \<Rightarrow> rpc_msg" where
  "make_success_reply x = accepted x SUCCESS"

section \<open>The messages meet the contract\<close>

definition ok_auth_unix :: "auth_unix \<Rightarrow> bool" where
  "ok_auth_unix a \<longleftrightarrow> fits (au_machinename a) \<and> fits (au_gids a)"

definition ok_call_body :: "call_body \<Rightarrow> bool" where
  "ok_call_body c \<longleftrightarrow> fits (oa_body (cred c)) \<and> fits (oa_body (verf c))"

definition ok_reply_body :: "reply_body \<Rightarrow> bool" where
  "ok_reply_body b \<longleftrightarrow> (case b of MSG_ACCEPTED r \<Rightarrow> fits (oa_body (ar_verf r)) | MSG_DENIED _ \<Rightarrow> True)"

definition ok_rpc_body :: "rpc_body \<Rightarrow> bool" where
  "ok_rpc_body b \<longleftrightarrow> (case b of CALL c \<Rightarrow> ok_call_body c | REPLY r \<Rightarrow> ok_reply_body r)"

interpretation xdr_auth_flavor: xdr_codec "ser_enum auth_flavor_code" "de_enum auth_flavor_code auth_flavor_variants" "\<lambda>_. True"
proof (rule xdr_enum)
  show "x \<in> set auth_flavor_variants" for x by (cases x) (simp_all add: auth_flavor_variants_def)
qed (simp add: auth_flavor_variants_def auth_flavor_code_def)

interpretation xdr_auth_stat: xdr_codec "ser_enum auth_stat_code" "de_enum auth_stat_code auth_stat_variants" "\<lambda>_. True"
proof (rule xdr_enum)
  show "x \<in> set auth_stat_variants" for x by (cases x) (simp_all add: auth_stat_variants_def)
qed (simp add: auth_stat_variants_def auth_stat_code_def)

interpretation xdr_auth_unix: xdr_codec ser_auth_unix de_auth_unix ok_auth_unix
  by unfold_locales (simp_all add: ser_auth_unix_def de_auth_unix_def ok_auth_unix_def coding rret_def
      xdr_bytes.aligned xdr_u32s.aligned)

declare xdr_auth_flavor.de_then [coding] xdr_auth_stat.de_then [coding] xdr_auth_unix.de_then [coding]

interpretation xdr_opaque_auth: xdr_codec ser_opaque_auth de_opaque_auth "\<lambda>a. fits (oa_body a)"
  by unfold_locales (simp_all add: ser_opaque_auth_def de_opaque_auth_def coding rret_def
      xdr_bytes.aligned xdr_auth_flavor.aligned)

interpretation xdr_mismatch_info: xdr_codec ser_mismatch_info de_mismatch_info "\<lambda>_. True"
  by unfold_locales (simp_all add: ser_mismatch_info_def de_mismatch_info_def coding rret_def)

declare xdr_opaque_auth.de_then [coding] xdr_mismatch_info.de_then [coding]

interpretation xdr_call_body: xdr_codec ser_call_body de_call_body ok_call_body
  by unfold_locales (simp_all add: ser_call_body_def de_call_body_def ok_call_body_def coding rret_def xdr_opaque_auth.aligned)

interpretation xdr_accept_body: xdr_codec ser_accept_body de_accept_body "\<lambda>_. True"
proof
  fix b rest
  show "de_accept_body (ser_accept_body b @ rest) = Inr (b, rest)"
    by (cases b) (simp_all add: ser_accept_body_def de_accept_body_def coding rret_def)
  show "4 dvd length (ser_accept_body b)" by (cases b) (simp_all add: ser_accept_body_def xdr_mismatch_info.aligned)
qed

interpretation xdr_rejected_reply: xdr_codec ser_rejected_reply de_rejected_reply "\<lambda>_. True"
proof
  fix b rest
  show "de_rejected_reply (ser_rejected_reply b @ rest) = Inr (b, rest)"
    by (cases b) (simp_all add: ser_rejected_reply_def de_rejected_reply_def coding rret_def)
  show "4 dvd length (ser_rejected_reply b)"
    by (cases b) (simp_all add: ser_rejected_reply_def xdr_mismatch_info.aligned xdr_auth_stat.aligned)
qed

declare xdr_call_body.de_then [coding] xdr_accept_body.de_then [coding] xdr_rejected_reply.de_then [coding]

interpretation xdr_accepted_reply: xdr_codec ser_accepted_reply de_accepted_reply "\<lambda>r. fits (oa_body (ar_verf r))"
  by unfold_locales (simp_all add: ser_accepted_reply_def de_accepted_reply_def coding rret_def
      xdr_opaque_auth.aligned xdr_accept_body.aligned)

declare xdr_accepted_reply.de_then [coding]

interpretation xdr_reply_body: xdr_codec ser_reply_body de_reply_body ok_reply_body
proof
  fix b rest assume "ok_reply_body b"
  then show "de_reply_body (ser_reply_body b @ rest) = Inr (b, rest)" "4 dvd length (ser_reply_body b)"
    by (cases b; simp add: ok_reply_body_def ser_reply_body_def de_reply_body_def coding rret_def
        xdr_accepted_reply.aligned xdr_rejected_reply.aligned)+
qed

declare xdr_reply_body.de_then [coding]

interpretation xdr_rpc_body: xdr_codec ser_rpc_body de_rpc_body ok_rpc_body
proof
  fix b rest assume "ok_rpc_body b"
  then show "de_rpc_body (ser_rpc_body b @ rest) = Inr (b, rest)" "4 dvd length (ser_rpc_body b)"
    by (cases b; simp add: ok_rpc_body_def ser_rpc_body_def de_rpc_body_def coding rret_def
        xdr_call_body.aligned xdr_reply_body.aligned)+
qed

declare xdr_rpc_body.de_then [coding]

interpretation xdr_rpc_msg: xdr_codec ser_rpc_msg de_rpc_msg "\<lambda>m. ok_rpc_body (rpc_content m)"
  by unfold_locales (simp_all add: ser_rpc_msg_def de_rpc_msg_def coding rret_def xdr_rpc_body.aligned)

lemma ok_accepted [simp]: "ok_rpc_body (rpc_content (accepted x b))"
  by (simp add: accepted_def ok_rpc_body_def ok_reply_body_def opaque_auth_default_def fits_def)

lemma length_success_reply: "length (ser_rpc_msg (make_success_reply x)) = 24"
  by (simp add: make_success_reply_def accepted_def ser_rpc_msg_def ser_rpc_body_def ser_reply_body_def ser_accepted_reply_def
      opaque_auth_default_def ser_opaque_auth_def ser_enum_def ser_bytes_def ser_accept_body_def xdr_pad_def)

section \<open>Record marking\<close>

text \<open>
  A fragment is a header, with the last-fragment flag above the length in 31 bits, and its data.
  The reader waits until the fragment is there: \<open>None\<close>.
\<close>

definition fragment_header :: "bytes \<Rightarrow> u32" where
  "fragment_header bs = of_nat (from_be_bytes (take 4 bs))"

definition header_last :: "u32 \<Rightarrow> bool" where
  "header_last h \<longleftrightarrow> h AND push_bit 31 1 > 0"

definition header_length :: "u32 \<Rightarrow> nat" where
  "header_length h = unat (h AND (push_bit 31 1 - 1))"

definition read_fragment :: "bytes \<Rightarrow> (bool \<times> bytes \<times> bytes) option" where
  "read_fragment bs =
    (if length bs < 4 then None
     else
       let h = fragment_header bs; rest = drop 4 bs; n = header_length h
       in if length rest < n then None else Some (header_last h, take n rest, drop n rest))"

text \<open>\<open>write_fragment\<close>: one fragment, the last one; longer messages panic.\<close>

definition write_fragment :: "bytes \<Rightarrow> bytes option" where
  "write_fragment buf =
    (if length buf < 2 ^ 31 then Some (ser_u32 (of_nat (length buf) + push_bit 31 1) @ buf) else None)"

text \<open>
  \<open>SocketMessageHandler\<close>: the fragments of the current record, and the bytes received and not
  read yet.  \<open>drain\<close> is the loop over \<open>read\<close> until it waits; the complete records are handled.
\<close>

record message_handler =
  cur_fragment :: bytes
  unread :: bytes

lemma read_fragment_shorter: "read_fragment bs = Some (l, data, rest) \<Longrightarrow> length rest < length bs"
  by (auto simp: read_fragment_def Let_def split: if_splits)

function drain :: "bytes \<Rightarrow> bytes \<Rightarrow> bytes list \<times> message_handler" where
  "drain cur bs =
    (case read_fragment bs of
       None \<Rightarrow> ([], \<lparr>cur_fragment = cur, unread = bs\<rparr>)
     | Some (is_last, data, rest) \<Rightarrow>
         if is_last then (case drain [] rest of (msgs, h) \<Rightarrow> ((cur @ data) # msgs, h))
         else drain (cur @ data) rest)"
  by pat_completeness auto

termination by (relation "measure (\<lambda>(cur, bs). length bs)") (auto dest: read_fragment_shorter)

declare drain.simps [simp del]

definition receive :: "message_handler \<Rightarrow> bytes \<Rightarrow> bytes list \<times> message_handler" where
  "receive h buf = drain (cur_fragment h) (unread h @ buf)"

fun receive_all :: "message_handler \<Rightarrow> bytes list \<Rightarrow> bytes list \<times> message_handler" where
  "receive_all h [] = ([], h)"
| "receive_all h (buf # bufs) =
    (case receive h buf of (msgs, h) \<Rightarrow> case receive_all h bufs of (msgs', h) \<Rightarrow> (msgs @ msgs', h))"

definition new_handler :: message_handler where
  "new_handler = \<lparr>cur_fragment = [], unread = []\<rparr>"

text \<open>What a sender may put on the stream for a message: fragments, the last of them marked.\<close>

fun mark_record :: "bytes list \<Rightarrow> bytes" where
  "mark_record [] = []"
| "mark_record [f] = ser_u32 (of_nat (length f) + push_bit 31 1) @ f"
| "mark_record (f # fs) = ser_u32 (of_nat (length f)) @ f @ mark_record fs"

lemma header_length_mod: "header_length h = unat h mod 2 ^ 31"
proof -
  have "(push_bit 31 1 - 1 :: u32) = mask 31" by (simp add: mask_eq_exp_minus_1 push_bit_eq_mult)
  then have "header_length h = unat (take_bit 31 h)" by (simp only: header_length_def take_bit_eq_mask)
  also have "\<dots> = take_bit 31 (unat h)" by (rule unsigned_take_bit_eq)
  finally show ?thesis by (simp only: take_bit_eq_mod)
qed

lemma header_last_iff: "header_last h \<longleftrightarrow> 2 ^ 31 \<le> unat h"
proof -
  have "header_last h \<longleftrightarrow> bit h 31"
    using and_exp_eq_0_iff_not_bit [of h 31] by (simp add: header_last_def push_bit_eq_mult word_gt_0)
  also have "\<dots> \<longleftrightarrow> odd (unat h div 2 ^ 31)" by (metis bit_iff_odd bit_unsigned_iff possible_bit_nat)
  also have "\<dots> \<longleftrightarrow> 2 ^ 31 \<le> unat h"
  proof (cases "unat h < 2 ^ 31")
    case False
    have "unat h div 2 ^ 31 = 1" using False unsigned_less [of h, where ?'a = nat] by (intro div_nat_eqI) simp_all
    then show ?thesis using False by simp
  qed simp
  finally show ?thesis .
qed

lemma read_header:
  assumes "n < 2 ^ 31" "h = of_nat n + (if fin then push_bit 31 1 else 0)" "length data = n"
  shows "read_fragment (ser_u32 h @ data @ rest) = Some (fin, data, rest)"
proof -
  have "unat h = n + (if fin then 2 ^ 31 else 0)"
    using assms(1) unfolding assms(2) by (simp add: push_bit_eq_mult unat_word_ariths unat_of_nat)
  then have "header_length h = n" "header_last h = fin" using assms(1) by (simp_all add: header_length_mod header_last_iff)
  moreover have "fragment_header (ser_u32 h @ data @ rest) = h"
    using xdr_u32.de_ser [of h "data @ rest"] by (simp add: fragment_header_def de_u32_def rbnd_def read_exact_def rret_def)
  ultimately show ?thesis using assms(3) by (simp add: read_fragment_def)
qed

lemma read_fragment_append: "read_fragment a = Some (l, data, rest) \<Longrightarrow> read_fragment (a @ b) = Some (l, data, rest @ b)"
  by (auto simp: read_fragment_def fragment_header_def Let_def split: if_splits)

lemma drain_append:
  "drain cur (a @ b) =
    (case drain cur a of (msgs, h) \<Rightarrow> case drain (cur_fragment h) (unread h @ b) of (msgs', h') \<Rightarrow> (msgs @ msgs', h'))"
proof (induction cur a rule: drain.induct)
  case (1 cur a)
  show ?case
  proof (cases "read_fragment a")
    case None
    then show ?thesis by (simp add: drain.simps [of cur a])
  next
    case (Some f)
    obtain l data rest where f: "f = (l, data, rest)" by (cases f)
    note read = Some [unfolded f] read_fragment_append [OF Some [unfolded f], of b]
    show ?thesis
    proof (cases l)
      case True
      then show ?thesis using 1(1) [OF Some f [symmetric] refl] read
        by (simp add: drain.simps [of cur a] drain.simps [of cur "a @ b"] split: prod.splits)
    next
      case False
      then show ?thesis using 1(2) [OF Some f [symmetric] refl] read
        by (simp add: drain.simps [of cur a] drain.simps [of cur "a @ b"] split: prod.splits)
    qed
  qed
qed

lemma drain_unread: "drain cur bs = (msgs, h) \<Longrightarrow> read_fragment (unread h) = None"
proof (induction cur bs arbitrary: msgs rule: drain.induct)
  case (1 cur bs)
  from 1(3) show ?case
    by (auto simp: drain.simps [of cur bs] split: option.splits prod.splits if_splits intro: 1(1,2))
qed

lemma drain_waits: "drain cur bs = (msgs, h) \<Longrightarrow> drain (cur_fragment h) (unread h) = ([], h)"
  using drain_unread [of cur bs msgs h] by (simp add: drain.simps [of "cur_fragment h"])

lemma receive_all_drain:
  "drain (cur_fragment h) (unread h) = ([], h) \<Longrightarrow> receive_all h bufs = drain (cur_fragment h) (unread h @ concat bufs)"
proof (induction bufs arbitrary: h)
  case (Cons buf bufs)
  obtain msgs h' where d: "drain (cur_fragment h) (unread h @ buf) = (msgs, h')" by fastforce
  show ?case using Cons.IH [OF drain_waits [OF d]] d
    by (simp add: receive_def drain_append [of _ "unread h @ buf" "concat bufs", unfolded append_assoc])
qed simp

lemma drain_record:
  "fs \<noteq> [] \<Longrightarrow> \<forall>f \<in> set fs. length f < 2 ^ 31 \<Longrightarrow>
   drain cur (mark_record fs @ rest) = (case drain [] rest of (msgs, h) \<Rightarrow> ((cur @ concat fs) # msgs, h))"
proof (induction fs arbitrary: cur rule: mark_record.induct)
  case (2 f)
  then show ?case
    using read_header [of "length f" "of_nat (length f) + push_bit 31 1" True f rest]
    by (simp add: drain.simps [of cur])
next
  case (3 f f' fs)
  then show ?case
    using read_header [of "length f" "of_nat (length f)" False f "mark_record (f' # fs) @ rest"]
    by (simp add: drain.simps [of cur])
qed simp

lemma drain_records:
  "\<forall>r \<in> set rs. r \<noteq> [] \<and> (\<forall>f \<in> set r. length f < 2 ^ 31) \<Longrightarrow>
   drain [] (concat (map mark_record rs)) = (map concat rs, new_handler)"
proof (induction rs)
  case Nil
  then show ?case by (simp add: drain.simps read_fragment_def new_handler_def)
next
  case (Cons r rs)
  then show ?case by (simp add: drain_record)
qed

text \<open>
  C27.  The record layer delivers what was sent.  When the senders' messages are split into
  fragments of less than 2^31 bytes in any way and the stream arrives in pieces cut anywhere,
  the server handles exactly the messages, in order and complete, and nothing is left over.
\<close>

theorem records_reassembled:
  assumes "\<forall>r \<in> set rs. r \<noteq> [] \<and> (\<forall>f \<in> set r. length f < 2 ^ 31)"
    and "concat bufs = concat (map mark_record rs)"
  shows "receive_all new_handler bufs = (map concat rs, new_handler)"
proof -
  have "drain [] [] = ([], new_handler)" using drain_records [of "[]"] by simp
  then show ?thesis using receive_all_drain [of new_handler bufs] drain_records [OF assms(1)] assms(2)
    by (simp add: new_handler_def)
qed

theorem records_reassembled_witness:
  "receive_all new_handler [[0, 0], [0, 1, 7, 128, 0, 0, 2, 8], [9, 128, 0, 0, 0]] = ([[7, 8, 9], []], new_handler)"
proof -
  have ser: "ser_u32 (1 :: u32) = [0, 0, 0, 1]" "ser_u32 (0x80000002 :: u32) = [128, 0, 0, 2]" "ser_u32 (0x80000000 :: u32) = [128, 0, 0, 0]"
    by (simp_all add: ser_u32_def to_be_bytes_def to_le_bytes_def upt_conv_Cons)
  show ?thesis using records_reassembled [of "[[[7], [8, 9]], [[]]]" "[[0, 0], [0, 1, 7, 128, 0, 0, 2, 8], [9, 128, 0, 0, 0]]"]
    by (simp add: ser push_bit_eq_mult)
qed

text \<open>A reply is one record of one fragment.\<close>

lemma write_fragment_record: "write_fragment buf = Some bs \<Longrightarrow> bs = mark_record [buf] \<and> length buf < 2 ^ 31"
  by (auto simp: write_fragment_def split: if_splits)

section \<open>Transactions\<close>

text \<open>Times are nanoseconds; the current time is an argument.\<close>

datatype transaction_state = InProgress | Completed int

type_synonym tx_key = "u32 \<times> string"
type_synonym transactions = "tx_key \<rightharpoonup> transaction_state"

definition housekeeping :: "int \<Rightarrow> int \<Rightarrow> transactions \<Rightarrow> transactions" where
  "housekeeping now max_age ts =
    (\<lambda>k. case ts k of Some (Completed t) \<Rightarrow> if t \<ge> now - max_age then ts k else None | v \<Rightarrow> v)"

definition is_retransmission :: "int \<Rightarrow> int \<Rightarrow> tx_key \<Rightarrow> transactions \<Rightarrow> bool \<times> transactions" where
  "is_retransmission retention_period now key ts =
    (let ts = housekeeping now retention_period ts
     in if ts key = None then (False, ts(key \<mapsto> InProgress)) else (True, ts))"

definition mark_processed :: "int \<Rightarrow> tx_key \<Rightarrow> transactions \<Rightarrow> transactions" where
  "mark_processed completion_time key ts = (if ts key = None then ts else ts(key \<mapsto> Completed completion_time))"

text \<open>
  The tasks of the server over the table they share: a call arrives and is dropped or executed;
  an execution finishes.  The clock does not run backwards.
\<close>

datatype rpc_event = Dropped int tx_key | Executed int tx_key | Finished int tx_key

record tx_server =
  table :: transactions
  executing :: "tx_key list"
  clock :: int

inductive tx_run :: "int \<Rightarrow> rpc_event list \<Rightarrow> tx_server \<Rightarrow> bool" for M :: int where
  boots: "tx_run M [] \<lparr>table = Map.empty, executing = [], clock = c\<rparr>"
| dropped: "tx_run M es S \<Longrightarrow> clock S \<le> now \<Longrightarrow> is_retransmission M now key (table S) = (True, ts) \<Longrightarrow>
    tx_run M (es @ [Dropped now key]) (S\<lparr>table := ts, clock := now\<rparr>)"
| executed: "tx_run M es S \<Longrightarrow> clock S \<le> now \<Longrightarrow> is_retransmission M now key (table S) = (False, ts) \<Longrightarrow>
    tx_run M (es @ [Executed now key]) (S\<lparr>table := ts, executing := key # executing S, clock := now\<rparr>)"
| finished: "tx_run M es S \<Longrightarrow> clock S \<le> now \<Longrightarrow> key \<in> set (executing S) \<Longrightarrow>
    tx_run M (es @ [Finished now key]) (S\<lparr>table := mark_processed now key (table S), executing := remove1 key (executing S), clock := now\<rparr>)"
| aborted: "tx_run M es S \<Longrightarrow> key \<in> set (executing S) \<Longrightarrow> tx_run M es (S\<lparr>executing := remove1 key (executing S)\<rparr>)"

inductive_cases tx_run_snocE: "tx_run M (es @ [e]) S"

text \<open>
  The last word on a key: while it is not in the table, either it was never executed, or its
  last execution finished and the retention period has passed since.
\<close>

definition last_finished :: "rpc_event list \<Rightarrow> tx_key \<Rightarrow> int \<Rightarrow> bool" where
  "last_finished es k t \<longleftrightarrow> (\<exists>es1 es2. es = es1 @ Finished t k # es2 \<and> (\<forall>n. Executed n k \<notin> set es2))"

definition settled :: "int \<Rightarrow> rpc_event list \<Rightarrow> tx_server \<Rightarrow> tx_key \<Rightarrow> bool" where
  "settled M es S k \<longleftrightarrow>
    (case table S k of
       Some InProgress \<Rightarrow> True
     | Some (Completed t) \<Rightarrow> last_finished es k t
     | None \<Rightarrow> (\<forall>n. Executed n k \<notin> set es) \<or> (\<exists>t. last_finished es k t \<and> t + M < clock S))"

lemma last_finished_snoc:
  "last_finished es k t \<Longrightarrow> (\<And>n. e \<noteq> Executed n k) \<Longrightarrow> last_finished (es @ [e]) k t"
  unfolding last_finished_def by (elim exE, rule exI, rule exI [of _ "_ @ [e]"]) auto

lemma last_finished_now: "last_finished (es @ [Finished t k]) k t"
  unfolding last_finished_def by (intro exI [of _ es] exI [of _ "[]"]) simp

lemma housekeeping_cases:
  "housekeeping now M ts k = ts k \<or> (\<exists>t. ts k = Some (Completed t) \<and> t + M < now \<and> housekeeping now M ts k = None)"
  by (auto simp: housekeeping_def split: option.splits transaction_state.splits)

lemma settled_later: "settled M es S k \<Longrightarrow> table S' k = table S k \<Longrightarrow> clock S \<le> clock S' \<Longrightarrow> settled M es S' k"
  by (auto simp: settled_def split: option.splits intro: order_less_le_trans)

lemma settled_housekeeping:
  assumes "settled M es S k" "clock S \<le> now"
  shows "settled M es (S\<lparr>table := housekeeping now M (table S), clock := now\<rparr>) k"
  using housekeeping_cases [of now M "table S" k]
proof (elim disjE exE conjE)
  assume "housekeeping now M (table S) k = table S k"
  then show ?thesis using settled_later [OF assms(1)] assms(2) by simp
next
  fix t assume "table S k = Some (Completed t)" "t + M < now" "housekeeping now M (table S) k = None"
  then show ?thesis using assms(1) unfolding settled_def by auto
qed

lemma executing_in_progress:
  "tx_run M es S \<Longrightarrow> (\<forall>k \<in> set (executing S). table S k = Some InProgress) \<and> distinct (executing S)"
proof (induction rule: tx_run.induct)
  case (dropped es S now key ts)
  then show ?case by (auto simp: is_retransmission_def Let_def housekeeping_def split: if_splits)
next
  case (executed es S now key ts)
  then show ?case by (auto simp: is_retransmission_def Let_def housekeeping_def split: if_splits option.splits)
next
  case (finished es S now key)
  then show ?case by (auto simp: mark_processed_def)
qed (auto simp: notin_set_remove1)

lemma settled_snoc:
  "settled M es S k \<Longrightarrow> table S' k = table S k \<Longrightarrow> clock S \<le> clock S' \<Longrightarrow> (\<And>n. e \<noteq> Executed n k) \<Longrightarrow>
   settled M (es @ [e]) S' k"
  by (auto simp: settled_def split: option.splits transaction_state.splits intro: order_less_le_trans last_finished_snoc)

lemma settled_run: "tx_run M es S \<Longrightarrow> settled M es S k"
proof (induction rule: tx_run.induct)
  case (boots c)
  then show ?case by (simp add: settled_def)
next
  case (dropped es S now key ts)
  have "ts = housekeeping now M (table S)" using dropped(3) by (auto simp: is_retransmission_def Let_def split: if_splits)
  then show ?case using settled_snoc [OF settled_housekeeping [OF dropped.IH dropped(2)], of _ "Dropped now key"] by simp
next
  case (executed es S now key ts)
  have ts: "ts = (housekeeping now M (table S))(key \<mapsto> InProgress)"
    using executed(3) by (auto simp: is_retransmission_def Let_def split: if_splits)
  show ?case
  proof (cases "k = key")
    case False
    then show ?thesis using settled_snoc [OF settled_housekeeping [OF executed.IH executed(2)],
        of "S\<lparr>table := ts, executing := key # executing S, clock := now\<rparr>" "Executed now key"] ts by simp
  qed (simp add: settled_def ts)
next
  case (finished es S now key)
  show ?case
  proof (cases "k = key")
    case True
    have "table S key = Some InProgress" using executing_in_progress [OF finished(1)] finished(3) by simp
    then show ?thesis using True by (simp add: settled_def mark_processed_def last_finished_now)
  next
    case False
    then show ?thesis using finished(2)
      by (intro settled_snoc [OF finished.IH]) (simp_all add: mark_processed_def)
  qed
next
  case (aborted es S key)
  then show ?case by (intro settled_later [OF aborted.IH]) simp_all
qed

text \<open>
  C6.  A call is executed at most once.  If a call of one client with one transaction number is
  executed twice, then the first execution finished, between the two, more than the retention
  period before the second; until then every copy of the call is dropped.
\<close>

theorem executed_at_most_once:
  assumes "tx_run M (es @ [Executed now k]) S" and "Executed n0 k \<in> set es"
  shows "\<exists>es1 t es2. es = es1 @ Finished t k # es2 \<and> (\<forall>n. Executed n k \<notin> set es2) \<and> t + M < now"
proof -
  have gen: "\<exists>S0. tx_run M es S0 \<and> clock S0 \<le> now \<and> (\<exists>ts. is_retransmission M now k (table S0) = (False, ts))"
    if "tx_run M es' S" "es' = es @ [Executed now k]" for es'
    using that by (induction rule: tx_run.induct) auto
  from gen [OF assms(1) refl] obtain S0 ts where S0: "tx_run M es S0" "clock S0 \<le> now" "is_retransmission M now k (table S0) = (False, ts)"
    by blast
  then have "housekeeping now M (table S0) k = None" by (auto simp: is_retransmission_def Let_def split: if_splits)
  then show ?thesis using settled_housekeeping [OF settled_run [OF S0(1), of k] S0(2)] assms(2) by (auto simp: settled_def last_finished_def)
qed

theorem executed_at_most_once_witness:
  "\<exists>S. tx_run 60 ([Executed 0 (1, ''a''), Finished 5 (1, ''a'')] @ [Executed 100 (1, ''a'')]) S \<and>
    (\<exists>es1 t es2. [Executed 0 (1, ''a''), Finished 5 (1, ''a'')] = es1 @ Finished t (1, ''a'') # es2 \<and>
      (\<forall>n. Executed n (1, ''a'') \<notin> set es2) \<and> t + 60 < 100)"
proof -
  let ?k = "(1 :: u32, ''a'')"
  let ?S0 = "\<lparr>table = Map.empty, executing = [], clock = 0\<rparr>"
  let ?S1 = "?S0\<lparr>table := [?k \<mapsto> InProgress], executing := [?k]\<rparr>"
  have "tx_run 60 ([] @ [Executed 0 ?k]) (?S0\<lparr>table := [?k \<mapsto> InProgress], executing := ?k # executing ?S0, clock := 0\<rparr>)"
    by (rule tx_run.executed [OF tx_run.boots]) (simp_all add: is_retransmission_def housekeeping_def)
  then have "tx_run 60 ([Executed 0 ?k] @ [Finished 5 ?k])
      (?S1\<lparr>table := mark_processed 5 ?k (table ?S1), executing := remove1 ?k (executing ?S1), clock := 5\<rparr>)"
    by (intro tx_run.finished) simp_all
  then have "tx_run 60 [Executed 0 ?k, Finished 5 ?k] \<lparr>table = [?k \<mapsto> Completed 5], executing = [], clock = 5\<rparr>"
    by (simp add: mark_processed_def)
  moreover have "is_retransmission 60 100 ?k [?k \<mapsto> Completed 5] = (False, [?k \<mapsto> InProgress])"
    by (simp add: is_retransmission_def housekeeping_def fun_eq_iff)
  ultimately obtain S where "tx_run 60 ([Executed 0 ?k, Finished 5 ?k] @ [Executed 100 ?k]) S"
    using tx_run.executed [of 60 _ "\<lparr>table = [?k \<mapsto> Completed 5], executing = [], clock = 5\<rparr>" 100 ?k "[?k \<mapsto> InProgress]"] by force
  then show ?thesis using executed_at_most_once [of 60 "[Executed 0 ?k, Finished 5 ?k]" 100 ?k S 0] by auto
qed

text \<open>An execution that panics never leaves the table: the copies of its call are dropped for ever.\<close>

lemma aborted_blocks_forever:
  assumes "table S k = Some InProgress" "k \<notin> set (executing S)" "is_retransmission M now k (table S) = (r, ts)"
  shows "r \<and> ts k = Some InProgress"
  using assms by (auto simp: is_retransmission_def housekeeping_def Let_def split: if_splits)

end
