(* ===== verification/Nfs_Wire.thy ===== *)
theory Nfs_Wire
  imports Rpc
begin

text \<open>
  The NFS server on the wire: the arguments and results of the procedures of \<open>nfs_handlers.rs\<close> as
  bytes, the MOUNT and PORTMAP programs (\<open>mount_handlers.rs\<close>, \<open>portmap_handlers.rs\<close>), the
  dispatcher \<open>handle_rpc\<close> of \<open>rpcwire.rs\<close> and the connections of \<open>tcp.rs\<close>.
\<close>

section \<open>Arguments\<close>

definition de_read3args :: "(nfs_fh3 \<times> u64 \<times> u32) reader" where
  "de_read3args = rbnd de_bytes (\<lambda>file. rbnd de_u64 (\<lambda>offset. rbnd de_u32 (\<lambda>count. rret (file, offset, count))))"

definition de_readdir3args :: "(nfs_fh3 \<times> u64 \<times> bytes \<times> u32) reader" where
  "de_readdir3args =
    rbnd de_bytes (\<lambda>dir. rbnd de_u64 (\<lambda>cookie. rbnd (read_exact 8) (\<lambda>cookieverf. rbnd de_u32 (\<lambda>dircount.
      rret (dir, cookie, cookieverf, dircount)))))"

definition de_readdirplus3args :: "(nfs_fh3 \<times> u64 \<times> bytes \<times> u32 \<times> u32) reader" where
  "de_readdirplus3args =
    rbnd de_bytes (\<lambda>dir. rbnd de_u64 (\<lambda>cookie. rbnd (read_exact 8) (\<lambda>cookieverf. rbnd de_u32 (\<lambda>dircount. rbnd de_u32 (\<lambda>maxcount.
      rret (dir, cookie, cookieverf, dircount, maxcount))))))"

definition de_write3args :: "(nfs_fh3 \<times> u64 \<times> u32 \<times> u32 \<times> bytes) reader" where
  "de_write3args =
    rbnd de_bytes (\<lambda>file. rbnd de_u64 (\<lambda>offset. rbnd de_u32 (\<lambda>count. rbnd de_u32 (\<lambda>stable. rbnd de_bytes (\<lambda>data.
      rret (file, offset, count, stable, data))))))"

definition de_setattr3args :: "(nfs_fh3 \<times> sattr3 \<times> nfstime3 option) reader" where
  "de_setattr3args =
    rbnd de_bytes (\<lambda>object. rbnd de_sattr3 (\<lambda>new_attribute. rbnd (de_union de_nfstime3) (\<lambda>guard. rret (object, new_attribute, guard))))"

definition de_mkdir3args :: "((nfs_fh3 \<times> string) \<times> sattr3) reader" where
  "de_mkdir3args = rbnd de_diropargs3 (\<lambda>dirops. rbnd de_sattr3 (\<lambda>attributes. rret (dirops, attributes)))"

definition de_symlink3args :: "((nfs_fh3 \<times> string) \<times> sattr3 \<times> string) reader" where
  "de_symlink3args =
    rbnd de_diropargs3 (\<lambda>dirops. rbnd de_sattr3 (\<lambda>attributes. rbnd de_nfsstring (\<lambda>data. rret (dirops, attributes, data))))"

definition de_link3args :: "(nfs_fh3 \<times> nfs_fh3 \<times> string) reader" where
  "de_link3args = rbnd de_bytes (\<lambda>file. rbnd de_diropargs3 (\<lambda>link. rret (file, link)))"

text \<open>
  CREATE reads its mode at once and the attributes later, when the directory may be changed;
  attributes that cannot be read are noted.
\<close>

definition de_create_attrs :: "(sattr3 \<Rightarrow> createmode3) \<Rightarrow> createmode3 reader" where
  "de_create_attrs how bs = (case de_sattr3 bs of Inl _ \<Rightarrow> Inr (Unreadable, bs) | Inr (a, rest) \<Rightarrow> Inr (how a, rest))"

definition de_createhow :: "createmode3 reader" where
  "de_createhow =
    rbnd de_u32 (\<lambda>c.
      if c = 0 then de_create_attrs UNCHECKED
      else if c = 1 then de_create_attrs GUARDED
      else if c = 2 then rret EXCLUSIVE
      else rfail)"

definition de_mknod_data :: "ftype3 \<Rightarrow> (sattr3 \<times> specdata3) reader" where
  "de_mknod_data t =
    (case t of
       NF3CHR \<Rightarrow> rbnd de_sattr3 (\<lambda>attr. rbnd de_specdata3 (\<lambda>rdev. rret (attr, rdev)))
     | NF3BLK \<Rightarrow> rbnd de_sattr3 (\<lambda>attr. rbnd de_specdata3 (\<lambda>rdev. rret (attr, rdev)))
     | NF3SOCK \<Rightarrow> rbnd de_sattr3 (\<lambda>attr. rret (attr, (0, 0)))
     | NF3FIFO \<Rightarrow> rbnd de_sattr3 (\<lambda>attr. rret (attr, (0, 0)))
     | _ \<Rightarrow> rret (sattr3_default, (0, 0)))"

definition de_mknod_args :: "nfs_call reader" where
  "de_mknod_args =
    rbnd de_diropargs3 (\<lambda>(dir, name). rbnd de_u32 (\<lambda>c.
      let t = (case from_u32 ftype3_code ftype3_variants c of Some t \<Rightarrow> t | None \<Rightarrow> NF3REG)
      in rbnd (de_mknod_data t) (\<lambda>(a, rdev). rret (NFSPROC3_MKNOD dir name t a rdev))))"

text \<open>The arguments of the procedure with a number of \<open>NFSProgram\<close>.\<close>

definition decode_call :: "u32 \<Rightarrow> nfs_call reader" where
  "decode_call proc =
    (if proc = 0 then rret NFSPROC3_NULL
     else if proc = 1 then rbnd de_bytes (\<lambda>fh. rret (NFSPROC3_GETATTR fh))
     else if proc = 2 then rbnd de_setattr3args (\<lambda>(fh, a, guard). rret (NFSPROC3_SETATTR fh a guard))
     else if proc = 3 then rbnd de_diropargs3 (\<lambda>(dir, name). rret (NFSPROC3_LOOKUP dir name))
     else if proc = 4 then rbnd de_bytes (\<lambda>fh. rbnd de_u32 (\<lambda>requested. rret (NFSPROC3_ACCESS fh requested)))
     else if proc = 5 then rbnd de_bytes (\<lambda>fh. rret (NFSPROC3_READLINK fh))
     else if proc = 6 then rbnd de_read3args (\<lambda>(fh, off, cnt). rret (NFSPROC3_READ fh off cnt))
     else if proc = 7 then rbnd de_write3args (\<lambda>(fh, off, cnt, _, data). rret (NFSPROC3_WRITE fh off cnt data))
     else if proc = 8 then rbnd de_diropargs3 (\<lambda>(dir, name). rbnd de_createhow (\<lambda>how. rret (NFSPROC3_CREATE dir name how)))
     else if proc = 9 then rbnd de_mkdir3args (\<lambda>((dir, name), a). rret (NFSPROC3_MKDIR dir name a))
     else if proc = 10 then rbnd de_symlink3args (\<lambda>((dir, name), _, target). rret (NFSPROC3_SYMLINK dir name target))
     else if proc = 11 then de_mknod_args
     else if proc = 12 then rbnd de_diropargs3 (\<lambda>(dir, name). rret (NFSPROC3_REMOVE dir name))
     else if proc = 13 then rbnd de_diropargs3 (\<lambda>(dir, name). rret (NFSPROC3_RMDIR dir name))
     else if proc = 14 then
       rbnd de_diropargs3 (\<lambda>(d, n). rbnd de_diropargs3 (\<lambda>(d', n'). rret (NFSPROC3_RENAME d n d' n')))
     else if proc = 15 then rbnd de_link3args (\<lambda>(fh, dir, name). rret (NFSPROC3_LINK fh dir name))
     else if proc = 16 then rbnd de_readdir3args (\<lambda>(dir, cookie, _, dircount). rret (NFSPROC3_READDIR dir cookie dircount))
     else if proc = 17 then
       rbnd de_readdirplus3args (\<lambda>(dir, cookie, _, dircount, maxcount). rret (NFSPROC3_READDIRPLUS dir cookie dircount maxcount))
     else if proc = 18 then rbnd de_bytes (\<lambda>fh. rret (NFSPROC3_FSSTAT fh))
     else if proc = 19 then rbnd de_bytes (\<lambda>fh. rret (NFSPROC3_FSINFO fh))
     else if proc = 20 then rbnd de_bytes (\<lambda>fh. rret (NFSPROC3_PATHCONF fh))
     else if proc = 21 then rret NFSPROC3_COMMIT
     else rret INVALID)"

text \<open>
  What a client sends for a call: its number and its arguments, with the parts the server reads
  and does not use.
\<close>

record unused_args =
  un_stable :: u32
  un_verf :: bytes
  un_attrs :: sattr3

definition call_proc :: "nfs_call \<Rightarrow> u32" where
  "call_proc c =
    (case c of
       NFSPROC3_NULL \<Rightarrow> 0 | NFSPROC3_GETATTR _ \<Rightarrow> 1 | NFSPROC3_SETATTR _ _ _ \<Rightarrow> 2 | NFSPROC3_LOOKUP _ _ \<Rightarrow> 3 | NFSPROC3_ACCESS _ _ \<Rightarrow> 4
     | NFSPROC3_READLINK _ \<Rightarrow> 5 | NFSPROC3_READ _ _ _ \<Rightarrow> 6 | NFSPROC3_WRITE _ _ _ _ \<Rightarrow> 7 | NFSPROC3_CREATE _ _ _ \<Rightarrow> 8
     | NFSPROC3_MKDIR _ _ _ \<Rightarrow> 9 | NFSPROC3_SYMLINK _ _ _ \<Rightarrow> 10 | NFSPROC3_MKNOD _ _ _ _ _ \<Rightarrow> 11 | NFSPROC3_REMOVE _ _ \<Rightarrow> 12
     | NFSPROC3_RMDIR _ _ \<Rightarrow> 13 | NFSPROC3_RENAME _ _ _ _ \<Rightarrow> 14 | NFSPROC3_LINK _ _ _ \<Rightarrow> 15 | NFSPROC3_READDIR _ _ _ \<Rightarrow> 16
     | NFSPROC3_READDIRPLUS _ _ _ _ \<Rightarrow> 17 | NFSPROC3_FSSTAT _ \<Rightarrow> 18 | NFSPROC3_FSINFO _ \<Rightarrow> 19 | NFSPROC3_PATHCONF _ \<Rightarrow> 20
     | NFSPROC3_COMMIT \<Rightarrow> 21 | INVALID \<Rightarrow> 22)"

definition ser_createhow :: "unused_args \<Rightarrow> createmode3 \<Rightarrow> bytes" where
  "ser_createhow G how =
    (case how of
       UNCHECKED a \<Rightarrow> ser_u32 0 @ ser_sattr3 a
     | GUARDED a \<Rightarrow> ser_u32 1 @ ser_sattr3 a
     | EXCLUSIVE \<Rightarrow> ser_u32 2 @ un_verf G
     | Unreadable \<Rightarrow> ser_u32 0)"

definition ser_mknod_data :: "ftype3 \<Rightarrow> sattr3 \<Rightarrow> specdata3 \<Rightarrow> bytes" where
  "ser_mknod_data t a rdev =
    ser_ftype3 t @
    (if t \<in> {NF3CHR, NF3BLK} then ser_sattr3 a @ ser_specdata3 rdev else if t \<in> {NF3SOCK, NF3FIFO} then ser_sattr3 a else [])"

definition encode_args :: "unused_args \<Rightarrow> nfs_call \<Rightarrow> bytes" where
  "encode_args G c =
    (case c of
       NFSPROC3_NULL \<Rightarrow> []
     | NFSPROC3_GETATTR fh \<Rightarrow> ser_bytes fh
     | NFSPROC3_SETATTR fh a guard \<Rightarrow> ser_bytes fh @ ser_sattr3 a @ ser_union ser_nfstime3 guard
     | NFSPROC3_LOOKUP dir name \<Rightarrow> ser_diropargs3 (dir, name)
     | NFSPROC3_ACCESS fh requested \<Rightarrow> ser_bytes fh @ ser_u32 requested
     | NFSPROC3_READLINK fh \<Rightarrow> ser_bytes fh
     | NFSPROC3_READ fh off cnt \<Rightarrow> ser_bytes fh @ ser_u64 off @ ser_u32 cnt
     | NFSPROC3_WRITE fh off cnt data \<Rightarrow> ser_bytes fh @ ser_u64 off @ ser_u32 cnt @ ser_u32 (un_stable G) @ ser_bytes data
     | NFSPROC3_CREATE dir name how \<Rightarrow> ser_diropargs3 (dir, name) @ ser_createhow G how
     | NFSPROC3_MKDIR dir name a \<Rightarrow> ser_diropargs3 (dir, name) @ ser_sattr3 a
     | NFSPROC3_SYMLINK dir name target \<Rightarrow> ser_diropargs3 (dir, name) @ ser_sattr3 (un_attrs G) @ ser_nfsstring target
     | NFSPROC3_MKNOD dir name t a rdev \<Rightarrow> ser_diropargs3 (dir, name) @ ser_mknod_data t a rdev
     | NFSPROC3_REMOVE dir name \<Rightarrow> ser_diropargs3 (dir, name)
     | NFSPROC3_RMDIR dir name \<Rightarrow> ser_diropargs3 (dir, name)
     | NFSPROC3_RENAME d n d' n' \<Rightarrow> ser_diropargs3 (d, n) @ ser_diropargs3 (d', n')
     | NFSPROC3_LINK fh dir name \<Rightarrow> ser_bytes fh @ ser_diropargs3 (dir, name)
     | NFSPROC3_READDIR dir cookie dircount \<Rightarrow> ser_bytes dir @ ser_u64 cookie @ un_verf G @ ser_u32 dircount
     | NFSPROC3_READDIRPLUS dir cookie dircount maxcount \<Rightarrow>
         ser_bytes dir @ ser_u64 cookie @ un_verf G @ ser_u32 dircount @ ser_u32 maxcount
     | NFSPROC3_FSSTAT fh \<Rightarrow> ser_bytes fh
     | NFSPROC3_FSINFO fh \<Rightarrow> ser_bytes fh
     | NFSPROC3_PATHCONF fh \<Rightarrow> ser_bytes fh
     | NFSPROC3_COMMIT \<Rightarrow> []
     | INVALID \<Rightarrow> [])"

text \<open>The arguments that can be sent: vectors and numbers of the protocol's sizes, and no unreadable attributes.\<close>

definition ok_mknod :: "ftype3 \<Rightarrow> sattr3 \<Rightarrow> specdata3 \<Rightarrow> bool" where
  "ok_mknod t a rdev \<longleftrightarrow>
    ok_sattr3 a \<and> (t \<in> {NF3CHR, NF3BLK} \<or> rdev = (0, 0)) \<and> (t \<in> {NF3CHR, NF3BLK, NF3SOCK, NF3FIFO} \<or> a = sattr3_default)"

definition ok_createhow :: "createmode3 \<Rightarrow> bool" where
  "ok_createhow how \<longleftrightarrow> (case how of UNCHECKED a \<Rightarrow> ok_sattr3 a | GUARDED a \<Rightarrow> ok_sattr3 a | EXCLUSIVE \<Rightarrow> True | Unreadable \<Rightarrow> False)"

definition ok_call :: "nfs_call \<Rightarrow> bool" where
  "ok_call c \<longleftrightarrow>
    (case c of
       NFSPROC3_GETATTR fh \<Rightarrow> fits fh
     | NFSPROC3_SETATTR fh a guard \<Rightarrow> fits fh \<and> ok_sattr3 a
     | NFSPROC3_LOOKUP dir name \<Rightarrow> fits dir \<and> fits name
     | NFSPROC3_ACCESS fh requested \<Rightarrow> fits fh
     | NFSPROC3_READLINK fh \<Rightarrow> fits fh
     | NFSPROC3_READ fh off cnt \<Rightarrow> fits fh \<and> off < 2 ^ 64
     | NFSPROC3_WRITE fh off cnt data \<Rightarrow> fits fh \<and> off < 2 ^ 64 \<and> fits data
     | NFSPROC3_CREATE dir name how \<Rightarrow> fits dir \<and> fits name \<and> ok_createhow how
     | NFSPROC3_MKDIR dir name a \<Rightarrow> fits dir \<and> fits name \<and> ok_sattr3 a
     | NFSPROC3_SYMLINK dir name target \<Rightarrow> fits dir \<and> fits name \<and> fits target
     | NFSPROC3_MKNOD dir name t a rdev \<Rightarrow> fits dir \<and> fits name \<and> ok_mknod t a rdev
     | NFSPROC3_REMOVE dir name \<Rightarrow> fits dir \<and> fits name
     | NFSPROC3_RMDIR dir name \<Rightarrow> fits dir \<and> fits name
     | NFSPROC3_RENAME d n d' n' \<Rightarrow> fits d \<and> fits n \<and> fits d' \<and> fits n'
     | NFSPROC3_LINK fh dir name \<Rightarrow> fits fh \<and> fits dir \<and> fits name
     | NFSPROC3_READDIR dir cookie dircount \<Rightarrow> fits dir \<and> cookie < 2 ^ 64
     | NFSPROC3_READDIRPLUS dir cookie dircount maxcount \<Rightarrow> fits dir \<and> cookie < 2 ^ 64
     | NFSPROC3_FSSTAT fh \<Rightarrow> fits fh
     | NFSPROC3_FSINFO fh \<Rightarrow> fits fh
     | NFSPROC3_PATHCONF fh \<Rightarrow> fits fh
     | _ \<Rightarrow> True)"

definition ok_unused :: "unused_args \<Rightarrow> bool" where
  "ok_unused G \<longleftrightarrow> length (un_verf G) = 8 \<and> ok_sattr3 (un_attrs G)"

lemma createhow_read:
  "ok_createhow how \<Longrightarrow> ok_unused G \<Longrightarrow> \<exists>r. de_createhow (ser_createhow G how @ rest) = Inr (how, r)"
  by (cases how) (simp_all add: de_createhow_def ser_createhow_def ok_createhow_def coding de_create_attrs_def xdr_sattr3.de_ser rret_def)

lemma mknod_read:
  assumes "fits dir" "fits name" "ok_mknod t a rdev"
  shows "de_mknod_args (ser_diropargs3 (dir, name) @ ser_mknod_data t a rdev @ rest) = Inr (NFSPROC3_MKNOD dir name t a rdev, rest)"
proof -
  have t: "from_u32 ftype3_code ftype3_variants (ftype3_code t) = Some t" for t
    by (cases t) (simp_all add: from_u32_def ftype3_variants_def ftype3_code_def)
  show ?thesis using assms
    by (cases t) (simp_all add: de_mknod_args_def ser_mknod_data_def ser_enum_def coding t Let_def de_mknod_data_def ok_mknod_def rret_def)
qed

text \<open>The server reads the arguments a client sends.\<close>

lemma decode_encode:
  assumes "ok_call c" "ok_unused G"
  shows "\<exists>r. decode_call (call_proc c) (encode_args G c @ rest) = Inr (c, r)"
proof (cases c)
  case (NFSPROC3_CREATE dir name how)
  then show ?thesis using assms createhow_read [of how G rest]
    by (auto simp: ok_call_def decode_call_def call_proc_def encode_args_def coding rbnd_def [of de_createhow] rret_def)
next
  case (NFSPROC3_MKNOD dir name t a rdev)
  then show ?thesis using assms mknod_read [of dir name t a rdev rest]
    by (simp add: ok_call_def decode_call_def call_proc_def encode_args_def)
qed (use assms in \<open>simp_all add: ok_call_def ok_unused_def decode_call_def call_proc_def encode_args_def coding rbnd_exact rret_def
      de_setattr3args_def de_read3args_def de_write3args_def de_mkdir3args_def de_symlink3args_def de_link3args_def
      de_readdir3args_def de_readdirplus3args_def\<close>)

section \<open>Results\<close>

definition ser_entry3 :: "u64 \<times> string \<times> u64 \<Rightarrow> bytes" where
  "ser_entry3 e = (case e of (fileid, name, cookie) \<Rightarrow> ser_u64 fileid @ ser_nfsstring name @ ser_u64 cookie)"

definition ser_entryplus3 :: "u64 \<times> string \<times> u64 \<times> fattr3 \<times> nfs_fh3 \<Rightarrow> bytes" where
  "ser_entryplus3 e =
    (case e of (fileid, name, cookie, attr, fh) \<Rightarrow>
       ser_u64 fileid @ ser_nfsstring name @ ser_u64 cookie @ ser_post_op_attr (Some attr) @ ser_post_op_fh3 (Some fh))"

definition dirversion :: "fattr3 option \<Rightarrow> bytes" where
  "dirversion a =
    (case a of
       Some a \<Rightarrow> to_be_bytes 8 (push_bit 32 (unat (fst (fa_mtime a))) OR unat (snd (fa_mtime a)))
     | None \<Rightarrow> replicate 8 0)"

text \<open>The flag before each entry, the end of the list and the end of the directory.\<close>

definition ser_listing :: "('e \<Rightarrow> bytes) \<Rightarrow> 'e list \<Rightarrow> bool \<Rightarrow> bytes" where
  "ser_listing ser es eof = concat (map (\<lambda>e. ser_bool True @ ser e) es) @ ser_bool False @ ser_bool eof"

definition ser_fsinfo3 :: "fattr3 option \<Rightarrow> bytes" where
  "ser_fsinfo3 a =
    ser_post_op_attr a @ ser_u32 0x100000 @ ser_u32 0x1F000 @ ser_u32 0x100000 @ ser_u32 0x100000 @ ser_u32 0x100000 @
    ser_u32 0x100000 @ ser_u32 0x100000 @ ser_u64 (2 ^ 37) @ ser_nfstime3 (0, 1000000) @ ser_u32 (0x2 OR 0x8 OR 0x10)"

definition ser_pathconf3resok :: "fattr3 option \<Rightarrow> bytes" where
  "ser_pathconf3resok a =
    ser_post_op_attr a @ ser_u32 0 @ ser_u32 32768 @ ser_bool True @ ser_bool True @ ser_bool False @ ser_bool True"

definition ser_fsstat3resok :: "fattr3 option \<Rightarrow> bytes" where
  "ser_fsstat3resok a =
    ser_post_op_attr a @ ser_u64 (2 ^ 40) @ ser_u64 (2 ^ 40) @ ser_u64 (2 ^ 40) @ ser_u64 (2 ^ 30) @ ser_u64 (2 ^ 30) @ ser_u64 (2 ^ 30) @
    ser_u32 0xFFFFFFFF"

datatype stable_how = UNSTABLE | DATA_SYNC | FILE_SYNC

definition stable_how_code :: "stable_how \<Rightarrow> u32" where
  "stable_how_code h = (case h of UNSTABLE \<Rightarrow> 0 | DATA_SYNC \<Rightarrow> 1 | FILE_SYNC \<Rightarrow> 2)"

definition serverid :: "u64 \<Rightarrow> bytes" where
  "serverid gennum = to_le_bytes 8 gennum"

definition ser_body :: "nfs_body \<Rightarrow> bytes" where
  "ser_body b =
    (case b of
       Nothing \<Rightarrow> []
     | AttrBody a \<Rightarrow> ser_post_op_attr a
     | WccBody w \<Rightarrow> ser_wcc_data w
     | RenameBody w w' \<Rightarrow> ser_wcc_data w @ ser_wcc_data w'
     | LinkBody a w \<Rightarrow> ser_post_op_attr a @ ser_wcc_data w
     | GetattrOk a \<Rightarrow> ser_fattr3 a
     | LookupOk fh a d \<Rightarrow> ser_bytes fh @ ser_post_op_attr a @ ser_post_op_attr d
     | ReadOk a cnt eof data \<Rightarrow> ser_post_op_attr a @ ser_u32 cnt @ ser_bool eof @ ser_bytes data
     | FsinfoOk a \<Rightarrow> ser_fsinfo3 a
     | AccessOk a granted \<Rightarrow> ser_post_op_attr a @ ser_u32 granted
     | PathconfOk a \<Rightarrow> ser_pathconf3resok a
     | FsstatOk a \<Rightarrow> ser_fsstat3resok a
     | ReaddirOk a es eof \<Rightarrow> ser_post_op_attr a @ dirversion a @ ser_listing ser_entry3 es eof
     | ReaddirplusOk a es eof \<Rightarrow> ser_post_op_attr a @ dirversion a @ ser_listing ser_entryplus3 es eof
     | WriteOk w cnt gen \<Rightarrow> ser_wcc_data w @ ser_u32 cnt @ ser_enum stable_how_code FILE_SYNC @ serverid gen
     | CreateOk fh a w \<Rightarrow> ser_post_op_fh3 (Some fh) @ ser_post_op_attr a @ ser_wcc_data w
     | ReadlinkOk a path \<Rightarrow> ser_post_op_attr a @ ser_nfsstring path)"

definition ser_msg :: "u32 \<Rightarrow> nfs_msg \<Rightarrow> bytes" where
  "ser_msg x m =
    (case m of
       Msg st b \<Rightarrow> ser_rpc_msg (make_success_reply x) @ ser_nfsstat3 st @ ser_body b
     | NullReply \<Rightarrow> ser_rpc_msg (make_success_reply x)
     | GarbageArgs \<Rightarrow> ser_rpc_msg (garbage_args_reply_message x)
     | ProcUnavail \<Rightarrow> ser_rpc_msg (proc_unavail_reply_message x)
     | ProgMismatch v \<Rightarrow> ser_rpc_msg (prog_mismatch_reply_message x v)
     | Undecoded \<Rightarrow> [])"

text \<open>The vectors of a reply that \<open>serialize\<close> accepts; the others make it panic.\<close>

definition msg_fits :: "nfs_msg \<Rightarrow> bool" where
  "msg_fits m =
    (case m of
       Msg st b \<Rightarrow>
         (case b of
            ReadOk _ _ _ data \<Rightarrow> fits data
          | ReadlinkOk _ path \<Rightarrow> fits path
          | ReaddirOk _ es _ \<Rightarrow> list_all (\<lambda>(_, name, _). fits name) es
          | ReaddirplusOk _ es _ \<Rightarrow> list_all (\<lambda>(_, name, _). fits name) es
          | _ \<Rightarrow> True)
     | Undecoded \<Rightarrow> False
     | _ \<Rightarrow> True)"

text \<open>The sizes the directory procedures count are those of the bytes they write.\<close>

lemma sizes_counted:
  "length (ser_rpc_msg (make_success_reply x) @ ser_nfsstat3 NFS3_OK @ ser_post_op_attr (Some a) @ dirversion (Some a)) = DIR_HEADER"
  "length (ser_bool True @ ser_entry3 (i, name, i)) = entry3_size name"
  "length fh = 16 \<Longrightarrow> length (ser_bool True @ ser_entryplus3 (i, name, i, a, fh)) = entryplus3_size name"
  by (simp_all add: length_success_reply ser_enum_def ser_union_def dirversion_def DIR_HEADER_def ser_entry3_def entry3_size_def
      ser_entryplus3_def entryplus3_size_def length_ser_nfsstring ser_bytes_def xdr_pad_def)

end
