(* ===== verification/Rpc_Server.thy ===== *)
theory Rpc_Server
  imports Nfs_Wire "HOL-Library.Sublist"
begin

text \<open>
  The RPC server: the MOUNT and PORTMAP programs (\<open>mount_handlers.rs\<close>, \<open>portmap_handlers.rs\<close>), the
  dispatcher \<open>handle_rpc\<close> (\<open>rpcwire.rs\<close>) over the NFS procedures, and the connections of
  \<open>SocketMessageHandler\<close> and \<open>process_socket\<close> (\<open>tcp.rs\<close>).  The theorems say that the bytes of a call
  have the effect and the reply of the procedure, and that what a connection writes is a stream
  of whole replies to records it received.
\<close>

section \<open>Outcomes\<close>

text \<open>
  A task ends with a reply to send, without one, with an error, which closes the connection, or
  with a panic, which ends the task alone.
\<close>

datatype rpc_outcome = Reply bytes | NoReply | Failed | Crashed

text \<open>The state the tasks share: the table of transactions, the file system and the signals to the mount listener.\<close>

record 's rpc_server =
  sv_transactions :: transactions
  sv_fs :: 's
  sv_signals :: "bool list"

section \<open>PORTMAP\<close>

definition PORTMAP_PROGRAM :: u32 where "PORTMAP_PROGRAM = 100000"
definition PORTMAP_VERSION :: u32 where "PORTMAP_VERSION = 2"

type_synonym pmap_mapping = "u32 \<times> u32 \<times> u32 \<times> u32"

definition de_mapping :: "pmap_mapping reader" where
  "de_mapping = rbnd de_u32 (\<lambda>prog. rbnd de_u32 (\<lambda>vers. rbnd de_u32 (\<lambda>prot. rbnd de_u32 (\<lambda>port. rret (prog, vers, prot, port)))))"

definition pmapproc_null :: "u32 \<Rightarrow> rpc_outcome" where
  "pmapproc_null x = Reply (ser_rpc_msg (make_success_reply x))"

definition pmapproc_getport :: "('s, 'f) rpc_context \<Rightarrow> u32 \<Rightarrow> bytes \<Rightarrow> rpc_outcome" where
  "pmapproc_getport C x args =
    (case de_mapping args of
       Inl _ \<Rightarrow> Failed
     | Inr _ \<Rightarrow> Reply (ser_rpc_msg (make_success_reply x) @ ser_u32 (ucast (local_port C))))"

definition handle_portmap :: "('s, 'f) rpc_context \<Rightarrow> u32 \<Rightarrow> call_body \<Rightarrow> bytes \<Rightarrow> rpc_outcome" where
  "handle_portmap C x call args =
    (if rpcvers_prog call \<noteq> PORTMAP_VERSION then Reply (ser_rpc_msg (prog_mismatch_reply_message x PORTMAP_VERSION))
     else if rpcproc call = 0 then pmapproc_null x
     else if rpcproc call = 3 then pmapproc_getport C x args
     else Reply (ser_rpc_msg (proc_unavail_reply_message x)))"

section \<open>MOUNT\<close>

definition MOUNT_PROGRAM :: u32 where "MOUNT_PROGRAM = 100005"

datatype mountstat3 =
    MNT3_OK | MNT3ERR_PERM | MNT3ERR_NOENT | MNT3ERR_IO | MNT3ERR_ACCES | MNT3ERR_NOTDIR | MNT3ERR_INVAL | MNT3ERR_NAMETOOLONG
  | MNT3ERR_NOTSUPP | MNT3ERR_SERVERFAULT

definition mountstat3_code :: "mountstat3 \<Rightarrow> u32" where
  "mountstat3_code st =
    (case st of
       MNT3_OK \<Rightarrow> 0 | MNT3ERR_PERM \<Rightarrow> 1 | MNT3ERR_NOENT \<Rightarrow> 2 | MNT3ERR_IO \<Rightarrow> 5 | MNT3ERR_ACCES \<Rightarrow> 13 | MNT3ERR_NOTDIR \<Rightarrow> 20
     | MNT3ERR_INVAL \<Rightarrow> 22 | MNT3ERR_NAMETOOLONG \<Rightarrow> 63 | MNT3ERR_NOTSUPP \<Rightarrow> 10004 | MNT3ERR_SERVERFAULT \<Rightarrow> 10006)"

definition mount_reply :: "u32 \<Rightarrow> mountstat3 \<Rightarrow> bytes" where
  "mount_reply x st = ser_rpc_msg (make_success_reply x) @ ser_enum mountstat3_code st"

text \<open>\<open>str::trim\<close>: the white space of Unicode, in UTF-8, is stripped from both ends.\<close>

definition white_space :: "string list" where
  "white_space =
    [[CHR 0x09], [CHR 0x0A], [CHR 0x0B], [CHR 0x0C], [CHR 0x0D], [CHR 0x20], [CHR 0xC2, CHR 0x85], [CHR 0xC2, CHR 0xA0],
     [CHR 0xE1, CHR 0x9A, CHR 0x80], [CHR 0xE2, CHR 0x80, CHR 0x80], [CHR 0xE2, CHR 0x80, CHR 0x81], [CHR 0xE2, CHR 0x80, CHR 0x82],
     [CHR 0xE2, CHR 0x80, CHR 0x83], [CHR 0xE2, CHR 0x80, CHR 0x84], [CHR 0xE2, CHR 0x80, CHR 0x85], [CHR 0xE2, CHR 0x80, CHR 0x86],
     [CHR 0xE2, CHR 0x80, CHR 0x87], [CHR 0xE2, CHR 0x80, CHR 0x88], [CHR 0xE2, CHR 0x80, CHR 0x89], [CHR 0xE2, CHR 0x80, CHR 0x8A],
     [CHR 0xE2, CHR 0x80, CHR 0xA8], [CHR 0xE2, CHR 0x80, CHR 0xA9], [CHR 0xE2, CHR 0x80, CHR 0xAF], [CHR 0xE2, CHR 0x81, CHR 0x9F],
     [CHR 0xE3, CHR 0x80, CHR 0x80]]"

function strip_white :: "string list \<Rightarrow> string \<Rightarrow> string" where
  "strip_white ws s =
    (case find (\<lambda>w. w \<noteq> [] \<and> prefix w s) ws of None \<Rightarrow> s | Some w \<Rightarrow> strip_white ws (drop (length w) s))"
  by pat_completeness auto

termination
  by (relation "measure (\<lambda>(ws, s). length s)") (auto simp: find_Some_iff prefix_def)

declare strip_white.simps [simp del]

definition trim :: "string \<Rightarrow> string" where
  "trim s = rev (strip_white (map rev white_space) (rev (strip_white white_space s)))"

definition trim_both_slashes :: "string \<Rightarrow> string" where
  "trim_both_slashes s = trim_slashes (dropWhile (\<lambda>c. c = slash) s)"

text \<open>The path below the export: \<open>strip_prefix\<close>, the slashes and the white space.\<close>

definition mount_path :: "string \<Rightarrow> string \<Rightarrow> string option" where
  "mount_path export path =
    (if prefix export path then Some (CHR ''/'' # trim (trim_both_slashes (drop (length export) path))) else None)"

definition signal :: "('s, 'f) rpc_context \<Rightarrow> bool \<Rightarrow> bool list \<Rightarrow> bool list" where
  "signal C b sigs = (if mount_signal C then sigs @ [b] else sigs)"

definition ser_mountres3_ok :: "nfs_fh3 \<Rightarrow> bytes" where
  "ser_mountres3_ok fh = ser_bytes fh @ ser_u32s [auth_flavor_code AUTH_NULL, auth_flavor_code AUTH_UNIX]"

definition mountproc3_mnt :: "('s, 'f) rpc_context \<Rightarrow> u32 \<Rightarrow> bytes \<Rightarrow> 's rpc_server \<Rightarrow> rpc_outcome \<times> 's rpc_server" where
  "mountproc3_mnt C x args S =
    (case de_bytes args of
       Inl _ \<Rightarrow> (Failed, S)
     | Inr (path, _) \<Rightarrow>
         let utf8path = (if utf8 (text_of path) then text_of path else '''') in
         (case mount_path (export_name C) utf8path of
            None \<Rightarrow> (Reply (mount_reply x MNT3ERR_NOENT), S)
          | Some path \<Rightarrow>
              (case path_to_id (cx_fs C) path (sv_fs S) of
                 (Inr fileid, s) \<Rightarrow>
                   (Reply (mount_reply x MNT3_OK @ ser_mountres3_ok (id_to_fh (cx_gen C) fileid)),
                    S\<lparr>sv_fs := s, sv_signals := signal C True (sv_signals S)\<rparr>)
               | (Inl (Status _), s) \<Rightarrow> (Reply (mount_reply x MNT3ERR_NOENT), S\<lparr>sv_fs := s\<rparr>)
               | (Inl Aborted, s) \<Rightarrow> (Crashed, S\<lparr>sv_fs := s\<rparr>))))"

definition mountproc3_umnt :: "('s, 'f) rpc_context \<Rightarrow> u32 \<Rightarrow> bytes \<Rightarrow> 's rpc_server \<Rightarrow> rpc_outcome \<times> 's rpc_server" where
  "mountproc3_umnt C x args S =
    (case de_bytes args of
       Inl _ \<Rightarrow> (Failed, S)
     | Inr _ \<Rightarrow> (Reply (mount_reply x MNT3_OK), S\<lparr>sv_signals := signal C False (sv_signals S)\<rparr>))"

definition mountproc3_umnt_all :: "('s, 'f) rpc_context \<Rightarrow> u32 \<Rightarrow> 's rpc_server \<Rightarrow> rpc_outcome \<times> 's rpc_server" where
  "mountproc3_umnt_all C x S = (Reply (mount_reply x MNT3_OK), S\<lparr>sv_signals := signal C False (sv_signals S)\<rparr>)"

definition mountproc3_export :: "('s, 'f) rpc_context \<Rightarrow> u32 \<Rightarrow> rpc_outcome" where
  "mountproc3_export C x =
    (if fits (export_name C)
     then Reply (ser_rpc_msg (make_success_reply x) @ ser_bool True @ ser_bytes (bytes_of (export_name C)) @ ser_bool False @ ser_bool False)
     else Crashed)"

definition handle_mount :: "('s, 'f) rpc_context \<Rightarrow> u32 \<Rightarrow> call_body \<Rightarrow> bytes \<Rightarrow> 's rpc_server \<Rightarrow> rpc_outcome \<times> 's rpc_server" where
  "handle_mount C x call args S =
    (if rpcproc call = 0 then (Reply (ser_rpc_msg (make_success_reply x)), S)
     else if rpcproc call = 1 then mountproc3_mnt C x args S
     else if rpcproc call = 3 then mountproc3_umnt C x args S
     else if rpcproc call = 4 then mountproc3_umnt_all C x S
     else if rpcproc call = 5 then (mountproc3_export C x, S)
     else (Reply (ser_rpc_msg (proc_unavail_reply_message x)), S))"

section \<open>The dispatcher\<close>

definition NFS_PROGRAM :: u32 where "NFS_PROGRAM = 100003"
definition NFS_ACL_PROGRAM :: u32 where "NFS_ACL_PROGRAM = 100227"
definition NFS_ID_MAP_PROGRAM :: u32 where "NFS_ID_MAP_PROGRAM = 100270"
definition NFS_METADATA_PROGRAM :: u32 where "NFS_METADATA_PROGRAM = 200024"

text \<open>\<open>handle_nfs\<close> on bytes: the version is checked before the arguments are read.\<close>

definition nfs_outcome :: "u32 \<Rightarrow> nfs_msg list \<Rightarrow> rpc_outcome" where
  "nfs_outcome x msgs =
    (if msgs = [] then Crashed
     else if Undecoded \<in> set msgs then Failed
     else if list_all msg_fits msgs then Reply (concat (map (ser_msg x) msgs))
     else Crashed)"

definition handle_nfs_bytes :: "('s, 'f) rpc_context \<Rightarrow> u32 \<Rightarrow> call_body \<Rightarrow> bytes \<Rightarrow> 's \<Rightarrow> rpc_outcome \<times> 's" where
  "handle_nfs_bytes C x call args s =
    (case (if rpcvers_prog call = NFS_VERSION then decode_call (rpcproc call) args else Inr (INVALID, args)) of
       Inl _ \<Rightarrow> (Failed, s)
     | Inr (c, _) \<Rightarrow> (case handle_nfs C (rpcvers_prog call) c s of (msgs, s) \<Rightarrow> (nfs_outcome x msgs, s)))"

definition dispatch :: "('s, 'f) rpc_context \<Rightarrow> u32 \<Rightarrow> call_body \<Rightarrow> bytes \<Rightarrow> 's rpc_server \<Rightarrow> rpc_outcome \<times> 's rpc_server" where
  "dispatch C x call args S =
    (if rpcprog call = NFS_PROGRAM then
       (case handle_nfs_bytes C x call args (sv_fs S) of (out, s) \<Rightarrow> (out, S\<lparr>sv_fs := s\<rparr>))
     else if rpcprog call = PORTMAP_PROGRAM then (handle_portmap C x call args, S)
     else if rpcprog call = MOUNT_PROGRAM then handle_mount C x call args S
     else if rpcprog call \<in> {NFS_ACL_PROGRAM, NFS_ID_MAP_PROGRAM, NFS_METADATA_PROGRAM} then
       (Reply (ser_rpc_msg (prog_unavail_reply_message x)), S)
     else (Reply (ser_rpc_msg (prog_unavail_reply_message x)), S))"

text \<open>
  \<open>handle_rpc\<close> for one record.  The times are those of the check for retransmissions and of the
  end of the call, which a panic does not reach.
\<close>

definition caller_context :: "('s, 'f) rpc_context \<Rightarrow> call_body \<Rightarrow> ('s, 'f) rpc_context option" where
  "caller_context C call =
    (if oa_flavor (cred call) = AUTH_UNIX then
       (case de_auth_unix (oa_body (cred call)) of Inl _ \<Rightarrow> None | Inr (auth, _) \<Rightarrow> Some (C\<lparr>cx_auth := auth\<rparr>))
     else Some C)"

definition handle_rpc ::
  "int \<Rightarrow> int \<Rightarrow> int \<Rightarrow> ('s, 'f) rpc_context \<Rightarrow> bytes \<Rightarrow> 's rpc_server \<Rightarrow> rpc_outcome \<times> 's rpc_server" where
  "handle_rpc retention_period now completion_time C input S =
    (case de_rpc_msg input of
       Inl _ \<Rightarrow> (Failed, S)
     | Inr (recv, args) \<Rightarrow>
         (case rpc_content recv of
            REPLY _ \<Rightarrow> (Failed, S)
          | CALL call \<Rightarrow>
              (case caller_context C call of
                 None \<Rightarrow> (Failed, S)
               | Some C \<Rightarrow>
                   if rpcvers call \<noteq> 2 then (Reply (ser_rpc_msg (rpc_vers_mismatch (xid recv))), S)
                   else
                     let key = (xid recv, client_addr C) in
                     (case is_retransmission retention_period now key (sv_transactions S) of
                        (True, ts) \<Rightarrow> (NoReply, S\<lparr>sv_transactions := ts\<rparr>)
                      | (False, ts) \<Rightarrow>
                          (case dispatch C (xid recv) call args (S\<lparr>sv_transactions := ts\<rparr>) of
                             (res, S) \<Rightarrow>
                               (res, if res = Crashed then S
                                     else S\<lparr>sv_transactions := mark_processed completion_time key (sv_transactions S)\<rparr>))))))"

text \<open>The context of a connection, as \<open>handle_forever\<close> makes it: no caller is known yet.\<close>

definition accept_context :: "('s, 'f) rpc_context \<Rightarrow> string \<Rightarrow> ('s, 'f) rpc_context" where
  "accept_context C peer = C\<lparr>client_addr := peer, cx_auth := auth_unix_default\<rparr>"

definition RETENTION :: int where "RETENTION = 60 * 1000000000"

section \<open>A call on the wire\<close>

text \<open>The bytes of a call of an NFS procedure with Unix credentials.\<close>

definition nfs_call_body :: "auth_unix \<Rightarrow> nfs_call \<Rightarrow> call_body" where
  "nfs_call_body a c =
    \<lparr>rpcvers = 2, rpcprog = NFS_PROGRAM, rpcvers_prog = NFS_VERSION, rpcproc = call_proc c,
     cred = \<lparr>oa_flavor = AUTH_UNIX, oa_body = ser_auth_unix a\<rparr>, verf = opaque_auth_default\<rparr>"

definition call_record :: "u32 \<Rightarrow> auth_unix \<Rightarrow> unused_args \<Rightarrow> nfs_call \<Rightarrow> bytes" where
  "call_record x a G c = ser_rpc_msg \<lparr>xid = x, rpc_content = CALL (nfs_call_body a c)\<rparr> @ encode_args G c"

lemma nfs_call_body_vers [simp]: "rpcvers (nfs_call_body a c) = 2"
  by (simp add: nfs_call_body_def)

lemma call_record_read:
  assumes "ok_auth_unix a" "fits (ser_auth_unix a)"
  shows "de_rpc_msg (call_record x a G c) = Inr (\<lparr>xid = x, rpc_content = CALL (nfs_call_body a c)\<rparr>, encode_args G c)"
    and "caller_context C (nfs_call_body a c) = Some (C\<lparr>cx_auth := a\<rparr>)"
proof -
  show "de_rpc_msg (call_record x a G c) = Inr (\<lparr>xid = x, rpc_content = CALL (nfs_call_body a c)\<rparr>, encode_args G c)"
    unfolding call_record_def using assms(2)
    by (intro xdr_rpc_msg.de_ser) (simp add: ok_rpc_body_def ok_call_body_def nfs_call_body_def opaque_auth_default_def fits_def)
  show "caller_context C (nfs_call_body a c) = Some (C\<lparr>cx_auth := a\<rparr>)"
    using xdr_auth_unix.de_ser [OF assms(1), of "[]"] by (simp add: caller_context_def nfs_call_body_def)
qed

text \<open>The number and the status a client reads from a reply.\<close>

definition reply_status :: "bytes \<Rightarrow> io_error + (rpc_msg \<times> nfsstat3) \<times> bytes" where
  "reply_status = rbnd de_rpc_msg (\<lambda>m. rbnd de_nfsstat3 (\<lambda>st. rret (m, st)))"

lemma reply_status_msg: "reply_status (ser_msg x (Msg st b)) = Inr ((make_success_reply x, st), ser_body b)"
  by (simp add: reply_status_def ser_msg_def make_success_reply_def xdr_rpc_msg.de_then coding rret_def)

lemma dispatch_nfs:
  assumes "ok_call c" "ok_unused G" "handle_nfs C NFS_VERSION c (sv_fs S) = (msgs, s)"
    and "rpcprog call = NFS_PROGRAM" "rpcvers_prog call = NFS_VERSION" "rpcproc call = call_proc c"
  shows "dispatch C x call (encode_args G c) S = (nfs_outcome x msgs, S\<lparr>sv_fs := s\<rparr>)"
proof -
  obtain r where "decode_call (call_proc c) (encode_args G c) = Inr (c, r)"
    using decode_encode [OF assms(1,2), of "[]"] by auto
  then show ?thesis using assms(3-) by (simp add: dispatch_def handle_nfs_bytes_def)
qed

text \<open>
  C5.  The wire is transparent.  For every NFS procedure and all arguments of the protocol's
  sizes, the bytes of a call that is no retransmission run the procedure on the arguments and
  the credentials the client sent, and nothing else of the server changes but the table of
  transactions; the reply is the coded result, and of a single result the client reads the
  number of its call and the status the procedure gave.
\<close>

theorem rpc_transparent:
  assumes "ok_call c" "ok_unused G" "ok_auth_unix a" "fits (ser_auth_unix a)"
    and "is_retransmission M now (x, client_addr C) (sv_transactions S) = (False, ts)"
    and "handle_nfs (C\<lparr>cx_auth := a\<rparr>) NFS_VERSION c (sv_fs S) = (msgs, s)" "msgs \<noteq> []" "list_all msg_fits msgs"
  shows "\<exists>reply. handle_rpc M now done C (call_record x a G c) S =
      (Reply reply, S\<lparr>sv_fs := s, sv_transactions := mark_processed done (x, client_addr C) ts\<rparr>) \<and>
    reply = concat (map (ser_msg x) msgs) \<and>
    (\<forall>st b. msgs = [Msg st b] \<longrightarrow> reply_status reply = Inr ((make_success_reply x, st), ser_body b))"
proof -
  have "Undecoded \<notin> set msgs" using assms(8) by (auto simp: list_all_iff msg_fits_def)
  then have "nfs_outcome x msgs = Reply (concat (map (ser_msg x) msgs))" using assms(7,8) by (simp add: nfs_outcome_def)
  then have "dispatch (C\<lparr>cx_auth := a\<rparr>) x (nfs_call_body a c) (encode_args G c) (S\<lparr>sv_transactions := ts\<rparr>) =
      (Reply (concat (map (ser_msg x) msgs)), S\<lparr>sv_transactions := ts, sv_fs := s\<rparr>)"
    using dispatch_nfs [OF assms(1,2), of "C\<lparr>cx_auth := a\<rparr>" "S\<lparr>sv_transactions := ts\<rparr>" msgs s "nfs_call_body a c" x] assms(6)
    by (simp add: nfs_call_body_def)
  then show ?thesis using call_record_read(1) [OF assms(3,4), of x G c] call_record_read(2) [OF assms(3,4), of C c] assms(5)
    by (auto simp: handle_rpc_def reply_status_msg)
qed

text \<open>A copy of the call that arrives while it is remembered changes nothing but the table and has no reply.\<close>

lemma retransmission_dropped:
  assumes "ok_auth_unix a" "fits (ser_auth_unix a)"
    and "is_retransmission M now (x, client_addr C) (sv_transactions S) = (True, ts)"
  shows "handle_rpc M now done C (call_record x a G c) S = (NoReply, S\<lparr>sv_transactions := ts\<rparr>)"
  using call_record_read(1) [OF assms(1,2), of x G c] call_record_read(2) [OF assms(1,2), of C c] assms(3)
  by (simp add: handle_rpc_def)

text \<open>The default context of a connection has the number of the superuser: a call without Unix credentials may do anything.\<close>

lemma anonymous_is_superuser:
  assumes "oa_flavor (cred call) \<noteq> AUTH_UNIX"
  shows "\<exists>C'. caller_context (accept_context C peer) call = Some C' \<and> (\<forall>attr p. check_permission (cx_auth C') attr p)"
  using assms by (simp add: caller_context_def accept_context_def auth_unix_default_def check_permission_def)

text \<open>A call of another RPC version is told that the versions 0 to 0 are supported.\<close>

lemma mismatch_names_no_version:
  assumes "ok_call_body call" "oa_flavor (cred call) \<noteq> AUTH_UNIX" "rpcvers call \<noteq> 2"
  shows "handle_rpc M now done C (ser_rpc_msg \<lparr>xid = x, rpc_content = CALL call\<rparr> @ args) S =
    (Reply (ser_rpc_msg \<lparr>xid = x, rpc_content = REPLY (MSG_DENIED (RPC_MISMATCH (0, 0)))\<rparr>), S)"
  using assms by (simp add: handle_rpc_def xdr_rpc_msg.de_ser ok_rpc_body_def caller_context_def rpc_vers_mismatch_def)

text \<open>The export is compared as text: a path that goes on after it is mounted as another path.\<close>

lemma mount_beside_export: "mount_path ''/data'' ''/database'' = Some ''/base''"
  by (simp add: mount_path_def trim_def strip_white.simps white_space_def trim_both_slashes_def trim_slashes_def)

theorem rpc_transparent_witness:
  "\<exists>reply b. handle_rpc RETENTION 100 200 sample_context
      (call_record 7 auth_unix_default \<lparr>un_stable = 0, un_verf = replicate 8 0, un_attrs = sattr3_default\<rparr> (NFSPROC3_GETATTR (id_to_fh 5 3)))
      \<lparr>sv_transactions = Map.empty, sv_fs = sample_fs, sv_signals = []\<rparr> =
      (Reply reply, \<lparr>sv_transactions = [(7, ''10.0.0.2:700'') \<mapsto> Completed 200], sv_fs = sample_fs, sv_signals = []\<rparr>) \<and>
    reply_status reply = Inr ((make_success_reply 7, NFS3_OK), ser_body (GetattrOk b)) \<and> fa_ftype b = NF3DIR"
proof -
  let ?C = "sample_context\<lparr>cx_auth := auth_unix_default\<rparr>"
  let ?G = "\<lparr>un_stable = 0, un_verf = replicate 8 0, un_attrs = sattr3_default\<rparr>"
  let ?S = "\<lparr>sv_transactions = Map.empty, sv_fs = sample_fs, sv_signals = []\<rparr>"
  let ?b = "stats_to_fattr (cx_dev ?C) (build_stats_from_row (sample_inode 3 0x41ED 2 0))"
  have cx: "cx_fs ?C = cx_fs sample_context" "cx_gen ?C = 5" "client_addr sample_context = ''10.0.0.2:700''"
    by (simp_all add: sample_context_def)
  have run: "handle_nfs ?C NFS_VERSION (NFSPROC3_GETATTR (id_to_fh 5 3)) sample_fs = ([Msg NFS3_OK (GetattrOk ?b)], sample_fs)"
    using sample_getattr cx
    by (simp add: handle_nfs_def nfsproc3_getattr_def with_id_def fh_back getattr_or_def on_vfs_def nfs_getattr_def ask_as_def
        or_noent_def nret_def id_to_fs_ino_def secafs_fs_def reply_with_def)
  have new: "is_retransmission RETENTION 100 (7, client_addr sample_context) (sv_transactions ?S) = (False, [(7, ''10.0.0.2:700'') \<mapsto> InProgress])"
    by (simp add: is_retransmission_def housekeeping_def cx)
  have ok: "ok_call (NFSPROC3_GETATTR (id_to_fh 5 3))" "ok_unused ?G" "ok_auth_unix auth_unix_default" "fits (ser_auth_unix auth_unix_default)"
    by (simp_all add: ok_call_def fits_def id_to_fh_def ok_unused_def ok_sattr3_def sattr3_default_def ok_auth_unix_def auth_unix_default_def
        ser_auth_unix_def ser_bytes_def ser_u32s_def xdr_pad_def)
  have "fa_ftype ?b = NF3DIR"
    by (simp add: stats_to_fattr_def build_stats_from_row_def sample_inode_def ftype_of_mode_def S_IFMT_def S_IFREG_def S_IFDIR_def u32_of_i64_def)
  then show ?thesis using rpc_transparent [OF ok new, of "[Msg NFS3_OK (GetattrOk ?b)]" sample_fs 200] run
    by (auto simp: msg_fits_def mark_processed_def cx)
qed

text \<open>Mounting the export itself gives the handle of the root directory.\<close>

lemma mount_gives_root:
  assumes "utf8 path" "fits path" "mount_path (export_name C) path = Some ''/''" "cx_gen C < 2 ^ 64"
  shows "\<exists>fh. mountproc3_mnt C x (ser_bytes (bytes_of path)) S =
      (Reply (mount_reply x MNT3_OK @ ser_mountres3_ok fh), S\<lparr>sv_signals := signal C True (sv_signals S)\<rparr>) \<and>
    fh_to_id (cx_gen C) fh = Inr NFS_ROOT_INO"
proof -
  have "path_to_id (cx_fs C) ''/'' s = (Inr NFS_ROOT_INO, s)" for s
    by (simp add: path_to_id_def nret_def)
  moreover have "fh_to_id (cx_gen C) (id_to_fh (cx_gen C) NFS_ROOT_INO) = Inr NFS_ROOT_INO"
    using assms(4) by (simp add: fh_back NFS_ROOT_INO_def)
  moreover have "de_bytes (ser_bytes (bytes_of path)) = Inr (bytes_of path, [])"
    using xdr_bytes.de_ser [of "bytes_of path" "[]"] assms(2) by simp
  ultimately show ?thesis using assms(1,3) by (auto simp: mountproc3_mnt_def)
qed

text \<open>The export name of a listener: \<open>with_export_name\<close> puts one slash before the name and none after it.\<close>

definition with_export_name :: "string \<Rightarrow> string" where
  "with_export_name name = slash # dropWhile (\<lambda>c. c = slash) (trim_slashes name)"

lemma mount_path_export: "mount_path e (e @ replicate k slash) = Some ''/''"
  by (simp add: mount_path_def trim_both_slashes_def trim_slashes_def trim_def strip_white.simps white_space_def)

section \<open>Connections\<close>

text \<open>
  A connection: the reader of records, the tasks it spawned that have not run, the channel of
  their results, what was written to the socket, and for the statements the records received and
  the replies sent.  Tasks run in any order, each as a whole; other connections may change the
  shared state at any time.  A write of the socket may fail, and the reply is then dropped and the
  loop goes on; a failure after part of a record went out is left out.
\<close>

record 's connection =
  cn_handler :: message_handler
  cn_tasks :: "bytes list"
  cn_channel :: "rpc_outcome list"
  cn_out :: bytes
  cn_open :: bool
  cn_server :: "'s rpc_server"
  cn_received :: "bytes list"
  cn_sent :: "bytes list"

definition new_connection :: "'s rpc_server \<Rightarrow> 's connection" where
  "new_connection S =
    \<lparr>cn_handler = new_handler, cn_tasks = [], cn_channel = [], cn_out = [], cn_open = True, cn_server = S, cn_received = [], cn_sent = []\<rparr>"

text \<open>What a task sends to the channel.\<close>

definition task_result :: "rpc_outcome \<Rightarrow> rpc_outcome list" where
  "task_result out = (case out of Reply m \<Rightarrow> [Reply m] | Failed \<Rightarrow> [Failed] | _ \<Rightarrow> [])"

inductive conn_reach :: "int \<Rightarrow> ('s, 'f) rpc_context \<Rightarrow> 's connection \<Rightarrow> bool" for M C where
  accepted: "conn_reach M C (new_connection S)"
| reads: "conn_reach M C N \<Longrightarrow> cn_open N \<Longrightarrow> receive (cn_handler N) buf = (msgs, h) \<Longrightarrow>
    conn_reach M C (N\<lparr>cn_handler := h, cn_tasks := cn_tasks N @ msgs, cn_received := cn_received N @ msgs\<rparr>)"
| runs: "conn_reach M C N \<Longrightarrow> cn_tasks N = ts @ r # ts' \<Longrightarrow> handle_rpc M now finish C r (cn_server N) = (out, S) \<Longrightarrow>
    conn_reach M C (N\<lparr>cn_tasks := ts @ ts', cn_server := S, cn_channel := cn_channel N @ task_result out\<rparr>)"
| others: "conn_reach M C N \<Longrightarrow> conn_reach M C (N\<lparr>cn_server := S\<rparr>)"
| writes: "conn_reach M C N \<Longrightarrow> cn_open N \<Longrightarrow> cn_channel N = Reply m # q \<Longrightarrow> write_fragment m = Some bs \<Longrightarrow>
    conn_reach M C (N\<lparr>cn_channel := q, cn_out := cn_out N @ bs, cn_sent := cn_sent N @ [m]\<rparr>)"
| fails: "conn_reach M C N \<Longrightarrow> cn_open N \<Longrightarrow> cn_channel N = Reply m # q \<Longrightarrow> conn_reach M C (N\<lparr>cn_channel := q\<rparr>)"
| too_long: "conn_reach M C N \<Longrightarrow> cn_channel N = Reply m # q \<Longrightarrow> write_fragment m = None \<Longrightarrow> conn_reach M C (N\<lparr>cn_open := False\<rparr>)"
| breaks: "conn_reach M C N \<Longrightarrow> cn_channel N = Failed # q \<Longrightarrow> conn_reach M C (N\<lparr>cn_open := False\<rparr>)"
| closes: "conn_reach M C N \<Longrightarrow> conn_reach M C (N\<lparr>cn_open := False\<rparr>)"

text \<open>A reply that answers one of some records.\<close>

definition answers :: "int \<Rightarrow> ('s, 'f) rpc_context \<Rightarrow> bytes list \<Rightarrow> bytes \<Rightarrow> bool" where
  "answers M C rs m \<longleftrightarrow> (\<exists>r \<in> set rs. \<exists>now finish S S'. handle_rpc M now finish C r S = (Reply m, S'))"

lemma answers_mono: "answers M C rs m \<Longrightarrow> set rs \<subseteq> set rs' \<Longrightarrow> answers M C rs' m"
  unfolding answers_def by blast

definition conn_inv :: "int \<Rightarrow> ('s, 'f) rpc_context \<Rightarrow> 's connection \<Rightarrow> bool" where
  "conn_inv M C N \<longleftrightarrow>
    set (cn_tasks N) \<subseteq> set (cn_received N) \<and>
    length (cn_tasks N) + length (cn_channel N) + length (cn_sent N) \<le> length (cn_received N) \<and>
    (\<forall>m. Reply m \<in> set (cn_channel N) \<or> m \<in> set (cn_sent N) \<longrightarrow> answers M C (cn_received N) m) \<and>
    (\<forall>m \<in> set (cn_sent N). length m < 2 ^ 31) \<and> cn_out N = concat (map (\<lambda>m. mark_record [m]) (cn_sent N))"

lemma conn_inv_runs:
  assumes "conn_inv M C N" "cn_tasks N = ts @ r # ts'" "handle_rpc M now finish C r (cn_server N) = (out, S)"
  shows "conn_inv M C (N\<lparr>cn_tasks := ts @ ts', cn_server := S, cn_channel := cn_channel N @ task_result out\<rparr>)"
proof -
  have "r \<in> set (cn_received N)" using assms(1,2) by (auto simp: conn_inv_def)
  then have "answers M C (cn_received N) m" if "out = Reply m" for m using assms(3) that unfolding answers_def by blast
  moreover have "length (task_result out) \<le> 1" by (cases out) (simp_all add: task_result_def)
  ultimately show ?thesis using assms(1,2) by (auto simp: conn_inv_def task_result_def split: rpc_outcome.splits)
qed

lemma conn_reach_inv: "conn_reach M C N \<Longrightarrow> conn_inv M C N"
proof (induction rule: conn_reach.induct)
  case (accepted S)
  then show ?case by (simp add: conn_inv_def new_connection_def)
next
  case (reads N buf msgs h)
  then show ?case by (auto simp: conn_inv_def intro: answers_mono)
next
  case (runs N ts r ts' now finish out S)
  then show ?case using conn_inv_runs by blast
next
  case (writes N m q bs)
  then show ?case using write_fragment_record [OF writes(4)] by (auto simp: conn_inv_def)
qed (simp_all add: conn_inv_def)

text \<open>
  C26.  A connection writes whole replies.  Whatever the pieces in which its bytes arrive, the order
  in which its tasks run and what other connections do to the server, what the peer reads from
  the connection is a sequence of complete messages, each of them the reply to a record it sent,
  and not more of them than records; replies may be lost to failing writes.  (A write that fails
  after part of a record went out is not modelled.)
\<close>

theorem connection_writes_replies:
  assumes "conn_reach M C N" and "concat bufs = cn_out N"
  shows "receive_all new_handler bufs = (cn_sent N, new_handler) \<and>
    length (cn_sent N) \<le> length (cn_received N) \<and> (\<forall>m \<in> set (cn_sent N). answers M C (cn_received N) m)"
proof -
  have inv: "conn_inv M C N" using assms(1) by (rule conn_reach_inv)
  have "drain [] (concat (map mark_record (map (\<lambda>m. [m]) (cn_sent N)))) = (cn_sent N, new_handler)"
    using inv drain_records [of "map (\<lambda>m. [m]) (cn_sent N)"] by (auto simp: conn_inv_def comp_def)
  moreover have "drain [] [] = ([], new_handler)" using drain_records [of "[]"] by simp
  ultimately have "receive_all new_handler bufs = (cn_sent N, new_handler)"
    using receive_all_drain [of new_handler bufs] inv assms(2) by (simp add: conn_inv_def comp_def new_handler_def)
  then show ?thesis using inv by (simp add: conn_inv_def)
qed

theorem connection_writes_replies_witness:
  "\<exists>N. conn_reach RETENTION sample_context N \<and> cn_sent N = [ser_rpc_msg (make_success_reply 9)] \<and>
    receive_all new_handler [cn_out N] = (cn_sent N, new_handler) \<and>
    length (cn_sent N) \<le> length (cn_received N) \<and> (\<forall>m \<in> set (cn_sent N). answers RETENTION sample_context (cn_received N) m)"
proof -
  let ?S = "\<lparr>sv_transactions = Map.empty, sv_fs = sample_fs, sv_signals = []\<rparr>"
  let ?G = "\<lparr>un_stable = 0, un_verf = replicate 8 0, un_attrs = sattr3_default\<rparr>"
  let ?r = "call_record 9 auth_unix_default ?G NFSPROC3_NULL"
  let ?m = "ser_rpc_msg (make_success_reply 9)"
  have ok: "ok_call NFSPROC3_NULL" "ok_unused ?G" "ok_auth_unix auth_unix_default" "fits (ser_auth_unix auth_unix_default)"
    by (simp_all add: ok_call_def fits_def ok_unused_def ok_sattr3_def sattr3_default_def ok_auth_unix_def auth_unix_default_def
        ser_auth_unix_def ser_bytes_def ser_u32s_def xdr_pad_def)
  have out: "fst (handle_rpc RETENTION 1 2 sample_context ?r ?S) = Reply ?m"
    using call_record_read(1) [OF ok(3,4), of 9 ?G NFSPROC3_NULL] call_record_read(2) [OF ok(3,4), of sample_context NFSPROC3_NULL]
    by (simp add: handle_rpc_def Let_def is_retransmission_def housekeeping_def dispatch_def nfs_call_body_def handle_nfs_bytes_def
        decode_call_def call_proc_def rret_def handle_nfs_def nfs_outcome_def msg_fits_def ser_msg_def)
  have "length ?r < 2 ^ 31"
    by (simp add: call_record_def ser_rpc_msg_def ser_rpc_body_def nfs_call_body_def ser_call_body_def ser_opaque_auth_def ser_enum_def
        ser_bytes_def ser_auth_unix_def auth_unix_default_def ser_u32s_def opaque_auth_default_def encode_args_def xdr_pad_def)
  then have "receive new_handler (mark_record [?r]) = ([?r], new_handler)"
    using drain_records [of "[[?r]]"] by (simp add: receive_def new_handler_def)
  from conn_reach.reads [OF conn_reach.accepted, of ?S, simplified new_connection_def, simplified, OF this]
  have "conn_reach RETENTION sample_context
      \<lparr>cn_handler = new_handler, cn_tasks = [?r], cn_channel = [], cn_out = [], cn_open = True, cn_server = ?S, cn_received = [?r], cn_sent = []\<rparr>"
    .
  from conn_reach.runs [OF this, of "[]" ?r "[]" 1 2 "Reply ?m"] out obtain S where
    "conn_reach RETENTION sample_context
      \<lparr>cn_handler = new_handler, cn_tasks = [], cn_channel = [Reply ?m], cn_out = [], cn_open = True, cn_server = S, cn_received = [?r], cn_sent = []\<rparr>"
    by (cases "handle_rpc RETENTION 1 2 sample_context ?r ?S") (auto simp: task_result_def)
  from conn_reach.writes [OF this, of ?m "[]" "mark_record [?m]"] obtain N where
    "conn_reach RETENTION sample_context N" "cn_sent N = [?m]"
    by (auto simp: write_fragment_def length_success_reply)
  then show ?thesis using connection_writes_replies [of RETENTION sample_context N "[cn_out N]"] by auto
qed

end
