(* ===== verification/Spec2Isabelle.thy ===== *)
theory Spec2Isabelle
  imports Rollback Overlay_Theorems Tool_Calls Volume Sandbox Dir_Records Fuse_Replies Nfs_Pages Rpc_Server
begin

text \<open>
  \<^bold>\<open>SecAFS: a verification development of the Rust SDK.\<close>

  \<^bold>\<open>The program.\<close>  SecAFS (\<open>src/solutions/secafs\<close>) keeps a POSIX-like filesystem, a key-value
  store and an audit trail of tool calls in the tables of a PostgreSQL database.  The Rust SDK
  (\<open>sdk/rust/src\<close>) is its core: the command line, the FUSE and the NFS servers (\<open>cli/src\<close>) are front
  ends of the \<open>FileSystem\<close> trait it implements.  Beside it stands a sandbox (\<open>sandbox/src\<close>) that
  runs a process with its own table of mounts and file descriptors.  The parts are
  \<^item> \<open>filesystem/secafs.rs\<close>: the filesystem.  \<open>SecAFSFile\<close> is an open file over the chunk table
    \<open>fs_data\<close>; \<open>impl FileSystem for SecAFS\<close> is the interface by inode numbers; the inherent
    methods are the interface by paths; \<open>DentryCache\<close> is a cache of directory entries that
    all clones of a filesystem share;
  \<^item> \<open>snapshot/*.rs\<close>: copy-on-write rollback.  Triggers journal the changes of five tables under
    the current snapshot number of a volume; \<open>commit\<close> closes a snapshot; \<open>restore_to\<close> replays
    the journal backwards;
  \<^item> \<open>filesystem/overlayfs.rs\<close>: a copy-on-write overlay of a SecAFS over a read-only base filesystem;
    \<open>filesystem/volume.rs\<close>: volumes, the directories below the root that sessions mount;
  \<^item> \<open>kvstore.rs\<close>: the key-value store; \<open>toolcalls.rs\<close>: the audit trail;
    \<open>schema.rs\<close>: the version check of a database;
  \<^item> \<open>db.rs\<close>: the connection, its transactions and the decoding of column values;
  \<^item> \<open>cli/src/fuse.rs\<close>: the FUSE server, which translates the requests of the kernel into calls of the
    trait, keeps the open files, and shows the root of a volume as inode 1;
  \<^item> \<open>cli/src/nfs.rs\<close> and \<open>cli/src/nfsserve\<close>: the NFS server.  \<open>AgentNFS\<close> serves files by number from the trait,
    \<open>permissions.rs\<close> decides what a caller may do, and \<open>nfs_handlers.rs\<close> holds the procedures of the protocol;
    \<open>xdr.rs\<close> and \<open>rpc.rs\<close> code the messages, \<open>rpcwire.rs\<close>, \<open>transaction_tracker.rs\<close> and \<open>tcp.rs\<close> carry them, and
    \<open>mount_handlers.rs\<close> and \<open>portmap_handlers.rs\<close> serve the two programs beside NFS;
  \<^item> \<open>sandbox/src\<close>: the sandbox.  \<open>vfs/fdtable.rs\<close> is the table that maps virtual to kernel descriptors,
    \<open>vfs/mount.rs\<close> and \<open>vfs/bind.rs\<close> the mounts, \<open>syscall/*.rs\<close> the handlers of the intercepted system
    calls, and \<open>sandbox/mod.rs\<close> the tables of all processes.

  \<^bold>\<open>How it is modelled.\<close>  An operation of the sources is a function from a state to a result (a
  value or an \<open>error\<close>) and the next state, written with the combinators \<open>bnd\<close>, \<open>sq\<close>, \<open>ok_or\<close>,
  \<open>try_op\<close> of \<open>Prelude\<close> in the order of the source's statements; \<open>?\<close> is \<open>bnd\<close>.  The state is a
  database session (\<open>conn\<close>: tables as lists of rows, transaction state, serials, session
  settings), extended by the entry cache for the filesystem (\<open>fs_state\<close>).  A SQL statement is
  the relational operation it denotes together with the constraints, the \<open>ON DELETE CASCADE\<close>
  references and the undo triggers of the schema.  What is not code of the repository is a
  parameter: the schedule \<open>faults\<close> says which statements the server fails, \<open>clock\<close> what
  \<open>SystemTime::now\<close> reads, the record \<open>lru_ops\<close> is the crate \<open>lru\<close> (its documented laws are the
  locale \<open>lru_cache\<close>), the record \<open>driver\<close> the conversions of \<open>tokio_postgres\<close> (locale
  \<open>pg_driver\<close>), \<open>ts_lib\<close> the timestamp texts of the server and the parser of \<open>chrono\<close>, \<open>ser\<close> and
  \<open>de\<close> are \<open>serde_json\<close>, \<open>coll\<close> is the collation of the database, \<open>base_fs\<close> the trait object below an
  overlay (locale \<open>base_layer\<close>, interpreted on a SecAFS that nobody writes), \<open>readings\<close> the
  stream of clock readings of a compound operation, and \<open>catalogue\<close> the catalogue of the server.
  In the sandbox the record \<open>env\<close> holds the kernel the calls are injected into, the access to the memory
  of the process and the trait objects of virtual files, and \<open>canonicalize\<close> is an argument; the
  FUSE and the NFS server run over any \<open>file_system\<close>, the record of the trait's methods; \<open>dev_lib\<close> holds the
  device numbers of the crate \<open>libc\<close>.
  \<open>u32\<close> values are 32-bit words, \<open>u64\<close> values natural numbers with the wrap-around of release
  builds written out, BIGINT columns integers with the casts of the sources.

  \<^bold>\<open>The theories.\<close>
  \<^item> \<open>Prelude\<close>: integers and casts, errors, the state-and-error monad, a preservation calculus,
    tables as lists with unique keys.
  \<^item> \<open>Schema\<close>: the rows of all tables, file modes, \<open>Stats\<close>.
  \<^item> \<open>Session\<close>: statements, transactions, undo capture; which statements run when nothing fails
    (\<open>ready\<close>), the locale \<open>session_invariant\<close> for what every statement keeps, and the calculus
    for all-or-nothing transactions.
  \<^item> \<open>File_Handle\<close>: \<open>SecAFSFile\<close>.  \<open>contents\<close> is the flat byte array a chunk table stands for;
    reads, writes and truncation refine the array operations \<open>a_read\<close>, \<open>a_write\<close>,
    \<open>a_truncate\<close>; failures of the transactional operations change nothing.
  \<^item> \<open>Dentry_Cache\<close>, \<open>Inode_Ops\<close>, \<open>Namespace\<close>, \<open>Namespace_Theorems\<close>: the interface by inode
    numbers.  \<open>ns_inv\<close> is the invariant of the name space (unique keys, no dangling entries,
    parents are directories, link counts are entry counts); every operation is described by its
    effect on the maps \<open>dir_map\<close> and \<open>ino_map\<close>.
  \<^item> \<open>Fs_Machine\<close>: the same interface as a step relation; every state reachable by operations the client may
    send (\<open>allowed\<close>) is \<open>fs_good\<close>.
  \<^item> \<open>Paths\<close>, \<open>Path_Ops\<close>, \<open>Path_Theorems\<close>, \<open>Path_Data\<close>: path normalisation, resolution through
    the cache, symbolic links, and the interface by paths.
  \<^item> \<open>Db_Value\<close>: the decoding of column values.
  \<^item> \<open>Journal\<close>, \<open>Snapshot\<close>, \<open>Restore\<close>, \<open>Rollback\<close>: the undo journal as a sequence of inverse
    operations (locales \<open>journalled_table\<close> and \<open>keyed_table\<close>), the snapshot operations, the
    replay (locale \<open>replayable\<close>), and the theorem that a restore brings back the rows of a
    committed snapshot whatever clients did since.
  \<^item> \<open>Kv_Store\<close>: the key-value store refines a map.
  \<^item> \<open>Fs_Init\<close>: opening a filesystem, \<open>SecAFS::from_pool\<close>, gives a state that is \<open>fs_good\<close>, the start
    of the step relation of \<open>Fs_Machine\<close>; the version check accepts what it should.
  \<^item> \<open>Overlay\<close>, \<open>Overlay_Theorems\<close>: the overlay (locale \<open>layers\<close>).  A lookup is the union of the
    layers in which a whiteout hides both (\<open>SPEC.md\<close> puts the delta before the whiteout), a name unlinked through a
    number of the delta stays hidden, opening a base file copies it up.
  \<^item> \<open>Tool_Calls\<close>: the audit trail is append only; what the statistics count.
  \<^item> \<open>Volume\<close>: creating and destroying volumes.
  \<^item> \<open>Os_Names\<close>: error numbers and well-formed UTF-8, which the server and the sandbox share.
  \<^item> \<open>Fuse\<close>: every request of the FUSE server.  \<open>Confined\<close>: which rows an operation of a SecAFS can touch
    (locales \<open>growing_fs\<close> and \<open>confined_fs\<close>), also when statements fail half way.  \<open>Fuse_Session\<close>: the
    server as a state machine; a mount of a volume stays inside the volume.  \<open>Fuse_Replies\<close>: a
    listing in pages is complete, and file handles are not handed out twice.
  \<^item> \<open>Nfs_Vfs\<close>, \<open>Nfs_Handlers\<close>: the NFS server, from the adapter to the dispatcher.  \<open>Nfs_Theorems\<close>: file handles, and
    that no call changes anything for a caller without the permission of POSIX, three unchecked things apart
    (locale \<open>reading_fs\<close>).  \<open>Nfs_Pages\<close>: \<open>READDIRPLUS\<close>
    lists a directory without hard links completely.
  \<^item> \<open>Xdr\<close>: the coding of the basic and the protocol types; the locale \<open>xdr_codec\<close> is the contract of the trait \<open>XDR\<close> and
    every type interprets it.  \<open>Rpc\<close>: the messages of \<open>rpc.rs\<close>, record marking, which reassembles every
    fragmentation, and the table of transactions as a step relation, which lets no call run twice within the
    retention period.  \<open>Nfs_Wire\<close>: arguments and results of the NFS procedures as bytes, with the sizes the directory
    procedures count.  \<open>Rpc_Server\<close>: the MOUNT and PORTMAP programs, \<open>handle_rpc\<close>, which runs the procedure the bytes name
    and replies with its coded result, and the connections, which write whole replies whatever the order of the tasks.
  \<^item> \<open>Fd_Table\<close>: the descriptor table of the sandbox allocates the lowest free descriptor.
    \<open>Mounts\<close>: the mount table, bind mounts and the parser of mount options.  \<open>Sys_Calls\<close>: the
    handlers.  \<open>Sandbox\<close>: the processes as a state machine; their tables stay well formed and apart, and the
    descriptor calls refine those of POSIX (locales \<open>change\<close> and \<open>table_change\<close>).  \<open>Dir_Records\<close>: the records of
    \<open>getdents64\<close> read back as the directory.

  \<^bold>\<open>Bounds.\<close>  Recursion is structural or has a termination proof; the loops that follow symbolic
  links count down from the limit of the source (\<open>max_symlink_depth\<close>), so no fuel is chosen
  by the model.  The recursive query that destroys a volume may not end and is a partial function;
  \<open>Volume\<close> proves exactly when it returns.  File offsets are bounded by \<open>2^63\<close> where a theorem speaks of the byte array,
  the range the BIGINT columns can hold; confinement of a mount is stated for sessions that do not exhaust the serial of
  inodes, and freshness of file handles for fewer than \<open>2^64 - 1\<close> requests.

  \<^bold>\<open>Where the code does less than its specification.\<close>  Some properties hold of the code only under conditions that
  it does not check; the theorem states the condition, its text names it, and a theorem beside it shows what
  happens without: an entry renamed onto itself or made below a file (\<open>Fs_Machine\<close>), names over the limit by path
  (\<open>Path_Theorems\<close>), mount roots that are not canonical (\<open>Mounts\<close>), parents known by a number of the base layer
  (\<open>Overlay_Theorems\<close>), a cycle of directories below a volume (\<open>Volume\<close>), the standard descriptors closed, negative or equal
  descriptors and a failing close in \<open>dup2\<close> (\<open>Sandbox\<close>), and the time of the server, the present owner and devices
  in the NFS procedures (\<open>Nfs_Theorems\<close>).

  \<^bold>\<open>Not modelled.\<close>  Interleavings of several sessions of one pool (the model follows one session;
  what the others see is \<open>committed\<close>), the text of SQL statements and its rewriting in
  \<open>db.rs\<close>, and everything listed as such in the component list: the kernel protocol of the vendored
  \<open>fuser\<close>, the sockets below the NFS server (its tasks run as a whole, in any order; a write succeeds or fails as a whole), the command line with its daemon and RPC,
  \<open>HostFS\<close> (system calls only; as the base of an overlay its lookups are taken to succeed), the TypeScript and Python SDKs, and the other
  solutions of the repository, which share no code with SecAFS.
\<close>

end
